(* ===== verification/Prelude.thy ===== *)
theory Prelude
  imports Main "HOL-Library.Finite_Map" "HOL-Library.List_Lexorder" "HOL-Library.Char_ord"
begin

text \<open>
  Shared vocabulary of the development: Go error values and results, byte strings and the
  few standard-library string routines the collector uses, instants and durations, the
  protobuf timestamp library as a parameter, and string-keyed Go maps as finite maps.

  Go strings are byte strings. They are modelled as \<^typ>\<open>string\<close>, one \<^typ>\<open>char\<close> per byte;
  the case-folding and trimming routines are those of the ASCII range (bytes above 127 are
  left alone), which is what Go does on ASCII text. Bytewise order is the lexicographic
  order of the imported theories, so that \<^const>\<open>sort\<close> is Go's \<open>sort.Strings\<close>.
\<close>

named_theorems go_defs \<open>definitions of the small standard-library routines\<close>

subsection \<open>Errors and results\<close>

text \<open>
  The sentinel errors of the packages (\<open>var ErrX = errors.New(...)\<close>). An error value is
  either plain text, a sentinel with text (\<open>fmt.Errorf("%w: ...")\<close>), a sentinel around
  another error (\<open>fmt.Errorf("%w: %w")\<close>) or text around another error. Texts are short
  tags of the format string: nothing in the program inspects them except where a
  definition says so.
\<close>

datatype response_sentinel =
    ErrResponseBuild | ErrPolicyDenied | ErrApprovalRequired | ErrApprovalInvalid
  | ErrSafetyViolation | ErrExecutionFailed | ErrResponseState

datatype detect_sentinel =
    ErrInvalidTelemetry | ErrRuleEvaluation | ErrDetectionBuild | ErrAlertBuild | ErrRuleRegistry

datatype incident_sentinel =
    ErrIncidentBuild | ErrIncidentTransition | ErrIncidentNotFound | ErrEvidenceBuild

datatype pipeline_sentinel =
    ErrInvalidSourceEvent | ErrNormalization | ErrContractValidation | ErrEnrichment
  | ErrSink | ErrDetection | ErrIncident | ErrEvidence

datatype store_sentinel = ErrNotFound | ErrDuplicate | ErrInvalid | ErrCorrupted

datatype asset_sentinel = ErrCanonicalize | ErrLifecycle | ErrDiscovery

datatype auth_sentinel =
  ErrMissingCredentials | ErrInvalidCredentials | ErrExpiredCredential | ErrForbidden

datatype validation_sentinel = ErrValidationBuild | ErrProvider | ErrProviderOutput | ErrRegistry

datatype sentinel =
    Response response_sentinel | Detect detect_sentinel | Incident incident_sentinel
  | Pipeline pipeline_sentinel | Store store_sentinel | Asset asset_sentinel
  | Auth auth_sentinel | Validation validation_sentinel

datatype err =
    Plain string
  | Sent sentinel string
  | Wrap sentinel err
  | Ctx string err

text \<open>\<open>errors.Is\<close> along the wrapping chain.\<close>

fun errors_Is :: "err \<Rightarrow> sentinel \<Rightarrow> bool" where
  "errors_Is (Plain _) s = False"
| "errors_Is (Sent t _) s = (t = s)"
| "errors_Is (Wrap t e) s = (t = s \<or> errors_Is e s)"
| "errors_Is (Ctx _ e) s = errors_Is e s"

text \<open>\<open>Error()\<close>: the text of an error value, in the tags used here.\<close>

fun err_Error :: "err \<Rightarrow> string" where
  "err_Error (Plain t) = t"
| "err_Error (Sent _ t) = t"
| "err_Error (Wrap _ e) = err_Error e"
| "err_Error (Ctx t e) = t @ '': '' @ err_Error e"

text \<open>A Go \<open>error\<close> return is an optional error; a \<open>(T, error)\<close> return is a sum.\<close>

type_synonym goerr = "err option"
type_synonym 'a res = "err + 'a"

text \<open>
  What a method of a stateful component ends in: a value, an error, a value together with an
  error, or a panic.
\<close>

datatype 'a outcome = Ret 'a | Fail err | RetFail 'a err | Panicked

text \<open>
  \<open>first_err\<close> is the early-return idiom: a list of checks in source order, of which the
  first failing one is the result.
\<close>

fun first_err :: "goerr list \<Rightarrow> goerr" where
  "first_err [] = None"
| "first_err (Some e # _) = Some e"
| "first_err (None # cs) = first_err cs"

lemma first_err_None_iff: "first_err cs = None \<longleftrightarrow> (\<forall>c \<in> set cs. c = None)"
  by (induction cs rule: first_err.induct) auto

definition fail_if :: "bool \<Rightarrow> err \<Rightarrow> goerr" where
  "fail_if b e = (if b then Some e else None)"

lemma fail_if_None_iff [simp]: "fail_if b e = None \<longleftrightarrow> \<not> b"
  by (simp add: fail_if_def)

lemma first_err_Cons_None_iff [simp]:
  "first_err (c # cs) = None \<longleftrightarrow> c = None \<and> first_err cs = None"
  by (cases c) auto

subsection \<open>Strings\<close>

abbreviation US :: string where
  "US \<equiv> [CHR 0x1F]" \<comment> \<open>the separator byte 0x1f of every deterministic id\<close>

fun has_prefix :: "string \<Rightarrow> string \<Rightarrow> bool" where
  "has_prefix [] _ = True"
| "has_prefix (_ # _) [] = False"
| "has_prefix (p # ps) (c # cs) = (p = c \<and> has_prefix ps cs)"

lemma has_prefix_iff: "has_prefix p s \<longleftrightarrow> (\<exists>t. s = p @ t)"
  by (induction p s rule: has_prefix.induct) auto

fun contains :: "string \<Rightarrow> string \<Rightarrow> bool" where
  "contains [] sub = has_prefix sub []"
| "contains (c # cs) sub = (has_prefix sub (c # cs) \<or> contains cs sub)"

lemma contains_iff: "contains s sub \<longleftrightarrow> (\<exists>a b. s = a @ sub @ b)"
proof (induction s)
  case Nil
  then show ?case by (auto simp: has_prefix_iff)
next
  case (Cons c s)
  show ?case
  proof
    assume "contains (c # s) sub"
    then consider "has_prefix sub (c # s)" | "contains s sub" by auto
    then show "\<exists>a b. c # s = a @ sub @ b"
    proof cases
      case 1
      then obtain t where "c # s = [] @ sub @ t" by (auto simp: has_prefix_iff)
      then show ?thesis by blast
    next
      case 2
      then obtain a b where "c # s = (c # a) @ sub @ b" using Cons.IH by auto
      then show ?thesis by blast
    qed
  next
    assume "\<exists>a b. c # s = a @ sub @ b"
    then obtain a b where ab: "c # s = a @ sub @ b" by blast
    show "contains (c # s) sub"
    proof (cases a)
      case Nil
      then have "has_prefix sub (c # s)" using ab by (auto simp: has_prefix_iff)
      then show ?thesis by simp
    next
      case (Cons x xs)
      then have "s = xs @ sub @ b" using ab by simp
      then have "contains s sub" using Cons.IH by blast
      then show ?thesis by simp
    qed
  qed
qed

text \<open>\<open>strings.HasSuffix\<close>, \<open>strings.TrimSpace\<close> and \<open>strings.ToLower\<close>/\<open>ToUpper\<close> on ASCII.\<close>

definition has_suffix :: "string \<Rightarrow> string \<Rightarrow> bool" where
  "has_suffix suf s = has_prefix (rev suf) (rev s)"

definition is_space :: "char \<Rightarrow> bool" where
  "is_space c = (c \<in> {CHR '' '', CHR 0x09, CHR 0x0A, CHR 0x0B, CHR 0x0C, CHR 0x0D})"

definition TrimSpace :: "string \<Rightarrow> string" where
  "TrimSpace s = rev (dropWhile is_space (rev (dropWhile is_space s)))"

definition lower_char :: "char \<Rightarrow> char" where
  "lower_char c = (let n = (of_char c :: nat) in if 65 \<le> n \<and> n \<le> 90 then char_of (n + 32) else c)"

definition upper_char :: "char \<Rightarrow> char" where
  "upper_char c = (let n = (of_char c :: nat) in if 97 \<le> n \<and> n \<le> 122 then char_of (n - 32) else c)"

definition ToLower :: "string \<Rightarrow> string" where
  "ToLower s = map lower_char s"

definition ToUpper :: "string \<Rightarrow> string" where
  "ToUpper s = map upper_char s"

lemma lower_char_idem [simp]: "lower_char (lower_char c) = lower_char c"
proof -
  have "(of_char c :: nat) < 256" using of_char_mod_256 [of c] by (metis mod_less_divisor zero_less_numeral)
  then show ?thesis by (auto simp: lower_char_def Let_def of_char_of)
qed

lemma ToLower_idem [simp]: "ToLower (ToLower s) = ToLower s"
  by (simp add: ToLower_def)

text \<open>\<open>strings.Join\<close> and \<open>strings.Split\<close> on a one-byte separator.\<close>

fun join :: "string \<Rightarrow> string list \<Rightarrow> string" where
  "join sep [] = []"
| "join sep [x] = x"
| "join sep (x # y # xs) = x @ sep @ join sep (y # xs)"

fun split_on :: "char \<Rightarrow> string \<Rightarrow> string list" where
  "split_on sep [] = [[]]"
| "split_on sep (c # cs) =
     (if c = sep then [] # split_on sep cs
      else (case split_on sep cs of [] \<Rightarrow> [[c]] | w # ws \<Rightarrow> (c # w) # ws))"

subsection \<open>Decimal formatting\<close>

definition digit :: "nat \<Rightarrow> char" where
  "digit d = char_of (48 + d)"

fun utoa :: "nat \<Rightarrow> string" where
  "utoa n = (if n < 10 then [digit n] else utoa (n div 10) @ [digit (n mod 10)])"

declare utoa.simps [simp del]

definition itoa :: "int \<Rightarrow> string" where
  "itoa i = (if i < 0 then CHR ''-'' # utoa (nat (- i)) else utoa (nat i))"

text \<open>\<open>%04d\<close> of a non-negative number: zero-padded to at least four digits.\<close>

definition pad4 :: "nat \<Rightarrow> string" where
  "pad4 n = replicate (4 - length (utoa n)) (CHR ''0'') @ utoa n"

definition digit_val :: "char \<Rightarrow> nat" where
  "digit_val c = of_char c - 48"

definition atoi_nat :: "string \<Rightarrow> nat" where
  "atoi_nat s = foldl (\<lambda>acc c. 10 * acc + digit_val c) 0 s"

definition is_digit :: "char \<Rightarrow> bool" where
  "is_digit c = (let n = (of_char c :: nat) in 48 \<le> n \<and> n \<le> 57)"

text \<open>\<open>strconv.Atoi\<close>: an optional sign and decimal digits within 64 bits.\<close>

definition Atoi :: "string \<Rightarrow> int option" where
  "Atoi s =
     (let neg = has_prefix ''-'' s;
          d = (if has_prefix ''-'' s \<or> has_prefix ''+'' s then tl s else s);
          v = (if neg then - int (atoi_nat d) else int (atoi_nat d))
      in if d \<noteq> [] \<and> list_all is_digit d \<and> - (2 ^ 63) \<le> v \<and> v < 2 ^ 63 then Some v else None)"

lemma digit_val_digit: "d < 10 \<Longrightarrow> digit_val (digit d) = d"
  by (simp add: digit_val_def digit_def of_char_of)

lemma atoi_utoa: "atoi_nat (utoa n) = n"
proof (induction n rule: utoa.induct)
  case (1 n)
  show ?case
  proof (cases "n < 10")
    case True
    then show ?thesis by (simp add: utoa.simps [of n] atoi_nat_def digit_val_digit)
  next
    case False
    then have "atoi_nat (utoa (n div 10)) = n div 10" using 1 by blast
    then show ?thesis using False
      by (simp add: utoa.simps [of n] atoi_nat_def digit_val_digit)
  qed
qed

lemma atoi_zeros: "atoi_nat (replicate k (CHR ''0'') @ s) = atoi_nat s"
  by (induction k) (simp_all add: atoi_nat_def digit_val_def)

lemma pad4_inject: "pad4 m = pad4 n \<Longrightarrow> m = n"
  by (metis pad4_def atoi_zeros atoi_utoa)

text \<open>\<open>%q\<close> of an ASCII string (\<open>strconv.Quote\<close>).\<close>

definition hex_nibble :: "nat \<Rightarrow> char" where
  "hex_nibble n = (if n < 10 then char_of (48 + n) else char_of (87 + n))"

definition quote_char :: "char \<Rightarrow> string" where
  "quote_char c =
     (let n = (of_char c :: nat); bs = CHR 0x5C in
      if c = CHR 0x22 then [bs, CHR 0x22] else if c = bs then [bs, bs]
      else if n = 7 then [bs, CHR ''a''] else if n = 8 then [bs, CHR ''b'']
      else if n = 12 then [bs, CHR ''f''] else if n = 10 then [bs, CHR ''n'']
      else if n = 13 then [bs, CHR ''r''] else if n = 9 then [bs, CHR ''t'']
      else if n = 11 then [bs, CHR ''v'']
      else if n < 32 \<or> n = 127 then [bs, CHR ''x'', hex_nibble (n div 16), hex_nibble (n mod 16)]
      else [c])"

definition quote :: "string \<Rightarrow> string" where
  "quote s = CHR 0x22 # concat (map quote_char s) @ [CHR 0x22]"

subsection \<open>Instants, durations and the timestamp library\<close>

text \<open>
  A \<open>time.Time\<close> is the number of nanoseconds since the Unix epoch (unbounded below and
  above: the program only compares instants and shifts them by 64-bit durations). The zero
  \<open>time.Time\<close> is 1 January of year 1, UTC. \<open>t.Sub(u)\<close> saturates at the 64-bit range.
\<close>

type_synonym gotime = int
type_synonym duration = int

definition zero_time :: gotime where
  "zero_time = - 62135596800000000000"

definition IsZero :: "gotime \<Rightarrow> bool" where
  "IsZero t \<longleftrightarrow> t = zero_time"

definition time_Sub :: "gotime \<Rightarrow> gotime \<Rightarrow> duration" where
  "time_Sub t u = max (- (2 ^ 63)) (min (2 ^ 63 - 1) (t - u))"

lemma time_Sub_le: "d < 2 ^ 63 - 1 \<Longrightarrow> 0 \<le> d \<Longrightarrow> time_Sub t u \<le> d \<longleftrightarrow> t - u \<le> d"
  by (auto simp: time_Sub_def)

text \<open>
  The protobuf well-known \<open>Timestamp\<close> message carries seconds and nanoseconds. The library
  that converts it (\<open>timestamppb\<close>) is not part of the repository: its three functions are
  the fields of a record that is an argument of every definition that calls them.
\<close>

datatype timestamp = Timestamp (ts_seconds: int) (ts_nanos: int)

record pblib =
  ts_New :: "gotime \<Rightarrow> timestamp"
  ts_AsTime :: "timestamp \<Rightarrow> gotime"
  ts_CheckValid :: "timestamp \<Rightarrow> goerr"

text \<open>
  What the documentation of \<open>timestamppb\<close> promises and the program relies on: \<open>New\<close>
  followed by \<open>AsTime\<close> gives the instant back, and \<open>CheckValid\<close> accepts exactly the
  instants from year 1 to year 9999.
\<close>

definition max_time :: gotime where
  "max_time = 253402300799999999999"

definition ts_roundtrip :: "pblib \<Rightarrow> bool" where
  "ts_roundtrip L \<longleftrightarrow> (\<forall>t. ts_AsTime L (ts_New L t) = t)"

definition ts_range :: "pblib \<Rightarrow> bool" where
  "ts_range L \<longleftrightarrow> (\<forall>t. ts_CheckValid L (ts_New L t) = None \<longleftrightarrow> zero_time \<le> t \<and> t \<le> max_time)"

text \<open>
  A concrete library with these laws: it is used by the closed examples only, never by a
  definition that models the program.
\<close>

definition example_pb :: pblib where
  "example_pb = \<lparr>
     ts_New = (\<lambda>t. Timestamp (t div 1000000000) (t mod 1000000000)),
     ts_AsTime = (\<lambda>ts. ts_seconds ts * 1000000000 + ts_nanos ts),
     ts_CheckValid = (\<lambda>ts.
       if ts_seconds ts < - 62135596800 then Some (Plain ''before 0001-01-01'')
       else if 253402300799 < ts_seconds ts then Some (Plain ''after 9999-12-31'')
       else if ts_nanos ts < 0 \<or> 1000000000 \<le> ts_nanos ts then Some (Plain ''out-of-range nanos'')
       else None) \<rparr>"

lemma example_pb_roundtrip [simp]: "ts_roundtrip example_pb"
  by (simp add: ts_roundtrip_def example_pb_def)

lemma example_pb_range [simp]: "ts_range example_pb"
  by (auto simp: ts_range_def example_pb_def zero_time_def max_time_def)

subsection \<open>String-keyed maps\<close>

type_synonym 'a gomap = "(string, 'a) fmap"
type_synonym attrs = "string gomap"

text \<open>\<open>m[k]\<close> on a \<open>map[string]string\<close>: a missing key reads as the empty string.\<close>

definition attr :: "attrs \<Rightarrow> string \<Rightarrow> string" where
  "attr m k = (case fmlookup m k of None \<Rightarrow> [] | Some v \<Rightarrow> v)"

text \<open>The keys in \<open>sort.Strings\<close> order.\<close>

definition sortedIDs :: "'a gomap \<Rightarrow> string list" where
  "sortedIDs m = sorted_list_of_set (fmdom' m)"

lemma set_sortedIDs [simp]: "set (sortedIDs m) = fmdom' m"
  by (simp add: sortedIDs_def)

lemma sorted_sortedIDs [simp]: "sorted (sortedIDs m)"
  by (simp add: sortedIDs_def)

lemma distinct_sortedIDs [simp]: "distinct (sortedIDs m)"
  by (simp add: sortedIDs_def)

text \<open>The values in key order.\<close>

definition values_sorted :: "'a gomap \<Rightarrow> 'a list" where
  "values_sorted m = List.map_filter (fmlookup m) (sortedIDs m)"

lemma values_sorted_eq_map: "values_sorted m = map (\<lambda>k. the (fmlookup m k)) (sortedIDs m)"
proof -
  have "List.map_filter (fmlookup m) ks = map (\<lambda>k. the (fmlookup m k)) ks"
    if "set ks \<subseteq> fmdom' m" for ks
    using that by (induction ks) (auto simp: List.map_filter_simps fmlookup_dom'_iff)
  then show ?thesis by (simp add: values_sorted_def)
qed

lemma set_values_sorted: "set (values_sorted m) = {v. \<exists>k. fmlookup m k = Some v}"
  by (force simp: values_sorted_eq_map fmlookup_dom'_iff image_iff)

text \<open>A \<open>map[string]bool\<close> used as a set is the list of its members; \<open>sortedKeys\<close> orders it.\<close>

definition sortedKeys :: "string list \<Rightarrow> string list" where
  "sortedKeys xs = sort (remdups xs)"

lemma set_sortedKeys [simp]: "set (sortedKeys xs) = set xs"
  by (simp add: sortedKeys_def)

lemma sortedKeys_Nil_iff [simp]: "sortedKeys xs = [] \<longleftrightarrow> xs = []"
  by (metis set_empty set_sortedKeys)

lemma sorted_distinct_sortedKeys [simp]: "sorted (sortedKeys xs)" "distinct (sortedKeys xs)"
  by (simp_all add: sortedKeys_def)

lemma sort_eq_sortedKeys: "distinct ys \<Longrightarrow> set ys = set xs \<Longrightarrow> sort ys = sortedKeys xs"
  by (rule sorted_distinct_set_unique) (simp_all add: sortedKeys_def)

lemma sortedKeys_add:
  "x \<notin> set xs \<Longrightarrow> sort (sortedKeys xs @ [x]) = sortedKeys (List.insert x xs)"
  by (rule sort_eq_sortedKeys) auto

lemma sortedKeys_cong: "set xs = set ys \<Longrightarrow> sortedKeys xs = sortedKeys ys"
  by (auto simp: sortedKeys_def intro!: sorted_distinct_set_unique)

end
