(* ===== verification/Contract.thy ===== *)
theory Contract
  imports Prelude
begin

text \<open>
  The contract layer (\<open>contracts/proto\<close>, \<open>internal/contract/v1\<close> and the boundary
  validators of \<open>internal/contract\<close>): one record per message, the open 32-bit enums with
  their \<open>_name\<close> tables, and the \<open>Validate*\<close> functions, which return the first failing
  check in source order. A nil pointer is \<^const>\<open>None\<close>. An \<open>enum\<close> field is its 32-bit
  number, since protobuf enums are open: a number without a name is a value the
  validators have to reject.
\<close>

subsection \<open>Enums\<close>

type_synonym enum = int

text \<open>\<open>Severity\<close> (\<open>common.proto\<close>).\<close>

definition Severity_name :: "enum \<Rightarrow> string option" where
  "Severity_name v =
     (if v = 0 then Some ''SEVERITY_UNSPECIFIED'' else if v = 1 then Some ''SEVERITY_INFO''
      else if v = 2 then Some ''SEVERITY_LOW'' else if v = 3 then Some ''SEVERITY_MEDIUM''
      else if v = 4 then Some ''SEVERITY_HIGH'' else if v = 5 then Some ''SEVERITY_CRITICAL''
      else None)"

abbreviation (input) SEVERITY_UNSPECIFIED :: enum where "SEVERITY_UNSPECIFIED \<equiv> 0"
abbreviation (input) SEVERITY_INFO :: enum where "SEVERITY_INFO \<equiv> 1"
abbreviation (input) SEVERITY_LOW :: enum where "SEVERITY_LOW \<equiv> 2"
abbreviation (input) SEVERITY_MEDIUM :: enum where "SEVERITY_MEDIUM \<equiv> 3"
abbreviation (input) SEVERITY_HIGH :: enum where "SEVERITY_HIGH \<equiv> 4"
abbreviation (input) SEVERITY_CRITICAL :: enum where "SEVERITY_CRITICAL \<equiv> 5"

text \<open>\<open>String()\<close> of an enum: its name, or the number when it has none.\<close>

definition enum_String :: "(enum \<Rightarrow> string option) \<Rightarrow> enum \<Rightarrow> string" where
  "enum_String names v = (case names v of Some n \<Rightarrow> n | None \<Rightarrow> itoa v)"

text \<open>
  For the other enums only the set of named numbers matters (every use is a membership
  test of the \<open>_name\<close> table): the numbers are contiguous from 0.
\<close>

definition AlertStatus_known :: "enum \<Rightarrow> bool" where "AlertStatus_known v = (0 \<le> v \<and> v \<le> 3)"
definition IncidentStatus_known :: "enum \<Rightarrow> bool" where "IncidentStatus_known v = (0 \<le> v \<and> v \<le> 5)"
definition EvidenceType_known :: "enum \<Rightarrow> bool" where "EvidenceType_known v = (0 \<le> v \<and> v \<le> 6)"
definition OperationType_known :: "enum \<Rightarrow> bool" where "OperationType_known v = (0 \<le> v \<and> v \<le> 10)"
definition OperationType_name :: "enum \<Rightarrow> string option" where
  "OperationType_name v =
     (if 0 \<le> v \<and> v \<le> 10 then Some (''OPERATION_TYPE_'' @
        [''UNSPECIFIED'', ''READ'', ''OBSERVE'', ''ANALYZE'', ''RECOMMEND'', ''WRITE'', ''MODIFY'',
         ''BLOCK'', ''ISOLATE'', ''DELETE'', ''EXECUTE''] ! nat v)
      else None)"
definition RiskLevel_known :: "enum \<Rightarrow> bool" where "RiskLevel_known v = (0 \<le> v \<and> v \<le> 4)"
definition ResponseStatus_known :: "enum \<Rightarrow> bool" where "ResponseStatus_known v = (0 \<le> v \<and> v \<le> 10)"
definition VerificationOutcome_known :: "enum \<Rightarrow> bool" where
  "VerificationOutcome_known v = (0 \<le> v \<and> v \<le> 3)"
definition ValidationVerdict_known :: "enum \<Rightarrow> bool" where
  "ValidationVerdict_known v = (0 \<le> v \<and> v \<le> 8)"
definition AssetType_known :: "enum \<Rightarrow> bool" where "AssetType_known v = (0 \<le> v \<and> v \<le> 11)"
definition AssetStatus_known :: "enum \<Rightarrow> bool" where "AssetStatus_known v = (0 \<le> v \<and> v \<le> 4)"

abbreviation (input) ALERT_STATUS_OPEN :: enum where "ALERT_STATUS_OPEN \<equiv> 1"

abbreviation (input) INCIDENT_STATUS_OPEN :: enum where "INCIDENT_STATUS_OPEN \<equiv> 1"
abbreviation (input) INCIDENT_STATUS_INVESTIGATING :: enum where "INCIDENT_STATUS_INVESTIGATING \<equiv> 2"
abbreviation (input) INCIDENT_STATUS_CONTAINED :: enum where "INCIDENT_STATUS_CONTAINED \<equiv> 3"
abbreviation (input) INCIDENT_STATUS_RESOLVED :: enum where "INCIDENT_STATUS_RESOLVED \<equiv> 4"
abbreviation (input) INCIDENT_STATUS_CLOSED :: enum where "INCIDENT_STATUS_CLOSED \<equiv> 5"

abbreviation (input) EVIDENCE_TYPE_LOG_EXCERPT :: enum where "EVIDENCE_TYPE_LOG_EXCERPT \<equiv> 1"
abbreviation (input) EVIDENCE_TYPE_NOTE :: enum where "EVIDENCE_TYPE_NOTE \<equiv> 6"

abbreviation (input) OP_OBSERVE :: enum where "OP_OBSERVE \<equiv> 2"
abbreviation (input) OP_ANALYZE :: enum where "OP_ANALYZE \<equiv> 3"
abbreviation (input) OP_RECOMMEND :: enum where "OP_RECOMMEND \<equiv> 4"
abbreviation (input) OP_BLOCK :: enum where "OP_BLOCK \<equiv> 7"
abbreviation (input) OP_ISOLATE :: enum where "OP_ISOLATE \<equiv> 8"
abbreviation (input) OP_DELETE :: enum where "OP_DELETE \<equiv> 9"
abbreviation (input) OP_EXECUTE :: enum where "OP_EXECUTE \<equiv> 10"

abbreviation (input) RISK_LOW :: enum where "RISK_LOW \<equiv> 1"
abbreviation (input) RISK_MEDIUM :: enum where "RISK_MEDIUM \<equiv> 2"
abbreviation (input) RISK_HIGH :: enum where "RISK_HIGH \<equiv> 3"
abbreviation (input) RISK_CRITICAL :: enum where "RISK_CRITICAL \<equiv> 4"

abbreviation (input) ST_PROPOSED :: enum where "ST_PROPOSED \<equiv> 1"
abbreviation (input) ST_PENDING_APPROVAL :: enum where "ST_PENDING_APPROVAL \<equiv> 2"
abbreviation (input) ST_APPROVED :: enum where "ST_APPROVED \<equiv> 3"
abbreviation (input) ST_DENIED :: enum where "ST_DENIED \<equiv> 4"
abbreviation (input) ST_EXECUTING :: enum where "ST_EXECUTING \<equiv> 5"
abbreviation (input) ST_EXECUTED :: enum where "ST_EXECUTED \<equiv> 6"
abbreviation (input) ST_EXECUTION_FAILED :: enum where "ST_EXECUTION_FAILED \<equiv> 7"
abbreviation (input) ST_VERIFIED :: enum where "ST_VERIFIED \<equiv> 8"
abbreviation (input) ST_VERIFICATION_FAILED :: enum where "ST_VERIFICATION_FAILED \<equiv> 9"
abbreviation (input) ST_VERIFICATION_UNKNOWN :: enum where "ST_VERIFICATION_UNKNOWN \<equiv> 10"

abbreviation (input) OUTCOME_VERIFIED :: enum where "OUTCOME_VERIFIED \<equiv> 1"
abbreviation (input) OUTCOME_FAILED :: enum where "OUTCOME_FAILED \<equiv> 2"
abbreviation (input) OUTCOME_UNKNOWN :: enum where "OUTCOME_UNKNOWN \<equiv> 3"

abbreviation (input) ASSET_STATUS_UNSPECIFIED :: enum where "ASSET_STATUS_UNSPECIFIED \<equiv> 0"
abbreviation (input) ASSET_STATUS_DISCOVERED :: enum where "ASSET_STATUS_DISCOVERED \<equiv> 1"
abbreviation (input) ASSET_STATUS_ACTIVE :: enum where "ASSET_STATUS_ACTIVE \<equiv> 2"
abbreviation (input) ASSET_STATUS_STALE :: enum where "ASSET_STATUS_STALE \<equiv> 3"
abbreviation (input) ASSET_STATUS_RETIRED :: enum where "ASSET_STATUS_RETIRED \<equiv> 4"

subsection \<open>Messages\<close>

record TelemetryEvent =
  te_id :: string
  te_occurred_at :: "timestamp option"
  te_source :: string
  te_asset_id :: string
  te_identity_id :: string
  te_event_type :: string
  te_severity :: enum
  te_attributes :: attrs
  te_raw :: string

text \<open>
  A \<open>double\<close>: the only values the program tells apart are NaN, the infinities and the finite
  numbers, which it compares with 0 and 1.
\<close>

datatype double = NaN | PosInf | NegInf | Fin rat

record Detection =
  det_id :: string
  det_rule_id :: string
  det_rule_name :: string
  det_telemetry_event_ids :: "string list"
  det_detected_at :: "timestamp option"
  det_severity :: enum
  det_confidence :: double
  det_title :: string
  det_description :: string
  det_attributes :: attrs

record Alert =
  al_id :: string
  al_detection_ids :: "string list"
  al_status :: enum
  al_severity :: enum
  al_created_at :: "timestamp option"
  al_updated_at :: "timestamp option"
  al_title :: string

record Incident =
  inc_id :: string
  inc_alert_ids :: "string list"
  inc_status :: enum
  inc_severity :: enum
  inc_created_at :: "timestamp option"
  inc_updated_at :: "timestamp option"
  inc_title :: string
  inc_summary :: string

record Evidence =
  ev_id :: string
  ev_incident_id :: string
  ev_type :: enum
  ev_collected_at :: "timestamp option"
  ev_source :: string
  ev_media_type :: string
  ev_sha256 :: string
  ev_content :: string

record Recommendation =
  rec_id :: string
  rec_incident_id :: string
  rec_operation :: enum
  rec_target :: string
  rec_risk :: enum
  rec_reason :: string
  rec_status :: enum
  rec_recommended_at :: "timestamp option"
  rec_recommended_by :: string
  rec_approval_required :: bool

record Approval =
  ap_id :: string
  ap_recommendation_id :: string
  ap_operation :: enum
  ap_target :: string
  ap_risk :: enum
  ap_approver :: string
  ap_approved_at :: "timestamp option"
  ap_expires_at :: "timestamp option"
  ap_reason :: string

record Execution =
  ex_id :: string
  ex_recommendation_id :: string
  ex_approval_id :: string
  ex_operation :: enum
  ex_target :: string
  ex_started_at :: "timestamp option"
  ex_finished_at :: "timestamp option"
  ex_success :: bool
  ex_detail :: string

record Verification =
  ver_id :: string
  ver_execution_id :: string
  ver_outcome :: enum
  ver_verified_at :: "timestamp option"
  ver_detail :: string

record ValidationRequest =
  vq_id :: string
  vq_control_id :: string
  vq_target :: string
  vq_context :: attrs
  vq_requested_at :: "timestamp option"

record ValidationResult =
  vr_id :: string
  vr_request_id :: string
  vr_control_id :: string
  vr_provider :: string
  vr_provider_version :: string
  vr_contract_version :: string
  vr_verdict :: enum
  vr_validated_at :: "timestamp option"
  vr_evidence_ids :: "string list"
  vr_note :: string

record AssetIdentifier =
  ai_type :: string
  ai_value :: string

record Asset =
  as_id :: string
  as_type :: enum
  as_name :: string
  as_identifiers :: "AssetIdentifier list"
  as_criticality :: enum
  as_environment :: string
  as_status :: enum
  as_first_seen :: "timestamp option"
  as_last_seen :: "timestamp option"
  as_attributes :: attrs

end
