(* ===== verification/Boundary.thy ===== *)
theory Boundary
  imports Contract
begin

text \<open>
  \<open>internal/contract\<close>: the boundary validators. Each is the list of its checks in source
  order; \<^const>\<open>first_err\<close> returns the first that fails. The collection \<open>boundary\<close> turns
  "the validator accepts" into the conjunction of what it checked.
\<close>

named_theorems boundary \<open>what an accepting validator guarantees\<close>

subsection \<open>Shared checks\<close>

definition ContractVersion :: string where
  "ContractVersion = ''blueveil.contracts.v1''"

definition requireTimestamp :: "pblib \<Rightarrow> timestamp option \<Rightarrow> string \<Rightarrow> goerr" where
  "requireTimestamp L ts what =
     (case ts of
        None \<Rightarrow> Some (Plain (what @ '': missing''))
      | Some t \<Rightarrow> (case ts_CheckValid L t of
            Some _ \<Rightarrow> Some (Plain (what @ '': invalid''))
          | None \<Rightarrow> None))"

lemma requireTimestamp_None_iff [boundary]:
  "requireTimestamp L ts what = None \<longleftrightarrow> (\<exists>t. ts = Some t \<and> ts_CheckValid L t = None)"
  by (auto simp: requireTimestamp_def split: option.splits)

text \<open>The loops over required string fields.\<close>

definition require_fields :: "string \<Rightarrow> (string \<times> string) list \<Rightarrow> goerr" where
  "require_fields msg fs =
     first_err (map (\<lambda>(name, v). fail_if (v = []) (Plain (msg @ ''.'' @ name @ '': empty''))) fs)"

lemma require_fields_None_iff [boundary]:
  "require_fields msg fs = None \<longleftrightarrow> (\<forall>(name, v) \<in> set fs. v \<noteq> [])"
  by (auto simp: require_fields_def first_err_None_iff)

text \<open>The two-step enum checks: a known number, then not \<open>UNSPECIFIED\<close>.\<close>

definition check_enum :: "(enum \<Rightarrow> bool) \<Rightarrow> enum \<Rightarrow> string \<Rightarrow> goerr" where
  "check_enum known v what =
     first_err [fail_if (\<not> known v) (Plain (what @ '': unknown value'')),
                fail_if (v = 0) (Plain (what @ '' must be explicit''))]"

lemma check_enum_None_iff [boundary]: "check_enum known v what = None \<longleftrightarrow> known v \<and> v \<noteq> 0"
  by (simp add: check_enum_def)

definition Severity_known :: "enum \<Rightarrow> bool" where
  "Severity_known v = (Severity_name v \<noteq> None)"

lemma Severity_known_iff [boundary]: "Severity_known v \<longleftrightarrow> 0 \<le> v \<and> v \<le> 5"
  by (auto simp: Severity_known_def Severity_name_def)

definition checkSeverityValue :: "enum \<Rightarrow> string \<Rightarrow> goerr" where
  "checkSeverityValue v what = check_enum Severity_known v what"

lemma checkSeverityValue_None_iff [boundary]:
  "checkSeverityValue v what = None \<longleftrightarrow> 1 \<le> v \<and> v \<le> 5"
  by (auto simp: checkSeverityValue_def check_enum_None_iff Severity_known_iff)

definition checkOperationValue :: "enum \<Rightarrow> string \<Rightarrow> goerr" where
  "checkOperationValue v what = check_enum OperationType_known v what"

definition checkRiskValue :: "enum \<Rightarrow> string \<Rightarrow> goerr" where
  "checkRiskValue v what = check_enum RiskLevel_known v what"

definition checkResponseStatus :: "enum \<Rightarrow> string \<Rightarrow> goerr" where
  "checkResponseStatus v what = check_enum ResponseStatus_known v what"

lemma check_response_enums [boundary]:
  "checkOperationValue v what = None \<longleftrightarrow> 1 \<le> v \<and> v \<le> 10"
  "checkRiskValue v what = None \<longleftrightarrow> 1 \<le> v \<and> v \<le> 4"
  "checkResponseStatus v what = None \<longleftrightarrow> 1 \<le> v \<and> v \<le> 10"
  by (auto simp: checkOperationValue_def checkRiskValue_def checkResponseStatus_def
      check_enum_None_iff OperationType_known_def RiskLevel_known_def ResponseStatus_known_def)

text \<open>A list of references: at least one, none empty.\<close>

definition require_ids :: "string \<Rightarrow> string list \<Rightarrow> goerr" where
  "require_ids what ids =
     first_err (fail_if (ids = []) (Plain (what @ '': requires at least one id''))
       # map (\<lambda>i. fail_if (i = []) (Plain (what @ ''[]: empty id''))) ids)"

lemma require_ids_None_iff [boundary]:
  "require_ids what ids = None \<longleftrightarrow> ids \<noteq> [] \<and> [] \<notin> set ids"
  by (auto simp: require_ids_def first_err_None_iff)

subsection \<open>Telemetry, detections, alerts\<close>

definition ValidateTelemetryEvent :: "pblib \<Rightarrow> TelemetryEvent option \<Rightarrow> goerr" where
  "ValidateTelemetryEvent L p =
     (case p of None \<Rightarrow> Some (Plain ''TelemetryEvent is nil'') | Some e \<Rightarrow>
        first_err [
          require_fields ''TelemetryEvent''
            [(''id'', te_id e), (''source'', te_source e), (''asset_id'', te_asset_id e),
             (''event_type'', te_event_type e)],
          requireTimestamp L (te_occurred_at e) ''TelemetryEvent.occurred_at'',
          checkSeverityValue (te_severity e) ''TelemetryEvent.severity''])"

text \<open>\<open>math.IsNaN(c) || c < 0.0 || c > 1.0\<close>.\<close>

fun bad_confidence :: "double \<Rightarrow> bool" where
  "bad_confidence NaN = True"
| "bad_confidence PosInf = True"
| "bad_confidence NegInf = True"
| "bad_confidence (Fin q) = (q < 0 \<or> q > 1)"

definition ValidateDetection :: "pblib \<Rightarrow> Detection option \<Rightarrow> goerr" where
  "ValidateDetection L p =
     (case p of None \<Rightarrow> Some (Plain ''Detection is nil'') | Some d \<Rightarrow>
        first_err [
          require_fields ''Detection''
            [(''id'', det_id d), (''rule_id'', det_rule_id d), (''rule_name'', det_rule_name d),
             (''title'', det_title d)],
          require_ids ''Detection.telemetry_event_ids'' (det_telemetry_event_ids d),
          requireTimestamp L (det_detected_at d) ''Detection.detected_at'',
          checkSeverityValue (det_severity d) ''Detection.severity'',
          fail_if (bad_confidence (det_confidence d))
            (Plain ''Detection.confidence out of [0.0, 1.0]'')])"

definition ValidateAlert :: "pblib \<Rightarrow> Alert option \<Rightarrow> goerr" where
  "ValidateAlert L p =
     (case p of None \<Rightarrow> Some (Plain ''Alert is nil'') | Some a \<Rightarrow>
        first_err [
          require_fields ''Alert'' [(''id'', al_id a)],
          require_ids ''Alert.detection_ids'' (al_detection_ids a),
          check_enum AlertStatus_known (al_status a) ''Alert.status'',
          checkSeverityValue (al_severity a) ''Alert.severity'',
          requireTimestamp L (al_created_at a) ''Alert.created_at'',
          requireTimestamp L (al_updated_at a) ''Alert.updated_at'',
          require_fields ''Alert'' [(''title'', al_title a)]])"

subsection \<open>Incidents and evidence\<close>

definition ValidateIncident :: "pblib \<Rightarrow> Incident option \<Rightarrow> goerr" where
  "ValidateIncident L p =
     (case p of None \<Rightarrow> Some (Plain ''Incident is nil'') | Some i \<Rightarrow>
        first_err [
          require_fields ''Incident'' [(''id'', inc_id i)],
          require_ids ''Incident.alert_ids'' (inc_alert_ids i),
          check_enum IncidentStatus_known (inc_status i) ''Incident.status'',
          checkSeverityValue (inc_severity i) ''Incident.severity'',
          requireTimestamp L (inc_created_at i) ''Incident.created_at'',
          requireTimestamp L (inc_updated_at i) ''Incident.updated_at'',
          require_fields ''Incident'' [(''title'', inc_title i)]])"

text \<open>A digest, when present, is 64 characters of \<open>0-9a-f\<close>.\<close>

definition lower_hex :: "char \<Rightarrow> bool" where
  "lower_hex c = (let n = (of_char c :: nat) in (48 \<le> n \<and> n \<le> 57) \<or> (97 \<le> n \<and> n \<le> 102))"

definition bad_sha256 :: "string \<Rightarrow> bool" where
  "bad_sha256 s = (s \<noteq> [] \<and> \<not> (length s = 64 \<and> list_all lower_hex s))"

definition ValidateEvidence :: "pblib \<Rightarrow> Evidence option \<Rightarrow> goerr" where
  "ValidateEvidence L p =
     (case p of None \<Rightarrow> Some (Plain ''Evidence is nil'') | Some e \<Rightarrow>
        first_err [
          require_fields ''Evidence''
            [(''id'', ev_id e), (''incident_id'', ev_incident_id e), (''source'', ev_source e),
             (''media_type'', ev_media_type e), (''content'', ev_content e)],
          check_enum EvidenceType_known (ev_type e) ''Evidence.type'',
          requireTimestamp L (ev_collected_at e) ''Evidence.collected_at'',
          fail_if (bad_sha256 (ev_sha256 e))
            (Plain ''Evidence.sha256: must be 64 lowercase-hex chars when present'')])"

subsection \<open>Response contracts\<close>

definition ValidateResponseRecommendation :: "pblib \<Rightarrow> Recommendation option \<Rightarrow> goerr" where
  "ValidateResponseRecommendation L p =
     (case p of None \<Rightarrow> Some (Plain ''ResponseRecommendation is nil'') | Some r \<Rightarrow>
        first_err [
          require_fields ''ResponseRecommendation''
            [(''id'', rec_id r), (''incident_id'', rec_incident_id r), (''target'', rec_target r),
             (''reason'', rec_reason r), (''recommended_by'', rec_recommended_by r)],
          checkOperationValue (rec_operation r) ''ResponseRecommendation.operation'',
          checkRiskValue (rec_risk r) ''ResponseRecommendation.risk'',
          checkResponseStatus (rec_status r) ''ResponseRecommendation.status'',
          requireTimestamp L (rec_recommended_at r) ''ResponseRecommendation.recommended_at''])"

definition ValidateResponseApproval :: "pblib \<Rightarrow> Approval option \<Rightarrow> goerr" where
  "ValidateResponseApproval L p =
     (case p of None \<Rightarrow> Some (Plain ''ResponseApproval is nil'') | Some a \<Rightarrow>
        first_err [
          require_fields ''ResponseApproval''
            [(''id'', ap_id a), (''recommendation_id'', ap_recommendation_id a),
             (''target'', ap_target a), (''approver'', ap_approver a), (''reason'', ap_reason a)],
          checkOperationValue (ap_operation a) ''ResponseApproval.operation'',
          checkRiskValue (ap_risk a) ''ResponseApproval.risk'',
          requireTimestamp L (ap_approved_at a) ''ResponseApproval.approved_at''])"

definition ValidateResponseExecution :: "pblib \<Rightarrow> Execution option \<Rightarrow> goerr" where
  "ValidateResponseExecution L p =
     (case p of None \<Rightarrow> Some (Plain ''ResponseExecution is nil'') | Some e \<Rightarrow>
        first_err [
          require_fields ''ResponseExecution''
            [(''id'', ex_id e), (''recommendation_id'', ex_recommendation_id e),
             (''target'', ex_target e), (''detail'', ex_detail e)],
          checkOperationValue (ex_operation e) ''ResponseExecution.operation'',
          requireTimestamp L (ex_started_at e) ''ResponseExecution.started_at'',
          requireTimestamp L (ex_finished_at e) ''ResponseExecution.finished_at''])"

definition ValidateResponseVerification :: "pblib \<Rightarrow> Verification option \<Rightarrow> goerr" where
  "ValidateResponseVerification L p =
     (case p of None \<Rightarrow> Some (Plain ''ResponseVerification is nil'') | Some v \<Rightarrow>
        first_err [
          require_fields ''ResponseVerification''
            [(''id'', ver_id v), (''execution_id'', ver_execution_id v), (''detail'', ver_detail v)],
          check_enum VerificationOutcome_known (ver_outcome v) ''ResponseVerification.outcome'',
          requireTimestamp L (ver_verified_at v) ''ResponseVerification.verified_at''])"

subsection \<open>Validation contracts\<close>

definition ValidateValidationRequest :: "pblib \<Rightarrow> ValidationRequest option \<Rightarrow> goerr" where
  "ValidateValidationRequest L p =
     (case p of None \<Rightarrow> Some (Plain ''ValidationRequest is nil'') | Some r \<Rightarrow>
        first_err [
          require_fields ''ValidationRequest''
            [(''id'', vq_id r), (''control_id'', vq_control_id r), (''target'', vq_target r)],
          requireTimestamp L (vq_requested_at r) ''ValidationRequest.requested_at''])"

definition ValidateValidationResult :: "pblib \<Rightarrow> ValidationResult option \<Rightarrow> goerr" where
  "ValidateValidationResult L p =
     (case p of None \<Rightarrow> Some (Plain ''ValidationResult is nil'') | Some r \<Rightarrow>
        first_err ([
          require_fields ''ValidationResult''
            [(''id'', vr_id r), (''request_id'', vr_request_id r), (''control_id'', vr_control_id r),
             (''provider'', vr_provider r)],
          fail_if (vr_contract_version r \<noteq> ContractVersion)
            (Plain ''ValidationResult.contract_version unsupported''),
          check_enum ValidationVerdict_known (vr_verdict r) ''ValidationResult.verdict'',
          requireTimestamp L (vr_validated_at r) ''ValidationResult.validated_at'']
          @ map (\<lambda>i. fail_if (i = []) (Plain ''ValidationResult.evidence_ids[]: empty id''))
              (vr_evidence_ids r)))"

subsection \<open>Assets\<close>

text \<open>
  \<open>a.GetLastSeen().AsTime().Before(a.GetFirstSeen().AsTime())\<close> is only evaluated when both
  timestamps are present.
\<close>

definition ValidateAsset :: "pblib \<Rightarrow> Asset option \<Rightarrow> goerr" where
  "ValidateAsset L p =
     (case p of None \<Rightarrow> Some (Plain ''Asset is nil'') | Some a \<Rightarrow>
        first_err ([
          require_fields ''Asset'' [(''id'', as_id a)],
          check_enum AssetType_known (as_type a) ''Asset.type'',
          require_fields ''Asset'' [(''name'', as_name a)]]
          @ map (\<lambda>i. fail_if (ai_type i = [] \<or> ai_value i = [])
                  (Plain ''Asset.identifiers[]: type and value required'')) (as_identifiers a)
          @ [fail_if (as_criticality a \<noteq> SEVERITY_UNSPECIFIED \<and> Severity_name (as_criticality a) = None)
               (Plain ''Asset.criticality: unknown value''),
             fail_if (as_status a \<noteq> ASSET_STATUS_UNSPECIFIED \<and> \<not> AssetStatus_known (as_status a))
               (Plain ''Asset.status: unknown value''),
             fail_if (as_first_seen a = None \<and> as_last_seen a \<noteq> None)
               (Plain ''Asset.last_seen without first_seen''),
             (case (as_first_seen a, as_last_seen a) of
                (Some f, Some l) \<Rightarrow>
                  fail_if (ts_AsTime L l < ts_AsTime L f) (Plain ''Asset.last_seen before first_seen'')
              | _ \<Rightarrow> None)]))"

subsection \<open>Sensitive attribute keys (\<open>sensitive.go\<close>)\<close>

definition SensitiveFragments :: "string list" where
  "SensitiveFragments = [
     ''password'', ''passwd'', ''token'', ''access_token'', ''refresh_token'',
     ''secret'', ''credential'', ''cookie'', ''authorization'', ''session'',
     ''mfa'', ''api_key'', ''api-key'', ''apikey'',
     ''private_key'', ''private-key'', ''privatekey'',
     ''access_key'', ''access-key'']"

definition SensitiveField :: "string \<Rightarrow> bool" where
  "SensitiveField key = (let low = ToLower key in list_ex (contains low) SensitiveFragments)"

end
