(* ===== verification/Safety.thy ===== *)
theory Safety
  imports Boundary
begin

text \<open>
  \<open>internal/response/safety.go\<close> and \<open>policy.go\<close>: the safety lifecycle
  OBSERVE, ANALYZE, RECOMMEND, CONFIRM, EXECUTE, VERIFY, AUDIT with its one-step
  \<open>Advance\<close>, the gate rule, and the policies that answer authorization questions.
\<close>

subsection \<open>Lifecycle (\<open>safety.go\<close>)\<close>

text \<open>\<open>SafetyState\<close> is a Go int: a number that is no phase is \<open>StateOther\<close>.\<close>

datatype SafetyState =
  StateObserve | StateAnalyze | StateRecommend | StateConfirm | StateExecute | StateVerify
  | StateAudit | StateOther int

fun SafetyState_String :: "SafetyState \<Rightarrow> string" where
  "SafetyState_String StateObserve = ''OBSERVE''"
| "SafetyState_String StateAnalyze = ''ANALYZE''"
| "SafetyState_String StateRecommend = ''RECOMMEND''"
| "SafetyState_String StateConfirm = ''CONFIRM''"
| "SafetyState_String StateExecute = ''EXECUTE''"
| "SafetyState_String StateVerify = ''VERIFY''"
| "SafetyState_String StateAudit = ''AUDIT''"
| "SafetyState_String (StateOther _) = ''UNKNOWN''"

datatype Gate = GateAutomatic | GateApproved

fun nextState :: "SafetyState \<Rightarrow> SafetyState option" where
  "nextState StateObserve = Some StateAnalyze"
| "nextState StateAnalyze = Some StateRecommend"
| "nextState StateRecommend = Some StateConfirm"
| "nextState StateConfirm = Some StateExecute"
| "nextState StateExecute = Some StateVerify"
| "nextState StateVerify = Some StateAudit"
| "nextState _ = None"

definition Advance :: "SafetyState \<Rightarrow> Gate \<Rightarrow> SafetyState res" where
  "Advance s gate =
     (if s = StateAudit then Inl (Sent (Response ErrSafetyViolation) ''AUDIT is terminal'')
      else if s = StateConfirm \<and> gate \<noteq> GateApproved
        then Inl (Sent (Response ErrSafetyViolation) ''entering EXECUTE requires an approval gate'')
      else (case nextState s of
          None \<Rightarrow> Inl (Sent (Response ErrSafetyViolation) ''no successor state'')
        | Some n \<Rightarrow> Inr n))"

definition RequiredGate :: "enum \<Rightarrow> enum \<Rightarrow> bool \<Rightarrow> Gate" where
  "RequiredGate op risk policyApprovalRequired =
     (if policyApprovalRequired then GateApproved
      else if op = OP_BLOCK \<or> op = OP_ISOLATE \<or> op = OP_DELETE \<or> op = OP_EXECUTE then GateApproved
      else if risk = RISK_HIGH \<or> risk = RISK_CRITICAL then GateApproved
      else GateAutomatic)"

subsection \<open>Policy (\<open>policy.go\<close>)\<close>

record ActionRequest =
  ar_actor :: string
  ar_operation :: enum
  ar_target :: string
  ar_risk :: enum

text \<open>\<open>Decision\<close> is a Go int with three named values.\<close>

datatype Decision = DecisionAllow | DecisionDeny | DecisionRequireApproval | DecisionOther int

type_synonym policy = "ActionRequest \<Rightarrow> Decision \<times> goerr"

definition isDestructive :: "enum \<Rightarrow> bool" where
  "isDestructive op = (op = OP_BLOCK \<or> op = OP_ISOLATE \<or> op = OP_DELETE \<or> op = OP_EXECUTE)"

definition knownOperation :: "enum \<Rightarrow> bool" where
  "knownOperation op = (OperationType_known op \<and> op \<noteq> 0)"

definition knownRisk :: "enum \<Rightarrow> bool" where
  "knownRisk risk = (RiskLevel_known risk \<and> risk \<noteq> 0)"

definition DefaultPolicy_Decide :: policy where
  "DefaultPolicy_Decide req =
     (if ar_actor req = [] then (DecisionDeny, Some (Plain ''policy actor is empty''))
      else if \<not> knownOperation (ar_operation req)
        then (DecisionDeny, Some (Plain ''policy unknown operation''))
      else if \<not> knownRisk (ar_risk req) then (DecisionDeny, Some (Plain ''policy unknown risk''))
      else if isDestructive (ar_operation req) then (DecisionRequireApproval, None)
      else if ar_risk req = RISK_HIGH \<or> ar_risk req = RISK_CRITICAL
        then (DecisionRequireApproval, None)
      else (DecisionAllow, None))"

definition StaticPolicy_Decide :: "Decision \<Rightarrow> policy" where
  "StaticPolicy_Decide d req =
     (if ar_actor req = [] then (DecisionDeny, Some (Plain ''policy actor is empty''))
      else if \<not> knownOperation (ar_operation req) \<or> \<not> knownRisk (ar_risk req)
        then (DecisionDeny, Some (Plain ''policy unknown operation/risk''))
      else (d, None))"

definition StaticAllowAll :: policy where "StaticAllowAll = StaticPolicy_Decide DecisionAllow"
definition StaticDenyAll :: policy where "StaticDenyAll = StaticPolicy_Decide DecisionDeny"
definition StaticRequireApproval :: policy where
  "StaticRequireApproval = StaticPolicy_Decide DecisionRequireApproval"

subsection \<open>Facts about the lifecycle\<close>

lemma Advance_Inr_iff:
  "Advance s g = Inr t \<longleftrightarrow> nextState s = Some t \<and> (s = StateConfirm \<longrightarrow> g = GateApproved)"
  by (cases s; cases g) (auto simp: Advance_def)

text \<open>The position of a phase; a successful step moves it by exactly one.\<close>

fun phase_rank :: "SafetyState \<Rightarrow> nat" where
  "phase_rank StateObserve = 0"
| "phase_rank StateAnalyze = 1"
| "phase_rank StateRecommend = 2"
| "phase_rank StateConfirm = 3"
| "phase_rank StateExecute = 4"
| "phase_rank StateVerify = 5"
| "phase_rank StateAudit = 6"
| "phase_rank (StateOther _) = 7"

lemma nextState_rank: "nextState s = Some t \<Longrightarrow> phase_rank t = Suc (phase_rank s) \<and> phase_rank t \<le> 6"
  by (cases s) auto

text \<open>A walk presents one gate per step.\<close>

fun advance_walk :: "SafetyState \<Rightarrow> Gate list \<Rightarrow> SafetyState res" where
  "advance_walk s [] = Inr s"
| "advance_walk s (g # gs) = (case Advance s g of Inl e \<Rightarrow> Inl e | Inr t \<Rightarrow> advance_walk t gs)"

lemma advance_walk_rank: "advance_walk s gs = Inr t \<Longrightarrow> gs \<noteq> [] \<Longrightarrow>
    phase_rank t = phase_rank s + length gs \<and> phase_rank t \<le> 6"
proof (induction s gs rule: advance_walk.induct)
  case (2 s g gs)
  from "2.prems"(1) obtain u where u: "Advance s g = Inr u" "advance_walk u gs = Inr t"
    by (auto split: sum.splits)
  then have r: "phase_rank u = Suc (phase_rank s) \<and> phase_rank u \<le> 6"
    by (auto simp: Advance_Inr_iff dest: nextState_rank)
  show ?case
  proof (cases "gs = []")
    case True
    then show ?thesis using u r by simp
  next
    case False
    then show ?thesis using "2.IH" [OF u(1,2)] r by simp
  qed
qed simp

text \<open>
  Passing from a phase before EXECUTE to EXECUTE or beyond presents \<^const>\<open>GateApproved\<close> at
  the step that leaves CONFIRM.
\<close>

lemma advance_walk_gate:
  "advance_walk s gs = Inr t \<Longrightarrow> phase_rank s \<le> 3 \<Longrightarrow> 4 \<le> phase_rank t \<Longrightarrow>
    gs ! (3 - phase_rank s) = GateApproved"
proof (induction s gs rule: advance_walk.induct)
  case (2 s g gs)
  from "2.prems"(1) obtain u where u: "Advance s g = Inr u" "advance_walk u gs = Inr t"
    by (auto split: sum.splits)
  then have n: "nextState s = Some u" and gate: "s = StateConfirm \<longrightarrow> g = GateApproved"
    by (auto simp: Advance_Inr_iff)
  show ?case
  proof (cases "s = StateConfirm")
    case True
    then show ?thesis using gate by simp
  next
    case False
    then have "phase_rank u \<le> 3" "phase_rank u = Suc (phase_rank s)"
      using n "2.prems"(2) by (cases s; auto)+
    moreover from this have "gs ! (3 - phase_rank u) = GateApproved"
      using "2.IH" [OF u(1,2)] "2.prems"(3) by blast
    ultimately show ?thesis by (simp add: nth_Cons' Suc_diff_le)
  qed
qed simp

text \<open>The default policy and the gate rule agree on who needs a human.\<close>

lemma RequiredGate_approved_iff:
  "RequiredGate op risk b = GateApproved \<longleftrightarrow>
     b \<or> isDestructive op \<or> risk = RISK_HIGH \<or> risk = RISK_CRITICAL"
  by (auto simp: RequiredGate_def isDestructive_def)

end
