(* ===== verification/GoTime.thy ===== *)
theory GoTime
  imports Prelude
begin

text \<open>
  The two layouts of \<open>time.Time.Format\<close> the collector uses, for instants in UTC: RFC 3339
  in whole seconds and RFC 3339 with the significant fractional digits. The civil date is
  computed in the proleptic Gregorian calendar, as the Go library does.
\<close>

text \<open>Days since 1970-01-01 to (year, month, day), counting years from 1 March.\<close>

definition civil_from_days :: "int \<Rightarrow> int \<times> int \<times> int" where
  "civil_from_days z =
     (let z' = z + 719468; era = z' div 146097; doe = z' mod 146097;
          yoe = (doe - doe div 1460 + doe div 36524 - doe div 146096) div 365;
          doy = doe - (365 * yoe + yoe div 4 - yoe div 100);
          mp = (5 * doy + 2) div 153;
          d = doy - (153 * mp + 2) div 5 + 1;
          m = (if mp < 10 then mp + 3 else mp - 9);
          y = yoe + era * 400
      in (if m \<le> 2 then y + 1 else y, m, d))"

definition pad_int :: "nat \<Rightarrow> int \<Rightarrow> string" where
  "pad_int w i =
     (if i < 0 then CHR ''-'' # replicate (w - length (itoa (- i))) (CHR ''0'') @ itoa (- i)
      else replicate (w - length (itoa i)) (CHR ''0'') @ itoa i)"

definition date_time :: "gotime \<Rightarrow> string" where
  "date_time t =
     (let secs = t div 1000000000; sod = secs mod 86400
      in case civil_from_days (secs div 86400) of (y, m, d) \<Rightarrow>
         pad_int 4 y @ ''-'' @ pad_int 2 m @ ''-'' @ pad_int 2 d @ ''T'' @
         pad_int 2 (sod div 3600) @ '':'' @ pad_int 2 (sod mod 3600 div 60) @ '':'' @
         pad_int 2 (sod mod 60))"

text \<open>\<open>t.UTC().Format(time.RFC3339)\<close>.\<close>

definition format_RFC3339 :: "gotime \<Rightarrow> string" where
  "format_RFC3339 t = date_time t @ ''Z''"

text \<open>\<open>t.UTC().Format(time.RFC3339Nano)\<close>: trailing zeros of the fraction are dropped.\<close>

definition format_RFC3339Nano :: "gotime \<Rightarrow> string" where
  "format_RFC3339Nano t =
     (let frac = rev (dropWhile (\<lambda>c. c = CHR ''0'') (rev (pad_int 9 (t mod 1000000000))))
      in date_time t @ (if frac = [] then [] else CHR ''.'' # frac) @ ''Z'')"

text \<open>
  \<open>Duration.String()\<close>: hours, minutes and seconds with the fraction of a second, or a
  smaller unit below one second (the micro sign is the two UTF-8 bytes of U+00B5).
\<close>

definition fraction :: "nat \<Rightarrow> int \<Rightarrow> string" where
  "fraction prec v =
     (let frac = rev (dropWhile (\<lambda>c. c = CHR ''0'') (rev (pad_int prec v)))
      in if frac = [] then [] else CHR ''.'' # frac)"

definition duration_String :: "duration \<Rightarrow> string" where
  "duration_String d =
     (if d = 0 then ''0s'' else
      let u = \<bar>d\<bar>; sign = (if d < 0 then ''-'' else '''') in
      sign @
      (if u < 1000 then itoa u @ ''ns''
       else if u < 1000000 then itoa (u div 1000) @ fraction 3 (u mod 1000) @ [CHR 0xC2, CHR 0xB5] @ ''s''
       else if u < 1000000000 then itoa (u div 1000000) @ fraction 6 (u mod 1000000) @ ''ms''
       else
         let secs = u div 1000000000; mins = secs div 60; hours = mins div 60;
             tail = itoa (secs mod 60) @ fraction 9 (u mod 1000000000) @ ''s''
         in if mins = 0 then tail
            else if hours = 0 then itoa mins @ ''m'' @ tail
            else itoa hours @ ''h'' @ itoa (mins mod 60) @ ''m'' @ tail))"

end
