(* ===== verification/Response.thy ===== *)
theory Response
  imports Safety GoTime Sha256
begin

text \<open>
  The parts of \<open>internal/response\<close> the engine is built from: recommendations
  (\<open>recommend.go\<close>), approvals (\<open>approval.go\<close>), the audit log (\<open>audit.go\<close>), the executor
  boundary and the simulated executor (\<open>executor.go\<close>), and verification (\<open>verifier.go\<close>).
\<close>

subsection \<open>Recommendations\<close>

definition RecommenderName :: string where
  "RecommenderName = ''blueveil-recommender/1''"

definition severityOperation :: "enum \<Rightarrow> enum \<times> enum" where
  "severityOperation sev =
     (if sev = SEVERITY_CRITICAL then (OP_ANALYZE, RISK_CRITICAL)
      else if sev = SEVERITY_HIGH then (OP_RECOMMEND, RISK_HIGH)
      else if sev = SEVERITY_MEDIUM then (OP_OBSERVE, RISK_MEDIUM)
      else (OP_OBSERVE, RISK_LOW))"

definition recommendationID :: "string \<Rightarrow> string \<Rightarrow> string" where
  "recommendationID incidentID alertID =
     ''rec-'' @ id16 (''blueveil-recommendation-v1'' @ US @ incidentID @ US @ alertID)"

text \<open>The loop over the contributing events: the asset ids seen, or the first error.\<close>

fun recommend_assets :: "pblib \<Rightarrow> TelemetryEvent option list \<Rightarrow> string list res" where
  "recommend_assets L [] = Inr []"
| "recommend_assets L (None # es) = Inl (Sent (Response ErrResponseBuild) ''nil event'')"
| "recommend_assets L (Some e # es) =
     (case ValidateTelemetryEvent L (Some e) of
        Some x \<Rightarrow> Inl (Wrap (Response ErrResponseBuild) x)
      | None \<Rightarrow>
         if te_asset_id e = [] then Inl (Sent (Response ErrResponseBuild) ''contributing event has no asset id'')
         else (case recommend_assets L es of Inl x \<Rightarrow> Inl x | Inr as \<Rightarrow> Inr (te_asset_id e # as)))"

text \<open>
  \<open>Recommender.Recommend\<close>, in two parts: the checks up to the clock read, which yield the
  sorted target names, and the construction at the instant the clock returned.
\<close>

definition recommend_check ::
  "pblib \<Rightarrow> Incident option \<Rightarrow> Alert option \<Rightarrow> Detection option \<Rightarrow> TelemetryEvent option list
    \<Rightarrow> (Incident \<times> Alert \<times> Detection \<times> string list) res" where
  "recommend_check L incident alert det events =
     (case (incident, alert, det) of
        (Some i, Some a, Some d) \<Rightarrow>
          (case first_err [
             map_option (Wrap (Response ErrResponseBuild)) (ValidateIncident L (Some i)),
             map_option (Wrap (Response ErrResponseBuild)) (ValidateAlert L (Some a)),
             map_option (Wrap (Response ErrResponseBuild)) (ValidateDetection L (Some d)),
             fail_if (al_id a \<notin> set (inc_alert_ids i))
               (Sent (Response ErrResponseBuild) ''alert not attached to incident'')] of
             Some e \<Rightarrow> Inl e
           | None \<Rightarrow>
              (case recommend_assets L events of
                 Inl e \<Rightarrow> Inl e
               | Inr assets \<Rightarrow>
                   (let names = sortedKeys assets in
                    if names = [] then Inl (Sent (Response ErrResponseBuild) ''no target asset'')
                    else Inr (i, a, d, names))))
      | _ \<Rightarrow> Inl (Sent (Response ErrResponseBuild) ''incident, alert and detection are required''))"

definition recommend_build ::
  "pblib \<Rightarrow> Incident \<Rightarrow> Alert \<Rightarrow> Detection \<Rightarrow> string list \<Rightarrow> gotime \<Rightarrow> Recommendation res" where
  "recommend_build L i a d names now =
     (if IsZero now then Inl (Sent (Response ErrResponseBuild) ''clock returned zero time'')
      else
        (case severityOperation (inc_severity i) of (op, risk) \<Rightarrow>
          (let r = \<lparr> rec_id = recommendationID (inc_id i) (al_id a),
                     rec_incident_id = inc_id i,
                     rec_operation = op,
                     rec_target = join '','' names,
                     rec_risk = risk,
                     rec_reason = ''incident '' @ inc_id i @ '' (severity ''
                       @ enum_String Severity_name (inc_severity i) @ '', rule '' @ det_rule_id d
                       @ '') requires analyst review; no automated action proposed'',
                     rec_status = ST_PROPOSED,
                     rec_recommended_at = Some (ts_New L now),
                     rec_recommended_by = RecommenderName,
                     rec_approval_required = (risk = RISK_HIGH \<or> risk = RISK_CRITICAL) \<rparr>
           in case ValidateResponseRecommendation L (Some r) of
                Some e \<Rightarrow> Inl (Wrap (Response ErrResponseBuild) e)
              | None \<Rightarrow> Inr r)))"

subsection \<open>Approvals\<close>

definition approvalID :: "string \<Rightarrow> string \<Rightarrow> gotime \<Rightarrow> string" where
  "approvalID recID approver now =
     ''appr-'' @ id16 (''blueveil-approval-v1'' @ US @ recID @ US @ approver @ US
       @ format_RFC3339Nano now)"

definition Grant ::
  "pblib \<Rightarrow> Recommendation option \<Rightarrow> string \<Rightarrow> string \<Rightarrow> gotime \<Rightarrow> duration \<Rightarrow> Approval res" where
  "Grant L p approver reason now ttl =
     (case p of None \<Rightarrow> Inl (Sent (Response ErrApprovalInvalid) ''recommendation is nil'') | Some r \<Rightarrow>
        (case first_err [
           map_option (Wrap (Response ErrApprovalInvalid)) (ValidateResponseRecommendation L (Some r)),
           fail_if (approver = [] \<or> reason = [])
             (Sent (Response ErrApprovalInvalid) ''approver and reason are required''),
           fail_if (IsZero now) (Sent (Response ErrApprovalInvalid) ''approval timestamp is zero''),
           fail_if (ttl < 0) (Sent (Response ErrApprovalInvalid) ''negative ttl'')] of
           Some e \<Rightarrow> Inl e
         | None \<Rightarrow>
            (let a = \<lparr> ap_id = approvalID (rec_id r) approver now,
                       ap_recommendation_id = rec_id r,
                       ap_operation = rec_operation r,
                       ap_target = rec_target r,
                       ap_risk = rec_risk r,
                       ap_approver = approver,
                       ap_approved_at = Some (ts_New L now),
                       ap_expires_at = (if ttl > 0 then Some (ts_New L (now + ttl)) else None),
                       ap_reason = reason \<rparr>
             in case ValidateResponseApproval L (Some a) of
                  Some e \<Rightarrow> Inl (Wrap (Response ErrApprovalInvalid) e)
                | None \<Rightarrow> Inr a)))"

definition Covers :: "pblib \<Rightarrow> Approval option \<Rightarrow> Recommendation option \<Rightarrow> gotime \<Rightarrow> bool" where
  "Covers L approval r now =
     (case (approval, r) of
        (Some a, Some r) \<Rightarrow>
          (if ap_recommendation_id a \<noteq> rec_id r then False
           else if ap_operation a \<noteq> rec_operation r then False
           else if ap_target a \<noteq> rec_target r then False
           else if ap_risk a \<noteq> rec_risk r then False
           else (case ap_expires_at a of
                   Some e \<Rightarrow> now < ts_AsTime L e
                 | None \<Rightarrow> True))
      | _ \<Rightarrow> False)"

lemma Covers_Some_iff:
  "Covers L (Some a) (Some r) now \<longleftrightarrow>
     ap_recommendation_id a = rec_id r \<and> ap_operation a = rec_operation r \<and>
     ap_target a = rec_target r \<and> ap_risk a = rec_risk r \<and>
     (\<forall>e. ap_expires_at a = Some e \<longrightarrow> now < ts_AsTime L e)"
  by (auto simp: Covers_def split: option.splits)

lemma Covers_None [simp]: "\<not> Covers L None r now" "\<not> Covers L a None now"
  by (auto simp: Covers_def split: option.splits)

subsection \<open>Audit log\<close>

datatype AuditDecision =
    AuditRecommended | AuditAllowed | AuditDenied | AuditApprovalRequired | AuditApproved
  | AuditExecuted | AuditExecutionFailed | AuditExecutorError
  | AuditVerified | AuditVerificationFailed | AuditVerificationUnknown

fun AuditDecision_string :: "AuditDecision \<Rightarrow> string" where
  "AuditDecision_string AuditRecommended = ''recommended''"
| "AuditDecision_string AuditAllowed = ''allowed''"
| "AuditDecision_string AuditDenied = ''denied''"
| "AuditDecision_string AuditApprovalRequired = ''approval-required''"
| "AuditDecision_string AuditApproved = ''approved''"
| "AuditDecision_string AuditExecuted = ''executed''"
| "AuditDecision_string AuditExecutionFailed = ''execution-failed''"
| "AuditDecision_string AuditExecutorError = ''executor-error''"
| "AuditDecision_string AuditVerified = ''verified''"
| "AuditDecision_string AuditVerificationFailed = ''verification-failed''"
| "AuditDecision_string AuditVerificationUnknown = ''verification-unknown''"

record AuditEntry =
  au_id :: string
  au_decided_at :: "timestamp option"
  au_actor :: string
  au_operation :: enum
  au_risk :: enum
  au_decision :: AuditDecision
  au_reason :: string
  au_result :: string
  au_response_id :: string
  au_phase :: string

text \<open>The in-memory log is the list of its entries; \<open>Entries\<close> returns a copy of it.\<close>

definition AuditLog_Append :: "AuditEntry list \<Rightarrow> AuditEntry \<Rightarrow> AuditEntry list" where
  "AuditLog_Append l e = l @ [e\<lparr>au_id := ''audit-'' @ pad4 (length l + 1)\<rparr>]"

definition AuditLog_Entries :: "AuditEntry list \<Rightarrow> AuditEntry list" where
  "AuditLog_Entries l = l"

subsection \<open>Executor boundary\<close>

record ExecRequest =
  er_operation :: enum
  er_target :: string
  er_risk :: enum
  er_recommendation_id :: string
  er_approval_id :: string

record ExecResult =
  xr_success :: bool
  xr_detail :: string

text \<open>An executor keeps a state of its own and answers a request with a result or an error.\<close>

type_synonym 'x executor = "'x \<Rightarrow> ExecRequest \<Rightarrow> 'x \<times> ExecResult res"

definition executionID :: "ExecRequest \<Rightarrow> string" where
  "executionID req =
     ''exec-'' @ id16 (''blueveil-execution-v1'' @ US @ er_recommendation_id req @ US
       @ itoa (er_operation req) @ US @ er_target req)"

definition BuildExecution ::
  "pblib \<Rightarrow> ExecRequest \<Rightarrow> ExecResult \<Rightarrow> gotime \<Rightarrow> gotime \<Rightarrow> Execution res" where
  "BuildExecution L req res started finished =
     (if er_recommendation_id req = [] \<or> er_target req = []
        then Inl (Sent (Response ErrExecutionFailed) ''recommendation id and target are required'')
      else if IsZero started \<or> IsZero finished
        then Inl (Sent (Response ErrExecutionFailed) ''execution timestamps must be set'')
      else
        (let e = \<lparr> ex_id = executionID req,
                   ex_recommendation_id = er_recommendation_id req,
                   ex_approval_id = er_approval_id req,
                   ex_operation = er_operation req,
                   ex_target = er_target req,
                   ex_started_at = Some (ts_New L started),
                   ex_finished_at = Some (ts_New L finished),
                   ex_success = xr_success res,
                   ex_detail = xr_detail res \<rparr>
         in case ValidateResponseExecution L (Some e) of
              Some x \<Rightarrow> Inl (Wrap (Response ErrExecutionFailed) x)
            | None \<Rightarrow> Inr e))"

text \<open>
  The simulated executor: the operations programmed to fail are the argument, the requests
  it recorded are its state.
\<close>

definition SimulatedExecutor_Execute :: "(enum \<Rightarrow> bool) \<Rightarrow> ExecRequest list executor" where
  "SimulatedExecutor_Execute fails calls req =
     (if er_recommendation_id req = [] \<or> er_target req = []
        then (calls, Inl (Plain ''simulated executor: recommendation id and target are required''))
      else (calls @ [req],
        if fails (er_operation req)
        then Inr \<lparr> xr_success = False,
                   xr_detail = ''simulated: '' @ enum_String OperationType_name (er_operation req)
                     @ '' on '' @ quote (er_target req)
                     @ '' failed as programmed; no real-world effect occurred'' \<rparr>
        else Inr \<lparr> xr_success = True,
                   xr_detail = ''simulated: '' @ enum_String OperationType_name (er_operation req)
                     @ '' on '' @ quote (er_target req)
                     @ '' recorded; no real-world effect occurred'' \<rparr>))"

subsection \<open>Verification\<close>

type_synonym verifier = "Recommendation \<Rightarrow> Execution \<Rightarrow> enum \<times> string"

definition UnknownVerifier :: verifier where
  "UnknownVerifier r e = (OUTCOME_UNKNOWN, ''no verification source attached: UNKNOWN, never verified'')"

definition StaticVerifier :: "enum \<Rightarrow> string \<Rightarrow> verifier" where
  "StaticVerifier outcome detail r e =
     (if detail = [] then (outcome, ''static test verdict'') else (outcome, detail))"

definition verificationID :: "string \<Rightarrow> string" where
  "verificationID execID = ''verif-'' @ id16 (''blueveil-verification-v1'' @ US @ execID)"

definition BuildVerification ::
  "pblib \<Rightarrow> Execution option \<Rightarrow> enum \<Rightarrow> string \<Rightarrow> gotime \<Rightarrow> Verification res" where
  "BuildVerification L exec outcome detail now =
     (case exec of None \<Rightarrow> Inl (Plain ''verification needs an execution'') | Some x \<Rightarrow>
        (case first_err [
           map_option (Ctx ''verification needs a valid execution'') (ValidateResponseExecution L (Some x)),
           fail_if (\<not> VerificationOutcome_known outcome \<or> outcome = 0)
             (Plain ''verification outcome must be explicit''),
           fail_if (detail = []) (Plain ''verification detail is required''),
           fail_if (IsZero now) (Plain ''verification timestamp is zero'')] of
           Some e \<Rightarrow> Inl e
         | None \<Rightarrow>
            (let v = \<lparr> ver_id = verificationID (ex_id x),
                       ver_execution_id = ex_id x,
                       ver_outcome = outcome,
                       ver_verified_at = Some (ts_New L now),
                       ver_detail = detail \<rparr>
             in case ValidateResponseVerification L (Some v) of
                  Some e \<Rightarrow> Inl e
                | None \<Rightarrow> Inr v)))"

subsection \<open>Facts about the parts\<close>

lemma severityOperation_readonly:
  "severityOperation sev = (op, risk) \<Longrightarrow> op \<in> {OP_OBSERVE, OP_ANALYZE, OP_RECOMMEND} \<and>
     risk \<in> {RISK_LOW, RISK_MEDIUM, RISK_HIGH, RISK_CRITICAL}"
  by (auto simp: severityOperation_def split: if_splits)

lemma recommend_build_Inr:
  assumes "recommend_build L i a d names now = Inr r"
  shows "rec_status r = ST_PROPOSED \<and> rec_id r = recommendationID (inc_id i) (al_id a) \<and>
    ValidateResponseRecommendation L (Some r) = None \<and> \<not> isDestructive (rec_operation r)"
  using assms
  by (auto simp: recommend_build_def isDestructive_def Let_def
      split: if_splits prod.splits option.splits dest!: severityOperation_readonly)

lemma Grant_Inr:
  assumes "Grant L (Some r) approver reason now ttl = Inr a"
  shows "ap_recommendation_id a = rec_id r \<and> ap_operation a = rec_operation r \<and>
    ap_target a = rec_target r \<and> ap_risk a = rec_risk r \<and> 0 \<le> ttl \<and>
    ap_expires_at a = (if ttl > 0 then Some (ts_New L (now + ttl)) else None)"
  using assms by (auto simp: Grant_def Let_def split: option.splits if_splits)

lemma length_AuditLog_Append [simp]: "length (AuditLog_Append l e) = Suc (length l)"
  by (simp add: AuditLog_Append_def)

lemma status_only_validity:
  assumes "ValidateResponseRecommendation L (Some r) = None" and "1 \<le> st" and "st \<le> 10"
  shows "ValidateResponseRecommendation L (Some (r\<lparr>rec_status := st\<rparr>)) = None"
  using assms by (simp add: ValidateResponseRecommendation_def boundary)

lemma BuildExecution_Inr:
  assumes "BuildExecution L req res started finished = Inr e"
  shows "ex_success e = xr_success res \<and> ex_recommendation_id e = er_recommendation_id req \<and>
    ex_approval_id e = er_approval_id req \<and> ValidateResponseExecution L (Some e) = None"
  using assms by (auto simp: BuildExecution_def Let_def split: if_splits option.splits)

lemma BuildVerification_Inr:
  assumes "BuildVerification L exec outcome detail now = Inr v"
  shows "ver_outcome v = outcome \<and> outcome \<in> {1, 2, 3}"
  using assms
  by (auto simp: BuildVerification_def VerificationOutcome_known_def Let_def split: option.splits)

end
