(* ===== verification/Engine.thy ===== *)
theory Engine
  imports Response
begin

text \<open>
  \<open>internal/response/engine.go\<close>: the gated path recommend, decide, approve, execute,
  verify. The collaborators (policy, executor, verifier, clock, timestamp library) are the
  fields of an environment; the mutable fields of \<open>Engine\<close>, the audit log, the number of
  clock reads so far and the executor's own state are the engine state. The clock is an
  arbitrary function of the read number, so that every read may return a different instant
  (also the zero time). Each method is atomic, as under the engine's mutex.

  A method ends in a value, an error, a value together with an error, or a panic (an audit
  record without a clock, or the nil session of an unknown recommendation); the state after
  an error or a panic is the one the code leaves behind.
\<close>

record session =
  ss_safety :: SafetyState
  ss_approval :: "Approval option"
  ss_approvalRequired :: bool
  ss_executed :: bool
  ss_verified :: bool
  ss_done :: bool
  ss_execution :: "Execution option"

record 'x env =
  e_pb :: pblib
  e_policy :: policy
  e_executor :: "'x executor"
  e_verifier :: verifier
  e_clock :: "nat \<Rightarrow> gotime"

record 'x engine =
  en_recs :: "string \<rightharpoonup> Recommendation"
  en_sessions :: "string \<rightharpoonup> session"
  en_audit :: "AuditEntry list"
  en_ticks :: nat
  en_exec :: 'x

subsection \<open>Construction and helpers\<close>

text \<open>\<open>NewEngine\<close>: a nil collaborator or clock is an error.\<close>

definition NewEngine ::
  "pblib \<Rightarrow> policy option \<Rightarrow> 'x executor option \<Rightarrow> verifier option \<Rightarrow> AuditEntry list option
    \<Rightarrow> (nat \<Rightarrow> gotime) option \<Rightarrow> 'x \<Rightarrow> ('x env \<times> 'x engine) res" where
  "NewEngine L policy executor verifier audit clock x0 =
     (case (policy, executor, verifier, audit) of
        (Some p, Some x, Some v, Some l) \<Rightarrow>
          (case clock of
             None \<Rightarrow> Inl (Sent (Response ErrResponseBuild) ''recommender clock is nil'')
           | Some c \<Rightarrow> Inr (\<lparr>e_pb = L, e_policy = p, e_executor = x, e_verifier = v, e_clock = c\<rparr>,
               \<lparr>en_recs = Map.empty, en_sessions = Map.empty, en_audit = l, en_ticks = 0, en_exec = x0\<rparr>))
      | _ \<Rightarrow> Inl (Plain ''engine needs policy, executor, verifier and audit''))"

definition e_now :: "'x env \<Rightarrow> 'x engine \<Rightarrow> gotime res \<times> 'x engine" where
  "e_now env s =
     (let now = e_clock env (en_ticks s); s' = s\<lparr>en_ticks := Suc (en_ticks s)\<rparr>
      in (if IsZero now then Inl (Plain ''clock returned zero time'') else Inr now, s'))"

text \<open>\<open>record\<close>: reads the clock again; \<open>False\<close> is the panic of a zero clock.\<close>

definition e_record ::
  "'x env \<Rightarrow> string \<Rightarrow> enum \<Rightarrow> enum \<Rightarrow> AuditDecision \<Rightarrow> string \<Rightarrow> string \<Rightarrow> string \<Rightarrow> SafetyState
    \<Rightarrow> 'x engine \<Rightarrow> bool \<times> 'x engine" where
  "e_record env actor op risk decision reason result recID phase s =
     (case e_now env s of
        (Inl _, s') \<Rightarrow> (False, s')
      | (Inr now, s') \<Rightarrow>
          (True, s'\<lparr>en_audit := AuditLog_Append (en_audit s')
             \<lparr> au_id = [], au_decided_at = Some (ts_New (e_pb env) now), au_actor = actor,
               au_operation = op, au_risk = risk, au_decision = decision, au_reason = reason,
               au_result = result, au_response_id = recID, au_phase = SafetyState_String phase \<rparr>\<rparr>))"

text \<open>\<open>live\<close>: the record and session of an id, unless unknown or done.\<close>

definition e_live :: "string \<Rightarrow> 'x engine \<Rightarrow> (Recommendation \<times> session) outcome" where
  "e_live recID s =
     (case en_recs s recID of
        None \<Rightarrow> Fail (Plain ''unknown recommendation'')
      | Some r \<Rightarrow>
         (case en_sessions s recID of
            None \<Rightarrow> Panicked
          | Some ss \<Rightarrow>
              if ss_done ss then Fail (Sent (Response ErrResponseState) ''recommendation is terminal'')
              else Ret (r, ss)))"

text \<open>The records behind the two map entries are updated in place.\<close>

definition e_put :: "string \<Rightarrow> Recommendation \<Rightarrow> session \<Rightarrow> 'x engine \<Rightarrow> 'x engine" where
  "e_put recID r ss s =
     s\<lparr>en_recs := (en_recs s)(recID \<mapsto> r), en_sessions := (en_sessions s)(recID \<mapsto> ss)\<rparr>"

text \<open>
  The common tail of a decision: store the updated record and session, append the audit
  entry, re-validate the recommendation, return.
\<close>

definition e_settle ::
  "'x env \<Rightarrow> string \<Rightarrow> Recommendation \<Rightarrow> session \<Rightarrow> string \<Rightarrow> AuditDecision \<Rightarrow> string \<Rightarrow> string
    \<Rightarrow> SafetyState \<Rightarrow> 'a outcome \<Rightarrow> 'x engine \<Rightarrow> 'a outcome \<times> 'x engine" where
  "e_settle env recID r ss actor decision reason result phase out s =
     (case e_record env actor (rec_operation r) (rec_risk r) decision reason result (rec_id r) phase
             (e_put recID r ss s) of
        (False, s') \<Rightarrow> (Panicked, s')
      | (True, s') \<Rightarrow>
         (case ValidateResponseRecommendation (e_pb env) (Some r) of
            Some e \<Rightarrow> (Fail e, s')
          | None \<Rightarrow> (out, s')))"

subsection \<open>Recommend\<close>

definition new_session :: "SafetyState \<Rightarrow> session" where
  "new_session safety = \<lparr>ss_safety = safety, ss_approval = None, ss_approvalRequired = False,
     ss_executed = False, ss_verified = False, ss_done = False, ss_execution = None\<rparr>"

definition e_Recommend ::
  "'x env \<Rightarrow> Incident option \<Rightarrow> Alert option \<Rightarrow> Detection option \<Rightarrow> TelemetryEvent option list
    \<Rightarrow> 'x engine \<Rightarrow> Recommendation outcome \<times> 'x engine" where
  "e_Recommend env incident alert det events s0 =
     (case e_now env s0 of
        (Inl e, s1) \<Rightarrow> (Fail e, s1)
      | (Inr _, s1) \<Rightarrow>
         (case recommend_check (e_pb env) incident alert det events of
            Inl e \<Rightarrow> (Fail e, s1)
          | Inr (i, a, d, names) \<Rightarrow>
             (let now = e_clock env (en_ticks s1); s2 = s1\<lparr>en_ticks := Suc (en_ticks s1)\<rparr> in
              case recommend_build (e_pb env) i a d names now of
                Inl e \<Rightarrow> (Fail e, s2)
              | Inr r \<Rightarrow>
                 (case en_recs s2 (rec_id r) of
                    Some existing \<Rightarrow> (Ret existing, s2)
                  | None \<Rightarrow>
                     (case advance_walk StateObserve [GateAutomatic, GateAutomatic] of
                        Inl e \<Rightarrow> (Fail (Wrap (Response ErrSafetyViolation) e), s2)
                      | Inr safety \<Rightarrow>
                          if safety \<noteq> StateRecommend
                            then (Fail (Sent (Response ErrSafetyViolation) ''recommend walk''), s2)
                          else
                            (case e_record env (rec_recommended_by r) (rec_operation r) (rec_risk r)
                                    AuditRecommended (rec_reason r) (rec_id r) (rec_id r) StateRecommend
                                    (e_put (rec_id r) r (new_session safety) s2) of
                               (False, s3) \<Rightarrow> (Panicked, s3)
                             | (True, s3) \<Rightarrow> (Ret r, s3)))))))"

subsection \<open>Decide\<close>

definition e_Decide ::
  "'x env \<Rightarrow> string \<Rightarrow> string \<Rightarrow> 'x engine \<Rightarrow> Recommendation outcome \<times> 'x engine" where
  "e_Decide env recID actor s0 =
     (case e_now env s0 of
        (Inl e, s1) \<Rightarrow> (Fail e, s1)
      | (Inr _, s1) \<Rightarrow>
     (case e_live recID s1 of
        Fail e \<Rightarrow> (Fail e, s1) | RetFail _ e \<Rightarrow> (Fail e, s1) | Panicked \<Rightarrow> (Panicked, s1)
      | Ret (r, ss) \<Rightarrow>
         if rec_status r \<noteq> ST_PROPOSED \<or> ss_safety ss \<noteq> StateRecommend
           then (Fail (Sent (Response ErrResponseState) ''decide needs a PROPOSED recommendation''), s1)
         else
     (case e_policy env \<lparr>ar_actor = actor, ar_operation = rec_operation r, ar_target = rec_target r,
                          ar_risk = rec_risk r\<rparr> of
        (_, Some e) \<Rightarrow> (Fail (Ctx ''policy error'' e), s1)
      | (decision, None) \<Rightarrow>
     (case Advance (ss_safety ss) GateAutomatic of
        Inl e \<Rightarrow> (Fail e, s1)
      | Inr safety \<Rightarrow>
         (let ss1 = ss\<lparr>ss_safety := safety\<rparr> in
          case decision of
            DecisionAllow \<Rightarrow>
              (if RequiredGate (rec_operation r) (rec_risk r) False = GateApproved then
                 (let r1 = r\<lparr>rec_status := ST_PENDING_APPROVAL\<rparr> in
                  e_settle env recID r1 (ss1\<lparr>ss_approvalRequired := True\<rparr>) actor AuditApprovalRequired
                    ''gate requires approval for this operation/risk despite policy allow''
                    (rec_id r) StateConfirm (Ret r1) s1)
               else
                 (let r1 = r\<lparr>rec_status := ST_APPROVED\<rparr> in
                  e_settle env recID r1 (ss1\<lparr>ss_approvalRequired := False\<rparr>) actor AuditAllowed
                    ''policy allowed without human approval'' (rec_id r) StateConfirm (Ret r1) s1))
          | DecisionDeny \<Rightarrow>
              (let r1 = r\<lparr>rec_status := ST_DENIED\<rparr> in
               e_settle env recID r1 (ss1\<lparr>ss_done := True\<rparr>) actor AuditDenied
                 ''policy denied'' (rec_id r) StateConfirm
                 (RetFail r1 (Sent (Response ErrPolicyDenied) '''')) s1)
          | DecisionRequireApproval \<Rightarrow>
              (let r1 = r\<lparr>rec_status := ST_PENDING_APPROVAL\<rparr> in
               e_settle env recID r1 (ss1\<lparr>ss_approvalRequired := True\<rparr>) actor AuditApprovalRequired
                 ''policy requires human approval'' (rec_id r) StateConfirm (Ret r1) s1)
          | DecisionOther _ \<Rightarrow>
              (case ValidateResponseRecommendation (e_pb env) (Some r) of
                 Some e \<Rightarrow> (Fail e, e_put recID r ss1 s1)
               | None \<Rightarrow> (Ret r, e_put recID r ss1 s1)))))))"

subsection \<open>Approve\<close>

definition e_Approve ::
  "'x env \<Rightarrow> string \<Rightarrow> string \<Rightarrow> string \<Rightarrow> duration \<Rightarrow> 'x engine \<Rightarrow> Approval outcome \<times> 'x engine" where
  "e_Approve env recID approver reason ttl s0 =
     (case e_now env s0 of
        (Inl e, s1) \<Rightarrow> (Fail e, s1)
      | (Inr now, s1) \<Rightarrow>
     (case e_live recID s1 of
        Fail e \<Rightarrow> (Fail e, s1) | RetFail _ e \<Rightarrow> (Fail e, s1) | Panicked \<Rightarrow> (Panicked, s1)
      | Ret (r, ss) \<Rightarrow>
         if rec_status r \<noteq> ST_PENDING_APPROVAL \<or> ss_safety ss \<noteq> StateConfirm
           then (Fail (Sent (Response ErrResponseState) ''approve needs a PENDING_APPROVAL recommendation''), s1)
         else
     (case Grant (e_pb env) (Some r) approver reason now ttl of
        Inl e \<Rightarrow> (Fail e, s1)
      | Inr appr \<Rightarrow>
         (let r1 = r\<lparr>rec_status := ST_APPROVED\<rparr>; ss1 = ss\<lparr>ss_approval := Some appr\<rparr>;
              s2 = e_put recID r1 ss1 s1 in
          case ValidateResponseRecommendation (e_pb env) (Some r1) of
            Some e \<Rightarrow> (Fail e, s2)
          | None \<Rightarrow>
             (case e_record env approver (rec_operation r1) (rec_risk r1) AuditApproved reason
                     (ap_id appr) (rec_id r1) StateConfirm s2 of
                (False, s3) \<Rightarrow> (Panicked, s3)
              | (True, s3) \<Rightarrow> (Ret appr, s3))))))"

subsection \<open>Execute\<close>

text \<open>
  The authorization check of \<open>Execute\<close>: the approval id to present, or the error. A request
  whose gate is automatic presents none.
\<close>

definition authorize :: "pblib \<Rightarrow> Recommendation \<Rightarrow> session \<Rightarrow> gotime \<Rightarrow> string res" where
  "authorize L r ss now =
     (if RequiredGate (rec_operation r) (rec_risk r) (ss_approvalRequired ss) = GateApproved then
        (case ss_approval ss of
           None \<Rightarrow> Inl (Sent (Response ErrApprovalRequired) ''no approval presented'')
         | Some a \<Rightarrow>
             if \<not> Covers L (Some a) (Some r) now
               then Inl (Sent (Response ErrApprovalInvalid) ''approval does not cover this request'')
             else Inr (ap_id a))
      else Inr [])"

definition exec_request :: "Recommendation \<Rightarrow> string \<Rightarrow> ExecRequest" where
  "exec_request r apprID =
     \<lparr> er_operation = rec_operation r, er_target = rec_target r, er_risk = rec_risk r,
       er_recommendation_id = rec_id r, er_approval_id = apprID \<rparr>"

text \<open>What follows the executor's answer, with the record and session already in EXECUTE.\<close>

definition e_finish ::
  "'x env \<Rightarrow> string \<Rightarrow> Recommendation \<Rightarrow> session \<Rightarrow> ExecRequest \<Rightarrow> gotime \<Rightarrow> ExecResult res
    \<Rightarrow> 'x engine \<Rightarrow> Execution outcome \<times> 'x engine" where
  "e_finish env recID r ss req now answer s3 =
     (case answer of
        Inl e \<Rightarrow>
          (case e_record env ''executor'' (rec_operation r) (rec_risk r) AuditExecutorError
                  ''executor errored without a Report'' (err_Error e) (rec_id r) StateExecute s3 of
             (False, s4) \<Rightarrow> (Panicked, s4)
           | (True, s4) \<Rightarrow> (Fail (Ctx ''executor error'' e), s4))
      | Inr res \<Rightarrow>
     (case e_now env s3 of
        (Inl e, s4) \<Rightarrow> (Fail e, s4)
      | (Inr finished, s4) \<Rightarrow>
     (case BuildExecution (e_pb env) req res now finished of
        Inl e \<Rightarrow> (Fail e, s4)
      | Inr exec \<Rightarrow>
         (let ss1 = ss\<lparr>ss_execution := Some exec, ss_executed := True\<rparr> in
          case Advance (ss_safety ss1) GateAutomatic of
            Inl e \<Rightarrow> (Fail e, e_put recID r ss1 s4)
          | Inr safety \<Rightarrow>
             (let ss2 = ss1\<lparr>ss_safety := safety\<rparr> in
              if xr_success res then
                e_settle env recID (r\<lparr>rec_status := ST_EXECUTED\<rparr>) ss2 ''executor'' AuditExecuted
                  (xr_detail res) (ex_id exec) StateVerify (Ret exec) s4
              else
                e_settle env recID (r\<lparr>rec_status := ST_EXECUTION_FAILED\<rparr>) ss2 ''executor''
                  AuditExecutionFailed (xr_detail res) (ex_id exec) StateVerify
                  (RetFail exec (Sent (Response ErrExecutionFailed) '''')) s4)))))"

definition e_Execute :: "'x env \<Rightarrow> string \<Rightarrow> 'x engine \<Rightarrow> Execution outcome \<times> 'x engine" where
  "e_Execute env recID s0 =
     (case e_now env s0 of
        (Inl e, s1) \<Rightarrow> (Fail e, s1)
      | (Inr now, s1) \<Rightarrow>
     (case e_live recID s1 of
        Fail e \<Rightarrow> (Fail e, s1) | RetFail _ e \<Rightarrow> (Fail e, s1) | Panicked \<Rightarrow> (Panicked, s1)
      | Ret (r, ss) \<Rightarrow>
         if rec_status r \<noteq> ST_APPROVED \<or> ss_safety ss \<noteq> StateConfirm
           then (Fail (Sent (Response ErrResponseState) ''execute needs an APPROVED recommendation''), s1)
         else if ss_executed ss
           then (Fail (Sent (Response ErrResponseState) ''recommendation already executed''), s1)
         else
     (case authorize (e_pb env) r ss now of
        Inl e \<Rightarrow> (Fail e, s1)
      | Inr apprID \<Rightarrow>
     (case Advance (ss_safety ss) GateApproved of
        Inl e \<Rightarrow> (Fail e, s1)
      | Inr safety \<Rightarrow>
         (let ss1 = ss\<lparr>ss_safety := safety\<rparr>; r1 = r\<lparr>rec_status := ST_EXECUTING\<rparr>;
              s2 = e_put recID r1 ss1 s1; req = exec_request r1 apprID in
          case e_executor env (en_exec s2) req of
            (x', answer) \<Rightarrow> e_finish env recID r1 ss1 req now answer (s2\<lparr>en_exec := x'\<rparr>))))))"

subsection \<open>Verify\<close>

text \<open>\<open>sess.execution.GetSuccess()\<close> on a nil execution is false.\<close>

definition verify_outcome :: "'x env \<Rightarrow> Recommendation \<Rightarrow> session \<Rightarrow> enum \<times> string" where
  "verify_outcome env r ss =
     (case ss_execution ss of
        Some x \<Rightarrow>
          if ex_success x then e_verifier env r x
          else (OUTCOME_FAILED, ''execution failed: response intent demonstrably does not hold'')
      | None \<Rightarrow> (OUTCOME_FAILED, ''execution failed: response intent demonstrably does not hold''))"

definition e_Verify :: "'x env \<Rightarrow> string \<Rightarrow> 'x engine \<Rightarrow> Verification outcome \<times> 'x engine" where
  "e_Verify env recID s0 =
     (case e_now env s0 of
        (Inl e, s1) \<Rightarrow> (Fail e, s1)
      | (Inr now, s1) \<Rightarrow>
     (case e_live recID s1 of
        Fail e \<Rightarrow> (Fail e, s1) | RetFail _ e \<Rightarrow> (Fail e, s1) | Panicked \<Rightarrow> (Panicked, s1)
      | Ret (r, ss) \<Rightarrow>
         if \<not> ss_executed ss \<or> ss_verified ss \<or> ss_safety ss \<noteq> StateVerify
           then (Fail (Sent (Response ErrResponseState) ''verify needs a finished, unverified execution''), s1)
         else
     (case verify_outcome env r ss of (outcome, detail) \<Rightarrow>
     (case BuildVerification (e_pb env) (ss_execution ss) outcome detail now of
        Inl e \<Rightarrow> (Fail e, s1)
      | Inr ver \<Rightarrow>
     (case Advance (ss_safety ss) GateAutomatic of
        Inl e \<Rightarrow> (Fail e, s1)
      | Inr safety \<Rightarrow>
         (let ss1 = ss\<lparr>ss_safety := safety, ss_verified := True, ss_done := True\<rparr> in
          if outcome = OUTCOME_VERIFIED then
            e_settle env recID (r\<lparr>rec_status := ST_VERIFIED\<rparr>) ss1 ''verifier'' AuditVerified
              detail (ver_id ver) StateAudit (Ret ver) s1
          else if outcome = OUTCOME_FAILED then
            e_settle env recID (r\<lparr>rec_status := ST_VERIFICATION_FAILED\<rparr>) ss1 ''verifier''
              AuditVerificationFailed detail (ver_id ver) StateAudit (Ret ver) s1
          else
            e_settle env recID (r\<lparr>rec_status := ST_VERIFICATION_UNKNOWN\<rparr>) ss1 ''verifier''
              AuditVerificationUnknown detail (ver_id ver) StateAudit (Ret ver) s1))))))"

subsection \<open>Get and Approval\<close>

definition e_Get :: "string \<Rightarrow> 'x engine \<Rightarrow> Recommendation option" where
  "e_Get recID s = en_recs s recID"

definition e_Approval :: "string \<Rightarrow> 'x engine \<Rightarrow> Approval option" where
  "e_Approval recID s =
     (case en_sessions s recID of None \<Rightarrow> None | Some ss \<Rightarrow> ss_approval ss)"

end
