(* ===== verification/Lifecycle.thy ===== *)
theory Lifecycle
  imports Engine
begin

text \<open>
  The contract of the response engine: an abstract lifecycle machine on one recommendation
  and its session, the lemmas that every engine method performs only its moves, and the
  reachable states of the engine with their invariants.
\<close>

subsection \<open>The abstract machine\<close>

text \<open>
  \<open>rmove\<close> is one move of a recommendation and its session. It names neither the audit
  log nor the executor; \<open>fin\<close> and \<open>verify\<close> record only what their outcome obliges.
\<close>

inductive rmove :: "pblib \<Rightarrow> Recommendation \<Rightarrow> session \<Rightarrow> Recommendation \<Rightarrow> session \<Rightarrow> bool" for L where
  allow: "rec_status r = ST_PROPOSED \<Longrightarrow> ss_safety ss = StateRecommend \<Longrightarrow>
    RequiredGate (rec_operation r) (rec_risk r) False = GateAutomatic \<Longrightarrow>
    rmove L r ss (r\<lparr>rec_status := ST_APPROVED\<rparr>)
      (ss\<lparr>ss_safety := StateConfirm, ss_approvalRequired := False\<rparr>)"
| park: "rec_status r = ST_PROPOSED \<Longrightarrow> ss_safety ss = StateRecommend \<Longrightarrow>
    rmove L r ss (r\<lparr>rec_status := ST_PENDING_APPROVAL\<rparr>)
      (ss\<lparr>ss_safety := StateConfirm, ss_approvalRequired := True\<rparr>)"
| deny: "rec_status r = ST_PROPOSED \<Longrightarrow> ss_safety ss = StateRecommend \<Longrightarrow>
    rmove L r ss (r\<lparr>rec_status := ST_DENIED\<rparr>) (ss\<lparr>ss_safety := StateConfirm, ss_done := True\<rparr>)"
| stall: "rec_status r = ST_PROPOSED \<Longrightarrow> ss_safety ss = StateRecommend \<Longrightarrow>
    rmove L r ss r (ss\<lparr>ss_safety := StateConfirm\<rparr>)"
| approve: "rec_status r = ST_PENDING_APPROVAL \<Longrightarrow> ss_safety ss = StateConfirm \<Longrightarrow>
    Grant L (Some r) approver reason now ttl = Inr a \<Longrightarrow>
    rmove L r ss (r\<lparr>rec_status := ST_APPROVED\<rparr>) (ss\<lparr>ss_approval := Some a\<rparr>)"
| start: "rec_status r = ST_APPROVED \<Longrightarrow> ss_safety ss = StateConfirm \<Longrightarrow> \<not> ss_executed ss \<Longrightarrow>
    authorize L r ss now = Inr aid \<Longrightarrow>
    rmove L r ss (r\<lparr>rec_status := ST_EXECUTING\<rparr>) (ss\<lparr>ss_safety := StateExecute\<rparr>)"
| fin: "rec_status r = ST_EXECUTING \<Longrightarrow> ss_safety ss = StateExecute \<Longrightarrow>
    st = (if ex_success x then ST_EXECUTED else ST_EXECUTION_FAILED) \<Longrightarrow>
    rmove L r ss (r\<lparr>rec_status := st\<rparr>)
      (ss\<lparr>ss_execution := Some x, ss_executed := True, ss_safety := StateVerify\<rparr>)"
| verify: "ss_executed ss \<Longrightarrow> \<not> ss_verified ss \<Longrightarrow> ss_safety ss = StateVerify \<Longrightarrow>
    st \<in> {ST_VERIFIED, ST_VERIFICATION_FAILED, ST_VERIFICATION_UNKNOWN} \<Longrightarrow>
    (st = ST_VERIFIED \<longrightarrow> (\<exists>x. ss_execution ss = Some x \<and> ex_success x)) \<Longrightarrow>
    rmove L r ss (r\<lparr>rec_status := st\<rparr>)
      (ss\<lparr>ss_safety := StateAudit, ss_verified := True, ss_done := True\<rparr>)"

inductive_cases rmoveE: "rmove L r ss r' ss'"

subsection \<open>Frames of the helpers\<close>

definition audit_step :: "AuditEntry list \<Rightarrow> AuditEntry list \<Rightarrow> bool" where
  "audit_step l l' \<longleftrightarrow> l' = l \<or> (\<exists>e. l' = AuditLog_Append l e)"

lemma audit_step_refl [simp, intro]: "audit_step l l"
  by (simp add: audit_step_def)

text \<open>Nothing but the clock counter and the audit log changes.\<close>

definition quiet :: "'x engine \<Rightarrow> 'x engine \<Rightarrow> bool" where
  "quiet s s' \<longleftrightarrow> en_recs s' = en_recs s \<and> en_sessions s' = en_sessions s \<and>
     en_exec s' = en_exec s \<and> audit_step (en_audit s) (en_audit s')"

lemma quiet_ticks [simp]: "quiet s (s\<lparr>en_ticks := n\<rparr>)"
  by (simp add: quiet_def)

lemma e_now_cases:
  assumes "e_now env s = (v, s')"
  shows "s' = s\<lparr>en_ticks := Suc (en_ticks s)\<rparr> \<and>
    (v = (if IsZero (e_clock env (en_ticks s)) then Inl (Plain ''clock returned zero time'')
          else Inr (e_clock env (en_ticks s))))"
  using assms by (auto simp: e_now_def Let_def split: if_splits)

lemma e_record_quiet:
  assumes "e_record env actor op risk dec reason result recID phase s = (b, s')"
  shows "quiet s s'"
  using assms
  by (auto simp: e_record_def quiet_def audit_step_def split: prod.splits sum.splits
      dest!: e_now_cases)

lemma e_settle_effect:
  assumes "e_settle env recID r ss actor dec reason result phase out s = (o', s')"
  shows "quiet (e_put recID r ss s) s' \<and> (o' = out \<or> o' = Panicked \<or> (\<exists>e. o' = Fail e))"
  using assms
  by (auto simp: e_settle_def split: prod.splits bool.splits option.splits dest: e_record_quiet)

lemma e_put_simps [simp]:
  "en_recs (e_put i r ss s) = (en_recs s)(i \<mapsto> r)"
  "en_sessions (e_put i r ss s) = (en_sessions s)(i \<mapsto> ss)"
  "en_exec (e_put i r ss s) = en_exec s"
  "en_audit (e_put i r ss s) = en_audit s"
  "en_ticks (e_put i r ss s) = en_ticks s"
  by (simp_all add: e_put_def)

lemma e_live_Ret:
  "e_live i s = Ret (r, ss) \<longleftrightarrow> en_recs s i = Some r \<and> en_sessions s i = Some ss \<and> \<not> ss_done ss"
  by (auto simp: e_live_def split: option.splits)

lemma e_live_ticks [simp]: "e_live i (s\<lparr>en_ticks := n\<rparr>) = e_live i s"
  by (simp add: e_live_def split: option.split)

lemma not_RetFail_live [simp]: "e_live i s \<noteq> RetFail x e"
  by (auto simp: e_live_def split: option.splits)

subsection \<open>What each method does\<close>

text \<open>
  \<open>moved\<close>: the method performed an abstract move of the live recommendation \<open>i\<close> from a
  phase other than EXECUTE, and nothing else but clock reads and at most one audit entry.
\<close>

definition moved :: "pblib \<Rightarrow> string \<Rightarrow> 'x engine \<Rightarrow> 'x engine \<Rightarrow> bool" where
  "moved L i s s' \<longleftrightarrow> (\<exists>r ss r' ss'. en_recs s i = Some r \<and> en_sessions s i = Some ss \<and> \<not> ss_done ss \<and>
     ss_safety ss \<noteq> StateExecute \<and> rmove L r ss r' ss' \<and> quiet (e_put i r' ss' s) s')"

lemma movedI:
  "en_recs s i = Some r \<Longrightarrow> en_sessions s i = Some ss \<Longrightarrow> \<not> ss_done ss \<Longrightarrow>
    ss_safety ss \<noteq> StateExecute \<Longrightarrow> rmove L r ss r' ss' \<Longrightarrow> quiet (e_put i r' ss' s) s' \<Longrightarrow> moved L i s s'"
  unfolding moved_def by blast

lemma quiet_put_ticks: "quiet (e_put i r ss (s\<lparr>en_ticks := n\<rparr>)) s' \<Longrightarrow> quiet (e_put i r ss s) s'"
  by (simp add: quiet_def)

lemma Decide_effect:
  assumes "e_Decide env i actor s = (out, s')"
  shows "quiet s s' \<or> moved (e_pb env) i s s'"
proof -
  let ?s1 = "s\<lparr>en_ticks := Suc (en_ticks s)\<rparr>"
  show ?thesis
  proof (cases "\<exists>r ss d. \<not> IsZero (e_clock env (en_ticks s)) \<and> e_live i s = Ret (r, ss) \<and>
      rec_status r = ST_PROPOSED \<and> ss_safety ss = StateRecommend \<and>
      e_policy env \<lparr>ar_actor = actor, ar_operation = rec_operation r, ar_target = rec_target r,
        ar_risk = rec_risk r\<rparr> = (d, None)")
    case False
    then have "quiet s s'"
      using assms
      by (auto simp: e_Decide_def e_now_def Let_def split: if_splits outcome.splits prod.splits option.splits)
    then show ?thesis ..
  next
    case True
    then obtain r ss d where h: "\<not> IsZero (e_clock env (en_ticks s))" "e_live i s = Ret (r, ss)"
      "rec_status r = ST_PROPOSED" "ss_safety ss = StateRecommend"
      "e_policy env \<lparr>ar_actor = actor, ar_operation = rec_operation r, ar_target = rec_target r,
        ar_risk = rec_risk r\<rparr> = (d, None)" by blast
    have adv: "Advance StateRecommend GateAutomatic = Inr StateConfirm" by (simp add: Advance_def)
    have live: "en_recs s i = Some r" "en_sessions s i = Some ss" "\<not> ss_done ss"
      using h(2) by (simp_all add: e_live_Ret)
    have "\<exists>r' ss'. rmove (e_pb env) r ss r' ss' \<and> quiet (e_put i r' ss' ?s1) s'"
    proof (cases d)
      case DecisionAllow
      show ?thesis
      proof (cases "RequiredGate (rec_operation r) (rec_risk r) False")
        case GateAutomatic
        then show ?thesis using assms h adv DecisionAllow
          by (auto simp: e_Decide_def e_now_def Let_def dest!: e_settle_effect intro!: exI rmove.allow)
      next
        case GateApproved
        then show ?thesis using assms h adv DecisionAllow
          by (auto simp: e_Decide_def e_now_def Let_def dest!: e_settle_effect intro!: exI rmove.park)
      qed
    next
      case DecisionDeny
      then show ?thesis using assms h adv
        by (auto simp: e_Decide_def e_now_def Let_def dest!: e_settle_effect intro!: exI rmove.deny)
    next
      case DecisionRequireApproval
      then show ?thesis using assms h adv
        by (auto simp: e_Decide_def e_now_def Let_def dest!: e_settle_effect intro!: exI rmove.park)
    next
      case (DecisionOther n)
      then have "s' = e_put i r (ss\<lparr>ss_safety := StateConfirm\<rparr>) ?s1" using assms h adv
        by (auto simp: e_Decide_def e_now_def Let_def split: option.splits)
      then have "quiet (e_put i r (ss\<lparr>ss_safety := StateConfirm\<rparr>) ?s1) s'" by (simp add: quiet_def)
      then show ?thesis using h by (blast intro: rmove.stall)
    qed
    moreover have "ss_safety ss \<noteq> StateExecute" using h(4) by simp
    ultimately show ?thesis using live by (blast intro: movedI quiet_put_ticks)
  qed
qed


lemma Approve_effect:
  assumes "e_Approve env i approver reason ttl s = (out, s')"
  shows "quiet s s' \<or> moved (e_pb env) i s s'"
proof -
  let ?s1 = "s\<lparr>en_ticks := Suc (en_ticks s)\<rparr>" and ?now = "e_clock env (en_ticks s)"
  show ?thesis
  proof (cases "\<exists>r ss a. \<not> IsZero ?now \<and> e_live i s = Ret (r, ss) \<and>
      rec_status r = ST_PENDING_APPROVAL \<and> ss_safety ss = StateConfirm \<and>
      Grant (e_pb env) (Some r) approver reason ?now ttl = Inr a")
    case False
    then have "quiet s s'"
      using assms
      by (auto simp: e_Approve_def e_now_def Let_def split: if_splits outcome.splits prod.splits sum.splits)
    then show ?thesis ..
  next
    case True
    then obtain r ss a where h: "\<not> IsZero ?now" "e_live i s = Ret (r, ss)"
      "rec_status r = ST_PENDING_APPROVAL" "ss_safety ss = StateConfirm"
      "Grant (e_pb env) (Some r) approver reason ?now ttl = Inr a" by blast
    have "quiet (e_put i (r\<lparr>rec_status := ST_APPROVED\<rparr>) (ss\<lparr>ss_approval := Some a\<rparr>) ?s1) s'"
      using assms h
      by (auto simp: e_Approve_def e_now_def Let_def quiet_def
          split: option.splits prod.splits bool.splits dest!: e_record_quiet)
    then have q: "quiet (e_put i (r\<lparr>rec_status := ST_APPROVED\<rparr>) (ss\<lparr>ss_approval := Some a\<rparr>) s) s'"
      by (rule quiet_put_ticks)
    have "rmove (e_pb env) r ss (r\<lparr>rec_status := ST_APPROVED\<rparr>) (ss\<lparr>ss_approval := Some a\<rparr>)"
      using h(3,4,5) by (rule rmove.approve)
    then show ?thesis using h(2,4) q by (auto simp: e_live_Ret intro: movedI)
  qed
qed

lemma Verify_effect:
  assumes "e_Verify env i s = (out, s')"
  shows "quiet s s' \<or> moved (e_pb env) i s s'"
proof -
  let ?s1 = "s\<lparr>en_ticks := Suc (en_ticks s)\<rparr>" and ?now = "e_clock env (en_ticks s)"
  show ?thesis
  proof (cases "\<exists>r ss v. \<not> IsZero ?now \<and> e_live i s = Ret (r, ss) \<and> ss_executed ss \<and>
      \<not> ss_verified ss \<and> ss_safety ss = StateVerify \<and>
      BuildVerification (e_pb env) (ss_execution ss) (fst (verify_outcome env r ss))
        (snd (verify_outcome env r ss)) ?now = Inr v")
    case False
    then have "quiet s s'"
      using assms
      by (auto simp: e_Verify_def e_now_def Let_def split: if_splits outcome.splits prod.splits sum.splits)
    then show ?thesis ..
  next
    case True
    then obtain r ss v where h: "\<not> IsZero ?now" "e_live i s = Ret (r, ss)" "ss_executed ss"
      "\<not> ss_verified ss" "ss_safety ss = StateVerify"
      "BuildVerification (e_pb env) (ss_execution ss) (fst (verify_outcome env r ss))
        (snd (verify_outcome env r ss)) ?now = Inr v" by blast
    let ?out = "fst (verify_outcome env r ss)"
    define st :: enum where "st = (if ?out = OUTCOME_VERIFIED then ST_VERIFIED
      else if ?out = OUTCOME_FAILED then ST_VERIFICATION_FAILED else ST_VERIFICATION_UNKNOWN)"
    let ?ss1 = "ss\<lparr>ss_safety := StateAudit, ss_verified := True, ss_done := True\<rparr>"
    have adv: "Advance StateVerify GateAutomatic = Inr StateAudit" by (simp add: Advance_def)
    have q: "quiet (e_put i (r\<lparr>rec_status := st\<rparr>) ?ss1 ?s1) s'"
      using assms h adv
      by (auto simp: e_Verify_def e_now_def Let_def st_def split: prod.splits if_splits
          dest!: e_settle_effect)
    have "?out = OUTCOME_VERIFIED \<Longrightarrow> \<exists>x. ss_execution ss = Some x \<and> ex_success x"
      by (auto simp: verify_outcome_def split: option.splits if_splits)
    then have "rmove (e_pb env) r ss (r\<lparr>rec_status := st\<rparr>) ?ss1"
      using h by (intro rmove.verify) (auto simp: st_def)
    then show ?thesis using h(2,5) quiet_put_ticks [OF q] by (auto simp: e_live_Ret intro: movedI)
  qed
qed

text \<open>
  \<open>Execute\<close> is the only method that calls the executor, once, with the request built from
  the authorized recommendation; the call and what follows it are a \<open>start\<close> move and at
  most one \<open>fin\<close> move.
\<close>

definition called :: "'x env \<Rightarrow> string \<Rightarrow> 'x engine \<Rightarrow> 'x engine \<Rightarrow> bool" where
  "called env i s s' \<longleftrightarrow> (\<exists>r ss aid r2 ss2.
     en_recs s i = Some r \<and> en_sessions s i = Some ss \<and> \<not> ss_done ss \<and>
     rec_status r = ST_APPROVED \<and> ss_safety ss = StateConfirm \<and> \<not> ss_executed ss \<and>
     \<not> IsZero (e_clock env (en_ticks s)) \<and>
     authorize (e_pb env) r ss (e_clock env (en_ticks s)) = Inr aid \<and>
     (let r1 = r\<lparr>rec_status := ST_EXECUTING\<rparr>; ss1 = ss\<lparr>ss_safety := StateExecute\<rparr> in
      (r2 = r1 \<and> ss2 = ss1 \<or> rmove (e_pb env) r1 ss1 r2 ss2) \<and>
      quiet (e_put i r2 ss2 (s\<lparr>en_exec := fst (e_executor env (en_exec s) (exec_request r1 aid))\<rparr>)) s'))"

lemma e_finish_effect:
  assumes "e_finish env i r ss req now answer s3 = (out, s')"
    and "en_recs s3 i = Some r" and "en_sessions s3 i = Some ss"
    and "rec_status r = ST_EXECUTING" and "ss_safety ss = StateExecute"
  shows "\<exists>r2 ss2. (r2 = r \<and> ss2 = ss \<or> rmove (e_pb env) r ss r2 ss2) \<and> quiet (e_put i r2 ss2 s3) s'"
proof -
  have same: "quiet s3 t \<Longrightarrow> quiet (e_put i r ss s3) t" for t
    using assms(2,3) by (auto simp: quiet_def)
  have adv: "Advance StateExecute GateAutomatic = Inr StateVerify" by (simp add: Advance_def)
  let ?now2 = "e_clock env (en_ticks s3)"
  show ?thesis
  proof (cases "\<exists>res x. answer = Inr res \<and> \<not> IsZero ?now2 \<and>
      BuildExecution (e_pb env) req res now ?now2 = Inr x")
    case False
    then have "quiet s3 s'" using assms(1)
      by (auto simp: e_finish_def e_now_def Let_def dest!: e_record_quiet
          split: sum.splits prod.splits bool.splits if_splits)
    then show ?thesis using same by blast
  next
    case True
    then obtain res x where h: "answer = Inr res" "\<not> IsZero ?now2"
      "BuildExecution (e_pb env) req res now ?now2 = Inr x" by blast
    then have succ: "ex_success x = xr_success res" by (auto dest: BuildExecution_Inr)
    let ?st = "if ex_success x then ST_EXECUTED else ST_EXECUTION_FAILED :: enum"
    let ?ss2 = "ss\<lparr>ss_execution := Some x, ss_executed := True, ss_safety := StateVerify\<rparr>"
    have "quiet (e_put i (r\<lparr>rec_status := ?st\<rparr>) ?ss2 (s3\<lparr>en_ticks := Suc (en_ticks s3)\<rparr>)) s'"
      using assms(1,5) h adv succ
      by (auto simp: e_finish_def e_now_def Let_def split: if_splits dest!: e_settle_effect)
    then have "quiet (e_put i (r\<lparr>rec_status := ?st\<rparr>) ?ss2 s3) s'" by (rule quiet_put_ticks)
    moreover have "rmove (e_pb env) r ss (r\<lparr>rec_status := ?st\<rparr>) ?ss2"
      using assms(4,5) by (rule rmove.fin) simp
    ultimately show ?thesis by blast
  qed
qed

lemma Execute_effect:
  assumes "e_Execute env i s = (out, s')"
  shows "quiet s s' \<or> called env i s s'"
proof -
  let ?s1 = "s\<lparr>en_ticks := Suc (en_ticks s)\<rparr>" and ?now = "e_clock env (en_ticks s)"
  show ?thesis
  proof (cases "\<exists>r ss aid. \<not> IsZero ?now \<and> e_live i s = Ret (r, ss) \<and>
      rec_status r = ST_APPROVED \<and> ss_safety ss = StateConfirm \<and> \<not> ss_executed ss \<and>
      authorize (e_pb env) r ss ?now = Inr aid")
    case False
    then have "quiet s s'"
      using assms
      by (auto simp: e_Execute_def e_now_def Let_def split: if_splits outcome.splits prod.splits sum.splits)
    then show ?thesis ..
  next
    case True
    then obtain r ss aid where h: "\<not> IsZero ?now" "e_live i s = Ret (r, ss)"
      "rec_status r = ST_APPROVED" "ss_safety ss = StateConfirm" "\<not> ss_executed ss"
      "authorize (e_pb env) r ss ?now = Inr aid" by blast
    have adv: "Advance StateConfirm GateApproved = Inr StateExecute" by (simp add: Advance_def)
    let ?r1 = "r\<lparr>rec_status := ST_EXECUTING\<rparr>" and ?ss1 = "ss\<lparr>ss_safety := StateExecute\<rparr>"
    let ?req = "exec_request ?r1 aid"
    obtain x' answer where ans: "e_executor env (en_exec s) ?req = (x', answer)" by force
    let ?s3 = "(e_put i ?r1 ?ss1 ?s1)\<lparr>en_exec := x'\<rparr>"
    have "e_finish env i ?r1 ?ss1 ?req ?now answer ?s3 = (out, s')"
      using assms h adv ans by (simp add: e_Execute_def e_now_def Let_def)
    then obtain r2 ss2 where m: "r2 = ?r1 \<and> ss2 = ?ss1 \<or> rmove (e_pb env) ?r1 ?ss1 r2 ss2"
      and q: "quiet (e_put i r2 ss2 ?s3) s'"
      using e_finish_effect [of env i ?r1 ?ss1 ?req ?now answer ?s3 out s'] by auto
    from q have "quiet (e_put i r2 ss2 (s\<lparr>en_exec := x'\<rparr>)) s'" by (simp add: quiet_def)
    then have "called env i s s'"
      unfolding called_def Let_def using h m ans by (auto simp: e_live_Ret intro!: exI)
    then show ?thesis ..
  qed
qed

text \<open>\<open>Recommend\<close> adds a fresh proposed recommendation, or changes nothing.\<close>

definition proposed :: "pblib \<Rightarrow> 'x engine \<Rightarrow> 'x engine \<Rightarrow> bool" where
  "proposed L s s' \<longleftrightarrow> (\<exists>r. en_recs s (rec_id r) = None \<and> rec_status r = ST_PROPOSED \<and>
     ValidateResponseRecommendation L (Some r) = None \<and> \<not> isDestructive (rec_operation r) \<and>
     quiet (e_put (rec_id r) r (new_session StateRecommend) s) s')"

lemma Recommend_effect:
  assumes "e_Recommend env incident alert det events s = (out, s')"
  shows "quiet s s' \<or> proposed (e_pb env) s s'"
proof -
  have walk: "advance_walk StateObserve [GateAutomatic, GateAutomatic] = Inr StateRecommend"
    by (simp add: Advance_def)
  let ?now = "e_clock env (Suc (en_ticks s))"
  let ?s2 = "s\<lparr>en_ticks := Suc (Suc (en_ticks s))\<rparr>"
  show ?thesis
  proof (cases "\<exists>i a d names r. \<not> IsZero (e_clock env (en_ticks s)) \<and>
      recommend_check (e_pb env) incident alert det events = Inr (i, a, d, names) \<and>
      recommend_build (e_pb env) i a d names ?now = Inr r \<and> en_recs s (rec_id r) = None")
    case False
    then have "quiet s s'"
      using assms
      by (auto simp: e_Recommend_def e_now_def Let_def split: if_splits prod.splits sum.splits option.splits)
    then show ?thesis ..
  next
    case True
    then obtain i a d names r where h: "\<not> IsZero (e_clock env (en_ticks s))"
      "recommend_check (e_pb env) incident alert det events = Inr (i, a, d, names)"
      "recommend_build (e_pb env) i a d names ?now = Inr r" "en_recs s (rec_id r) = None" by blast
    then have "quiet (e_put (rec_id r) r (new_session StateRecommend) ?s2) s'"
      using assms walk
      by (auto simp: e_Recommend_def e_now_def Let_def split: prod.splits bool.splits
          dest!: e_record_quiet)
    then have "quiet (e_put (rec_id r) r (new_session StateRecommend) s) s'" by (rule quiet_put_ticks)
    then have "proposed (e_pb env) s s'"
      unfolding proposed_def using h(4) recommend_build_Inr [OF h(3)] by blast
    then show ?thesis ..
  qed
qed

subsection \<open>Steps and reachable states\<close>

datatype eop =
    ORecommend "Incident option" "Alert option" "Detection option" "TelemetryEvent option list"
  | ODecide string string
  | OApprove string string string duration
  | OExecute string
  | OVerify string

fun e_step :: "'x env \<Rightarrow> eop \<Rightarrow> 'x engine \<Rightarrow> 'x engine" where
  "e_step env (ORecommend i a d es) s = snd (e_Recommend env i a d es s)"
| "e_step env (ODecide i actor) s = snd (e_Decide env i actor s)"
| "e_step env (OApprove i approver reason ttl) s = snd (e_Approve env i approver reason ttl s)"
| "e_step env (OExecute i) s = snd (e_Execute env i s)"
| "e_step env (OVerify i) s = snd (e_Verify env i s)"

inductive e_reach :: "'x env \<Rightarrow> 'x engine \<Rightarrow> 'x engine \<Rightarrow> bool" for env s0 where
  start: "e_reach env s0 s0"
| step: "e_reach env s0 s \<Longrightarrow> e_reach env s0 (e_step env op s)"

definition fresh_engine :: "'x engine \<Rightarrow> bool" where
  "fresh_engine s \<longleftrightarrow> en_recs s = Map.empty \<and> en_sessions s = Map.empty \<and> en_audit s = []"

lemma NewEngine_fresh:
  "NewEngine L p x v (Some []) c x0 = Inr (env, s) \<Longrightarrow> fresh_engine s"
  by (auto simp: NewEngine_def fresh_engine_def split: option.splits)

lemma e_step_effect:
  "quiet s (e_step env op s) \<or> proposed (e_pb env) s (e_step env op s) \<or>
   (\<exists>i. moved (e_pb env) i s (e_step env op s)) \<or> (\<exists>i. called env i s (e_step env op s))"
proof (cases op)
  case (ORecommend i a d es)
  show ?thesis using Recommend_effect [of env i a d es s] ORecommend
    by (metis e_step.simps(1) prod.collapse)
next
  case (ODecide i actor)
  show ?thesis using Decide_effect [of env i actor s] ODecide
    by (metis e_step.simps(2) prod.collapse)
next
  case (OApprove i approver reason ttl)
  show ?thesis using Approve_effect [of env i approver reason ttl s] OApprove
    by (metis e_step.simps(3) prod.collapse)
next
  case (OExecute i)
  show ?thesis using Execute_effect [of env i s] OExecute
    by (metis e_step.simps(4) prod.collapse)
next
  case (OVerify i)
  show ?thesis using Verify_effect [of env i s] OVerify
    by (metis e_step.simps(5) prod.collapse)
qed

text \<open>The four shapes of a step, as an elimination rule for invariant proofs.\<close>

lemma e_step_cases [consumes 0, case_names quiet proposed moved called]:
  assumes "quiet s (e_step env op s) \<Longrightarrow> P"
    and "proposed (e_pb env) s (e_step env op s) \<Longrightarrow> P"
    and "\<And>i. moved (e_pb env) i s (e_step env op s) \<Longrightarrow> P"
    and "\<And>i. called env i s (e_step env op s) \<Longrightarrow> P"
  shows P
  using e_step_effect [of s env op] assms by blast

subsection \<open>The per-recommendation invariant\<close>

text \<open>An approval bound to a recommendation.\<close>

definition bound_to :: "Approval \<Rightarrow> Recommendation \<Rightarrow> bool" where
  "bound_to a r \<longleftrightarrow> ap_recommendation_id a = rec_id r \<and> ap_operation a = rec_operation r \<and>
     ap_target a = rec_target r \<and> ap_risk a = rec_risk r"

definition authorized :: "Recommendation \<Rightarrow> session \<Rightarrow> bool" where
  "authorized r ss \<longleftrightarrow>
     (RequiredGate (rec_operation r) (rec_risk r) (ss_approvalRequired ss) = GateApproved \<longrightarrow>
        (\<exists>a. ss_approval ss = Some a \<and> bound_to a r))"

fun phase_ok :: "SafetyState \<Rightarrow> Recommendation \<Rightarrow> session \<Rightarrow> bool" where
  "phase_ok StateRecommend r ss =
     (rec_status r = ST_PROPOSED \<and> \<not> ss_done ss \<and> \<not> ss_executed ss \<and> \<not> ss_verified ss \<and>
      ss_approval ss = None)"
| "phase_ok StateConfirm r ss =
     (\<not> ss_executed ss \<and> \<not> ss_verified ss \<and>
      (rec_status r \<in> {ST_PROPOSED, ST_PENDING_APPROVAL} \<and> \<not> ss_done ss \<and> ss_approval ss = None \<or>
       rec_status r = ST_APPROVED \<and> \<not> ss_done ss \<and> authorized r ss \<or>
       rec_status r = ST_DENIED \<and> ss_done ss \<and> ss_approval ss = None))"
| "phase_ok StateExecute r ss =
     (rec_status r = ST_EXECUTING \<and> \<not> ss_done ss \<and> \<not> ss_executed ss \<and> \<not> ss_verified ss \<and>
      authorized r ss)"
| "phase_ok StateVerify r ss =
     (ss_executed ss \<and> \<not> ss_verified ss \<and> \<not> ss_done ss \<and> authorized r ss \<and>
      (\<exists>x. ss_execution ss = Some x \<and>
         rec_status r = (if ex_success x then ST_EXECUTED else ST_EXECUTION_FAILED)))"
| "phase_ok StateAudit r ss =
     (ss_executed ss \<and> ss_verified ss \<and> ss_done ss \<and> authorized r ss \<and>
      rec_status r \<in> {ST_VERIFIED, ST_VERIFICATION_FAILED, ST_VERIFICATION_UNKNOWN} \<and>
      (\<exists>x. ss_execution ss = Some x \<and> (rec_status r = ST_VERIFIED \<longrightarrow> ex_success x)))"
| "phase_ok _ r ss = False"

definition entry_ok :: "pblib \<Rightarrow> string \<Rightarrow> Recommendation \<Rightarrow> session \<Rightarrow> bool" where
  "entry_ok L i r ss \<longleftrightarrow> rec_id r = i \<and> ValidateResponseRecommendation L (Some r) = None \<and>
     phase_ok (ss_safety ss) r ss"

definition engine_inv :: "pblib \<Rightarrow> 'x engine \<Rightarrow> bool" where
  "engine_inv L s \<longleftrightarrow> dom (en_recs s) = dom (en_sessions s) \<and>
     (\<forall>i r ss. en_recs s i = Some r \<longrightarrow> en_sessions s i = Some ss \<longrightarrow> entry_ok L i r ss)"

lemma bound_to_status [simp]: "bound_to a (r\<lparr>rec_status := st\<rparr>) = bound_to a r"
  by (simp add: bound_to_def)

lemma authorized_status [simp]: "authorized (r\<lparr>rec_status := st\<rparr>) ss = authorized r ss"
  by (simp add: authorized_def)

lemma authorized_session [simp]:
  "authorized r (ss\<lparr>ss_safety := p\<rparr>) = authorized r ss"
  "authorized r (ss\<lparr>ss_executed := b\<rparr>) = authorized r ss"
  "authorized r (ss\<lparr>ss_verified := b\<rparr>) = authorized r ss"
  "authorized r (ss\<lparr>ss_done := b\<rparr>) = authorized r ss"
  "authorized r (ss\<lparr>ss_execution := x\<rparr>) = authorized r ss"
  by (simp_all add: authorized_def)

lemma phase_ok_rmove:
  assumes "rmove L r ss r' ss'" and "phase_ok (ss_safety ss) r ss"
  shows "phase_ok (ss_safety ss') r' ss'"
  using assms
proof (cases rule: rmove.cases)
  case (approve approver reason now ttl a)
  then show ?thesis using assms(2)
    by (auto dest!: Grant_Inr simp: authorized_def bound_to_def)
qed (auto simp: authorized_def)

lemma rmove_frame:
  assumes "rmove L r ss r' ss'"
  shows "rec_id r' = rec_id r \<and> rec_operation r' = rec_operation r \<and> rec_target r' = rec_target r \<and>
    rec_risk r' = rec_risk r \<and> phase_rank (ss_safety ss) \<le> phase_rank (ss_safety ss')"
  using assms by (cases rule: rmove.cases) auto

lemma rmove_valid:
  assumes "rmove L r ss r' ss'" and "ValidateResponseRecommendation L (Some r) = None"
  shows "ValidateResponseRecommendation L (Some r') = None"
  using assms by (cases rule: rmove.cases) (auto intro!: status_only_validity)

lemma entry_ok_rmove: "rmove L r ss r' ss' \<Longrightarrow> entry_ok L i r ss \<Longrightarrow> entry_ok L i r' ss'"
  unfolding entry_ok_def using phase_ok_rmove rmove_frame rmove_valid by metis

lemma entry_ok_start:
  assumes "entry_ok L i r ss" and "rec_status r = ST_APPROVED" and "ss_safety ss = StateConfirm"
    and "\<not> ss_executed ss" and "authorize L r ss now = Inr aid"
  shows "entry_ok L i (r\<lparr>rec_status := ST_EXECUTING\<rparr>) (ss\<lparr>ss_safety := StateExecute\<rparr>)"
  using assms(1) by (rule entry_ok_rmove [rotated]) (rule rmove.start [OF assms(2-5)])

lemma engine_inv_put:
  assumes "engine_inv L s" and "entry_ok L i r ss" and "quiet (e_put i r ss s) s'"
  shows "engine_inv L s'"
  using assms by (auto simp: engine_inv_def quiet_def)

lemma engine_inv_step:
  assumes inv: "engine_inv (e_pb env) s"
  shows "engine_inv (e_pb env) (e_step env op s)"
proof (cases rule: e_step_cases [of s env op])
  case quiet
  then show ?thesis using inv by (simp add: engine_inv_def quiet_def)
next
  case proposed
  then obtain r where h: "rec_status r = ST_PROPOSED" "ValidateResponseRecommendation (e_pb env) (Some r) = None"
    and q: "quiet (e_put (rec_id r) r (new_session StateRecommend) s) (e_step env op s)"
    unfolding proposed_def by blast
  have "entry_ok (e_pb env) (rec_id r) r (new_session StateRecommend)"
    using h by (simp add: entry_ok_def new_session_def)
  then show ?thesis using inv q by (blast intro: engine_inv_put)
next
  case (moved i)
  then obtain r ss r' ss' where "en_recs s i = Some r" "en_sessions s i = Some ss"
    and m: "rmove (e_pb env) r ss r' ss'" and q: "quiet (e_put i r' ss' s) (e_step env op s)"
    unfolding moved_def by blast
  then have "entry_ok (e_pb env) i r ss" using inv by (simp add: engine_inv_def)
  with m have "entry_ok (e_pb env) i r' ss'" by (rule entry_ok_rmove)
  then show ?thesis using inv q by (blast intro: engine_inv_put)
next
  case (called i)
  then obtain r ss aid r2 ss2 x' where h:
    "en_recs s i = Some r" "en_sessions s i = Some ss" "rec_status r = ST_APPROVED"
    "ss_safety ss = StateConfirm" "\<not> ss_executed ss"
    "authorize (e_pb env) r ss (e_clock env (en_ticks s)) = Inr aid"
    "r2 = r\<lparr>rec_status := ST_EXECUTING\<rparr> \<and> ss2 = ss\<lparr>ss_safety := StateExecute\<rparr> \<or>
     rmove (e_pb env) (r\<lparr>rec_status := ST_EXECUTING\<rparr>) (ss\<lparr>ss_safety := StateExecute\<rparr>) r2 ss2"
    "quiet (e_put i r2 ss2 (s\<lparr>en_exec := x'\<rparr>)) (e_step env op s)"
    unfolding called_def Let_def by blast
  from inv h(1,2) have "entry_ok (e_pb env) i r ss" by (simp add: engine_inv_def)
  then have "entry_ok (e_pb env) i (r\<lparr>rec_status := ST_EXECUTING\<rparr>) (ss\<lparr>ss_safety := StateExecute\<rparr>)"
    using h(3-6) by (rule entry_ok_start)
  then have "entry_ok (e_pb env) i r2 ss2" using h(7) entry_ok_rmove by blast
  moreover have "engine_inv (e_pb env) (s\<lparr>en_exec := x'\<rparr>)" using inv by (simp add: engine_inv_def)
  ultimately show ?thesis using h(8) engine_inv_put by blast
qed

lemma fresh_engine_inv: "fresh_engine s \<Longrightarrow> engine_inv L s"
  by (simp add: fresh_engine_def engine_inv_def)

lemma reach_engine_inv:
  "e_reach env s0 s \<Longrightarrow> fresh_engine s0 \<Longrightarrow> engine_inv (e_pb env) s"
  by (induction rule: e_reach.induct) (auto intro: fresh_engine_inv engine_inv_step)

end
