(* ===== verification/Executor_Log.thy ===== *)
theory Executor_Log
  imports Lifecycle
begin

text \<open>
  An executor that also lists the requests it was given, and what every engine method does to
  that list and to the audit log: each call is bound to the record and approval it was made for,
  and the log only grows, under sequential ids.
\<close>

subsection \<open>Observing the executor\<close>

text \<open>
  \<open>logged\<close> wraps an arbitrary executor so that its state also lists the requests it was
  given; it answers what the wrapped executor answers.
\<close>

definition logged :: "'x executor \<Rightarrow> ('x \<times> ExecRequest list) executor" where
  "logged X st req = (case X (fst st) req of (x', ans) \<Rightarrow> ((x', snd st @ [req]), ans))"

definition with_log :: "'x env \<Rightarrow> ('x \<times> ExecRequest list) env" where
  "with_log env = \<lparr>e_pb = e_pb env, e_policy = e_policy env, e_executor = logged (e_executor env),
     e_verifier = e_verifier env, e_clock = e_clock env\<rparr>"

definition calls :: "('x \<times> ExecRequest list) engine \<Rightarrow> ExecRequest list" where
  "calls s = snd (en_exec s)"

lemma with_log_simps [simp]:
  "e_pb (with_log env) = e_pb env" "e_policy (with_log env) = e_policy env"
  "e_verifier (with_log env) = e_verifier env" "e_clock (with_log env) = e_clock env"
  by (simp_all add: with_log_def)

lemma executor_with_log: "snd (fst (e_executor (with_log env) st req)) = snd st @ [req]"
  by (simp add: with_log_def logged_def split: prod.splits)

text \<open>A call was made for a stored recommendation, past CONFIRM, with its own data.\<close>

definition call_ok :: "Recommendation \<Rightarrow> session \<Rightarrow> ExecRequest \<Rightarrow> bool" where
  "call_ok r ss q \<longleftrightarrow> 4 \<le> phase_rank (ss_safety ss) \<and>
     er_operation q = rec_operation r \<and> er_target q = rec_target r \<and> er_risk q = rec_risk r \<and>
     (RequiredGate (rec_operation r) (rec_risk r) (ss_approvalRequired ss) = GateApproved \<longrightarrow>
        (\<exists>a. ss_approval ss = Some a \<and> bound_to a r \<and> ap_id a = er_approval_id q))"

definition log_inv :: "('x \<times> ExecRequest list) engine \<Rightarrow> bool" where
  "log_inv s \<longleftrightarrow> distinct (map er_recommendation_id (calls s)) \<and>
     (\<forall>q \<in> set (calls s). \<exists>r ss. en_recs s (er_recommendation_id q) = Some r \<and>
        en_sessions s (er_recommendation_id q) = Some ss \<and> call_ok r ss q)"

lemma call_ok_rmove:
  assumes "rmove L r ss r' ss'" and "call_ok r ss q"
  shows "call_ok r' ss' q"
  using assms by (cases rule: rmove.cases) (auto simp: call_ok_def bound_to_def)

text \<open>The log invariant survives an update that keeps the facts about earlier calls.\<close>

lemma log_inv_put:
  assumes "log_inv s" and "quiet (e_put i r' ss' s) s'"
    and "\<And>q r ss. en_recs s i = Some r \<Longrightarrow> en_sessions s i = Some ss \<Longrightarrow> call_ok r ss q \<Longrightarrow> call_ok r' ss' q"
  shows "log_inv s'"
proof -
  have same: "calls s' = calls s" and recs: "en_recs s' = (en_recs s)(i \<mapsto> r')"
    and sess: "en_sessions s' = (en_sessions s)(i \<mapsto> ss')"
    using assms(2) by (simp_all add: quiet_def calls_def)
  have "\<exists>r ss. en_recs s' (er_recommendation_id q) = Some r \<and>
      en_sessions s' (er_recommendation_id q) = Some ss \<and> call_ok r ss q" if mem: "q \<in> set (calls s)" for q
  proof -
    obtain r ss where h: "en_recs s (er_recommendation_id q) = Some r"
      "en_sessions s (er_recommendation_id q) = Some ss" "call_ok r ss q"
      using assms(1) mem unfolding log_inv_def by blast
    show ?thesis
    proof (cases "er_recommendation_id q = i")
      case True
      then have "call_ok r' ss' q" using assms(3) [of r ss q] h by simp
      then show ?thesis using True by (simp add: recs sess)
    next
      case False
      then show ?thesis using h by (simp add: recs sess)
    qed
  qed
  then show ?thesis using assms(1) same by (simp add: log_inv_def)
qed

lemma authorize_Inr_iff:
  "authorize L r ss now = Inr aid \<longleftrightarrow>
     (if RequiredGate (rec_operation r) (rec_risk r) (ss_approvalRequired ss) = GateApproved
      then \<exists>a. ss_approval ss = Some a \<and> Covers L (Some a) (Some r) now \<and> aid = ap_id a
      else aid = [])"
  by (auto simp: authorize_def split: option.splits)

lemma log_inv_step:
  assumes inv: "log_inv s" and einv: "engine_inv (e_pb env) s"
  shows "log_inv (e_step (with_log env) op s)"
proof (cases rule: e_step_cases [of s "with_log env" op])
  case quiet
  then show ?thesis using inv by (simp add: log_inv_def quiet_def calls_def)
next
  case proposed
  then obtain r where "en_recs s (rec_id r) = None"
    and q: "quiet (e_put (rec_id r) r (new_session StateRecommend) s) (e_step (with_log env) op s)"
    unfolding proposed_def by blast
  from log_inv_put [OF inv q] show ?thesis by (simp add: \<open>en_recs s (rec_id r) = None\<close>)
next
  case (moved i)
  then obtain r ss r' ss' where h: "en_recs s i = Some r" "en_sessions s i = Some ss"
    and m: "rmove (e_pb env) r ss r' ss'" and q: "quiet (e_put i r' ss' s) (e_step (with_log env) op s)"
    unfolding moved_def by auto
  from log_inv_put [OF inv q] show ?thesis using h call_ok_rmove [OF m] by simp
next
  case (called i)
  then obtain r ss aid r2 ss2 where h:
    "en_recs s i = Some r" "en_sessions s i = Some ss" "rec_status r = ST_APPROVED"
    "ss_safety ss = StateConfirm" "\<not> ss_executed ss"
    "authorize (e_pb env) r ss (e_clock env (en_ticks s)) = Inr aid" and
    m: "r2 = r\<lparr>rec_status := ST_EXECUTING\<rparr> \<and> ss2 = ss\<lparr>ss_safety := StateExecute\<rparr> \<or>
     rmove (e_pb env) (r\<lparr>rec_status := ST_EXECUTING\<rparr>) (ss\<lparr>ss_safety := StateExecute\<rparr>) r2 ss2" and
    q: "quiet (e_put i r2 ss2 (s\<lparr>en_exec := fst (e_executor (with_log env) (en_exec s)
          (exec_request (r\<lparr>rec_status := ST_EXECUTING\<rparr>) aid))\<rparr>)) (e_step (with_log env) op s)"
    unfolding called_def Let_def with_log_simps by blast
  let ?q = "exec_request r aid"
  have q_eq: "exec_request (r\<lparr>rec_status := ST_EXECUTING\<rparr>) aid = ?q" by (simp add: exec_request_def)
  have "rec_id r = i" using einv h(1,2) by (auto simp: engine_inv_def entry_ok_def)
  then have id: "er_recommendation_id ?q = i" by (simp add: exec_request_def)
  have "i \<notin> er_recommendation_id ` set (calls s)"
    using inv h(1,2,4) by (auto simp: log_inv_def call_ok_def)
  moreover have "call_ok (r\<lparr>rec_status := ST_EXECUTING\<rparr>) (ss\<lparr>ss_safety := StateExecute\<rparr>) ?q"
    using h(6) by (auto simp: call_ok_def exec_request_def authorize_Inr_iff Covers_Some_iff bound_to_def
        split: if_splits)
  then have "call_ok r2 ss2 ?q" using m call_ok_rmove by blast
  ultimately show ?thesis
    using inv q id
    by (force simp: log_inv_def quiet_def calls_def q_eq executor_with_log image_iff)
qed

lemma reach_log_inv:
  assumes "e_reach (with_log env) s0 s" and "fresh_engine s0" and "calls s0 = []"
  shows "log_inv s \<and> engine_inv (e_pb env) s"
  using assms
proof (induction rule: e_reach.induct)
  case start
  then show ?case by (simp add: log_inv_def fresh_engine_inv)
next
  case (step s op)
  then show ?case using engine_inv_step [of "with_log env" s op] log_inv_step [of s env op] by simp
qed

subsection \<open>Audit entries\<close>

definition audit_seq :: "AuditEntry list \<Rightarrow> bool" where
  "audit_seq l \<longleftrightarrow> map au_id l = map (\<lambda>k. ''audit-'' @ pad4 k) [1..<Suc (length l)]"

lemma audit_seq_step: "audit_seq l \<Longrightarrow> audit_step l l' \<Longrightarrow> audit_seq l'"
  by (auto simp: audit_seq_def audit_step_def AuditLog_Append_def)

lemma audit_step_prefix: "audit_step l l' \<Longrightarrow> \<exists>m. l' = l @ m"
  by (auto simp: audit_step_def AuditLog_Append_def)

lemma e_step_audit: "audit_step (en_audit s) (en_audit (e_step env op s))"
  by (cases rule: e_step_cases [of s env op])
    (auto simp: quiet_def proposed_def moved_def called_def Let_def)

lemma audit_seq_distinct: "audit_seq l \<Longrightarrow> distinct (map au_id l)"
  by (auto simp: audit_seq_def distinct_map inj_on_def dest: pad4_inject)

end
