(* ===== verification/Example_Run.thy ===== *)
theory Example_Run
  imports Executor_Log
begin

text \<open>
  A complete run of the engine on concrete inputs: a HIGH incident is recommended, parked
  by the default policy, approved for an hour, executed by the simulated executor and
  verified. The closed examples of the engine properties read their states off this run.
\<close>

definition demo_env :: "(ExecRequest list \<times> ExecRequest list) env" where
  "demo_env = with_log \<lparr>e_pb = example_pb, e_policy = DefaultPolicy_Decide,
     e_executor = SimulatedExecutor_Execute (\<lambda>_. False), e_verifier = StaticVerifier OUTCOME_VERIFIED [],
     e_clock = (\<lambda>n. 1000000000 + int n)\<rparr>"

definition demo_ts :: timestamp where "demo_ts = Timestamp 1 0"

definition demo_event :: TelemetryEvent where
  "demo_event = \<lparr>te_id = ''ev-1'', te_occurred_at = Some demo_ts, te_source = ''sim'', te_asset_id = ''host-1'',
     te_identity_id = [], te_event_type = ''auth.login_failed'', te_severity = SEVERITY_HIGH,
     te_attributes = fmempty, te_raw = []\<rparr>"

definition demo_detection :: Detection where
  "demo_detection = \<lparr>det_id = ''det-1'', det_rule_id = ''r'', det_rule_name = ''n'',
     det_telemetry_event_ids = [''ev-1''], det_detected_at = Some demo_ts, det_severity = SEVERITY_HIGH,
     det_confidence = Fin 1, det_title = ''t'', det_description = [], det_attributes = fmempty\<rparr>"

definition demo_alert :: Alert where
  "demo_alert = \<lparr>al_id = ''al-1'', al_detection_ids = [''det-1''], al_status = ALERT_STATUS_OPEN,
     al_severity = SEVERITY_HIGH, al_created_at = Some demo_ts, al_updated_at = Some demo_ts, al_title = ''t''\<rparr>"

definition demo_incident :: Incident where
  "demo_incident = \<lparr>inc_id = ''inc-1'', inc_alert_ids = [''al-1''], inc_status = INCIDENT_STATUS_OPEN,
     inc_severity = SEVERITY_HIGH, inc_created_at = Some demo_ts, inc_updated_at = Some demo_ts,
     inc_title = ''t'', inc_summary = []\<rparr>"

definition demo_id :: string where "demo_id = recommendationID ''inc-1'' ''al-1''"

definition demo_rec :: Recommendation where
  "demo_rec = \<lparr> rec_id = demo_id, rec_incident_id = ''inc-1'', rec_operation = OP_RECOMMEND,
     rec_target = ''host-1'', rec_risk = RISK_HIGH,
     rec_reason = ''incident inc-1 (severity SEVERITY_HIGH, rule r) requires analyst review; no automated action proposed'',
     rec_status = ST_PROPOSED, rec_recommended_at = Some (ts_New example_pb 1000000001),
     rec_recommended_by = RecommenderName, rec_approval_required = True \<rparr>"

definition demo_approval :: Approval where
  "demo_approval = \<lparr> ap_id = approvalID demo_id ''alice'' 1000000005, ap_recommendation_id = demo_id,
     ap_operation = OP_RECOMMEND, ap_target = ''host-1'', ap_risk = RISK_HIGH, ap_approver = ''alice'',
     ap_approved_at = Some (ts_New example_pb 1000000005),
     ap_expires_at = Some (ts_New example_pb 3601000000005), ap_reason = ''ok'' \<rparr>"

definition demo_0 :: "(ExecRequest list \<times> ExecRequest list) engine" where
  "demo_0 = \<lparr>en_recs = Map.empty, en_sessions = Map.empty, en_audit = [], en_ticks = 0, en_exec = ([], [])\<rparr>"

definition demo_1 :: "(ExecRequest list \<times> ExecRequest list) engine" where
  "demo_1 = e_step demo_env
     (ORecommend (Some demo_incident) (Some demo_alert) (Some demo_detection) [Some demo_event]) demo_0"

definition demo_2 :: "(ExecRequest list \<times> ExecRequest list) engine" where
  "demo_2 = e_step demo_env (ODecide demo_id ''operator'') demo_1"

definition demo_3 :: "(ExecRequest list \<times> ExecRequest list) engine" where
  "demo_3 = e_step demo_env (OApprove demo_id ''alice'' ''ok'' 3600000000000) demo_2"

definition demo_4 :: "(ExecRequest list \<times> ExecRequest list) engine" where
  "demo_4 = e_step demo_env (OExecute demo_id) demo_3"

definition demo_5 :: "(ExecRequest list \<times> ExecRequest list) engine" where
  "demo_5 = e_step demo_env (OVerify demo_id) demo_4"

lemma demo_env_simps [simp]:
  "e_pb demo_env = example_pb" "e_policy demo_env = DefaultPolicy_Decide"
  "e_verifier demo_env = StaticVerifier OUTCOME_VERIFIED []"
  "e_clock demo_env n = 1000000000 + int n"
  by (simp_all add: demo_env_def)

lemma demo_clock [simp]: "0 \<le> t \<Longrightarrow> \<not> IsZero t"
  by (simp add: IsZero_def zero_time_def)

lemma demo_valid_ts [simp]: "ts_CheckValid example_pb demo_ts = None"
  by (simp add: example_pb_def demo_ts_def)

lemma demo_id_nonempty [simp]: "demo_id \<noteq> []"
  by (simp add: demo_id_def recommendationID_def)

lemma example_New_valid [simp]:
  "0 \<le> t \<Longrightarrow> t \<le> 253402300799999999999 \<Longrightarrow> ts_CheckValid example_pb (ts_New example_pb t) = None"
  using example_pb_range by (auto simp: ts_range_def zero_time_def max_time_def)

lemma example_AsTime_New [simp]: "ts_AsTime example_pb (ts_New example_pb t) = t"
  using example_pb_roundtrip by (simp add: ts_roundtrip_def)

lemma demo_rec_valid: "1 \<le> st \<Longrightarrow> st \<le> 10 \<Longrightarrow>
    ValidateResponseRecommendation example_pb (Some (demo_rec\<lparr>rec_status := st\<rparr>)) = None"
  by (simp add: ValidateResponseRecommendation_def boundary demo_rec_def RecommenderName_def)

lemma demo_inputs_valid [simp]:
  "ValidateIncident example_pb (Some demo_incident) = None"
  "ValidateAlert example_pb (Some demo_alert) = None"
  "ValidateDetection example_pb (Some demo_detection) = None"
  "ValidateTelemetryEvent example_pb (Some demo_event) = None"
  by (simp_all add: demo_incident_def demo_alert_def demo_detection_def demo_event_def
      ValidateIncident_def ValidateAlert_def ValidateDetection_def ValidateTelemetryEvent_def boundary
      IncidentStatus_known_def AlertStatus_known_def)

lemma demo_recommend_check:
  "recommend_check example_pb (Some demo_incident) (Some demo_alert) (Some demo_detection) [Some demo_event]
     = Inr (demo_incident, demo_alert, demo_detection, [''host-1''])"
proof -
  have "al_id demo_alert \<in> set (inc_alert_ids demo_incident)" "te_asset_id demo_event = ''host-1''"
    by (simp_all add: demo_alert_def demo_incident_def demo_event_def)
  then show ?thesis by (simp add: recommend_check_def fail_if_def sortedKeys_def)
qed

lemma demo_recommend_build:
  "recommend_build example_pb demo_incident demo_alert demo_detection [''host-1''] 1000000001 = Inr demo_rec"
proof -
  have "ValidateResponseRecommendation example_pb (Some demo_rec) = None"
    using demo_rec_valid [of ST_PROPOSED] by (simp add: demo_rec_def)
  then show ?thesis
    by (simp add: recommend_build_def demo_rec_def demo_incident_def demo_alert_def demo_detection_def
        severityOperation_def demo_id_def enum_String_def Severity_name_def)
qed

lemma demo_rec_simps [simp]:
  "rec_id demo_rec = demo_id" "rec_operation demo_rec = OP_RECOMMEND" "rec_risk demo_rec = RISK_HIGH"
  "rec_status demo_rec = ST_PROPOSED" "rec_target demo_rec = ''host-1''"
  by (simp_all add: demo_rec_def)

lemma demo_1_state: "en_recs demo_1 = [demo_id \<mapsto> demo_rec]"
  "en_sessions demo_1 = [demo_id \<mapsto> new_session StateRecommend]"
  "en_ticks demo_1 = 3" "en_exec demo_1 = ([], [])"
  using demo_recommend_check demo_recommend_build
  by (simp_all add: demo_1_def demo_0_def e_Recommend_def e_now_def e_record_def e_put_def Advance_def)


lemma demo_2_state: "en_recs demo_2 = [demo_id \<mapsto> demo_rec\<lparr>rec_status := ST_PENDING_APPROVAL\<rparr>]"
  "en_sessions demo_2 =
     [demo_id \<mapsto> (new_session StateConfirm)\<lparr>ss_approvalRequired := True\<rparr>]"
  "en_ticks demo_2 = 5" "en_exec demo_2 = ([], [])"
  using demo_1_state demo_rec_valid [of ST_PENDING_APPROVAL]
  by (simp_all add: demo_2_def e_Decide_def e_now_def e_live_def e_settle_def e_record_def e_put_def
      Advance_def new_session_def DefaultPolicy_Decide_def knownOperation_def knownRisk_def
      OperationType_known_def RiskLevel_known_def isDestructive_def Let_def)

lemma demo_grant:
  "Grant example_pb (Some (demo_rec\<lparr>rec_status := ST_PENDING_APPROVAL\<rparr>)) ''alice'' ''ok'' 1000000005 3600000000000
     = Inr demo_approval"
proof -
  have "ValidateResponseApproval example_pb (Some demo_approval) = None"
    by (simp add: ValidateResponseApproval_def demo_approval_def boundary approvalID_def)
  then show ?thesis using demo_rec_valid [of ST_PENDING_APPROVAL]
    by (simp add: Grant_def demo_approval_def Let_def fail_if_def)
qed

lemma demo_3_state: "en_recs demo_3 = [demo_id \<mapsto> demo_rec\<lparr>rec_status := ST_APPROVED\<rparr>]"
  "en_sessions demo_3 = [demo_id \<mapsto>
     (new_session StateConfirm)\<lparr>ss_approvalRequired := True, ss_approval := Some demo_approval\<rparr>]"
  "en_ticks demo_3 = 7" "en_exec demo_3 = ([], [])"
  using demo_2_state demo_rec_valid [of ST_APPROVED] demo_grant
  by (simp_all add: demo_3_def e_Approve_def e_now_def e_live_def e_record_def e_put_def
      new_session_def Let_def)


definition demo_request :: ExecRequest where
  "demo_request = exec_request (demo_rec\<lparr>rec_status := ST_EXECUTING\<rparr>) (ap_id demo_approval)"

definition demo_execution :: Execution where
  "demo_execution = \<lparr> ex_id = executionID demo_request, ex_recommendation_id = demo_id,
     ex_approval_id = ap_id demo_approval, ex_operation = OP_RECOMMEND, ex_target = ''host-1'',
     ex_started_at = Some (ts_New example_pb 1000000007), ex_finished_at = Some (ts_New example_pb 1000000008),
     ex_success = True,
     ex_detail = ''simulated: OPERATION_TYPE_RECOMMEND on '' @ quote ''host-1''
       @ '' recorded; no real-world effect occurred'' \<rparr>"

lemma demo_request_simps [simp]:
  "er_recommendation_id demo_request = demo_id" "er_target demo_request = ''host-1''"
  "er_operation demo_request = OP_RECOMMEND" "er_approval_id demo_request = ap_id demo_approval"
  by (simp_all add: demo_request_def exec_request_def)

lemma demo_executor:
  "e_executor demo_env ([], []) demo_request =
     (([demo_request], [demo_request]),
      Inr \<lparr>xr_success = True, xr_detail = ex_detail demo_execution\<rparr>)"
  by (simp add: demo_env_def with_log_def logged_def SimulatedExecutor_Execute_def demo_execution_def
      enum_String_def OperationType_name_def)

lemma demo_execution_valid: "ValidateResponseExecution example_pb (Some demo_execution) = None"
  by (simp add: ValidateResponseExecution_def demo_execution_def boundary executionID_def)

lemma demo_build_execution:
  "BuildExecution example_pb demo_request \<lparr>xr_success = True, xr_detail = ex_detail demo_execution\<rparr>
     1000000007 1000000008 = Inr demo_execution"
  using demo_execution_valid by (simp add: BuildExecution_def demo_execution_def Let_def)

lemma demo_authorize:
  "authorize example_pb (demo_rec\<lparr>rec_status := ST_APPROVED\<rparr>)
     ((new_session StateConfirm)\<lparr>ss_approvalRequired := True, ss_approval := Some demo_approval\<rparr>)
     1000000007 = Inr (ap_id demo_approval)"
  by (simp add: authorize_Inr_iff RequiredGate_def Covers_Some_iff demo_approval_def)

definition demo_session_4 :: session where
  "demo_session_4 = (new_session StateVerify)\<lparr>ss_approvalRequired := True,
     ss_approval := Some demo_approval, ss_executed := True, ss_execution := Some demo_execution\<rparr>"

lemma demo_4_state: "en_recs demo_4 = [demo_id \<mapsto> demo_rec\<lparr>rec_status := ST_EXECUTED\<rparr>]"
  "en_sessions demo_4 = [demo_id \<mapsto> demo_session_4]"
  "en_ticks demo_4 = 10" "en_exec demo_4 = ([demo_request], [demo_request])"
  using demo_3_state demo_rec_valid [of ST_EXECUTED] demo_build_execution demo_authorize demo_executor
  by (simp_all add: demo_4_def e_Execute_def e_finish_def e_now_def e_live_def e_settle_def e_record_def
      e_put_def Advance_def new_session_def demo_session_4_def demo_request_def Let_def)

lemma demo_5_state: "en_recs demo_5 = [demo_id \<mapsto> demo_rec\<lparr>rec_status := ST_VERIFIED\<rparr>]"
  "en_sessions demo_5 = [demo_id \<mapsto>
     demo_session_4\<lparr>ss_safety := StateAudit, ss_verified := True, ss_done := True\<rparr>]"
  "en_exec demo_5 = ([demo_request], [demo_request])"
proof -
  have ver: "ValidateResponseVerification example_pb (Some \<lparr>ver_id = verificationID (ex_id demo_execution),
      ver_execution_id = ex_id demo_execution, ver_outcome = OUTCOME_VERIFIED,
      ver_verified_at = Some (ts_New example_pb 1000000010), ver_detail = ''static test verdict''\<rparr>) = None"
    by (simp add: ValidateResponseVerification_def boundary demo_execution_def verificationID_def
        executionID_def VerificationOutcome_known_def)
  have "ex_success demo_execution" by (simp add: demo_execution_def)
  then show "en_recs demo_5 = [demo_id \<mapsto> demo_rec\<lparr>rec_status := ST_VERIFIED\<rparr>]"
    "en_sessions demo_5 = [demo_id \<mapsto>
       demo_session_4\<lparr>ss_safety := StateAudit, ss_verified := True, ss_done := True\<rparr>]"
    "en_exec demo_5 = ([demo_request], [demo_request])"
    using demo_4_state demo_rec_valid [of ST_VERIFIED] demo_execution_valid ver
    by (simp_all add: demo_5_def e_Verify_def e_now_def e_live_def e_settle_def e_record_def
        e_put_def Advance_def new_session_def demo_session_4_def verify_outcome_def StaticVerifier_def
        BuildVerification_def VerificationOutcome_known_def fail_if_def Let_def)
qed

text \<open>The run is a run of the engine.\<close>

lemma demo_reach: "e_reach demo_env demo_0 demo_5" "e_reach demo_env demo_0 demo_4"
  "e_reach demo_env demo_0 demo_3" "e_reach demo_env demo_4 demo_5"
  unfolding demo_5_def demo_4_def demo_3_def demo_2_def demo_1_def
  by (intro e_reach.intros)+

lemma demo_fresh [simp]: "fresh_engine demo_0" "calls demo_0 = []"
  by (simp_all add: fresh_engine_def demo_0_def calls_def)

end
