(* ===== verification/Guarantees.thy ===== *)
theory Guarantees
  imports Example_Run
begin

text \<open>
  What the response engine guarantees over every sequence of method calls: at most one
  executor call per recommendation, each call authorized at the instant it was made,
  terminal records that never change, an append-only audit log with sequential ids, no
  panic while the clock runs, and refinement of the abstract lifecycle machine.
\<close>

subsection \<open>Supporting facts\<close>

text \<open>Only \<open>Execute\<close> can reach the executor, and what a changed call log means.\<close>

lemma calls_grow:
  assumes "called (with_log env) i s s'"
  shows "\<exists>r ss aid. en_recs s i = Some r \<and> en_sessions s i = Some ss \<and> \<not> ss_done ss \<and>
    rec_status r = ST_APPROVED \<and> ss_safety ss = StateConfirm \<and> \<not> ss_executed ss \<and>
    authorize (e_pb env) r ss (e_clock env (en_ticks s)) = Inr aid \<and>
    calls s' = calls s @ [exec_request r aid]"
proof -
  obtain r ss aid r2 ss2 where h: "en_recs s i = Some r" "en_sessions s i = Some ss" "\<not> ss_done ss"
    "rec_status r = ST_APPROVED" "ss_safety ss = StateConfirm" "\<not> ss_executed ss"
    "authorize (e_pb env) r ss (e_clock env (en_ticks s)) = Inr aid" and
    q: "quiet (e_put i r2 ss2 (s\<lparr>en_exec := fst (e_executor (with_log env) (en_exec s)
          (exec_request (r\<lparr>rec_status := ST_EXECUTING\<rparr>) aid))\<rparr>)) s'"
    using assms unfolding called_def Let_def with_log_simps by blast
  have "exec_request (r\<lparr>rec_status := ST_EXECUTING\<rparr>) aid = exec_request r aid"
    by (simp add: exec_request_def)
  then have "calls s' = calls s @ [exec_request r aid]"
    using q by (simp add: quiet_def calls_def executor_with_log)
  then show ?thesis using h by blast
qed

lemma calls_same:
  "quiet s s' \<Longrightarrow> calls s' = calls s"
  "proposed L s s' \<Longrightarrow> calls s' = calls s"
  "moved L i s s' \<Longrightarrow> calls s' = calls s"
  by (auto simp: quiet_def proposed_def moved_def calls_def)

lemma other_methods_no_call:
  assumes "\<forall>i. op \<noteq> OExecute i"
  shows "calls (e_step env op s) = calls s"
proof (cases op)
  case (ORecommend i a d es)
  then show ?thesis using Recommend_effect [OF prod.collapse [symmetric]] calls_same by (metis e_step.simps)
next
  case (ODecide i actor)
  then show ?thesis using Decide_effect [OF prod.collapse [symmetric]] calls_same by (metis e_step.simps)
next
  case (OApprove i approver reason ttl)
  then show ?thesis using Approve_effect [OF prod.collapse [symmetric]] calls_same by (metis e_step.simps)
next
  case (OVerify i)
  then show ?thesis using Verify_effect [OF prod.collapse [symmetric]] calls_same by (metis e_step.simps)
qed (use assms in blast)

text \<open>
  An entry that is done never changes; nor does one that an executor left in EXECUTE by
  answering with an error.
\<close>

definition settled :: "session \<Rightarrow> bool" where
  "settled ss \<longleftrightarrow> ss_done ss \<or> ss_safety ss = StateExecute"

lemma settled_step:
  assumes "en_recs s i = Some r" and "en_sessions s i = Some ss" and "settled ss"
  shows "en_recs (e_step env op s) i = Some r \<and> en_sessions (e_step env op s) i = Some ss"
proof (cases rule: e_step_cases [of s env op])
  case proposed
  then show ?thesis using assms by (auto simp: proposed_def quiet_def)
qed (use assms in \<open>auto simp: quiet_def moved_def called_def settled_def Let_def\<close>)

lemma settled_reach:
  assumes "e_reach env s s'" and "en_recs s i = Some r" and "en_sessions s i = Some ss" and "settled ss"
  shows "en_recs s' i = Some r \<and> en_sessions s' i = Some ss"
  using assms
proof (induction rule: e_reach.induct)
  case (step s' op)
  then show ?case using settled_step [of s' i r ss env op] by blast
qed simp

text \<open>The entries of two states of one run are related by the abstract machine.\<close>

inductive rmoves :: "pblib \<Rightarrow> Recommendation \<Rightarrow> session \<Rightarrow> Recommendation \<Rightarrow> session \<Rightarrow> bool" for L where
  refl: "rmoves L r ss r ss"
| snoc: "rmoves L r ss r1 ss1 \<Longrightarrow> rmove L r1 ss1 r2 ss2 \<Longrightarrow> rmoves L r ss r2 ss2"

lemma rmoves_frame: "rmoves L r ss r' ss' \<Longrightarrow>
    rec_id r' = rec_id r \<and> rec_operation r' = rec_operation r \<and> rec_target r' = rec_target r \<and>
    rec_risk r' = rec_risk r \<and> phase_rank (ss_safety ss) \<le> phase_rank (ss_safety ss')"
  by (induction rule: rmoves.induct) (auto dest!: rmove_frame)

lemma step_rmoves:
  assumes "en_recs s i = Some r" and "en_sessions s i = Some ss"
  shows "\<exists>r' ss'. en_recs (e_step env op s) i = Some r' \<and> en_sessions (e_step env op s) i = Some ss' \<and>
    rmoves (e_pb env) r ss r' ss'"
proof (cases rule: e_step_cases [of s env op])
  case quiet
  then show ?thesis using assms by (auto simp: quiet_def intro: rmoves.refl)
next
  case proposed
  then show ?thesis using assms by (auto simp: proposed_def quiet_def intro: rmoves.refl)
next
  case (moved j)
  then show ?thesis using assms
    by (cases "j = i") (auto simp: moved_def quiet_def intro: rmoves.refl rmoves.snoc [OF rmoves.refl])
next
  case (called j)
  then obtain r0 ss0 aid r2 ss2 x' where h:
    "en_recs s j = Some r0" "en_sessions s j = Some ss0" "rec_status r0 = ST_APPROVED"
    "ss_safety ss0 = StateConfirm" "\<not> ss_executed ss0"
    "authorize (e_pb env) r0 ss0 (e_clock env (en_ticks s)) = Inr aid"
    "r2 = r0\<lparr>rec_status := ST_EXECUTING\<rparr> \<and> ss2 = ss0\<lparr>ss_safety := StateExecute\<rparr> \<or>
     rmove (e_pb env) (r0\<lparr>rec_status := ST_EXECUTING\<rparr>) (ss0\<lparr>ss_safety := StateExecute\<rparr>) r2 ss2"
    "quiet (e_put j r2 ss2 (s\<lparr>en_exec := x'\<rparr>)) (e_step env op s)"
    unfolding called_def Let_def by blast
  have "rmoves (e_pb env) r0 ss0 (r0\<lparr>rec_status := ST_EXECUTING\<rparr>) (ss0\<lparr>ss_safety := StateExecute\<rparr>)"
    using h(3-6) by (blast intro: rmoves.intros rmove.start)
  then have "rmoves (e_pb env) r0 ss0 r2 ss2" using h(7) by (auto intro: rmoves.snoc)
  then show ?thesis using assms h(1,2,8)
    by (cases "j = i") (auto simp: quiet_def intro: rmoves.refl)
qed

lemma rmoves_trans: "rmoves L r1 s1 r2 s2 \<Longrightarrow> rmoves L r0 s0 r1 s1 \<Longrightarrow> rmoves L r0 s0 r2 s2"
  by (induction rule: rmoves.induct) (auto intro: rmoves.snoc)

lemma reach_rmoves:
  assumes "e_reach env s s'" and "en_recs s i = Some r" and "en_sessions s i = Some ss"
  shows "\<exists>r' ss'. en_recs s' i = Some r' \<and> en_sessions s' i = Some ss' \<and> rmoves (e_pb env) r ss r' ss'"
  using assms
proof (induction rule: e_reach.induct)
  case start
  then show ?case by (auto intro: rmoves.refl)
next
  case (step s' op)
  then obtain r1 ss1 where "en_recs s' i = Some r1" "en_sessions s' i = Some ss1"
    and m: "rmoves (e_pb env) r ss r1 ss1" by blast
  then obtain r2 ss2 where "en_recs (e_step env op s') i = Some r2"
    "en_sessions (e_step env op s') i = Some ss2" "rmoves (e_pb env) r1 ss1 r2 ss2"
    using step_rmoves by blast
  then show ?case using m rmoves_trans by blast
qed

text \<open>Every stored recommendation is non-destructive.\<close>

lemma nondestructive_step:
  assumes "\<And>i r. en_recs s i = Some r \<Longrightarrow> \<not> isDestructive (rec_operation r)"
    and "en_recs (e_step env op s) i = Some r"
    and "dom (en_recs s) = dom (en_sessions s)"
  shows "\<not> isDestructive (rec_operation r)"
proof (cases "en_recs s i")
  case (Some r0)
  then obtain ss0 where "en_sessions s i = Some ss0" using assms(3) by (metis domD domI)
  then obtain r' ss' where "en_recs (e_step env op s) i = Some r'" "rmoves (e_pb env) r0 ss0 r' ss'"
    using Some step_rmoves by blast
  then show ?thesis using assms(1) [OF Some] assms(2) rmoves_frame by fastforce
next
  case None
  then show ?thesis
    using assms(2)
  proof (cases rule: e_step_cases [of s env op])
    case proposed
    then show ?thesis using None assms(2) by (auto simp: proposed_def quiet_def split: if_splits)
  qed (use None assms(2) in \<open>auto simp: quiet_def moved_def called_def Let_def split: if_splits\<close>)
qed

lemma nondestructive_reach:
  assumes "e_reach env s0 s" and "fresh_engine s0"
  shows "en_recs s i = Some r \<Longrightarrow> \<not> isDestructive (rec_operation r)"
  using assms
proof (induction arbitrary: i r rule: e_reach.induct)
  case start
  then show ?case by (simp add: fresh_engine_def)
next
  case (step s op)
  have "dom (en_recs s) = dom (en_sessions s)"
    using reach_engine_inv [OF step.hyps step.prems(2)] by (simp add: engine_inv_def)
  then show ?case using nondestructive_step [OF _ step.prems(1)] step.IH [OF _ step.prems(2)] by blast
qed

text \<open>With a clock that never reads zero no method panics in a state of the invariant.\<close>

definition clock_runs :: "'x env \<Rightarrow> bool" where
  "clock_runs env \<longleftrightarrow> (\<forall>n. \<not> IsZero (e_clock env n))"

lemma e_record_runs:
  "clock_runs env \<Longrightarrow> fst (e_record env actor op risk dec reason result recID phase s)"
  by (auto simp: clock_runs_def e_record_def e_now_def Let_def)

lemma e_record_not_False:
  "clock_runs env \<Longrightarrow> e_record env actor op risk dec reason result recID phase s \<noteq> (False, s')"
  using e_record_runs by (metis fst_conv)

lemma e_live_no_panic: "dom (en_recs s) = dom (en_sessions s) \<Longrightarrow> e_live i s \<noteq> Panicked"
  unfolding e_live_def by (cases "en_recs s i"; cases "en_sessions s i") (auto split: if_splits)

lemma e_settle_no_panic:
  "clock_runs env \<Longrightarrow> out \<noteq> Panicked \<Longrightarrow>
    fst (e_settle env recID r ss actor dec reason result phase out s) \<noteq> Panicked"
  by (auto simp: e_settle_def e_record_not_False split: prod.splits bool.splits option.splits)

lemma e_finish_no_panic:
  "clock_runs env \<Longrightarrow> fst (e_finish env recID r ss req now answer s) \<noteq> Panicked"
  by (auto simp: e_finish_def e_record_not_False e_settle_no_panic Let_def
      split: prod.splits bool.splits sum.splits if_splits)

lemma methods_no_panic:
  assumes "clock_runs env" and "dom (en_recs s) = dom (en_sessions s)"
  shows "fst (e_Recommend env i a d es s) \<noteq> Panicked" and "fst (e_Decide env k actor s) \<noteq> Panicked"
    and "fst (e_Approve env k approver reason ttl s) \<noteq> Panicked"
    and "fst (e_Execute env k s) \<noteq> Panicked" and "fst (e_Verify env k s) \<noteq> Panicked"
proof -
  note live = e_live_no_panic [OF assms(2)]
  show "fst (e_Recommend env i a d es s) \<noteq> Panicked" using assms(1)
    by (auto simp: e_Recommend_def e_now_def e_record_not_False Let_def
        split: prod.splits bool.splits sum.splits option.splits if_splits)
  show "fst (e_Decide env k actor s) \<noteq> Panicked" using assms(1) live
    by (auto simp: e_Decide_def e_now_def e_settle_no_panic Let_def
        split: prod.splits bool.splits sum.splits option.splits if_splits outcome.splits Decision.splits)
  show "fst (e_Approve env k approver reason ttl s) \<noteq> Panicked" using assms(1) live
    by (auto simp: e_Approve_def e_now_def e_record_not_False Let_def
        split: prod.splits bool.splits sum.splits option.splits if_splits outcome.splits)
  show "fst (e_Execute env k s) \<noteq> Panicked" using assms(1) live
    by (auto simp: e_Execute_def e_now_def e_finish_no_panic Let_def
        split: prod.splits bool.splits sum.splits option.splits if_splits outcome.splits)
  show "fst (e_Verify env k s) \<noteq> Panicked" using assms(1) live
    by (auto simp: e_Verify_def e_now_def e_settle_no_panic Let_def
        split: prod.splits bool.splits sum.splits option.splits if_splits outcome.splits)
qed

subsection \<open>The properties\<close>

text \<open>
  C1. At most once: over every sequence of engine calls from a fresh engine, and for every
  executor, policy, verifier and clock, the executor is called at most once per
  recommendation.
\<close>

theorem execute_at_most_once:
  assumes "e_reach (with_log env) s0 s" and "fresh_engine s0" and "calls s0 = []"
  shows "distinct (map er_recommendation_id (calls s))"
  using reach_log_inv [OF assms] by (simp add: log_inv_def)

theorem execute_at_most_once_witness:
  "calls demo_5 = [demo_request] \<and> distinct (map er_recommendation_id (calls demo_5))"
proof -
  have "distinct (map er_recommendation_id (calls demo_5))"
    using demo_reach(1) unfolding demo_env_def by (rule execute_at_most_once) simp_all
  then show ?thesis by (simp add: calls_def demo_5_state)
qed

text \<open>
  No unapproved action: every executor call was made for a stored recommendation, with
  exactly its operation, target and risk; if the gate rule demands a human for it, the
  session holds an approval bound to that recommendation, operation, target and risk, and
  the request carried that approval's id.
\<close>

theorem executor_calls_authorized:
  assumes "e_reach (with_log env) s0 s" and "fresh_engine s0" and "calls s0 = []"
    and "q \<in> set (calls s)"
  shows "\<exists>r ss. en_recs s (er_recommendation_id q) = Some r \<and>
    en_sessions s (er_recommendation_id q) = Some ss \<and>
    er_operation q = rec_operation r \<and> er_target q = rec_target r \<and> er_risk q = rec_risk r \<and>
    (RequiredGate (rec_operation r) (rec_risk r) (ss_approvalRequired ss) = GateApproved \<longrightarrow>
       (\<exists>a. ss_approval ss = Some a \<and> ap_id a = er_approval_id q \<and>
          ap_recommendation_id a = rec_id r \<and> ap_operation a = rec_operation r \<and>
          ap_target a = rec_target r \<and> ap_risk a = rec_risk r))"
proof -
  have "log_inv s" using reach_log_inv [OF assms(1-3)] by simp
  then obtain r ss where "en_recs s (er_recommendation_id q) = Some r"
    "en_sessions s (er_recommendation_id q) = Some ss" "call_ok r ss q"
    using assms(4) unfolding log_inv_def by blast
  then show ?thesis by (auto simp: call_ok_def bound_to_def)
qed

theorem executor_calls_authorized_witness:
  "er_approval_id demo_request = ap_id demo_approval \<and>
   (\<exists>r ss. en_recs demo_5 demo_id = Some r \<and> en_sessions demo_5 demo_id = Some ss \<and>
      RequiredGate (rec_operation r) (rec_risk r) (ss_approvalRequired ss) = GateApproved \<and>
      (\<exists>a. ss_approval ss = Some a \<and> ap_id a = ap_id demo_approval))"
proof -
  have "demo_request \<in> set (calls demo_5)" by (simp add: calls_def demo_5_state)
  then show ?thesis
    using executor_calls_authorized [OF demo_reach(1) [unfolded demo_env_def], of demo_request]
    by (auto simp: demo_5_state demo_session_4_def RequiredGate_def)
qed

text \<open>
  C2. Authorization holds at the instant of execution: a method call that reaches the
  executor is \<open>Execute\<close> on an APPROVED, unexecuted recommendation in CONFIRM, it makes one
  call, and when the gate demands a human the stored approval covers the recommendation at
  the instant the call's clock read, so an expired approval never executes.
\<close>

theorem execution_covered_at_instant:
  assumes "calls (e_step (with_log env) op s) \<noteq> calls s"
  shows "\<exists>i r ss aid. op = OExecute i \<and> en_recs s i = Some r \<and> en_sessions s i = Some ss \<and>
    rec_status r = ST_APPROVED \<and> ss_safety ss = StateConfirm \<and> \<not> ss_executed ss \<and>
    calls (e_step (with_log env) op s) = calls s @ [exec_request r aid] \<and>
    (RequiredGate (rec_operation r) (rec_risk r) (ss_approvalRequired ss) = GateApproved \<longrightarrow>
       (\<exists>a. ss_approval ss = Some a \<and> aid = ap_id a \<and>
          Covers (e_pb env) (Some a) (Some r) (e_clock env (en_ticks s))))"
proof -
  obtain i where op: "op = OExecute i" using assms other_methods_no_call by blast
  have "quiet s (e_step (with_log env) op s) \<or> called (with_log env) i s (e_step (with_log env) op s)"
    unfolding op e_step.simps by (rule Execute_effect [OF prod.collapse [symmetric]])
  then have "called (with_log env) i s (e_step (with_log env) op s)"
    using assms calls_same(1) by metis
  then obtain r ss aid where h: "en_recs s i = Some r" "en_sessions s i = Some ss"
    "rec_status r = ST_APPROVED" "ss_safety ss = StateConfirm" "\<not> ss_executed ss"
    "authorize (e_pb env) r ss (e_clock env (en_ticks s)) = Inr aid"
    "calls (e_step (with_log env) op s) = calls s @ [exec_request r aid]"
    by (blast dest: calls_grow)
  then show ?thesis using op by (auto simp: authorize_Inr_iff split: if_splits)
qed

theorem execution_covered_at_instant_witness:
  "calls (e_step demo_env (OExecute demo_id) demo_3) \<noteq> calls demo_3 \<and>
   Covers example_pb (Some demo_approval) (Some (demo_rec\<lparr>rec_status := ST_APPROVED\<rparr>)) 1000000007"
proof -
  have ne: "calls (e_step demo_env (OExecute demo_id) demo_3) \<noteq> calls demo_3"
    unfolding demo_4_def [symmetric] by (simp add: calls_def demo_4_state demo_3_state)
  from execution_covered_at_instant [OF ne [unfolded demo_env_def]]
  show ?thesis using ne demo_3_state by (auto simp: demo_env_def RequiredGate_def new_session_def)
qed

text \<open>
  C3. The lifecycle table: in every reachable state each stored recommendation satisfies the
  contract, and its status, phase, flags, approval and execution agree as in \<open>phase_ok\<close>.
\<close>

theorem lifecycle_invariant:
  assumes "e_reach env s0 s" and "fresh_engine s0" and "en_recs s i = Some r"
  shows "\<exists>ss. en_sessions s i = Some ss \<and> rec_id r = i \<and>
    ValidateResponseRecommendation (e_pb env) (Some r) = None \<and> phase_ok (ss_safety ss) r ss"
proof -
  have inv: "engine_inv (e_pb env) s" using assms(1,2) by (rule reach_engine_inv)
  then have "i \<in> dom (en_sessions s)" using assms(3) by (auto simp: engine_inv_def)
  then show ?thesis using inv assms(3) by (auto simp: engine_inv_def entry_ok_def)
qed

theorem lifecycle_invariant_witness:
  "\<exists>ss. en_sessions demo_5 demo_id = Some ss \<and> ss_safety ss = StateAudit \<and>
     phase_ok StateAudit (demo_rec\<lparr>rec_status := ST_VERIFIED\<rparr>) ss"
  using lifecycle_invariant [OF demo_reach(1) demo_fresh(1), of demo_id "demo_rec\<lparr>rec_status := ST_VERIFIED\<rparr>"]
  by (auto simp: demo_5_state)

text \<open>
  C4. VERIFIED is never claimed without effect: a recommendation that reads VERIFIED was
  executed, its execution reported success, and it is closed in AUDIT.
\<close>

theorem verified_means_executed:
  assumes "e_reach env s0 s" and "fresh_engine s0" and "en_recs s i = Some r" and "rec_status r = ST_VERIFIED"
  shows "\<exists>ss x. en_sessions s i = Some ss \<and> ss_execution ss = Some x \<and> ex_success x \<and>
    ss_executed ss \<and> ss_verified ss \<and> ss_done ss \<and> ss_safety ss = StateAudit \<and> authorized r ss"
proof -
  have inv: "engine_inv (e_pb env) s" using assms(1,2) by (rule reach_engine_inv)
  then have "i \<in> dom (en_sessions s)" using assms(3) by (auto simp: engine_inv_def)
  then obtain ss where ss: "en_sessions s i = Some ss" by blast
  then have "phase_ok (ss_safety ss) r ss" using inv assms(3) by (simp add: engine_inv_def entry_ok_def)
  then show ?thesis using ss assms(4) by (cases "ss_safety ss") (auto split: if_splits)
qed

theorem verified_means_executed_witness:
  "ex_success demo_execution \<and> rec_status (demo_rec\<lparr>rec_status := ST_VERIFIED\<rparr>) = ST_VERIFIED"
  using verified_means_executed [OF demo_reach(1) demo_fresh(1), of demo_id "demo_rec\<lparr>rec_status := ST_VERIFIED\<rparr>"]
  by (auto simp: demo_5_state demo_session_4_def)

text \<open>
  A DENIED recommendation is never executed: its id is in no executor request.
\<close>

theorem denied_never_executed:
  assumes "e_reach (with_log env) s0 s" and "fresh_engine s0" and "calls s0 = []"
    and "en_recs s i = Some r" and "rec_status r = ST_DENIED"
  shows "i \<notin> er_recommendation_id ` set (calls s)"
proof
  assume "i \<in> er_recommendation_id ` set (calls s)"
  then obtain q where q: "q \<in> set (calls s)" "er_recommendation_id q = i" by blast
  have inv: "log_inv s" "engine_inv (e_pb env) s" using reach_log_inv [OF assms(1-3)] by simp_all
  then obtain ss where ss: "en_sessions s i = Some ss" "call_ok r ss q"
    using q assms(4) by (fastforce simp: log_inv_def)
  then have "phase_ok (ss_safety ss) r ss" using inv(2) assms(4) by (simp add: engine_inv_def entry_ok_def)
  then show False using ss(2) assms(5) by (cases "ss_safety ss") (auto simp: call_ok_def split: if_splits)
qed

definition deny_env :: "(ExecRequest list \<times> ExecRequest list) env" where
  "deny_env = with_log \<lparr>e_pb = example_pb, e_policy = StaticDenyAll,
     e_executor = SimulatedExecutor_Execute (\<lambda>_. False), e_verifier = UnknownVerifier,
     e_clock = (\<lambda>n. 1000000000 + int n)\<rparr>"

lemma deny_run:
  "e_reach deny_env demo_0 (e_step deny_env (ODecide demo_id ''operator'') demo_1)"
  "en_recs (e_step deny_env (ODecide demo_id ''operator'') demo_1) = [demo_id \<mapsto> demo_rec\<lparr>rec_status := ST_DENIED\<rparr>]"
proof -
  have "demo_1 = e_step deny_env
     (ORecommend (Some demo_incident) (Some demo_alert) (Some demo_detection) [Some demo_event]) demo_0"
    using demo_recommend_check demo_recommend_build
    by (simp add: demo_1_def demo_0_def deny_env_def e_Recommend_def e_now_def e_record_def e_put_def
        Advance_def)
  then show "e_reach deny_env demo_0 (e_step deny_env (ODecide demo_id ''operator'') demo_1)"
    using e_reach.step [OF e_reach.step [OF e_reach.start]] by metis
  show "en_recs (e_step deny_env (ODecide demo_id ''operator'') demo_1) = [demo_id \<mapsto> demo_rec\<lparr>rec_status := ST_DENIED\<rparr>]"
    using demo_1_state demo_rec_valid [of ST_DENIED]
    by (simp add: deny_env_def e_Decide_def e_now_def e_live_def e_settle_def e_record_def e_put_def
        Advance_def new_session_def StaticDenyAll_def StaticPolicy_Decide_def knownOperation_def knownRisk_def
        OperationType_known_def RiskLevel_known_def Let_def)
qed

theorem denied_never_executed_witness:
  "demo_id \<notin> er_recommendation_id ` set (calls (e_step deny_env (ODecide demo_id ''operator'') demo_1))"
  by (rule denied_never_executed [OF deny_run(1) [unfolded deny_env_def] demo_fresh, folded deny_env_def,
        of demo_id "demo_rec\<lparr>rec_status := ST_DENIED\<rparr>"])
    (simp_all add: deny_run del: e_step.simps)

text \<open>
  Settled records are final: once a recommendation is done (DENIED or verified), or an
  executor left it in EXECUTE by answering with an error, no later sequence of calls changes
  the record or its session.
\<close>

theorem settled_is_final:
  assumes "e_reach env s s'" and "en_recs s i = Some r" and "en_sessions s i = Some ss"
    and "ss_done ss \<or> ss_safety ss = StateExecute"
  shows "en_recs s' i = Some r \<and> en_sessions s' i = Some ss"
  using settled_reach [OF assms(1-3)] assms(4) by (simp add: settled_def)

theorem settled_is_final_witness:
  "en_recs (e_step demo_env (OExecute demo_id) demo_5) demo_id = Some (demo_rec\<lparr>rec_status := ST_VERIFIED\<rparr>)"
  using settled_is_final [OF e_reach.step [OF e_reach.start, of demo_env demo_5 "OExecute demo_id"], of demo_id]
  by (simp add: demo_5_state)

text \<open>
  C5. Refinement: between two states of a run a stored recommendation never disappears, and
  the pair of record and session moved only by moves of the abstract lifecycle machine; in
  particular its identity, operation, target and risk are those of the first state and its
  phase never goes back.
\<close>

theorem engine_refines_lifecycle:
  assumes "e_reach env s s'" and "en_recs s i = Some r" and "en_sessions s i = Some ss"
  shows "\<exists>r' ss'. en_recs s' i = Some r' \<and> en_sessions s' i = Some ss' \<and>
    rmoves (e_pb env) r ss r' ss' \<and> rec_id r' = rec_id r \<and> rec_operation r' = rec_operation r \<and>
    rec_target r' = rec_target r \<and> rec_risk r' = rec_risk r \<and>
    phase_rank (ss_safety ss) \<le> phase_rank (ss_safety ss')"
proof -
  obtain r' ss' where "en_recs s' i = Some r'" "en_sessions s' i = Some ss'" "rmoves (e_pb env) r ss r' ss'"
    using reach_rmoves [OF assms] by blast
  then show ?thesis using rmoves_frame by blast
qed

theorem engine_refines_lifecycle_witness:
  "rmoves example_pb (demo_rec\<lparr>rec_status := ST_EXECUTED\<rparr>) demo_session_4 (demo_rec\<lparr>rec_status := ST_VERIFIED\<rparr>)
     (demo_session_4\<lparr>ss_safety := StateAudit, ss_verified := True, ss_done := True\<rparr>)"
  using engine_refines_lifecycle [OF demo_reach(4), of demo_id]
  by (simp add: demo_4_state demo_5_state)

text \<open>
  C6. The audit log is append-only and numbered: every later log extends the earlier one,
  and from an empty log the ids are audit-0001, audit-0002, ... without gap or repetition.
\<close>

theorem audit_append_only:
  assumes "e_reach env s s'"
  shows "\<exists>m. en_audit s' = en_audit s @ m \<and> (en_audit s = [] \<longrightarrow>
    map au_id (en_audit s') = map (\<lambda>k. ''audit-'' @ pad4 k) [1..<Suc (length (en_audit s'))] \<and>
    distinct (map au_id (en_audit s')))"
proof -
  have "\<exists>m. en_audit s' = en_audit s @ m"
    using assms
  proof (induction rule: e_reach.induct)
    case (step s' op)
    then show ?case using audit_step_prefix [OF e_step_audit [of s' env op]] by auto
  qed simp
  moreover have "audit_seq (en_audit s)" if "en_audit s = []" using that by (simp add: audit_seq_def)
  with assms have "en_audit s = [] \<Longrightarrow> audit_seq (en_audit s')"
  proof (induction rule: e_reach.induct)
    case (step s' op)
    then show ?case using audit_seq_step [OF _ e_step_audit [of s' env op]] by blast
  qed blast
  ultimately show ?thesis using audit_seq_distinct by (auto simp: audit_seq_def)
qed

theorem audit_append_only_witness:
  "distinct (map au_id (en_audit demo_5))"
  using audit_append_only [OF demo_reach(1)] by (auto simp: demo_0_def)

text \<open>
  While the clock does not read the zero instant no engine method panics, in any
  reachable state: the nil session and the audit panic of the code are unreachable.
\<close>

theorem engine_never_panics:
  assumes "e_reach env s0 s" and "fresh_engine s0" and "\<forall>n. \<not> IsZero (e_clock env n)"
  shows "fst (e_Recommend env inc a d es s) \<noteq> Panicked \<and> fst (e_Decide env i actor s) \<noteq> Panicked \<and>
    fst (e_Approve env i approver reason ttl s) \<noteq> Panicked \<and> fst (e_Execute env i s) \<noteq> Panicked \<and>
    fst (e_Verify env i s) \<noteq> Panicked"
proof -
  have "dom (en_recs s) = dom (en_sessions s)"
    using reach_engine_inv [OF assms(1,2)] by (simp add: engine_inv_def)
  moreover have "clock_runs env" using assms(3) by (simp add: clock_runs_def)
  ultimately show ?thesis by (intro conjI methods_no_panic)
qed

theorem engine_never_panics_witness: "fst (e_Execute demo_env demo_id demo_3) \<noteq> Panicked"
  using engine_never_panics [OF demo_reach(3) demo_fresh(1)] by auto

text \<open>
  The engine only ever holds, and so only ever executes, non-destructive operations:
  whatever the incidents, the recommender never proposes BLOCK, ISOLATE, DELETE or EXECUTE.
\<close>

theorem no_destructive_call:
  assumes "e_reach (with_log env) s0 s" and "fresh_engine s0" and "calls s0 = []"
    and "q \<in> set (calls s)"
  shows "er_operation q \<notin> {OP_BLOCK, OP_ISOLATE, OP_DELETE, OP_EXECUTE}"
proof -
  have "log_inv s" using reach_log_inv [OF assms(1-3)] by simp
  then obtain r ss where "en_recs s (er_recommendation_id q) = Some r" "call_ok r ss q"
    using assms(4) unfolding log_inv_def by blast
  then show ?thesis using nondestructive_reach [OF assms(1,2)] by (auto simp: call_ok_def isDestructive_def)
qed

theorem no_destructive_call_witness:
  "er_operation demo_request \<notin> {OP_BLOCK, OP_ISOLATE, OP_DELETE, OP_EXECUTE}"
  by (rule no_destructive_call [OF demo_reach(1) [unfolded demo_env_def] demo_fresh])
    (simp add: calls_def demo_5_state)

text \<open>
  C7. An approval is bounded in time: an approval granted for a positive time-to-live covers
  its recommendation exactly at the instants before the expiry, and covers no recommendation
  that differs in id, operation, target or risk.
\<close>

theorem approval_window:
  assumes "ts_roundtrip L" and "Grant L (Some r) approver reason granted ttl = Inr a" and "0 < ttl"
  shows "Covers L (Some a) (Some r') now \<longleftrightarrow>
    now < granted + ttl \<and> rec_id r' = rec_id r \<and> rec_operation r' = rec_operation r \<and>
    rec_target r' = rec_target r \<and> rec_risk r' = rec_risk r"
  using assms Grant_Inr [OF assms(2)] by (auto simp: Covers_Some_iff ts_roundtrip_def)

theorem approval_window_witness:
  "Covers example_pb (Some demo_approval) (Some demo_rec) 3601000000004 \<and>
   \<not> Covers example_pb (Some demo_approval) (Some demo_rec) 3601000000005"
  using approval_window [OF example_pb_roundtrip demo_grant, of demo_rec] by simp

text \<open>
  The default policy and the gate rule agree: on a well-formed request the policy asks
  for a human exactly when the gate demands one, and it never denies.
\<close>

theorem default_policy_agrees_with_gate:
  assumes "ar_actor q \<noteq> []" and "knownOperation (ar_operation q)" and "knownRisk (ar_risk q)"
  shows "DefaultPolicy_Decide q =
    (if RequiredGate (ar_operation q) (ar_risk q) False = GateApproved then DecisionRequireApproval
     else DecisionAllow, None)"
  using assms by (auto simp: DefaultPolicy_Decide_def RequiredGate_approved_iff)

theorem default_policy_agrees_with_gate_witness:
  "DefaultPolicy_Decide \<lparr>ar_actor = ''op'', ar_operation = OP_BLOCK, ar_target = ''h'', ar_risk = RISK_LOW\<rparr>
     = (DecisionRequireApproval, None)"
  using default_policy_agrees_with_gate [of "\<lparr>ar_actor = ''op'', ar_operation = OP_BLOCK, ar_target = ''h'', ar_risk = RISK_LOW\<rparr>"]
  by (simp add: knownOperation_def knownRisk_def OperationType_known_def RiskLevel_known_def RequiredGate_def)

text \<open>
  No path around the gate: every sequence of \<open>Advance\<close> steps that leads from a phase
  before EXECUTE to EXECUTE or beyond moves one phase per step and presents an approved gate
  at the step out of CONFIRM.
\<close>

theorem no_path_around_gate:
  assumes "advance_walk s gs = Inr t" and "phase_rank s \<le> 3" and "4 \<le> phase_rank t"
  shows "gs ! (3 - phase_rank s) = GateApproved \<and> phase_rank t = phase_rank s + length gs"
proof -
  have "gs \<noteq> []" using assms by auto
  then show ?thesis using assms advance_walk_gate advance_walk_rank by blast
qed

theorem no_path_around_gate_witness:
  "advance_walk StateConfirm [GateApproved, GateAutomatic] = Inr StateVerify \<and>
   [GateApproved, GateAutomatic] ! 0 = GateApproved"
  using no_path_around_gate [of StateConfirm "[GateApproved, GateAutomatic]" StateVerify]
  by (simp add: Advance_def)

text \<open>
  An action without an audit record is possible: when the executor of an APPROVED and
  authorized recommendation answers with an empty detail, the executor has been called, but
  \<open>Execute\<close> fails, appends no audit entry and leaves the recommendation EXECUTING.
\<close>

theorem empty_detail_leaves_no_audit:
  assumes "en_recs s i = Some r" and "en_sessions s i = Some ss" and "\<not> ss_done ss"
    and "rec_status r = ST_APPROVED" and "ss_safety ss = StateConfirm" and "\<not> ss_executed ss"
    and "\<forall>n. \<not> IsZero (e_clock env n)"
    and "authorize (e_pb env) r ss (e_clock env (en_ticks s)) = Inr aid"
    and "e_executor env (en_exec s) (exec_request (r\<lparr>rec_status := ST_EXECUTING\<rparr>) aid) = (x', Inr res)"
    and "xr_detail res = []"
  shows "\<exists>e s'. e_Execute env i s = (Fail e, s') \<and> en_audit s' = en_audit s \<and> en_exec s' = x' \<and>
    en_recs s' i = Some (r\<lparr>rec_status := ST_EXECUTING\<rparr>)"
proof -
  have "\<exists>e. BuildExecution L req res t u = Inl e" for L req t u
  proof (cases "BuildExecution L req res t u")
    case (Inr x)
    then have "ex_detail x = []" "ValidateResponseExecution L (Some x) = None"
      using assms(10) by (auto simp: BuildExecution_def Let_def split: if_splits option.splits)
    then show ?thesis by (auto simp: ValidateResponseExecution_def boundary)
  qed blast
  then obtain e where "BuildExecution (e_pb env) (exec_request (r\<lparr>rec_status := ST_EXECUTING\<rparr>) aid) res
      (e_clock env (en_ticks s)) (e_clock env (Suc (en_ticks s))) = Inl e" by blast
  then show ?thesis using assms(1-9)
    by (simp add: e_Execute_def e_finish_def e_now_def e_live_def Advance_def Let_def)
qed

definition mute_env :: "nat env" where
  "mute_env = \<lparr>e_pb = example_pb, e_policy = DefaultPolicy_Decide,
     e_executor = (\<lambda>n req. (Suc n, Inr \<lparr>xr_success = True, xr_detail = []\<rparr>)), e_verifier = UnknownVerifier,
     e_clock = (\<lambda>n. 1000000000 + int n)\<rparr>"

definition mute_state :: "nat engine" where
  "mute_state = \<lparr>en_recs = [demo_id \<mapsto> demo_rec\<lparr>rec_status := ST_APPROVED\<rparr>],
     en_sessions = [demo_id \<mapsto>
       (new_session StateConfirm)\<lparr>ss_approvalRequired := True, ss_approval := Some demo_approval\<rparr>],
     en_audit = [], en_ticks = 7, en_exec = 0\<rparr>"

theorem empty_detail_leaves_no_audit_witness:
  "\<exists>e s'. e_Execute mute_env demo_id mute_state = (Fail e, s') \<and> en_audit s' = [] \<and> en_exec s' = 1"
  using empty_detail_leaves_no_audit [of mute_state demo_id "demo_rec\<lparr>rec_status := ST_APPROVED\<rparr>"
      "(new_session StateConfirm)\<lparr>ss_approvalRequired := True, ss_approval := Some demo_approval\<rparr>" mute_env
      "ap_id demo_approval" 1 "\<lparr>xr_success = True, xr_detail = []\<rparr>"] demo_authorize
  by (auto simp: mute_state_def mute_env_def new_session_def)

end
