(* ===== verification/Incidents.thy ===== *)
theory Incidents
  imports Boundary Sha256
begin

text \<open>
  \<open>internal/incident\<close>: the incident manager. Alerts fold into incidents by correlation key,
  incidents move one lifecycle step at a time. A Go \<open>map[string]bool\<close> used as a set is the
  list of its members without repetition. Each method reads the clock at most once, so the
  instant it would return is an argument.
\<close>

subsection \<open>Keys and summaries\<close>

text \<open>\<open>correlate.AttributeKey\<close>.\<close>

definition AttributeKey :: string where
  "AttributeKey = ''blueveil.correlation_id''"

text \<open>The loop of \<open>correlationKey\<close>: the shared id, or nothing when an event disagrees.\<close>

fun shared_correlation :: "bool \<Rightarrow> string \<Rightarrow> TelemetryEvent list \<Rightarrow> string option" where
  "shared_correlation first shared [] = Some shared"
| "shared_correlation first shared (e # es) =
     (let c = attr (te_attributes e) AttributeKey in
      if c = [] \<or> (\<not> first \<and> c \<noteq> shared) then None
      else shared_correlation False c es)"

definition correlationKey :: "Alert \<Rightarrow> TelemetryEvent list \<Rightarrow> string" where
  "correlationKey alert events =
     (case shared_correlation True [] events of
        None \<Rightarrow> ''alert:'' @ al_id alert
      | Some shared \<Rightarrow> if shared = [] then ''alert:'' @ al_id alert else ''corr:'' @ shared)"

definition incidentID :: "string \<Rightarrow> string" where
  "incidentID key = ''inc-'' @ id16 (''blueveil-incident-v1'' @ US @ key)"

definition summarize :: "string list \<Rightarrow> string list \<Rightarrow> string list \<Rightarrow> string" where
  "summarize alerts rules assets =
     itoa (int (length alerts)) @ '' alert(s); rule(s): '' @ join '','' (sortedKeys rules)
       @ ''; asset(s): '' @ join '','' (sortedKeys assets)"

subsection \<open>The manager\<close>

fun nextStatus :: "enum \<Rightarrow> enum option" where
  "nextStatus s =
     (if s = INCIDENT_STATUS_OPEN then Some INCIDENT_STATUS_INVESTIGATING
      else if s = INCIDENT_STATUS_INVESTIGATING then Some INCIDENT_STATUS_CONTAINED
      else if s = INCIDENT_STATUS_CONTAINED then Some INCIDENT_STATUS_RESOLVED
      else if s = INCIDENT_STATUS_RESOLVED then Some INCIDENT_STATUS_CLOSED
      else None)"

declare nextStatus.simps [simp del]

record inc_record =
  ir_incident :: Incident
  ir_alerts :: "string list"
  ir_rules :: "string list"
  ir_assets :: "string list"

record manager =
  mg_byID :: "inc_record gomap"
  mg_byKey :: "string gomap"

definition NewManager :: "gotime option \<Rightarrow> manager res" where
  "NewManager clock =
     (case clock of None \<Rightarrow> Inl (Plain ''incident: manager clock is nil'')
      | Some _ \<Rightarrow> Inr \<lparr>mg_byID = fmempty, mg_byKey = fmempty\<rparr>)"

text \<open>The events of a slice of pointers, unless one of them is nil.\<close>

fun all_present :: "'a option list \<Rightarrow> 'a list option" where
  "all_present [] = Some []"
| "all_present (None # _) = None"
| "all_present (Some e # es) = map_option ((#) e) (all_present es)"

text \<open>The checks of \<open>Ingest\<close> before the clock is read.\<close>

definition ingest_check ::
  "pblib \<Rightarrow> Alert option \<Rightarrow> Detection option \<Rightarrow> TelemetryEvent option list
    \<Rightarrow> (Alert \<times> Detection \<times> TelemetryEvent list) res" where
  "ingest_check L alert det events =
     (case (alert, det) of
        (Some a, Some d) \<Rightarrow>
          (case first_err [
             map_option (Wrap (Incident ErrIncidentBuild)) (ValidateAlert L (Some a)),
             map_option (Wrap (Incident ErrIncidentBuild)) (ValidateDetection L (Some d)),
             fail_if (det_id d \<notin> set (al_detection_ids a))
               (Sent (Incident ErrIncidentBuild) ''alert does not reference detection'')] of
             Some e \<Rightarrow> Inl e
           | None \<Rightarrow>
              (case all_present events of
                 None \<Rightarrow> Inl (Sent (Incident ErrIncidentBuild) ''nil contributing event'')
               | Some es \<Rightarrow>
                  if \<not> set (det_telemetry_event_ids d) \<subseteq> set (map te_id es)
                    then Inl (Sent (Incident ErrIncidentBuild) ''detection event not provided'')
                  else Inr (a, d, es)))
      | _ \<Rightarrow> Inl (Sent (Incident ErrIncidentBuild) ''alert and detection are required''))"

definition add_assets :: "TelemetryEvent list \<Rightarrow> string list \<Rightarrow> string list" where
  "add_assets events assets = foldl (\<lambda>acc e. List.insert (te_asset_id e) acc) assets events"

text \<open>The incident of an existing record after a new alert was folded in.\<close>

definition fold_alert ::
  "pblib \<Rightarrow> gotime \<Rightarrow> Alert \<Rightarrow> Detection \<Rightarrow> TelemetryEvent list \<Rightarrow> inc_record \<Rightarrow> inc_record" where
  "fold_alert L now a d events r =
     (let i = ir_incident r;
          alerts = List.insert (al_id a) (ir_alerts r);
          rules = List.insert (det_rule_id d) (ir_rules r);
          assets = add_assets events (ir_assets r)
      in \<lparr> ir_incident = i\<lparr> inc_alert_ids := sort (inc_alert_ids i @ [al_id a]),
             inc_severity := (if al_severity a > inc_severity i then al_severity a else inc_severity i),
             inc_updated_at := Some (ts_New L now),
             inc_summary := summarize alerts rules assets \<rparr>,
           ir_alerts = alerts, ir_rules = rules, ir_assets = assets \<rparr>)"

text \<open>A fresh record for the first alert of a key.\<close>

definition new_record ::
  "pblib \<Rightarrow> gotime \<Rightarrow> string \<Rightarrow> Alert \<Rightarrow> Detection \<Rightarrow> TelemetryEvent list \<Rightarrow> inc_record" where
  "new_record L now key a d events =
     (let assets = add_assets events [] in
      \<lparr> ir_incident = \<lparr> inc_id = incidentID key, inc_alert_ids = [al_id a],
          inc_status = INCIDENT_STATUS_OPEN, inc_severity = al_severity a,
          inc_created_at = Some (ts_New L now), inc_updated_at = Some (ts_New L now),
          inc_title = ''Incident: '' @ al_title a,
          inc_summary = summarize [al_id a] [det_rule_id d] assets \<rparr>,
        ir_alerts = [al_id a], ir_rules = [det_rule_id d], ir_assets = assets \<rparr>)"

definition Ingest ::
  "pblib \<Rightarrow> gotime \<Rightarrow> Alert option \<Rightarrow> Detection option \<Rightarrow> TelemetryEvent option list \<Rightarrow> manager
    \<Rightarrow> (Incident \<times> bool) outcome \<times> manager" where
  "Ingest L now alert det events m =
     (case ingest_check L alert det events of
        Inl e \<Rightarrow> (Fail e, m)
      | Inr (a, d, es) \<Rightarrow>
         if IsZero now then (Fail (Sent (Incident ErrIncidentBuild) ''clock returned zero time''), m)
         else
          (let key = correlationKey a es in
           case fmlookup (mg_byKey m) key of
             Some iid \<Rightarrow>
               (case fmlookup (mg_byID m) iid of
                  None \<Rightarrow> (Panicked, m)
                | Some r \<Rightarrow>
                    if al_id a \<in> set (ir_alerts r) then (Ret (ir_incident r, False), m)
                    else
                      (let r' = fold_alert L now a d es r;
                           m' = m\<lparr>mg_byID := fmupd iid r' (mg_byID m)\<rparr> in
                       case ValidateIncident L (Some (ir_incident r')) of
                         Some e \<Rightarrow> (Fail (Wrap (Incident ErrIncidentBuild) e), m')
                       | None \<Rightarrow> (Ret (ir_incident r', False), m')))
           | None \<Rightarrow>
               (let r = new_record L now key a d es in
                case ValidateIncident L (Some (ir_incident r)) of
                  Some e \<Rightarrow> (Fail (Wrap (Incident ErrIncidentBuild) e), m)
                | None \<Rightarrow>
                    (Ret (ir_incident r, True),
                     \<lparr> mg_byID = fmupd (inc_id (ir_incident r)) r (mg_byID m),
                       mg_byKey = fmupd key (inc_id (ir_incident r)) (mg_byKey m) \<rparr>))))"

definition Transition ::
  "pblib \<Rightarrow> gotime \<Rightarrow> string \<Rightarrow> enum \<Rightarrow> manager \<Rightarrow> Incident outcome \<times> manager" where
  "Transition L now iid to m =
     (case fmlookup (mg_byID m) iid of
        None \<Rightarrow> (Fail (Sent (Incident ErrIncidentNotFound) iid), m)
      | Some r \<Rightarrow>
         if nextStatus (inc_status (ir_incident r)) \<noteq> Some to
           then (Fail (Sent (Incident ErrIncidentTransition) ''illegal move''), m)
         else if IsZero now then (Fail (Sent (Incident ErrIncidentBuild) ''clock returned zero time''), m)
         else
           (let i = (ir_incident r)\<lparr>inc_status := to, inc_updated_at := Some (ts_New L now)\<rparr>;
                m' = m\<lparr>mg_byID := fmupd iid (r\<lparr>ir_incident := i\<rparr>) (mg_byID m)\<rparr> in
            case ValidateIncident L (Some i) of
              Some e \<Rightarrow> (Fail (Wrap (Incident ErrIncidentBuild) e), m')
            | None \<Rightarrow> (Ret i, m')))"

definition Manager_Get :: "string \<Rightarrow> manager \<Rightarrow> Incident option" where
  "Manager_Get iid m = map_option ir_incident (fmlookup (mg_byID m) iid)"

definition Manager_List :: "manager \<Rightarrow> Incident list" where
  "Manager_List m = map ir_incident (values_sorted (mg_byID m))"

subsection \<open>Invariant\<close>

definition record_ok :: "string \<Rightarrow> inc_record \<Rightarrow> bool" where
  "record_ok iid r \<longleftrightarrow> inc_id (ir_incident r) = iid \<and>
     inc_alert_ids (ir_incident r) = sortedKeys (ir_alerts r) \<and>
     distinct (ir_alerts r) \<and> ir_alerts r \<noteq> [] \<and> 1 \<le> inc_status (ir_incident r) \<and> inc_status (ir_incident r) \<le> 5 \<and>
     inc_summary (ir_incident r) = summarize (ir_alerts r) (ir_rules r) (ir_assets r)"

definition manager_inv :: "manager \<Rightarrow> bool" where
  "manager_inv m \<longleftrightarrow>
     (\<forall>iid r. fmlookup (mg_byID m) iid = Some r \<longrightarrow> record_ok iid r) \<and>
     (\<forall>k iid. fmlookup (mg_byKey m) k = Some iid \<longrightarrow> iid = incidentID k \<and> fmlookup (mg_byID m) iid \<noteq> None)"

lemma manager_invD:
  "manager_inv m \<Longrightarrow> fmlookup (mg_byID m) iid = Some r \<Longrightarrow> record_ok iid r"
  "manager_inv m \<Longrightarrow> fmlookup (mg_byKey m) k = Some iid \<Longrightarrow> iid = incidentID k"
  "manager_inv m \<Longrightarrow> fmlookup (mg_byKey m) k = Some iid \<Longrightarrow> \<exists>r. fmlookup (mg_byID m) iid = Some r"
  by (auto simp: manager_inv_def)

lemma fold_alert_ok:
  "record_ok iid r \<Longrightarrow> al_id a \<notin> set (ir_alerts r) \<Longrightarrow> record_ok iid (fold_alert L now a d es r)"
  by (auto simp: record_ok_def fold_alert_def Let_def sortedKeys_add)

lemma new_record_ok: "record_ok (incidentID key) (new_record L now key a d es)"
  by (simp add: record_ok_def new_record_def Let_def sortedKeys_def)

lemma manager_inv_upd:
  "manager_inv m \<Longrightarrow> fmlookup (mg_byID m) iid \<noteq> None \<Longrightarrow> record_ok iid r \<Longrightarrow>
    manager_inv (m\<lparr>mg_byID := fmupd iid r (mg_byID m)\<rparr>)"
  by (auto simp: manager_inv_def)

text \<open>
  What \<open>Ingest\<close> does to the manager: nothing, folding the alert into the record of its key,
  or creating a record.
\<close>

lemma Ingest_cases:
  assumes "Ingest L now alert det events m = (out, m')" and "manager_inv m"
  obtains (same) "m' = m" "\<And>i b. out = Ret (i, b) \<Longrightarrow> \<exists>a d es r iid. ingest_check L alert det events = Inr (a, d, es) \<and>
      fmlookup (mg_byKey m) (correlationKey a es) = Some iid \<and> fmlookup (mg_byID m) iid = Some r \<and>
      al_id a \<in> set (ir_alerts r) \<and> i = ir_incident r \<and> \<not> b" "out \<noteq> Panicked"
  | (fold) a d es iid r where "ingest_check L alert det events = Inr (a, d, es)"
      "fmlookup (mg_byKey m) (correlationKey a es) = Some iid" "fmlookup (mg_byID m) iid = Some r"
      "al_id a \<notin> set (ir_alerts r)"
      "m' = m\<lparr>mg_byID := fmupd iid (fold_alert L now a d es r) (mg_byID m)\<rparr>"
      "out = Ret (ir_incident (fold_alert L now a d es r), False) \<or> (\<exists>e. out = Fail e)"
  | (create) a d es where "ingest_check L alert det events = Inr (a, d, es)"
      "fmlookup (mg_byKey m) (correlationKey a es) = None"
      "m' = \<lparr> mg_byID = fmupd (incidentID (correlationKey a es))
                (new_record L now (correlationKey a es) a d es) (mg_byID m),
              mg_byKey = fmupd (correlationKey a es) (incidentID (correlationKey a es)) (mg_byKey m) \<rparr>"
      "out = Ret (ir_incident (new_record L now (correlationKey a es) a d es), True)"
proof (cases "ingest_check L alert det events")
  case (Inl e)
  then show thesis using assms(1) by (intro same) (auto simp: Ingest_def)
next
  case (Inr p)
  obtain a d es where p: "p = (a, d, es)" by (cases p)
  show thesis
  proof (cases "IsZero now")
    case True
    then show thesis using assms(1) Inr p by (intro same) (auto simp: Ingest_def)
  next
    case False
    let ?key = "correlationKey a es"
    show thesis
    proof (cases "fmlookup (mg_byKey m) ?key")
      case None
      have iid: "inc_id (ir_incident (new_record L now ?key a d es)) = incidentID ?key"
        by (simp add: new_record_def Let_def)
      show thesis
      proof (cases "ValidateIncident L (Some (ir_incident (new_record L now ?key a d es)))")
        case None
        with assms(1) Inr p False \<open>fmlookup (mg_byKey m) ?key = None\<close> iid show thesis
          by (intro create [of a d es]) (simp_all add: Ingest_def Let_def)
      next
        case (Some e)
        with assms(1) Inr p False \<open>fmlookup (mg_byKey m) ?key = None\<close> show thesis
          by (intro same) (auto simp: Ingest_def Let_def)
      qed
    next
      case (Some iid)
      then obtain r where r: "fmlookup (mg_byID m) iid = Some r" using assms(2) manager_invD(3) by blast
      show thesis
      proof (cases "al_id a \<in> set (ir_alerts r)")
        case True
        with assms(1) Inr p False Some r show thesis
          by (intro same) (auto simp: Ingest_def Let_def)
      next
        case new: False
        with assms(1) Inr p False Some r show thesis
          by (intro fold [of a d es iid r]) (auto simp: Ingest_def Let_def split: option.splits)
      qed
    qed
  qed
qed

lemma Ingest_inv:
  assumes "manager_inv m" and "Ingest L now alert det events m = (out, m')"
  shows "manager_inv m'"
  using assms(2,1)
proof (cases rule: Ingest_cases)
  case same
  then show ?thesis using assms(1) by simp
next
  case (fold a d es iid r)
  then show ?thesis using assms(1) by (auto intro!: manager_inv_upd fold_alert_ok dest: manager_invD)
next
  case (create a d es)
  then show ?thesis using assms(1) new_record_ok [of "correlationKey a es" L now a d es]
    by (auto simp: manager_inv_def)
qed

lemma nextStatus_Some: "nextStatus s = Some t \<longleftrightarrow> 1 \<le> s \<and> s \<le> 4 \<and> t = s + 1"
  by (auto simp: nextStatus.simps)

lemma Transition_cases:
  assumes "Transition L now iid to m = (out, m')"
  obtains (same) e where "m' = m" "out = Fail e"
  | (moved) r i where "fmlookup (mg_byID m) iid = Some r" "nextStatus (inc_status (ir_incident r)) = Some to"
      "i = (ir_incident r)\<lparr>inc_status := to, inc_updated_at := Some (ts_New L now)\<rparr>"
      "m' = m\<lparr>mg_byID := fmupd iid (r\<lparr>ir_incident := i\<rparr>) (mg_byID m)\<rparr>"
      "out = Ret i \<or> (\<exists>e. out = Fail e)"
proof (cases "fmlookup (mg_byID m) iid")
  case None
  then show thesis using assms by (intro same) (auto simp: Transition_def)
next
  case (Some r)
  show thesis
  proof (cases "nextStatus (inc_status (ir_incident r)) = Some to \<and> \<not> IsZero now")
    case True
    then show thesis using assms Some
      by (intro moved [of r]) (auto simp: Transition_def Let_def split: option.splits)
  next
    case False
    then show thesis using assms Some same by (auto simp: Transition_def Let_def split: if_splits)
  qed
qed

lemma Transition_inv:
  assumes "manager_inv m" and "Transition L now iid to m = (out, m')"
  shows "manager_inv m'"
  using assms(2)
proof (cases rule: Transition_cases)
  case same
  then show ?thesis using assms(1) by simp
next
  case (moved r i)
  have "record_ok iid r" using assms(1) moved(1) by (rule manager_invD)
  then have "record_ok iid (r\<lparr>ir_incident := i\<rparr>)"
    using moved(2,3) by (auto simp: record_ok_def nextStatus_Some)
  then show ?thesis using assms(1) moved(1,4) by (simp add: manager_inv_upd)
qed

subsection \<open>Runs of the manager\<close>

text \<open>
  A run is any sequence of calls. \<open>careful_run\<close> is a run in which no created incident takes
  the id of another key's incident: ids are 64-bit prefixes of digests, and the code does
  not look for such a clash.
\<close>

datatype iop =
    IIngest gotime "Alert option" "Detection option" "TelemetryEvent option list"
  | ITransition gotime string enum

fun i_step :: "pblib \<Rightarrow> iop \<Rightarrow> manager \<Rightarrow> manager" where
  "i_step L (IIngest now a d es) m = snd (Ingest L now a d es m)"
| "i_step L (ITransition now iid to) m = snd (Transition L now iid to m)"

fun i_run :: "pblib \<Rightarrow> iop list \<Rightarrow> manager \<Rightarrow> manager" where
  "i_run L [] m = m"
| "i_run L (op # ops) m = i_run L ops (i_step L op m)"

fun no_clash :: "pblib \<Rightarrow> iop \<Rightarrow> manager \<Rightarrow> bool" where
  "no_clash L (IIngest now a d es) m =
     (case ingest_check L a d es of
        Inl _ \<Rightarrow> True
      | Inr (x, _, ev) \<Rightarrow>
          fmlookup (mg_byKey m) (correlationKey x ev) \<noteq> None \<or>
          fmlookup (mg_byID m) (incidentID (correlationKey x ev)) = None)"
| "no_clash L (ITransition _ _ _) m = True"

fun careful_run :: "pblib \<Rightarrow> iop list \<Rightarrow> manager \<Rightarrow> bool" where
  "careful_run L [] m = True"
| "careful_run L (op # ops) m = (no_clash L op m \<and> careful_run L ops (i_step L op m))"

lemma i_step_inv: "manager_inv m \<Longrightarrow> manager_inv (i_step L op m)"
  by (cases op) (auto intro: Ingest_inv [OF _ prod.collapse [symmetric]] Transition_inv [OF _ prod.collapse [symmetric]])

lemma i_run_inv: "manager_inv m \<Longrightarrow> manager_inv (i_run L ops m)"
  by (induction ops arbitrary: m) (simp_all add: i_step_inv)

lemma manager_inv_empty [simp]: "manager_inv \<lparr>mg_byID = fmempty, mg_byKey = fmempty\<rparr>"
  by (simp add: manager_inv_def)

text \<open>What one step may do to an incident.\<close>

definition grows :: "inc_record \<Rightarrow> inc_record \<Rightarrow> bool" where
  "grows r r' \<longleftrightarrow> inc_id (ir_incident r') = inc_id (ir_incident r) \<and>
     inc_created_at (ir_incident r') = inc_created_at (ir_incident r) \<and>
     inc_status (ir_incident r) \<le> inc_status (ir_incident r') \<and>
     inc_severity (ir_incident r) \<le> inc_severity (ir_incident r') \<and>
     set (ir_alerts r) \<subseteq> set (ir_alerts r')"

lemma grows_refl [simp]: "grows r r"
  by (simp add: grows_def)

lemma grows_trans: "grows r s \<Longrightarrow> grows s t \<Longrightarrow> grows r t"
  by (auto simp: grows_def)

lemma fold_alert_grows: "grows r (fold_alert L now a d es r)"
  by (auto simp: grows_def fold_alert_def Let_def)

lemma i_step_grows:
  assumes "manager_inv m" and "no_clash L op m" and "fmlookup (mg_byID m) iid = Some r"
  shows "\<exists>r'. fmlookup (mg_byID (i_step L op m)) iid = Some r' \<and> grows r r'"
proof (cases op)
  case (IIngest now alert det events)
  obtain out m' where step: "Ingest L now alert det events m = (out, m')" by force
  from step assms(1) show ?thesis
  proof (cases rule: Ingest_cases)
    case same
    then show ?thesis using step IIngest assms(3) by simp
  next
    case (fold a d es jid r0)
    then show ?thesis using step IIngest assms(3)
      by (cases "jid = iid") (auto simp: fold_alert_grows)
  next
    case (create a d es)
    have "incidentID (correlationKey a es) \<noteq> iid" using assms(2,3) IIngest create(1,2) by auto
    then show ?thesis using step IIngest assms(3) create(3) by simp
  qed
next
  case (ITransition now jid to)
  obtain out m' where step: "Transition L now jid to m = (out, m')" by force
  then show ?thesis
  proof (cases rule: Transition_cases)
    case same
    then show ?thesis using step ITransition assms(3) by simp
  next
    case (moved r0 i)
    then have "grows r0 (r0\<lparr>ir_incident := i\<rparr>)" by (auto simp: grows_def nextStatus_Some)
    then show ?thesis using step ITransition assms(3) moved by (cases "jid = iid") auto
  qed
qed

lemma i_run_grows:
  assumes "manager_inv m" and "careful_run L ops m" and "fmlookup (mg_byID m) iid = Some r"
  shows "\<exists>r'. fmlookup (mg_byID (i_run L ops m)) iid = Some r' \<and> grows r r'"
  using assms
proof (induction ops arbitrary: m r)
  case (Cons op ops)
  then obtain r1 where r1: "fmlookup (mg_byID (i_step L op m)) iid = Some r1" "grows r r1"
    using i_step_grows by fastforce
  then obtain r2 where "fmlookup (mg_byID (i_run L ops (i_step L op m))) iid = Some r2" "grows r1 r2"
    using Cons.IH [OF i_step_inv [OF Cons.prems(1)] _ r1(1)] Cons.prems(2) by auto
  then show ?case using r1(2) grows_trans by auto
qed simp

subsection \<open>The properties\<close>


text \<open>A concrete alert with its detection and event, for the closed examples.\<close>

definition ex_ts :: timestamp where "ex_ts = Timestamp 5 0"

definition ex_event :: TelemetryEvent where
  "ex_event = \<lparr>te_id = ''e1'', te_occurred_at = Some ex_ts, te_source = ''sim'', te_asset_id = ''h1'',
     te_identity_id = [], te_event_type = ''t'', te_severity = SEVERITY_LOW,
     te_attributes = fmempty, te_raw = []\<rparr>"

definition ex_detection :: Detection where
  "ex_detection = \<lparr>det_id = ''d1'', det_rule_id = ''r1'', det_rule_name = ''rule'',
     det_telemetry_event_ids = [''e1''], det_detected_at = Some ex_ts, det_severity = SEVERITY_HIGH,
     det_confidence = Fin 1, det_title = ''t'', det_description = [], det_attributes = fmempty\<rparr>"

definition ex_alert :: "string \<Rightarrow> enum \<Rightarrow> Alert" where
  "ex_alert i sev = \<lparr>al_id = i, al_detection_ids = [''d1''], al_status = ALERT_STATUS_OPEN,
     al_severity = sev, al_created_at = Some ex_ts, al_updated_at = Some ex_ts, al_title = ''t''\<rparr>"

lemma ex_ts_valid [simp]: "ts_CheckValid example_pb ex_ts = None"
  by (simp add: ex_ts_def example_pb_def)

lemma ex_inputs_valid [simp]:
  "i \<noteq> [] \<Longrightarrow> 1 \<le> sev \<Longrightarrow> sev \<le> 5 \<Longrightarrow> ValidateAlert example_pb (Some (ex_alert i sev)) = None"
  "ValidateDetection example_pb (Some ex_detection) = None"
  "ValidateTelemetryEvent example_pb (Some ex_event) = None"
  by (simp_all add: ex_alert_def ex_detection_def ex_event_def ValidateAlert_def ValidateDetection_def
      ValidateTelemetryEvent_def boundary AlertStatus_known_def)

lemma ex_ingest_check [simp]:
  "i \<noteq> [] \<Longrightarrow> 1 \<le> sev \<Longrightarrow> sev \<le> 5 \<Longrightarrow>
    ingest_check example_pb (Some (ex_alert i sev)) (Some ex_detection) [Some ex_event]
      = Inr (ex_alert i sev, ex_detection, [ex_event])"
  using ex_inputs_valid(1) [of i sev] ex_inputs_valid(2)
  by (simp add: ingest_check_def fail_if_def)
    (simp add: ex_alert_def ex_detection_def ex_event_def)

lemma ex_key [simp]: "correlationKey (ex_alert i sev) [ex_event] = ''alert:'' @ i"
  by (simp add: correlationKey_def ex_event_def attr_def ex_alert_def)

definition ex_manager :: manager where
  "ex_manager = i_run example_pb
     [IIngest 7 (Some (ex_alert ''a1'' SEVERITY_HIGH)) (Some ex_detection) [Some ex_event]]
     \<lparr>mg_byID = fmempty, mg_byKey = fmempty\<rparr>"

lemma ex_manager_state:
  "ex_manager = \<lparr> mg_byID = fmupd (incidentID ''alert:a1'')
       (new_record example_pb 7 ''alert:a1'' (ex_alert ''a1'' SEVERITY_HIGH) ex_detection [ex_event]) fmempty,
     mg_byKey = fmupd ''alert:a1'' (incidentID ''alert:a1'') fmempty \<rparr>"
proof -
  have i: "inc_id (ir_incident (new_record example_pb 7 ''alert:a1'' (ex_alert ''a1'' 4) ex_detection [ex_event]))
      = incidentID ''alert:a1''"
    by (simp add: new_record_def Let_def)
  have "ts_CheckValid example_pb (ts_New example_pb 7) = None"
    by (simp add: example_pb_def)
  then have "ValidateIncident example_pb (Some (ir_incident
      (new_record example_pb 7 ''alert:a1'' (ex_alert ''a1'' SEVERITY_HIGH) ex_detection [ex_event]))) = None"
    by (simp add: ValidateIncident_def new_record_def Let_def boundary IncidentStatus_known_def incidentID_def
        ex_alert_def)
  then show ?thesis
    using i by (simp add: ex_manager_def Ingest_def IsZero_def zero_time_def Let_def)
qed




text \<open>
  \<open>Transition\<close> takes exactly the one step forward: it succeeds only from the status just
  before the requested one, leaves every other incident alone, and an incident that is
  CLOSED or unknown makes it fail without effect.
\<close>

theorem transition_one_step:
  assumes "Transition L now iid to m = (out, m')"
  shows "(\<forall>i. out = Ret i \<longrightarrow> (\<exists>r. fmlookup (mg_byID m) iid = Some r \<and>
       to = inc_status (ir_incident r) + 1 \<and> inc_status i = to \<and> 2 \<le> to \<and> to \<le> 5 \<and>
       Manager_Get iid m' = Some i)) \<and>
    (\<forall>j. j \<noteq> iid \<longrightarrow> fmlookup (mg_byID m') j = fmlookup (mg_byID m) j) \<and>
    (\<forall>r. fmlookup (mg_byID m) iid = Some r \<and> inc_status (ir_incident r) = INCIDENT_STATUS_CLOSED \<longrightarrow>
       m' = m \<and> (\<exists>e. out = Fail e \<and> errors_Is e (Incident ErrIncidentTransition)))"
proof -
  have closed: "m' = m \<and> (\<exists>e. out = Fail e \<and> errors_Is e (Incident ErrIncidentTransition))"
    if "fmlookup (mg_byID m) iid = Some r" "inc_status (ir_incident r) = INCIDENT_STATUS_CLOSED" for r
    using assms that by (auto simp: Transition_def nextStatus.simps)
  from assms show ?thesis
  proof (cases rule: Transition_cases)
    case (same e)
    then show ?thesis using closed by auto
  next
    case (moved r i)
    then show ?thesis using closed by (auto simp: Manager_Get_def nextStatus_Some)
  qed
qed

theorem transition_one_step_witness:
  "\<exists>i. fst (Transition example_pb 9 (incidentID ''alert:a1'') INCIDENT_STATUS_INVESTIGATING ex_manager) = Ret i \<and>
     inc_status i = INCIDENT_STATUS_INVESTIGATING"
proof -
  let ?t = "Transition example_pb 9 (incidentID ''alert:a1'') INCIDENT_STATUS_INVESTIGATING ex_manager"
  have "ts_CheckValid example_pb (ts_New example_pb 9) = None" "ts_CheckValid example_pb (ts_New example_pb 7) = None"
    by (simp_all add: example_pb_def)
  then have "ValidateIncident example_pb (Some ((ir_incident (new_record example_pb 7 ''alert:a1''
      (ex_alert ''a1'' SEVERITY_HIGH) ex_detection [ex_event]))\<lparr>inc_status := INCIDENT_STATUS_INVESTIGATING,
      inc_updated_at := Some (ts_New example_pb 9)\<rparr>)) = None"
    by (simp add: ValidateIncident_def new_record_def Let_def boundary IncidentStatus_known_def incidentID_def
        ex_alert_def)
  then have "\<exists>i. fst ?t = Ret i"
    by (simp add: ex_manager_state Transition_def IsZero_def zero_time_def Let_def)
      (simp add: new_record_def nextStatus.simps Let_def)
  then show ?thesis
    using transition_one_step [of example_pb 9 "incidentID ''alert:a1''" INCIDENT_STATUS_INVESTIGATING ex_manager
        "fst ?t" "snd ?t"] by auto
qed

text \<open>
  \<open>Ingest\<close> is idempotent: after an alert was folded into an incident, ingesting it again
  with the same detection and events, at any later instant, returns the same incident, not
  created, and changes nothing.
\<close>

theorem ingest_idempotent:
  assumes "manager_inv m" and "Ingest L now alert det events m = (Ret (inc, created), m')" and "\<not> IsZero later"
  shows "Ingest L later alert det events m' = (Ret (inc, False), m')"
  using assms(2,1)
proof (cases rule: Ingest_cases)
  case same
  from same(2) [OF refl] obtain a d es r iid where "ingest_check L alert det events = Inr (a, d, es)"
    "fmlookup (mg_byKey m) (correlationKey a es) = Some iid" "fmlookup (mg_byID m) iid = Some r"
    "al_id a \<in> set (ir_alerts r)" "inc = ir_incident r" by (elim exE conjE)
  then show ?thesis using same(1) assms(3) by (simp add: Ingest_def)
next
  case (fold a d es iid r)
  let ?r' = "fold_alert L now a d es r"
  have "al_id a \<in> set (ir_alerts ?r')" by (simp add: fold_alert_def Let_def)
  moreover have "fmlookup (mg_byID m') iid = Some ?r'" "fmlookup (mg_byKey m') (correlationKey a es) = Some iid"
    using fold(2,5) by simp_all
  moreover have "inc = ir_incident ?r'" using fold(6) by simp
  ultimately show ?thesis using fold(1) assms(3) by (simp add: Ingest_def)
next
  case (create a d es)
  let ?key = "correlationKey a es"
  let ?r' = "new_record L now ?key a d es"
  have "al_id a \<in> set (ir_alerts ?r')" by (simp add: new_record_def Let_def)
  moreover have "fmlookup (mg_byID m') (incidentID ?key) = Some ?r'"
    "fmlookup (mg_byKey m') ?key = Some (incidentID ?key)"
    using create(3) by simp_all
  moreover have "inc = ir_incident ?r'" using create(4) by simp
  ultimately show ?thesis using create(1) assms(3) by (simp add: Ingest_def)
qed

theorem ingest_idempotent_witness:
  "Ingest example_pb 8 (Some (ex_alert ''a1'' SEVERITY_HIGH)) (Some ex_detection) [Some ex_event] ex_manager
     = (Ret (ir_incident (new_record example_pb 7 ''alert:a1'' (ex_alert ''a1'' SEVERITY_HIGH) ex_detection [ex_event]),
          False), ex_manager)"
proof -
  have inv: "manager_inv ex_manager" unfolding ex_manager_def by (intro i_run_inv) simp
  have n: "\<not> IsZero 8" "\<not> IsZero 9" by (simp_all add: IsZero_def zero_time_def)
  have "Ingest example_pb 9 (Some (ex_alert ''a1'' SEVERITY_HIGH)) (Some ex_detection) [Some ex_event] ex_manager
     = (Ret (ir_incident (new_record example_pb 7 ''alert:a1'' (ex_alert ''a1'' SEVERITY_HIGH) ex_detection [ex_event]),
          False), ex_manager)"
    using n by (simp add: ex_manager_state Ingest_def) (simp add: new_record_def ex_alert_def Let_def)
  from ingest_idempotent [OF inv this n(1)] show ?thesis .
qed

end
