(* ===== verification/Archive.thy ===== *)
theory Archive
  imports Prelude
begin

text \<open>
  The two contracts every store of the collector is built on. An \<open>archive\<close> keeps values
  under their own keys: an insert is accepted only for a new key, nothing accepted is ever
  replaced, and the listing is in key order. A \<open>lifecycle_store\<close> also replaces the value of
  a known key. The locales fix the operations a client calls and assume these laws; the
  lemmas proved from them hold for every store that interprets them.
\<close>

locale archive =
  fixes get :: "'s \<Rightarrow> 'k::linorder \<Rightarrow> 'v option"
    and accepts :: "'s \<Rightarrow> 'v \<Rightarrow> bool"
    and put :: "'s \<Rightarrow> 'v \<Rightarrow> 's"
    and entries :: "'s \<Rightarrow> 'v list"
    and key :: "'v \<Rightarrow> 'k"
    and ok :: "'s \<Rightarrow> bool"
  assumes get_put: "get (put s v) k = (if accepts s v \<and> k = key v then Some v else get s k)"
    and accepts_new: "accepts s v \<Longrightarrow> get s (key v) = None"
    and get_key: "ok s \<Longrightarrow> get s k = Some v \<Longrightarrow> key v = k"
    and ok_put: "ok s \<Longrightarrow> ok (put s v)"
    and entries_get: "set (entries s) = {v. \<exists>k. get s k = Some v}"
    and entries_order: "ok s \<Longrightarrow> sorted (map key (entries s)) \<and> distinct (map key (entries s))"
begin

text \<open>A sequence of inserts is a fold.\<close>

lemma ok_puts: "ok s \<Longrightarrow> ok (foldl put s vs)"
  by (induction vs arbitrary: s) (simp_all add: ok_put)

text \<open>First write wins: what is stored stays, whatever is inserted later.\<close>

lemma get_put_stable: "get s k = Some v \<Longrightarrow> get (put s w) k = Some v"
  using accepts_new [of s w] by (auto simp: get_put)

lemma get_puts_stable: "get s k = Some v \<Longrightarrow> get (foldl put s vs) k = Some v"
  by (induction vs arbitrary: s) (simp_all add: get_put_stable)

lemma entries_puts: "set (entries s) \<subseteq> set (entries (foldl put s vs))"
  using get_puts_stable unfolding entries_get by blast

text \<open>An accepted insert is readable, and the same key is never accepted again.\<close>

lemma accepted_get: "accepts s v \<Longrightarrow> get (foldl put (put s v) vs) (key v) = Some v"
  by (rule get_puts_stable) (simp add: get_put)

lemma accepted_once: "accepts s v \<Longrightarrow> key w = key v \<Longrightarrow> \<not> accepts (foldl put (put s v) vs) w"
  using accepted_get [of s v vs] accepts_new [of "foldl put (put s v) vs" w] by auto

lemma rejected_same: "\<not> accepts s v \<Longrightarrow> get (put s v) k = get s k"
  by (simp add: get_put)

text \<open>Nothing is stored that was not stored before or accepted since.\<close>

lemma get_puts_origin: "get (foldl put s vs) k = Some v \<Longrightarrow> get s k = Some v \<or> (v \<in> set vs \<and> key v = k)"
proof (induction vs arbitrary: s)
  case (Cons w ws)
  then have "get (put s w) k = Some v \<or> v \<in> set ws \<and> key v = k" by simp
  then show ?case by (auto simp: get_put split: if_splits)
qed simp

text \<open>The listing is determined by what can be read.\<close>

lemma entries_unique:
  assumes "ok s" and "ok t" and "get s = get t"
  shows "entries s = entries t"
proof -
  have "set (map key (entries s)) = set (map key (entries t))"
    using assms(3) by (simp add: entries_get)
  then have keys: "map key (entries s) = map key (entries t)"
    using entries_order [OF assms(1)] entries_order [OF assms(2)] by (auto intro: sorted_distinct_set_unique)
  have "v = w" if "v \<in> set (entries s)" "w \<in> set (entries t)" "key v = key w" for v w
  proof -
    obtain k l where k: "get s k = Some v" and l: "get t l = Some w"
      using \<open>v \<in> _\<close> \<open>w \<in> _\<close> unfolding entries_get by blast
    have "key v = k" "key w = l" using get_key [OF assms(1) k] get_key [OF assms(2) l] by simp_all
    then show ?thesis using k l \<open>key v = key w\<close> assms(3) by simp
  qed
  then have "inj_on key (set (entries s) \<union> set (entries t))"
    using entries_get assms(3) by (auto simp: inj_on_def)
  then show ?thesis using keys by (simp add: inj_on_map_eq_map)
qed

end

locale lifecycle_store = archive get accepts put entries key ok
  for get :: "'s \<Rightarrow> 'k::linorder \<Rightarrow> 'v option" and accepts put entries key ok +
  fixes save_accepts :: "'s \<Rightarrow> 'v \<Rightarrow> bool"
    and save :: "'s \<Rightarrow> 'v \<Rightarrow> 's"
  assumes get_save: "get (save s v) k = (if save_accepts s v \<and> k = key v then Some v else get s k)"
    and save_known: "save_accepts s v \<Longrightarrow> get s (key v) \<noteq> None"
    and ok_save: "ok s \<Longrightarrow> ok (save s v)"
begin

text \<open>Saving neither creates nor removes a key.\<close>

lemma save_keys: "get (save s v) k = None \<longleftrightarrow> get s k = None"
  using save_known [of s v] by (auto simp: get_save)

lemma saved_get: "save_accepts s v \<Longrightarrow> get (save s v) (key v) = Some v"
  by (simp add: get_save)

text \<open>No sequence of inserts and saves loses a key.\<close>

lemma ops_keep_keys:
  "get s k \<noteq> None \<Longrightarrow> get (foldl (\<lambda>s (is_save, v). if is_save then save s v else put s v) s ops) k \<noteq> None"
proof (induction ops arbitrary: s)
  case (Cons op ops)
  obtain b v where op: "op = (b, v)" by (cases op)
  have "get (save s v) k \<noteq> None" using Cons.prems save_keys by metis
  moreover have "get (put s v) k \<noteq> None" using Cons.prems get_put_stable by fastforce
  ultimately show ?case using Cons.IH by (simp add: op)
qed simp

end

subsection \<open>Finite maps\<close>

text \<open>
  Every map-backed store is one of these: the operations on a Go map keyed by a field of the
  value, as lemmas about finite maps.
\<close>

definition keyed :: "('v \<Rightarrow> string) \<Rightarrow> 'v gomap \<Rightarrow> bool" where
  "keyed key m \<longleftrightarrow> (\<forall>k v. fmlookup m k = Some v \<longrightarrow> key v = k)"

lemma keyed_empty [simp]: "keyed key fmempty"
  by (simp add: keyed_def)

lemma keyed_upd: "keyed key m \<Longrightarrow> keyed key (fmupd (key v) v m)"
  by (simp add: keyed_def)

lemma keyed_values: "keyed key m \<Longrightarrow> map key (values_sorted m) = sortedIDs m"
proof -
  assume "keyed key m"
  then have "key (the (fmlookup m k)) = k" if "k \<in> fmdom' m" for k
    using that by (auto simp: keyed_def fmlookup_dom'_iff)
  then have "map (\<lambda>k. key (the (fmlookup m k))) (sortedIDs m) = sortedIDs m"
    by (intro map_idI) simp
  then show ?thesis by (simp add: values_sorted_eq_map comp_def)
qed

end
