(* ===== verification/Memory.thy ===== *)
theory Memory
  imports Archive Boundary Response "HOL-Library.Sublist"
begin

text \<open>
  \<open>internal/store/memory.go\<close> and \<open>audit.go\<close>: the in-memory repositories behind the store
  interfaces. A repository is its Go map; every method runs under the repository's mutex, so
  each is one step. A method that writes returns the error, or nothing, with the new map.
  The clones handed in and out are values here.
\<close>

subsection \<open>The shape of the repositories\<close>

text \<open>
  The repositories repeat one body: validate, then refuse a duplicate or an unknown id, then
  write. \<open>append_item\<close>, \<open>save_item\<close>, \<open>get_item\<close> are that body with the validator, the
  key and the error text as arguments. (Every validator rejects the nil pointer, so the
  write only ever sees a value.)
\<close>

definition append_item ::
  "('v option \<Rightarrow> goerr) \<Rightarrow> ('v \<Rightarrow> string) \<Rightarrow> string \<Rightarrow> 'v option \<Rightarrow> 'v gomap \<Rightarrow> goerr \<times> 'v gomap" where
  "append_item check key what p items =
     (case check p of
        Some e \<Rightarrow> (Some (Wrap (Store ErrInvalid) e), items)
      | None \<Rightarrow>
         (case p of
            None \<Rightarrow> (None, items)
          | Some v \<Rightarrow>
              if fmlookup items (key v) \<noteq> None
                then (Some (Sent (Store ErrDuplicate) (what @ quote (key v))), items)
              else (None, fmupd (key v) v items)))"

definition save_item ::
  "('v option \<Rightarrow> goerr) \<Rightarrow> ('v \<Rightarrow> string) \<Rightarrow> string \<Rightarrow> 'v option \<Rightarrow> 'v gomap \<Rightarrow> goerr \<times> 'v gomap" where
  "save_item check key what p items =
     (case check p of
        Some e \<Rightarrow> (Some (Wrap (Store ErrInvalid) e), items)
      | None \<Rightarrow>
         (case p of
            None \<Rightarrow> (None, items)
          | Some v \<Rightarrow>
              if fmlookup items (key v) = None
                then (Some (Sent (Store ErrNotFound) (what @ quote (key v))), items)
              else (None, fmupd (key v) v items)))"

definition get_item :: "string \<Rightarrow> string \<Rightarrow> 'v gomap \<Rightarrow> 'v res" where
  "get_item what k items =
     (case fmlookup items k of
        None \<Rightarrow> Inl (Sent (Store ErrNotFound) (what @ quote k))
      | Some v \<Rightarrow> Inr v)"

text \<open>What a successful or failing insert means, and the listing.\<close>

definition done_ok :: "goerr \<times> 's \<Rightarrow> bool" where
  "done_ok r \<longleftrightarrow> fst r = None"

lemma append_item_lookup:
  "fmlookup (snd (append_item check key what (Some v) items)) k =
     (if done_ok (append_item check key what (Some v) items) \<and> k = key v then Some v else fmlookup items k)"
  by (auto simp: append_item_def done_ok_def split: option.splits)

lemma append_item_new: "done_ok (append_item check key what (Some v) items) \<Longrightarrow> fmlookup items (key v) = None"
  by (auto simp: append_item_def done_ok_def split: option.splits if_splits)

lemma append_item_keyed: "keyed key items \<Longrightarrow> keyed key (snd (append_item check key what (Some v) items))"
  by (auto simp: append_item_def keyed_upd split: option.splits)

lemma append_item_checked: "done_ok (append_item check key what (Some v) items) \<Longrightarrow> check (Some v) = None"
  by (auto simp: append_item_def done_ok_def split: option.splits)

lemma save_item_lookup:
  "fmlookup (snd (save_item check key what (Some v) items)) k =
     (if done_ok (save_item check key what (Some v) items) \<and> k = key v then Some v else fmlookup items k)"
  by (auto simp: save_item_def done_ok_def split: option.splits)

lemma save_item_known: "done_ok (save_item check key what (Some v) items) \<Longrightarrow> fmlookup items (key v) \<noteq> None"
  by (auto simp: save_item_def done_ok_def split: option.splits if_splits)

lemma save_item_keyed: "keyed key items \<Longrightarrow> keyed key (snd (save_item check key what (Some v) items))"
  by (auto simp: save_item_def keyed_upd split: option.splits)

text \<open>Every repository of this shape is an archive; with a save it is a lifecycle store.\<close>

lemma item_archive:
  "archive fmlookup (\<lambda>s v. done_ok (append_item check key what (Some v) s))
     (\<lambda>s v. snd (append_item check key what (Some v) s)) values_sorted key (keyed key)"
proof
  show "fmlookup items k = Some v \<Longrightarrow> key v = k" if "keyed key items" for items k v
    using that by (simp add: keyed_def)
qed (simp_all add: append_item_lookup append_item_new append_item_keyed keyed_values set_values_sorted)

lemma item_lifecycle_store:
  "lifecycle_store fmlookup (\<lambda>s v. done_ok (append_item check key what (Some v) s))
     (\<lambda>s v. snd (append_item check key what (Some v) s)) values_sorted key (keyed key)
     (\<lambda>s v. done_ok (save_item check key what2 (Some v) s))
     (\<lambda>s v. snd (save_item check key what2 (Some v) s))"
  by (intro lifecycle_store.intro item_archive lifecycle_store_axioms.intro)
    (simp_all add: save_item_lookup save_item_keyed save_item_known)

subsection \<open>Telemetry, detections, alerts, incidents, evidence, recommendations\<close>

definition memoryTelemetry_Append :: "pblib \<Rightarrow> TelemetryEvent option \<Rightarrow> TelemetryEvent gomap \<Rightarrow> goerr \<times> TelemetryEvent gomap" where
  "memoryTelemetry_Append L p items = append_item (ValidateTelemetryEvent L) te_id ''telemetry '' p items"

definition memoryTelemetry_Get :: "string \<Rightarrow> TelemetryEvent gomap \<Rightarrow> TelemetryEvent res" where
  "memoryTelemetry_Get k items = get_item ''telemetry '' k items"

definition memoryTelemetry_List :: "TelemetryEvent gomap \<Rightarrow> TelemetryEvent list" where
  "memoryTelemetry_List items = values_sorted items"

definition memoryDetection_Append :: "pblib \<Rightarrow> Detection option \<Rightarrow> Detection gomap \<Rightarrow> goerr \<times> Detection gomap" where
  "memoryDetection_Append L p items = append_item (ValidateDetection L) det_id ''detection '' p items"

definition memoryDetection_Get :: "string \<Rightarrow> Detection gomap \<Rightarrow> Detection res" where
  "memoryDetection_Get k items = get_item ''detection '' k items"

definition memoryDetection_List :: "Detection gomap \<Rightarrow> Detection list" where
  "memoryDetection_List items = values_sorted items"

definition memoryAlert_Append :: "pblib \<Rightarrow> Alert option \<Rightarrow> Alert gomap \<Rightarrow> goerr \<times> Alert gomap" where
  "memoryAlert_Append L p items = append_item (ValidateAlert L) al_id ''alert '' p items"

definition memoryAlert_Get :: "string \<Rightarrow> Alert gomap \<Rightarrow> Alert res" where
  "memoryAlert_Get k items = get_item ''alert '' k items"

definition memoryAlert_List :: "Alert gomap \<Rightarrow> Alert list" where
  "memoryAlert_List items = values_sorted items"

definition memoryIncident_Create :: "pblib \<Rightarrow> Incident option \<Rightarrow> Incident gomap \<Rightarrow> goerr \<times> Incident gomap" where
  "memoryIncident_Create L p items = append_item (ValidateIncident L) inc_id ''incident '' p items"

definition memoryIncident_Save :: "pblib \<Rightarrow> Incident option \<Rightarrow> Incident gomap \<Rightarrow> goerr \<times> Incident gomap" where
  "memoryIncident_Save L p items = save_item (ValidateIncident L) inc_id ''incident '' p items"

definition memoryIncident_Get :: "string \<Rightarrow> Incident gomap \<Rightarrow> Incident res" where
  "memoryIncident_Get k items = get_item ''incident '' k items"

definition memoryIncident_List :: "Incident gomap \<Rightarrow> Incident list" where
  "memoryIncident_List items = values_sorted items"

definition memoryEvidence_Append :: "pblib \<Rightarrow> Evidence option \<Rightarrow> Evidence gomap \<Rightarrow> goerr \<times> Evidence gomap" where
  "memoryEvidence_Append L p items = append_item (ValidateEvidence L) ev_id ''evidence '' p items"

definition memoryEvidence_Get :: "string \<Rightarrow> Evidence gomap \<Rightarrow> Evidence res" where
  "memoryEvidence_Get k items = get_item ''evidence '' k items"

definition memoryEvidence_List :: "Evidence gomap \<Rightarrow> Evidence list" where
  "memoryEvidence_List items = values_sorted items"

definition memoryResponse_Create :: "pblib \<Rightarrow> Recommendation option \<Rightarrow> Recommendation gomap \<Rightarrow> goerr \<times> Recommendation gomap" where
  "memoryResponse_Create L p items = append_item (ValidateResponseRecommendation L) rec_id ''recommendation '' p items"

definition memoryResponse_Save :: "pblib \<Rightarrow> Recommendation option \<Rightarrow> Recommendation gomap \<Rightarrow> goerr \<times> Recommendation gomap" where
  "memoryResponse_Save L p items = save_item (ValidateResponseRecommendation L) rec_id ''recommendation '' p items"

definition memoryResponse_Get :: "string \<Rightarrow> Recommendation gomap \<Rightarrow> Recommendation res" where
  "memoryResponse_Get k items = get_item ''recommendation '' k items"

definition memoryResponse_List :: "Recommendation gomap \<Rightarrow> Recommendation list" where
  "memoryResponse_List items = values_sorted items"

definition memoryEvidence_ListByIncident :: "string \<Rightarrow> Evidence gomap \<Rightarrow> Evidence list" where
  "memoryEvidence_ListByIncident incidentID items =
     filter (\<lambda>e. ev_incident_id e = incidentID) (values_sorted items)"

subsection \<open>Response records and validation\<close>

text \<open>These repositories hold several maps; each method works on one of them.\<close>

record memoryResponseRecords =
  rr_approvals :: "Approval gomap"
  rr_executions :: "Execution gomap"
  rr_verifications :: "Verification gomap"

record memoryValidation =
  mv_requests :: "ValidationRequest gomap"
  mv_results :: "ValidationResult gomap"

definition memoryResponseRecords_AppendApproval :: "pblib \<Rightarrow> Approval option \<Rightarrow> memoryResponseRecords \<Rightarrow> goerr \<times> memoryResponseRecords" where
  "memoryResponseRecords_AppendApproval L p r =
     (case append_item (ValidateResponseApproval L) ap_id ''approval '' p (rr_approvals r) of (e, m) \<Rightarrow> (e, r\<lparr>rr_approvals := m\<rparr>))"

definition memoryResponseRecords_GetApproval :: "string \<Rightarrow> memoryResponseRecords \<Rightarrow> Approval res" where
  "memoryResponseRecords_GetApproval k r = get_item ''approval '' k (rr_approvals r)"

definition memoryResponseRecords_ListApprovals :: "memoryResponseRecords \<Rightarrow> Approval list" where
  "memoryResponseRecords_ListApprovals r = values_sorted (rr_approvals r)"

definition memoryResponseRecords_AppendExecution :: "pblib \<Rightarrow> Execution option \<Rightarrow> memoryResponseRecords \<Rightarrow> goerr \<times> memoryResponseRecords" where
  "memoryResponseRecords_AppendExecution L p r =
     (case append_item (ValidateResponseExecution L) ex_id ''execution '' p (rr_executions r) of (e, m) \<Rightarrow> (e, r\<lparr>rr_executions := m\<rparr>))"

definition memoryResponseRecords_GetExecution :: "string \<Rightarrow> memoryResponseRecords \<Rightarrow> Execution res" where
  "memoryResponseRecords_GetExecution k r = get_item ''execution '' k (rr_executions r)"

definition memoryResponseRecords_ListExecutions :: "memoryResponseRecords \<Rightarrow> Execution list" where
  "memoryResponseRecords_ListExecutions r = values_sorted (rr_executions r)"

definition memoryResponseRecords_AppendVerification :: "pblib \<Rightarrow> Verification option \<Rightarrow> memoryResponseRecords \<Rightarrow> goerr \<times> memoryResponseRecords" where
  "memoryResponseRecords_AppendVerification L p r =
     (case append_item (ValidateResponseVerification L) ver_id ''verification '' p (rr_verifications r) of (e, m) \<Rightarrow> (e, r\<lparr>rr_verifications := m\<rparr>))"

definition memoryResponseRecords_GetVerification :: "string \<Rightarrow> memoryResponseRecords \<Rightarrow> Verification res" where
  "memoryResponseRecords_GetVerification k r = get_item ''verification '' k (rr_verifications r)"

definition memoryResponseRecords_ListVerifications :: "memoryResponseRecords \<Rightarrow> Verification list" where
  "memoryResponseRecords_ListVerifications r = values_sorted (rr_verifications r)"

definition memoryValidation_AppendRequest :: "pblib \<Rightarrow> ValidationRequest option \<Rightarrow> memoryValidation \<Rightarrow> goerr \<times> memoryValidation" where
  "memoryValidation_AppendRequest L p r =
     (case append_item (ValidateValidationRequest L) vq_id ''validation request '' p (mv_requests r) of (e, m) \<Rightarrow> (e, r\<lparr>mv_requests := m\<rparr>))"

definition memoryValidation_GetRequest :: "string \<Rightarrow> memoryValidation \<Rightarrow> ValidationRequest res" where
  "memoryValidation_GetRequest k r = get_item ''validation request '' k (mv_requests r)"

definition memoryValidation_AppendResult :: "pblib \<Rightarrow> ValidationResult option \<Rightarrow> memoryValidation \<Rightarrow> goerr \<times> memoryValidation" where
  "memoryValidation_AppendResult L p r =
     (case append_item (ValidateValidationResult L) vr_id ''validation result '' p (mv_results r) of (e, m) \<Rightarrow> (e, r\<lparr>mv_results := m\<rparr>))"

definition memoryValidation_GetResult :: "string \<Rightarrow> memoryValidation \<Rightarrow> ValidationResult res" where
  "memoryValidation_GetResult k r = get_item ''validation result '' k (mv_results r)"

definition memoryValidation_ListResults :: "memoryValidation \<Rightarrow> ValidationResult list" where
  "memoryValidation_ListResults r = values_sorted (mv_results r)"

subsection \<open>Audit\<close>

text \<open>\<open>store.AuditEntry\<close> (\<open>store/audit.go\<close>): the archived form of a response audit entry.\<close>

record ArchivedEntry =
  ae_ID :: string
  ae_DecidedAt :: gotime
  ae_Actor :: string
  ae_Operation :: enum
  ae_Risk :: enum
  ae_Decision :: string
  ae_Reason :: string
  ae_Result :: string
  ae_ResponseID :: string
  ae_Phase :: string

definition AuditEntry_Validate :: "ArchivedEntry \<Rightarrow> goerr" where
  "AuditEntry_Validate e = first_err [
     fail_if (ae_ID e = []) (Sent (Store ErrInvalid) ''audit id empty''),
     fail_if (IsZero (ae_DecidedAt e)) (Sent (Store ErrInvalid) ''audit timestamp zero''),
     fail_if (ae_Actor e = []) (Sent (Store ErrInvalid) ''audit actor empty''),
     fail_if (\<not> OperationType_known (ae_Operation e) \<or> ae_Operation e = 0)
       (Sent (Store ErrInvalid) ''audit operation''),
     fail_if (\<not> RiskLevel_known (ae_Risk e) \<or> ae_Risk e = 0) (Sent (Store ErrInvalid) ''audit risk''),
     fail_if (ae_Decision e = []) (Sent (Store ErrInvalid) ''audit decision empty'')]"

definition AuditFromResponse :: "pblib \<Rightarrow> AuditEntry \<Rightarrow> ArchivedEntry res" where
  "AuditFromResponse L a =
     (case au_decided_at a of
        None \<Rightarrow> Inl (Sent (Store ErrInvalid) ''audit timestamp missing'')
      | Some t \<Rightarrow>
         (let e = \<lparr> ae_ID = au_id a, ae_DecidedAt = ts_AsTime L t, ae_Actor = au_actor a,
                    ae_Operation = au_operation a, ae_Risk = au_risk a,
                    ae_Decision = AuditDecision_string (au_decision a), ae_Reason = au_reason a,
                    ae_Result = au_result a, ae_ResponseID = au_response_id a, ae_Phase = au_phase a \<rparr>
          in case AuditEntry_Validate e of Some x \<Rightarrow> Inl x | None \<Rightarrow> Inr e))"

record memoryAudit =
  ma_entries :: "ArchivedEntry list"
  ma_byID :: "ArchivedEntry gomap"

definition memoryAudit_Append :: "ArchivedEntry \<Rightarrow> memoryAudit \<Rightarrow> goerr \<times> memoryAudit" where
  "memoryAudit_Append e r =
     (case AuditEntry_Validate e of
        Some x \<Rightarrow> (Some x, r)
      | None \<Rightarrow>
          if fmlookup (ma_byID r) (ae_ID e) \<noteq> None
            then (Some (Sent (Store ErrDuplicate) (''audit '' @ quote (ae_ID e))), r)
          else (None, r\<lparr>ma_byID := fmupd (ae_ID e) e (ma_byID r), ma_entries := ma_entries r @ [e]\<rparr>))"

definition memoryAudit_Get :: "string \<Rightarrow> memoryAudit \<Rightarrow> ArchivedEntry res" where
  "memoryAudit_Get k r = get_item ''audit '' k (ma_byID r)"

definition memoryAudit_List :: "memoryAudit \<Rightarrow> ArchivedEntry list" where
  "memoryAudit_List r = ma_entries r"

definition audit_empty :: memoryAudit where
  "audit_empty = \<lparr>ma_entries = [], ma_byID = fmempty\<rparr>"

subsection \<open>The repositories meet their contracts\<close>

interpretation telemetry: archive fmlookup
  "\<lambda>s v. done_ok (memoryTelemetry_Append L (Some v) s)" "\<lambda>s v. snd (memoryTelemetry_Append L (Some v) s)"
  memoryTelemetry_List te_id "keyed te_id" for L :: pblib
  unfolding memoryTelemetry_Append_def memoryTelemetry_List_def by (rule item_archive)

interpretation detections: archive fmlookup
  "\<lambda>s v. done_ok (memoryDetection_Append L (Some v) s)" "\<lambda>s v. snd (memoryDetection_Append L (Some v) s)"
  memoryDetection_List det_id "keyed det_id" for L :: pblib
  unfolding memoryDetection_Append_def memoryDetection_List_def by (rule item_archive)

interpretation alerts: archive fmlookup
  "\<lambda>s v. done_ok (memoryAlert_Append L (Some v) s)" "\<lambda>s v. snd (memoryAlert_Append L (Some v) s)"
  memoryAlert_List al_id "keyed al_id" for L :: pblib
  unfolding memoryAlert_Append_def memoryAlert_List_def by (rule item_archive)

interpretation incidents: lifecycle_store fmlookup
  "\<lambda>s v. done_ok (memoryIncident_Create L (Some v) s)" "\<lambda>s v. snd (memoryIncident_Create L (Some v) s)"
  memoryIncident_List inc_id "keyed inc_id"
  "\<lambda>s v. done_ok (memoryIncident_Save L (Some v) s)" "\<lambda>s v. snd (memoryIncident_Save L (Some v) s)" for L :: pblib
  unfolding memoryIncident_Create_def memoryIncident_Save_def memoryIncident_List_def by (rule item_lifecycle_store)

interpretation evidence_items: archive fmlookup
  "\<lambda>s v. done_ok (memoryEvidence_Append L (Some v) s)" "\<lambda>s v. snd (memoryEvidence_Append L (Some v) s)"
  memoryEvidence_List ev_id "keyed ev_id" for L :: pblib
  unfolding memoryEvidence_Append_def memoryEvidence_List_def by (rule item_archive)

interpretation recommendations: lifecycle_store fmlookup
  "\<lambda>s v. done_ok (memoryResponse_Create L (Some v) s)" "\<lambda>s v. snd (memoryResponse_Create L (Some v) s)"
  memoryResponse_List rec_id "keyed rec_id"
  "\<lambda>s v. done_ok (memoryResponse_Save L (Some v) s)" "\<lambda>s v. snd (memoryResponse_Save L (Some v) s)" for L :: pblib
  unfolding memoryResponse_Create_def memoryResponse_Save_def memoryResponse_List_def by (rule item_lifecycle_store)

text \<open>The maps of the composite repositories, one archive each.\<close>

lemma part_archive:
  assumes "\<And>r m. sel (upd m r) = m"
    and "\<And>v r. ins v r = (let a = append_item check key what (Some v) (sel r) in (fst a, upd (snd a) r))"
  shows "archive (\<lambda>r. fmlookup (sel r)) (\<lambda>r v. done_ok (ins v r)) (\<lambda>r v. snd (ins v r))
    (\<lambda>r. values_sorted (sel r)) key (\<lambda>r. keyed key (sel r))"
proof
  show "fmlookup (sel r) k = Some v \<Longrightarrow> key v = k" if "keyed key (sel r)" for r k v
    using that by (simp add: keyed_def)
qed (simp_all add: assms Let_def done_ok_def append_item_lookup [unfolded done_ok_def]
    append_item_new [unfolded done_ok_def] append_item_keyed keyed_values set_values_sorted)

interpretation approvals: archive "\<lambda>r. fmlookup (rr_approvals r)"
  "\<lambda>r v. done_ok (memoryResponseRecords_AppendApproval L (Some v) r)" "\<lambda>r v. snd (memoryResponseRecords_AppendApproval L (Some v) r)"
  memoryResponseRecords_ListApprovals ap_id "\<lambda>r. keyed ap_id (rr_approvals r)" for L :: pblib
  unfolding memoryResponseRecords_AppendApproval_def memoryResponseRecords_ListApprovals_def
  by (rule part_archive) (simp_all add: split_beta Let_def)

interpretation executions: archive "\<lambda>r. fmlookup (rr_executions r)"
  "\<lambda>r v. done_ok (memoryResponseRecords_AppendExecution L (Some v) r)" "\<lambda>r v. snd (memoryResponseRecords_AppendExecution L (Some v) r)"
  memoryResponseRecords_ListExecutions ex_id "\<lambda>r. keyed ex_id (rr_executions r)" for L :: pblib
  unfolding memoryResponseRecords_AppendExecution_def memoryResponseRecords_ListExecutions_def
  by (rule part_archive) (simp_all add: split_beta Let_def)

interpretation verifications: archive "\<lambda>r. fmlookup (rr_verifications r)"
  "\<lambda>r v. done_ok (memoryResponseRecords_AppendVerification L (Some v) r)" "\<lambda>r v. snd (memoryResponseRecords_AppendVerification L (Some v) r)"
  memoryResponseRecords_ListVerifications ver_id "\<lambda>r. keyed ver_id (rr_verifications r)" for L :: pblib
  unfolding memoryResponseRecords_AppendVerification_def memoryResponseRecords_ListVerifications_def
  by (rule part_archive) (simp_all add: split_beta Let_def)

interpretation results: archive "\<lambda>r. fmlookup (mv_results r)"
  "\<lambda>r v. done_ok (memoryValidation_AppendResult L (Some v) r)" "\<lambda>r v. snd (memoryValidation_AppendResult L (Some v) r)"
  memoryValidation_ListResults vr_id "\<lambda>r. keyed vr_id (mv_results r)" for L :: pblib
  unfolding memoryValidation_AppendResult_def memoryValidation_ListResults_def
  by (rule part_archive) (simp_all add: split_beta Let_def)

interpretation requests: archive "\<lambda>r. fmlookup (mv_requests r)"
  "\<lambda>r v. done_ok (memoryValidation_AppendRequest L (Some v) r)"
  "\<lambda>r v. snd (memoryValidation_AppendRequest L (Some v) r)"
  "\<lambda>r. values_sorted (mv_requests r)" vq_id "\<lambda>r. keyed vq_id (mv_requests r)" for L :: pblib
  unfolding memoryValidation_AppendRequest_def by (rule part_archive) (simp_all add: split_beta Let_def)

text \<open>
  The audit repository: the list and the map hold the same entries. As an archive its
  listing is the sorted one of the map; the code lists in insertion order instead.
\<close>

definition audit_ok :: "memoryAudit \<Rightarrow> bool" where
  "audit_ok r \<longleftrightarrow> keyed ae_ID (ma_byID r) \<and> distinct (map ae_ID (ma_entries r)) \<and>
     set (ma_entries r) = {e. \<exists>k. fmlookup (ma_byID r) k = Some e} \<and>
     (\<forall>e \<in> set (ma_entries r). AuditEntry_Validate e = None)"

lemma audit_ok_empty [simp]: "audit_ok audit_empty"
  by (simp add: audit_ok_def audit_empty_def)

lemma audit_append_ok:
  assumes "audit_ok r"
  shows "audit_ok (snd (memoryAudit_Append e r))"
proof (cases "AuditEntry_Validate e = None \<and> fmlookup (ma_byID r) (ae_ID e) = None")
  case False
  then show ?thesis using assms by (auto simp: memoryAudit_Append_def split: option.splits)
next
  case True
  then have "snd (memoryAudit_Append e r) = r\<lparr>ma_byID := fmupd (ae_ID e) e (ma_byID r), ma_entries := ma_entries r @ [e]\<rparr>"
    by (simp add: memoryAudit_Append_def)
  moreover have "{x. \<exists>k. fmlookup (fmupd (ae_ID e) e (ma_byID r)) k = Some x} =
      insert e {x. \<exists>k. fmlookup (ma_byID r) k = Some x}"
    using True by (auto split: if_splits) (metis option.distinct(1))
  moreover have "ae_ID e \<notin> ae_ID ` set (ma_entries r)"
    using assms True by (auto simp: audit_ok_def keyed_def)
  ultimately show ?thesis using assms True by (auto simp: audit_ok_def keyed_upd)
qed

interpretation audit_entries: archive "\<lambda>r. fmlookup (ma_byID r)"
  "\<lambda>r e. done_ok (memoryAudit_Append e r)" "\<lambda>r e. snd (memoryAudit_Append e r)"
  "\<lambda>r. values_sorted (ma_byID r)" ae_ID "\<lambda>r. keyed ae_ID (ma_byID r)"
proof
  show "fmlookup (ma_byID r) k = Some v \<Longrightarrow> ae_ID v = k" if "keyed ae_ID (ma_byID r)" for r k v
    using that by (simp add: keyed_def)
  show "fmlookup (ma_byID (snd (memoryAudit_Append v s))) k =
    (if done_ok (memoryAudit_Append v s) \<and> k = ae_ID v then Some v else fmlookup (ma_byID s) k)" for s v k
    by (simp add: memoryAudit_Append_def done_ok_def split: option.split)
  show "fmlookup (ma_byID s) (ae_ID v) = None" if "done_ok (memoryAudit_Append v s)" for s v
    using that by (simp add: memoryAudit_Append_def done_ok_def split: option.splits if_splits)
  show "keyed ae_ID (ma_byID (snd (memoryAudit_Append v s)))" if "keyed ae_ID (ma_byID s)" for s v
    using that by (simp add: memoryAudit_Append_def keyed_upd split: option.split)
qed (simp_all add: keyed_values set_values_sorted)

subsection \<open>The properties\<close>

text \<open>
  C10. Evidence is immutable: an item the evidence repository accepted is contract-valid, reads
  back unchanged after any further appends, is listed under its incident, and its id is
  never accepted again, whatever the content.
\<close>

theorem evidence_immutable:
  assumes "memoryEvidence_Append L (Some e) items = (None, items1)"
    and "items2 = foldl (\<lambda>s v. snd (memoryEvidence_Append L (Some v) s)) items1 later"
  shows "ValidateEvidence L (Some e) = None \<and> memoryEvidence_Get (ev_id e) items2 = Inr e \<and>
    e \<in> set (memoryEvidence_ListByIncident (ev_incident_id e) items2) \<and>
    (\<forall>e'. ev_id e' = ev_id e \<longrightarrow> fst (memoryEvidence_Append L (Some e') items2) \<noteq> None)"
proof -
  have ok: "done_ok (memoryEvidence_Append L (Some e) items)" using assms(1) by (simp add: done_ok_def)
  have i1: "items1 = snd (memoryEvidence_Append L (Some e) items)" using assms(1) by simp
  have get: "fmlookup items2 (ev_id e) = Some e"
    using evidence_items.accepted_get [OF ok] assms(2) i1 by simp
  have again: "\<not> done_ok (memoryEvidence_Append L (Some e') items2)" if "ev_id e' = ev_id e" for e'
    using evidence_items.accepted_once [OF ok that] assms(2) i1 by simp
  have "ValidateEvidence L (Some e) = None"
    using ok append_item_checked [of "ValidateEvidence L"] by (simp add: memoryEvidence_Append_def)
  then show ?thesis using get again
    by (auto simp: memoryEvidence_Get_def get_item_def memoryEvidence_ListByIncident_def set_values_sorted done_ok_def)
qed

definition ex_item :: Evidence where
  "ex_item = \<lparr>ev_id = ''ev-1'', ev_incident_id = ''inc-1'', ev_type = EVIDENCE_TYPE_NOTE,
     ev_collected_at = Some (Timestamp 5 0), ev_source = ''s'', ev_media_type = ''application/json'',
     ev_sha256 = [], ev_content = ''{}''\<rparr>"

lemma ex_item_valid: "ValidateEvidence example_pb (Some ex_item) = None"
  by (simp add: ValidateEvidence_def ex_item_def boundary EvidenceType_known_def bad_sha256_def example_pb_def)

theorem evidence_immutable_witness:
  "memoryEvidence_Get ''ev-1'' (foldl (\<lambda>s v. snd (memoryEvidence_Append example_pb (Some v) s))
      (fmupd ''ev-1'' ex_item fmempty) [ex_item\<lparr>ev_content := ''forged''\<rparr>]) = Inr ex_item"
proof -
  have "memoryEvidence_Append example_pb (Some ex_item) fmempty = (None, fmupd ''ev-1'' ex_item fmempty)"
    using ex_item_valid by (simp add: memoryEvidence_Append_def append_item_def) (simp add: ex_item_def)
  moreover have "ev_id ex_item = ''ev-1''" by (simp add: ex_item_def)
  ultimately show ?thesis
    using evidence_immutable [OF _ refl, of example_pb ex_item fmempty _ "[ex_item\<lparr>ev_content := ''forged''\<rparr>]"]
    by metis
qed

text \<open>
  The audit repository is append-only: from an empty repository any sequence of appends
  leaves the accepted entries in the order they came, each valid, no id twice, and every
  listed entry can be read by its id.
\<close>

theorem audit_archive_append_only:
  fixes es :: "ArchivedEntry list"
  defines "r \<equiv> foldl (\<lambda>r e. snd (memoryAudit_Append e r)) audit_empty es"
  shows "distinct (map ae_ID (memoryAudit_List r)) \<and> subseq (memoryAudit_List r) es \<and>
    (\<forall>e \<in> set (memoryAudit_List r). AuditEntry_Validate e = None \<and> memoryAudit_Get (ae_ID e) r = Inr e) \<and>
    (\<forall>e. \<exists>t. memoryAudit_List (snd (memoryAudit_Append e r)) = memoryAudit_List r @ t)"
proof -
  have "audit_ok (foldl (\<lambda>r e. snd (memoryAudit_Append e r)) r0 es)" if "audit_ok r0" for r0
    using that by (induction es arbitrary: r0) (simp_all add: audit_append_ok)
  then have ok: "audit_ok r" by (simp add: r_def)
  have step: "\<exists>t. ma_entries (snd (memoryAudit_Append e r0)) = ma_entries r0 @ t \<and> (t = [] \<or> t = [e])" for e r0
    by (auto simp: memoryAudit_Append_def split: option.splits)
  have "\<exists>t. ma_entries (foldl (\<lambda>r e. snd (memoryAudit_Append e r)) r0 es) = ma_entries r0 @ t \<and> subseq t es" for r0
  proof (induction es arbitrary: r0)
    case (Cons e es)
    obtain t where t: "ma_entries (snd (memoryAudit_Append e r0)) = ma_entries r0 @ t" "t = [] \<or> t = [e]"
      using step by blast
    obtain u where "ma_entries (foldl (\<lambda>r e. snd (memoryAudit_Append e r)) (snd (memoryAudit_Append e r0)) es)
        = ma_entries (snd (memoryAudit_Append e r0)) @ u" "subseq u es"
      using Cons.IH by blast
    then show ?case using t by (intro exI [of _ "t @ u"]) auto
  qed simp
  from this [of audit_empty] have sub: "subseq (ma_entries r) es" by (auto simp: r_def audit_empty_def)
  have get: "memoryAudit_Get (ae_ID e) r = Inr e" if "e \<in> set (ma_entries r)" for e
    using ok that by (auto simp: audit_ok_def keyed_def memoryAudit_Get_def get_item_def)
  have "\<exists>t. ma_entries (snd (memoryAudit_Append e r)) = ma_entries r @ t" for e
    using step [of e r] by blast
  then show ?thesis using ok sub get by (simp add: memoryAudit_List_def audit_ok_def)
qed

definition ex_entry :: "string \<Rightarrow> ArchivedEntry" where
  "ex_entry k = \<lparr>ae_ID = k, ae_DecidedAt = 5, ae_Actor = ''op'', ae_Operation = OP_OBSERVE, ae_Risk = RISK_LOW,
     ae_Decision = ''allowed'', ae_Reason = [], ae_Result = [], ae_ResponseID = [], ae_Phase = []\<rparr>"

theorem audit_archive_append_only_witness:
  "memoryAudit_Get ''audit-1'' (foldl (\<lambda>r e. snd (memoryAudit_Append e r)) audit_empty
     [ex_entry ''audit-1'', ex_entry ''audit-2'', ex_entry ''audit-1'']) = Inr (ex_entry ''audit-1'')"
proof -
  have "AuditEntry_Validate (ex_entry k) = None" if "k \<noteq> []" for k
    using that by (simp add: AuditEntry_Validate_def ex_entry_def OperationType_known_def RiskLevel_known_def
        IsZero_def zero_time_def)
  then have "ex_entry ''audit-1'' \<in> set (memoryAudit_List (foldl (\<lambda>r e. snd (memoryAudit_Append e r)) audit_empty
     [ex_entry ''audit-1'', ex_entry ''audit-2'', ex_entry ''audit-1'']))"
    by (simp add: memoryAudit_List_def memoryAudit_Append_def audit_empty_def)
  moreover have "ae_ID (ex_entry ''audit-1'') = ''audit-1''" by (simp add: ex_entry_def)
  ultimately show ?thesis
    using audit_archive_append_only [of "[ex_entry ''audit-1'', ex_entry ''audit-2'', ex_entry ''audit-1'']"]
    by metis
qed

text \<open>
  Saving an incident never creates or loses one: whatever mix of creates and saves is
  applied, a stored incident id stays readable, and an accepted save is read back.
\<close>

theorem incident_store_keeps_ids:
  assumes "memoryIncident_Get k items = Inr i"
  shows "(\<exists>i'. memoryIncident_Get k (foldl (\<lambda>s (is_save, v).
        if is_save then snd (memoryIncident_Save L (Some v) s) else snd (memoryIncident_Create L (Some v) s))
        items ops) = Inr i') \<and>
    (\<forall>v. fst (memoryIncident_Save L (Some v) items) = None \<longrightarrow>
       memoryIncident_Get (inc_id v) (snd (memoryIncident_Save L (Some v) items)) = Inr v) \<and>
    (\<forall>v. fst (memoryIncident_Create L (Some v) items) = None \<longrightarrow> inc_id v \<noteq> k)"
proof -
  have k: "fmlookup items k \<noteq> None" using assms by (auto simp: memoryIncident_Get_def get_item_def split: option.splits)
  then have "fmlookup (foldl (\<lambda>s (is_save, v). if is_save then snd (memoryIncident_Save L (Some v) s)
      else snd (memoryIncident_Create L (Some v) s)) items ops) k \<noteq> None"
    by (rule incidents.ops_keep_keys)
  moreover have "fmlookup (snd (memoryIncident_Save L (Some v) items)) (inc_id v) = Some v"
    if "fst (memoryIncident_Save L (Some v) items) = None" for v
    using incidents.saved_get [where s = items and v = v and L = L] that by (simp add: done_ok_def)
  moreover have "inc_id v \<noteq> k" if "fst (memoryIncident_Create L (Some v) items) = None" for v
    using incidents.accepts_new [where s = items and v = v and L = L] that k by (auto simp: done_ok_def)
  ultimately show ?thesis by (auto simp: memoryIncident_Get_def get_item_def split: option.splits)
qed

definition ex_incident :: Incident where
  "ex_incident = \<lparr>inc_id = ''inc-1'', inc_alert_ids = [''a1''], inc_status = INCIDENT_STATUS_OPEN,
     inc_severity = SEVERITY_HIGH, inc_created_at = Some (Timestamp 5 0), inc_updated_at = Some (Timestamp 5 0),
     inc_title = ''t'', inc_summary = []\<rparr>"

theorem incident_store_keeps_ids_witness:
  "memoryIncident_Get ''inc-1'' (fmupd ''inc-1'' ex_incident fmempty) = Inr ex_incident \<and>
   fst (memoryIncident_Create example_pb (Some ex_incident) (fmupd ''inc-1'' ex_incident fmempty)) \<noteq> None"
proof -
  have g: "memoryIncident_Get ''inc-1'' (fmupd ''inc-1'' ex_incident fmempty) = Inr ex_incident"
    by (simp add: memoryIncident_Get_def get_item_def)
  from incident_store_keeps_ids [OF g, of example_pb "[]"] g show ?thesis by (auto simp: ex_incident_def)
qed

end
