(* ===== verification/EvidenceStore.thy ===== *)
theory EvidenceStore
  imports Archive Boundary Sha256
begin

text \<open>
  \<open>internal/evidence\<close>: evidence items with deterministic ids and content digests, the
  capture of one evidence set per alert, and the in-memory evidence store. The canonical
  serialization (\<open>contract.MarshalCanonical\<close>, which calls \<open>protojson\<close>) is not part of the
  repository: a \<open>codec\<close> is an argument of the definitions that use it.
\<close>

subsection \<open>Items\<close>

record codec =
  cj_event :: "TelemetryEvent \<Rightarrow> string res"
  cj_detection :: "Detection \<Rightarrow> string res"
  cj_alert :: "Alert \<Rightarrow> string res"

definition SourceDetection :: string where "SourceDetection = ''blueveil-detect''"
definition SourceAlert :: string where "SourceAlert = ''blueveil-detect''"
definition MediaJSON :: string where "MediaJSON = ''application/json''"

definition digest :: "string \<Rightarrow> string" where
  "digest content = sha256_hex content"

definition Verify :: "Evidence option \<Rightarrow> bool" where
  "Verify p =
     (case p of None \<Rightarrow> False
      | Some e \<Rightarrow> if ev_sha256 e = [] then False else digest (ev_content e) = ev_sha256 e)"

definition evidenceID :: "string \<Rightarrow> string \<Rightarrow> string \<Rightarrow> string" where
  "evidenceID incidentID kind refID =
     ''ev-'' @ id16 (''blueveil-evidence-v1'' @ US @ incidentID @ US @ kind @ US @ refID)"

definition NewItem ::
  "pblib \<Rightarrow> string \<Rightarrow> string \<Rightarrow> string \<Rightarrow> enum \<Rightarrow> string \<Rightarrow> string \<Rightarrow> gotime \<Rightarrow> Evidence res" where
  "NewItem L incidentID kind refID typ source content now =
     (if incidentID = [] \<or> kind = [] \<or> refID = [] then Inl (Plain ''evidence identity is incomplete'')
      else if IsZero now then Inl (Plain ''collection timestamp is zero'')
      else
        (let e = \<lparr> ev_id = evidenceID incidentID kind refID, ev_incident_id = incidentID, ev_type = typ,
                   ev_collected_at = Some (ts_New L now), ev_source = source, ev_media_type = MediaJSON,
                   ev_sha256 = digest content, ev_content = content \<rparr>
         in case ValidateEvidence L (Some e) of Some x \<Rightarrow> Inl x | None \<Rightarrow> Inr e))"

subsection \<open>Capture (\<open>BuildForAlert\<close>)\<close>

text \<open>The contributing events by id: nil and invalid events are errors, a later event wins.\<close>

fun events_byID :: "pblib \<Rightarrow> TelemetryEvent option list \<Rightarrow> TelemetryEvent gomap \<Rightarrow> TelemetryEvent gomap res" where
  "events_byID L [] m = Inr m"
| "events_byID L (None # es) m = Inl (Sent (Incident ErrEvidenceBuild) ''nil contributing event'')"
| "events_byID L (Some e # es) m =
     (case ValidateTelemetryEvent L (Some e) of
        Some x \<Rightarrow> Inl (Wrap (Incident ErrEvidenceBuild) x)
      | None \<Rightarrow> events_byID L es (fmupd (te_id e) e m))"

text \<open>\<open>mk\<close>: an item with its errors wrapped; a serialization error keeps its text only (\<open>%v\<close>).\<close>

definition mk_item ::
  "pblib \<Rightarrow> string \<Rightarrow> gotime \<Rightarrow> string \<Rightarrow> string \<Rightarrow> enum \<Rightarrow> string \<Rightarrow> string res \<Rightarrow> Evidence res" where
  "mk_item L incidentID now kind refID typ source serialized =
     (case serialized of
        Inl x \<Rightarrow> Inl (Sent (Incident ErrEvidenceBuild) (''serialize: '' @ err_Error x))
      | Inr content \<Rightarrow>
         (case NewItem L incidentID kind refID typ source content now of
            Inl x \<Rightarrow> Inl (Wrap (Incident ErrEvidenceBuild) x)
          | Inr e \<Rightarrow> Inr e))"

fun event_items ::
  "pblib \<Rightarrow> codec \<Rightarrow> string \<Rightarrow> gotime \<Rightarrow> TelemetryEvent gomap \<Rightarrow> string list \<Rightarrow> Evidence list res" where
  "event_items L J incidentID now m [] = Inr []"
| "event_items L J incidentID now m (k # ks) =
     (case fmlookup m k of
        None \<Rightarrow> Inl (Sent (Incident ErrEvidenceBuild) ''detection event not provided'')
      | Some ev \<Rightarrow>
         (case mk_item L incidentID now ''event'' k EVIDENCE_TYPE_LOG_EXCERPT (te_source ev) (cj_event J ev) of
            Inl x \<Rightarrow> Inl x
          | Inr e \<Rightarrow>
             (case event_items L J incidentID now m ks of Inl x \<Rightarrow> Inl x | Inr es \<Rightarrow> Inr (e # es))))"

definition BuildForAlert ::
  "pblib \<Rightarrow> codec \<Rightarrow> string \<Rightarrow> Alert option \<Rightarrow> Detection option \<Rightarrow> TelemetryEvent option list \<Rightarrow> gotime
    \<Rightarrow> Evidence list res" where
  "BuildForAlert L J incidentID alert det events now =
     (if incidentID = [] then Inl (Sent (Incident ErrEvidenceBuild) ''incident id is empty'')
      else case (alert, det) of
        (Some a, Some d) \<Rightarrow>
          (case first_err [
             map_option (Wrap (Incident ErrEvidenceBuild)) (ValidateAlert L (Some a)),
             map_option (Wrap (Incident ErrEvidenceBuild)) (ValidateDetection L (Some d)),
             fail_if (det_id d \<notin> set (al_detection_ids a))
               (Sent (Incident ErrEvidenceBuild) ''alert does not reference detection'')] of
             Some e \<Rightarrow> Inl e
           | None \<Rightarrow>
              (case events_byID L events fmempty of
                 Inl e \<Rightarrow> Inl e
               | Inr m \<Rightarrow>
                  if \<not> set (det_telemetry_event_ids d) \<subseteq> fmdom' m
                    then Inl (Sent (Incident ErrEvidenceBuild) ''detection event not provided'')
                  else if IsZero now
                    then Inl (Sent (Incident ErrEvidenceBuild) ''collection timestamp is zero'')
                  else
                   (case event_items L J incidentID now m (sort (det_telemetry_event_ids d)) of
                      Inl e \<Rightarrow> Inl e
                    | Inr es \<Rightarrow>
                       (case mk_item L incidentID now ''detection'' (det_id d) EVIDENCE_TYPE_NOTE
                               SourceDetection (cj_detection J d) of
                          Inl e \<Rightarrow> Inl e
                        | Inr de \<Rightarrow>
                           (case mk_item L incidentID now ''alert'' (al_id a) EVIDENCE_TYPE_NOTE
                                   SourceAlert (cj_alert J a) of
                              Inl e \<Rightarrow> Inl e
                            | Inr ae \<Rightarrow> Inr (es @ [de, ae]))))))
      | _ \<Rightarrow> Inl (Sent (Incident ErrEvidenceBuild) ''alert and detection are required''))"

subsection \<open>The store\<close>

text \<open>The store is its map; adding reports whether the id was new.\<close>

definition Store_Add :: "Evidence \<Rightarrow> Evidence gomap \<Rightarrow> bool \<times> Evidence gomap" where
  "Store_Add e items =
     (if fmlookup items (ev_id e) \<noteq> None then (False, items) else (True, fmupd (ev_id e) e items))"

definition Store_Get :: "string \<Rightarrow> Evidence gomap \<Rightarrow> Evidence option" where
  "Store_Get k items = fmlookup items k"

definition Store_List :: "Evidence gomap \<Rightarrow> Evidence list" where
  "Store_List items = values_sorted items"

definition Store_Count :: "Evidence gomap \<Rightarrow> nat" where
  "Store_Count items = card (fmdom' items)"

interpretation vault: archive fmlookup "\<lambda>s e. fst (Store_Add e s)" "\<lambda>s e. snd (Store_Add e s)"
  Store_List ev_id "keyed ev_id"
proof
  show "fmlookup s k = Some v \<Longrightarrow> ev_id v = k" if "keyed ev_id s" for s k v
    using that by (simp add: keyed_def)
qed (simp_all add: Store_Add_def Store_List_def keyed_upd keyed_values set_values_sorted split: if_splits)

subsection \<open>Facts\<close>

lemma NewItem_Inr:
  assumes "NewItem L incidentID kind refID typ source content now = Inr e"
  shows "Verify (Some e) \<and> ValidateEvidence L (Some e) = None \<and> ev_incident_id e = incidentID \<and>
    ev_id e = evidenceID incidentID kind refID \<and> ev_type e = typ \<and> ev_content e = content \<and> ev_source e = source"
  using assms by (auto simp: NewItem_def Verify_def digest_def Let_def split: if_splits option.splits)

lemma mk_item_Inr:
  assumes "mk_item L incidentID now kind refID typ source serialized = Inr e"
  shows "Verify (Some e) \<and> ValidateEvidence L (Some e) = None \<and> ev_incident_id e = incidentID \<and>
    ev_id e = evidenceID incidentID kind refID \<and> ev_type e = typ \<and> ev_source e = source \<and>
    serialized = Inr (ev_content e)"
  using assms by (auto simp: mk_item_def split: sum.splits dest!: NewItem_Inr)

lemma event_items_Inr:
  assumes "event_items L J incidentID now m ks = Inr es"
  shows "map ev_id es = map (evidenceID incidentID ''event'') ks \<and>
    (\<forall>e \<in> set es. Verify (Some e) \<and> ValidateEvidence L (Some e) = None \<and> ev_incident_id e = incidentID \<and>
       ev_type e = EVIDENCE_TYPE_LOG_EXCERPT \<and>
       (\<exists>k \<in> set ks. \<exists>t. fmlookup m k = Some t \<and> ev_source e = te_source t \<and> cj_event J t = Inr (ev_content e)))"
  using assms
proof (induction ks arbitrary: es)
  case (Cons k ks)
  then obtain ev e es' where h: "fmlookup m k = Some ev"
    "mk_item L incidentID now ''event'' k EVIDENCE_TYPE_LOG_EXCERPT (te_source ev) (cj_event J ev) = Inr e"
    "event_items L J incidentID now m ks = Inr es'" "es = e # es'"
    by (auto split: option.splits sum.splits)
  then show ?case using Cons.IH [OF h(3)] mk_item_Inr [OF h(2)] by fastforce
qed simp

lemma events_byID_Inr:
  "events_byID L es m = Inr m' \<Longrightarrow> fmlookup m' k = Some t \<Longrightarrow> fmlookup m k = Some t \<or> Some t \<in> set es \<and> te_id t = k"
  by (induction L es m rule: events_byID.induct) (auto split: option.splits if_splits)

lemma digest_wellformed: "\<not> bad_sha256 (digest content)"
proof -
  have "list_all lower_hex (sha256_hex content)"
    using sha256_hex_lower [of _ content]
    by (auto simp: list_all_iff lower_hex_def is_lower_hex_def Let_def)
  then show ?thesis by (simp add: bad_sha256_def digest_def)
qed

lemma NewItem_succeeds:
  assumes "incidentID \<noteq> []" and "kind \<noteq> []" and "refID \<noteq> []" and "source \<noteq> []" and "content \<noteq> []"
    and "EvidenceType_known typ" and "typ \<noteq> 0" and "\<not> IsZero now" and "ts_CheckValid L (ts_New L now) = None"
  shows "\<exists>e. NewItem L incidentID kind refID typ source content now = Inr e"
proof -
  let ?e = "\<lparr> ev_id = evidenceID incidentID kind refID, ev_incident_id = incidentID, ev_type = typ,
     ev_collected_at = Some (ts_New L now), ev_source = source, ev_media_type = MediaJSON,
     ev_sha256 = digest content, ev_content = content \<rparr>"
  have "ValidateEvidence L (Some ?e) = None"
    using assms digest_wellformed
    by (simp add: ValidateEvidence_def boundary evidenceID_def MediaJSON_def)
  then show ?thesis using assms by (simp add: NewItem_def Let_def)
qed

lemma BuildForAlert_Inr:
  assumes "BuildForAlert L J incidentID (Some a) (Some d) events now = Inr items"
  shows "\<exists>es de ae. items = es @ [de, ae] \<and>
    map ev_id es = map (evidenceID incidentID ''event'') (sort (det_telemetry_event_ids d)) \<and>
    ev_id de = evidenceID incidentID ''detection'' (det_id d) \<and> ev_id ae = evidenceID incidentID ''alert'' (al_id a) \<and>
    cj_detection J d = Inr (ev_content de) \<and> cj_alert J a = Inr (ev_content ae) \<and>
    (\<forall>e \<in> set es. \<exists>t. Some t \<in> set events \<and> te_id t \<in> set (det_telemetry_event_ids d) \<and>
       cj_event J t = Inr (ev_content e) \<and> ev_source e = te_source t) \<and>
    (\<forall>e \<in> set items. Verify (Some e) \<and> ValidateEvidence L (Some e) = None \<and> ev_incident_id e = incidentID)"
proof -
  obtain m es de ae where h: "events_byID L events fmempty = Inr m"
    "event_items L J incidentID now m (sort (det_telemetry_event_ids d)) = Inr es"
    "mk_item L incidentID now ''detection'' (det_id d) EVIDENCE_TYPE_NOTE SourceDetection (cj_detection J d) = Inr de"
    "mk_item L incidentID now ''alert'' (al_id a) EVIDENCE_TYPE_NOTE SourceAlert (cj_alert J a) = Inr ae"
    "items = es @ [de, ae]"
    using assms by (auto simp: BuildForAlert_def split: if_splits option.splits sum.splits)
  have ev: "\<exists>t. Some t \<in> set events \<and> te_id t \<in> set (det_telemetry_event_ids d) \<and>
       cj_event J t = Inr (ev_content e) \<and> ev_source e = te_source t" if mem: "e \<in> set es" for e
  proof -
    obtain k t where "k \<in> set (det_telemetry_event_ids d)" "fmlookup m k = Some t"
      "ev_source e = te_source t" "cj_event J t = Inr (ev_content e)"
      using event_items_Inr [OF h(2)] mem by auto
    then show ?thesis using events_byID_Inr [OF h(1), of k t] by auto
  qed
  then show ?thesis
    using h(5) event_items_Inr [OF h(2)] mk_item_Inr [OF h(3)] mk_item_Inr [OF h(4)]
    by (intro exI [of _ es] exI [of _ de] exI [of _ ae]) auto
qed

subsection \<open>The properties\<close>

text \<open>
  The evidence captured for an alert is complete and honest: one item per contributing
  event in id order, then the detection and the alert; every item verifies against its
  digest, is contract-valid and belongs to the incident, and its content is the canonical
  serialization of an event that was supplied, of the detection or of the alert.
\<close>

theorem evidence_complete_and_honest:
  assumes "BuildForAlert L J incidentID (Some a) (Some d) events now = Inr items"
  shows "\<exists>es de ae. items = es @ [de, ae] \<and>
    map ev_id es = map (evidenceID incidentID ''event'') (sort (det_telemetry_event_ids d)) \<and>
    cj_detection J d = Inr (ev_content de) \<and> cj_alert J a = Inr (ev_content ae) \<and>
    (\<forall>e \<in> set es. \<exists>t. Some t \<in> set events \<and> te_id t \<in> set (det_telemetry_event_ids d) \<and>
       cj_event J t = Inr (ev_content e) \<and> ev_source e = te_source t) \<and>
    (\<forall>e \<in> set items. Verify (Some e) \<and> ValidateEvidence L (Some e) = None \<and> ev_incident_id e = incidentID)"
  using BuildForAlert_Inr [OF assms] by blast

definition ev_codec :: codec where
  "ev_codec = \<lparr>cj_event = (\<lambda>e. Inr (''event '' @ te_id e)), cj_detection = (\<lambda>d. Inr (''detection '' @ det_id d)),
     cj_alert = (\<lambda>a. Inr (''alert '' @ al_id a))\<rparr>"

definition ev_alert :: Alert where
  "ev_alert = \<lparr>al_id = ''a1'', al_detection_ids = [''d1''], al_status = ALERT_STATUS_OPEN,
     al_severity = SEVERITY_HIGH, al_created_at = Some (Timestamp 5 0), al_updated_at = Some (Timestamp 5 0),
     al_title = ''t''\<rparr>"

definition ev_detection :: Detection where
  "ev_detection = \<lparr>det_id = ''d1'', det_rule_id = ''r1'', det_rule_name = ''rule'',
     det_telemetry_event_ids = [''e1''], det_detected_at = Some (Timestamp 5 0), det_severity = SEVERITY_HIGH,
     det_confidence = Fin 1, det_title = ''t'', det_description = [], det_attributes = fmempty\<rparr>"

definition ev_event :: TelemetryEvent where
  "ev_event = \<lparr>te_id = ''e1'', te_occurred_at = Some (Timestamp 5 0), te_source = ''sim'', te_asset_id = ''h1'',
     te_identity_id = [], te_event_type = ''t'', te_severity = SEVERITY_LOW,
     te_attributes = fmempty, te_raw = []\<rparr>"

lemma ev_inputs_valid:
  "ValidateAlert example_pb (Some ev_alert) = None" "ValidateDetection example_pb (Some ev_detection) = None"
  "ValidateTelemetryEvent example_pb (Some ev_event) = None"
  by (simp_all add: ev_alert_def ev_detection_def ev_event_def ValidateAlert_def ValidateDetection_def
      ValidateTelemetryEvent_def boundary AlertStatus_known_def example_pb_def)

lemma mk_item_succeeds:
  assumes "incidentID \<noteq> []" and "kind \<noteq> []" and "refID \<noteq> []" and "source \<noteq> []" and "content \<noteq> []"
    and "EvidenceType_known typ" and "typ \<noteq> 0" and "\<not> IsZero now" and "ts_CheckValid L (ts_New L now) = None"
  shows "\<exists>e. mk_item L incidentID now kind refID typ source (Inr content) = Inr e"
  using NewItem_succeeds [OF assms] by (auto simp: mk_item_def)

lemma ev_build:
  "\<exists>items. BuildForAlert example_pb ev_codec ''inc-1'' (Some ev_alert) (Some ev_detection) [Some ev_event] 7 = Inr items"
proof -
  have t: "\<not> IsZero 7" "ts_CheckValid example_pb (ts_New example_pb 7) = None"
    by (simp_all add: IsZero_def zero_time_def example_pb_def)
  have k: "EvidenceType_known EVIDENCE_TYPE_NOTE" "EvidenceType_known EVIDENCE_TYPE_LOG_EXCERPT"
    by (simp_all add: EvidenceType_known_def)
  obtain e where e: "mk_item example_pb ''inc-1'' 7 ''event'' ''e1'' EVIDENCE_TYPE_LOG_EXCERPT ''sim'' (Inr ''event e1'') = Inr e"
    using mk_item_succeeds [of "''inc-1''" "''event''" "''e1''" "''sim''" "''event e1''" EVIDENCE_TYPE_LOG_EXCERPT 7 example_pb] t k
    by auto
  obtain de where de: "mk_item example_pb ''inc-1'' 7 ''detection'' ''d1'' EVIDENCE_TYPE_NOTE ''blueveil-detect'' (Inr ''detection d1'') = Inr de"
    using mk_item_succeeds [of "''inc-1''" "''detection''" "''d1''" "''blueveil-detect''" "''detection d1''" EVIDENCE_TYPE_NOTE 7 example_pb] t k
    by auto
  obtain ae where ae: "mk_item example_pb ''inc-1'' 7 ''alert'' ''a1'' EVIDENCE_TYPE_NOTE ''blueveil-detect'' (Inr ''alert a1'') = Inr ae"
    using mk_item_succeeds [of "''inc-1''" "''alert''" "''a1''" "''blueveil-detect''" "''alert a1''" EVIDENCE_TYPE_NOTE 7 example_pb] t k
    by auto
  have ids: "det_id ev_detection = ''d1''" "det_telemetry_event_ids ev_detection = [''e1'']" "al_id ev_alert = ''a1''"
    "al_detection_ids ev_alert = [''d1'']" "te_id ev_event = ''e1''" "te_source ev_event = ''sim''"
    by (simp_all add: ev_alert_def ev_detection_def ev_event_def)
  show ?thesis using ev_inputs_valid t e de ae
    by (simp add: BuildForAlert_def fail_if_def ids ev_codec_def SourceDetection_def SourceAlert_def)
qed

theorem evidence_complete_and_honest_witness:
  "\<exists>items. BuildForAlert example_pb ev_codec ''inc-1'' (Some ev_alert) (Some ev_detection) [Some ev_event] 7 = Inr items \<and>
     length items = 3 \<and> (\<forall>e \<in> set items. Verify (Some e))"
proof -
  obtain items where b: "BuildForAlert example_pb ev_codec ''inc-1'' (Some ev_alert) (Some ev_detection)
      [Some ev_event] 7 = Inr items" using ev_build by blast
  have ids: "det_telemetry_event_ids ev_detection = [''e1'']" by (simp add: ev_detection_def)
  from evidence_complete_and_honest [OF b] have "length items = 3 \<and> (\<forall>e \<in> set items. Verify (Some e))"
    by (elim exE conjE) (auto simp: ids dest: map_eq_imp_length_eq)
  then show ?thesis using b by blast
qed

text \<open>
  The evidence store keeps the first copy of an item: once added, an item reads back
  unchanged after any later additions, so a verifying item keeps verifying, and a second
  item under its id is refused.
\<close>

theorem evidence_store_first_write_wins:
  assumes "Store_Add e items = (True, items1)" and "Verify (Some e)"
  shows "Store_Get (ev_id e) (foldl (\<lambda>s x. snd (Store_Add x s)) items1 later) = Some e \<and>
    Verify (Store_Get (ev_id e) (foldl (\<lambda>s x. snd (Store_Add x s)) items1 later)) \<and>
    (ev_id e' = ev_id e \<longrightarrow> \<not> fst (Store_Add e' (foldl (\<lambda>s x. snd (Store_Add x s)) items1 later)))"
proof -
  have acc: "fst (Store_Add e items)" and i1: "items1 = snd (Store_Add e items)" using assms(1) by simp_all
  show ?thesis
    using vault.accepted_get [OF acc, of later] vault.accepted_once [OF acc, of e' later] i1 assms(2)
    by (simp add: Store_Get_def)
qed

theorem evidence_store_first_write_wins_witness:
  "\<exists>e. ev_content e = ''x'' \<and>
     Store_Get (ev_id e) (foldl (\<lambda>s x. snd (Store_Add x s)) (fmupd (ev_id e) e fmempty) [e\<lparr>ev_content := ''y''\<rparr>]) = Some e"
proof -
  have "\<not> IsZero 7" "ts_CheckValid example_pb (ts_New example_pb 7) = None" "EvidenceType_known EVIDENCE_TYPE_NOTE"
    by (simp_all add: IsZero_def zero_time_def example_pb_def EvidenceType_known_def)
  then obtain e where e: "NewItem example_pb ''i'' ''k'' ''r'' EVIDENCE_TYPE_NOTE ''s'' ''x'' 7 = Inr e"
    using NewItem_succeeds [of "''i''" "''k''" "''r''" "''s''" "''x''" EVIDENCE_TYPE_NOTE 7 example_pb] by auto
  have "Store_Add e fmempty = (True, fmupd (ev_id e) e fmempty)" by (simp add: Store_Add_def)
  then show ?thesis
    using evidence_store_first_write_wins [of e fmempty "fmupd (ev_id e) e fmempty" "[e\<lparr>ev_content := ''y''\<rparr>]"]
      NewItem_Inr [OF e] by blast
qed

end
