(* ===== verification/Windows.thy ===== *)
theory Windows
  imports Contract "HOL-Library.Multiset"
begin

text \<open>
  The event-time window behind every burst rule (\<open>netWindow\<close> of
  \<open>internal/detect/network.go\<close>, written out a second time in \<open>rules.go\<close> for the blocked
  request burst) and the batch grouping of rule errors (\<open>ErrorBursts\<close> of \<open>threat.go\<close>).
  Shifting an instant by the window is exact here; Go wraps only for instants some 290 years
  beyond the representable range of \<open>time.Time\<close> arithmetic the program uses.
\<close>

subsection \<open>The window\<close>

record netWindowEntry =
  we_at :: gotime
  we_id :: string
  we_severity :: enum

record netWindow =
  nw_entries :: "netWindowEntry list"
  nw_fired :: bool

definition empty_window :: netWindow where
  "empty_window = \<lparr>nw_entries = [], nw_fired = False\<rparr>"

definition observe ::
  "gotime \<Rightarrow> string \<Rightarrow> enum \<Rightarrow> duration \<Rightarrow> int \<Rightarrow> netWindow \<Rightarrow> bool \<times> netWindow" where
  "observe at i sev window threshold w =
     (let cutoff = at - window;
          kept = filter (\<lambda>e. \<not> we_at e < cutoff) (nw_entries w);
          entries = kept @ [\<lparr>we_at = at, we_id = i, we_severity = sev\<rparr>]
      in if int (length entries) < threshold then (False, \<lparr>nw_entries = entries, nw_fired = False\<rparr>)
         else if nw_fired w then (False, w\<lparr>nw_entries := entries\<rparr>)
         else (True, \<lparr>nw_entries = entries, nw_fired = True\<rparr>))"

definition window_peak :: "netWindow \<Rightarrow> enum" where
  "window_peak w = foldl (\<lambda>peak e. if we_severity e > peak then we_severity e else peak) SEVERITY_INFO (nw_entries w)"

definition window_ids :: "netWindow \<Rightarrow> string list" where
  "window_ids w = sort (map we_id (nw_entries w))"

definition checkBurstParams :: "int \<Rightarrow> duration \<Rightarrow> string \<Rightarrow> goerr" where
  "checkBurstParams threshold window what = first_err [
     fail_if (threshold \<le> 0) (Plain (''detect: '' @ what @ '' threshold must be > 0'')),
     fail_if (window \<le> 0) (Plain (''detect: '' @ what @ '' window must be > 0''))]"

text \<open>The clock guard; the clock of a constructed rule is never nil.\<close>

definition checkNetClock :: "gotime \<Rightarrow> string \<Rightarrow> goerr" where
  "checkNetClock now what = fail_if (IsZero now) (Plain (''detect: '' @ what @ '' clock returned zero time''))"

subsection \<open>Peaks\<close>

text \<open>The running maximum both burst computations take over severities.\<close>

lemma foldl_peak:
  "foldl (\<lambda>p e. if f e > p then f e else p) p0 es = foldl max (p0 :: int) (map f es)"
  by (induction es arbitrary: p0) (auto simp: max_def)

lemma foldl_max_ge: "(p0 :: int) \<le> foldl max p0 xs"
proof (induction xs arbitrary: p0)
  case (Cons x xs)
  from Cons.IH [of "max p0 x"] show ?case by simp
qed simp

lemma foldl_max_ge_mem: "x \<in> set xs \<Longrightarrow> (x :: int) \<le> foldl max p0 xs"
proof (induction xs arbitrary: p0)
  case (Cons y ys)
  from foldl_max_ge [of "max p0 y" ys] show ?case using Cons by auto
qed simp

lemma foldl_max_in: "foldl max (p0 :: int) xs \<in> insert p0 (set xs)"
  by (induction xs arbitrary: p0) (auto simp: max_def split: if_splits)

lemma window_peak_ge:
  "SEVERITY_INFO \<le> window_peak w" "e \<in> set (nw_entries w) \<Longrightarrow> we_severity e \<le> window_peak w"
  unfolding window_peak_def foldl_peak by (auto intro: foldl_max_ge foldl_max_ge_mem)

lemma window_peak_source:
  "window_peak w = SEVERITY_INFO \<or> (\<exists>e \<in> set (nw_entries w). we_severity e = window_peak w)"
  using foldl_max_in [of SEVERITY_INFO "map we_severity (nw_entries w)"]
  unfolding window_peak_def foldl_peak by auto

subsection \<open>Streams\<close>

text \<open>A stream of entries through one window: the fire flags, and the window left.\<close>

definition observe_entry :: "duration \<Rightarrow> int \<Rightarrow> netWindowEntry \<Rightarrow> netWindow \<Rightarrow> bool \<times> netWindow" where
  "observe_entry window threshold e w = observe (we_at e) (we_id e) (we_severity e) window threshold w"

fun run_window :: "duration \<Rightarrow> int \<Rightarrow> netWindowEntry list \<Rightarrow> netWindow \<Rightarrow> bool list \<times> netWindow" where
  "run_window window threshold [] w = ([], w)"
| "run_window window threshold (e # es) w =
     (case observe_entry window threshold e w of
        (f, w1) \<Rightarrow> (case run_window window threshold es w1 of (fs, w2) \<Rightarrow> (f # fs, w2)))"

lemma run_window_snoc:
  "run_window window threshold (es @ [e]) w =
     (case run_window window threshold es w of (fs, w1) \<Rightarrow>
        (case observe_entry window threshold e w1 of (f, w2) \<Rightarrow> (fs @ [f], w2)))"
  by (induction es arbitrary: w) (auto split: prod.splits)

lemma length_run_window [simp]: "length (fst (run_window window threshold es w)) = length es"
  by (induction es arbitrary: w) (simp_all add: split_beta)

text \<open>
  The reference: the entries of a time-ordered stream that lie within the window of its last
  one, and whether they reach the threshold.
\<close>

definition within :: "duration \<Rightarrow> netWindowEntry list \<Rightarrow> netWindowEntry list" where
  "within window es = filter (\<lambda>e. we_at (last es) - we_at e \<le> window) es"

definition dense :: "duration \<Rightarrow> int \<Rightarrow> netWindowEntry list \<Rightarrow> bool" where
  "dense window threshold es \<longleftrightarrow> es \<noteq> [] \<and> threshold \<le> int (length (within window es))"

lemma within_snoc:
  assumes "sorted (map we_at (es @ [e]))" and "0 \<le> window"
  shows "within window (es @ [e]) = filter (\<lambda>x. \<not> we_at x < we_at e - window) (within window es) @ [e]"
proof (cases "es = []")
  case True
  then show ?thesis using assms(2) by (simp add: within_def)
next
  case False
  then have "we_at (last es) \<le> we_at e" using assms(1) by (simp add: sorted_append)
  then have "filter (\<lambda>x. \<not> we_at x < we_at e - window) (filter (\<lambda>x. we_at (last es) - we_at x \<le> window) es)
      = filter (\<lambda>x. we_at e - we_at x \<le> window) es"
    unfolding filter_filter by (intro filter_cong) auto
  then show ?thesis using False assms(2) by (simp add: within_def)
qed

lemma observe_entry_eq:
  assumes "nw_entries w = within window es" and "nw_fired w \<longleftrightarrow> dense window threshold es"
    and "sorted (map we_at (es @ [e]))" and "0 \<le> window"
  shows "observe_entry window threshold e w =
    (dense window threshold (es @ [e]) \<and> \<not> dense window threshold es,
     \<lparr>nw_entries = within window (es @ [e]), nw_fired = dense window threshold (es @ [e])\<rparr>)"
proof -
  have eq: "filter (\<lambda>x. \<not> we_at x < we_at e - window) (nw_entries w) @
      [\<lparr>we_at = we_at e, we_id = we_id e, we_severity = we_severity e\<rparr>] = within window (es @ [e])"
    using within_snoc [OF assms(3,4)] assms(1) by simp
  obtain entries fired where w: "w = \<lparr>nw_entries = entries, nw_fired = fired\<rparr>" by (cases w)
  show ?thesis
    unfolding observe_entry_def observe_def Let_def eq
    using assms(2) by (simp add: w dense_def not_less)
qed

lemma run_window_spec:
  assumes "sorted (map we_at es)" and "0 \<le> window"
  shows "run_window window threshold es empty_window =
    (map (\<lambda>n. dense window threshold (take (Suc n) es) \<and> \<not> dense window threshold (take n es)) [0..<length es],
     \<lparr>nw_entries = within window es, nw_fired = dense window threshold es\<rparr>)"
  using assms(1)
proof (induction es rule: rev_induct)
  case Nil
  then show ?case by (simp add: empty_window_def within_def dense_def)
next
  case (snoc e es)
  then have "sorted (map we_at es)" by (simp add: sorted_append)
  then have "run_window window threshold es empty_window =
    (map (\<lambda>n. dense window threshold (take (Suc n) es) \<and> \<not> dense window threshold (take n es)) [0..<length es],
     \<lparr>nw_entries = within window es, nw_fired = dense window threshold es\<rparr>)" using snoc.IH by simp
  moreover have "observe_entry window threshold e \<lparr>nw_entries = within window es, nw_fired = dense window threshold es\<rparr> =
    (dense window threshold (es @ [e]) \<and> \<not> dense window threshold es,
     \<lparr>nw_entries = within window (es @ [e]), nw_fired = dense window threshold (es @ [e])\<rparr>)"
    using snoc.prems assms(2) by (intro observe_entry_eq) simp_all
  ultimately show ?case
    by (simp add: run_window_snoc del: upt_Suc) (simp add: upt_Suc)
qed

subsection \<open>Error bursts (\<open>threat.go\<close>)\<close>

record ErrorEvent =
  ee_RuleID :: string
  ee_EventID :: string
  ee_At :: gotime
  ee_Severity :: enum
  ee_Err :: string

text \<open>
  The batch loop: \<open>byID\<close> keeps the last recorded error of an event id. Errors that agree in
  time and event id are kept in recording order, which the unstable \<open>sort.Slice\<close> leaves open.
\<close>

definition by_event_id :: "ErrorEvent list \<Rightarrow> string \<Rightarrow> ErrorEvent option" where
  "by_event_id mine = map_of (rev (map (\<lambda>m. (ee_EventID m, m)) mine))"

definition burst_entry :: "ErrorEvent \<Rightarrow> netWindowEntry" where
  "burst_entry e = \<lparr>we_at = ee_At e, we_id = ee_EventID e, we_severity = ee_Severity e\<rparr>"

fun error_bursts ::
  "ErrorEvent list \<Rightarrow> int \<Rightarrow> duration \<Rightarrow> ErrorEvent list \<Rightarrow> netWindowEntry list \<Rightarrow> bool \<Rightarrow> ErrorEvent list list" where
  "error_bursts mine threshold window [] entries fired = []"
| "error_bursts mine threshold window (e # es) entries fired =
     (let entries1 = dropWhile (\<lambda>x. time_Sub (ee_At e) (we_at x) > window) entries @ [burst_entry e] in
      if int (length entries1) < threshold then error_bursts mine threshold window es entries1 False
      else if fired then error_bursts mine threshold window es entries1 fired
      else sort_key ee_EventID (List.map_filter (\<lambda>en. by_event_id mine (we_id en)) entries1)
             # error_bursts mine threshold window es entries1 True)"

definition error_order :: "ErrorEvent list \<Rightarrow> string \<Rightarrow> ErrorEvent list" where
  "error_order errs ruleID =
     sort_key ee_At (sort_key ee_EventID (filter (\<lambda>e. ee_RuleID e = ruleID) errs))"

definition ErrorBursts :: "ErrorEvent list \<Rightarrow> string \<Rightarrow> int \<Rightarrow> duration \<Rightarrow> ErrorEvent list list" where
  "ErrorBursts errs ruleID threshold window =
     (let mine = error_order errs ruleID in error_bursts mine threshold window mine [] False)"

text \<open>The ids a stream of entries fires with.\<close>

fun fired_ids :: "duration \<Rightarrow> int \<Rightarrow> netWindowEntry list \<Rightarrow> netWindow \<Rightarrow> string list list" where
  "fired_ids window threshold [] w = []"
| "fired_ids window threshold (e # es) w =
     (case observe_entry window threshold e w of
        (f, w1) \<Rightarrow> (if f then [window_ids w1] else []) @ fired_ids window threshold es w1)"

lemma map_sort_key: "map f (sort_key f xs) = sort (map f xs)"
  by (rule properties_for_sort [symmetric]) simp_all

lemma dropWhile_sorted:
  assumes "sorted (map f xs)" and "\<And>x y. f x \<le> f y \<Longrightarrow> P y \<Longrightarrow> P x"
  shows "dropWhile P xs = filter (\<lambda>x. \<not> P x) xs"
  using assms(1)
proof (induction xs)
  case (Cons x xs)
  show ?case
  proof (cases "P x")
    case False
    then have "\<forall>y \<in> set xs. \<not> P y" using Cons.prems assms(2) by auto
    then show ?thesis using False by (simp add: filter_id_conv)
  qed (use Cons in simp)
qed simp

lemma by_event_id_mem: "m \<in> set mine \<Longrightarrow> \<exists>m'. by_event_id mine (ee_EventID m) = Some m' \<and> ee_EventID m' = ee_EventID m"
proof -
  assume "m \<in> set mine"
  then have "ee_EventID m \<in> fst ` set (rev (map (\<lambda>m. (ee_EventID m, m)) mine))" by force
  then obtain m' where m': "by_event_id mine (ee_EventID m) = Some m'"
    unfolding by_event_id_def by (metis map_of_eq_None_iff option.exhaust)
  then have "(ee_EventID m, m') \<in> set (rev (map (\<lambda>m. (ee_EventID m, m)) mine))"
    unfolding by_event_id_def by (rule map_of_SomeD)
  then show ?thesis using m' by auto
qed

lemma burst_ids:
  assumes "set (map we_id entries) \<subseteq> ee_EventID ` set mine"
  shows "map ee_EventID (List.map_filter (\<lambda>en. by_event_id mine (we_id en)) entries) = map we_id entries"
  using assms
proof (induction entries)
  case (Cons en entries)
  then obtain m where "m \<in> set mine" "we_id en = ee_EventID m" by auto
  then obtain m' where "by_event_id mine (we_id en) = Some m'" "ee_EventID m' = we_id en"
    using by_event_id_mem by metis
  then show ?case using Cons by (simp add: List.map_filter_simps)
qed (simp add: List.map_filter_simps)

lemma error_bursts_stream:
  assumes "sorted (map we_at (entries @ map burst_entry es))"
    and "set (map we_id entries) \<subseteq> ee_EventID ` set mine" and "set es \<subseteq> set mine"
    and "0 \<le> window" and "window < 2 ^ 63 - 1"
  shows "map (map ee_EventID) (error_bursts mine threshold window es entries fired) =
    fired_ids window threshold (map burst_entry es) \<lparr>nw_entries = entries, nw_fired = fired\<rparr>"
  using assms(1-3)
proof (induction es arbitrary: entries fired)
  case (Cons e es)
  let ?kept = "filter (\<lambda>x. \<not> we_at x < ee_At e - window) entries"
  let ?entries = "?kept @ [burst_entry e]"
  have "dropWhile (\<lambda>x. time_Sub (ee_At e) (we_at x) > window) entries =
      filter (\<lambda>x. \<not> time_Sub (ee_At e) (we_at x) > window) entries"
    using Cons.prems(1) by (intro dropWhile_sorted [of we_at]) (auto simp: sorted_append time_Sub_def)
  also have "\<dots> = ?kept"
    using time_Sub_le [OF assms(5,4)] by (intro filter_cong) (auto simp: not_less)
  finally have drop: "dropWhile (\<lambda>x. time_Sub (ee_At e) (we_at x) > window) entries = ?kept" .
  have sorted: "sorted (map we_at (?entries @ map burst_entry es))"
    using Cons.prems(1) by (auto simp: sorted_append sorted_filter)
  have sub: "set (map we_id ?entries) \<subseteq> ee_EventID ` set mine"
    using Cons.prems(2,3) by (auto simp: burst_entry_def)
  have IH: "map (map ee_EventID) (error_bursts mine threshold window es ?entries b) =
      fired_ids window threshold (map burst_entry es) \<lparr>nw_entries = ?entries, nw_fired = b\<rparr>" for b
    using sorted sub Cons.prems(3) by (intro Cons.IH) auto
  have ids: "map ee_EventID (sort_key ee_EventID (List.map_filter (\<lambda>en. by_event_id mine (we_id en)) ?entries)) =
      sort (map we_id ?entries)"
    using burst_ids [OF sub] by (simp add: map_sort_key)
  have obs: "observe_entry window threshold (burst_entry e) \<lparr>nw_entries = entries, nw_fired = fired\<rparr> =
    (if int (length ?entries) < threshold then (False, \<lparr>nw_entries = ?entries, nw_fired = False\<rparr>)
     else if fired then (False, \<lparr>nw_entries = ?entries, nw_fired = True\<rparr>)
     else (True, \<lparr>nw_entries = ?entries, nw_fired = True\<rparr>))"
    by (simp add: observe_entry_def observe_def burst_entry_def Let_def)
  show ?case
  proof (cases "int (length ?entries) < threshold")
    case True
    then show ?thesis using IH [of False] obs by (simp add: drop Let_def)
  next
    case False
    then show ?thesis using IH [of True] obs ids
      by (cases fired) (simp_all add: drop Let_def window_ids_def)
  qed
qed simp

subsection \<open>The properties\<close>

text \<open>
  Burst windows count what they claim: on a stream of events in time order, the window
  holds exactly the events within the window of the last one, and it fires exactly when
  their number reaches the threshold and the previous event had not already reached it, so
  once per run of dense events and again after the count fell below.
\<close>

theorem window_fires_exactly:
  assumes "sorted (map we_at es)" and "0 \<le> window" and "n < length es"
  shows "(fst (run_window window threshold es empty_window) ! n \<longleftrightarrow>
      threshold \<le> int (length (within window (take (Suc n) es))) \<and>
      (n = 0 \<or> int (length (within window (take n es))) < threshold)) \<and>
    nw_entries (snd (run_window window threshold es empty_window)) = within window es"
  using run_window_spec [OF assms(1,2), of threshold] assms(3) by (auto simp: dense_def)

definition ex_stream :: "netWindowEntry list" where
  "ex_stream = map (\<lambda>(i, t). \<lparr>we_at = t, we_id = i, we_severity = SEVERITY_LOW\<rparr>)
     [(''e1'', 10), (''e2'', 20), (''e3'', 25), (''e4'', 100), (''e5'', 101)]"

theorem window_fires_exactly_witness:
  "fst (run_window 15 2 ex_stream empty_window) = [False, True, False, False, True] \<and>
   int (length (within 15 (take 2 ex_stream))) \<ge> 2 \<and> int (length (within 15 (take 1 ex_stream))) < 2"
proof -
  have r: "fst (run_window 15 2 ex_stream empty_window) = [False, True, False, False, True]" by code_simp
  have "sorted (map we_at ex_stream)" by (simp add: ex_stream_def)
  from window_fires_exactly [OF this, of 15 1 2] show ?thesis
    by (simp add: r) (simp add: ex_stream_def numeral_2_eq_2)
qed

text \<open>
  Batch and stream agree: the bursts computed over recorded rule errors are, id for id,
  the firings of the streaming window on those errors in time order.
\<close>

theorem error_bursts_are_stream_firings:
  assumes "0 \<le> window" and "window < 2 ^ 63 - 1"
  shows "map (map ee_EventID) (ErrorBursts errs ruleID threshold window) =
    fired_ids window threshold (map burst_entry (error_order errs ruleID)) empty_window"
proof -
  have "sorted (map we_at (map burst_entry (error_order errs ruleID)))"
    by (simp add: error_order_def burst_entry_def comp_def)
  then show ?thesis using assms
    by (simp add: ErrorBursts_def error_bursts_stream empty_window_def Let_def)
qed

definition ex_errors :: "ErrorEvent list" where
  "ex_errors = map (\<lambda>(i, t). \<lparr>ee_RuleID = ''r'', ee_EventID = i, ee_At = t, ee_Severity = SEVERITY_LOW, ee_Err = []\<rparr>)
     [(''e3'', 30), (''e1'', 10), (''e2'', 20), (''e9'', 900)]"

theorem error_bursts_are_stream_firings_witness:
  "map (map ee_EventID) (ErrorBursts ex_errors ''r'' 2 15) = [[''e1'', ''e2'']] \<and>
   fired_ids 15 2 (map burst_entry (error_order ex_errors ''r'')) empty_window = [[''e1'', ''e2'']]"
proof -
  have "fired_ids 15 2 (map burst_entry (error_order ex_errors ''r'')) empty_window = [[''e1'', ''e2'']]"
    by code_simp
  then show ?thesis using error_bursts_are_stream_firings [of 15 ex_errors "''r''" 2] by simp
qed

end
