(* ===== verification/IdentObs.thy ===== *)
theory IdentObs
  imports Boundary Sha256
begin

text \<open>
  \<open>internal/identobs/observation.go\<close>: identity, authentication and data observations read
  from the attributes of a telemetry event, with sensitive attributes removed first.
\<close>

definition EventTypeIdentityActivity :: string where "EventTypeIdentityActivity = ''identity.activity''"
definition EventTypeAuthActivity :: string where "EventTypeAuthActivity = ''auth.activity''"
definition EventTypeDataActivity :: string where "EventTypeDataActivity = ''data.activity''"

definition validIdentityActions :: "string list" where
  "validIdentityActions = [''login'', ''logout'', ''role_change'', ''group_change'', ''account_create'',
     ''account_disable'', ''account_enable'', ''permission_change'']"

definition validAuthOutcomes :: "string list" where
  "validAuthOutcomes = [''success'', ''failure'', ''denied'', ''challenged'', ''unknown'']"

definition validDataActions :: "string list" where
  "validDataActions = [''read'', ''write'', ''delete'', ''export'', ''access'', ''permission_change'']"

record IdentityObservation =
  io_Principal :: string
  io_PrincipalType :: string
  io_Action :: string
  io_Target :: string
  io_TargetType :: string
  io_Result :: string
  io_Provider :: string
  io_Role :: string
  io_Group :: string
  io_AuthenticationMethod :: string
  io_RequestID :: string

record AuthObservation =
  ao_Principal :: string
  ao_AuthenticationMethod :: string
  ao_Outcome :: string
  ao_Provider :: string
  ao_Target :: string
  ao_FailureReason :: string
  ao_RequestID :: string
  ao_Source :: string

record DataObservation =
  do_Store :: string
  do_DataType :: string
  do_Resource :: string
  do_Action :: string
  do_Principal :: string
  do_Result :: string
  do_Classification :: string
  do_Bytes :: int
  do_HasBytes :: bool
  do_Destination :: string
  do_AccessType :: string

text \<open>
  \<open>Observation\<close> carries one of three payloads; the other two keep their zero values, which
  nothing reads, so the payload is a sum here.
\<close>

datatype payload = IdentityPayload IdentityObservation | AuthPayload AuthObservation | DataPayload DataObservation

record Observation =
  ob_EventID :: string
  ob_Source :: string
  ob_AssetID :: string
  ob_OccurredAt :: gotime
  ob_Severity :: enum
  ob_Type :: string
  ob_Payload :: payload
  ob_RawAttrs :: attrs

text \<open>\<open>event.GetOccurredAt().AsTime()\<close>: a missing timestamp reads as the Unix epoch.\<close>

definition occurred :: "pblib \<Rightarrow> TelemetryEvent \<Rightarrow> gotime" where
  "occurred L e = (case te_occurred_at e of None \<Rightarrow> 0 | Some t \<Rightarrow> ts_AsTime L t)"

definition cleanAttrs :: "attrs \<Rightarrow> attrs" where
  "cleanAttrs m = fmfilter (\<lambda>k. \<not> SensitiveField k) m"

abbreviation (input) trimmed :: "attrs \<Rightarrow> string \<Rightarrow> string" where
  "trimmed m k \<equiv> TrimSpace (attr m k)"

abbreviation (input) lowered :: "attrs \<Rightarrow> string \<Rightarrow> string" where
  "lowered m k \<equiv> ToLower (TrimSpace (attr m k))"

definition base_observation :: "pblib \<Rightarrow> TelemetryEvent \<Rightarrow> string \<Rightarrow> payload \<Rightarrow> attrs \<Rightarrow> Observation" where
  "base_observation L e typ p m =
     \<lparr> ob_EventID = te_id e, ob_Source = te_source e, ob_AssetID = te_asset_id e,
       ob_OccurredAt = occurred L e, ob_Severity = te_severity e, ob_Type = typ,
       ob_Payload = p, ob_RawAttrs = m \<rparr>"

definition parseIdentity :: "pblib \<Rightarrow> TelemetryEvent \<Rightarrow> Observation res" where
  "parseIdentity L e =
     (let m = cleanAttrs (te_attributes e);
          principal = trimmed m ''identity.principal'';
          action = lowered m ''identity.action'' in
      if principal = [] then Inl (Plain ''identobs: identity.principal required'')
      else if action = [] then Inl (Plain ''identobs: identity.action required'')
      else if action \<notin> set validIdentityActions then Inl (Plain ''identobs: unknown identity.action'')
      else Inr (base_observation L e EventTypeIdentityActivity (IdentityPayload
        \<lparr> io_Principal = principal,
          io_PrincipalType = lowered m ''identity.principal_type'',
          io_Action = action,
          io_Target = trimmed m ''identity.target'',
          io_TargetType = lowered m ''identity.target_type'',
          io_Result = lowered m ''identity.result'',
          io_Provider = trimmed m ''identity.provider'',
          io_Role = trimmed m ''identity.role'',
          io_Group = trimmed m ''identity.group'',
          io_AuthenticationMethod = trimmed m ''identity.authentication_method'',
          io_RequestID = trimmed m ''identity.request_id'' \<rparr>) m))"

definition parseAuth :: "pblib \<Rightarrow> TelemetryEvent \<Rightarrow> Observation res" where
  "parseAuth L e =
     (let m = cleanAttrs (te_attributes e);
          principal = trimmed m ''auth.principal'';
          outcome = lowered m ''auth.outcome'' in
      if principal = [] then Inl (Plain ''identobs: auth.principal required'')
      else if outcome = [] then Inl (Plain ''identobs: auth.outcome required'')
      else if outcome \<notin> set validAuthOutcomes then Inl (Plain ''identobs: unknown auth.outcome'')
      else Inr (base_observation L e EventTypeAuthActivity (AuthPayload
        \<lparr> ao_Principal = principal,
          ao_AuthenticationMethod = trimmed m ''auth.authentication_method'',
          ao_Outcome = outcome,
          ao_Provider = trimmed m ''auth.provider'',
          ao_Target = trimmed m ''auth.target'',
          ao_FailureReason = trimmed m ''auth.failure_reason'',
          ao_RequestID = trimmed m ''auth.request_id'',
          ao_Source = trimmed m ''auth.source'' \<rparr>) m))"

definition parseData :: "pblib \<Rightarrow> TelemetryEvent \<Rightarrow> Observation res" where
  "parseData L e =
     (let m = cleanAttrs (te_attributes e);
          resource = trimmed m ''data.resource'';
          action = lowered m ''data.action'';
          bytes = trimmed m ''data.bytes'' in
      if resource = [] then Inl (Plain ''identobs: data.resource required'')
      else if action = [] then Inl (Plain ''identobs: data.action required'')
      else if action \<notin> set validDataActions then Inl (Plain ''identobs: unknown data.action'')
      else
        (case (if bytes = [] then Some (0, False)
               else (case Atoi bytes of None \<Rightarrow> None | Some n \<Rightarrow> if n < 0 then None else Some (n, True))) of
           None \<Rightarrow> Inl (Plain ''identobs: invalid data.bytes'')
         | Some (n, has) \<Rightarrow> Inr (base_observation L e EventTypeDataActivity (DataPayload
        \<lparr> do_Store = trimmed m ''data.data_store'',
          do_DataType = trimmed m ''data.data_type'',
          do_Resource = resource,
          do_Action = action,
          do_Principal = trimmed m ''data.principal'',
          do_Result = lowered m ''data.result'',
          do_Classification = lowered m ''data.classification'',
          do_Bytes = n, do_HasBytes = has,
          do_Destination = trimmed m ''data.destination'',
          do_AccessType = lowered m ''data.access_type'' \<rparr>) m)))"

definition ident_Parse :: "pblib \<Rightarrow> TelemetryEvent option \<Rightarrow> Observation res" where
  "ident_Parse L p =
     (case p of None \<Rightarrow> Inl (Plain ''identobs: nil event'') | Some e \<Rightarrow>
        if te_event_type e = EventTypeIdentityActivity then parseIdentity L e
        else if te_event_type e = EventTypeAuthActivity then parseAuth L e
        else if te_event_type e = EventTypeDataActivity then parseData L e
        else Inl (Plain ''identobs: unknown event_type''))"

text \<open>The deterministic id: a digest over the type and the identifying fields.\<close>

definition observation_key :: "Observation \<Rightarrow> string" where
  "observation_key o1 = ob_Type o1 @ US @
     (case ob_Payload o1 of
        IdentityPayload i \<Rightarrow> io_Principal i @ US @ io_Action i @ US @ io_Target i
      | AuthPayload a \<Rightarrow> ao_Principal a @ US @ ao_Outcome a @ US @ ao_Target a
      | DataPayload d \<Rightarrow> do_Resource d @ US @ do_Action d @ US @ do_Principal d)"

definition observation_ID :: "Observation \<Rightarrow> string" where
  "observation_ID o1 = ''identobs-'' @ id16 (observation_key o1)"

subsection \<open>Facts\<close>

lemma attr_clean_sensitive: "SensitiveField k \<Longrightarrow> attr (cleanAttrs m) k = []"
  by (simp add: attr_def cleanAttrs_def)

lemma clean_no_sensitive: "k \<in> fmdom' (cleanAttrs m) \<Longrightarrow> \<not> SensitiveField k"
  by (auto simp: cleanAttrs_def fmlookup_dom'_iff split: if_splits)

lemma ident_Parse_Inr:
  assumes "ident_Parse L (Some e) = Inr o1"
  shows "ob_RawAttrs o1 = cleanAttrs (te_attributes e) \<and> ob_EventID o1 = te_id e \<and>
    ob_Severity o1 = te_severity e \<and> ob_OccurredAt o1 = occurred L e \<and> ob_Type o1 = te_event_type e \<and>
    (case ob_Payload o1 of
       IdentityPayload i \<Rightarrow> te_event_type e = EventTypeIdentityActivity \<and> io_Principal i \<noteq> [] \<and>
         io_Action i \<in> set validIdentityActions
     | AuthPayload a \<Rightarrow> te_event_type e = EventTypeAuthActivity \<and> ao_Principal a \<noteq> [] \<and>
         ao_Outcome a \<in> set validAuthOutcomes
     | DataPayload d \<Rightarrow> te_event_type e = EventTypeDataActivity \<and> do_Resource d \<noteq> [] \<and>
         do_Action d \<in> set validDataActions \<and> 0 \<le> do_Bytes d)"
  using assms
  by (auto simp: ident_Parse_def parseIdentity_def parseAuth_def parseData_def base_observation_def Let_def
      split: if_splits option.splits)

text \<open>
  Redaction happens before parsing: two events that differ only in sensitive attributes
  parse to the same observation or the same error, and no parsed observation carries a
  sensitive key.
\<close>

theorem parse_ignores_sensitive:
  assumes "cleanAttrs m = cleanAttrs (te_attributes e)"
  shows "ident_Parse L (Some (e\<lparr>te_attributes := m\<rparr>)) = ident_Parse L (Some e) \<and>
    (\<forall>o1 k. ident_Parse L (Some e) = Inr o1 \<longrightarrow> k \<in> fmdom' (ob_RawAttrs o1) \<longrightarrow> \<not> SensitiveField k)"
proof -
  let ?e = "e\<lparr>te_attributes := m\<rparr>"
  have base: "base_observation L ?e = base_observation L e"
    by (intro ext) (simp add: base_observation_def occurred_def)
  have attrs: "cleanAttrs (te_attributes ?e) = cleanAttrs (te_attributes e)" using assms by simp
  have "parseIdentity L ?e = parseIdentity L e" unfolding parseIdentity_def base attrs ..
  moreover have "parseAuth L ?e = parseAuth L e" unfolding parseAuth_def base attrs ..
  moreover have "parseData L ?e = parseData L e" unfolding parseData_def base attrs ..
  ultimately have "ident_Parse L (Some ?e) = ident_Parse L (Some e)" by (simp add: ident_Parse_def)
  then show ?thesis using ident_Parse_Inr clean_no_sensitive by metis
qed

definition ex_login :: TelemetryEvent where
  "ex_login = \<lparr>te_id = ''e1'', te_occurred_at = Some (Timestamp 5 0), te_source = ''idp'', te_asset_id = ''h1'',
     te_identity_id = [], te_event_type = ''auth.activity'', te_severity = SEVERITY_LOW,
     te_attributes = fmap_of_list [(''auth.principal'', ''alice''), (''auth.outcome'', '' Failure'')], te_raw = []\<rparr>"

theorem parse_ignores_sensitive_witness:
  "ident_Parse example_pb (Some (ex_login\<lparr>te_attributes :=
      fmupd ''session_token'' ''s3cret'' (te_attributes ex_login)\<rparr>)) = ident_Parse example_pb (Some ex_login) \<and>
   SensitiveField ''session_token''"
proof -
  have "SensitiveField ''session_token''" by code_simp
  then have "cleanAttrs (fmupd ''session_token'' ''s3cret'' (te_attributes ex_login)) = cleanAttrs (te_attributes ex_login)"
    by (intro fmap_ext) (auto simp: cleanAttrs_def)
  then show ?thesis using parse_ignores_sensitive \<open>SensitiveField _\<close> by blast
qed

end
