(* ===== verification/Rules.thy ===== *)
theory Rules
  imports Windows IdentObs GoTime
begin

text \<open>
  The detection rules of \<open>internal/detect\<close>: the waf rules of \<open>rules.go\<close>, the identity rules
  of \<open>identity.go\<close> and the multi-stage rule of \<open>threat.go\<close>. A rule answers one event with an
  outcome or an error; a stateful rule also returns its new state. Rules guarded by their
  clock get the instant the clock returns. The locale \<open>sound_rule\<close> is what the detection
  builder relies on; every rule here interprets it.
\<close>

subsection \<open>Outcomes\<close>

record Outcome =
  oc_Matched :: bool
  oc_Severity :: enum
  oc_Confidence :: double
  oc_Title :: string
  oc_Detail :: string
  oc_EventIDs :: "string list"
  oc_Attrs :: attrs

text \<open>The zero \<open>Outcome{}\<close>: no match.\<close>

definition no_match :: Outcome where
  "no_match = \<lparr>oc_Matched = False, oc_Severity = SEVERITY_UNSPECIFIED, oc_Confidence = Fin 0,
     oc_Title = [], oc_Detail = [], oc_EventIDs = [], oc_Attrs = fmempty\<rparr>"

definition match :: "enum \<Rightarrow> string \<Rightarrow> string \<Rightarrow> string list \<Rightarrow> (string \<times> string) list \<Rightarrow> Outcome" where
  "match sev title detail ids attrs = \<lparr>oc_Matched = True, oc_Severity = sev, oc_Confidence = Fin 0,
     oc_Title = title, oc_Detail = detail, oc_EventIDs = ids, oc_Attrs = fmap_of_list attrs\<rparr>"

definition errNilEvent :: err where
  "errNilEvent = Plain ''detect: rule received nil event''"

text \<open>Configuration of a burst rule, and its windows by key.\<close>

record burst_config =
  bc_threshold :: int
  bc_window :: duration

definition NewBurstRule :: "string \<Rightarrow> int \<Rightarrow> duration \<Rightarrow> gotime option \<Rightarrow> burst_config res" where
  "NewBurstRule what threshold window clock =
     (case checkBurstParams threshold window what of
        Some e \<Rightarrow> Inl e
      | None \<Rightarrow>
         (case clock of None \<Rightarrow> Inl (Plain (''detect: '' @ what @ '' clock is nil''))
          | Some _ \<Rightarrow> Inr \<lparr>bc_threshold = threshold, bc_window = window\<rparr>))"

text \<open>The window of a key is created on first use and kept whether it fires or not.\<close>

definition window_of :: "string \<Rightarrow> netWindow gomap \<Rightarrow> netWindow" where
  "window_of key ws = (case fmlookup ws key of None \<Rightarrow> empty_window | Some w \<Rightarrow> w)"

definition window_observe ::
  "burst_config \<Rightarrow> string \<Rightarrow> gotime \<Rightarrow> TelemetryEvent \<Rightarrow> netWindow gomap \<Rightarrow> bool \<times> netWindow \<times> netWindow gomap" where
  "window_observe r key at e ws =
     (case observe at (te_id e) (te_severity e) (bc_window r) (bc_threshold r) (window_of key ws) of
        (reached, w) \<Rightarrow> (reached, w, fmupd key w ws))"

definition burst_attrs :: "burst_config \<Rightarrow> netWindow \<Rightarrow> (string \<times> string) list" where
  "burst_attrs r w =
     [(''threshold'', itoa (bc_threshold r)), (''window'', duration_String (bc_window r)),
      (''count'', itoa (int (length (nw_entries w))))]"

abbreviation (input) count_of :: "netWindow \<Rightarrow> string" where
  "count_of w \<equiv> itoa (int (length (nw_entries w)))"

subsection \<open>Waf rules (\<open>rules.go\<close>)\<close>

definition BlockHighSeverity_Evaluate :: "TelemetryEvent option \<Rightarrow> Outcome res" where
  "BlockHighSeverity_Evaluate p =
     (case p of None \<Rightarrow> Inl errNilEvent | Some e \<Rightarrow>
        (let sev = te_severity e in
         if te_event_type e \<noteq> ''waf.request_blocked'' \<or> (sev \<noteq> SEVERITY_HIGH \<and> sev \<noteq> SEVERITY_CRITICAL)
           then Inr no_match
         else Inr (match sev ''High-severity blocked request observed''
           (''source '' @ quote (te_source e) @ '' reported event_type '' @ quote (te_event_type e)
             @ '' with severity '' @ enum_String Severity_name sev @ '' for asset '' @ quote (te_asset_id e)
             @ '' (event '' @ te_id e @ '')'')
           [te_id e] [(''match'', ''event_type=waf.request_blocked,severity>=HIGH'')])))"

definition SourceCritical_Evaluate :: "TelemetryEvent option \<Rightarrow> Outcome res" where
  "SourceCritical_Evaluate p =
     (case p of None \<Rightarrow> Inl errNilEvent | Some e \<Rightarrow>
        if te_severity e \<noteq> SEVERITY_CRITICAL then Inr no_match
        else Inr (match SEVERITY_CRITICAL ''Source-declared critical event observed''
          (''source '' @ quote (te_source e) @ '' rated event '' @ quote (te_id e) @ '' (type ''
            @ quote (te_event_type e) @ '', asset '' @ quote (te_asset_id e) @ '') CRITICAL'')
          [te_id e] [(''match'', ''severity=CRITICAL'')]))"

text \<open>
  The blocked-request burst has its own copy of the window step. \<open>BlockBurst_window\<close> is that
  copy; that it is the shared \<open>observe\<close> is a lemma.
\<close>

definition BlockBurst_window ::
  "burst_config \<Rightarrow> gotime \<Rightarrow> TelemetryEvent \<Rightarrow> netWindow \<Rightarrow> bool \<times> netWindow" where
  "BlockBurst_window r at e w =
     (let cutoff = at - bc_window r;
          w1 = w\<lparr>nw_entries := filter (\<lambda>x. \<not> we_at x < cutoff) (nw_entries w)\<rparr>;
          w2 = w1\<lparr>nw_entries := nw_entries w1 @ [\<lparr>we_at = at, we_id = te_id e, we_severity = te_severity e\<rparr>]\<rparr>
      in if int (length (nw_entries w2)) < bc_threshold r then (False, w2\<lparr>nw_fired := False\<rparr>)
         else if nw_fired w2 then (False, w2)
         else (True, w2\<lparr>nw_fired := True\<rparr>))"

definition BlockBurst_Evaluate ::
  "pblib \<Rightarrow> burst_config \<Rightarrow> gotime \<Rightarrow> TelemetryEvent option \<Rightarrow> netWindow gomap \<Rightarrow> Outcome res \<times> netWindow gomap" where
  "BlockBurst_Evaluate L r now p ws =
     (case p of None \<Rightarrow> (Inl errNilEvent, ws) | Some e \<Rightarrow>
        if te_event_type e \<noteq> ''waf.request_blocked'' then (Inr no_match, ws)
        else
         (case checkNetClock now ''burst'' of
            Some x \<Rightarrow> (Inl x, ws)
          | None \<Rightarrow>
             (let at = occurred L e in
              if IsZero at then (Inl (Plain ''detect: burst needs event occurred_at''), ws)
              else
               (case BlockBurst_window r at e (window_of (te_asset_id e) ws) of
                  (reached, w) \<Rightarrow>
                    (if reached then
                       Inr (match (window_peak w) ''Blocked-request burst observed''
                         (count_of w @ '' blocked requests for asset '' @ quote (te_asset_id e) @ '' within ''
                           @ duration_String (bc_window r) @ '' (threshold '' @ itoa (bc_threshold r) @ '')'')
                         (window_ids w) (burst_attrs r w))
                     else Inr no_match,
                     fmupd (te_asset_id e) w ws)))))"

subsection \<open>Identity rules (\<open>identity.go\<close>)\<close>

definition IdentityPrivilegeChange_Evaluate :: "pblib \<Rightarrow> TelemetryEvent option \<Rightarrow> Outcome res" where
  "IdentityPrivilegeChange_Evaluate L p =
     (case p of None \<Rightarrow> Inl errNilEvent | Some e \<Rightarrow>
        if te_event_type e \<noteq> EventTypeIdentityActivity then Inr no_match
        else
         (case ident_Parse L (Some e) of
            Inl x \<Rightarrow> Inl (Ctx ''detect: privilege-change'' x)
          | Inr obs \<Rightarrow>
             (case ob_Payload obs of
                IdentityPayload i \<Rightarrow>
                  if io_Action i \<noteq> ''role_change'' \<and> io_Action i \<noteq> ''permission_change'' then Inr no_match
                  else
                   (let target = (if io_Target i = [] then io_Role i else io_Target i) in
                    Inr (match (te_severity e) ''Identity privilege change observed''
                      (''source '' @ quote (te_source e) @ '' reported '' @ io_Action i @ '' for principal ''
                        @ quote (io_Principal i) @ '' targeting '' @ quote target @ '' (event '' @ te_id e @ '')'')
                      [te_id e]
                      [(''match'', ''action='' @ io_Action i), (''principal'', io_Principal i), (''target'', target)]))
              | _ \<Rightarrow> Inr no_match)))"

text \<open>
  The two authentication bursts differ in the outcome they count and in their texts; the
  denial rule sorts the sorted ids again.
\<close>

definition auth_burst ::
  "string \<Rightarrow> string \<Rightarrow> string \<Rightarrow> string \<Rightarrow> pblib \<Rightarrow> burst_config \<Rightarrow> gotime \<Rightarrow> TelemetryEvent option
    \<Rightarrow> netWindow gomap \<Rightarrow> Outcome res \<times> netWindow gomap" where
  "auth_burst what outcome title noun L r now p ws =
     (case p of None \<Rightarrow> (Inl errNilEvent, ws) | Some e \<Rightarrow>
        if te_event_type e \<noteq> EventTypeAuthActivity then (Inr no_match, ws)
        else
         (case checkNetClock now what of
            Some x \<Rightarrow> (Inl x, ws)
          | None \<Rightarrow>
         (case ident_Parse L (Some e) of
            Inl x \<Rightarrow> (Inl (Ctx (''detect: '' @ what) x), ws)
          | Inr obs \<Rightarrow>
             (case ob_Payload obs of
                AuthPayload a \<Rightarrow>
                  if ao_Outcome a \<noteq> outcome then (Inr no_match, ws)
                  else if IsZero (ob_OccurredAt obs)
                    then (Inl (Plain (''detect: '' @ what @ '' needs occurred_at'')), ws)
                  else
                   (case window_observe r (ao_Principal a @ US @ te_source e) (ob_OccurredAt obs) e ws of
                      (reached, w, ws1) \<Rightarrow>
                        (if reached then
                           Inr (match (window_peak w) title
                             (count_of w @ '' auth '' @ noun @ '' for principal '' @ quote (ao_Principal a)
                               @ '' within '' @ duration_String (bc_window r) @ '' (threshold ''
                               @ itoa (bc_threshold r) @ '')'')
                             (window_ids w) (burst_attrs r w @ [(''principal'', ao_Principal a)]))
                         else Inr no_match, ws1))
              | _ \<Rightarrow> (Inr no_match, ws)))))"

definition IdentAuthFailureBurst_Evaluate ::
  "pblib \<Rightarrow> burst_config \<Rightarrow> gotime \<Rightarrow> TelemetryEvent option \<Rightarrow> netWindow gomap \<Rightarrow> Outcome res \<times> netWindow gomap" where
  "IdentAuthFailureBurst_Evaluate =
     auth_burst ''ident-auth-failure-burst'' ''failure'' ''Repeated authentication failures observed'' ''failures''"

definition IdentAuthDeniedBurst_Evaluate ::
  "pblib \<Rightarrow> burst_config \<Rightarrow> gotime \<Rightarrow> TelemetryEvent option \<Rightarrow> netWindow gomap \<Rightarrow> Outcome res \<times> netWindow gomap" where
  "IdentAuthDeniedBurst_Evaluate =
     auth_burst ''ident-auth-denied-burst'' ''denied'' ''Repeated authentication denials observed'' ''denials''"

text \<open>The data policy: a set given as a list of its members; an empty list means any.\<close>

record SensitiveDataPolicy =
  sp_Classifications :: "string list"
  sp_Actions :: "string list"
  sp_Principals :: "string list"
  sp_Resources :: "string list"
  sp_Severity :: enum
  sp_Label :: string

definition lower_entries :: "string \<Rightarrow> string list \<Rightarrow> string list res" where
  "lower_entries field xs =
     (let ys = map (\<lambda>s. ToLower (TrimSpace s)) xs in
      if [] \<in> set ys then Inl (Plain (''detect: data policy empty '' @ field @ '' entry'')) else Inr ys)"

definition NewSensitiveDataPolicyRule :: "SensitiveDataPolicy \<Rightarrow> SensitiveDataPolicy res" where
  "NewSensitiveDataPolicyRule p =
     (let actions = map (\<lambda>a. ToLower (TrimSpace a)) (sp_Actions p) in
      if TrimSpace (sp_Label p) = [] then Inl (Plain ''detect: data policy label required'')
      else if sp_Severity p = SEVERITY_UNSPECIFIED
        then Inl (Plain ''detect: data policy explicit severity required'')
      else if \<not> Severity_known (sp_Severity p) then Inl (Plain (''detect: data policy unknown severity '' @ itoa (sp_Severity p)))
      else if \<not> set actions \<subseteq> set validDataActions then Inl (Plain ''detect: data policy unknown action'')
      else
        (case lower_entries ''classification'' (sp_Classifications p) of
           Inl e \<Rightarrow> Inl e
         | Inr cs \<Rightarrow>
            (case lower_entries ''principal'' (sp_Principals p) of
               Inl e \<Rightarrow> Inl e
             | Inr ps \<Rightarrow>
                (case lower_entries ''resource'' (sp_Resources p) of
                   Inl e \<Rightarrow> Inl e
                 | Inr rs \<Rightarrow>
                     Inr \<lparr> sp_Classifications = cs, sp_Actions = actions, sp_Principals = ps,
                           sp_Resources = rs, sp_Severity = sp_Severity p,
                           sp_Label = TrimSpace (sp_Label p) \<rparr>))))"

definition SensitiveDataPolicy_Evaluate ::
  "pblib \<Rightarrow> SensitiveDataPolicy \<Rightarrow> TelemetryEvent option \<Rightarrow> Outcome res" where
  "SensitiveDataPolicy_Evaluate L r p =
     (case p of None \<Rightarrow> Inl errNilEvent | Some e \<Rightarrow>
        if te_event_type e \<noteq> EventTypeDataActivity then Inr no_match
        else
         (case ident_Parse L (Some e) of
            Inl x \<Rightarrow> Inl (Ctx ''detect: data-policy'' x)
          | Inr obs \<Rightarrow>
             (case ob_Payload obs of
                DataPayload d \<Rightarrow>
                  if sp_Classifications r \<noteq> [] \<and> do_Classification d \<notin> set (sp_Classifications r) then Inr no_match
                  else if sp_Actions r \<noteq> [] \<and> do_Action d \<notin> set (sp_Actions r) then Inr no_match
                  else if sp_Principals r \<noteq> [] \<and> ToLower (do_Principal d) \<notin> set (sp_Principals r) then Inr no_match
                  else if sp_Resources r \<noteq> [] \<and> ToLower (do_Resource d) \<notin> set (sp_Resources r) then Inr no_match
                  else
                    Inr (match (sp_Severity r) ''Sensitive-data access policy violation''
                      (''source '' @ quote (te_source e) @ '' observed '' @ do_Action d @ '' on ''
                        @ quote (do_Resource d) @ '' by '' @ quote (do_Principal d) @ '' matching policy ''
                        @ quote (sp_Label r) @ '' (event '' @ te_id e @ '')'')
                      [te_id e]
                      [(''policy'', sp_Label r),
                       (''match'', ''classification='' @ do_Classification d @ '',action='' @ do_Action d)])
              | _ \<Rightarrow> Inr no_match)))"

subsection \<open>Multi-stage rule (\<open>threat.go\<close>)\<close>

record stageFailure =
  sf_at :: gotime
  sf_id :: string

record multi_state =
  ms_failures :: "stageFailure list gomap"
  ms_firedSets :: "string gomap"

definition joinStageIDs :: "string list \<Rightarrow> string" where
  "joinStageIDs ids = join US ids"

definition failures_of :: "string \<Rightarrow> multi_state \<Rightarrow> stageFailure list" where
  "failures_of who s = (case fmlookup (ms_failures s) who of None \<Rightarrow> [] | Some fs \<Rightarrow> fs)"

definition MultiStage_Evaluate ::
  "pblib \<Rightarrow> burst_config \<Rightarrow> gotime \<Rightarrow> TelemetryEvent option \<Rightarrow> multi_state \<Rightarrow> Outcome res \<times> multi_state" where
  "MultiStage_Evaluate L r now p s =
     (case p of None \<Rightarrow> (Inl errNilEvent, s) | Some e \<Rightarrow>
       (case checkNetClock now ''multi-stage'' of
          Some x \<Rightarrow> (Inl x, s)
        | None \<Rightarrow>
         if te_event_type e \<noteq> EventTypeAuthActivity \<and> te_event_type e \<noteq> EventTypeIdentityActivity
           then (Inr no_match, s)
         else
         (case ident_Parse L (Some e) of
            Inl x \<Rightarrow> (Inl (Ctx ''detect: multi-stage'' x), s)
          | Inr obs \<Rightarrow>
             (let at = ob_OccurredAt obs in
              case ob_Payload obs of
                AuthPayload a \<Rightarrow>
                  if ao_Outcome a \<noteq> ''failure'' then (Inr no_match, s)
                  else if IsZero at then (Inl (Plain ''detect: multi-stage needs occurred_at''), s)
                  else (Inr no_match,
                    s\<lparr>ms_failures := fmupd (ao_Principal a)
                        (failures_of (ao_Principal a) s @ [\<lparr>sf_at = at, sf_id = te_id e\<rparr>]) (ms_failures s)\<rparr>)
              | IdentityPayload i \<Rightarrow>
                  if io_Action i \<noteq> ''role_change'' \<and> io_Action i \<noteq> ''permission_change'' then (Inr no_match, s)
                  else if IsZero at then (Inl (Plain ''detect: multi-stage needs occurred_at''), s)
                  else
                   (let who = io_Principal i;
                        kept = filter (\<lambda>f. 0 \<le> time_Sub at (sf_at f) \<and> time_Sub at (sf_at f) \<le> bc_window r)
                                 (failures_of who s);
                        s1 = s\<lparr>ms_failures := fmupd who kept (ms_failures s)\<rparr>;
                        ids = sort (map sf_id kept)
                    in if int (length kept) < bc_threshold r then (Inr no_match, s1)
                       else if attr (ms_firedSets s1) who = joinStageIDs ids then (Inr no_match, s1)
                       else
                         (Inr (match (te_severity e) ''Multi-stage correlated activity observed''
                            (itoa (int (length kept)) @ '' auth failures for principal '' @ quote who
                              @ '' followed by privilege change within '' @ duration_String (bc_window r)
                              @ '' (threshold '' @ itoa (bc_threshold r) @ '')'')
                            (sort (ids @ [te_id e]))
                            [(''threshold'', itoa (bc_threshold r)), (''window'', duration_String (bc_window r)),
                             (''count'', itoa (int (length kept))), (''principal'', who)]),
                          s1\<lparr>ms_firedSets := fmupd who (joinStageIDs ids) (ms_firedSets s1)\<rparr>))
              | DataPayload d \<Rightarrow> (Inr no_match, s)))))"

subsection \<open>The contract of a rule\<close>

text \<open>
  What the detection builder needs from a matched outcome. The events are those that pass the
  contract boundary.
\<close>

definition good_event :: "pblib \<Rightarrow> TelemetryEvent \<Rightarrow> bool" where
  "good_event L e \<longleftrightarrow> ValidateTelemetryEvent L (Some e) = None"

lemma good_event_facts:
  "good_event L e \<Longrightarrow> te_id e \<noteq> [] \<and> te_source e \<noteq> [] \<and> te_asset_id e \<noteq> [] \<and> te_event_type e \<noteq> [] \<and>
     SEVERITY_INFO \<le> te_severity e \<and> te_severity e \<le> SEVERITY_CRITICAL"
  by (simp add: good_event_def ValidateTelemetryEvent_def boundary)

definition buildable :: "Outcome \<Rightarrow> bool" where
  "buildable oc \<longleftrightarrow> oc_EventIDs oc \<noteq> [] \<and> [] \<notin> set (oc_EventIDs oc) \<and>
     SEVERITY_INFO \<le> oc_Severity oc \<and> oc_Severity oc \<le> SEVERITY_CRITICAL \<and>
     \<not> bad_confidence (oc_Confidence oc) \<and> oc_Title oc \<noteq> [] \<and> oc_Detail oc \<noteq> [] \<and>
     (\<forall>k \<in> fmdom' (oc_Attrs oc). \<not> has_prefix ''blueveil.'' k)"

lemma match_sel [simp]:
  "oc_Matched (match sev t d ids m)" "oc_Severity (match sev t d ids m) = sev"
  "oc_Confidence (match sev t d ids m) = Fin 0" "oc_Title (match sev t d ids m) = t"
  "oc_Detail (match sev t d ids m) = d" "oc_EventIDs (match sev t d ids m) = ids"
  "oc_Attrs (match sev t d ids m) = fmap_of_list m" "\<not> oc_Matched no_match"
  by (simp_all add: match_def no_match_def)

definition plain_attrs :: "(string \<times> string) list \<Rightarrow> bool" where
  "plain_attrs m \<longleftrightarrow> list_all (\<lambda>kv. \<not> has_prefix ''blueveil.'' (fst kv)) m"

lemma plain_attrs_simps [simp]:
  "plain_attrs []" "plain_attrs (kv # m) \<longleftrightarrow> \<not> has_prefix ''blueveil.'' (fst kv) \<and> plain_attrs m"
  "plain_attrs (m @ m') \<longleftrightarrow> plain_attrs m \<and> plain_attrs m'" "plain_attrs (burst_attrs r w)"
  by (simp_all add: plain_attrs_def burst_attrs_def)

lemma buildable_match:
  "ids \<noteq> [] \<Longrightarrow> [] \<notin> set ids \<Longrightarrow> SEVERITY_INFO \<le> sev \<Longrightarrow> sev \<le> SEVERITY_CRITICAL \<Longrightarrow> t \<noteq> [] \<Longrightarrow> d \<noteq> [] \<Longrightarrow>
   plain_attrs m \<Longrightarrow> buildable (match sev t d ids m)"
  by (force simp: buildable_def plain_attrs_def list_all_iff fmlookup_dom'_iff fmlookup_of_list dest!: map_of_SomeD)

text \<open>
  A rule evaluates an event over its own state, at the instant its clock reads. \<open>feed\<close> is the
  state after a stream of such evaluations, whatever they returned.
\<close>

fun feed :: "(gotime \<Rightarrow> TelemetryEvent \<Rightarrow> 's \<Rightarrow> Outcome res \<times> 's) \<Rightarrow> (gotime \<times> TelemetryEvent) list \<Rightarrow> 's \<Rightarrow> 's" where
  "feed eval [] s = s"
| "feed eval ((now, e) # es) s = feed eval es (snd (eval now e s))"

lemma feed_snoc: "feed eval (es @ [(now, e)]) s = snd (eval now e (feed eval es s))"
  by (induction es arbitrary: s) auto

text \<open>
  The engine relies on two laws: good events keep the state in order, and every match on a
  good event is buildable and names the event.
\<close>

locale sound_rule =
  fixes eval :: "gotime \<Rightarrow> TelemetryEvent \<Rightarrow> 's \<Rightarrow> Outcome res \<times> 's"
    and ok :: "'s \<Rightarrow> bool"
    and good :: "TelemetryEvent \<Rightarrow> bool"
  assumes keeps: "ok s \<Longrightarrow> good e \<Longrightarrow> ok (snd (eval now e s))"
    and sound: "ok s \<Longrightarrow> good e \<Longrightarrow> fst (eval now e s) = Inr oc \<Longrightarrow> oc_Matched oc \<Longrightarrow>
      buildable oc \<and> te_id e \<in> set (oc_EventIDs oc)"
begin

lemma feed_ok: "ok s \<Longrightarrow> \<forall>x \<in> set es. good (snd x) \<Longrightarrow> ok (feed eval es s)"
  by (induction es arbitrary: s) (auto simp: keeps)

lemma feed_sound:
  "ok s \<Longrightarrow> \<forall>x \<in> set es. good (snd x) \<Longrightarrow> good e \<Longrightarrow> fst (eval now e (feed eval es s)) = Inr oc \<Longrightarrow>
    oc_Matched oc \<Longrightarrow> buildable oc \<and> te_id e \<in> set (oc_EventIDs oc)"
  by (rule sound [of "feed eval es s" e]) (simp_all add: feed_ok)

end

subsection \<open>Every rule keeps it\<close>

lemma BlockBurst_window_observe:
  "BlockBurst_window r at e w = observe at (te_id e) (te_severity e) (bc_window r) (bc_threshold r) w"
  by (cases w) (simp add: BlockBurst_window_def observe_def Let_def)

text \<open>The entries of a window come from events that passed the boundary.\<close>

definition window_ok :: "netWindow \<Rightarrow> bool" where
  "window_ok w \<longleftrightarrow> (\<forall>x \<in> set (nw_entries w). we_id x \<noteq> [] \<and> SEVERITY_INFO \<le> we_severity x \<and>
     we_severity x \<le> SEVERITY_CRITICAL)"

definition windows_ok :: "netWindow gomap \<Rightarrow> bool" where
  "windows_ok ws \<longleftrightarrow> (\<forall>k w. fmlookup ws k = Some w \<longrightarrow> window_ok w)"

lemma windows_ok_simps [simp]: "windows_ok fmempty" "windows_ok ws \<Longrightarrow> window_ok w \<Longrightarrow> windows_ok (fmupd k w ws)"
  "windows_ok ws \<Longrightarrow> window_ok (window_of k ws)"
  by (auto simp: windows_ok_def window_of_def window_ok_def empty_window_def split: option.splits)

lemma observe_ok:
  assumes "window_ok w" and "good_event L e" and "observe at (te_id e) (te_severity e) d n w = (reached, w')"
  shows "window_ok w' \<and> SEVERITY_INFO \<le> window_peak w' \<and> window_peak w' \<le> SEVERITY_CRITICAL \<and>
    window_ids w' \<noteq> [] \<and> [] \<notin> set (window_ids w') \<and> te_id e \<in> set (window_ids w')"
proof -
  have entries: "nw_entries w' = filter (\<lambda>x. \<not> we_at x < at - d) (nw_entries w) @
      [\<lparr>we_at = at, we_id = te_id e, we_severity = te_severity e\<rparr>]"
    using assms(3) by (auto simp: observe_def Let_def split: if_splits)
  then have ok: "window_ok w'" using assms(1) good_event_facts [OF assms(2)] by (auto simp: window_ok_def)
  moreover have "window_peak w' \<le> SEVERITY_CRITICAL"
    using window_peak_source [of w'] ok by (auto simp: window_ok_def)
  moreover have "te_id e \<in> set (window_ids w')" "[] \<notin> set (window_ids w')"
    using ok entries by (auto simp: window_ids_def window_ok_def)
  moreover from this have "window_ids w' \<noteq> []" by auto
  ultimately show ?thesis using window_peak_ge(1) by blast
qed

text \<open>An answer the engine can use: an error, no match, or a buildable match naming the event.\<close>

definition usable :: "TelemetryEvent \<Rightarrow> Outcome res \<Rightarrow> bool" where
  "usable e r \<longleftrightarrow> (case r of Inl x \<Rightarrow> True
     | Inr oc \<Rightarrow> oc_Matched oc \<longrightarrow> buildable oc \<and> te_id e \<in> set (oc_EventIDs oc))"

lemma usable_simps [simp]:
  "usable e (Inl x)" "usable e (Inr no_match)"
  "usable e (Inr (match sev t d ids m)) \<longleftrightarrow> buildable (match sev t d ids m) \<and> te_id e \<in> set ids"
  by (simp_all add: usable_def)

lemma sound_ruleI:
  assumes "\<And>now e s. ok s \<Longrightarrow> good e \<Longrightarrow> ok (snd (eval now e s)) \<and> usable e (fst (eval now e s))"
  shows "sound_rule eval ok good"
proof
  fix s e now oc assume h: "ok s" "good e" "fst (eval now e s) = Inr oc" "oc_Matched oc"
  from assms [OF h(1,2), of now] h(3,4) show "buildable oc \<and> te_id e \<in> set (oc_EventIDs oc)"
    by (simp add: usable_def)
qed (use assms in blast)

lemma block_high_usable: "good_event L e \<Longrightarrow> usable e (BlockHighSeverity_Evaluate (Some e))"
  by (frule good_event_facts) (auto simp: BlockHighSeverity_Evaluate_def Let_def intro!: buildable_match)

lemma source_critical_usable: "good_event L e \<Longrightarrow> usable e (SourceCritical_Evaluate (Some e))"
  by (frule good_event_facts) (auto simp: SourceCritical_Evaluate_def intro!: buildable_match)

text \<open>A window step on a good event, as every burst rule takes it.\<close>

lemma burst_step:
  assumes "good_event L e" and "windows_ok ws"
    and "observe at (te_id e) (te_severity e) d n (window_of k ws) = (reached, w)"
  shows "windows_ok (fmupd k w ws)" and "te_id e \<in> set (window_ids w)"
    and "t \<noteq> [] \<Longrightarrow> dt \<noteq> [] \<Longrightarrow> plain_attrs m \<Longrightarrow> buildable (match (window_peak w) t dt (window_ids w) m)"
  using observe_ok [OF windows_ok_simps(3) [OF assms(2)] assms(1,3)] assms(2)
  by (auto intro!: buildable_match)

lemma block_burst_usable:
  assumes "good_event L e" and "windows_ok ws"
  shows "windows_ok (snd (BlockBurst_Evaluate L r now (Some e) ws)) \<and>
    usable e (fst (BlockBurst_Evaluate L r now (Some e) ws))"
proof -
  obtain reached w where o: "observe (occurred L e) (te_id e) (te_severity e) (bc_window r) (bc_threshold r)
      (window_of (te_asset_id e) ws) = (reached, w)" by fastforce
  show ?thesis
    using burst_step [OF assms o] assms(2)
    by (simp add: BlockBurst_Evaluate_def BlockBurst_window_observe o Let_def split: option.split)
qed

lemma auth_burst_usable:
  assumes "good_event L e" and "windows_ok ws" and "title \<noteq> []"
  shows "windows_ok (snd (auth_burst what outcome title noun L r now (Some e) ws)) \<and>
    usable e (fst (auth_burst what outcome title noun L r now (Some e) ws))"
proof -
  have step: "windows_ok ws1 \<and> te_id e \<in> set (window_ids w) \<and>
      (\<forall>d m. d \<noteq> [] \<longrightarrow> plain_attrs m \<longrightarrow> buildable (match (window_peak w) title d (window_ids w) m))"
    if "window_observe r k at e ws = (reached, w, ws1)" for k at reached w ws1
    using that burst_step [OF assms(1,2)] assms(3) by (auto simp: window_observe_def split: prod.splits)
  show ?thesis
    using assms(2)
    by (auto simp: auth_burst_def split: option.split sum.split payload.split prod.split dest!: step)
qed

lemma privilege_change_usable: "good_event L e \<Longrightarrow> usable e (IdentityPrivilegeChange_Evaluate L (Some e))"
  by (frule good_event_facts)
    (auto simp: IdentityPrivilegeChange_Evaluate_def Let_def intro!: buildable_match split: sum.split payload.split)

text \<open>A policy the constructor accepted.\<close>

definition policy_ok :: "SensitiveDataPolicy \<Rightarrow> bool" where
  "policy_ok r \<longleftrightarrow> SEVERITY_INFO \<le> sp_Severity r \<and> sp_Severity r \<le> SEVERITY_CRITICAL \<and> sp_Label r \<noteq> [] \<and>
     set (sp_Actions r) \<subseteq> set validDataActions \<and> [] \<notin> set (sp_Classifications r) \<and>
     [] \<notin> set (sp_Principals r) \<and> [] \<notin> set (sp_Resources r)"

lemma new_policy_ok: "NewSensitiveDataPolicyRule p = Inr r \<Longrightarrow> policy_ok r"
  by (auto simp: NewSensitiveDataPolicyRule_def policy_ok_def lower_entries_def Let_def boundary
      split: if_splits sum.splits)

lemma data_policy_usable:
  "good_event L e \<Longrightarrow> policy_ok r \<Longrightarrow> usable e (SensitiveDataPolicy_Evaluate L r (Some e))"
  by (frule good_event_facts)
    (auto simp: SensitiveDataPolicy_Evaluate_def policy_ok_def intro!: buildable_match split: sum.split payload.split)

text \<open>The failures recorded carry the ids of good events.\<close>

definition multi_ok :: "multi_state \<Rightarrow> bool" where
  "multi_ok s \<longleftrightarrow> (\<forall>k fs. fmlookup (ms_failures s) k = Some fs \<longrightarrow> [] \<notin> sf_id ` set fs)"

lemma multi_ok_failures: "multi_ok s \<Longrightarrow> [] \<notin> sf_id ` set (failures_of k s)"
  by (cases "fmlookup (ms_failures s) k") (auto simp: multi_ok_def failures_of_def)

lemma sort_snoc_not_Nil [simp]: "sort (xs @ [y]) \<noteq> []"
  by (metis length_0_conv length_sort snoc_eq_iff_butlast)

lemma multi_stage_usable:
  assumes "good_event L e" and "multi_ok s"
  shows "multi_ok (snd (MultiStage_Evaluate L r now (Some e) s)) \<and>
    usable e (fst (MultiStage_Evaluate L r now (Some e) s))"
proof -
  note facts = good_event_facts [OF assms(1)]
  have upd: "multi_ok (s\<lparr>ms_failures := fmupd k fs (ms_failures s)\<rparr>)"
    "multi_ok (s\<lparr>ms_failures := fmupd k fs (ms_failures s), ms_firedSets := fired\<rparr>)" if "[] \<notin> sf_id ` set fs" for k fs fired
    using assms(2) that unfolding multi_ok_def by auto
  show ?thesis
    using facts assms(2) multi_ok_failures [OF assms(2)]
    by (auto simp: MultiStage_Evaluate_def Let_def image_iff
        intro!: buildable_match upd split: option.split sum.split payload.split)
qed

interpretation block_high: sound_rule "\<lambda>now e s. (BlockHighSeverity_Evaluate (Some e), s)" "\<lambda>s :: unit. True" "good_event L" for L
  by (rule sound_ruleI) (simp add: block_high_usable)

interpretation source_critical: sound_rule "\<lambda>now e s. (SourceCritical_Evaluate (Some e), s)" "\<lambda>s :: unit. True" "good_event L" for L
  by (rule sound_ruleI) (simp add: source_critical_usable)

interpretation block_burst: sound_rule "\<lambda>now e. BlockBurst_Evaluate L r now (Some e)" windows_ok "good_event L" for L r
  by (rule sound_ruleI) (simp add: block_burst_usable)

interpretation auth_failure_burst: sound_rule "\<lambda>now e. IdentAuthFailureBurst_Evaluate L r now (Some e)" windows_ok "good_event L" for L r
  by (rule sound_ruleI) (simp add: IdentAuthFailureBurst_Evaluate_def auth_burst_usable)

interpretation auth_denied_burst: sound_rule "\<lambda>now e. IdentAuthDeniedBurst_Evaluate L r now (Some e)" windows_ok "good_event L" for L r
  by (rule sound_ruleI) (simp add: IdentAuthDeniedBurst_Evaluate_def auth_burst_usable)

interpretation privilege_change: sound_rule "\<lambda>now e s. (IdentityPrivilegeChange_Evaluate L (Some e), s)" "\<lambda>s :: unit. True" "good_event L" for L
  by (rule sound_ruleI) (simp add: privilege_change_usable)

interpretation data_policy: sound_rule "\<lambda>now e r. (SensitiveDataPolicy_Evaluate L r (Some e), r)" policy_ok "good_event L" for L
  by (rule sound_ruleI) (simp add: data_policy_usable)

interpretation multi_stage: sound_rule "\<lambda>now e. MultiStage_Evaluate L r now (Some e)" multi_ok "good_event L" for L r
  by (rule sound_ruleI) (simp add: multi_stage_usable)

end
