(* ===== verification/RuleStreams.thy ===== *)
theory RuleStreams
  imports Rules "HOL-Library.Sublist"
begin

text \<open>
  What a match of a stateful rule refers to, over any stream of events fed to it: the
  multi-stage rule and the authentication bursts only count events that were really
  observed, of the right kind and in the window.
\<close>

subsection \<open>What a match refers to\<close>

lemma subseq_append_right [simp]: "subseq xs (xs @ zs)"
  by (rule list_emb_prefix) simp

lemma subseq_mapD: "subseq xs (map f ys) \<Longrightarrow> \<exists>zs. subseq zs ys \<and> xs = map f zs"
proof (induction ys arbitrary: xs)
  case (Cons y ys)
  show ?case
  proof (cases "\<exists>xs'. xs = f y # xs' \<and> subseq xs' (map f ys)")
    case True
    then obtain xs' zs where "xs = f y # xs'" "subseq zs ys" "xs' = map f zs" using Cons.IH by blast
    then have "subseq (y # zs) (y # ys) \<and> xs = map f (y # zs)" by simp
    then show ?thesis by blast
  next
    case False
    then have "subseq xs (map f ys)" using Cons.prems by (auto elim: list_emb.cases)
    then show ?thesis using Cons.IH by (meson list_emb_Cons)
  qed
qed (auto dest: list_emb_Nil2)

text \<open>The events one rule counts: authentications of a principal with one outcome.\<close>

definition auth_with :: "pblib \<Rightarrow> string \<Rightarrow> string \<Rightarrow> TelemetryEvent \<Rightarrow> bool" where
  "auth_with L outcome who e \<longleftrightarrow>
     (case ident_Parse L (Some e) of Inl x \<Rightarrow> False
      | Inr obs \<Rightarrow> (case ob_Payload obs of AuthPayload a \<Rightarrow> ao_Outcome a = outcome \<and> ao_Principal a = who
                    | _ \<Rightarrow> False))"

definition changes :: "pblib \<Rightarrow> string \<Rightarrow> TelemetryEvent \<Rightarrow> bool" where
  "changes L who e \<longleftrightarrow>
     (case ident_Parse L (Some e) of Inl x \<Rightarrow> False
      | Inr obs \<Rightarrow> (case ob_Payload obs of
           IdentityPayload i \<Rightarrow> io_Principal i = who \<and> (io_Action i = ''role_change'' \<or> io_Action i = ''permission_change'')
         | _ \<Rightarrow> False))"

definition stage :: "pblib \<Rightarrow> TelemetryEvent \<Rightarrow> stageFailure" where
  "stage L e = \<lparr>sf_at = occurred L e, sf_id = te_id e\<rparr>"

definition multi_empty :: multi_state where
  "multi_empty = \<lparr>ms_failures = fmempty, ms_firedSets = fmempty\<rparr>"

abbreviation multi_eval :: "pblib \<Rightarrow> burst_config \<Rightarrow> gotime \<Rightarrow> TelemetryEvent \<Rightarrow> multi_state \<Rightarrow> Outcome res \<times> multi_state" where
  "multi_eval L r now e \<equiv> MultiStage_Evaluate L r now (Some e)"

lemma failures_of_simps [simp]:
  "failures_of who multi_empty = []"
  "failures_of who (s\<lparr>ms_failures := fmupd k fs (ms_failures s)\<rparr>) = (if who = k then fs else failures_of who s)"
  "failures_of who (s\<lparr>ms_failures := fmupd k fs (ms_failures s), ms_firedSets := b\<rparr>) = (if who = k then fs else failures_of who s)"
  by (simp_all add: failures_of_def multi_empty_def)

text \<open>One evaluation appends the event's failure or drops some of the recorded ones.\<close>

lemma multi_eval_failures:
  "subseq (failures_of who (snd (multi_eval L r now e s)))
     (failures_of who s @ (if auth_with L ''failure'' who e then [stage L e] else []))"
proof (cases "ident_Parse L (Some e)")
  case (Inl x)
  then show ?thesis by (simp add: MultiStage_Evaluate_def auth_with_def split: option.split)
next
  case (Inr obs)
  note facts = ident_Parse_Inr [OF Inr]
  show ?thesis
  proof (cases "ob_Payload obs")
    case (AuthPayload a)
    then show ?thesis using facts Inr
      by (simp add: MultiStage_Evaluate_def auth_with_def stage_def Let_def split: option.split)
  next
    case (IdentityPayload i)
    then show ?thesis using facts Inr
      by (simp add: MultiStage_Evaluate_def auth_with_def Let_def split: option.split)
  next
    case (DataPayload d)
    then show ?thesis using facts Inr
      by (simp add: MultiStage_Evaluate_def auth_with_def Let_def split: option.split)
  qed
qed

lemma multi_feed_failures:
  "subseq (failures_of who (feed (multi_eval L r) es multi_empty))
     (map (stage L) (filter (auth_with L ''failure'' who) (map snd es)))"
proof (induction es rule: rev_induct)
  case (snoc x es)
  obtain now e where x: "x = (now, e)" by (cases x)
  let ?s = "feed (multi_eval L r) es multi_empty"
  let ?new = "if auth_with L ''failure'' who e then [stage L e] else []"
  have "subseq (failures_of who ?s @ ?new)
      (map (stage L) (filter (auth_with L ''failure'' who) (map snd es)) @ ?new)"
    using snoc.IH by (intro list_emb_append_mono) auto
  from subseq_order.order_trans [OF multi_eval_failures [of who L r now e] this] show ?case
    by (cases "auth_with L ''failure'' who e") (simp_all add: x feed_snoc)
qed simp

text \<open>A match of the rule, taken apart.\<close>

lemma multi_eval_match:
  assumes "fst (multi_eval L r now e s) = Inr oc" and "oc_Matched oc"
  obtains i obs kept where "ident_Parse L (Some e) = Inr obs" and "ob_Payload obs = IdentityPayload i"
    and "changes L (io_Principal i) e"
    and "kept = filter (\<lambda>f. 0 \<le> time_Sub (occurred L e) (sf_at f) \<and> time_Sub (occurred L e) (sf_at f) \<le> bc_window r)
      (failures_of (io_Principal i) s)"
    and "bc_threshold r \<le> int (length kept)" and "oc_EventIDs oc = sort (sort (map sf_id kept) @ [te_id e])"
    and "oc_Severity oc = te_severity e"
proof -
  obtain obs where obs: "ident_Parse L (Some e) = Inr obs"
    using assms by (auto simp: MultiStage_Evaluate_def split: option.splits if_splits sum.splits)
  note facts = ident_Parse_Inr [OF obs]
  obtain i where i: "ob_Payload obs = IdentityPayload i"
    using assms facts obs
    by (cases "ob_Payload obs") (auto simp: MultiStage_Evaluate_def Let_def split: option.splits if_splits)
  show ?thesis
  proof (rule that [OF obs i _ refl])
    show "changes L (io_Principal i) e"
      using assms facts obs i by (auto simp: MultiStage_Evaluate_def changes_def Let_def split: option.splits if_splits)
  qed (use assms facts obs i in \<open>auto simp: MultiStage_Evaluate_def Let_def split: option.splits if_splits\<close>)
qed


text \<open>
  C11. A multi-stage match is backed by what was observed: it is raised by a role or permission
  change of one principal, and names, besides that change, at least threshold many earlier
  authentication failures of the same principal, each not after the change and within the
  window before it. It takes the severity of the change.
\<close>

theorem multi_stage_backed:
  assumes "fst (multi_eval L r now e (feed (multi_eval L r) past multi_empty)) = Inr oc" and "oc_Matched oc"
    and "bc_window r < 2 ^ 63 - 1" and "0 \<le> bc_window r"
  shows "\<exists>who fails. changes L who e \<and> subseq fails (filter (auth_with L ''failure'' who) (map snd past)) \<and>
    bc_threshold r \<le> int (length fails) \<and>
    (\<forall>f \<in> set fails. occurred L f \<le> occurred L e \<and> occurred L e - occurred L f \<le> bc_window r) \<and>
    oc_EventIDs oc = sort (map te_id (fails @ [e])) \<and> oc_Severity oc = te_severity e"
  using assms(1,2)
proof (rule multi_eval_match)
  let ?P = "\<lambda>f. 0 \<le> time_Sub (occurred L e) (sf_at f) \<and> time_Sub (occurred L e) (sf_at f) \<le> bc_window r"
  fix i obs kept
  assume i: "changes L (io_Principal i) e" "bc_threshold r \<le> int (length kept)"
    "oc_EventIDs oc = sort (sort (map sf_id kept) @ [te_id e])" "oc_Severity oc = te_severity e"
    and kept: "kept = filter ?P (failures_of (io_Principal i) (feed (multi_eval L r) past multi_empty))"
  have "subseq kept (map (stage L) (filter (auth_with L ''failure'' (io_Principal i)) (map snd past)))"
    unfolding kept by (rule subseq_order.order_trans [OF subseq_filter_left multi_feed_failures])
  then obtain fails where f: "subseq fails (filter (auth_with L ''failure'' (io_Principal i)) (map snd past))"
    "kept = map (stage L) fails" using subseq_mapD by metis
  have "\<forall>k \<in> set kept. ?P k" unfolding kept by simp
  then have "\<forall>f \<in> set fails. ?P (stage L f)" using f(2) by simp
  then have "\<forall>f \<in> set fails. occurred L f \<le> occurred L e \<and> occurred L e - occurred L f \<le> bc_window r"
    using time_Sub_le [OF assms(3,4)] by (auto simp: stage_def time_Sub_def)
  moreover have "sort (sort (map sf_id kept) @ [te_id e]) = sort (map te_id (fails @ [e]))"
    by (rule properties_for_sort) (simp_all add: f(2) stage_def comp_def)
  ultimately show ?thesis using i f by auto
qed

text \<open>While a principal has no change, its failures are recorded in full and nothing is marked as fired.\<close>

lemma multi_eval_quiet:
  assumes "\<not> changes L who e" and "\<not> IsZero now" and "\<not> IsZero (occurred L e)"
  shows "failures_of who (snd (multi_eval L r now e s)) =
      failures_of who s @ (if auth_with L ''failure'' who e then [stage L e] else [])" (is ?fails)
    and "attr (ms_firedSets (snd (multi_eval L r now e s))) who = attr (ms_firedSets s) who" (is ?fired)
proof -
  have "?fails \<and> ?fired"
  proof (cases "ident_Parse L (Some e)")
    case (Inl x)
    then show ?thesis by (simp add: MultiStage_Evaluate_def auth_with_def split: option.split)
  next
    case (Inr obs)
    note facts = ident_Parse_Inr [OF Inr]
    show ?thesis
      using assms facts Inr
      by (cases "ob_Payload obs")
        (simp_all add: MultiStage_Evaluate_def checkNetClock_def fail_if_def auth_with_def changes_def stage_def
          attr_def Let_def)
  qed
  then show ?fails ?fired by blast+
qed

lemma multi_feed_quiet:
  assumes "\<forall>x \<in> set es. \<not> changes L who (snd x) \<and> \<not> IsZero (fst x) \<and> \<not> IsZero (occurred L (snd x))"
  shows "failures_of who (feed (multi_eval L r) es multi_empty) =
      map (stage L) (filter (auth_with L ''failure'' who) (map snd es)) \<and>
    attr (ms_firedSets (feed (multi_eval L r) es multi_empty)) who = []"
  using assms
proof (induction es rule: rev_induct)
  case (snoc x es)
  obtain now e where x: "x = (now, e)" by (cases x)
  show ?case using snoc by (simp add: x feed_snoc multi_eval_quiet)
qed (simp add: multi_empty_def attr_def failures_of_def)

lemma joinStageIDs_not_Nil: "ids \<noteq> [] \<Longrightarrow> [] \<notin> set ids \<Longrightarrow> joinStageIDs ids \<noteq> []"
  by (cases ids; cases "tl ids") (auto simp: joinStageIDs_def)

text \<open>
  The first change of a principal fires exactly when it should: if no change of this
  principal was fed before, the rule matches if and only if at least threshold many of the
  observed failures lie in the window before the change.
\<close>

theorem multi_stage_first_change:
  assumes "\<forall>x \<in> set past. \<not> changes L who (snd x) \<and> good_event L (snd x) \<and> \<not> IsZero (fst x) \<and>
      \<not> IsZero (occurred L (snd x))"
    and "changes L who e" and "\<not> IsZero now" and "\<not> IsZero (occurred L e)"
    and "0 < bc_threshold r" and "0 \<le> bc_window r" and "bc_window r < 2 ^ 63 - 1"
  shows "(\<exists>oc. fst (multi_eval L r now e (feed (multi_eval L r) past multi_empty)) = Inr oc \<and> oc_Matched oc) \<longleftrightarrow>
    bc_threshold r \<le> int (length (filter (\<lambda>f. auth_with L ''failure'' who f \<and> occurred L f \<le> occurred L e \<and>
      occurred L e - occurred L f \<le> bc_window r) (map snd past)))"
proof -
  obtain obs i where obs: "ident_Parse L (Some e) = Inr obs" "ob_Payload obs = IdentityPayload i"
    "io_Principal i = who" "io_Action i = ''role_change'' \<or> io_Action i = ''permission_change''"
    using assms(2) by (auto simp: changes_def split: sum.splits payload.splits)
  note facts = ident_Parse_Inr [OF obs(1)]
  let ?s = "feed (multi_eval L r) past multi_empty"
  let ?P = "\<lambda>f. 0 \<le> time_Sub (occurred L e) (sf_at f) \<and> time_Sub (occurred L e) (sf_at f) \<le> bc_window r"
  let ?kept = "filter ?P (failures_of who ?s)"
  let ?fails = "filter (\<lambda>f. auth_with L ''failure'' who f \<and> occurred L f \<le> occurred L e \<and>
      occurred L e - occurred L f \<le> bc_window r) (map snd past)"
  have quiet: "failures_of who ?s = map (stage L) (filter (auth_with L ''failure'' who) (map snd past))"
    "attr (ms_firedSets ?s) who = []"
    using multi_feed_quiet [of past L who r] assms(1) by auto
  have "?P (stage L f) \<longleftrightarrow> occurred L f \<le> occurred L e \<and> occurred L e - occurred L f \<le> bc_window r" for f
    using time_Sub_le [OF assms(7,6)] by (auto simp: stage_def time_Sub_def)
  then have kept: "?kept = map (stage L) ?fails"
    unfolding quiet(1) filter_map comp_def filter_filter by (simp add: conj_commute conj_left_commute cong: filter_cong)
  have "[] \<notin> set (map sf_id ?kept)"
    unfolding kept using assms(1) good_event_facts by (fastforce simp: stage_def)
  then have key: "joinStageIDs (sort (map sf_id ?kept)) \<noteq> []" if "?kept \<noteq> []"
    using that by (intro joinStageIDs_not_Nil) (auto simp flip: set_empty)
  have "(\<exists>oc. fst (multi_eval L r now e ?s) = Inr oc \<and> oc_Matched oc) \<longleftrightarrow> bc_threshold r \<le> int (length ?kept)"
  proof (cases "?kept = []")
    case True
    then show ?thesis using obs facts assms(3-5)
      by (auto simp: MultiStage_Evaluate_def checkNetClock_def fail_if_def Let_def)
  next
    case False
    then show ?thesis using obs facts assms(3,4) quiet(2) key [OF False]
      by (auto simp: MultiStage_Evaluate_def checkNetClock_def fail_if_def Let_def not_less)
  qed
  then show ?thesis unfolding kept by simp
qed

subsection \<open>Authentication bursts\<close>

definition counted :: "pblib \<Rightarrow> string \<Rightarrow> string \<Rightarrow> TelemetryEvent \<Rightarrow> bool" where
  "counted L outcome key e \<longleftrightarrow>
     (case ident_Parse L (Some e) of Inl x \<Rightarrow> False
      | Inr obs \<Rightarrow> (case ob_Payload obs of
           AuthPayload a \<Rightarrow> ao_Outcome a = outcome \<and> ao_Principal a @ US @ te_source e = key
         | _ \<Rightarrow> False))"

definition entry :: "pblib \<Rightarrow> TelemetryEvent \<Rightarrow> netWindowEntry" where
  "entry L e = \<lparr>we_at = occurred L e, we_id = te_id e, we_severity = te_severity e\<rparr>"

abbreviation burst_eval where
  "burst_eval what outcome title noun L r now e \<equiv> auth_burst what outcome title noun L r now (Some e)"

lemma window_of_simps [simp]:
  "nw_entries (window_of k fmempty) = []" "window_of k (fmupd k' w ws) = (if k = k' then w else window_of k ws)"
  by (simp_all add: window_of_def empty_window_def)

text \<open>One evaluation either leaves a window alone or appends the event and drops what is too old.\<close>

lemma burst_eval_entries:
  "nw_entries (window_of k (snd (burst_eval what outcome title noun L r now e ws))) = nw_entries (window_of k ws) \<or>
   (counted L outcome k e \<and>
    nw_entries (window_of k (snd (burst_eval what outcome title noun L r now e ws))) =
      filter (\<lambda>x. \<not> we_at x < occurred L e - bc_window r) (nw_entries (window_of k ws)) @ [entry L e])"
proof (cases "ident_Parse L (Some e)")
  case (Inl x)
  then show ?thesis by (simp add: auth_burst_def split: option.split)
next
  case (Inr obs)
  note facts = ident_Parse_Inr [OF Inr]
  then show ?thesis using Inr
    by (cases "ob_Payload obs")
      (auto simp: auth_burst_def counted_def entry_def window_observe_def observe_def Let_def split: option.split)
qed

lemma burst_feed_entries:
  "subseq (nw_entries (window_of k (feed (burst_eval what outcome title noun L r) es fmempty)))
     (map (entry L) (filter (counted L outcome k) (map snd es)))"
proof (induction es rule: rev_induct)
  case (snoc x es)
  obtain now e where x: "x = (now, e)" by (cases x)
  let ?old = "nw_entries (window_of k (feed (burst_eval what outcome title noun L r) es fmempty))"
  let ?all = "map (entry L) (filter (counted L outcome k) (map snd es))"
  have "subseq (filter P ?old) ?all" for P
    by (rule subseq_order.order_trans [OF subseq_filter_left snoc.IH])
  then have "subseq (filter P ?old @ [entry L e]) (?all @ [entry L e])" for P
    by (intro list_emb_append_mono) auto
  moreover have "subseq ?old (?all @ zs)" for zs using snoc.IH by (rule list_emb_prefix)
  ultimately show ?case
    using burst_eval_entries [of k what outcome title noun L r now e "feed (burst_eval what outcome title noun L r) es fmempty"]
    using snoc.IH by (cases "counted L outcome k e") (auto simp: x feed_snoc)
qed simp

lemma burst_eval_match:
  assumes "fst (burst_eval what outcome title noun L r now e ws) = Inr oc" and "oc_Matched oc"
  obtains k w where "window_of k (snd (burst_eval what outcome title noun L r now e ws)) = w" and "counted L outcome k e"
    and "nw_entries w = filter (\<lambda>x. \<not> we_at x < occurred L e - bc_window r) (nw_entries (window_of k ws)) @ [entry L e]"
    and "bc_threshold r \<le> int (length (nw_entries w))" and "oc_EventIDs oc = window_ids w"
    and "oc_Severity oc = window_peak w"
proof -
  obtain obs a where obs: "ident_Parse L (Some e) = Inr obs" "ob_Payload obs = AuthPayload a" "ao_Outcome a = outcome"
    using assms by (auto simp: auth_burst_def split: option.splits if_splits sum.splits payload.splits)
  note facts = ident_Parse_Inr [OF obs(1)]
  let ?k = "ao_Principal a @ US @ te_source e"
  obtain reached w ws1 where o: "window_observe r ?k (occurred L e) e ws = (reached, w, ws1)" by (metis prod_cases3)
  have ws1: "ws1 = fmupd ?k w ws" using o by (auto simp: window_observe_def split: prod.splits)
  have res: "burst_eval what outcome title noun L r now e ws =
    (if reached then Inr (match (window_peak w) title
       (count_of w @ '' auth '' @ noun @ '' for principal '' @ quote (ao_Principal a)
         @ '' within '' @ duration_String (bc_window r) @ '' (threshold '' @ itoa (bc_threshold r) @ '')'')
       (window_ids w) (burst_attrs r w @ [(''principal'', ao_Principal a)])) else Inr no_match, ws1)"
  proof -
    have live: "checkNetClock now what = None" "\<not> IsZero (occurred L e)"
      using assms obs facts by (auto simp: auth_burst_def split: option.splits if_splits)
    show ?thesis using live obs facts o by (simp add: auth_burst_def)
  qed
  then have reached: "reached" "oc_EventIDs oc = window_ids w" "oc_Severity oc = window_peak w"
    using assms by (auto split: if_splits)
  moreover have "window_of ?k (snd (burst_eval what outcome title noun L r now e ws)) = w"
    unfolding res by (simp add: ws1)
  moreover have "counted L outcome ?k e" using obs facts by (simp add: counted_def)
  moreover have "nw_entries w = filter (\<lambda>x. \<not> we_at x < occurred L e - bc_window r) (nw_entries (window_of ?k ws)) @ [entry L e]"
    "bc_threshold r \<le> int (length (nw_entries w))"
    using o reached(1) by (auto simp: window_observe_def observe_def entry_def Let_def split: prod.splits if_splits)
  ultimately show ?thesis using that by blast
qed

lemma burst_backed:
  assumes "fst (burst_eval what outcome title noun L r now e
      (feed (burst_eval what outcome title noun L r) past fmempty)) = Inr oc" and "oc_Matched oc"
    and "\<forall>x \<in> set past. good_event L (snd x)" and "good_event L e"
  shows "\<exists>k ds. subseq ds (filter (counted L outcome k) (map snd past)) \<and> counted L outcome k e \<and>
    bc_threshold r \<le> int (length (ds @ [e])) \<and> (\<forall>d \<in> set ds. occurred L e - occurred L d \<le> bc_window r) \<and>
    oc_EventIDs oc = sort (map te_id (ds @ [e])) \<and> oc_Severity oc = Max (te_severity ` set (ds @ [e]))"
  using assms(1,2)
proof (rule burst_eval_match)
  let ?ws = "feed (burst_eval what outcome title noun L r) past fmempty"
  let ?P = "\<lambda>x. \<not> we_at x < occurred L e - bc_window r"
  fix k w
  assume w: "counted L outcome k e" "nw_entries w = filter ?P (nw_entries (window_of k ?ws)) @ [entry L e]"
    "bc_threshold r \<le> int (length (nw_entries w))" "oc_EventIDs oc = window_ids w" "oc_Severity oc = window_peak w"
  have sub: "subseq (filter ?P (nw_entries (window_of k ?ws))) (map (entry L) (filter (counted L outcome k) (map snd past)))"
    by (rule subseq_order.order_trans [OF subseq_filter_left burst_feed_entries])
  obtain ds where ds: "subseq ds (filter (counted L outcome k) (map snd past))"
    "filter ?P (nw_entries (window_of k ?ws)) = map (entry L) ds" using subseq_mapD [OF sub] by blast
  have entries: "nw_entries w = map (entry L) (ds @ [e])" using w(2) ds(2) by simp
  have "\<forall>x \<in> set (map (entry L) ds). ?P x" unfolding ds(2) [symmetric] by simp
  then have within: "\<forall>d \<in> set ds. occurred L e - occurred L d \<le> bc_window r" by (auto simp: entry_def)
  have ids: "window_ids w = sort (map te_id (ds @ [e]))" by (simp add: window_ids_def entries entry_def comp_def)
  obtain N where "ds = nths (filter (counted L outcome k) (map snd past)) N"
    using ds(1) by (auto simp: subseq_conv_nths)
  then have "set ds \<subseteq> set (filter (counted L outcome k) (map snd past))" using set_nths_subset by metis
  then have "set ds \<subseteq> snd ` set past" by auto
  then have sev: "SEVERITY_INFO \<le> te_severity d" if "d \<in> set (ds @ [e])" for d
    using assms(3,4) good_event_facts that by fastforce
  have peak: "window_peak w = Max (te_severity ` set (ds @ [e]))"
  proof (rule Max_eqI [symmetric])
    show "window_peak w \<in> te_severity ` set (ds @ [e])"
    proof (cases "\<exists>x \<in> set (nw_entries w). we_severity x = window_peak w")
      case True
      then obtain d where "d \<in> set (ds @ [e])" "we_severity (entry L d) = window_peak w" unfolding entries by auto
      then show ?thesis by (force simp: entry_def)
    next
      case False
      then have "window_peak w = SEVERITY_INFO" using window_peak_source by blast
      moreover have "te_severity e \<le> window_peak w"
        using window_peak_ge(2) [of "entry L e" w] by (simp add: entries entry_def)
      ultimately have "te_severity e = window_peak w" using sev [of e] by simp
      then show ?thesis by auto
    qed
    show "y \<le> window_peak w" if "y \<in> te_severity ` set (ds @ [e])" for y
    proof -
      from that obtain d where "d \<in> set (ds @ [e])" "y = te_severity d" by blast
      then have "entry L d \<in> set (nw_entries w)" unfolding entries set_map by blast
      from window_peak_ge(2) [OF this] show ?thesis using \<open>y = _\<close> by (simp add: entry_def)
    qed
  qed simp
  have len: "bc_threshold r \<le> int (length (ds @ [e]))" using w(3) unfolding entries by simp
  show ?thesis
    by (intro exI [of _ k] exI [of _ ds] conjI ds(1) w(1) len within w(4) [unfolded ids] w(5) [unfolded peak])
qed

text \<open>
  A denial burst is backed by denials: a match of the authentication-denial rule names at
  least threshold many denied authentications of one principal at one source, none older
  than the window before the event that fired it, and its severity is the highest of theirs.
\<close>

theorem denied_burst_backed:
  assumes "fst (IdentAuthDeniedBurst_Evaluate L r now (Some e)
      (feed (\<lambda>now e. IdentAuthDeniedBurst_Evaluate L r now (Some e)) past fmempty)) = Inr oc" and "oc_Matched oc"
    and "\<forall>x \<in> set past. good_event L (snd x)" and "good_event L e"
  shows "\<exists>k ds. subseq ds (filter (counted L ''denied'' k) (map snd past)) \<and> counted L ''denied'' k e \<and>
    bc_threshold r \<le> int (length (ds @ [e])) \<and> (\<forall>d \<in> set ds. occurred L e - occurred L d \<le> bc_window r) \<and>
    oc_EventIDs oc = sort (map te_id (ds @ [e])) \<and> oc_Severity oc = Max (te_severity ` set (ds @ [e]))"
  by (rule burst_backed [OF assms [unfolded IdentAuthDeniedBurst_Evaluate_def]])

text \<open>Closed examples: two denials, and two failures followed by a role change.\<close>

definition ex_auth :: "string \<Rightarrow> string \<Rightarrow> int \<Rightarrow> TelemetryEvent" where
  "ex_auth i outcome t = ex_login\<lparr>te_id := i, te_occurred_at := Some (Timestamp t 0),
     te_attributes := fmap_of_list [(''auth.principal'', ''alice''), (''auth.outcome'', outcome)]\<rparr>"

definition ex_change :: "string \<Rightarrow> int \<Rightarrow> TelemetryEvent" where
  "ex_change i t = ex_login\<lparr>te_id := i, te_event_type := ''identity.activity'', te_severity := SEVERITY_HIGH,
     te_occurred_at := Some (Timestamp t 0),
     te_attributes := fmap_of_list [(''identity.principal'', ''alice''), (''identity.action'', ''role_change''), (''identity.role'', ''admin'')]\<rparr>"

definition ex_burst :: burst_config where
  "ex_burst = \<lparr>bc_threshold = 2, bc_window = 60000000000\<rparr>"

lemma ex_good: "good_event example_pb (ex_auth ''a1'' ''denied'' 5)" "good_event example_pb (ex_auth ''a2'' ''denied'' 6)"
  "good_event example_pb (ex_auth ''f1'' ''failure'' 5)" "good_event example_pb (ex_auth ''f2'' ''failure'' 7)"
  by code_simp+

abbreviation ex_denied where
  "ex_denied now e \<equiv> IdentAuthDeniedBurst_Evaluate example_pb ex_burst now (Some e)"

lemma ex_denied_run:
  "(case fst (ex_denied 9 (ex_auth ''a2'' ''denied'' 6) (feed ex_denied [(8, ex_auth ''a1'' ''denied'' 5)] fmempty)) of
      Inl x \<Rightarrow> False | Inr oc \<Rightarrow> oc_Matched oc \<and> oc_EventIDs oc = [''a1'', ''a2''])"
  by code_simp

theorem denied_burst_backed_witness:
  "\<exists>(oc :: Outcome) k ds. oc_EventIDs oc = [''a1'', ''a2''] \<and> counted example_pb ''denied'' k (ex_auth ''a2'' ''denied'' 6) \<and>
    2 \<le> int (length (ds @ [ex_auth ''a2'' ''denied'' 6])) \<and>
    (\<forall>d \<in> set ds. occurred example_pb (ex_auth ''a2'' ''denied'' 6) - occurred example_pb d \<le> 60000000000)"
proof -
  obtain oc where oc: "fst (ex_denied 9 (ex_auth ''a2'' ''denied'' 6) (feed ex_denied [(8, ex_auth ''a1'' ''denied'' 5)] fmempty)) = Inr oc"
    "oc_Matched oc" "oc_EventIDs oc = [''a1'', ''a2'']"
    using ex_denied_run by (simp split: sum.splits)
  have "\<forall>x \<in> set [(8, ex_auth ''a1'' ''denied'' 5)]. good_event example_pb (snd x)" using ex_good by simp
  note backed = denied_burst_backed [OF oc(1,2) this ex_good(2)]
  have num: "bc_threshold ex_burst = 2" "bc_window ex_burst = 60000000000" by (simp_all add: ex_burst_def)
  from backed [unfolded num] show ?thesis by (elim exE conjE) (intro exI conjI; (rule oc(3) | assumption))
qed

definition ex_stages :: "(gotime \<times> TelemetryEvent) list" where
  "ex_stages = [(8, ex_auth ''f1'' ''failure'' 5), (9, ex_auth ''f2'' ''failure'' 7)]"

lemma ex_stages_run:
  "(case fst (multi_eval example_pb ex_burst 9 (ex_change ''c'' 8) (feed (multi_eval example_pb ex_burst) ex_stages multi_empty)) of
      Inl x \<Rightarrow> False | Inr oc \<Rightarrow> oc_Matched oc \<and> oc_EventIDs oc = [''c'', ''f1'', ''f2''])"
  by code_simp

theorem multi_stage_backed_witness:
  "\<exists>(oc :: Outcome) who (fails :: TelemetryEvent list). oc_EventIDs oc = [''c'', ''f1'', ''f2''] \<and> changes example_pb who (ex_change ''c'' 8) \<and>
    2 \<le> int (length fails) \<and> oc_Severity oc = te_severity (ex_change ''c'' 8)"
proof -
  obtain oc where oc: "fst (multi_eval example_pb ex_burst 9 (ex_change ''c'' 8)
      (feed (multi_eval example_pb ex_burst) ex_stages multi_empty)) = Inr oc"
    "oc_Matched oc" "oc_EventIDs oc = [''c'', ''f1'', ''f2'']"
    using ex_stages_run by (simp split: sum.splits)
  have num: "bc_threshold ex_burst = 2" "bc_window ex_burst < 2 ^ 63 - 1" "0 \<le> bc_window ex_burst"
    by (simp_all add: ex_burst_def)
  from multi_stage_backed [OF oc(1,2) num(2,3), unfolded num(1)] show ?thesis
    by (elim exE conjE) (intro exI conjI; (rule oc(3) | assumption))
qed

lemma ex_stages_facts:
  "\<not> changes example_pb ''alice'' (ex_auth ''f1'' ''failure'' 5)" "\<not> changes example_pb ''alice'' (ex_auth ''f2'' ''failure'' 7)"
  "occurred example_pb (ex_auth ''f1'' ''failure'' 5) = 5000000000" "occurred example_pb (ex_auth ''f2'' ''failure'' 7) = 7000000000"
  "changes example_pb ''alice'' (ex_change ''c'' 8)" "occurred example_pb (ex_change ''c'' 8) = 8000000000"
  "auth_with example_pb ''failure'' ''alice'' (ex_auth ''f1'' ''failure'' 5)"
  "auth_with example_pb ''failure'' ''alice'' (ex_auth ''f2'' ''failure'' 7)"
  by code_simp+

theorem multi_stage_first_change_witness:
  "\<exists>oc. fst (multi_eval example_pb ex_burst 9 (ex_change ''c'' 8) (feed (multi_eval example_pb ex_burst) ex_stages multi_empty)) = Inr oc \<and>
    oc_Matched oc"
proof -
  have "\<forall>x \<in> set ex_stages. \<not> changes example_pb ''alice'' (snd x) \<and> good_event example_pb (snd x) \<and> \<not> IsZero (fst x) \<and>
      \<not> IsZero (occurred example_pb (snd x))"
    using ex_good ex_stages_facts by (simp add: ex_stages_def IsZero_def zero_time_def)
  from multi_stage_first_change [OF this ex_stages_facts(5), of 9 ex_burst]
  show ?thesis using ex_stages_facts by (simp add: IsZero_def zero_time_def ex_burst_def ex_stages_def)
qed

text \<open>
  Out of order, a window keeps entries later than the event that fires it: two denials an
  hour apart fire a one-minute burst when the later one is fed first.
\<close>

lemma out_of_order_burst_fires:
  "(case fst (ex_denied 9 (ex_auth ''a1'' ''denied'' 5) (feed ex_denied [(8, ex_auth ''a2'' ''denied'' 3605)] fmempty)) of
      Inl x \<Rightarrow> False | Inr oc \<Rightarrow> oc_Matched oc \<and> oc_EventIDs oc = [''a1'', ''a2''])"
  by code_simp

text \<open>And a change older than the recorded failures empties them: the change that follows finds none.\<close>

lemma late_change_drops_failures:
  "(case fst (multi_eval example_pb ex_burst 9 (ex_change ''c'' 8)
        (feed (multi_eval example_pb ex_burst) (ex_stages @ [(9, ex_change ''b'' 1)]) multi_empty)) of
      Inl x \<Rightarrow> False | Inr oc \<Rightarrow> \<not> oc_Matched oc)"
  by code_simp

end
