(* ===== verification/DetectEngine.thy ===== *)
theory DetectEngine
  imports Rules Sha256
begin

text \<open>
  The rule registry and the detection engine (\<open>registry.go\<close>, \<open>engine.go\<close> of \<open>internal/detect\<close>) and
  the engine-health rule of \<open>threat.go\<close>. A rule is a record of its constants and its evaluation
  over a world that holds the state of every rule instance; the engine only calls it. Each
  method is atomic. The counters are unbounded here; Go's wrap after \<open>2 ^ 63\<close> calls.
\<close>

subsection \<open>Rules and the registry\<close>

record 'w Rule =
  rl_ID :: string
  rl_Version :: string
  rl_Name :: string
  rl_thresholded :: "(int \<times> duration) option"
  rl_eval :: "TelemetryEvent option \<Rightarrow> 'w \<Rightarrow> Outcome res \<times> 'w"

record 'w Registry =
  rg_order :: "'w Rule list"
  rg_byID :: "'w Rule gomap"
  rg_disabled :: "bool gomap"

definition NewRegistry :: "'w Registry" where
  "NewRegistry = \<lparr>rg_order = [], rg_byID = fmempty, rg_disabled = fmempty\<rparr>"

definition Registry_Register :: "'w Rule option \<Rightarrow> 'w Registry \<Rightarrow> goerr \<times> 'w Registry" where
  "Registry_Register p r =
     (case p of None \<Rightarrow> (Some (Sent (Detect ErrRuleRegistry) ''rule is nil''), r)
      | Some rl \<Rightarrow>
         if rl_ID rl = [] then (Some (Sent (Detect ErrRuleRegistry) ''rule id is empty''), r)
         else if fmlookup (rg_byID r) (rl_ID rl) \<noteq> None
           then (Some (Sent (Detect ErrRuleRegistry) (''duplicate rule id '' @ quote (rl_ID rl))), r)
         else (None, r\<lparr>rg_byID := fmupd (rl_ID rl) rl (rg_byID r), rg_order := rg_order r @ [rl]\<rparr>))"

definition Registry_Get :: "string \<Rightarrow> 'w Registry \<Rightarrow> 'w Rule option" where
  "Registry_Get k r = fmlookup (rg_byID r) k"

definition Registry_List :: "'w Registry \<Rightarrow> 'w Rule list" where
  "Registry_List r = rg_order r"

definition Registry_Disable :: "string \<Rightarrow> 'w Registry \<Rightarrow> goerr \<times> 'w Registry" where
  "Registry_Disable k r =
     (if fmlookup (rg_byID r) k = None
        then (Some (Sent (Detect ErrRuleRegistry) (''unknown rule id '' @ quote k)), r)
      else (None, r\<lparr>rg_disabled := fmupd k True (rg_disabled r)\<rparr>))"

definition Registry_Enable :: "string \<Rightarrow> 'w Registry \<Rightarrow> goerr \<times> 'w Registry" where
  "Registry_Enable k r =
     (if fmlookup (rg_byID r) k = None
        then (Some (Sent (Detect ErrRuleRegistry) (''unknown rule id '' @ quote k)), r)
      else (None, r\<lparr>rg_disabled := fmdrop k (rg_disabled r)\<rparr>))"

text \<open>\<open>r.disabled[id]\<close>: an absent key reads false.\<close>

definition is_disabled :: "string \<Rightarrow> 'w Registry \<Rightarrow> bool" where
  "is_disabled k r = (fmlookup (rg_disabled r) k = Some True)"

definition Registry_IsEnabled :: "string \<Rightarrow> 'w Registry \<Rightarrow> bool" where
  "Registry_IsEnabled k r = (if fmlookup (rg_byID r) k = None then False else \<not> is_disabled k r)"

record 'w Match =
  mt_Rule :: "'w Rule"
  mt_Outcome :: Outcome

fun evaluate_all ::
  "'w Registry \<Rightarrow> TelemetryEvent option \<Rightarrow> 'w Rule list \<Rightarrow> 'w \<Rightarrow> 'w Match list res \<times> 'w" where
  "evaluate_all r e [] w = (Inr [], w)"
| "evaluate_all r e (rl # rs) w =
     (if is_disabled (rl_ID rl) r then evaluate_all r e rs w
      else
       (case rl_eval rl e w of
          (Inl x, w1) \<Rightarrow> (Inl (Ctx (''detect: rule '' @ quote (rl_ID rl) @ '' evaluation'') x), w1)
        | (Inr oc, w1) \<Rightarrow>
           (case evaluate_all r e rs w1 of
              (Inl x, w2) \<Rightarrow> (Inl x, w2)
            | (Inr ms, w2) \<Rightarrow>
               (Inr (if oc_Matched oc then \<lparr>mt_Rule = rl, mt_Outcome = oc\<rparr> # ms else ms), w2))))"

definition EvaluateAll :: "'w Registry \<Rightarrow> TelemetryEvent option \<Rightarrow> 'w \<Rightarrow> 'w Match list res \<times> 'w" where
  "EvaluateAll r e w = evaluate_all r e (rg_order r) w"

subsection \<open>Building detections and alerts\<close>

definition ConfidenceBasis :: string where
  "ConfidenceBasis = ''boolean-condition-unmeasured''"

definition detectionID :: "string \<Rightarrow> string list \<Rightarrow> string" where
  "detectionID ruleID eventIDs = ''det-'' @ id16 (ruleID @ US @ join US (sort eventIDs))"

definition detection_of :: "pblib \<Rightarrow> 'w Rule \<Rightarrow> Outcome \<Rightarrow> gotime \<Rightarrow> Detection" where
  "detection_of L rl oc now =
     \<lparr> det_id = detectionID (rl_ID rl) (sort (oc_EventIDs oc)), det_rule_id = rl_ID rl, det_rule_name = rl_Name rl,
       det_telemetry_event_ids = sort (oc_EventIDs oc), det_detected_at = Some (ts_New L now),
       det_severity = oc_Severity oc, det_confidence = oc_Confidence oc, det_title = oc_Title oc,
       det_description = oc_Detail oc,
       det_attributes = fmap_of_list [(''blueveil.rule_version'', rl_Version rl),
         (''blueveil.confidence_basis'', ConfidenceBasis)] ++\<^sub>f oc_Attrs oc \<rparr>"

definition BuildDetection :: "pblib \<Rightarrow> 'w Rule option \<Rightarrow> Outcome \<Rightarrow> gotime \<Rightarrow> Detection res" where
  "BuildDetection L p oc now =
     (case p of None \<Rightarrow> Inl (Plain ''rule is nil'') | Some rl \<Rightarrow>
        (case first_err [
           fail_if (\<not> oc_Matched oc) (Plain ''no match to build from''),
           fail_if (oc_EventIDs oc = []) (Plain ''match references no events''),
           fail_if (\<not> Severity_known (oc_Severity oc) \<or> oc_Severity oc = SEVERITY_UNSPECIFIED)
             (Plain ''match severity must be explicit''),
           fail_if (bad_confidence (oc_Confidence oc)) (Plain ''match confidence out of [0.0, 1.0]''),
           fail_if (IsZero now) (Plain ''detection timestamp is zero''),
           fail_if (list_ex (has_prefix ''blueveil.'') (sortedIDs (oc_Attrs oc)))
             (Plain ''rule attribute invades the blueveil.* namespace''),
           fail_if (oc_Title oc = [] \<or> oc_Detail oc = []) (Plain ''detection needs title and detail''),
           ValidateDetection L (Some (detection_of L rl oc now))] of
           Some e \<Rightarrow> Inl e
         | None \<Rightarrow> Inr (detection_of L rl oc now)))"

definition alert_of :: "pblib \<Rightarrow> Detection \<Rightarrow> gotime \<Rightarrow> Alert" where
  "alert_of L d now =
     \<lparr> al_id = ''alert-'' @ det_id d, al_detection_ids = [det_id d], al_status = ALERT_STATUS_OPEN,
       al_severity = det_severity d, al_created_at = Some (ts_New L now), al_updated_at = Some (ts_New L now),
       al_title = ''Alert: '' @ det_title d \<rparr>"

definition BuildAlert :: "pblib \<Rightarrow> Detection option \<Rightarrow> gotime \<Rightarrow> Alert res" where
  "BuildAlert L p now =
     (case p of None \<Rightarrow> Inl (Plain ''detection is nil'') | Some d \<Rightarrow>
        (case first_err [
           ValidateDetection L (Some d),
           fail_if (IsZero now) (Plain ''alert timestamp is zero''),
           ValidateAlert L (Some (alert_of L d now))] of
           Some e \<Rightarrow> Inl e
         | None \<Rightarrow> Inr (alert_of L d now)))"

subsection \<open>The engine\<close>

record ruleStat =
  st_evaluated :: int
  st_detections :: int
  st_errors :: int
  st_errEvents :: "ErrorEvent list"

definition zero_stat :: ruleStat where
  "zero_stat = \<lparr>st_evaluated = 0, st_detections = 0, st_errors = 0, st_errEvents = []\<rparr>"

record 'w dengine =
  dg_registry :: "'w Registry"
  dg_seen :: "unit gomap"
  dg_emittedDet :: int
  dg_emittedAlert :: int
  dg_suppressed :: int
  dg_stats :: "ruleStat gomap"

definition NewDetectEngine :: "gotime option \<Rightarrow> 'w dengine res" where
  "NewDetectEngine clock =
     (case clock of None \<Rightarrow> Inl (Plain ''detect: engine clock is nil'')
      | Some _ \<Rightarrow> Inr \<lparr>dg_registry = NewRegistry, dg_seen = fmempty, dg_emittedDet = 0, dg_emittedAlert = 0,
          dg_suppressed = 0, dg_stats = fmempty\<rparr>)"

definition RegisterRule :: "'w Rule option \<Rightarrow> 'w dengine \<Rightarrow> goerr \<times> 'w dengine" where
  "RegisterRule p d = (case Registry_Register p (dg_registry d) of (e, r) \<Rightarrow> (e, d\<lparr>dg_registry := r\<rparr>))"

definition engine_Disable :: "string \<Rightarrow> 'w dengine \<Rightarrow> goerr \<times> 'w dengine" where
  "engine_Disable k d = (case Registry_Disable k (dg_registry d) of (e, r) \<Rightarrow> (e, d\<lparr>dg_registry := r\<rparr>))"

definition engine_Enable :: "string \<Rightarrow> 'w dengine \<Rightarrow> goerr \<times> 'w dengine" where
  "engine_Enable k d = (case Registry_Enable k (dg_registry d) of (e, r) \<Rightarrow> (e, d\<lparr>dg_registry := r\<rparr>))"

definition engine_Counts :: "'w dengine \<Rightarrow> int \<times> int \<times> int" where
  "engine_Counts d = (dg_emittedDet d, dg_emittedAlert d, dg_suppressed d)"

definition stat_of :: "string \<Rightarrow> 'w dengine \<Rightarrow> ruleStat" where
  "stat_of k d = (case fmlookup (dg_stats d) k of None \<Rightarrow> zero_stat | Some st \<Rightarrow> st)"

definition put_stat :: "string \<Rightarrow> ruleStat \<Rightarrow> 'w dengine \<Rightarrow> 'w dengine" where
  "put_stat k st d = d\<lparr>dg_stats := fmupd k st (dg_stats d)\<rparr>"

text \<open>The evaluation loop of \<open>Process\<close>: it counts, and stops at the first rule that fails.\<close>

fun evaluate_rules ::
  "gotime \<Rightarrow> TelemetryEvent \<Rightarrow> 'w Rule list \<Rightarrow> 'w dengine \<Rightarrow> 'w \<Rightarrow> 'w Match list res \<times> 'w dengine \<times> 'w" where
  "evaluate_rules now e [] d w = (Inr [], d, w)"
| "evaluate_rules now e (rl # rs) d w =
     (if \<not> Registry_IsEnabled (rl_ID rl) (dg_registry d) then evaluate_rules now e rs d w
      else
       (let st = stat_of (rl_ID rl) d;
            st1 = st\<lparr>st_evaluated := st_evaluated st + 1\<rparr>;
            d1 = put_stat (rl_ID rl) st1 d
        in case rl_eval rl (Some e) w of
          (Inl x, w1) \<Rightarrow>
            (Inl (Sent (Detect ErrRuleEvaluation) (''rule '' @ quote (rl_ID rl) @ '' evaluation: '' @ err_Error x)),
             put_stat (rl_ID rl) (st1\<lparr>st_errors := st_errors st1 + 1,
               st_errEvents := st_errEvents st1 @ [\<lparr>ee_RuleID = rl_ID rl, ee_EventID = te_id e, ee_At = now,
                 ee_Severity = te_severity e, ee_Err = err_Error x\<rparr>]\<rparr>) d1, w1)
        | (Inr oc, w1) \<Rightarrow>
           (case evaluate_rules now e rs d1 w1 of
              (Inl x, d2, w2) \<Rightarrow> (Inl x, d2, w2)
            | (Inr ms, d2, w2) \<Rightarrow>
               (Inr (if oc_Matched oc then \<lparr>mt_Rule = rl, mt_Outcome = oc\<rparr> # ms else ms), d2, w2))))"

record Result =
  rs_Detections :: "Detection list"
  rs_Alerts :: "Alert list"
  rs_Suppressed :: int

definition empty_result :: Result where
  "empty_result = \<lparr>rs_Detections = [], rs_Alerts = [], rs_Suppressed = 0\<rparr>"

text \<open>Marking a detection as emitted, and counting one that was already.\<close>

definition mark_emitted :: "string \<Rightarrow> string \<Rightarrow> 'w dengine \<Rightarrow> 'w dengine" where
  "mark_emitted k ruleID d =
     (let d1 = d\<lparr>dg_seen := fmupd k () (dg_seen d), dg_emittedDet := dg_emittedDet d + 1,
                dg_emittedAlert := dg_emittedAlert d + 1\<rparr>
      in case fmlookup (dg_stats d1) ruleID of
           None \<Rightarrow> d1
         | Some st \<Rightarrow> put_stat ruleID (st\<lparr>st_detections := st_detections st + 1\<rparr>) d1)"

fun emit_matches ::
  "pblib \<Rightarrow> gotime \<Rightarrow> 'w Match list \<Rightarrow> Result \<Rightarrow> 'w dengine \<Rightarrow> Result res \<times> 'w dengine" where
  "emit_matches L now [] res d = (Inr res, d)"
| "emit_matches L now (m # ms) res d =
     (case BuildDetection L (Some (mt_Rule m)) (mt_Outcome m) now of
        Inl x \<Rightarrow> (Inl (Wrap (Detect ErrDetectionBuild) x), d)
      | Inr det \<Rightarrow>
         (case BuildAlert L (Some det) now of
            Inl x \<Rightarrow> (Inl (Wrap (Detect ErrAlertBuild) x), d)
          | Inr alert \<Rightarrow>
             if fmlookup (dg_seen d) (det_id det) \<noteq> None then
               emit_matches L now ms (res\<lparr>rs_Suppressed := rs_Suppressed res + 1\<rparr>)
                 (d\<lparr>dg_suppressed := dg_suppressed d + 1\<rparr>)
             else
               emit_matches L now ms
                 (res\<lparr>rs_Detections := rs_Detections res @ [det], rs_Alerts := rs_Alerts res @ [alert]\<rparr>)
                 (mark_emitted (det_id det) (rl_ID (mt_Rule m)) d)))"

text \<open>\<open>Process\<close>, with the instant its clock read.\<close>

definition Process ::
  "pblib \<Rightarrow> gotime \<Rightarrow> TelemetryEvent option \<Rightarrow> 'w dengine \<Rightarrow> 'w \<Rightarrow> Result res \<times> 'w dengine \<times> 'w" where
  "Process L now p d w =
     (case ValidateTelemetryEvent L p of
        Some x \<Rightarrow> (Inl (Wrap (Detect ErrInvalidTelemetry) x), d, w)
      | None \<Rightarrow>
        if IsZero now then (Inl (Sent (Detect ErrDetectionBuild) ''clock returned zero time''), d, w)
        else
         (case p of None \<Rightarrow> (Inr empty_result, d, w)
          | Some e \<Rightarrow>
             (case evaluate_rules now e (Registry_List (dg_registry d)) d w of
                (Inl x, d1, w1) \<Rightarrow> (Inl x, d1, w1)
              | (Inr ms, d1, w1) \<Rightarrow>
                 (case emit_matches L now ms empty_result d1 of (res, d2) \<Rightarrow> (res, d2, w1)))))"

record RuleHealth =
  rh_RuleID :: string
  rh_Version :: string
  rh_Name :: string
  rh_Enabled :: bool
  rh_Evaluated :: int
  rh_Detections :: int
  rh_Errors :: int
  rh_Threshold :: int
  rh_Window :: duration
  rh_HasThreshold :: bool

definition Health :: "'w dengine \<Rightarrow> RuleHealth list" where
  "Health d = map (\<lambda>rl.
     \<lparr> rh_RuleID = rl_ID rl, rh_Version = rl_Version rl, rh_Name = rl_Name rl,
       rh_Enabled = Registry_IsEnabled (rl_ID rl) (dg_registry d),
       rh_Evaluated = st_evaluated (stat_of (rl_ID rl) d), rh_Detections = st_detections (stat_of (rl_ID rl) d),
       rh_Errors = st_errors (stat_of (rl_ID rl) d),
       rh_Threshold = (case rl_thresholded rl of None \<Rightarrow> 0 | Some (n, wd) \<Rightarrow> n),
       rh_Window = (case rl_thresholded rl of None \<Rightarrow> 0 | Some (n, wd) \<Rightarrow> wd),
       rh_HasThreshold = (rl_thresholded rl \<noteq> None) \<rparr>) (Registry_List (dg_registry d))"

definition RuleErrors :: "string \<Rightarrow> 'w dengine \<Rightarrow> ErrorEvent list" where
  "RuleErrors k d = st_errEvents (stat_of k d)"

subsection \<open>The detection store\<close>

record DetectionStore =
  ds_detections :: "Detection list"
  ds_alerts :: "Alert list"

definition DetectionStore_Add :: "Detection \<Rightarrow> Alert \<Rightarrow> DetectionStore \<Rightarrow> DetectionStore" where
  "DetectionStore_Add d a s = \<lparr>ds_detections = ds_detections s @ [d], ds_alerts = ds_alerts s @ [a]\<rparr>"

definition DetectionStore_Counts :: "DetectionStore \<Rightarrow> nat \<times> nat" where
  "DetectionStore_Counts s = (length (ds_detections s), length (ds_alerts s))"

subsection \<open>The engine-health rule (\<open>threat.go\<close>)\<close>

text \<open>Its constants; \<open>Evaluate\<close> never matches.\<close>

definition RuleErrorBurst :: "'w Rule" where
  "RuleErrorBurst = \<lparr>rl_ID = ''detection-rule-error-burst'', rl_Version = ''1'', rl_Name = ''Detection rule error burst'',
     rl_thresholded = None, rl_eval = (\<lambda>e w. (Inr no_match, w))\<rparr>"

definition burst_outcome :: "burst_config \<Rightarrow> string \<Rightarrow> ErrorEvent list \<Rightarrow> Outcome" where
  "burst_outcome r k burst =
     match (foldl (\<lambda>peak e. if ee_Severity e > peak then ee_Severity e else peak) SEVERITY_INFO burst)
       ''Repeated rule evaluation errors observed''
       (''rule '' @ quote k @ '' errored '' @ itoa (int (length burst)) @ '' times within '' @ duration_String (bc_window r)
         @ '' (threshold '' @ itoa (bc_threshold r) @ ''); engine health only'')
       (map ee_EventID burst)
       [(''failing_rule'', k), (''threshold'', itoa (bc_threshold r)), (''window'', duration_String (bc_window r)),
        (''count'', itoa (int (length burst)))]"

text \<open>The build loop; the clock is read once per burst.\<close>

fun burst_detections ::
  "pblib \<Rightarrow> burst_config \<Rightarrow> (nat \<Rightarrow> gotime) \<Rightarrow> nat \<Rightarrow> (string \<times> ErrorEvent list) list \<Rightarrow> Detection list res" where
  "burst_detections L r clock n [] = Inr []"
| "burst_detections L r clock n ((k, burst) # bs) =
     (case BuildDetection L (Some (RuleErrorBurst :: unit Rule)) (burst_outcome r k burst) (clock n) of
        Inl e \<Rightarrow> Inl e
      | Inr det \<Rightarrow>
         (case burst_detections L r clock (Suc n) bs of Inl e \<Rightarrow> Inl e | Inr ds \<Rightarrow> Inr (det # ds)))"

definition failing_rules :: "'w dengine \<Rightarrow> string list" where
  "failing_rules d = sortedKeys (map rh_RuleID (filter (\<lambda>h. rh_Errors h \<noteq> 0) (Health d)))"

definition RuleErrorBurst_Detections ::
  "pblib \<Rightarrow> burst_config \<Rightarrow> (nat \<Rightarrow> gotime) \<Rightarrow> 'w dengine \<Rightarrow> Detection list res" where
  "RuleErrorBurst_Detections L r clock d =
     (if IsZero (clock 0) then Inl (Plain ''detect: rule-error-burst needs a valid clock'')
      else burst_detections L r clock 1
        (concat (map (\<lambda>k. map (Pair k) (ErrorBursts (RuleErrors k d) k (bc_threshold r) (bc_window r))) (failing_rules d))))"

subsection \<open>Facts about one call\<close>

lemma put_stat_sel [simp]:
  "dg_registry (put_stat k st d) = dg_registry d" "dg_seen (put_stat k st d) = dg_seen d"
  "dg_emittedDet (put_stat k st d) = dg_emittedDet d" "dg_emittedAlert (put_stat k st d) = dg_emittedAlert d"
  "dg_suppressed (put_stat k st d) = dg_suppressed d" "dg_stats (put_stat k st d) = fmupd k st (dg_stats d)"
  by (simp_all add: put_stat_def)

text \<open>The evaluation loop only writes statistics, and only those of enabled rules.\<close>

lemma evaluate_rules_frame:
  "evaluate_rules now e rs d w = (r, d1, w1) \<Longrightarrow>
     dg_registry d1 = dg_registry d \<and> dg_seen d1 = dg_seen d \<and> dg_emittedDet d1 = dg_emittedDet d \<and>
     dg_emittedAlert d1 = dg_emittedAlert d \<and> dg_suppressed d1 = dg_suppressed d \<and>
     (\<forall>k. \<not> Registry_IsEnabled k (dg_registry d) \<longrightarrow> fmlookup (dg_stats d1) k = fmlookup (dg_stats d) k)"
proof (induction rs arbitrary: d w r d1 w1)
  case (Cons rl rs)
  show ?case
  proof (cases "Registry_IsEnabled (rl_ID rl) (dg_registry d)")
    case False
    then show ?thesis using Cons by simp
  next
    case True
    obtain o1 w2 where ev: "rl_eval rl (Some e) w = (o1, w2)" by fastforce
    show ?thesis
    proof (cases o1)
      case (Inl x)
      then show ?thesis using Cons.prems True ev by (auto simp: Let_def)
    next
      case (Inr oc)
      let ?d = "put_stat (rl_ID rl) ((stat_of (rl_ID rl) d)\<lparr>st_evaluated := st_evaluated (stat_of (rl_ID rl) d) + 1\<rparr>) d"
      obtain r3 d3 w3 where rest: "evaluate_rules now e rs ?d w2 = (r3, d3, w3)" using prod_cases3 by blast
      then have "d1 = d3" using Cons.prems True ev Inr by (auto simp: Let_def split: sum.splits)
      then show ?thesis using Cons.IH [OF rest] True by auto
    qed
  qed
qed simp

text \<open>Its matches come from enabled rules of the list, in the order of the list.\<close>

lemma evaluate_rules_matches:
  "evaluate_rules now e rs d w = (Inr ms, d1, w1) \<Longrightarrow> m \<in> set ms \<Longrightarrow>
     mt_Rule m \<in> set rs \<and> Registry_IsEnabled (rl_ID (mt_Rule m)) (dg_registry d) \<and> oc_Matched (mt_Outcome m)"
proof (induction rs arbitrary: d w ms d1 w1)
  case (Cons rl rs)
  show ?case
  proof (cases "Registry_IsEnabled (rl_ID rl) (dg_registry d)")
    case False
    then show ?thesis using Cons.IH Cons.prems by simp
  next
    case True
    obtain o1 w2 where ev: "rl_eval rl (Some e) w = (o1, w2)" by fastforce
    then obtain oc where oc: "o1 = Inr oc" using Cons.prems True by (cases o1) (auto simp: Let_def)
    let ?d = "put_stat (rl_ID rl) ((stat_of (rl_ID rl) d)\<lparr>st_evaluated := st_evaluated (stat_of (rl_ID rl) d) + 1\<rparr>) d"
    obtain r3 d3 w3 where rest: "evaluate_rules now e rs ?d w2 = (r3, d3, w3)" using prod_cases3 by blast
    then obtain ms3 where ms3: "r3 = Inr ms3" "ms = (if oc_Matched oc then \<lparr>mt_Rule = rl, mt_Outcome = oc\<rparr> # ms3 else ms3)"
      using Cons.prems True ev oc by (cases r3) (auto simp: Let_def)
    have "m = \<lparr>mt_Rule = rl, mt_Outcome = oc\<rparr> \<and> oc_Matched oc \<or> m \<in> set ms3"
      using Cons.prems(2) ms3(2) by (auto split: if_splits)
    then show ?thesis using Cons.IH [OF rest [unfolded ms3(1)]] True by auto
  qed
qed simp

text \<open>With consistent registries, the loop of \<open>Process\<close> finds what \<open>EvaluateAll\<close> finds.\<close>

definition reg_ok :: "'w Registry \<Rightarrow> bool" where
  "reg_ok r \<longleftrightarrow> distinct (map rl_ID (rg_order r)) \<and>
     (\<forall>rl \<in> set (rg_order r). fmlookup (rg_byID r) (rl_ID rl) = Some rl \<and> rl_ID rl \<noteq> []) \<and>
     (\<forall>k rl. fmlookup (rg_byID r) k = Some rl \<longrightarrow> rl \<in> set (rg_order r) \<and> rl_ID rl = k)"

lemma reg_ok_new [simp]: "reg_ok NewRegistry"
  by (simp add: reg_ok_def NewRegistry_def)

lemma reg_ok_register: "reg_ok r \<Longrightarrow> reg_ok (snd (Registry_Register p r))"
proof (cases "\<exists>rl. p = Some rl \<and> rl_ID rl \<noteq> [] \<and> fmlookup (rg_byID r) (rl_ID rl) = None")
  case True
  then obtain rl where rl: "p = Some rl" "rl_ID rl \<noteq> []" "fmlookup (rg_byID r) (rl_ID rl) = None" by blast
  assume r: "reg_ok r"
  have new: "rl_ID x \<noteq> rl_ID rl" if "x \<in> set (rg_order r)" for x
    using r rl(3) that by (metis option.distinct(1) reg_ok_def)
  have "reg_ok (r\<lparr>rg_byID := fmupd (rl_ID rl) rl (rg_byID r), rg_order := rg_order r @ [rl]\<rparr>)"
    using r rl(2) new unfolding reg_ok_def by (simp add: image_iff) metis
  then show ?thesis using rl by (simp add: Registry_Register_def)
qed (auto simp: Registry_Register_def split: option.splits)

lemma reg_ok_toggle: "reg_ok r \<Longrightarrow> reg_ok (snd (Registry_Disable k r))" "reg_ok r \<Longrightarrow> reg_ok (snd (Registry_Enable k r))"
  by (simp_all add: reg_ok_def Registry_Disable_def Registry_Enable_def)

lemma evaluate_rules_all:
  assumes "\<forall>rl \<in> set rs. fmlookup (rg_byID (dg_registry d)) (rl_ID rl) \<noteq> None"
    and "evaluate_rules now e rs d w = (r, d1, w1)"
  shows "case evaluate_all (dg_registry d) (Some e) rs w of (r2, w2) \<Rightarrow> w2 = w1 \<and>
    (case r2 of Inl x \<Rightarrow> \<exists>y. r = Inl y | Inr ms \<Rightarrow> r = Inr ms)"
  using assms
proof (induction rs arbitrary: d w r d1 w1)
  case (Cons rl rs)
  show ?case
  proof (cases "Registry_IsEnabled (rl_ID rl) (dg_registry d)")
    case False
    then have "is_disabled (rl_ID rl) (dg_registry d)" using Cons.prems(1) by (simp add: Registry_IsEnabled_def)
    then show ?thesis using False Cons by simp
  next
    case True
    then have en: "\<not> is_disabled (rl_ID rl) (dg_registry d)" by (auto simp: Registry_IsEnabled_def split: if_splits)
    obtain o1 w2 where ev: "rl_eval rl (Some e) w = (o1, w2)" by fastforce
    show ?thesis
    proof (cases o1)
      case (Inl x)
      then show ?thesis using Cons.prems(2) True en ev by (auto simp: Let_def)
    next
      case (Inr oc)
      let ?d = "put_stat (rl_ID rl) ((stat_of (rl_ID rl) d)\<lparr>st_evaluated := st_evaluated (stat_of (rl_ID rl) d) + 1\<rparr>) d"
      obtain r3 d3 w3 where rest: "evaluate_rules now e rs ?d w2 = (r3, d3, w3)" using prod_cases3 by blast
      have "case evaluate_all (dg_registry d) (Some e) rs w2 of (r4, w4) \<Rightarrow> w4 = w3 \<and>
          (case r4 of Inl x \<Rightarrow> \<exists>y. r3 = Inl y | Inr ms \<Rightarrow> r3 = Inr ms)"
        using Cons.IH [OF _ rest] Cons.prems(1) by simp
      then show ?thesis using Cons.prems(2) True en ev Inr rest
        by (auto simp: Let_def split: sum.splits prod.splits)
    qed
  qed
qed simp

text \<open>The ids already emitted, or lost.\<close>

definition seen_ids :: "'w dengine \<Rightarrow> string set" where
  "seen_ids d = fmdom' (dg_seen d)"

lemma seen_ids_simps [simp]:
  "seen_ids (put_stat k st d) = seen_ids d" "seen_ids (d\<lparr>dg_suppressed := n\<rparr>) = seen_ids d"
  "seen_ids (d\<lparr>dg_registry := r\<rparr>) = seen_ids d"
  "seen_ids (mark_emitted k rid d) = insert k (seen_ids d)" "dg_registry (mark_emitted k rid d) = dg_registry d"
  "dg_emittedDet (mark_emitted k rid d) = dg_emittedDet d + 1" "dg_emittedAlert (mark_emitted k rid d) = dg_emittedAlert d + 1"
  by (simp_all add: seen_ids_def put_stat_def mark_emitted_def Let_def split: option.splits)

lemma not_seen_iff: "fmlookup (dg_seen d) k = None \<longleftrightarrow> k \<notin> seen_ids d"
  by (cases "fmlookup (dg_seen d) k") (auto simp: seen_ids_def fmlookup_dom'_iff)

lemma BuildDetection_Inr: "BuildDetection L p oc now = Inr det \<Longrightarrow>
    \<exists>rl. p = Some rl \<and> det = detection_of L rl oc now \<and> ValidateDetection L (Some det) = None"
  by (auto simp: BuildDetection_def split: option.splits)

lemma BuildAlert_Inr: "BuildAlert L p now = Inr al \<Longrightarrow>
    \<exists>det. p = Some det \<and> al = alert_of L det now \<and> ValidateAlert L (Some al) = None \<and> ValidateDetection L (Some det) = None"
  by (auto simp: BuildAlert_def split: option.splits)

text \<open>The emission loop: what it returns was not seen before, what was seen stays seen.\<close>

lemma emit_matches_seen:
  "emit_matches L now ms res d = (r, d1) \<Longrightarrow> dg_registry d1 = dg_registry d \<and> seen_ids d \<subseteq> seen_ids d1"
proof (induction ms arbitrary: res d r d1)
  case (Cons m ms)
  show ?case
  proof (cases "BuildDetection L (Some (mt_Rule m)) (mt_Outcome m) now")
    case (Inr det)
    show ?thesis
    proof (cases "BuildAlert L (Some det) now")
      case (Inr al)
      then show ?thesis using Cons.IH Cons.prems \<open>BuildDetection _ _ _ _ = _\<close>
        by (fastforce split: if_splits)
    qed (use Cons.prems Inr in auto)
  qed (use Cons.prems in auto)
qed simp

lemma emit_matches_stats:
  "emit_matches L now ms res d = (r, d1) \<Longrightarrow> \<forall>m \<in> set ms. rl_ID (mt_Rule m) \<noteq> k \<Longrightarrow>
     fmlookup (dg_stats d1) k = fmlookup (dg_stats d) k"
proof (induction ms arbitrary: res d r d1)
  case (Cons m ms)
  have mark: "fmlookup (dg_stats (mark_emitted i (rl_ID (mt_Rule m)) d)) k = fmlookup (dg_stats d) k" for i
    using Cons.prems(2) by (auto simp: mark_emitted_def Let_def split: option.splits)
  have rest: "fmlookup (dg_stats d1) k = fmlookup (dg_stats d') k"
    if "emit_matches L now ms res' d' = (r, d1)" for res' d'
    using Cons.IH [OF that] Cons.prems(2) by simp
  show ?case
    using Cons.prems(1) rest mark by (fastforce split: sum.splits if_splits)
qed simp

lemma emit_matches_Inr:
  "emit_matches L now ms res d = (Inr res1, d1) \<Longrightarrow> \<exists>dets.
     rs_Detections res1 = rs_Detections res @ dets \<and> rs_Alerts res1 = rs_Alerts res @ map (\<lambda>x. alert_of L x now) dets \<and>
     distinct (map det_id dets) \<and> det_id ` set dets \<inter> seen_ids d = {} \<and> seen_ids d1 = seen_ids d \<union> det_id ` set dets \<and>
     dg_emittedDet d1 = dg_emittedDet d + int (length dets) \<and>
     (\<forall>x \<in> set dets. BuildAlert L (Some x) now = Inr (alert_of L x now) \<and>
        (\<exists>m \<in> set ms. BuildDetection L (Some (mt_Rule m)) (mt_Outcome m) now = Inr x)) \<and>
     (\<forall>m \<in> set ms. \<exists>x. BuildDetection L (Some (mt_Rule m)) (mt_Outcome m) now = Inr x \<and> det_id x \<in> seen_ids d1)"
proof (induction ms arbitrary: res d)
  case (Cons m ms)
  then obtain det where det: "BuildDetection L (Some (mt_Rule m)) (mt_Outcome m) now = Inr det" by (auto split: sum.splits)
  then obtain al where al: "BuildAlert L (Some det) now = Inr al" using Cons.prems by (auto split: sum.splits)
  then have al_eq: "al = alert_of L det now" using BuildAlert_Inr by blast
  show ?case
  proof (cases "det_id det \<in> seen_ids d")
    case True
    then have "emit_matches L now ms (res\<lparr>rs_Suppressed := rs_Suppressed res + 1\<rparr>) (d\<lparr>dg_suppressed := dg_suppressed d + 1\<rparr>) = (Inr res1, d1)"
      using Cons.prems det al by (simp add: not_seen_iff)
    note IH = Cons.IH [OF this]
    then show ?thesis using det True by (elim exE) (rule_tac x = dets in exI, auto)
  next
    case False
    then have rest: "emit_matches L now ms (res\<lparr>rs_Detections := rs_Detections res @ [det], rs_Alerts := rs_Alerts res @ [al]\<rparr>)
        (mark_emitted (det_id det) (rl_ID (mt_Rule m)) d) = (Inr res1, d1)"
      using Cons.prems det al by (simp add: not_seen_iff [symmetric])
    from Cons.IH [OF rest] obtain dets where IH:
      "rs_Detections res1 = (rs_Detections res @ [det]) @ dets"
      "rs_Alerts res1 = (rs_Alerts res @ [al]) @ map (\<lambda>x. alert_of L x now) dets"
      "distinct (map det_id dets)" "det_id ` set dets \<inter> insert (det_id det) (seen_ids d) = {}"
      "seen_ids d1 = insert (det_id det) (seen_ids d) \<union> det_id ` set dets"
      "dg_emittedDet d1 = dg_emittedDet d + 1 + int (length dets)"
      "\<forall>x \<in> set dets. BuildAlert L (Some x) now = Inr (alert_of L x now) \<and>
        (\<exists>m \<in> set ms. BuildDetection L (Some (mt_Rule m)) (mt_Outcome m) now = Inr x)"
      "\<forall>m \<in> set ms. \<exists>x. BuildDetection L (Some (mt_Rule m)) (mt_Outcome m) now = Inr x \<and> det_id x \<in> seen_ids d1"
      by auto
    have "rs_Detections res1 = rs_Detections res @ det # dets"
      "rs_Alerts res1 = rs_Alerts res @ map (\<lambda>x. alert_of L x now) (det # dets)" using IH(1,2) al_eq by simp_all
    moreover have "distinct (map det_id (det # dets))" "det_id ` set (det # dets) \<inter> seen_ids d = {}"
      using IH(3,4) False by auto
    moreover have "seen_ids d1 = seen_ids d \<union> det_id ` set (det # dets)"
      "dg_emittedDet d1 = dg_emittedDet d + int (length (det # dets))" using IH(5,6) by auto
    moreover have "\<forall>x \<in> set (det # dets). BuildAlert L (Some x) now = Inr (alert_of L x now) \<and>
        (\<exists>m' \<in> set (m # ms). BuildDetection L (Some (mt_Rule m')) (mt_Outcome m') now = Inr x)"
      using IH(7) al al_eq det by auto
    moreover have "\<forall>m' \<in> set (m # ms). \<exists>x. BuildDetection L (Some (mt_Rule m')) (mt_Outcome m') now = Inr x \<and> det_id x \<in> seen_ids d1"
      using IH(5,8) det by auto
    ultimately show ?thesis by blast
  qed
qed auto

subsection \<open>One call of \<open>Process\<close>\<close>

lemma Process_frame:
  assumes "Process L now p d w = (r, d1, w1)"
  shows "dg_registry d1 = dg_registry d \<and> seen_ids d \<subseteq> seen_ids d1"
proof (cases "ValidateTelemetryEvent L p = None \<and> \<not> IsZero now")
  case True
  then obtain e where e: "p = Some e" by (cases p) (auto simp: ValidateTelemetryEvent_def)
  obtain r2 d2 w2 where ev: "evaluate_rules now e (Registry_List (dg_registry d)) d w = (r2, d2, w2)" using prod_cases3 by blast
  note frame = evaluate_rules_frame [OF ev]
  show ?thesis
  proof (cases r2)
    case (Inl x)
    then show ?thesis using assms True e ev frame by (simp add: Process_def seen_ids_def)
  next
    case (Inr ms)
    obtain r3 d3 where em: "emit_matches L now ms empty_result d2 = (r3, d3)" by fastforce
    then show ?thesis using assms True e ev frame Inr emit_matches_seen [OF em] by (simp add: Process_def seen_ids_def)
  qed
qed (use assms in \<open>auto simp: Process_def split: option.splits if_splits\<close>)

lemma Process_Inr:
  assumes "Process L now p d w = (Inr res, d1, w1)"
  obtains e ms d2 dets where "p = Some e" and "good_event L e" and "\<not> IsZero now"
    and "evaluate_rules now e (Registry_List (dg_registry d)) d w = (Inr ms, d2, w1)"
    and "rs_Detections res = dets" and "rs_Alerts res = map (\<lambda>x. alert_of L x now) dets"
    and "distinct (map det_id dets)" and "det_id ` set dets \<inter> seen_ids d = {}"
    and "seen_ids d1 = seen_ids d \<union> det_id ` set dets" and "dg_emittedDet d1 = dg_emittedDet d + int (length dets)"
    and "\<And>x. x \<in> set dets \<Longrightarrow> BuildAlert L (Some x) now = Inr (alert_of L x now)"
    and "\<And>x. x \<in> set dets \<Longrightarrow> \<exists>m \<in> set ms. BuildDetection L (Some (mt_Rule m)) (mt_Outcome m) now = Inr x"
    and "\<And>m. m \<in> set ms \<Longrightarrow> \<exists>x. BuildDetection L (Some (mt_Rule m)) (mt_Outcome m) now = Inr x \<and> det_id x \<in> seen_ids d1"
proof -
  have ok: "ValidateTelemetryEvent L p = None" "\<not> IsZero now" using assms by (auto simp: Process_def split: option.splits if_splits)
  then obtain e where e: "p = Some e" by (cases p) (auto simp: ValidateTelemetryEvent_def)
  obtain r2 d2 w2 where ev: "evaluate_rules now e (Registry_List (dg_registry d)) d w = (r2, d2, w2)" using prod_cases3 by blast
  then obtain ms where ms: "r2 = Inr ms" using assms ok e by (cases r2) (auto simp: Process_def)
  have em: "emit_matches L now ms empty_result d2 = (Inr res, d1)" "w2 = w1"
    using assms ok e ev ms by (auto simp: Process_def split: prod.splits)
  note frame = evaluate_rules_frame [OF ev]
  from emit_matches_Inr [OF em(1)] frame show ?thesis
    by (elim exE conjE, intro that [of e ms d2]) (use e ok ev ms em(2) in \<open>auto simp: good_event_def empty_result_def seen_ids_def\<close>)
qed

subsection \<open>Runs\<close>

datatype 'w dop =
    DRegister "'w Rule option" | DEnable string | DDisable string
  | DProcess gotime "TelemetryEvent option"

text \<open>One operation, and the result a \<open>Process\<close> call hands back.\<close>

fun d_step :: "pblib \<Rightarrow> 'w dop \<Rightarrow> 'w dengine \<times> 'w \<Rightarrow> Result \<times> 'w dengine \<times> 'w" where
  "d_step L (DRegister p) (d, w) = (empty_result, snd (RegisterRule p d), w)"
| "d_step L (DEnable k) (d, w) = (empty_result, snd (engine_Enable k d), w)"
| "d_step L (DDisable k) (d, w) = (empty_result, snd (engine_Disable k d), w)"
| "d_step L (DProcess now p) (d, w) =
     (case Process L now p d w of
        (Inl x, d1, w1) \<Rightarrow> (empty_result, d1, w1)
      | (Inr res, d1, w1) \<Rightarrow> (res, d1, w1))"

fun d_run :: "pblib \<Rightarrow> 'w dop list \<Rightarrow> 'w dengine \<times> 'w \<Rightarrow> Result list \<times> 'w dengine \<times> 'w" where
  "d_run L [] s = ([], s)"
| "d_run L (op # ops) s =
     (case d_step L op s of (res, s1) \<Rightarrow> (case d_run L ops s1 of (rs, s2) \<Rightarrow> (res # rs, s2)))"

definition emitted :: "Result list \<Rightarrow> Detection list" where
  "emitted rs = concat (map rs_Detections rs)"

lemma engine_ops_sel [simp]:
  "seen_ids (snd (RegisterRule p d)) = seen_ids d" "seen_ids (snd (engine_Enable k d)) = seen_ids d"
  "seen_ids (snd (engine_Disable k d)) = seen_ids d"
  "dg_registry (snd (RegisterRule p d)) = snd (Registry_Register p (dg_registry d))"
  "dg_registry (snd (engine_Enable k d)) = snd (Registry_Enable k (dg_registry d))"
  "dg_registry (snd (engine_Disable k d)) = snd (Registry_Disable k (dg_registry d))"
  by (simp_all add: RegisterRule_def engine_Enable_def engine_Disable_def seen_ids_def split: prod.splits)

lemma d_step_seen:
  assumes "d_step L op s = (res, s1)"
  shows "distinct (map det_id (rs_Detections res)) \<and> det_id ` set (rs_Detections res) \<inter> seen_ids (fst s) = {} \<and>
    seen_ids (fst s) \<union> det_id ` set (rs_Detections res) \<subseteq> seen_ids (fst s1)"
proof (cases op)
  case (DProcess now p)
  obtain d w where s: "s = (d, w)" by (cases s)
  obtain r d1 w1 where pr: "Process L now p d w = (r, d1, w1)" using prod_cases3 by blast
  show ?thesis
  proof (cases r)
    case (Inl x)
    then show ?thesis using assms DProcess s pr Process_frame [OF pr] by (auto simp: empty_result_def)
  next
    case (Inr res1)
    have "res = res1" "s1 = (d1, w1)" using assms DProcess s pr Inr by auto
    with pr Inr s show ?thesis by (auto elim!: Process_Inr)
  qed
qed (cases s; use assms in \<open>force simp: empty_result_def\<close>)+

lemma d_run_seen:
  assumes "d_run L ops s = (rs, s1)"
  shows "distinct (map det_id (emitted rs)) \<and> det_id ` set (emitted rs) \<inter> seen_ids (fst s) = {} \<and>
    seen_ids (fst s) \<subseteq> seen_ids (fst s1)"
  using assms
proof (induction ops arbitrary: s rs)
  case (Cons op ops)
  obtain res s2 where st: "d_step L op s = (res, s2)" by (metis surj_pair)
  obtain rs2 where rest: "d_run L ops s2 = (rs2, s1)" and rs: "rs = res # rs2"
    using Cons.prems st by (auto split: prod.splits)
  have em: "emitted rs = rs_Detections res @ emitted rs2" by (simp add: rs emitted_def)
  show ?case using d_step_seen [OF st] Cons.IH [OF rest]
    unfolding em map_append distinct_append set_append image_Un set_map by blast
qed (simp add: emitted_def)

subsection \<open>Sound rule sets\<close>

text \<open>An instant the timestamps of detections can carry.\<close>

definition stamp_ok :: "pblib \<Rightarrow> gotime \<Rightarrow> bool" where
  "stamp_ok L now \<longleftrightarrow> \<not> IsZero now \<and> ts_CheckValid L (ts_New L now) = None"

lemma stamp_ok_range: "ts_range L \<Longrightarrow> zero_time < now \<Longrightarrow> now \<le> max_time \<Longrightarrow> stamp_ok L now"
  by (simp add: stamp_ok_def ts_range_def IsZero_def)

lemma build_succeeds:
  assumes "buildable oc" and "oc_Matched oc" and "rl_ID rl \<noteq> []" and "rl_Name rl \<noteq> []" and "stamp_ok L now"
  shows "BuildDetection L (Some rl) oc now = Inr (detection_of L rl oc now)"
    and "BuildAlert L (Some (detection_of L rl oc now)) now = Inr (alert_of L (detection_of L rl oc now) now)"
proof -
  have d: "ValidateDetection L (Some (detection_of L rl oc now)) = None"
    using assms by (auto simp: ValidateDetection_def boundary detection_of_def detectionID_def buildable_def stamp_ok_def
        simp flip: set_empty)
  have a: "ValidateAlert L (Some (alert_of L (detection_of L rl oc now) now)) = None"
    using assms by (simp add: ValidateAlert_def boundary alert_of_def detection_of_def detectionID_def buildable_def stamp_ok_def
        AlertStatus_known_def)
  have "\<not> list_ex (has_prefix ''blueveil.'') (sortedIDs (oc_Attrs oc))"
    using assms(1) by (auto simp: buildable_def list_ex_iff)
  then show "BuildDetection L (Some rl) oc now = Inr (detection_of L rl oc now)"
    using assms d by (simp add: BuildDetection_def buildable_def stamp_ok_def boundary fail_if_def)
  show "BuildAlert L (Some (detection_of L rl oc now)) now = Inr (alert_of L (detection_of L rl oc now) now)"
    using assms d a by (simp add: BuildAlert_def stamp_ok_def fail_if_def)
qed

text \<open>A set of named rules over one world that all keep the contract of a rule.\<close>

locale rule_set =
  fixes L :: pblib
    and rules :: "'w Rule set"
    and ok :: "'w \<Rightarrow> bool"
  assumes named: "rl \<in> rules \<Longrightarrow> rl_ID rl \<noteq> [] \<and> rl_Name rl \<noteq> []"
    and sound: "rl \<in> rules \<Longrightarrow> sound_rule (\<lambda>now e. rl_eval rl (Some e)) ok (good_event L)"
begin

lemma evaluate_sound:
  "evaluate_rules now e rs d w = (r, d1, w1) \<Longrightarrow> set rs \<subseteq> rules \<Longrightarrow> good_event L e \<Longrightarrow> ok w \<Longrightarrow>
     ok w1 \<and> (case r of Inl x \<Rightarrow> errors_Is x (Detect ErrRuleEvaluation)
       | Inr ms \<Rightarrow> \<forall>m \<in> set ms. mt_Rule m \<in> rules \<and> oc_Matched (mt_Outcome m) \<and> buildable (mt_Outcome m))"
proof (induction rs arbitrary: d w r d1 w1)
  case (Cons rl rs)
  show ?case
  proof (cases "Registry_IsEnabled (rl_ID rl) (dg_registry d)")
    case False
    then show ?thesis using Cons.IH Cons.prems by simp
  next
    case True
    obtain o1 w2 where ev: "rl_eval rl (Some e) w = (o1, w2)" by fastforce
    have rl: "sound_rule (\<lambda>now e. rl_eval rl (Some e)) ok (good_event L)" "rl \<in> rules" using Cons.prems(2) sound by simp_all
    have ok2: "ok w2" using sound_rule.keeps [OF rl(1) Cons.prems(4,3)] ev by simp
    show ?thesis
    proof (cases o1)
      case (Inl x)
      then show ?thesis using Cons.prems(1) True ev ok2 by (auto simp: Let_def)
    next
      case (Inr oc)
      let ?d = "put_stat (rl_ID rl) ((stat_of (rl_ID rl) d)\<lparr>st_evaluated := st_evaluated (stat_of (rl_ID rl) d) + 1\<rparr>) d"
      obtain r3 d3 w3 where rest: "evaluate_rules now e rs ?d w2 = (r3, d3, w3)" using prod_cases3 by blast
      have oc: "oc_Matched oc \<Longrightarrow> buildable oc"
        using sound_rule.sound [OF rl(1) Cons.prems(4,3)] ev Inr by simp
      have "ok w3 \<and> (case r3 of Inl x \<Rightarrow> errors_Is x (Detect ErrRuleEvaluation)
          | Inr ms \<Rightarrow> \<forall>m \<in> set ms. mt_Rule m \<in> rules \<and> oc_Matched (mt_Outcome m) \<and> buildable (mt_Outcome m))"
        using Cons.IH [OF rest _ Cons.prems(3) ok2] Cons.prems(2) by simp
      then show ?thesis using Cons.prems(1) True ev Inr rest oc rl(2)
        by (cases r3) (auto simp: Let_def)
    qed
  qed
qed auto

lemma emit_sound:
  "stamp_ok L now \<Longrightarrow> \<forall>m \<in> set ms. mt_Rule m \<in> rules \<and> oc_Matched (mt_Outcome m) \<and> buildable (mt_Outcome m) \<Longrightarrow>
     \<exists>res1 d1. emit_matches L now ms res d = (Inr res1, d1)"
  by (induction ms arbitrary: res d) (simp_all add: build_succeeds named)

text \<open>So a call on a valid event fails only when a rule does, and then has marked nothing.\<close>

lemma process_sound:
  assumes "Process L now (Some e) d w = (r, d1, w1)" and "good_event L e" and "stamp_ok L now" and "ok w"
    and "set (rg_order (dg_registry d)) \<subseteq> rules"
  shows "ok w1 \<and> (\<forall>x. r = Inl x \<longrightarrow> errors_Is x (Detect ErrRuleEvaluation) \<and> seen_ids d1 = seen_ids d)"
proof -
  obtain r2 d2 w2 where ev: "evaluate_rules now e (Registry_List (dg_registry d)) d w = (r2, d2, w2)" using prod_cases3 by blast
  note s = evaluate_sound [OF ev _ assms(2,4)] and frame = evaluate_rules_frame [OF ev]
  show ?thesis
  proof (cases r2)
    case (Inl x)
    then show ?thesis using s frame assms ev by (auto simp: Process_def good_event_def stamp_ok_def Registry_List_def seen_ids_def)
  next
    case (Inr ms)
    then obtain res1 d3 where "emit_matches L now ms empty_result d2 = (Inr res1, d3)"
      using emit_sound [OF assms(3)] s assms(5) by (fastforce simp: Registry_List_def)
    then show ?thesis using Inr s assms ev by (auto simp: Process_def good_event_def stamp_ok_def Registry_List_def)
  qed
qed

end

subsection \<open>The rules of the repository\<close>

text \<open>The world of the built-in rules: their windows, the multi-stage state, and the instant their clocks read.\<close>

record rule_world =
  rw_now :: gotime
  rw_block :: "netWindow gomap"
  rw_failures :: "netWindow gomap"
  rw_denials :: "netWindow gomap"
  rw_multi :: multi_state

definition BlockHighSeverityRule :: "rule_world Rule" where
  "BlockHighSeverityRule = \<lparr>rl_ID = ''waf-block-high-severity'', rl_Version = ''1'',
     rl_Name = ''High-severity blocked request'', rl_thresholded = None,
     rl_eval = (\<lambda>e w. (BlockHighSeverity_Evaluate e, w))\<rparr>"

definition BlockBurstRule :: "pblib \<Rightarrow> burst_config \<Rightarrow> rule_world Rule" where
  "BlockBurstRule L r = \<lparr>rl_ID = ''waf-block-burst'', rl_Version = ''1'', rl_Name = ''Blocked-request burst'',
     rl_thresholded = Some (bc_threshold r, bc_window r),
     rl_eval = (\<lambda>e w. case BlockBurst_Evaluate L r (rw_now w) e (rw_block w) of (o1, ws) \<Rightarrow> (o1, w\<lparr>rw_block := ws\<rparr>))\<rparr>"

definition SourceCriticalRule :: "rule_world Rule" where
  "SourceCriticalRule = \<lparr>rl_ID = ''source-declared-critical'', rl_Version = ''1'',
     rl_Name = ''Source-declared critical event'', rl_thresholded = None,
     rl_eval = (\<lambda>e w. (SourceCritical_Evaluate e, w))\<rparr>"

definition IdentityPrivilegeChangeRule :: "pblib \<Rightarrow> rule_world Rule" where
  "IdentityPrivilegeChangeRule L = \<lparr>rl_ID = ''identity-privilege-change'', rl_Version = ''1'',
     rl_Name = ''Identity privilege change'', rl_thresholded = None,
     rl_eval = (\<lambda>e w. (IdentityPrivilegeChange_Evaluate L e, w))\<rparr>"

definition IdentAuthFailureBurstRule :: "pblib \<Rightarrow> burst_config \<Rightarrow> rule_world Rule" where
  "IdentAuthFailureBurstRule L r = \<lparr>rl_ID = ''ident-auth-failure-burst'', rl_Version = ''1'',
     rl_Name = ''Authentication failure burst'', rl_thresholded = Some (bc_threshold r, bc_window r),
     rl_eval = (\<lambda>e w. case IdentAuthFailureBurst_Evaluate L r (rw_now w) e (rw_failures w) of
       (o1, ws) \<Rightarrow> (o1, w\<lparr>rw_failures := ws\<rparr>))\<rparr>"

definition IdentAuthDeniedBurstRule :: "pblib \<Rightarrow> burst_config \<Rightarrow> rule_world Rule" where
  "IdentAuthDeniedBurstRule L r = \<lparr>rl_ID = ''ident-auth-denied-burst'', rl_Version = ''1'',
     rl_Name = ''Authentication denied burst'', rl_thresholded = Some (bc_threshold r, bc_window r),
     rl_eval = (\<lambda>e w. case IdentAuthDeniedBurst_Evaluate L r (rw_now w) e (rw_denials w) of
       (o1, ws) \<Rightarrow> (o1, w\<lparr>rw_denials := ws\<rparr>))\<rparr>"

definition SensitiveDataPolicyRule :: "pblib \<Rightarrow> SensitiveDataPolicy \<Rightarrow> rule_world Rule" where
  "SensitiveDataPolicyRule L p = \<lparr>rl_ID = ''sensitive-data-policy-violation'', rl_Version = ''1'',
     rl_Name = ''Sensitive-data policy violation'', rl_thresholded = None,
     rl_eval = (\<lambda>e w. (SensitiveDataPolicy_Evaluate L p e, w))\<rparr>"

definition MultiStageCorrelatedRule :: "pblib \<Rightarrow> burst_config \<Rightarrow> rule_world Rule" where
  "MultiStageCorrelatedRule L r = \<lparr>rl_ID = ''multi-stage-correlated-activity'', rl_Version = ''1'',
     rl_Name = ''Multi-stage correlated activity'', rl_thresholded = None,
     rl_eval = (\<lambda>e w. case MultiStage_Evaluate L r (rw_now w) e (rw_multi w) of (o1, s) \<Rightarrow> (o1, w\<lparr>rw_multi := s\<rparr>))\<rparr>"

text \<open>The rules in any configuration their constructors accept.\<close>

definition builtin :: "pblib \<Rightarrow> rule_world Rule set" where
  "builtin L = {BlockHighSeverityRule, SourceCriticalRule, IdentityPrivilegeChangeRule L} \<union>
     range (BlockBurstRule L) \<union> range (IdentAuthFailureBurstRule L) \<union> range (IdentAuthDeniedBurstRule L) \<union>
     range (MultiStageCorrelatedRule L) \<union>
     {rl. \<exists>p q. NewSensitiveDataPolicyRule p = Inr q \<and> rl = SensitiveDataPolicyRule L q}"

definition world_ok :: "rule_world \<Rightarrow> bool" where
  "world_ok w \<longleftrightarrow> windows_ok (rw_block w) \<and> windows_ok (rw_failures w) \<and> windows_ok (rw_denials w) \<and> multi_ok (rw_multi w)"

lemmas builtin_rules = BlockHighSeverityRule_def BlockBurstRule_def SourceCriticalRule_def IdentityPrivilegeChangeRule_def
  IdentAuthFailureBurstRule_def IdentAuthDeniedBurstRule_def SensitiveDataPolicyRule_def MultiStageCorrelatedRule_def

lemma builtin_usable:
  assumes "rl \<in> builtin L" and "good_event L e" and "world_ok w"
  shows "world_ok (snd (rl_eval rl (Some e) w)) \<and> usable e (fst (rl_eval rl (Some e) w))"
  using assms block_high_usable [OF assms(2)] source_critical_usable [OF assms(2)] privilege_change_usable [OF assms(2)]
    block_burst_usable [OF assms(2)] auth_burst_usable [OF assms(2)] multi_stage_usable [OF assms(2)]
    data_policy_usable [OF assms(2) new_policy_ok]
  by (auto simp: builtin_def builtin_rules world_ok_def split_beta
      IdentAuthFailureBurst_Evaluate_def IdentAuthDeniedBurst_Evaluate_def)

interpretation builtins: rule_set L "builtin L" world_ok for L
proof (rule rule_set.intro)
  fix rl :: "rule_world Rule" assume rl: "rl \<in> builtin L"
  then show "rl_ID rl \<noteq> [] \<and> rl_Name rl \<noteq> []" by (auto simp: builtin_def builtin_rules)
  show "sound_rule (\<lambda>now e. rl_eval rl (Some e)) world_ok (good_event L)"
    by (rule sound_ruleI) (rule builtin_usable [OF rl])
qed

subsection \<open>A closed run\<close>

definition ex_world :: rule_world where
  "ex_world = \<lparr>rw_now = 1, rw_block = fmempty, rw_failures = fmempty, rw_denials = fmempty, rw_multi = multi_state.make fmempty fmempty\<rparr>"

definition ex_critical :: TelemetryEvent where
  "ex_critical = ex_login\<lparr>te_event_type := ''waf.request_blocked'', te_severity := SEVERITY_CRITICAL\<rparr>"

text \<open>An engine with one rule that always matches soundly, and one that matches without a severity.\<close>

definition ex_bad_rule :: "rule_world Rule" where
  "ex_bad_rule = \<lparr>rl_ID = ''unrated'', rl_Version = ''1'', rl_Name = ''Unrated'', rl_thresholded = None,
     rl_eval = (\<lambda>e w. (Inr (match SEVERITY_UNSPECIFIED ''t'' ''d'' [''e1''] []), w))\<rparr>"

definition ex_engine :: "rule_world Rule list \<Rightarrow> rule_world dengine" where
  "ex_engine rs = \<lparr>dg_registry = \<lparr>rg_order = rs, rg_byID = fmap_of_list (map (\<lambda>r. (rl_ID r, r)) rs), rg_disabled = fmempty\<rparr>,
     dg_seen = fmempty, dg_emittedDet = 0, dg_emittedAlert = 0, dg_suppressed = 0, dg_stats = fmempty\<rparr>"

lemma ex_critical_good: "ValidateTelemetryEvent example_pb (Some ex_critical) = None"
  by code_simp

lemma ex_world_ok: "world_ok ex_world"
  by (simp add: ex_world_def world_ok_def multi_ok_def multi_state.defs)

definition ex_outcome :: Outcome where
  "ex_outcome = (case SourceCritical_Evaluate (Some ex_critical) of Inr oc \<Rightarrow> oc | Inl x \<Rightarrow> no_match)"

lemma ex_outcome: "SourceCritical_Evaluate (Some ex_critical) = Inr ex_outcome" "oc_Matched ex_outcome" "buildable ex_outcome"
proof -
  have s: "te_severity ex_critical = SEVERITY_CRITICAL" by (simp add: ex_critical_def)
  then show e: "SourceCritical_Evaluate (Some ex_critical) = Inr ex_outcome"
    by (simp add: SourceCritical_Evaluate_def ex_outcome_def)
  show m: "oc_Matched ex_outcome" using s by (simp add: SourceCritical_Evaluate_def ex_outcome_def)
  show "buildable ex_outcome"
    using source_critical_usable [OF ex_critical_good [folded good_event_def]] m unfolding e by (simp add: usable_def)
qed

definition ex_det :: Detection where
  "ex_det = detection_of example_pb SourceCriticalRule ex_outcome 9"

lemma ex_build:
  "BuildDetection example_pb (Some SourceCriticalRule) ex_outcome 9 = Inr ex_det"
  "BuildAlert example_pb (Some ex_det) 9 = Inr (alert_of example_pb ex_det 9)"
  using build_succeeds [OF ex_outcome(3,2), of SourceCriticalRule example_pb 9]
  by (simp_all add: ex_det_def SourceCriticalRule_def stamp_ok_def IsZero_def zero_time_def example_pb_def)

lemma ex_evaluate:
  "evaluate_rules 9 ex_critical [SourceCriticalRule] (ex_engine [SourceCriticalRule]) ex_world =
    (Inr [\<lparr>mt_Rule = SourceCriticalRule, mt_Outcome = ex_outcome\<rparr>],
     put_stat ''source-declared-critical'' \<lparr>st_evaluated = 1, st_detections = 0, st_errors = 0, st_errEvents = []\<rparr>
       (ex_engine [SourceCriticalRule]), ex_world)"
  using ex_outcome
  by (simp add: SourceCriticalRule_def ex_engine_def Registry_IsEnabled_def is_disabled_def stat_of_def zero_stat_def
      put_stat_def)

lemma ex_engine_sel [simp]:
  "Registry_List (dg_registry (ex_engine rs)) = rs" "rg_order (dg_registry (ex_engine rs)) = rs"
  "dg_seen (ex_engine rs) = fmempty"
  by (simp_all add: ex_engine_def Registry_List_def)

lemma ex_process:
  "\<exists>d1. Process example_pb 9 (Some ex_critical) (ex_engine [SourceCriticalRule]) ex_world =
    (Inr \<lparr>rs_Detections = [ex_det], rs_Alerts = [alert_of example_pb ex_det 9], rs_Suppressed = 0\<rparr>, d1, ex_world)"
  by (simp add: Process_def IsZero_def zero_time_def ex_critical_good ex_build ex_evaluate empty_result_def
      del: evaluate_rules.simps)

text \<open>With the unrated rule behind it, the same match is marked and not handed out.\<close>

lemma ex_bad_build: "\<exists>x. BuildDetection L (Some ex_bad_rule) (match SEVERITY_UNSPECIFIED ''t'' ''d'' [''e1''] []) now = Inl x"
  by (simp add: BuildDetection_def fail_if_def)

lemma ex_half:
  "\<exists>x d1. Process example_pb 9 (Some ex_critical) (ex_engine [SourceCriticalRule, ex_bad_rule]) ex_world = (Inl x, d1, ex_world) \<and>
    det_id ex_det \<in> seen_ids d1 - seen_ids (ex_engine [SourceCriticalRule, ex_bad_rule])"
proof -
  let ?d = "ex_engine [SourceCriticalRule, ex_bad_rule]"
  have "\<exists>d2. evaluate_rules 9 ex_critical [SourceCriticalRule, ex_bad_rule] ?d ex_world =
    (Inr [\<lparr>mt_Rule = SourceCriticalRule, mt_Outcome = ex_outcome\<rparr>,
      \<lparr>mt_Rule = ex_bad_rule, mt_Outcome = match SEVERITY_UNSPECIFIED ''t'' ''d'' [''e1''] []\<rparr>], d2, ex_world) \<and>
     dg_seen d2 = fmempty"
    using ex_outcome
    by (simp add: SourceCriticalRule_def ex_bad_rule_def ex_engine_def Registry_IsEnabled_def is_disabled_def Let_def)
  then obtain d2 where ev: "evaluate_rules 9 ex_critical [SourceCriticalRule, ex_bad_rule] ?d ex_world =
    (Inr [\<lparr>mt_Rule = SourceCriticalRule, mt_Outcome = ex_outcome\<rparr>,
      \<lparr>mt_Rule = ex_bad_rule, mt_Outcome = match SEVERITY_UNSPECIFIED ''t'' ''d'' [''e1''] []\<rparr>], d2, ex_world)"
     and seen: "dg_seen d2 = fmempty" by blast
  obtain x where x: "BuildDetection example_pb (Some ex_bad_rule) (match SEVERITY_UNSPECIFIED ''t'' ''d'' [''e1''] []) 9 = Inl x"
    using ex_bad_build by blast
  show ?thesis
    by (simp add: Process_def IsZero_def zero_time_def ex_critical_good ex_build ev x seen del: evaluate_rules.simps)
      (simp add: seen_ids_def)
qed

subsection \<open>The properties\<close>

text \<open>
  C12. No detection is emitted twice: over any sequence of registrations, toggles and \<open>Process\<close>
  calls, with any rules and any clock, the detections handed out have pairwise different
  ids, and so have the alerts, one for each detection.
\<close>

theorem detections_emitted_once:
  assumes "d_run L ops (d, w) = (rs, s1)"
  shows "distinct (map det_id (emitted rs)) \<and> distinct (map al_id (concat (map rs_Alerts rs))) \<and>
    map al_detection_ids (concat (map rs_Alerts rs)) = map (\<lambda>x. [det_id x]) (emitted rs)"
proof -
  have one: "map al_id (rs_Alerts res) = map (\<lambda>x. ''alert-'' @ det_id x) (rs_Detections res) \<and>
      map al_detection_ids (rs_Alerts res) = map (\<lambda>x. [det_id x]) (rs_Detections res)"
    if "d_step L op s = (res, s2)" for op s res s2
  proof (cases op)
    case (DProcess now p)
    obtain d w where s: "s = (d, w)" by (cases s)
    obtain r d1 w1 where pr: "Process L now p d w = (r, d1, w1)" using prod_cases3 by blast
    show ?thesis
    proof (cases r)
      case (Inr res1)
      then have "res = res1" using that DProcess s pr by auto
      with pr Inr show ?thesis by (auto elim!: Process_Inr simp: alert_of_def)
    qed (use that DProcess s pr in \<open>auto simp: empty_result_def\<close>)
  qed (cases s; use that in \<open>force simp: empty_result_def\<close>)+
  have "map al_id (concat (map rs_Alerts rs)) = map (\<lambda>x. ''alert-'' @ det_id x) (emitted rs) \<and>
      map al_detection_ids (concat (map rs_Alerts rs)) = map (\<lambda>x. [det_id x]) (emitted rs)"
    using assms
  proof (induction ops arbitrary: d w rs)
    case (Cons op ops)
    obtain res s2 where st: "d_step L op (d, w) = (res, s2)" by (metis surj_pair)
    obtain rs2 where rest: "d_run L ops s2 = (rs2, s1)" and rs: "rs = res # rs2"
      using Cons.prems st by (auto split: prod.splits)
    show ?case using one [OF st] Cons.IH [of "fst s2" "snd s2" rs2] rest by (simp add: rs emitted_def)
  qed (simp add: emitted_def)
  moreover have "distinct (map det_id (emitted rs))" using d_run_seen [OF assms] by simp
  moreover from this have "distinct (map (\<lambda>x. ''alert-'' @ det_id x) (emitted rs))"
    by (simp add: distinct_map inj_on_def)
  ultimately show ?thesis by simp
qed

theorem detections_emitted_once_witness:
  "\<exists>rs s1. d_run example_pb [DDisable ''x'', DProcess 9 (Some ex_critical)] (ex_engine [SourceCriticalRule], ex_world) = (rs, s1) \<and>
    emitted rs = [ex_det] \<and> distinct (map det_id (emitted rs))"
proof -
  have off: "snd (engine_Disable ''x'' (ex_engine [SourceCriticalRule])) = ex_engine [SourceCriticalRule]"
    by (simp add: engine_Disable_def Registry_Disable_def ex_engine_def SourceCriticalRule_def)
  obtain d1 where "Process example_pb 9 (Some ex_critical) (ex_engine [SourceCriticalRule]) ex_world =
      (Inr \<lparr>rs_Detections = [ex_det], rs_Alerts = [alert_of example_pb ex_det 9], rs_Suppressed = 0\<rparr>, d1, ex_world)"
    using ex_process by blast
  then have run: "d_run example_pb [DDisable ''x'', DProcess 9 (Some ex_critical)] (ex_engine [SourceCriticalRule], ex_world) =
      ([empty_result, \<lparr>rs_Detections = [ex_det], rs_Alerts = [alert_of example_pb ex_det 9], rs_Suppressed = 0\<rparr>], d1, ex_world)"
    by (simp add: off)
  show ?thesis using run detections_emitted_once [OF run] by (auto simp: emitted_def empty_result_def)
qed

text \<open>
  C13. What \<open>Process\<close> hands out is complete and valid: every returned detection passes the
  contract boundary, stems from a match of an enabled registered rule and carries that
  rule's id; the alerts answer the detections one for one, pass the boundary and take over
  their severity; and every match of this call is now recorded as emitted.
\<close>

theorem process_output_valid:
  assumes "Process L now (Some e) d w = (Inr res, d1, w1)"
  shows "rs_Alerts res = map (\<lambda>x. alert_of L x now) (rs_Detections res) \<and>
    (\<forall>x \<in> set (rs_Detections res). ValidateDetection L (Some x) = None \<and>
       ValidateAlert L (Some (alert_of L x now)) = None \<and> al_severity (alert_of L x now) = det_severity x \<and>
       (\<exists>rl \<in> set (rg_order (dg_registry d)). Registry_IsEnabled (rl_ID rl) (dg_registry d) \<and> det_rule_id x = rl_ID rl)) \<and>
    dg_emittedDet d1 = dg_emittedDet d + int (length (rs_Detections res))"
  using assms
proof (rule Process_Inr)
  fix e' ms d2 dets
  assume h: "evaluate_rules now e' (Registry_List (dg_registry d)) d w = (Inr ms, d2, w1)"
    "rs_Detections res = dets" "rs_Alerts res = map (\<lambda>x. alert_of L x now) dets"
    "dg_emittedDet d1 = dg_emittedDet d + int (length dets)"
    and al: "\<And>x. x \<in> set dets \<Longrightarrow> BuildAlert L (Some x) now = Inr (alert_of L x now)"
    and src: "\<And>x. x \<in> set dets \<Longrightarrow> \<exists>m \<in> set ms. BuildDetection L (Some (mt_Rule m)) (mt_Outcome m) now = Inr x"
  have "ValidateDetection L (Some x) = None \<and> ValidateAlert L (Some (alert_of L x now)) = None \<and>
      (\<exists>rl \<in> set (rg_order (dg_registry d)). Registry_IsEnabled (rl_ID rl) (dg_registry d) \<and> det_rule_id x = rl_ID rl)"
    if x: "x \<in> set dets" for x
  proof -
    obtain m where m: "m \<in> set ms" "BuildDetection L (Some (mt_Rule m)) (mt_Outcome m) now = Inr x" using src [OF x] by blast
    have "det_rule_id x = rl_ID (mt_Rule m)" using BuildDetection_Inr [OF m(2)] by (simp add: detection_of_def)
    with evaluate_rules_matches [OF h(1) m(1)] BuildAlert_Inr [OF al [OF x]]
    show ?thesis by (auto simp: Registry_List_def)
  qed
  then show ?thesis using h by (auto simp: alert_of_def)
qed

theorem process_output_valid_witness:
  "\<exists>res d1. Process example_pb 9 (Some ex_critical) (ex_engine [SourceCriticalRule]) ex_world = (Inr res, d1, ex_world) \<and>
    rs_Detections res = [ex_det] \<and> ValidateDetection example_pb (Some ex_det) = None"
proof -
  obtain d1 where pr: "Process example_pb 9 (Some ex_critical) (ex_engine [SourceCriticalRule]) ex_world =
      (Inr \<lparr>rs_Detections = [ex_det], rs_Alerts = [alert_of example_pb ex_det 9], rs_Suppressed = 0\<rparr>, d1, ex_world)"
    using ex_process by blast
  from process_output_valid [OF pr] pr show ?thesis by auto
qed

text \<open>
  Disabled rules are left alone: a call of \<open>Process\<close> changes no statistics of a rule that
  is not enabled and hands out no detection under its id.
\<close>

theorem disabled_rule_untouched:
  assumes "Process L now p d w = (r, d1, w1)" and "\<not> Registry_IsEnabled k (dg_registry d)"
  shows "fmlookup (dg_stats d1) k = fmlookup (dg_stats d) k \<and>
    (\<forall>res. r = Inr res \<longrightarrow> k \<notin> det_rule_id ` set (rs_Detections res))"
proof (cases "ValidateTelemetryEvent L p = None \<and> \<not> IsZero now")
  case True
  then obtain e where e: "p = Some e" by (cases p) (auto simp: ValidateTelemetryEvent_def)
  obtain r2 d2 w2 where ev: "evaluate_rules now e (Registry_List (dg_registry d)) d w = (r2, d2, w2)" using prod_cases3 by blast
  note frame = evaluate_rules_frame [OF ev]
  show ?thesis
  proof (cases r2)
    case (Inl x)
    then have "d1 = d2 \<and> r = Inl x" using assms(1) True e ev by (simp add: Process_def)
    then show ?thesis using frame assms(2) by simp
  next
    case (Inr ms)
    obtain r3 d3 where em: "emit_matches L now ms empty_result d2 = (r3, d3)" by fastforce
    have r: "r = r3" "d1 = d3" using assms(1) True e ev Inr em by (simp_all add: Process_def)
    have other: "\<forall>m \<in> set ms. rl_ID (mt_Rule m) \<noteq> k"
      using evaluate_rules_matches [OF ev [unfolded Inr]] assms(2) by blast
    have "k \<notin> det_rule_id ` set (rs_Detections res)" if "r3 = Inr res" for res
    proof -
      have src: "\<forall>x \<in> set (rs_Detections res). \<exists>m \<in> set ms. BuildDetection L (Some (mt_Rule m)) (mt_Outcome m) now = Inr x"
        using emit_matches_Inr [OF em [unfolded that]] by (auto simp: empty_result_def)
      show ?thesis
      proof
        assume "k \<in> det_rule_id ` set (rs_Detections res)"
        then obtain x m where "det_rule_id x = k" "m \<in> set ms" "BuildDetection L (Some (mt_Rule m)) (mt_Outcome m) now = Inr x"
          using src by blast
        then show False using other BuildDetection_Inr by (fastforce simp: detection_of_def)
      qed
    qed
    then show ?thesis using emit_matches_stats [OF em other] frame assms(2) r by simp
  qed
qed (use assms in \<open>auto simp: Process_def split: option.splits if_splits\<close>)

theorem disabled_rule_untouched_witness:
  "\<exists>r d1 w1. Process example_pb 9 (Some ex_critical) (ex_engine [SourceCriticalRule]) ex_world = (r, d1, w1) \<and>
    fmlookup (dg_stats d1) ''waf-block-burst'' = fmlookup (dg_stats (ex_engine [SourceCriticalRule])) ''waf-block-burst''"
proof -
  obtain r d1 w1 where pr: "Process example_pb 9 (Some ex_critical) (ex_engine [SourceCriticalRule]) ex_world = (r, d1, w1)"
    using prod_cases3 by blast
  have "\<not> Registry_IsEnabled ''waf-block-burst'' (dg_registry (ex_engine [SourceCriticalRule]))"
    by (simp add: Registry_IsEnabled_def ex_engine_def SourceCriticalRule_def)
  from disabled_rule_untouched [OF pr this] pr show ?thesis by blast
qed

text \<open>
  A detection whose event was aborted half way is lost: when \<open>Process\<close> fails after it had
  marked detections as emitted, none of these is handed out by that call or by any later one.
\<close>

theorem half_emitted_is_lost:
  assumes "Process L now p d w = (Inl x, d1, w1)" and "k \<in> seen_ids d1 - seen_ids d"
    and "d_run L ops (d1, w1) = (rs, s1)"
  shows "fst (d_step L (DProcess now p) (d, w)) = empty_result \<and> k \<notin> det_id ` set (emitted rs)"
  using assms d_run_seen [OF assms(3)] by (auto simp: disjoint_iff)

theorem half_emitted_is_lost_witness:
  "\<exists>x d1 rs s1. Process example_pb 9 (Some ex_critical) (ex_engine [SourceCriticalRule, ex_bad_rule]) ex_world = (Inl x, d1, ex_world) \<and>
    d_run example_pb [DDisable ''unrated'', DProcess 10 (Some ex_critical)] (d1, ex_world) = (rs, s1) \<and>
    det_id ex_det \<notin> det_id ` set (emitted rs)"
proof -
  obtain x d1 where pr: "Process example_pb 9 (Some ex_critical) (ex_engine [SourceCriticalRule, ex_bad_rule]) ex_world = (Inl x, d1, ex_world)"
    and lost: "det_id ex_det \<in> seen_ids d1 - seen_ids (ex_engine [SourceCriticalRule, ex_bad_rule])" using ex_half by blast
  obtain rs s1 where run: "d_run example_pb [DDisable ''unrated'', DProcess 10 (Some ex_critical)] (d1, ex_world) = (rs, s1)"
    by (metis surj_pair)
  from half_emitted_is_lost [OF pr lost run] pr run show ?thesis by blast
qed

text \<open>
  With the repository's own rules, in any accepted configuration, nothing is lost: a call
  of \<open>Process\<close> on a valid event at a representable instant fails only because a rule reported
  an error, never because a detection or an alert could not be built, and a failing call has
  marked no detection as emitted; the rules' state stays in order.
\<close>

theorem builtin_rules_lose_nothing:
  assumes "ts_range L" and "zero_time < now" and "now \<le> max_time"
    and "ValidateTelemetryEvent L (Some e) = None" and "world_ok w"
    and "set (rg_order (dg_registry d)) \<subseteq> builtin L"
    and "Process L now (Some e) d w = (r, d1, w1)"
  shows "world_ok w1 \<and> (\<forall>x. r = Inl x \<longrightarrow> errors_Is x (Detect ErrRuleEvaluation) \<and> seen_ids d1 = seen_ids d)"
  by (rule builtins.process_sound [OF assms(7) assms(4) [folded good_event_def] stamp_ok_range [OF assms(1-3)] assms(5,6)])

theorem builtin_rules_lose_nothing_witness:
  "\<exists>r d1 w1. Process example_pb 9 (Some ex_critical) (ex_engine [SourceCriticalRule]) ex_world = (r, d1, w1) \<and> world_ok w1 \<and>
    (\<forall>x. r = Inl x \<longrightarrow> errors_Is x (Detect ErrRuleEvaluation) \<and> seen_ids d1 = seen_ids (ex_engine [SourceCriticalRule]))"
proof -
  obtain r d1 w1 where pr: "Process example_pb 9 (Some ex_critical) (ex_engine [SourceCriticalRule]) ex_world = (r, d1, w1)"
    using prod_cases3 by blast
  have "set (rg_order (dg_registry (ex_engine [SourceCriticalRule]))) \<subseteq> builtin example_pb" by (simp add: builtin_def)
  from builtin_rules_lose_nothing [OF example_pb_range _ _ ex_critical_good ex_world_ok this pr] pr
  show ?thesis by (auto simp: zero_time_def max_time_def)
qed

end
