(* ===== verification/Source.thy ===== *)
theory Source
  imports GoTime
begin

text \<open>
  Telemetry intake (\<open>source/source.go\<close>, \<open>source/reader.go\<close>): the raw event, the in-memory
  channel source and the JSON-lines reader. Both sources are state machines over the
  operations of their callers and, for the reader, of its scanner goroutine; a Go channel is
  the list of what is buffered in it. Fields called \<open>injected\<close>, \<open>received\<close>, \<open>lost\<close> and
  \<open>stops\<close> only record what happened. \<open>encoding/json\<close> and \<open>time.Parse\<close> are the two functions
  of a decoder, an argument of everything that reads a line.
\<close>

text \<open>A raw event; the zero instant means an unknown time.\<close>

record RawEvent =
  rw_ID :: string
  rw_Source :: string
  rw_AssetID :: string
  rw_IdentityID :: string
  rw_EventType :: string
  rw_Severity :: string
  rw_Attributes :: attrs
  rw_Raw :: string
  rw_OccurredAt :: gotime

subsection \<open>The channel source\<close>

record ChannelSource =
  cs_cap :: nat
  cs_ch :: "RawEvent list"
  cs_closed :: bool
  cs_injected :: "RawEvent list"
  cs_received :: "RawEvent list"

definition NewChannelSource :: "int \<Rightarrow> ChannelSource" where
  "NewChannelSource buffer = \<lparr>cs_cap = (if buffer < 0 then 0 else nat buffer), cs_ch = [], cs_closed = False,
     cs_injected = [], cs_received = []\<rparr>"

text \<open>
  The ways an \<open>Inject\<close> ends: refused by a stopped source, ended by its context, sent into the
  buffer, or handed to a waiting receiver (the only way without a buffer). In any other
  state it blocks: \<^const>\<open>None\<close>.
\<close>

datatype inject_choice = SeeDone | Send

definition Inject :: "inject_choice \<Rightarrow> bool \<Rightarrow> bool \<Rightarrow> RawEvent \<Rightarrow> ChannelSource \<Rightarrow> (goerr \<times> ChannelSource) option" where
  "Inject choice cancelled waiting e s =
     (if cs_closed s then Some (Some (Plain ''source: channel source stopped''), s)
      else (case choice of
              SeeDone \<Rightarrow> if cancelled then Some (Some (Plain ''context canceled''), s) else None
            | Send \<Rightarrow>
                if length (cs_ch s) < cs_cap s
                  then Some (None, s\<lparr>cs_ch := cs_ch s @ [e], cs_injected := cs_injected s @ [e]\<rparr>)
                else if waiting \<and> cs_ch s = []
                  then Some (None, s\<lparr>cs_injected := cs_injected s @ [e], cs_received := cs_received s @ [e]\<rparr>)
                else None))"

definition ChannelSource_Stop :: "ChannelSource \<Rightarrow> ChannelSource" where
  "ChannelSource_Stop s = (if cs_closed s then s else s\<lparr>cs_closed := True\<rparr>)"

inductive channel_step :: "ChannelSource \<Rightarrow> ChannelSource \<Rightarrow> bool" where
  c_inject: "Inject choice cancelled waiting e s = Some (r, s') \<Longrightarrow> channel_step s s'"
| c_receive: "cs_ch s = e # es \<Longrightarrow> channel_step s (s\<lparr>cs_ch := es, cs_received := cs_received s @ [e]\<rparr>)"
| c_stop: "channel_step s (ChannelSource_Stop s)"

text \<open>What was injected is what was received and what is buffered, in order: no loss, no invention.\<close>

lemma Inject_conserves:
  "Inject choice cancelled waiting e s = Some (r, s') \<Longrightarrow> cs_injected s = cs_received s @ cs_ch s \<Longrightarrow>
     length (cs_ch s) \<le> cs_cap s \<Longrightarrow>
     cs_injected s' = cs_received s' @ cs_ch s' \<and> length (cs_ch s') \<le> cs_cap s' \<and>
     (cs_closed s \<longrightarrow> s' = s \<and> r \<noteq> None)"
  by (auto simp: Inject_def split: if_splits inject_choice.splits)

lemma channel_conserves:
  assumes "channel_step\<^sup>*\<^sup>* (NewChannelSource buffer) s"
  shows "cs_injected s = cs_received s @ cs_ch s \<and> length (cs_ch s) \<le> cs_cap s"
  using assms
proof (induction rule: rtranclp_induct)
  case base
  then show ?case by (simp add: NewChannelSource_def)
next
  case (step s t)
  from step.hyps(2) step.IH show ?case
    by (induction rule: channel_step.induct) (auto dest: Inject_conserves simp: ChannelSource_Stop_def)
qed

lemma channel_closed_forever:
  assumes "channel_step s t" and "cs_closed s"
  shows "cs_closed t \<and> cs_injected t = cs_injected s"
  using assms by (induction rule: channel_step.induct) (auto simp: Inject_def ChannelSource_Stop_def)

subsection \<open>Lines\<close>

record SourceError =
  se_Line :: int
  se_Cause :: string

record rawJSON =
  jn_ID :: string
  jn_Source :: string
  jn_AssetID :: string
  jn_IdentityID :: string
  jn_EventType :: string
  jn_Severity :: string
  jn_Attributes :: attrs
  jn_Raw :: string
  jn_OccurredAt :: string

record decoder =
  dc_Unmarshal :: "string \<Rightarrow> rawJSON res"
  dc_Parse_RFC3339 :: "string \<Rightarrow> gotime res"

definition decodeLine :: "decoder \<Rightarrow> rawJSON \<Rightarrow> RawEvent res" where
  "decodeLine D i =
     (let raw = \<lparr>rw_ID = jn_ID i, rw_Source = jn_Source i, rw_AssetID = jn_AssetID i, rw_IdentityID = jn_IdentityID i,
        rw_EventType = jn_EventType i, rw_Severity = jn_Severity i, rw_Attributes = jn_Attributes i, rw_Raw = jn_Raw i,
        rw_OccurredAt = zero_time\<rparr>
      in if jn_OccurredAt i \<noteq> []
         then (case dc_Parse_RFC3339 D (jn_OccurredAt i) of
                 Inl e \<Rightarrow> Inl (Ctx ''occurred_at'' e)
               | Inr t \<Rightarrow> Inr (raw\<lparr>rw_OccurredAt := t\<rparr>))
         else Inr raw)"

text \<open>What one line of the scan loop comes to.\<close>

datatype line_result = SkipLine | BadLine SourceError | GoodLine RawEvent

definition scan_line :: "decoder \<Rightarrow> nat \<Rightarrow> string \<Rightarrow> line_result" where
  "scan_line D n t =
     (if t = [] then SkipLine
      else (case dc_Unmarshal D t of
              Inl e \<Rightarrow> BadLine \<lparr>se_Line = int n, se_Cause = ''json: '' @ err_Error e\<rparr>
            | Inr i \<Rightarrow>
               (case decodeLine D i of
                  Inl e \<Rightarrow> BadLine \<lparr>se_Line = int n, se_Cause = err_Error e\<rparr>
                | Inr raw \<Rightarrow> GoodLine raw)))"

text \<open>The reference: what a whole text means, line by line, numbered from 1.\<close>

definition good_events :: "decoder \<Rightarrow> string list \<Rightarrow> RawEvent list" where
  "good_events D ls = concat (map (\<lambda>(n, t). case scan_line D n t of GoodLine e \<Rightarrow> [e] | _ \<Rightarrow> []) (List.enumerate 1 ls))"

definition bad_lines :: "decoder \<Rightarrow> string list \<Rightarrow> SourceError list" where
  "bad_lines D ls = concat (map (\<lambda>(n, t). case scan_line D n t of BadLine b \<Rightarrow> [b] | _ \<Rightarrow> []) (List.enumerate 1 ls))"

lemma good_events_snoc:
  "good_events D (ls @ [t]) = good_events D ls @ (case scan_line D (Suc (length ls)) t of GoodLine e \<Rightarrow> [e] | _ \<Rightarrow> [])"
  by (simp add: good_events_def enumerate_append_eq)

lemma bad_lines_snoc:
  "bad_lines D (ls @ [t]) = bad_lines D ls @ (case scan_line D (Suc (length ls)) t of BadLine b \<Rightarrow> [b] | _ \<Rightarrow> [])"
  by (simp add: bad_lines_def enumerate_append_eq)

lemma lines_Nil [simp]: "good_events D [] = []" "bad_lines D [] = []"
  by (simp_all add: good_events_def bad_lines_def)

subsection \<open>The reader source\<close>

text \<open>
  The scanner goroutine is absent, at the top of its loop, or has returned; \<open>rd_hold\<close> is the
  event it offers in its select. \<open>rd_lines\<close> is what the scanner still has to yield and
  \<open>rd_err\<close> what its \<open>Err\<close> says after that. \<open>rd_closes\<close> counts the calls of \<open>close(s.ch)\<close>: the
  second one panics.
\<close>

datatype scan_phase = NoScanner | Scanning | Returned

record ReaderSource =
  rd_lines :: "string list"
  rd_err :: goerr
  rd_no :: nat
  rd_ch :: "RawEvent list"
  rd_hold :: "RawEvent option"
  rd_scan :: scan_phase
  rd_started :: bool
  rd_stopped :: bool
  rd_cancelled :: bool
  rd_closes :: nat
  rd_bad :: "SourceError list"
  rd_received :: "RawEvent list"
  rd_lost :: "RawEvent list"
  rd_stops :: nat

definition NewReaderSource :: "string list \<Rightarrow> goerr \<Rightarrow> ReaderSource" where
  "NewReaderSource ls e = \<lparr>rd_lines = ls, rd_err = e, rd_no = 0, rd_ch = [], rd_hold = None, rd_scan = NoScanner,
     rd_started = False, rd_stopped = False, rd_cancelled = False, rd_closes = 0, rd_bad = [], rd_received = [],
     rd_lost = [], rd_stops = 0\<rparr>"

definition reader_capacity :: nat where "reader_capacity = 64"

definition ReaderSource_Start :: "ReaderSource \<Rightarrow> goerr \<times> ReaderSource" where
  "ReaderSource_Start s =
     (if rd_stopped s then (Some (Plain ''source: ReaderSource stopped''), s)
      else if rd_started s then (None, s)
      else (None, s\<lparr>rd_started := True, rd_scan := Scanning\<rparr>))"

definition ReaderSource_BadLines :: "ReaderSource \<Rightarrow> SourceError list" where
  "ReaderSource_BadLines s = rd_bad s"

definition reader_record :: "int \<Rightarrow> string \<Rightarrow> ReaderSource \<Rightarrow> ReaderSource" where
  "reader_record line cause s = s\<lparr>rd_bad := rd_bad s @ [\<lparr>se_Line = line, se_Cause = cause\<rparr>]\<rparr>"

definition stopRequested :: "ReaderSource \<Rightarrow> bool" where
  "stopRequested s \<longleftrightarrow> rd_stopped s \<or> rd_cancelled s"

text \<open>\<open>Stop\<close> up to the point where it waits for a started scanner.\<close>

definition ReaderSource_Stop :: "ReaderSource \<Rightarrow> ReaderSource" where
  "ReaderSource_Stop s =
     (let s1 = s\<lparr>rd_stopped := True, rd_stops := rd_stops s + 1\<rparr>
      in if rd_started s then s1 else s1\<lparr>rd_closes := rd_closes s1 + 1\<rparr>)"

definition panicked :: "ReaderSource \<Rightarrow> bool" where
  "panicked s \<longleftrightarrow> 2 \<le> rd_closes s"

text \<open>One turn of the scan loop up to the select: a skipped, a recorded or an offered line.\<close>

definition scan_next :: "decoder \<Rightarrow> string \<Rightarrow> string list \<Rightarrow> ReaderSource \<Rightarrow> ReaderSource" where
  "scan_next D t ls s =
     (let s1 = s\<lparr>rd_lines := ls, rd_no := rd_no s + 1\<rparr>
      in case scan_line D (rd_no s1) t of
           SkipLine \<Rightarrow> s1
         | BadLine b \<Rightarrow> reader_record (se_Line b) (se_Cause b) s1
         | GoodLine e \<Rightarrow> s1\<lparr>rd_hold := Some e\<rparr>)"

text \<open>The end of the scan: a read error is recorded unless a stop was asked for; the channel is closed.\<close>

definition scan_end :: "ReaderSource \<Rightarrow> ReaderSource" where
  "scan_end s =
     (let s1 = (case rd_err s of
                  Some e \<Rightarrow> if \<not> stopRequested s then reader_record (int (rd_no s + 1)) (''read: '' @ err_Error e) s else s
                | None \<Rightarrow> s)
      in s1\<lparr>rd_scan := Returned, rd_closes := rd_closes s1 + 1\<rparr>)"

inductive reader_step :: "decoder \<Rightarrow> ReaderSource \<Rightarrow> ReaderSource \<Rightarrow> bool" for D where
  r_start: "reader_step D s (snd (ReaderSource_Start s))"
| r_stop: "\<not> panicked s \<Longrightarrow> reader_step D s (ReaderSource_Stop s)"
| r_cancel: "reader_step D s (s\<lparr>rd_cancelled := True\<rparr>)"
| r_receive: "rd_ch s = e # es \<Longrightarrow> reader_step D s (s\<lparr>rd_ch := es, rd_received := rd_received s @ [e]\<rparr>)"
| r_closed_reader: "rd_stopped s \<Longrightarrow> reader_step D s (s\<lparr>rd_lines := [], rd_err := Some x\<rparr>)"
| r_scan: "rd_scan s = Scanning \<Longrightarrow> rd_hold s = None \<Longrightarrow> rd_lines s = t # ls \<Longrightarrow> reader_step D s (scan_next D t ls s)"
| r_send: "rd_scan s = Scanning \<Longrightarrow> rd_hold s = Some e \<Longrightarrow> length (rd_ch s) < reader_capacity \<Longrightarrow>
    reader_step D s (s\<lparr>rd_ch := rd_ch s @ [e], rd_hold := None\<rparr>)"
| r_quit: "rd_scan s = Scanning \<Longrightarrow> rd_hold s = Some e \<Longrightarrow> stopRequested s \<Longrightarrow>
    reader_step D s (s\<lparr>rd_hold := None, rd_lost := rd_lost s @ [e], rd_scan := Returned, rd_closes := rd_closes s + 1\<rparr>)"
| r_end: "rd_scan s = Scanning \<Longrightarrow> rd_hold s = None \<Longrightarrow> rd_lines s = [] \<Longrightarrow> reader_step D s (scan_end s)"

subsection \<open>The invariant of the reader source\<close>

definition offered :: "ReaderSource \<Rightarrow> RawEvent list" where
  "offered s = (case rd_hold s of None \<Rightarrow> [] | Some e \<Rightarrow> [e])"

definition reader_inv :: "decoder \<Rightarrow> string list \<Rightarrow> goerr \<Rightarrow> ReaderSource \<Rightarrow> bool" where
  "reader_inv D ls e0 s \<longleftrightarrow>
     (rd_no s \<le> length ls \<and> (rd_lines s = drop (rd_no s) ls \<and> rd_err s = e0 \<or> rd_lines s = [] \<and> rd_stopped s)) \<and>
     good_events D (take (rd_no s) ls) = rd_received s @ rd_ch s @ offered s @ rd_lost s \<and>
     (rd_bad s = bad_lines D (take (rd_no s) ls) \<or>
       rd_scan s = Returned \<and> (\<exists>x. e0 = Some x \<and> rd_no s = length ls \<and>
         rd_bad s = bad_lines D ls @ [\<lparr>se_Line = int (length ls + 1), se_Cause = ''read: '' @ err_Error x\<rparr>])) \<and>
     (rd_started s \<longleftrightarrow> rd_scan s \<noteq> NoScanner) \<and>
     (rd_hold s \<noteq> None \<longrightarrow> rd_scan s = Scanning) \<and>
     (rd_lost s \<noteq> [] \<longrightarrow> rd_scan s = Returned \<and> stopRequested s) \<and>
     (rd_scan s = Returned \<and> \<not> stopRequested s \<longrightarrow> rd_no s = length ls) \<and>
     rd_closes s = (if rd_started s then (if rd_scan s = Returned then 1 else 0) else rd_stops s) \<and>
     (0 < rd_stops s \<longleftrightarrow> rd_stopped s)"

lemma reader_inv_New: "reader_inv D ls e (NewReaderSource ls e)"
  by (simp add: reader_inv_def NewReaderSource_def offered_def)

lemma reader_inv_scan:
  assumes inv: "reader_inv D ls e0 s" and s: "rd_scan s = Scanning" "rd_hold s = None" "rd_lines s = t # rest"
  shows "reader_inv D ls e0 (scan_next D t rest s)"
proof -
  have rest: "drop (rd_no s) ls = t # rest" and e0: "rd_err s = e0" using inv s(3) by (auto simp: reader_inv_def)
  then have lt: "rd_no s < length ls" by (metis drop_eq_Nil linorder_not_less list.distinct(1))
  have tk: "take (Suc (rd_no s)) ls = take (rd_no s) ls @ [t]"
    using rest lt by (metis Cons_nth_drop_Suc list.inject take_Suc_conv_app_nth)
  have dr: "drop (Suc (rd_no s)) ls = rest" using rest by (metis drop_Suc list.sel(3) tl_drop)
  have len: "length (take (rd_no s) ls) = rd_no s" using lt by simp
  have bad: "rd_bad s = bad_lines D (take (rd_no s) ls)" using inv s(1) by (simp add: reader_inv_def)
  show ?thesis
  proof (cases "scan_line D (Suc (rd_no s)) t")
    case SkipLine
    then show ?thesis using inv s lt dr len bad e0
      by (simp add: reader_inv_def scan_next_def tk good_events_snoc bad_lines_snoc offered_def stopRequested_def)
  next
    case (BadLine b)
    then show ?thesis using inv s lt dr len bad e0
      by (simp add: reader_inv_def scan_next_def reader_record_def tk good_events_snoc bad_lines_snoc offered_def stopRequested_def)
  next
    case (GoodLine ev)
    then show ?thesis using inv s lt dr len bad e0
      by (simp add: reader_inv_def scan_next_def tk good_events_snoc bad_lines_snoc offered_def stopRequested_def)
  qed
qed

lemma reader_inv_end:
  assumes inv: "reader_inv D ls e0 s" and s: "rd_scan s = Scanning" "rd_hold s = None" "rd_lines s = []"
  shows "reader_inv D ls e0 (scan_end s)"
proof -
  have bad: "rd_bad s = bad_lines D (take (rd_no s) ls)" using inv s(1) by (simp add: reader_inv_def)
  have all: "rd_no s = length ls \<and> rd_err s = e0" if "\<not> stopRequested s"
    using inv s(3) that by (auto simp: reader_inv_def stopRequested_def)
  show ?thesis
  proof (cases "stopRequested s")
    case True
    then have "scan_end s = s\<lparr>rd_scan := Returned, rd_closes := rd_closes s + 1\<rparr>"
      by (simp add: scan_end_def split: option.split)
    then show ?thesis using inv s bad True by (simp add: reader_inv_def offered_def stopRequested_def)
  next
    case False
    show ?thesis
      using inv s bad False all [OF False]
      by (cases e0) (simp_all add: scan_end_def reader_record_def reader_inv_def offered_def stopRequested_def)
  qed
qed

lemma reader_inv_step:
  assumes "reader_step D s s'" and "reader_inv D ls e0 s"
  shows "reader_inv D ls e0 s'"
  using assms
proof (induction rule: reader_step.induct)
  case (r_start s)
  then show ?case by (cases "rd_stopped s"; cases "rd_started s") (auto simp: ReaderSource_Start_def reader_inv_def offered_def stopRequested_def)
next
  case (r_stop s)
  then show ?case by (auto simp: ReaderSource_Stop_def reader_inv_def offered_def stopRequested_def Let_def)
next
  case (r_cancel s)
  then show ?case by (auto simp: reader_inv_def offered_def stopRequested_def)
next
  case (r_receive s e es)
  then show ?case by (simp add: reader_inv_def offered_def stopRequested_def)
next
  case (r_closed_reader s x)
  then show ?case by (auto simp: reader_inv_def offered_def stopRequested_def)
next
  case (r_scan s t rest)
  then show ?case by (intro reader_inv_scan)
next
  case (r_send s e)
  then show ?case by (auto simp: reader_inv_def offered_def stopRequested_def)
next
  case (r_quit s e)
  then show ?case by (auto simp: reader_inv_def offered_def stopRequested_def)
next
  case (r_end s)
  then show ?case by (intro reader_inv_end)
qed

lemma reader_inv_reach: "(reader_step D)\<^sup>*\<^sup>* (NewReaderSource ls e) s \<Longrightarrow> reader_inv D ls e s"
  by (induction rule: rtranclp_induct) (auto intro: reader_inv_New reader_inv_step)

subsection \<open>The properties\<close>

text \<open>
  No line is silently dropped: what a consumer received, what is buffered, offered or
  dropped by a requested stop is exactly the sequence of good lines read so far, every bad
  line is reported under its number, and a scan that ended by itself has read every line.
\<close>

theorem reader_accounts_for_lines:
  assumes "(reader_step D)\<^sup>*\<^sup>* (NewReaderSource ls e) s"
  shows "good_events D (take (rd_no s) ls) = rd_received s @ rd_ch s @ offered s @ rd_lost s \<and>
    set (bad_lines D (take (rd_no s) ls)) \<subseteq> set (ReaderSource_BadLines s) \<and>
    (\<not> stopRequested s \<longrightarrow> rd_lost s = [] \<and> (rd_scan s = Returned \<longrightarrow> rd_no s = length ls))"
proof -
  have inv: "reader_inv D ls e s" by (rule reader_inv_reach [OF assms])
  have "good_events D (take (rd_no s) ls) = rd_received s @ rd_ch s @ offered s @ rd_lost s"
    using inv by (simp add: reader_inv_def)
  moreover have "set (bad_lines D (take (rd_no s) ls)) \<subseteq> set (ReaderSource_BadLines s)"
    using inv by (auto simp: reader_inv_def ReaderSource_BadLines_def)
  moreover have "\<not> stopRequested s \<Longrightarrow> rd_lost s = [] \<and> (rd_scan s = Returned \<longrightarrow> rd_no s = length ls)"
    using inv by (auto simp: reader_inv_def)
  ultimately show ?thesis by blast
qed

theorem reader_accounts_for_lines_witness:
  fixes D :: decoder
  defines "D \<equiv> \<lparr>dc_Unmarshal = (\<lambda>_. Inl (Plain ''syntax'')), dc_Parse_RFC3339 = (\<lambda>_. Inl (Plain ''time''))\<rparr>"
  shows "\<exists>s. (reader_step D)\<^sup>*\<^sup>* (NewReaderSource [''{''] None) s \<and> rd_no s = 1 \<and>
    \<lparr>se_Line = 1, se_Cause = ''json: syntax''\<rparr> \<in> set (ReaderSource_BadLines s)"
proof -
  let ?s1 = "snd (ReaderSource_Start (NewReaderSource [''{''] None))"
  let ?s2 = "scan_next D ''{'' [] ?s1"
  have 1: "reader_step D (NewReaderSource [''{''] None) ?s1" by (rule r_start)
  have "reader_step D ?s1 ?s2" by (rule r_scan) (simp_all add: ReaderSource_Start_def NewReaderSource_def)
  with 1 have reach: "(reader_step D)\<^sup>*\<^sup>* (NewReaderSource [''{''] None) ?s2" by simp
  have no: "rd_no ?s2 = 1"
    by (simp add: scan_next_def scan_line_def D_def ReaderSource_Start_def NewReaderSource_def reader_record_def)
  have "bad_lines D (take (rd_no ?s2) [''{'']) = [\<lparr>se_Line = 1, se_Cause = ''json: syntax''\<rparr>]"
    unfolding no by (simp add: bad_lines_def scan_line_def D_def)
  then show ?thesis using reader_accounts_for_lines [OF reach] reach no by auto
qed

text \<open>
  \<open>Stop\<close> panics in exactly one situation: a reader source that was never started and is
  stopped again. (Its comment says that \<open>Stop\<close> is safe to call repeatedly and before
  \<open>Start\<close>.)
\<close>

theorem reader_stop_panics:
  assumes "(reader_step D)\<^sup>*\<^sup>* (NewReaderSource ls e) s"
  shows "panicked (ReaderSource_Stop s) \<longleftrightarrow> \<not> rd_started s \<and> rd_stopped s"
proof -
  have inv: "reader_inv D ls e s" by (rule reader_inv_reach [OF assms])
  have "rd_closes s = (if rd_started s then (if rd_scan s = Returned then 1 else 0) else rd_stops s)"
    and "0 < rd_stops s \<longleftrightarrow> rd_stopped s" using inv by (simp_all add: reader_inv_def)
  then show ?thesis by (auto simp: ReaderSource_Stop_def panicked_def Let_def)
qed

theorem reader_stop_panics_witness:
  "panicked (ReaderSource_Stop (ReaderSource_Stop (NewReaderSource [] None)))"
proof -
  have "reader_step D (NewReaderSource [] None) (ReaderSource_Stop (NewReaderSource [] None))" for D
    by (rule r_stop) (simp add: panicked_def NewReaderSource_def)
  then have "(reader_step D)\<^sup>*\<^sup>* (NewReaderSource [] None) (ReaderSource_Stop (NewReaderSource [] None))" for D
    by (rule r_into_rtranclp)
  from reader_stop_panics [OF this] show ?thesis by (simp add: ReaderSource_Stop_def NewReaderSource_def)
qed

end
