(* ===== verification/Stages.thy ===== *)
theory Stages
  imports Incidents Source
begin

text \<open>
  The stages of the telemetry pipeline before the sink: \<open>normalize/normalize.go\<close> maps a raw
  event to a contract message, \<open>enrich/enrich.go\<close> stamps collection metadata and
  \<open>correlate/correlate.go\<close> the correlation id. The code changes the event in place; here a
  stage returns the changed event.
\<close>

subsection \<open>Normalization\<close>

text \<open>\<open>v1.Severity_value\<close>, the inverse of the name table.\<close>

definition Severity_value :: "string \<Rightarrow> enum option" where
  "Severity_value n = map_of [(''SEVERITY_UNSPECIFIED'', 0), (''SEVERITY_INFO'', 1), (''SEVERITY_LOW'', 2),
     (''SEVERITY_MEDIUM'', 3), (''SEVERITY_HIGH'', 4), (''SEVERITY_CRITICAL'', 5)] n"

definition raw_severity :: "string \<Rightarrow> enum res" where
  "raw_severity n =
     (if n = [] then Inr SEVERITY_UNSPECIFIED
      else (case Severity_value n of
              None \<Rightarrow> Inl (Sent (Pipeline ErrNormalization) (''unknown severity '' @ quote n))
            | Some v \<Rightarrow> Inr v))"

definition normalized :: "pblib \<Rightarrow> RawEvent \<Rightarrow> enum \<Rightarrow> TelemetryEvent" where
  "normalized L raw sev =
     \<lparr> te_id = rw_ID raw,
       te_occurred_at = (if IsZero (rw_OccurredAt raw) then None else Some (ts_New L (rw_OccurredAt raw))),
       te_source = rw_Source raw, te_asset_id = rw_AssetID raw, te_identity_id = rw_IdentityID raw,
       te_event_type = rw_EventType raw, te_severity = sev, te_attributes = rw_Attributes raw, te_raw = rw_Raw raw \<rparr>"

definition Normalize :: "pblib \<Rightarrow> RawEvent \<Rightarrow> TelemetryEvent res" where
  "Normalize L raw =
     (if rw_ID raw = [] \<or> rw_Source raw = [] \<or> rw_AssetID raw = [] \<or> rw_EventType raw = []
        then Inl (Sent (Pipeline ErrInvalidSourceEvent) ''id/source/asset_id/event_type are required'')
      else
       (case raw_severity (rw_Severity raw) of
          Inl e \<Rightarrow> Inl e
        | Inr sev \<Rightarrow>
           (case ValidateTelemetryEvent L (Some (normalized L raw sev)) of
              Some e \<Rightarrow> Inl (Wrap (Pipeline ErrContractValidation) e)
            | None \<Rightarrow> Inr (normalized L raw sev))))"

subsection \<open>Enrichment\<close>

definition KeyCollector :: string where "KeyCollector = ''blueveil.collector''"
definition KeyCollectedAt :: string where "KeyCollectedAt = ''blueveil.collected_at''"

text \<open>An enricher is its collector name; \<open>None\<close> for the clock is the nil function.\<close>

definition NewEnricher :: "string \<Rightarrow> gotime option \<Rightarrow> string res" where
  "NewEnricher name clock =
     (if name = [] then Inl (Sent (Pipeline ErrEnrichment) ''collector name is empty'')
      else (case clock of None \<Rightarrow> Inl (Sent (Pipeline ErrEnrichment) ''clock is nil'') | Some _ \<Rightarrow> Inr name))"

text \<open>
  \<open>Enrich\<close>, with the instant its clock read. The code ranges over a map of the two keys; a
  conflict on either one is the same error.
\<close>

definition Enrich :: "string \<Rightarrow> gotime \<Rightarrow> TelemetryEvent option \<Rightarrow> TelemetryEvent res" where
  "Enrich name now p =
     (case p of None \<Rightarrow> Inl (Sent (Pipeline ErrEnrichment) ''event is nil'') | Some e \<Rightarrow>
        if IsZero now then Inl (Sent (Pipeline ErrEnrichment) ''clock returned zero time'')
        else if fmlookup (te_attributes e) KeyCollector \<noteq> None \<or> fmlookup (te_attributes e) KeyCollectedAt \<noteq> None
          then Inl (Sent (Pipeline ErrEnrichment) ''refusing to overwrite a source-provided key'')
        else Inr (e\<lparr>te_attributes := fmupd KeyCollectedAt (format_RFC3339 now)
               (fmupd KeyCollector name (te_attributes e))\<rparr>))"

subsection \<open>Correlation\<close>

definition KeyOf :: "string \<Rightarrow> string \<Rightarrow> string \<Rightarrow> string" where
  "KeyOf source assetID eventType = source @ US @ assetID @ US @ eventType"

definition IDFor :: "string \<Rightarrow> string \<Rightarrow> string \<Rightarrow> string" where
  "IDFor source assetID eventType = id16 (KeyOf source assetID eventType)"

definition correlate_Apply :: "TelemetryEvent \<Rightarrow> TelemetryEvent" where
  "correlate_Apply e =
     (if attr (te_attributes e) AttributeKey \<noteq> [] then e
      else e\<lparr>te_attributes := fmupd AttributeKey (IDFor (te_source e) (te_asset_id e) (te_event_type e)) (te_attributes e)\<rparr>)"

subsection \<open>Facts\<close>

text \<open>What the stages may change: nothing but attributes, and of these only \<open>blueveil.\<close> keys.\<close>

definition same_observation :: "TelemetryEvent \<Rightarrow> TelemetryEvent \<Rightarrow> bool" where
  "same_observation e e' \<longleftrightarrow> (\<exists>m. e' = e\<lparr>te_attributes := m\<rparr>) \<and>
     (\<forall>k. \<not> has_prefix ''blueveil.'' k \<longrightarrow> fmlookup (te_attributes e') k = fmlookup (te_attributes e) k)"

lemma attributes_self: "e\<lparr>te_attributes := te_attributes e\<rparr> = (e :: TelemetryEvent)"
  by simp

lemma same_observation_refl [simp]: "same_observation e e"
  unfolding same_observation_def using attributes_self by metis

lemma same_observation_trans: "same_observation a b \<Longrightarrow> same_observation b c \<Longrightarrow> same_observation a c"
  by (auto simp: same_observation_def)

lemma valid_attrs_irrelevant:
  "ValidateTelemetryEvent L (Some (e\<lparr>te_attributes := m\<rparr>)) = ValidateTelemetryEvent L (Some e)"
  by (simp add: ValidateTelemetryEvent_def)

lemma same_observation_valid:
  "same_observation e e' \<Longrightarrow> ValidateTelemetryEvent L (Some e') = ValidateTelemetryEvent L (Some e)"
  by (auto simp: same_observation_def valid_attrs_irrelevant)

lemma Enrich_same: "Enrich name now (Some e) = Inr e' \<Longrightarrow> same_observation e e'"
  by (auto simp: Enrich_def same_observation_def KeyCollector_def KeyCollectedAt_def split: if_splits)

lemma correlate_same: "same_observation e (correlate_Apply e)"
proof (cases "attr (te_attributes e) AttributeKey = []")
  case True
  then show ?thesis by (auto simp: correlate_Apply_def same_observation_def AttributeKey_def)
qed (simp add: correlate_Apply_def)

lemma Normalize_Inr:
  "Normalize L raw = Inr e \<Longrightarrow> \<exists>sev. raw_severity (rw_Severity raw) = Inr sev \<and> e = normalized L raw sev \<and>
     ValidateTelemetryEvent L (Some e) = None"
  by (auto simp: Normalize_def split: if_splits sum.splits option.splits)

subsection \<open>The properties\<close>

text \<open>
  The severity names of the wire are a round trip: a name in the table is read as the
  number that prints as this name, and every named number is read back from its name; no
  other name is accepted.
\<close>

theorem severity_name_roundtrip:
  "raw_severity n = Inr v \<longleftrightarrow> n = [] \<and> v = SEVERITY_UNSPECIFIED \<or> Severity_name v = Some n"
proof
  assume "raw_severity n = Inr v"
  then show "n = [] \<and> v = SEVERITY_UNSPECIFIED \<or> Severity_name v = Some n"
    by (auto simp: raw_severity_def Severity_value_def Severity_name_def split: if_splits option.splits)
next
  assume "n = [] \<and> v = SEVERITY_UNSPECIFIED \<or> Severity_name v = Some n"
  then show "raw_severity n = Inr v"
    by (auto simp: raw_severity_def Severity_value_def Severity_name_def split: if_splits)
qed

end
