(* ===== verification/Pipeline.thy ===== *)
theory Pipeline
  imports Stages "HOL-Library.Sublist"
begin

text \<open>
  The pipeline of \<open>pipeline/pipeline.go\<close>: one raw event through the stages into the sink, with
  the accounting of the report, and \<open>Run\<close> as a step relation of its two goroutines: the
  reader, which moves events from the source's channel into the bounded queue, and the loop,
  which handles them. A sink is any emission over a state. \<open>time.Now\<close> is read by the
  environment: a call gets the elapsed time and the enricher's instant.
\<close>

subsection \<open>Configuration and accounting\<close>

record Config =
  cf_QueueSize :: int

definition Config_Validate :: "Config \<Rightarrow> goerr" where
  "Config_Validate c = fail_if (cf_QueueSize c \<le> 0) (Plain ''pipeline: QueueSize must be > 0'')"

record Rejection =
  rj_Raw :: RawEvent
  rj_Err :: err

record Metrics =
  mx_Received :: int
  mx_Accepted :: int
  mx_Rejected :: int
  mx_NormalizeErrs :: int
  mx_EnrichErrs :: int
  mx_SinkErrs :: int
  mx_LatencyTotal :: duration
  mx_LatencyMax :: duration

text \<open>Go's division truncates; latencies and counts are not negative.\<close>

definition AvgLatency :: "Metrics \<Rightarrow> duration" where
  "AvgLatency m = (if mx_Received m = 0 then 0 else mx_LatencyTotal m div mx_Received m)"

record Report =
  rp_Accepted :: int
  rp_Rejected :: "Rejection list"
  rp_Metrics :: Metrics
  rp_SourceErrors :: "SourceError list"

definition empty_report :: Report where
  "empty_report = \<lparr>rp_Accepted = 0, rp_Rejected = [],
     rp_Metrics = \<lparr>mx_Received = 0, mx_Accepted = 0, mx_Rejected = 0, mx_NormalizeErrs = 0, mx_EnrichErrs = 0,
       mx_SinkErrs = 0, mx_LatencyTotal = 0, mx_LatencyMax = 0\<rparr>, rp_SourceErrors = []\<rparr>"

text \<open>The wired stages: the enricher's name when there is one, and the correlation switch.\<close>

record pipeline =
  pl_enricher :: "string option"
  pl_correlate :: bool

definition NewPipeline :: "Config \<Rightarrow> bool \<Rightarrow> bool \<Rightarrow> pipeline res" where
  "NewPipeline cfg src_nil sink_nil =
     (case Config_Validate cfg of
        Some e \<Rightarrow> Inl e
      | None \<Rightarrow>
         if src_nil \<or> sink_nil then Inl (Plain ''pipeline: source and sink are required'')
         else Inr \<lparr>pl_enricher = None, pl_correlate = False\<rparr>)"

definition WithEnricher :: "string \<Rightarrow> pipeline \<Rightarrow> pipeline" where
  "WithEnricher name p = p\<lparr>pl_enricher := Some name\<rparr>"

definition WithCorrelation :: "bool \<Rightarrow> pipeline \<Rightarrow> pipeline" where
  "WithCorrelation on p = p\<lparr>pl_correlate := on\<rparr>"

subsection \<open>One event\<close>

datatype rejected_at = AtNormalize | AtEnrich

definition reject :: "rejected_at \<Rightarrow> RawEvent \<Rightarrow> err \<Rightarrow> Report \<Rightarrow> Report" where
  "reject stage raw e rep =
     (let m = rp_Metrics rep;
          m1 = m\<lparr>mx_Rejected := mx_Rejected m + 1\<rparr>;
          m2 = (case stage of AtNormalize \<Rightarrow> m1\<lparr>mx_NormalizeErrs := mx_NormalizeErrs m1 + 1\<rparr>
                | AtEnrich \<Rightarrow> m1\<lparr>mx_EnrichErrs := mx_EnrichErrs m1 + 1\<rparr>)
      in rep\<lparr>rp_Metrics := m2, rp_Rejected := rp_Rejected rep @ [\<lparr>rj_Raw = raw, rj_Err = e\<rparr>]\<rparr>)"

text \<open>The event the sink gets, or the stage that refuses it.\<close>

definition prepare :: "pblib \<Rightarrow> pipeline \<Rightarrow> gotime \<Rightarrow> RawEvent \<Rightarrow> (rejected_at \<times> err) + TelemetryEvent" where
  "prepare L p now raw =
     (case Normalize L raw of
        Inl e \<Rightarrow> Inl (AtNormalize, e)
      | Inr ev \<Rightarrow>
         (case (case pl_enricher p of None \<Rightarrow> Inr ev | Some name \<Rightarrow> Enrich name now (Some ev)) of
            Inl e \<Rightarrow> Inl (AtEnrich, e)
          | Inr ev1 \<Rightarrow> Inr (if pl_correlate p then correlate_Apply ev1 else ev1)))"

definition process ::
  "(TelemetryEvent \<Rightarrow> 'd \<Rightarrow> goerr \<times> 'd) \<Rightarrow> pblib \<Rightarrow> pipeline \<Rightarrow> gotime \<Rightarrow> RawEvent \<Rightarrow> Report \<Rightarrow> 'd
    \<Rightarrow> bool res \<times> Report \<times> 'd" where
  "process emit L p now raw rep d =
     (case prepare L p now raw of
        Inl (stage, e) \<Rightarrow> (Inr False, reject stage raw e rep, d)
      | Inr ev \<Rightarrow>
         (case emit ev d of
            (Some e, d1) \<Rightarrow> (Inl (Wrap (Pipeline ErrSink) e), rep, d1)
          | (None, d1) \<Rightarrow> (Inr True, rep\<lparr>rp_Accepted := rp_Accepted rep + 1\<rparr>, d1)))"

definition handle ::
  "(TelemetryEvent \<Rightarrow> 'd \<Rightarrow> goerr \<times> 'd) \<Rightarrow> pblib \<Rightarrow> pipeline \<Rightarrow> gotime \<Rightarrow> duration \<Rightarrow> RawEvent \<Rightarrow> Report \<Rightarrow> 'd
    \<Rightarrow> goerr \<times> Report \<times> 'd" where
  "handle emit L p now elapsed raw rep d =
     (case process emit L p now raw rep d of
        (r, rep1, d1) \<Rightarrow>
          (let m = rp_Metrics rep1;
               m1 = m\<lparr>mx_Received := mx_Received m + 1, mx_LatencyTotal := mx_LatencyTotal m + elapsed,
                      mx_LatencyMax := (if elapsed > mx_LatencyMax m then elapsed else mx_LatencyMax m)\<rparr>
           in case r of
                Inl e \<Rightarrow> (Some e, rep1\<lparr>rp_Metrics := m1\<lparr>mx_SinkErrs := mx_SinkErrs m1 + 1\<rparr>\<rparr>, d1)
              | Inr accepted \<Rightarrow>
                  (None, rep1\<lparr>rp_Metrics := (if accepted then m1\<lparr>mx_Accepted := mx_Accepted m1 + 1\<rparr> else m1)\<rparr>, d1)))"

text \<open>The books of one report: every received event is accepted, rejected with its cause, or a sink failure.\<close>

definition balanced :: "Report \<Rightarrow> bool" where
  "balanced rep \<longleftrightarrow> (let m = rp_Metrics rep in
     mx_Received m = mx_Accepted m + mx_Rejected m + mx_SinkErrs m \<and> mx_Accepted m = rp_Accepted rep \<and>
     mx_Rejected m = int (length (rp_Rejected rep)) \<and> mx_Rejected m = mx_NormalizeErrs m + mx_EnrichErrs m)"

lemma balanced_empty [simp]: "balanced empty_report"
  by (simp add: balanced_def empty_report_def)

lemma handle_balanced:
  "handle emit L p now elapsed raw rep d = (r, rep1, d1) \<Longrightarrow> balanced rep \<Longrightarrow> balanced rep1"
  by (auto simp: handle_def process_def reject_def balanced_def Let_def
      split: sum.splits prod.splits option.splits rejected_at.splits if_splits)

lemma handle_received:
  "handle emit L p now elapsed raw rep d = (r, rep1, d1) \<Longrightarrow>
     mx_Received (rp_Metrics rep1) = mx_Received (rp_Metrics rep) + 1"
  by (auto simp: handle_def process_def reject_def Let_def
      split: sum.splits prod.splits option.splits rejected_at.splits if_splits)

text \<open>What is handed to the sink is the source's observation, valid, with nothing but \<open>blueveil.\<close> keys added.\<close>

lemma prepare_Inr:
  assumes "prepare L p now raw = Inr ev"
  shows "\<exists>e0. Normalize L raw = Inr e0 \<and> same_observation e0 ev \<and> ValidateTelemetryEvent L (Some ev) = None"
proof -
  obtain e0 where e0: "Normalize L raw = Inr e0" using assms by (auto simp: prepare_def split: sum.splits)
  then obtain e1 where e1: "(case pl_enricher p of None \<Rightarrow> Inr e0 | Some name \<Rightarrow> Enrich name now (Some e0)) = Inr e1"
    and ev: "ev = (if pl_correlate p then correlate_Apply e1 else e1)"
    using assms by (auto simp: prepare_def split: sum.splits)
  have "same_observation e0 e1" using e1 by (auto dest: Enrich_same split: option.splits)
  then have "same_observation e0 ev" unfolding ev using same_observation_trans correlate_same by simp
  then show ?thesis using e0 Normalize_Inr [OF e0] same_observation_valid by metis
qed

subsection \<open>The run\<close>

text \<open>
  The state of a run: what the source's channel still has to deliver (it closes after that),
  the event the reader holds between its two selects, the queue, whether the reader is done
  (the queue is closed), cancellation, the report, the sink and, at the end, the result.
  \<open>ru_handled\<close> and \<open>ru_lost\<close> only record what happened.
\<close>

record 'd run_state =
  ru_source :: "RawEvent list"
  ru_hold :: "RawEvent option"
  ru_queue :: "RawEvent list"
  ru_done :: bool
  ru_cancelled :: bool
  ru_draining :: bool
  ru_report :: Report
  ru_sink :: 'd
  ru_result :: "goerr option"
  ru_handled :: "RawEvent list"
  ru_lost :: "RawEvent list"

definition start_state :: "RawEvent list \<Rightarrow> 'd \<Rightarrow> 'd run_state" where
  "start_state es d = \<lparr>ru_source = es, ru_hold = None, ru_queue = [], ru_done = False, ru_cancelled = False,
     ru_draining = False, ru_report = empty_report, ru_sink = d, ru_result = None, ru_handled = [], ru_lost = []\<rparr>"

text \<open>
  One step of a goroutine. The first four are the reader's: receive, close after the source,
  stop on cancellation (dropping what it holds), deliver into a queue with room. The others
  are the loop's: handle the head of the queue, notice the cancellation, return because the
  queue is closed, return because a draining loop finds nothing. \<open>s_cancel\<close> is the caller's.
\<close>

inductive run_step ::
  "(TelemetryEvent \<Rightarrow> 'd \<Rightarrow> goerr \<times> 'd) \<Rightarrow> pblib \<Rightarrow> pipeline \<Rightarrow> Config \<Rightarrow> 'd run_state \<Rightarrow> 'd run_state \<Rightarrow> bool"
  for emit L p cfg where
  s_cancel: "\<not> ru_cancelled s \<Longrightarrow> run_step emit L p cfg s (s\<lparr>ru_cancelled := True\<rparr>)"
| s_receive: "\<not> ru_done s \<Longrightarrow> ru_hold s = None \<Longrightarrow> ru_source s = e # es \<Longrightarrow>
    run_step emit L p cfg s (s\<lparr>ru_source := es, ru_hold := Some e\<rparr>)"
| s_closed: "\<not> ru_done s \<Longrightarrow> ru_hold s = None \<Longrightarrow> ru_source s = [] \<Longrightarrow>
    run_step emit L p cfg s (s\<lparr>ru_done := True\<rparr>)"
| s_stop: "\<not> ru_done s \<Longrightarrow> ru_cancelled s \<Longrightarrow>
    run_step emit L p cfg s (s\<lparr>ru_done := True, ru_hold := None,
      ru_lost := ru_lost s @ (case ru_hold s of None \<Rightarrow> [] | Some e \<Rightarrow> [e])\<rparr>)"
| s_deliver: "\<not> ru_done s \<Longrightarrow> ru_hold s = Some e \<Longrightarrow> int (length (ru_queue s)) < cf_QueueSize cfg \<Longrightarrow>
    run_step emit L p cfg s (s\<lparr>ru_hold := None, ru_queue := ru_queue s @ [e]\<rparr>)"
| s_handle: "ru_result s = None \<Longrightarrow> ru_queue s = e # q \<Longrightarrow>
    handle emit L p now elapsed e (ru_report s) (ru_sink s) = (r, rep, d) \<Longrightarrow>
    run_step emit L p cfg s (s\<lparr>ru_queue := q, ru_report := rep, ru_sink := d, ru_handled := ru_handled s @ [e],
      ru_result := (case r of None \<Rightarrow> None | Some x \<Rightarrow> Some (Some x))\<rparr>)"
| s_drain: "ru_result s = None \<Longrightarrow> ru_cancelled s \<Longrightarrow> \<not> ru_draining s \<Longrightarrow>
    run_step emit L p cfg s (s\<lparr>ru_draining := True\<rparr>)"
| s_finish: "ru_result s = None \<Longrightarrow> ru_queue s = [] \<Longrightarrow> ru_done s \<Longrightarrow>
    run_step emit L p cfg s (s\<lparr>ru_result := Some None\<rparr>)"
| s_drained: "ru_result s = None \<Longrightarrow> ru_draining s \<Longrightarrow> ru_queue s = [] \<Longrightarrow>
    run_step emit L p cfg s (s\<lparr>ru_result := Some None\<rparr>)"

text \<open>
  \<open>finish\<close>, with what the source reports when it is a \<open>BadLineReporter\<close>, and the pair a call
  of \<open>Run\<close> returns: the error of a source that does not start, or what the loop ended in.
\<close>

definition finish :: "SourceError list option \<Rightarrow> Report \<Rightarrow> Report" where
  "finish bad rep = (case bad of Some ls \<Rightarrow> rep\<lparr>rp_SourceErrors := ls\<rparr> | None \<Rightarrow> rep)"

definition Run_returns :: "goerr \<Rightarrow> SourceError list option \<Rightarrow> 'd run_state \<Rightarrow> (Report option \<times> goerr) option" where
  "Run_returns start_err bad s =
     (case start_err of
        Some e \<Rightarrow> Some (None, Some (Ctx ''pipeline: source start'' e))
      | None \<Rightarrow> map_option (\<lambda>r. (Some (finish bad (ru_report s)), r)) (ru_result s))"

abbreviation run_reach where
  "run_reach emit L p cfg \<equiv> (run_step emit L p cfg)\<^sup>*\<^sup>*"

subsection \<open>The sequential reference\<close>

text \<open>The same pipeline without goroutines: the events one after the other, up to the first sink failure.\<close>

fun handle_all ::
  "(TelemetryEvent \<Rightarrow> 'd \<Rightarrow> goerr \<times> 'd) \<Rightarrow> pblib \<Rightarrow> pipeline \<Rightarrow> (gotime \<times> duration \<times> RawEvent) list \<Rightarrow> Report \<Rightarrow> 'd
    \<Rightarrow> goerr \<times> Report \<times> 'd" where
  "handle_all emit L p [] rep d = (None, rep, d)"
| "handle_all emit L p ((now, elapsed, raw) # hs) rep d =
     (case handle emit L p now elapsed raw rep d of
        (Some e, rep1, d1) \<Rightarrow> (Some e, rep1, d1)
      | (None, rep1, d1) \<Rightarrow> handle_all emit L p hs rep1 d1)"

lemma handle_all_snoc:
  "handle_all emit L p (hs @ [(now, elapsed, raw)]) rep d =
     (case handle_all emit L p hs rep d of
        (Some e, rep1, d1) \<Rightarrow> (Some e, rep1, d1)
      | (None, rep1, d1) \<Rightarrow> handle emit L p now elapsed raw rep1 d1)"
  by (induction hs arbitrary: rep d) (auto split: prod.splits option.splits)

lemma handle_all_balanced:
  "handle_all emit L p hs rep d = (r, rep1, d1) \<Longrightarrow> balanced rep \<Longrightarrow> balanced rep1"
proof (induction hs arbitrary: rep d)
  case (Cons h hs)
  obtain now elapsed raw where h: "h = (now, elapsed, raw)" using prod_cases3 by blast
  obtain r2 rep2 d2 where st: "handle emit L p now elapsed raw rep d = (r2, rep2, d2)" using prod_cases3 by blast
  show ?case using Cons.IH [of rep2 d2] Cons.prems handle_balanced [OF st] by (cases r2) (auto simp: h st)
qed simp

lemma handle_all_received:
  "handle_all emit L p hs rep d = (None, rep1, d1) \<Longrightarrow>
     mx_Received (rp_Metrics rep1) = mx_Received (rp_Metrics rep) + int (length hs)"
proof (induction hs arbitrary: rep d)
  case (Cons h hs)
  obtain now elapsed raw where h: "h = (now, elapsed, raw)" using prod_cases3 by blast
  obtain r2 rep2 d2 where st: "handle emit L p now elapsed raw rep d = (r2, rep2, d2)" using prod_cases3 by blast
  show ?case using Cons.IH [of rep2 d2] Cons.prems handle_received [OF st] by (cases r2) (auto simp: h st)
qed simp

subsection \<open>The invariant of a run\<close>

definition held :: "'d run_state \<Rightarrow> RawEvent list" where
  "held s = (case ru_hold s of None \<Rightarrow> [] | Some e \<Rightarrow> [e])"

definition seq_ok ::
  "(TelemetryEvent \<Rightarrow> 'd \<Rightarrow> goerr \<times> 'd) \<Rightarrow> pblib \<Rightarrow> pipeline \<Rightarrow> 'd \<Rightarrow> RawEvent list \<Rightarrow> goerr \<Rightarrow> Report \<Rightarrow> 'd \<Rightarrow> bool" where
  "seq_ok emit L p d0 handled r rep d \<longleftrightarrow>
     (\<exists>hs. map (\<lambda>(now, elapsed, raw). raw) hs = handled \<and> handle_all emit L p hs empty_report d0 = (r, rep, d))"

definition failure :: "goerr option \<Rightarrow> goerr" where
  "failure res = (case res of None \<Rightarrow> None | Some r \<Rightarrow> r)"

lemma failure_simps [simp]: "failure None = None" "failure (Some r) = r"
  by (simp_all add: failure_def)

lemma seq_ok_start: "seq_ok emit L p d0 [] None empty_report d0"
  unfolding seq_ok_def by (rule exI [of _ "[]"]) simp

lemma seq_ok_snoc:
  assumes "seq_ok emit L p d0 handled None rep d" and "handle emit L p now elapsed e rep d = (r, rep', d')"
  shows "seq_ok emit L p d0 (handled @ [e]) r rep' d'"
proof -
  obtain hs where "map (\<lambda>(now, elapsed, raw). raw) hs = handled" "handle_all emit L p hs empty_report d0 = (None, rep, d)"
    using assms(1) by (auto simp: seq_ok_def)
  then show ?thesis unfolding seq_ok_def using assms(2)
    by (intro exI [of _ "hs @ [(now, elapsed, e)]"]) (simp add: handle_all_snoc)
qed

definition run_inv ::
  "(TelemetryEvent \<Rightarrow> 'd \<Rightarrow> goerr \<times> 'd) \<Rightarrow> pblib \<Rightarrow> pipeline \<Rightarrow> Config \<Rightarrow> RawEvent list \<Rightarrow> 'd \<Rightarrow> 'd run_state \<Rightarrow> bool" where
  "run_inv emit L p cfg es d0 s \<longleftrightarrow>
     es = ru_handled s @ ru_queue s @ held s @ ru_lost s @ ru_source s \<and>
     int (length (ru_queue s)) \<le> cf_QueueSize cfg \<and>
     (ru_done s \<longrightarrow> ru_hold s = None) \<and>
     (ru_lost s = [] \<or> ru_done s \<and> ru_cancelled s \<and> length (ru_lost s) = 1) \<and>
     (ru_done s \<and> \<not> ru_cancelled s \<longrightarrow> ru_source s = []) \<and>
     (ru_draining s \<longrightarrow> ru_cancelled s) \<and>
     (ru_result s = Some None \<and> \<not> ru_cancelled s \<longrightarrow> ru_done s \<and> ru_queue s = []) \<and>
     seq_ok emit L p d0 (ru_handled s) (failure (ru_result s)) (ru_report s) (ru_sink s)"

lemma run_inv_start: "0 < cf_QueueSize cfg \<Longrightarrow> run_inv emit L p cfg es d (start_state es d)"
  by (simp add: run_inv_def start_state_def held_def seq_ok_start)

lemma run_inv_step:
  assumes "run_step emit L p cfg s s'" and "run_inv emit L p cfg es d0 s"
  shows "run_inv emit L p cfg es d0 s'"
  using assms
proof (induction rule: run_step.induct)
  case (s_handle s e q now elapsed r rep d)
  then have "seq_ok emit L p d0 (ru_handled s @ [e]) r rep d"
    by (intro seq_ok_snoc) (simp_all add: run_inv_def)
  moreover have "failure (case r of None \<Rightarrow> None | Some x \<Rightarrow> Some (Some x)) = r" by (cases r) simp_all
  ultimately show ?case using s_handle.prems s_handle.hyps(1,2)
    by (cases r) (simp_all add: run_inv_def held_def)
next
  case (s_cancel s)
  then show ?case by (simp add: run_inv_def held_def)
next
  case (s_receive s e es')
  then show ?case by (simp add: run_inv_def held_def)
next
  case (s_closed s)
  then show ?case by (auto simp: run_inv_def held_def)
next
  case (s_stop s)
  then show ?case by (cases "ru_hold s") (simp_all add: run_inv_def held_def)
next
  case (s_deliver s e)
  then show ?case by (simp add: run_inv_def held_def)
next
  case (s_drain s)
  then show ?case by (auto simp: run_inv_def held_def)
next
  case (s_finish s)
  then show ?case by (auto simp: run_inv_def held_def)
next
  case (s_drained s)
  then show ?case by (auto simp: run_inv_def held_def)
qed

lemma run_inv_reach:
  "run_reach emit L p cfg (start_state es d) s \<Longrightarrow> 0 < cf_QueueSize cfg \<Longrightarrow> run_inv emit L p cfg es d s"
  by (induction rule: rtranclp_induct) (auto intro: run_inv_start run_inv_step)

lemma run_inv_sequence:
  assumes "run_inv emit L p cfg es d s"
  shows "\<exists>hs. map (\<lambda>(now, elapsed, raw). raw) hs = ru_handled s \<and>
    handle_all emit L p hs empty_report d = (failure (ru_result s), ru_report s, ru_sink s)"
proof -
  have "seq_ok emit L p d (ru_handled s) (failure (ru_result s)) (ru_report s) (ru_sink s)"
    using assms by (simp add: run_inv_def)
  then show ?thesis unfolding seq_ok_def .
qed

lemma run_inv_prefix:
  assumes "run_inv emit L p cfg es d s" shows "prefix (ru_handled s) es"
proof -
  have "es = ru_handled s @ (ru_queue s @ held s @ ru_lost s @ ru_source s)" using assms by (simp add: run_inv_def)
  then show ?thesis by (rule prefixI)
qed

text \<open>What every emission keeps, the run keeps.\<close>

lemma handle_sink:
  "handle emit L p now elapsed raw rep d = (r, rep1, d1) \<Longrightarrow> d1 = d \<or> (\<exists>ev. d1 = snd (emit ev d))"
  by (auto simp: handle_def process_def Let_def split: sum.splits prod.splits option.splits) (metis snd_conv)+

lemma run_step_keeps:
  assumes "run_step emit L p cfg s s'" and "\<And>ev d. P d \<Longrightarrow> P (snd (emit ev d))" and "P (ru_sink s)"
  shows "P (ru_sink s')"
  using assms(1,3)
proof (induction rule: run_step.induct)
  case (s_handle s e q now elapsed r rep d)
  then show ?case using handle_sink [OF s_handle.hyps(3)] assms(2) by auto
qed simp_all

lemma run_keeps:
  assumes "run_reach emit L p cfg s s'" and "\<And>ev d. P d \<Longrightarrow> P (snd (emit ev d))" and "P (ru_sink s)"
  shows "P (ru_sink s')"
  using assms(1) by (induction rule: rtranclp_induct) (use assms(2,3) run_step_keeps in blast)+

subsection \<open>The in-memory sink\<close>

record InMemorySink =
  im_events :: "TelemetryEvent list"
  im_err :: goerr

definition InMemorySink_Emit :: "TelemetryEvent \<Rightarrow> InMemorySink \<Rightarrow> goerr \<times> InMemorySink" where
  "InMemorySink_Emit e s = (case im_err s of Some x \<Rightarrow> (Some x, s) | None \<Rightarrow> (None, s\<lparr>im_events := im_events s @ [e]\<rparr>))"

definition InMemorySink_SetError :: "goerr \<Rightarrow> InMemorySink \<Rightarrow> InMemorySink" where
  "InMemorySink_SetError x s = s\<lparr>im_err := x\<rparr>"

definition InMemorySink_Events :: "InMemorySink \<Rightarrow> TelemetryEvent list" where
  "InMemorySink_Events s = im_events s"

lemma handle_in_memory:
  assumes "handle InMemorySink_Emit L p now elapsed raw rep d = (r, rep1, d1)"
  shows "d1 = d \<and> rp_Accepted rep1 = rp_Accepted rep \<or>
    (\<exists>ev. prepare L p now raw = Inr ev \<and> d1 = d\<lparr>im_events := im_events d @ [ev]\<rparr> \<and> rp_Accepted rep1 = rp_Accepted rep + 1)"
  using assms
  by (auto simp: handle_def process_def InMemorySink_Emit_def reject_def Let_def
      split: sum.splits prod.splits option.splits rejected_at.splits if_splits)

text \<open>A sink's event and the raw event it came from.\<close>

definition derived :: "pblib \<Rightarrow> RawEvent \<Rightarrow> TelemetryEvent \<Rightarrow> bool" where
  "derived L raw ev \<longleftrightarrow> (\<exists>e0. Normalize L raw = Inr e0 \<and> same_observation e0 ev) \<and>
     ValidateTelemetryEvent L (Some ev) = None"

lemma handle_all_in_memory:
  "handle_all InMemorySink_Emit L p hs rep d = (r, rep1, d1) \<Longrightarrow> \<exists>raws evs.
     im_events d1 = im_events d @ evs \<and> rp_Accepted rep1 = rp_Accepted rep + int (length evs) \<and>
     subseq raws (map (\<lambda>(now, elapsed, raw). raw) hs) \<and> list_all2 (derived L) raws evs"
proof (induction hs arbitrary: rep d)
  case (Cons h hs)
  obtain now elapsed raw where h: "h = (now, elapsed, raw)" using prod_cases3 by blast
  obtain r2 rep2 d2 where st: "handle InMemorySink_Emit L p now elapsed raw rep d = (r2, rep2, d2)" using prod_cases3 by blast
  have one: "\<exists>raws evs. im_events d2 = im_events d @ evs \<and> rp_Accepted rep2 = rp_Accepted rep + int (length evs) \<and>
      subseq raws [raw] \<and> list_all2 (derived L) raws evs"
    using handle_in_memory [OF st]
  proof (elim disjE exE conjE)
    fix ev assume ev: "prepare L p now raw = Inr ev" "d2 = d\<lparr>im_events := im_events d @ [ev]\<rparr>" "rp_Accepted rep2 = rp_Accepted rep + 1"
    have "derived L raw ev" using prepare_Inr [OF ev(1)] by (auto simp: derived_def)
    then show ?thesis using ev by (intro exI [of _ "[raw]"] exI [of _ "[ev]"]) simp
  qed (intro exI [of _ "[]"], simp)
  show ?case
  proof (cases r2)
    case None
    then have rest: "handle_all InMemorySink_Emit L p hs rep2 d2 = (r, rep1, d1)" using Cons.prems by (simp add: h st)
    obtain raws1 evs1 where 1: "im_events d2 = im_events d @ evs1" "rp_Accepted rep2 = rp_Accepted rep + int (length evs1)"
      "subseq raws1 [raw]" "list_all2 (derived L) raws1 evs1" using one by blast
    obtain raws2 evs2 where 2: "im_events d1 = im_events d2 @ evs2" "rp_Accepted rep1 = rp_Accepted rep2 + int (length evs2)"
      "subseq raws2 (map (\<lambda>(now, elapsed, raw). raw) hs)" "list_all2 (derived L) raws2 evs2"
      using Cons.IH [OF rest] by blast
    have "subseq (raws1 @ raws2) ([raw] @ map (\<lambda>(now, elapsed, raw). raw) hs)" using 1(3) 2(3) by (rule list_emb_append_mono)
    moreover have "list_all2 (derived L) (raws1 @ raws2) (evs1 @ evs2)" using 1(4) 2(4) by (rule list_all2_appendI)
    ultimately show ?thesis using 1(1,2) 2(1,2)
      by (intro exI [of _ "raws1 @ raws2"] exI [of _ "evs1 @ evs2"]) (simp add: h)
  next
    case (Some x)
    then have same: "rep1 = rep2" "d1 = d2" using Cons.prems by (simp_all add: h st)
    obtain raws1 evs1 where 1: "im_events d2 = im_events d @ evs1" "rp_Accepted rep2 = rp_Accepted rep + int (length evs1)"
      "subseq raws1 [raw]" "list_all2 (derived L) raws1 evs1" using one by blast
    have "subseq raws1 ([raw] @ map (\<lambda>(now, elapsed, raw). raw) hs)" using 1(3) by (rule list_emb_prefix)
    then show ?thesis using 1 same by (intro exI [of _ raws1] exI [of _ evs1]) (simp add: h)
  qed
qed (auto intro!: exI [of _ "[]"])

subsection \<open>Progress and termination\<close>

definition run_measure :: "'d run_state \<Rightarrow> nat" where
  "run_measure s = 4 * length (ru_source s) + 3 * length (held s) + 2 * length (ru_queue s) +
     (if ru_done s then 0 else 1) + (if ru_cancelled s then 0 else 1) + (if ru_draining s then 0 else 1) +
     (if ru_result s = None then 1 else 0)"

lemma run_step_measure: "run_step emit L p cfg s s' \<Longrightarrow> run_measure s' < run_measure s"
  by (induction rule: run_step.induct) (auto simp: run_measure_def held_def split: option.splits)

lemma run_steps_measure: "(run_step emit L p cfg ^^ n) s s' \<Longrightarrow> run_measure s' + n \<le> run_measure s"
proof (induction n arbitrary: s')
  case (Suc n)
  then obtain t where "(run_step emit L p cfg ^^ n) s t" "run_step emit L p cfg t s'" by auto
  then show ?case using Suc.IH [of t] run_step_measure [of emit L p cfg t s'] by simp
qed simp

text \<open>Without its caller's help a run that has not returned can always go on.\<close>

lemma run_progress:
  assumes "ru_result s = None" and "0 < cf_QueueSize cfg"
  shows "\<exists>s'. run_step emit L p cfg s s' \<and> ru_cancelled s' = ru_cancelled s"
proof (cases "ru_queue s")
  case (Cons e q)
  obtain r rep d where "handle emit L p 0 0 e (ru_report s) (ru_sink s) = (r, rep, d)" using prod_cases3 by blast
  from s_handle [OF assms(1) Cons this, of cfg] show ?thesis by (intro exI conjI) (assumption, simp)
next
  case Nil
  show ?thesis
  proof (cases "ru_done s")
    case True
    from s_finish [OF assms(1) Nil True, of emit L p cfg] show ?thesis by (intro exI conjI) (assumption, simp)
  next
    case False
    show ?thesis
    proof (cases "ru_hold s")
      case None
      show ?thesis
      proof (cases "ru_source s")
        case Nil
        from s_closed [OF False None Nil, of emit L p cfg] show ?thesis by (intro exI conjI) (assumption, simp)
      next
        case (Cons e es)
        from s_receive [OF False None Cons, of emit L p cfg] show ?thesis by (intro exI conjI) (assumption, simp)
      qed
    next
      case (Some e)
      have "int (length (ru_queue s)) < cf_QueueSize cfg" using Nil assms(2) by simp
      from s_deliver [OF False Some this, of emit L p] show ?thesis by (intro exI conjI) (assumption, simp)
    qed
  qed
qed

subsection \<open>A concrete run\<close>

text \<open>
  For the closed examples: an event that normalizes, a queue of one, a sink that fails, and
  the state in which the run has returned while the reader holds an event.
\<close>

definition example_raw :: RawEvent where
  "example_raw = \<lparr>rw_ID = ''e'', rw_Source = ''waf'', rw_AssetID = ''a'', rw_IdentityID = [], rw_EventType = ''waf.x'',
     rw_Severity = ''SEVERITY_HIGH'', rw_Attributes = fmempty, rw_Raw = [], rw_OccurredAt = 5\<rparr>"

definition example_stages :: pipeline where
  "example_stages = \<lparr>pl_enricher = None, pl_correlate = False\<rparr>"

definition example_config :: Config where
  "example_config = \<lparr>cf_QueueSize = 1\<rparr>"

definition failing_sink :: InMemorySink where
  "failing_sink = \<lparr>im_events = [], im_err = Some (Plain ''down'')\<rparr>"

abbreviation example_step where
  "example_step \<equiv> run_step InMemorySink_Emit example_pb example_stages example_config"

lemma example_prepare: "\<exists>ev. prepare example_pb example_stages now example_raw = Inr ev"
proof -
  have sev: "raw_severity ''SEVERITY_HIGH'' = Inr 4" by (simp add: raw_severity_def Severity_value_def)
  have "ValidateTelemetryEvent example_pb (Some (normalized example_pb example_raw 4)) = None"
    by (simp add: ValidateTelemetryEvent_def normalized_def example_raw_def example_pb_def IsZero_def zero_time_def
        boundary)
  then show ?thesis using sev by (simp add: prepare_def Normalize_def example_stages_def example_raw_def)
qed

lemma example_handle:
  "\<exists>rep1. handle InMemorySink_Emit example_pb example_stages now elapsed example_raw rep failing_sink =
     (Some (Wrap (Pipeline ErrSink) (Plain ''down'')), rep1, failing_sink)"
proof -
  obtain ev where "prepare example_pb example_stages now example_raw = Inr ev" using example_prepare by blast
  then show ?thesis by (simp add: handle_def process_def InMemorySink_Emit_def failing_sink_def Let_def)
qed

lemma example_run:
  "\<exists>s. (example_step ^^ 6) (start_state [example_raw, example_raw, example_raw] failing_sink) s \<and>
     ru_result s = Some (Some (Wrap (Pipeline ErrSink) (Plain ''down''))) \<and> ru_hold s = Some example_raw \<and>
     ru_queue s = [example_raw] \<and> \<not> ru_cancelled s \<and> \<not> ru_done s \<and> ru_sink s = failing_sink"
proof -
  let ?e = example_raw
  let ?s0 = "start_state [?e, ?e, ?e] failing_sink"
  let ?s1 = "?s0\<lparr>ru_source := [?e, ?e], ru_hold := Some ?e\<rparr>"
  let ?s2 = "?s1\<lparr>ru_hold := None, ru_queue := ru_queue ?s1 @ [?e]\<rparr>"
  let ?s3 = "?s2\<lparr>ru_source := [?e], ru_hold := Some ?e\<rparr>"
  obtain rep1 where h: "handle InMemorySink_Emit example_pb example_stages 0 0 ?e (ru_report ?s3) (ru_sink ?s3) =
     (Some (Wrap (Pipeline ErrSink) (Plain ''down'')), rep1, failing_sink)"
    using example_handle by (simp add: start_state_def) metis
  let ?s4 = "?s3\<lparr>ru_queue := [], ru_report := rep1, ru_sink := failing_sink, ru_handled := ru_handled ?s3 @ [?e],
    ru_result := Some (Some (Wrap (Pipeline ErrSink) (Plain ''down'')))\<rparr>"
  let ?s5 = "?s4\<lparr>ru_hold := None, ru_queue := ru_queue ?s4 @ [?e]\<rparr>"
  let ?s6 = "?s5\<lparr>ru_source := [], ru_hold := Some ?e\<rparr>"
  have 1: "example_step ?s0 ?s1" by (rule s_receive) (simp_all add: start_state_def)
  have 2: "example_step ?s1 ?s2" by (rule s_deliver) (simp_all add: start_state_def example_config_def)
  have 3: "example_step ?s2 ?s3" by (rule s_receive) (simp_all add: start_state_def)
  have 4: "example_step ?s3 ?s4" using s_handle [OF _ _ h, of "[]" example_config] by (simp add: start_state_def)
  have 5: "example_step ?s4 ?s5" by (rule s_deliver) (simp_all add: start_state_def example_config_def)
  have 6: "example_step ?s5 ?s6" by (rule s_receive) (simp_all add: start_state_def)
  have "(example_step ^^ 6) ?s0 ?s6"
    using 1 2 3 4 5 6 by (simp add: numeral_eq_Suc relcompp.simps) blast
  then show ?thesis by (intro exI conjI) (assumption, simp_all add: start_state_def)
qed

lemma example_reach:
  "\<exists>s. run_reach InMemorySink_Emit example_pb example_stages example_config
       (start_state [example_raw, example_raw, example_raw] failing_sink) s \<and>
     ru_result s = Some (Some (Wrap (Pipeline ErrSink) (Plain ''down''))) \<and> ru_hold s = Some example_raw \<and>
     ru_queue s = [example_raw] \<and> \<not> ru_cancelled s \<and> \<not> ru_done s \<and> ru_sink s = failing_sink"
  using example_run relpowp_imp_rtranclp by metis

subsection \<open>The properties\<close>

text \<open>
  C14. The concurrent run is the sequential pipeline: whatever the interleaving of reader and
  loop, report, sink and result are those of handling a prefix of the source's events one
  after the other; the books of the report balance; the queue never exceeds its size; and a
  run that returned without error and without cancellation handled every event.
\<close>

theorem run_is_sequential:
  assumes "run_reach emit L p cfg (start_state es d) s" and "0 < cf_QueueSize cfg"
  shows "\<exists>hs. prefix (map (\<lambda>(now, elapsed, raw). raw) hs) es \<and>
    handle_all emit L p hs empty_report d = (failure (ru_result s), ru_report s, ru_sink s) \<and>
    balanced (ru_report s) \<and> int (length (ru_queue s)) \<le> cf_QueueSize cfg \<and>
    (ru_result s = Some None \<and> \<not> ru_cancelled s \<longrightarrow> map (\<lambda>(now, elapsed, raw). raw) hs = es)"
proof -
  have inv: "run_inv emit L p cfg es d s" by (rule run_inv_reach [OF assms])
  obtain hs where hs: "map (\<lambda>(now, elapsed, raw). raw) hs = ru_handled s"
    "handle_all emit L p hs empty_report d = (failure (ru_result s), ru_report s, ru_sink s)"
    using run_inv_sequence [OF inv] by blast
  have "ru_handled s = es" if "ru_result s = Some None" "\<not> ru_cancelled s"
    using inv that by (auto simp: run_inv_def held_def)
  moreover have "balanced (ru_report s)" using handle_all_balanced [OF hs(2)] by simp
  moreover have "int (length (ru_queue s)) \<le> cf_QueueSize cfg" using inv by (simp add: run_inv_def)
  moreover have "prefix (ru_handled s) es" by (rule run_inv_prefix [OF inv])
  ultimately show ?thesis using hs by (intro exI [of _ hs]) simp
qed

theorem run_is_sequential_witness:
  "\<exists>(s :: InMemorySink run_state) hs. ru_result s \<noteq> None \<and>
     handle_all InMemorySink_Emit example_pb example_stages hs empty_report failing_sink =
       (failure (ru_result s), ru_report s, ru_sink s) \<and> balanced (ru_report s) \<and> length (ru_queue s) \<le> 1"
proof -
  obtain s where s: "run_reach InMemorySink_Emit example_pb example_stages example_config
      (start_state [example_raw, example_raw, example_raw] failing_sink) s" "ru_result s \<noteq> None"
    using example_reach by (metis option.distinct(1))
  have "0 < cf_QueueSize example_config" by (simp add: example_config_def)
  from run_is_sequential [OF s(1) this] show ?thesis using s(2) by (auto simp: example_config_def)
qed

text \<open>
  C15. A run returns: it takes at most four steps per event and four more, and as long as it
  has not returned, one of its goroutines can go on without the caller cancelling.
\<close>

theorem run_terminates:
  assumes "(run_step emit L p cfg ^^ n) (start_state es d) s" and "0 < cf_QueueSize cfg"
  shows "n \<le> 4 * length es + 4 \<and>
    (ru_result s = None \<longrightarrow> (\<exists>s'. run_step emit L p cfg s s' \<and> ru_cancelled s' = ru_cancelled s))"
proof -
  have "run_measure (start_state es d) = 4 * length es + 4"
    by (simp add: run_measure_def start_state_def held_def)
  then show ?thesis using run_steps_measure [OF assms(1)] run_progress [OF _ assms(2), of s emit L p] by simp
qed

theorem run_terminates_witness:
  "\<exists>s s'. (example_step ^^ 0) (start_state [example_raw] failing_sink) s \<and> example_step s s' \<and> \<not> ru_cancelled s'"
proof -
  let ?s = "start_state [example_raw] failing_sink"
  have 0: "(example_step ^^ 0) ?s ?s" by simp
  have "0 < cf_QueueSize example_config" by (simp add: example_config_def)
  from run_terminates [OF 0 this] show ?thesis using 0 by (auto simp: start_state_def)
qed

text \<open>
  Nothing but valid telemetry reaches the sink: what a run hands to an in-memory sink are
  contract-valid events, in the order of the raw events they derive from, each the
  normalization of its raw event with only \<open>blueveil.\<close> attributes added; their number is what
  the report calls accepted.
\<close>

theorem sink_gets_valid_events:
  assumes "run_reach InMemorySink_Emit L p cfg (start_state es \<lparr>im_events = [], im_err = x\<rparr>) s" and "0 < cf_QueueSize cfg"
  shows "\<exists>raws. subseq raws es \<and> list_all2 (derived L) raws (im_events (ru_sink s)) \<and>
    rp_Accepted (ru_report s) = int (length (im_events (ru_sink s)))"
proof -
  have inv: "run_inv InMemorySink_Emit L p cfg es \<lparr>im_events = [], im_err = x\<rparr> s" by (rule run_inv_reach [OF assms])
  obtain hs where hs: "map (\<lambda>(now, elapsed, raw). raw) hs = ru_handled s"
    "handle_all InMemorySink_Emit L p hs empty_report \<lparr>im_events = [], im_err = x\<rparr> =
       (failure (ru_result s), ru_report s, ru_sink s)"
    using run_inv_sequence [OF inv] by blast
  obtain raws evs where e: "im_events (ru_sink s) = evs" "rp_Accepted (ru_report s) = int (length evs)"
    "subseq raws (ru_handled s)" "list_all2 (derived L) raws evs"
    using handle_all_in_memory [OF hs(2)] unfolding hs(1) by (auto simp: empty_report_def)
  have "subseq raws es" using e(3) run_inv_prefix [OF inv] by (auto simp: prefix_def intro: list_emb_prefix)
  then show ?thesis using e by blast
qed

theorem sink_gets_valid_events_witness:
  "\<exists>s :: InMemorySink run_state. ru_result s \<noteq> None \<and> rp_Accepted (ru_report s) = 0"
proof -
  obtain s where s: "run_reach InMemorySink_Emit example_pb example_stages example_config
      (start_state [example_raw, example_raw, example_raw] failing_sink) s" "ru_result s \<noteq> None" "ru_sink s = failing_sink"
    using example_reach by (metis option.distinct(1))
  have "0 < cf_QueueSize example_config" by (simp add: example_config_def)
  from sink_gets_valid_events [OF s(1) [unfolded failing_sink_def] this] show ?thesis
    using s(2,3) by (auto simp: failing_sink_def)
qed

text \<open>
  C18. A failed run can leave its reader behind: once \<open>Run\<close> has returned because the sink
  failed, a reader that holds an event while the queue is full can do nothing until the
  caller cancels the context.
\<close>

theorem failed_run_blocks_reader:
  assumes "ru_result s = Some r" and "ru_hold s = Some e" and "int (length (ru_queue s)) = cf_QueueSize cfg"
    and "\<not> ru_cancelled s" and "\<not> ru_done s"
    and "run_step emit L p cfg s s'"
  shows "s' = s\<lparr>ru_cancelled := True\<rparr>"
  using assms(6,1-5) by (induction rule: run_step.induct) simp_all

theorem failed_run_blocks_reader_witness:
  "\<exists>s. run_reach InMemorySink_Emit example_pb example_stages example_config
       (start_state [example_raw, example_raw, example_raw] failing_sink) s \<and>
     (\<forall>s'. example_step s s' \<longrightarrow> s' = s\<lparr>ru_cancelled := True\<rparr>)"
proof -
  obtain s where s: "run_reach InMemorySink_Emit example_pb example_stages example_config
      (start_state [example_raw, example_raw, example_raw] failing_sink) s"
    and r: "ru_result s = Some (Some (Wrap (Pipeline ErrSink) (Plain ''down'')))" and h: "ru_hold s = Some example_raw"
    and q: "ru_queue s = [example_raw]" and c: "\<not> ru_cancelled s" and d: "\<not> ru_done s"
    using example_reach by blast
  have full: "int (length (ru_queue s)) = cf_QueueSize example_config" by (simp add: q example_config_def)
  have "\<forall>s'. example_step s s' \<longrightarrow> s' = s\<lparr>ru_cancelled := True\<rparr>"
    using failed_run_blocks_reader [OF r h full c d] by blast
  then show ?thesis using s by blast
qed

end
