(* ===== verification/Sinks.thy ===== *)
theory Sinks
  imports Pipeline EvidenceStore
begin

text \<open>
  Sinks at the end of the pipeline: \<open>pipeline/forward.go\<close> (canonical lines into a writer) and the
  \<open>teeSink\<close> of \<open>cmd/collector/main.go\<close>, and what the incident stage needs of the sink that is its
  event archive. An \<open>io.Writer\<close> is a function over its own state that reports how many bytes it
  took and an error; the serialization is that of a \<open>codec\<close>.
\<close>

subsection \<open>LineSink\<close>

record 'o LineSink =
  ls_w :: 'o
  ls_lines :: int
  ls_bytes :: int

definition NewLineSink :: "'o option \<Rightarrow> 'o LineSink res" where
  "NewLineSink p =
     (case p of None \<Rightarrow> Inl (Plain ''pipeline: LineSink writer is nil'')
      | Some w \<Rightarrow> Inr \<lparr>ls_w = w, ls_lines = 0, ls_bytes = 0\<rparr>)"

type_synonym 'o writer = "string \<Rightarrow> 'o \<Rightarrow> (int \<times> goerr) \<times> 'o"

text \<open>The write loop: it ends because every turn takes at least one byte.\<close>

function write_all :: "'o writer \<Rightarrow> string \<Rightarrow> 'o LineSink \<Rightarrow> goerr \<times> 'o LineSink" where
  "write_all wr data s =
     (if data = [] then (None, s)
      else (case wr data (ls_w s) of
              ((n, Some e), w) \<Rightarrow> (Some (Ctx ''pipeline: linesink write'' e), s\<lparr>ls_w := w\<rparr>)
            | ((n, None), w) \<Rightarrow>
                if n \<le> 0 \<or> n > int (length data)
                  then (Some (Plain ''pipeline: linesink writer returned invalid count''), s\<lparr>ls_w := w\<rparr>)
                else write_all wr (drop (nat n) data) (s\<lparr>ls_w := w, ls_bytes := ls_bytes s + n\<rparr>)))"
  by pat_completeness auto

termination
  by (relation "measure (\<lambda>(wr, data, s). length data)") auto

declare write_all.simps [simp del]

definition LineSink_Emit :: "codec \<Rightarrow> 'o writer \<Rightarrow> TelemetryEvent \<Rightarrow> 'o LineSink \<Rightarrow> goerr \<times> 'o LineSink" where
  "LineSink_Emit J wr e s =
     (case cj_event J e of
        Inl x \<Rightarrow> (Some (Ctx ''pipeline: linesink marshal'' x), s)
      | Inr data \<Rightarrow>
         (case write_all wr (data @ [CHR 0x0A]) s of
            (Some x, s1) \<Rightarrow> (Some x, s1)
          | (None, s1) \<Rightarrow> (None, s1\<lparr>ls_lines := ls_lines s1 + 1\<rparr>)))"

text \<open>A writer that tells the truth: it has taken as many bytes as it reports.\<close>

definition honest_writer :: "'o writer \<Rightarrow> ('o \<Rightarrow> string) \<Rightarrow> bool" where
  "honest_writer wr written \<longleftrightarrow>
     (\<forall>data w. case wr data w of ((n, r), w') \<Rightarrow>
        0 \<le> n \<and> n \<le> int (length data) \<longrightarrow> written w' = written w @ take (nat n) data)"

text \<open>A \<open>bytes.Buffer\<close>, and a writer that takes at most two bytes a call.\<close>

definition buffer_Write :: "string writer" where
  "buffer_Write data w = ((int (length data), None), w @ data)"

definition short_Write :: "string writer" where
  "short_Write data w = ((int (min 2 (length data)), None), w @ take 2 data)"

lemma honest_examples [simp]: "honest_writer buffer_Write (\<lambda>w. w)" "honest_writer short_Write (\<lambda>w. w)"
  by (auto simp: honest_writer_def buffer_Write_def short_Write_def min_def)

lemma write_all_writes:
  assumes "honest_writer wr written"
  shows "write_all wr data s = (None, s') \<Longrightarrow>
     written (ls_w s') = written (ls_w s) @ data \<and> ls_bytes s' = ls_bytes s + int (length data) \<and> ls_lines s' = ls_lines s"
proof (induction data arbitrary: s rule: length_induct)
  case (1 data)
  show ?case
  proof (cases "data = []")
    case True
    then show ?thesis using "1.prems" by (simp add: write_all.simps)
  next
    case False
    obtain n r w where w: "wr data (ls_w s) = ((n, r), w)" by (metis surj_pair)
    have r: "r = None" and n: "0 < n" "n \<le> int (length data)"
      and rest: "write_all wr (drop (nat n) data) (s\<lparr>ls_w := w, ls_bytes := ls_bytes s + n\<rparr>) = (None, s')"
      using "1.prems" False w by (auto simp: write_all.simps [of wr data] split: option.splits if_splits)
    have took: "written w = written (ls_w s) @ take (nat n) data"
      using assms n w by (auto simp: honest_writer_def split: prod.splits)
    have "length (drop (nat n) data) < length data" using n False by simp
    from "1.IH" [rule_format, OF this rest] show ?thesis using took n by simp
  qed
qed

text \<open>What a successful \<open>Emit\<close> has written: one line, however short the writes were.\<close>

lemma LineSink_Emit_writes:
  assumes "honest_writer wr written" and "LineSink_Emit J wr e s = (None, s')"
  shows "\<exists>data. cj_event J e = Inr data \<and> written (ls_w s') = written (ls_w s) @ data @ [CHR 0x0A] \<and>
    ls_bytes s' = ls_bytes s + int (length data) + 1 \<and> ls_lines s' = ls_lines s + 1"
  using assms write_all_writes [OF assms(1)]
  by (auto simp: LineSink_Emit_def split: sum.splits prod.splits option.splits)

subsection \<open>teeSink and the event archive\<close>

definition teeSink_Emit ::
  "(TelemetryEvent \<Rightarrow> 'a \<Rightarrow> goerr \<times> 'a) \<Rightarrow> (TelemetryEvent \<Rightarrow> 'b \<Rightarrow> goerr \<times> 'b) \<Rightarrow> TelemetryEvent \<Rightarrow> 'a \<times> 'b
    \<Rightarrow> goerr \<times> 'a \<times> 'b" where
  "teeSink_Emit emit_a emit_b e t =
     (case t of (a, b) \<Rightarrow>
        (case emit_a e a of
           (Some x, a1) \<Rightarrow> (Some x, a1, b)
         | (None, a1) \<Rightarrow> (case emit_b e b of (r, b1) \<Rightarrow> (r, a1, b1))))"

text \<open>
  What the incident stage needs of the sink it forwards to when that sink is also its archive:
  a forwarded event is archived last, and a refused one at most once.
\<close>

locale event_archive =
  fixes emit :: "TelemetryEvent \<Rightarrow> 'd \<Rightarrow> goerr \<times> 'd" and events :: "'d \<Rightarrow> TelemetryEvent list"
  assumes forwarded: "emit e d = (None, d1) \<Longrightarrow> events d1 = events d @ [e]"
    and refused: "emit e d = (Some x, d1) \<Longrightarrow> events d1 = events d \<or> events d1 = events d @ [e]"
begin

lemma archived: "emit e d = (r, d1) \<Longrightarrow> events d1 = events d \<or> events d1 = events d @ [e]"
  using forwarded refused by (cases r) blast+

end

interpretation memory_archive: event_archive InMemorySink_Emit im_events
  by (rule event_archive.intro) (auto simp: InMemorySink_Emit_def split: option.splits)

interpretation tee_archive: event_archive "teeSink_Emit InMemorySink_Emit (LineSink_Emit J wr)" "\<lambda>t. im_events (fst t)" for J wr
  by (rule event_archive.intro) (auto simp: teeSink_Emit_def InMemorySink_Emit_def split: option.splits prod.splits)

end
