(* ===== verification/IncidentChain.thy ===== *)
theory IncidentChain
  imports Sinks DetectEngine
begin

text \<open>
  The detection and incident stages (\<open>pipeline/detect_sink.go\<close>, \<open>pipeline/incident_sink.go\<close>) over
  the detection engine, the incident manager, the evidence store and a downstream sink that is
  also the archive of forwarded events (as \<open>cmd/collector\<close> wires it). The clocks' readings are a
  sequence: the engine and every ingest take the next one. A nil pointer dereference of the
  manager is the error text ''panic''; the invariant shows that it does not happen.
\<close>

subsection \<open>The detection stage\<close>

record ('w, 'd) detecting =
  dk_engine :: "'w dengine"
  dk_world :: 'w
  dk_store :: DetectionStore
  dk_down :: 'd

definition NewDetectingSink :: "'w dengine option \<Rightarrow> 'd option \<Rightarrow> DetectionStore option \<Rightarrow> 'w \<Rightarrow> ('w, 'd) detecting res" where
  "NewDetectingSink engine down st w =
     (case (engine, down, st) of
        (Some e, Some d, Some s) \<Rightarrow> Inr \<lparr>dk_engine = e, dk_world = w, dk_store = s, dk_down = d\<rparr>
      | _ \<Rightarrow> Inl (Plain ''pipeline: detecting sink needs engine, downstream and store''))"

definition add_all :: "Detection list \<Rightarrow> Alert list \<Rightarrow> DetectionStore \<Rightarrow> DetectionStore" where
  "add_all ds als st = foldl (\<lambda>s (d, a). DetectionStore_Add d a s) st (zip ds als)"

definition DetectingSink_Emit ::
  "(TelemetryEvent \<Rightarrow> 'd \<Rightarrow> goerr \<times> 'd) \<Rightarrow> pblib \<Rightarrow> gotime \<Rightarrow> TelemetryEvent \<Rightarrow> ('w, 'd) detecting
    \<Rightarrow> goerr \<times> ('w, 'd) detecting" where
  "DetectingSink_Emit emit L now e s =
     (case Process L now (Some e) (dk_engine s) (dk_world s) of
        (Inl x, d1, w1) \<Rightarrow> (Some (Wrap (Pipeline ErrDetection) x), s\<lparr>dk_engine := d1, dk_world := w1\<rparr>)
      | (Inr res, d1, w1) \<Rightarrow>
         (let s1 = s\<lparr>dk_engine := d1, dk_world := w1\<rparr>
          in if length (rs_Detections res) \<noteq> length (rs_Alerts res)
             then (Some (Sent (Pipeline ErrDetection) ''detections/alerts length mismatch''), s1)
             else (case emit e (dk_down s1) of
                     (r, down) \<Rightarrow> (r, s1\<lparr>dk_store := add_all (rs_Detections res) (rs_Alerts res) (dk_store s1),
                                        dk_down := down\<rparr>))))"

subsection \<open>The incident stage\<close>

record ('w, 'd) chain =
  ch_engine :: "'w dengine"
  ch_world :: 'w
  ch_incidents :: manager
  ch_evidence :: "Evidence gomap"
  ch_detections :: DetectionStore
  ch_down :: 'd
  ch_clock :: "nat \<Rightarrow> gotime"
  ch_ticks :: nat

definition NewIncidentSink ::
  "'w dengine option \<Rightarrow> manager option \<Rightarrow> Evidence gomap option \<Rightarrow> DetectionStore option \<Rightarrow> bool \<Rightarrow> 'd option \<Rightarrow> 'w
    \<Rightarrow> (nat \<Rightarrow> gotime) \<Rightarrow> ('w, 'd) chain res" where
  "NewIncidentSink engine mgr evs st archive_nil down w clock =
     (case (engine, mgr, evs, st, down) of
        (Some e, Some m, Some v, Some s, Some d) \<Rightarrow>
          if archive_nil then Inl (Plain ''pipeline: incident sink needs engine, manager, stores, archive and downstream'')
          else Inr \<lparr>ch_engine = e, ch_world = w, ch_incidents = m, ch_evidence = v, ch_detections = s, ch_down = d,
                 ch_clock = clock, ch_ticks = 0\<rparr>
      | _ \<Rightarrow> Inl (Plain ''pipeline: incident sink needs engine, manager, stores, archive and downstream''))"

definition now_of :: "('w, 'd) chain \<Rightarrow> gotime" where
  "now_of s = ch_clock s (ch_ticks s)"

text \<open>The snapshot of the archive by id; an id that occurs twice is an error.\<close>

fun archive_map :: "TelemetryEvent list \<Rightarrow> TelemetryEvent gomap \<Rightarrow> TelemetryEvent gomap res" where
  "archive_map [] m = Inr m"
| "archive_map (e # es) m =
     (if fmlookup m (te_id e) \<noteq> None
      then Inl (Sent (Pipeline ErrIncident) (''duplicate archived event id '' @ quote (te_id e)))
      else archive_map es (fmupd (te_id e) e m))"

definition archive_snapshot :: "TelemetryEvent list \<Rightarrow> TelemetryEvent \<Rightarrow> TelemetryEvent gomap res" where
  "archive_snapshot es e =
     (case archive_map es fmempty of
        Inl x \<Rightarrow> Inl x
      | Inr m \<Rightarrow>
         if fmlookup m (te_id e) \<noteq> None
         then Inl (Sent (Pipeline ErrIncident) (''duplicate event id '' @ quote (te_id e)))
         else Inr (fmupd (te_id e) e m))"

fun contributing :: "TelemetryEvent gomap \<Rightarrow> string list \<Rightarrow> TelemetryEvent list res" where
  "contributing m [] = Inr []"
| "contributing m (k # ks) =
     (case fmlookup m k of
        None \<Rightarrow> Inl (Sent (Pipeline ErrIncident) (''detection event '' @ quote k @ '' not archived''))
      | Some ev \<Rightarrow> (case contributing m ks of Inl x \<Rightarrow> Inl x | Inr evs \<Rightarrow> Inr (ev # evs)))"

text \<open>\<open>inc.GetUpdatedAt().AsTime()\<close>: a nil timestamp is the Unix epoch.\<close>

definition updated_at :: "pblib \<Rightarrow> Incident \<Rightarrow> gotime" where
  "updated_at L i = (case inc_updated_at i of None \<Rightarrow> 0 | Some t \<Rightarrow> ts_AsTime L t)"

text \<open>One turn of the alert loop: collect, ingest, capture, store.\<close>

definition ingest_one ::
  "pblib \<Rightarrow> codec \<Rightarrow> TelemetryEvent gomap \<Rightarrow> Detection \<Rightarrow> Alert \<Rightarrow> ('w, 'd) chain \<Rightarrow> goerr \<times> ('w, 'd) chain" where
  "ingest_one L J m d a s =
     (case contributing m (det_telemetry_event_ids d) of
        Inl x \<Rightarrow> (Some x, s)
      | Inr evs \<Rightarrow>
         (case Ingest L (now_of s) (Some a) (Some d) (map Some evs) (ch_incidents s) of
            (out, mg) \<Rightarrow>
              (let s1 = s\<lparr>ch_incidents := mg, ch_ticks := ch_ticks s + 1\<rparr>
               in case out of
                    Ret (inc, created) \<Rightarrow>
                      (case BuildForAlert L J (inc_id inc) (Some a) (Some d) (map Some evs) (updated_at L inc) of
                         Inl x \<Rightarrow> (Some (Wrap (Pipeline ErrEvidence) x), s1)
                       | Inr items \<Rightarrow>
                           (None, s1\<lparr>ch_evidence := foldl (\<lambda>st x. snd (Store_Add x st)) (ch_evidence s1) items\<rparr>))
                  | Fail x \<Rightarrow> (Some (Wrap (Pipeline ErrIncident) x), s1)
                  | RetFail _ x \<Rightarrow> (Some (Wrap (Pipeline ErrIncident) x), s1)
                  | Panicked \<Rightarrow> (Some (Plain ''panic''), s1))))"

fun ingest_pairs ::
  "pblib \<Rightarrow> codec \<Rightarrow> TelemetryEvent gomap \<Rightarrow> (Detection \<times> Alert) list \<Rightarrow> ('w, 'd) chain \<Rightarrow> goerr \<times> ('w, 'd) chain" where
  "ingest_pairs L J m [] s = (None, s)"
| "ingest_pairs L J m ((d, a) # ps) s =
     (case ingest_one L J m d a s of
        (Some x, s1) \<Rightarrow> (Some x, s1)
      | (None, s1) \<Rightarrow> ingest_pairs L J m ps s1)"

definition IncidentSink_Emit ::
  "(TelemetryEvent \<Rightarrow> 'd \<Rightarrow> goerr \<times> 'd) \<Rightarrow> ('d \<Rightarrow> TelemetryEvent list) \<Rightarrow> pblib \<Rightarrow> codec \<Rightarrow> TelemetryEvent
    \<Rightarrow> ('w, 'd) chain \<Rightarrow> goerr \<times> ('w, 'd) chain" where
  "IncidentSink_Emit emit events L J e s =
     (case Process L (now_of s) (Some e) (ch_engine s) (ch_world s) of
        (Inl x, d1, w1) \<Rightarrow>
          (Some (Wrap (Pipeline ErrDetection) x), s\<lparr>ch_engine := d1, ch_world := w1, ch_ticks := ch_ticks s + 1\<rparr>)
      | (Inr res, d1, w1) \<Rightarrow>
         (let s1 = s\<lparr>ch_engine := d1, ch_world := w1, ch_ticks := ch_ticks s + 1\<rparr>
          in if length (rs_Detections res) \<noteq> length (rs_Alerts res)
             then (Some (Sent (Pipeline ErrDetection) ''detections/alerts length mismatch''), s1)
             else
              (let s2 = s1\<lparr>ch_detections := add_all (rs_Detections res) (rs_Alerts res) (ch_detections s)\<rparr>
               in case archive_snapshot (events (ch_down s2)) e of
                    Inl x \<Rightarrow> (Some x, s2)
                  | Inr m \<Rightarrow>
                     (case ingest_pairs L J m (zip (rs_Detections res) (rs_Alerts res)) s2 of
                        (Some x, s3) \<Rightarrow> (Some x, s3)
                      | (None, s3) \<Rightarrow>
                         (case emit e (ch_down s3) of
                            (Some x, dn) \<Rightarrow> (Some (Wrap (Pipeline ErrSink) x), s3\<lparr>ch_down := dn\<rparr>)
                          | (None, dn) \<Rightarrow> (None, s3\<lparr>ch_down := dn\<rparr>))))))"

subsection \<open>The stores of the chain\<close>

lemma add_all_sel:
  "length ds = length als \<Longrightarrow> ds_detections (add_all ds als st) = ds_detections st @ ds \<and>
     ds_alerts (add_all ds als st) = ds_alerts st @ als"
  by (induction ds als arbitrary: st rule: list_induct2) (simp_all add: add_all_def DetectionStore_Add_def)

lemma archive_map_Inr:
  "archive_map es m = Inr m' \<Longrightarrow> distinct (map te_id es) \<and> te_id ` set es \<inter> fmdom' m = {} \<and>
     fmdom' m' = fmdom' m \<union> te_id ` set es \<and>
     (\<forall>k ev. fmlookup m' k = Some ev \<longrightarrow> fmlookup m k = Some ev \<or> ev \<in> set es \<and> te_id ev = k)"
proof (induction es arbitrary: m)
  case (Cons e es)
  then have "fmlookup m (te_id e) = None" "archive_map es (fmupd (te_id e) e m) = Inr m'" by (auto split: if_splits)
  then show ?case using Cons.IH [of "fmupd (te_id e) e m"] by (auto simp: fmlookup_dom'_iff split: if_splits)
qed simp

lemma archive_snapshot_Inr:
  assumes "archive_snapshot es e = Inr m"
  shows "distinct (map te_id (es @ [e])) \<and>
    (\<forall>k ev. fmlookup m k = Some ev \<longrightarrow> ev \<in> set (es @ [e]) \<and> te_id ev = k)"
proof -
  obtain m0 where m0: "archive_map es fmempty = Inr m0" "fmlookup m0 (te_id e) = None" "m = fmupd (te_id e) e m0"
    using assms by (auto simp: archive_snapshot_def split: sum.splits if_splits)
  have d: "distinct (map te_id es)" "fmdom' m0 = te_id ` set es" "\<forall>k ev. fmlookup m0 k = Some ev \<longrightarrow> ev \<in> set es \<and> te_id ev = k"
    using archive_map_Inr [OF m0(1)] by auto
  have "te_id e \<notin> te_id ` set es" using m0(2) unfolding d(2) [symmetric] by (simp add: fmlookup_dom'_iff)
  then show ?thesis using d m0(3) by auto
qed

lemma contributing_Inr:
  "contributing m ks = Inr evs \<Longrightarrow> length evs = length ks \<and> (\<forall>ev \<in> set evs. \<exists>k \<in> set ks. fmlookup m k = Some ev)"
proof (induction ks arbitrary: evs)
  case (Cons k ks)
  then obtain ev evs' where "fmlookup m k = Some ev" "contributing m ks = Inr evs'" "evs = ev # evs'"
    by (auto split: option.splits sum.splits)
  then show ?case using Cons.IH by fastforce
qed simp

subsection \<open>Consistency of the chain\<close>

text \<open>The incident of an alert: known to the manager under its id.\<close>

definition tracked :: "manager \<Rightarrow> string \<Rightarrow> bool" where
  "tracked mg k \<longleftrightarrow> (\<exists>iid r. fmlookup (mg_byID mg) iid = Some r \<and> k \<in> set (ir_alerts r))"

definition alerts_known :: "DetectionStore \<Rightarrow> manager \<Rightarrow> bool" where
  "alerts_known st mg \<longleftrightarrow> (\<forall>k. tracked mg k \<longrightarrow> k \<in> al_id ` set (ds_alerts st))"

definition evidence_sound :: "pblib \<Rightarrow> manager \<Rightarrow> Evidence gomap \<Rightarrow> bool" where
  "evidence_sound L mg items \<longleftrightarrow>
     (\<forall>k x. fmlookup items k = Some x \<longrightarrow> ev_id x = k \<and> Verify (Some x) \<and> ValidateEvidence L (Some x) = None \<and>
        fmlookup (mg_byID mg) (ev_incident_id x) \<noteq> None)"

definition detections_unique :: "'w dengine \<Rightarrow> DetectionStore \<Rightarrow> bool" where
  "detections_unique d st \<longleftrightarrow> distinct (map det_id (ds_detections st)) \<and> det_id ` set (ds_detections st) \<subseteq> seen_ids d \<and>
     map al_id (ds_alerts st) = map (\<lambda>x. ''alert-'' @ det_id x) (ds_detections st)"

text \<open>What the alert loop keeps: everything but manager, evidence and clock position.\<close>

definition same_frame :: "('w, 'd) chain \<Rightarrow> ('w, 'd) chain \<Rightarrow> bool" where
  "same_frame s t \<longleftrightarrow> ch_engine t = ch_engine s \<and> ch_world t = ch_world s \<and> ch_detections t = ch_detections s \<and>
     ch_down t = ch_down s"

lemma evidence_added:
  assumes "evidence_sound L mg items"
    and "\<forall>x \<in> set xs. Verify (Some x) \<and> ValidateEvidence L (Some x) = None \<and> fmlookup (mg_byID mg) (ev_incident_id x) \<noteq> None"
  shows "evidence_sound L mg (foldl (\<lambda>st x. snd (Store_Add x st)) items xs) \<and>
    fmdom' (foldl (\<lambda>st x. snd (Store_Add x st)) items xs) = fmdom' items \<union> ev_id ` set xs"
  using assms
proof (induction xs arbitrary: items)
  case (Cons x xs)
  have dom: "fmdom' (snd (Store_Add x items)) = insert (ev_id x) (fmdom' items)"
    by (auto simp: Store_Add_def fmlookup_dom'_iff)
  have "evidence_sound L mg (snd (Store_Add x items))"
    using Cons.prems by (auto simp: evidence_sound_def Store_Add_def)
  from Cons.IH [OF this] Cons.prems(2) show ?case by (simp add: dom)
qed simp

text \<open>Every incident has a correlation key, so an id is reused only when two keys clash.\<close>

definition manager_ok :: "manager \<Rightarrow> bool" where
  "manager_ok mg \<longleftrightarrow> manager_inv mg \<and> (\<forall>iid. fmlookup (mg_byID mg) iid \<noteq> None \<longrightarrow> (\<exists>k. fmlookup (mg_byKey mg) k = Some iid))"

definition no_clashes :: "manager \<Rightarrow> bool" where
  "no_clashes mg \<longleftrightarrow> inj_on incidentID (fmdom' (mg_byKey mg))"

lemma no_clashesD:
  "no_clashes mg \<Longrightarrow> fmlookup (mg_byKey mg) k = Some i \<Longrightarrow> fmlookup (mg_byKey mg) k' = Some i' \<Longrightarrow>
     incidentID k = incidentID k' \<Longrightarrow> k = k'"
  by (auto simp: no_clashes_def inj_on_def fmlookup_dom'_iff)

lemma no_clashes_mono: "no_clashes mg1 \<Longrightarrow> fmdom' (mg_byKey mg) \<subseteq> fmdom' (mg_byKey mg1) \<Longrightarrow> no_clashes mg"
  by (auto simp: no_clashes_def intro: inj_on_subset)

text \<open>What one ingest does to the manager: \<open>extends\<close> is everything the later turns keep.\<close>

definition extends :: "manager \<Rightarrow> manager \<Rightarrow> string set \<Rightarrow> bool" where
  "extends mg mg1 new \<longleftrightarrow> manager_ok mg1 \<and> fmdom' (mg_byID mg) \<subseteq> fmdom' (mg_byID mg1) \<and>
     fmdom' (mg_byKey mg) \<subseteq> fmdom' (mg_byKey mg1) \<and> (\<forall>k. tracked mg1 k \<longrightarrow> tracked mg k \<or> k \<in> new) \<and>
     (no_clashes mg1 \<longrightarrow> (\<forall>k. tracked mg k \<longrightarrow> tracked mg1 k))"

lemma extends_refl: "manager_ok mg \<Longrightarrow> extends mg mg new"
  by (auto simp: extends_def)

lemma extends_trans:
  "extends mg mg1 new1 \<Longrightarrow> extends mg1 mg2 new2 \<Longrightarrow> new1 \<union> new2 \<subseteq> new \<Longrightarrow> extends mg mg2 new"
  using no_clashes_mono [of mg2 mg1] unfolding extends_def by blast

lemma ingest_check_alert: "ingest_check L (Some a) p events = Inr (a', d', es) \<Longrightarrow> a' = a"
  by (auto simp: ingest_check_def split: option.splits if_splits)

lemma Ingest_extends:
  assumes "Ingest L now (Some a) p events mg = (out, mg1)" and "manager_ok mg"
  shows "extends mg mg1 {al_id a} \<and> out \<noteq> Panicked \<and>
    (\<forall>i b. out = Ret (i, b) \<longrightarrow> tracked mg1 (al_id a) \<and> fmlookup (mg_byID mg1) (inc_id i) \<noteq> None)"
proof -
  have inv: "manager_inv mg" and owned: "\<And>iid. fmlookup (mg_byID mg) iid \<noteq> None \<Longrightarrow> \<exists>k. fmlookup (mg_byKey mg) k = Some iid"
    using assms(2) by (auto simp: manager_ok_def)
  have inv1: "manager_inv mg1" by (rule Ingest_inv [OF inv assms(1)])
  from assms(1) inv show ?thesis
  proof (cases rule: Ingest_cases)
    case same
    have "tracked mg1 (al_id a) \<and> fmlookup (mg_byID mg1) (inc_id i) \<noteq> None" if out: "out = Ret (i, b)" for i b
    proof -
      obtain a' d' es r iid where h: "ingest_check L (Some a) p events = Inr (a', d', es)"
        "fmlookup (mg_byID mg) iid = Some r" "al_id a' \<in> set (ir_alerts r)" "i = ir_incident r" using same(2) [OF out] by blast
      have "inc_id i = iid" using manager_invD(1) [OF inv h(2)] h(4) by (simp add: record_ok_def)
      then show ?thesis using h ingest_check_alert [OF h(1)] same(1) by (auto simp: tracked_def)
    qed
    then show ?thesis using same(1,3) extends_refl [OF assms(2)] by simp
  next
    case (fold a' d' es iid r)
    have a: "a' = a" by (rule ingest_check_alert [OF fold(1)])
    let ?r = "fold_alert L now a' d' es r"
    have alerts: "ir_alerts ?r = List.insert (al_id a) (ir_alerts r)" by (simp add: fold_alert_def Let_def a)
    have look: "fmlookup (mg_byID mg1) jid = (if jid = iid then Some ?r else fmlookup (mg_byID mg) jid)" for jid
      using fold(5) by simp
    have keys: "mg_byKey mg1 = mg_byKey mg" using fold(5) by simp
    have ok: "manager_ok mg1" using inv1 owned fold(3) unfolding manager_ok_def keys look by (auto split: if_splits)
    have fwd: "tracked mg1 k \<Longrightarrow> tracked mg k \<or> k = al_id a" for k
      using fold(3) by (auto simp: tracked_def look alerts split: if_splits)
    have bwd: "tracked mg k \<Longrightarrow> tracked mg1 k" for k
    proof -
      assume "tracked mg k"
      then obtain jid q where q: "fmlookup (mg_byID mg) jid = Some q" "k \<in> set (ir_alerts q)" by (auto simp: tracked_def)
      show "tracked mg1 k"
      proof (cases "jid = iid")
        case True
        then have "k \<in> set (ir_alerts r)" using q fold(3) by simp
        then have "k \<in> set (ir_alerts ?r)" by (simp add: alerts)
        then show ?thesis unfolding tracked_def using look [of iid] by auto
      next
        case False
        then show ?thesis using q by (auto simp: tracked_def look)
      qed
    qed
    have now: "tracked mg1 (al_id a)" by (auto simp: tracked_def look alerts intro!: exI [of _ iid])
    have iid: "inc_id (ir_incident ?r) = iid"
      using manager_invD(1) [OF inv fold(3)] by (simp add: record_ok_def fold_alert_def Let_def)
    have "extends mg mg1 {al_id a}"
      using ok fwd bwd keys fold(3) unfolding extends_def by (auto simp: fmlookup_dom'_iff look)
    then show ?thesis using fold(6) now iid look by auto
  next
    case (create a' d' es)
    have a: "a' = a" by (rule ingest_check_alert [OF create(1)])
    let ?key = "correlationKey a' es"
    let ?r = "new_record L now ?key a' d' es"
    have alerts: "ir_alerts ?r = [al_id a]" by (simp add: new_record_def Let_def a)
    have look: "fmlookup (mg_byID mg1) jid = (if jid = incidentID ?key then Some ?r else fmlookup (mg_byID mg) jid)" for jid
      using create(3) by simp
    have keys: "fmlookup (mg_byKey mg1) k = (if k = ?key then Some (incidentID ?key) else fmlookup (mg_byKey mg) k)" for k
      using create(3) by simp
    have ok: "manager_ok mg1"
    proof -
      have "\<exists>k. fmlookup (mg_byKey mg1) k = Some iid" if "fmlookup (mg_byID mg1) iid \<noteq> None" for iid
      proof (cases "iid = incidentID ?key")
        case True
        then show ?thesis by (auto simp: keys)
      next
        case False
        then have "fmlookup (mg_byID mg) iid \<noteq> None" using that unfolding look by simp
        then obtain k where k: "fmlookup (mg_byKey mg) k = Some iid" using owned by blast
        then have "k \<noteq> ?key" using create(2) by auto
        then show ?thesis using k by (auto simp: keys)
      qed
      then show ?thesis using inv1 by (simp add: manager_ok_def)
    qed
    have fwd: "tracked mg1 k \<Longrightarrow> tracked mg k \<or> k = al_id a" for k
      by (auto simp: tracked_def look alerts split: if_splits)
    have bwd: "tracked mg1 k" if clash: "no_clashes mg1" and k: "tracked mg k" for k
    proof -
      obtain jid q where q: "fmlookup (mg_byID mg) jid = Some q" "k \<in> set (ir_alerts q)" using k by (auto simp: tracked_def)
      then obtain j where j: "fmlookup (mg_byKey mg) j = Some jid" using owned by blast
      have other: "j \<noteq> ?key" using j create(2) by auto
      have j1: "fmlookup (mg_byKey mg1) j = Some jid" using j other by (simp add: keys)
      have k1: "fmlookup (mg_byKey mg1) ?key = Some (incidentID ?key)" by (simp add: keys)
      have "incidentID j \<noteq> incidentID ?key" using no_clashesD [OF clash j1 k1] other by blast
      then have "jid \<noteq> incidentID ?key" using manager_invD(2) [OF inv j] by simp
      then show ?thesis using q by (auto simp: tracked_def look)
    qed
    have now: "tracked mg1 (al_id a)" by (auto simp: tracked_def look alerts intro!: exI [of _ "incidentID ?key"])
    have iid: "inc_id (ir_incident ?r) = incidentID ?key" by (simp add: new_record_def Let_def)
    have dom: "fmdom' (mg_byID mg) \<subseteq> fmdom' (mg_byID mg1)" "fmdom' (mg_byKey mg) \<subseteq> fmdom' (mg_byKey mg1)"
      unfolding create(3) by auto
    have "extends mg mg1 {al_id a}"
      unfolding extends_def using ok fwd bwd dom by blast
    then show ?thesis using create(4) now iid look by auto
  qed
qed

subsection \<open>The alert loop\<close>

text \<open>The evidence of an alert is in the store, under a known incident.\<close>

definition captured :: "manager \<Rightarrow> Evidence gomap \<Rightarrow> Detection \<Rightarrow> Alert \<Rightarrow> bool" where
  "captured mg items d a \<longleftrightarrow> (\<exists>iid. fmlookup (mg_byID mg) iid \<noteq> None \<and>
     evidenceID iid ''event'' ` set (det_telemetry_event_ids d) \<union>
       {evidenceID iid ''detection'' (det_id d), evidenceID iid ''alert'' (al_id a)} \<subseteq> fmdom' items)"

lemma captured_mono:
  "captured mg items d a \<Longrightarrow> fmdom' (mg_byID mg) \<subseteq> fmdom' (mg_byID mg1) \<Longrightarrow> fmdom' items \<subseteq> fmdom' items1 \<Longrightarrow>
     captured mg1 items1 d a"
  unfolding captured_def
proof (elim exE conjE)
  fix iid
  assume i: "fmlookup (mg_byID mg) iid \<noteq> None" and sub: "fmdom' (mg_byID mg) \<subseteq> fmdom' (mg_byID mg1)" "fmdom' items \<subseteq> fmdom' items1"
    and c: "evidenceID iid ''event'' ` set (det_telemetry_event_ids d) \<union>
       {evidenceID iid ''detection'' (det_id d), evidenceID iid ''alert'' (al_id a)} \<subseteq> fmdom' items"
  have "iid \<in> fmdom' (mg_byID mg)" using i by (auto simp: fmlookup_dom'_iff)
  then have "iid \<in> fmdom' (mg_byID mg1)" using sub(1) by blast
  then show "\<exists>iid. fmlookup (mg_byID mg1) iid \<noteq> None \<and> evidenceID iid ''event'' ` set (det_telemetry_event_ids d) \<union>
       {evidenceID iid ''detection'' (det_id d), evidenceID iid ''alert'' (al_id a)} \<subseteq> fmdom' items1"
    using subset_trans [OF c sub(2)] by (auto simp: fmlookup_dom'_iff)
qed

lemma evidence_sound_mono:
  "evidence_sound L mg items \<Longrightarrow> fmdom' (mg_byID mg) \<subseteq> fmdom' (mg_byID mg1) \<Longrightarrow> evidence_sound L mg1 items"
  by (fastforce simp: evidence_sound_def fmlookup_dom'_iff subset_iff)

definition loop_ok :: "pblib \<Rightarrow> (Detection \<times> Alert) list \<Rightarrow> ('w, 'd) chain \<Rightarrow> goerr \<Rightarrow> ('w, 'd) chain \<Rightarrow> bool" where
  "loop_ok L ps s r t \<longleftrightarrow> same_frame s t \<and> extends (ch_incidents s) (ch_incidents t) (al_id ` snd ` set ps) \<and>
     evidence_sound L (ch_incidents t) (ch_evidence t) \<and> fmdom' (ch_evidence s) \<subseteq> fmdom' (ch_evidence t) \<and>
     (r = None \<longrightarrow> (\<forall>(d, a) \<in> set ps. captured (ch_incidents t) (ch_evidence t) d a \<and>
       (no_clashes (ch_incidents t) \<longrightarrow> tracked (ch_incidents t) (al_id a))))"

lemma ingest_one_ok:
  assumes "ingest_one L J m d a s = (r, s1)" and "manager_ok (ch_incidents s)"
    and "evidence_sound L (ch_incidents s) (ch_evidence s)"
  shows "loop_ok L [(d, a)] s r s1"
proof (cases "contributing m (det_telemetry_event_ids d)")
  case (Inl x)
  then show ?thesis using assms by (auto simp: ingest_one_def loop_ok_def same_frame_def intro: extends_refl)
next
  case (Inr evs)
  obtain out mg where g: "Ingest L (now_of s) (Some a) (Some d) (map Some evs) (ch_incidents s) = (out, mg)" by fastforce
  note ext = Ingest_extends [OF g assms(2)]
  then have snd: "evidence_sound L mg (ch_evidence s)"
    using evidence_sound_mono [OF assms(3)] by (auto simp: extends_def)
  show ?thesis
  proof (cases out)
    case (Ret p)
    obtain inc created where p: "p = (inc, created)" by (cases p)
    have tr: "tracked mg (al_id a)" "fmlookup (mg_byID mg) (inc_id inc) \<noteq> None" using ext Ret p by auto
    show ?thesis
    proof (cases "BuildForAlert L J (inc_id inc) (Some a) (Some d) (map Some evs) (updated_at L inc)")
      case (Inl x)
      then show ?thesis using assms(1) Inr g Ret p ext snd
        by (auto simp: ingest_one_def loop_ok_def same_frame_def)
    next
      case items: (Inr items)
      obtain es de ae where it: "items = es @ [de, ae]"
        "map ev_id es = map (evidenceID (inc_id inc) ''event'') (sort (det_telemetry_event_ids d))"
        "ev_id de = evidenceID (inc_id inc) ''detection'' (det_id d)" "ev_id ae = evidenceID (inc_id inc) ''alert'' (al_id a)"
        and ver: "\<forall>x \<in> set items. Verify (Some x) \<and> ValidateEvidence L (Some x) = None \<and> ev_incident_id x = inc_id inc"
        using BuildForAlert_Inr [OF items] by blast
      let ?ev = "foldl (\<lambda>st x. snd (Store_Add x st)) (ch_evidence s) items"
      have add: "evidence_sound L mg ?ev" "fmdom' ?ev = fmdom' (ch_evidence s) \<union> ev_id ` set items"
        using evidence_added [OF snd, of items] ver tr(2) by auto
      have "ev_id ` set es = evidenceID (inc_id inc) ''event'' ` set (det_telemetry_event_ids d)"
        using arg_cong [OF it(2), of set] by simp
      then have "captured mg ?ev d a"
        unfolding captured_def add(2) using it tr(2) by (intro exI [of _ "inc_id inc"]) auto
      moreover have "r = None" "s1 = s\<lparr>ch_incidents := mg, ch_ticks := ch_ticks s + 1, ch_evidence := ?ev\<rparr>"
        using assms(1) Inr g Ret p items by (simp_all add: ingest_one_def)
      ultimately show ?thesis using ext add tr by (auto simp: loop_ok_def same_frame_def)
    qed
  next
    case (Fail x)
    then show ?thesis using assms(1) Inr g ext snd by (auto simp: ingest_one_def loop_ok_def same_frame_def)
  next
    case (RetFail p x)
    then show ?thesis using assms(1) Inr g ext snd by (auto simp: ingest_one_def loop_ok_def same_frame_def)
  next
    case Panicked
    then show ?thesis using ext by simp
  qed
qed

lemma ingest_pairs_ok:
  "ingest_pairs L J m ps s = (r, t) \<Longrightarrow> manager_ok (ch_incidents s) \<Longrightarrow> evidence_sound L (ch_incidents s) (ch_evidence s) \<Longrightarrow>
     loop_ok L ps s r t"
proof (induction ps arbitrary: s)
  case Nil
  then show ?case by (auto simp: loop_ok_def same_frame_def intro: extends_refl)
next
  case (Cons p ps)
  obtain d a where p: "p = (d, a)" by (cases p)
  obtain r1 s1 where one: "ingest_one L J m d a s = (r1, s1)" by (metis surj_pair)
  note ok1 = ingest_one_ok [OF one Cons.prems(2,3)]
  show ?case
  proof (cases r1)
    case (Some x)
    then have t: "r = Some x" "t = s1" using Cons.prems(1) p one by simp_all
    have "extends (ch_incidents s) (ch_incidents t) {al_id a}" using ok1 t by (simp add: loop_ok_def)
    then have "extends (ch_incidents s) (ch_incidents t) (al_id ` snd ` set (p # ps))" by (auto simp: extends_def p)
    then show ?thesis using ok1 t by (simp add: loop_ok_def)
  next
    case None
    have rest: "ingest_pairs L J m ps s1 = (r, t)" using Cons.prems(1) p one None by simp
    have "manager_ok (ch_incidents s1)" "evidence_sound L (ch_incidents s1) (ch_evidence s1)"
      using ok1 by (auto simp: loop_ok_def extends_def)
    from Cons.IH [OF rest this] have ok2: "loop_ok L ps s1 r t" .
    have e1: "extends (ch_incidents s) (ch_incidents s1) {al_id a}" and e2: "extends (ch_incidents s1) (ch_incidents t) (al_id ` snd ` set ps)"
      using ok1 ok2 by (simp_all add: loop_ok_def)
    have ext: "extends (ch_incidents s) (ch_incidents t) (al_id ` snd ` set (p # ps))"
      by (rule extends_trans [OF e1 e2]) (auto simp: p)
    have cap: "captured (ch_incidents t) (ch_evidence t) d a"
      using ok1 ok2 None captured_mono [of "ch_incidents s1" "ch_evidence s1" d a "ch_incidents t" "ch_evidence t"] e2
      by (simp add: loop_ok_def extends_def)
    have "tracked (ch_incidents t) (al_id a)" if c: "no_clashes (ch_incidents t)"
    proof -
      have "no_clashes (ch_incidents s1)" using no_clashes_mono [OF c] e2 by (simp add: extends_def)
      then have "tracked (ch_incidents s1) (al_id a)" using ok1 None by (simp add: loop_ok_def)
      then show ?thesis using e2 c by (simp add: extends_def)
    qed
    then show ?thesis using ok1 ok2 ext cap by (auto simp: loop_ok_def same_frame_def p)
  qed
qed

subsection \<open>One emission\<close>

definition chain_inv :: "pblib \<Rightarrow> ('d \<Rightarrow> TelemetryEvent list) \<Rightarrow> ('w, 'd) chain \<Rightarrow> bool" where
  "chain_inv L events s \<longleftrightarrow> manager_ok (ch_incidents s) \<and> alerts_known (ch_detections s) (ch_incidents s) \<and>
     evidence_sound L (ch_incidents s) (ch_evidence s) \<and> detections_unique (ch_engine s) (ch_detections s) \<and>
     distinct (map te_id (events (ch_down s)))"

text \<open>The state after a successful \<open>Process\<close>, with the new detections stored.\<close>

definition detected :: "Result \<Rightarrow> 'w dengine \<Rightarrow> 'w \<Rightarrow> ('w, 'd) chain \<Rightarrow> ('w, 'd) chain" where
  "detected res d1 w1 s = s\<lparr>ch_engine := d1, ch_world := w1, ch_ticks := ch_ticks s + 1,
     ch_detections := add_all (rs_Detections res) (rs_Alerts res) (ch_detections s)\<rparr>"

lemma Process_lengths: "Process L now p d w = (Inr res, d1, w1) \<Longrightarrow> length (rs_Detections res) = length (rs_Alerts res)"
  by (erule Process_Inr) simp

lemma Emit_cases:
  assumes "IncidentSink_Emit emit events L J e s = (r, t)"
  obtains (process) x d1 w1 where "Process L (now_of s) (Some e) (ch_engine s) (ch_world s) = (Inl x, d1, w1)"
      "r = Some (Wrap (Pipeline ErrDetection) x)" "t = s\<lparr>ch_engine := d1, ch_world := w1, ch_ticks := ch_ticks s + 1\<rparr>"
  | (archive) res d1 w1 x where "Process L (now_of s) (Some e) (ch_engine s) (ch_world s) = (Inr res, d1, w1)"
      "archive_snapshot (events (ch_down s)) e = Inl x" "r = Some x" "t = detected res d1 w1 s"
  | (alerts) res d1 w1 m x where "Process L (now_of s) (Some e) (ch_engine s) (ch_world s) = (Inr res, d1, w1)"
      "archive_snapshot (events (ch_down s)) e = Inr m" "r = Some x"
      "ingest_pairs L J m (zip (rs_Detections res) (rs_Alerts res)) (detected res d1 w1 s) = (Some x, t)"
  | (forward) res d1 w1 m s3 y dn where "Process L (now_of s) (Some e) (ch_engine s) (ch_world s) = (Inr res, d1, w1)"
      "archive_snapshot (events (ch_down s)) e = Inr m"
      "ingest_pairs L J m (zip (rs_Detections res) (rs_Alerts res)) (detected res d1 w1 s) = (None, s3)"
      "emit e (ch_down s3) = (y, dn)" "r = map_option (Wrap (Pipeline ErrSink)) y" "t = s3\<lparr>ch_down := dn\<rparr>"
proof -
  obtain pr d1 w1 where p: "Process L (now_of s) (Some e) (ch_engine s) (ch_world s) = (pr, d1, w1)" using prod_cases3 by blast
  show thesis
  proof (cases pr)
    case (Inl x)
    then show thesis using assms p by (intro process) (auto simp: IncidentSink_Emit_def)
  next
    case (Inr res)
    have pI: "Process L (now_of s) (Some e) (ch_engine s) (ch_world s) = (Inr res, d1, w1)" using p Inr by simp
    note len = Process_lengths [OF pI]
    show thesis
    proof (cases "archive_snapshot (events (ch_down s)) e")
      case (Inl x)
      then show thesis using assms pI len by (intro archive) (auto simp: IncidentSink_Emit_def detected_def Let_def)
    next
      case m: (Inr m)
      obtain r3 s3 where i: "ingest_pairs L J m (zip (rs_Detections res) (rs_Alerts res)) (detected res d1 w1 s) = (r3, s3)"
        by (metis surj_pair)
      obtain y dn where y: "emit e (ch_down s3) = (y, dn)" by (metis surj_pair)
      show thesis
      proof (cases r3)
        case None
        then show thesis using assms pI len m i y
          by (intro forward [OF pI m _ y]) (auto simp: IncidentSink_Emit_def detected_def Let_def split: option.splits)
      next
        case (Some x)
        then show thesis using assms pI len m i
          by (intro alerts [OF pI m]) (auto simp: IncidentSink_Emit_def detected_def Let_def)
      qed
    qed
  qed
qed

lemma detected_sel [simp]:
  "ch_incidents (detected res d1 w1 s) = ch_incidents s" "ch_evidence (detected res d1 w1 s) = ch_evidence s"
  "ch_down (detected res d1 w1 s) = ch_down s" "ch_engine (detected res d1 w1 s) = d1"
  "ch_detections (detected res d1 w1 s) = add_all (rs_Detections res) (rs_Alerts res) (ch_detections s)"
  by (simp_all add: detected_def)

lemma Process_stored:
  assumes "Process L now p d w = (Inr res, d1, w1)" and "detections_unique d st"
  shows "detections_unique d1 (add_all (rs_Detections res) (rs_Alerts res) st)"
  using assms(1)
proof (rule Process_Inr)
  fix e ms d2 dets
  assume h: "rs_Detections res = dets" "rs_Alerts res = map (\<lambda>x. alert_of L x now) dets" "distinct (map det_id dets)"
    "det_id ` set dets \<inter> seen_ids d = {}" "seen_ids d1 = seen_ids d \<union> det_id ` set dets"
  have sel: "ds_detections (add_all (rs_Detections res) (rs_Alerts res) st) = ds_detections st @ dets"
    "ds_alerts (add_all (rs_Detections res) (rs_Alerts res) st) = ds_alerts st @ map (\<lambda>x. alert_of L x now) dets"
    using add_all_sel [OF Process_lengths [OF assms(1)], of st] h by simp_all
  show ?thesis using assms(2) h(3-5) unfolding detections_unique_def sel by (auto simp: alert_of_def)
qed

lemma alerts_known_more: "alerts_known st mg \<Longrightarrow> length ds = length als \<Longrightarrow> alerts_known (add_all ds als st) mg"
  by (auto simp: alerts_known_def add_all_sel)

text \<open>The alert loop on the state after detection.\<close>

lemma loop_keeps:
  assumes "Process L now (Some e) (ch_engine s) (ch_world s) = (Inr res, d1, w1)" and "chain_inv L events s"
    and "ingest_pairs L J m (zip (rs_Detections res) (rs_Alerts res)) (detected res d1 w1 s) = (r, t)"
  shows "chain_inv L events t \<and> ch_down t = ch_down s \<and> ch_engine t = d1 \<and>
    ds_detections (ch_detections t) = ds_detections (ch_detections s) @ rs_Detections res \<and>
    ds_alerts (ch_detections t) = ds_alerts (ch_detections s) @ rs_Alerts res \<and>
    (\<forall>k. tracked (ch_incidents t) k \<longrightarrow> tracked (ch_incidents s) k \<or> k \<in> al_id ` set (rs_Alerts res)) \<and>
    (r = None \<longrightarrow> (\<forall>(d, a) \<in> set (zip (rs_Detections res) (rs_Alerts res)). captured (ch_incidents t) (ch_evidence t) d a \<and>
       (no_clashes (ch_incidents t) \<longrightarrow> tracked (ch_incidents t) (al_id a))))"
proof -
  note len = Process_lengths [OF assms(1)]
  have inv: "manager_ok (ch_incidents s)" "evidence_sound L (ch_incidents s) (ch_evidence s)"
    "alerts_known (ch_detections s) (ch_incidents s)" "detections_unique (ch_engine s) (ch_detections s)"
    "distinct (map te_id (events (ch_down s)))" using assms(2) by (simp_all add: chain_inv_def)
  have ok: "loop_ok L (zip (rs_Detections res) (rs_Alerts res)) (detected res d1 w1 s) r t"
    using ingest_pairs_ok [OF assms(3)] inv by simp
  have frame: "ch_engine t = d1" "ch_down t = ch_down s"
    "ch_detections t = add_all (rs_Detections res) (rs_Alerts res) (ch_detections s)"
    using ok by (simp_all add: loop_ok_def same_frame_def)
  have sel: "ds_detections (ch_detections t) = ds_detections (ch_detections s) @ rs_Detections res"
    "ds_alerts (ch_detections t) = ds_alerts (ch_detections s) @ rs_Alerts res"
    using add_all_sel [OF len] frame(3) by simp_all
  have ext: "extends (ch_incidents s) (ch_incidents t) (al_id ` snd ` set (zip (rs_Detections res) (rs_Alerts res)))"
    using ok by (simp add: loop_ok_def)
  have new: "snd ` set (zip (rs_Detections res) (rs_Alerts res)) = set (rs_Alerts res)"
    using len by (metis list.set_map map_snd_zip)
  then have "alerts_known (ch_detections t) (ch_incidents t)"
    using ext inv(3) unfolding alerts_known_def extends_def sel(2) by (simp add: image_Un) blast
  moreover have "detections_unique (ch_engine t) (ch_detections t)"
    using Process_stored [OF assms(1) inv(4)] frame by simp
  ultimately have "chain_inv L events t" using ok ext inv(5) frame(2) by (simp add: chain_inv_def loop_ok_def extends_def)
  moreover have "\<forall>k. tracked (ch_incidents t) k \<longrightarrow> tracked (ch_incidents s) k \<or> k \<in> al_id ` set (rs_Alerts res)"
    using ext unfolding new by (simp add: extends_def)
  ultimately show ?thesis using ok frame sel by (simp add: loop_ok_def)
qed

lemma process_fails_keeps:
  assumes "Process L now (Some e) (ch_engine s) (ch_world s) = (Inl x, d1, w1)" and "chain_inv L events s"
  shows "chain_inv L events (s\<lparr>ch_engine := d1, ch_world := w1, ch_ticks := ch_ticks s + 1\<rparr>)"
  using assms(2) Process_frame [OF assms(1)] by (auto simp: chain_inv_def detections_unique_def)

lemma alerts_distinct: "detections_unique d st \<Longrightarrow> distinct (map al_id (ds_alerts st))"
  by (auto simp: detections_unique_def distinct_map inj_on_def)

context event_archive
begin

lemma chain_kept:
  assumes "IncidentSink_Emit emit events L J e s = (r, t)" and "chain_inv L events s"
  shows "chain_inv L events t"
  using assms(1)
proof (cases rule: Emit_cases)
  case (process x d1 w1)
  show ?thesis unfolding process(3) by (rule process_fails_keeps [OF process(1) assms(2)])
next
  case (archive res d1 w1 x)
  then show ?thesis
    using assms(2) Process_stored [OF archive(1)] alerts_known_more Process_lengths [OF archive(1)] by (auto simp: chain_inv_def)
next
  case (alerts res d1 w1 m x)
  then show ?thesis using loop_keeps [OF alerts(1) assms(2) alerts(4)] by simp
next
  case (forward res d1 w1 m s3 y dn)
  have s3: "chain_inv L events s3" "ch_down s3 = ch_down s" using loop_keeps [OF forward(1) assms(2) forward(3)] by simp_all
  have "distinct (map te_id (events dn))"
    using archived [OF forward(4)] archive_snapshot_Inr [OF forward(2)] s3 by (auto simp: chain_inv_def)
  then show ?thesis using s3(1) forward(6) by (simp add: chain_inv_def)
qed

text \<open>A successful emission is complete; a failed one has forwarded nothing the sink did not take.\<close>

lemma emission_complete:
  assumes "IncidentSink_Emit emit events L J e s = (None, t)" and "chain_inv L events s"
  shows "events (ch_down t) = events (ch_down s) @ [e] \<and>
    (\<exists>ds as. ds_detections (ch_detections t) = ds_detections (ch_detections s) @ ds \<and>
       ds_alerts (ch_detections t) = ds_alerts (ch_detections s) @ as \<and> length ds = length as \<and>
       (\<forall>(d, a) \<in> set (zip ds as). captured (ch_incidents t) (ch_evidence t) d a \<and>
          (no_clashes (ch_incidents t) \<longrightarrow> tracked (ch_incidents t) (al_id a))))"
  using assms(1)
proof (cases rule: Emit_cases)
  case (forward res d1 w1 m s3 y dn)
  have y: "y = None" using forward(5) by simp
  note l = loop_keeps [OF forward(1) assms(2) forward(3)]
  have "events (ch_down t) = events (ch_down s) @ [e]" using forwarded forward(4,6) y l by simp
  then show ?thesis using l forward(6) Process_lengths [OF forward(1)]
    by (intro conjI exI [of _ "rs_Detections res"] exI [of _ "rs_Alerts res"]) simp_all
qed auto

lemma refused_or_unchanged:
  assumes "IncidentSink_Emit emit events L J e s = (Some x, t)" and "chain_inv L events s"
  shows "ch_down t = ch_down s \<or> (\<exists>y. emit e (ch_down s) = (Some y, ch_down t) \<and> x = Wrap (Pipeline ErrSink) y)"
  using assms(1)
proof (cases rule: Emit_cases)
  case (alerts res d1 w1 m x)
  then show ?thesis using loop_keeps [OF alerts(1) assms(2) alerts(4)] by simp
next
  case (forward res d1 w1 m s3 y dn)
  then show ?thesis using loop_keeps [OF forward(1) assms(2) forward(3)] by (cases y) auto
qed auto

text \<open>An alert that was stored and got no incident gets none later.\<close>

lemma alert_stays_lost:
  assumes "IncidentSink_Emit emit events L J e s = (r, t)" and "chain_inv L events s"
    and "k \<in> al_id ` set (ds_alerts (ch_detections s))" and "\<not> tracked (ch_incidents s) k"
  shows "k \<in> al_id ` set (ds_alerts (ch_detections t)) \<and> \<not> tracked (ch_incidents t) k"
proof -
  have loop: ?thesis
    if "Process L (now_of s) (Some e) (ch_engine s) (ch_world s) = (Inr res, d1, w1)"
      and "ingest_pairs L J m (zip (rs_Detections res) (rs_Alerts res)) (detected res d1 w1 s) = (r3, s3)"
      and "ch_detections t = ch_detections s3" "ch_incidents t = ch_incidents s3" for res d1 w1 m r3 s3
  proof -
    note l = loop_keeps [OF that(1) assms(2) that(2)]
    have "chain_inv L events s3" using l by blast
    then have "detections_unique (ch_engine s3) (ch_detections s3)" by (simp add: chain_inv_def)
    then have "distinct (map al_id (ds_alerts (ch_detections s3)))" by (rule alerts_distinct)
    moreover have "ds_alerts (ch_detections s3) = ds_alerts (ch_detections s) @ rs_Alerts res" using l by blast
    ultimately have apart: "al_id ` set (ds_alerts (ch_detections s)) \<inter> al_id ` set (rs_Alerts res) = {}" by simp
    have "\<not> tracked (ch_incidents s3) k" using l assms(3,4) apart by blast
    moreover have "k \<in> al_id ` set (ds_alerts (ch_detections s3))" using l assms(3) by auto
    ultimately show ?thesis using that(3,4) by simp
  qed
  from assms(1) show ?thesis
  proof (cases rule: Emit_cases)
    case (process x d1 w1)
    then show ?thesis using assms(3,4) by simp
  next
    case (archive res d1 w1 x)
    then show ?thesis using assms(3,4) add_all_sel [OF Process_lengths [OF archive(1)]] by auto
  next
    case (alerts res d1 w1 m x)
    then show ?thesis using loop [OF alerts(1,4)] by simp
  next
    case (forward res d1 w1 m s3 y dn)
    then show ?thesis using loop [OF forward(1,3)] by simp
  qed
qed

end

subsection \<open>The wired collector\<close>

text \<open>
  The wiring of \<open>runSelfTest\<close> with an emit path: the pipeline ends in an incident stage that
  archives in memory and forwards to the archive and to a line sink.
\<close>

type_synonym 'o outputs = "InMemorySink \<times> 'o LineSink"

abbreviation archive_of :: "'o outputs \<Rightarrow> TelemetryEvent list" where
  "archive_of t \<equiv> im_events (fst t)"

definition collector_Emit :: "codec \<Rightarrow> 'o writer \<Rightarrow> pblib \<Rightarrow> TelemetryEvent \<Rightarrow> ('w, 'o outputs) chain \<Rightarrow> goerr \<times> ('w, 'o outputs) chain" where
  "collector_Emit J wr L = IncidentSink_Emit (teeSink_Emit InMemorySink_Emit (LineSink_Emit J wr)) archive_of L J"

text \<open>A chain of new components, with any rules registered.\<close>

definition fresh :: "('w, 'o outputs) chain \<Rightarrow> bool" where
  "fresh c \<longleftrightarrow> seen_ids (ch_engine c) = {} \<and> ch_incidents c = \<lparr>mg_byID = fmempty, mg_byKey = fmempty\<rparr> \<and>
     ch_evidence c = fmempty \<and> ch_detections c = \<lparr>ds_detections = [], ds_alerts = []\<rparr> \<and> archive_of (ch_down c) = []"

lemma fresh_chain: "fresh c \<Longrightarrow> chain_inv L archive_of c"
  by (simp add: fresh_def chain_inv_def manager_ok_def manager_inv_def alerts_known_def tracked_def evidence_sound_def
      detections_unique_def)

lemma collector_keeps: "chain_inv L archive_of c \<Longrightarrow> chain_inv L archive_of (snd (collector_Emit J wr L e c))"
  unfolding collector_Emit_def using tee_archive.chain_kept by (metis prod.collapse)

lemma collector_chain:
  assumes "run_reach (collector_Emit J wr L) L p cfg (start_state es c) s" and "fresh c"
  shows "chain_inv L archive_of (ru_sink s)"
  by (rule run_keeps [OF assms(1)]) (simp_all add: collector_keeps fresh_chain [OF assms(2)] start_state_def)

text \<open>Emissions one after the other, whatever each of them returns.\<close>

definition emits :: "codec \<Rightarrow> 'o writer \<Rightarrow> pblib \<Rightarrow> TelemetryEvent list \<Rightarrow> ('w, 'o outputs) chain \<Rightarrow> ('w, 'o outputs) chain" where
  "emits J wr L es c = foldl (\<lambda>c e. snd (collector_Emit J wr L e c)) c es"

lemma emits_chain: "chain_inv L archive_of c \<Longrightarrow> chain_inv L archive_of (emits J wr L es c)"
  by (induction es arbitrary: c) (simp_all add: emits_def collector_keeps)

lemma emits_lost:
  "chain_inv L archive_of c \<Longrightarrow> k \<in> al_id ` set (ds_alerts (ch_detections c)) \<Longrightarrow> \<not> tracked (ch_incidents c) k \<Longrightarrow>
     k \<in> al_id ` set (ds_alerts (ch_detections (emits J wr L es c))) \<and> \<not> tracked (ch_incidents (emits J wr L es c)) k"
proof (induction es arbitrary: c)
  case (Cons e es)
  obtain r t where t: "IncidentSink_Emit (teeSink_Emit InMemorySink_Emit (LineSink_Emit J wr)) archive_of L J e c = (r, t)"
    by (metis surj_pair)
  have one: "k \<in> al_id ` set (ds_alerts (ch_detections t)) \<and> \<not> tracked (ch_incidents t) k"
    by (rule tee_archive.alert_stays_lost [OF t Cons.prems])
  have "chain_inv L archive_of t" by (rule tee_archive.chain_kept [OF t Cons.prems(1)])
  moreover have "emits J wr L (e # es) c = emits J wr L es t" by (simp add: emits_def collector_Emit_def t)
  ultimately show ?case using Cons.IH one by simp
qed (simp add: emits_def)

subsection \<open>A closed run\<close>

definition ex_chain :: "(rule_world, string outputs) chain" where
  "ex_chain = \<lparr>ch_engine = ex_engine [SourceCriticalRule], ch_world = ex_world,
     ch_incidents = \<lparr>mg_byID = fmempty, mg_byKey = fmempty\<rparr>, ch_evidence = fmempty,
     ch_detections = \<lparr>ds_detections = [], ds_alerts = []\<rparr>,
     ch_down = (\<lparr>im_events = [], im_err = None\<rparr>, \<lparr>ls_w = [], ls_lines = 0, ls_bytes = 0\<rparr>),
     ch_clock = (\<lambda>_. 9), ch_ticks = 0\<rparr>"

lemma ex_fresh: "fresh ex_chain"
  by (simp add: fresh_def ex_chain_def seen_ids_def)

definition ex_alert9 :: Alert where
  "ex_alert9 = alert_of example_pb ex_det 9"

lemma ex_det_events: "det_telemetry_event_ids ex_det = [te_id ex_critical]"
proof -
  have "oc_EventIDs ex_outcome = [te_id ex_critical]"
    by (simp add: ex_outcome_def SourceCritical_Evaluate_def match_def ex_critical_def)
  then show ?thesis by (simp add: ex_det_def detection_of_def)
qed

lemma ex_valid:
  "ValidateDetection example_pb (Some ex_det) = None" "ValidateAlert example_pb (Some ex_alert9) = None"
  "det_id ex_det \<in> set (al_detection_ids ex_alert9)"
  using BuildAlert_Inr [OF ex_build(2)] by (auto simp: ex_alert9_def alert_of_def)

lemma new_record_valid:
  assumes "ValidateAlert L (Some a) = None" and "ts_CheckValid L (ts_New L now) = None"
  shows "ValidateIncident L (Some (ir_incident (new_record L now key a d es))) = None"
  using assms by (auto simp: ValidateAlert_def ValidateIncident_def new_record_def Let_def boundary incidentID_def IncidentStatus_known_def)

lemma ex_ingest:
  "\<exists>i mg. Ingest example_pb 9 (Some ex_alert9) (Some ex_det) [Some ex_critical] \<lparr>mg_byID = fmempty, mg_byKey = fmempty\<rparr> =
     (Ret (i, True), mg) \<and> inc_id i \<noteq> [] \<and> updated_at example_pb i = 9"
proof -
  have "ingest_check example_pb (Some ex_alert9) (Some ex_det) [Some ex_critical] = Inr (ex_alert9, ex_det, [ex_critical])"
    using ex_valid ex_det_events by (simp add: ingest_check_def fail_if_def)
  moreover have "ts_CheckValid example_pb (ts_New example_pb 9) = None" by (simp add: example_pb_def)
  note new_record_valid [OF ex_valid(2) this]
  moreover have "\<not> IsZero 9" by (simp add: IsZero_def zero_time_def)
  ultimately show ?thesis
    by (auto simp: Ingest_def Let_def new_record_def incidentID_def updated_at_def example_pb_def)
qed

lemma ex_evidence:
  assumes "iid \<noteq> []"
  shows "\<exists>items. BuildForAlert example_pb ev_codec iid (Some ex_alert9) (Some ex_det) [Some ex_critical] 9 = Inr items"
proof -
  have t: "\<not> IsZero 9" "ts_CheckValid example_pb (ts_New example_pb 9) = None"
    by (simp_all add: IsZero_def zero_time_def example_pb_def)
  have k: "EvidenceType_known EVIDENCE_TYPE_NOTE" "EvidenceType_known EVIDENCE_TYPE_LOG_EXCERPT"
    by (simp_all add: EvidenceType_known_def)
  have ids: "te_id ex_critical \<noteq> []" "te_source ex_critical \<noteq> []" "det_id ex_det \<noteq> []" "al_id ex_alert9 \<noteq> []"
    using ex_critical_good ex_valid(1,2)
    by (simp_all add: ValidateTelemetryEvent_def ValidateDetection_def ValidateAlert_def boundary)
  obtain e where e: "mk_item example_pb iid 9 ''event'' (te_id ex_critical) EVIDENCE_TYPE_LOG_EXCERPT (te_source ex_critical)
      (cj_event ev_codec ex_critical) = Inr e"
    using mk_item_succeeds [of iid "''event''" "te_id ex_critical" "te_source ex_critical" "''event '' @ te_id ex_critical"
        EVIDENCE_TYPE_LOG_EXCERPT 9 example_pb] assms ids t k by (auto simp: ev_codec_def)
  obtain de where de: "mk_item example_pb iid 9 ''detection'' (det_id ex_det) EVIDENCE_TYPE_NOTE SourceDetection
      (cj_detection ev_codec ex_det) = Inr de"
    using mk_item_succeeds [of iid "''detection''" "det_id ex_det" SourceDetection "''detection '' @ det_id ex_det"
        EVIDENCE_TYPE_NOTE 9 example_pb] assms ids t k by (auto simp: ev_codec_def SourceDetection_def)
  obtain ae where ae: "mk_item example_pb iid 9 ''alert'' (al_id ex_alert9) EVIDENCE_TYPE_NOTE SourceAlert
      (cj_alert ev_codec ex_alert9) = Inr ae"
    using mk_item_succeeds [of iid "''alert''" "al_id ex_alert9" SourceAlert "''alert '' @ al_id ex_alert9"
        EVIDENCE_TYPE_NOTE 9 example_pb] assms ids t k by (auto simp: ev_codec_def SourceAlert_def)
  show ?thesis using ex_valid ex_critical_good t assms e de ae
    by (simp add: BuildForAlert_def fail_if_def ex_det_events)
qed

lemma ex_snapshot: "archive_snapshot [] ex_critical = Inr (fmupd (te_id ex_critical) ex_critical fmempty)"
  by (simp add: archive_snapshot_def)

lemma buffer_write_all: "write_all buffer_Write data s = (None, if data = [] then s else s\<lparr>ls_w := ls_w s @ data, ls_bytes := ls_bytes s + int (length data)\<rparr>)"
  by (simp add: write_all.simps [of buffer_Write data] write_all.simps [of buffer_Write "[]"] buffer_Write_def)

lemma ex_emit:
  "\<exists>t. collector_Emit ev_codec buffer_Write example_pb ex_critical ex_chain = (None, t) \<and>
     ds_detections (ch_detections t) = [ex_det] \<and> ds_alerts (ch_detections t) = [ex_alert9]"
proof -
  obtain d1 where pr: "Process example_pb 9 (Some ex_critical) (ex_engine [SourceCriticalRule]) ex_world =
      (Inr \<lparr>rs_Detections = [ex_det], rs_Alerts = [ex_alert9], rs_Suppressed = 0\<rparr>, d1, ex_world)"
    using ex_process by (auto simp: ex_alert9_def)
  obtain i mg where ing: "Ingest example_pb 9 (Some ex_alert9) (Some ex_det) [Some ex_critical] \<lparr>mg_byID = fmempty, mg_byKey = fmempty\<rparr> =
     (Ret (i, True), mg)" "inc_id i \<noteq> []" "updated_at example_pb i = 9" using ex_ingest by blast
  obtain items where it: "BuildForAlert example_pb ev_codec (inc_id i) (Some ex_alert9) (Some ex_det) [Some ex_critical] 9 = Inr items"
    using ex_evidence [OF ing(2)] by blast
  show ?thesis
    by (simp add: collector_Emit_def IncidentSink_Emit_def now_of_def ex_chain_def pr ex_snapshot ingest_one_def ex_det_events ing it
        teeSink_Emit_def InMemorySink_Emit_def LineSink_Emit_def ev_codec_def [THEN arg_cong, of cj_event] buffer_write_all
        add_all_def DetectionStore_Add_def)
qed

text \<open>The same critical event behind an archived event with its id: detected, but refused.\<close>

definition ex_quiet :: TelemetryEvent where
  "ex_quiet = ex_critical\<lparr>te_severity := SEVERITY_LOW\<rparr>"

lemma ex_quiet_good: "ValidateTelemetryEvent example_pb (Some ex_quiet) = None"
  by code_simp

lemma ex_lost:
  "tracked (ch_incidents (emits ev_codec buffer_Write example_pb [ex_quiet, ex_critical] ex_chain)) k = False \<and>
   ds_alerts (ch_detections (emits ev_codec buffer_Write example_pb [ex_quiet, ex_critical] ex_chain)) = [ex_alert9]"
proof -
  have z: "\<not> IsZero 9" by (simp add: IsZero_def zero_time_def)
  have "SourceCritical_Evaluate (Some ex_quiet) = Inr no_match" by (simp add: SourceCritical_Evaluate_def ex_quiet_def)
  then have ev: "evaluate_rules 9 ex_quiet [SourceCriticalRule] (ex_engine [SourceCriticalRule]) ex_world =
      (Inr [], put_stat ''source-declared-critical'' \<lparr>st_evaluated = 1, st_detections = 0, st_errors = 0, st_errEvents = []\<rparr>
        (ex_engine [SourceCriticalRule]), ex_world)"
    by (simp add: SourceCriticalRule_def ex_engine_def Registry_IsEnabled_def is_disabled_def stat_of_def zero_stat_def
        put_stat_def no_match_def)
  let ?d = "put_stat ''source-declared-critical'' \<lparr>st_evaluated = 1, st_detections = 0, st_errors = 0, st_errEvents = []\<rparr>
        (ex_engine [SourceCriticalRule])"
  have pr: "Process example_pb 9 (Some ex_quiet) (ex_engine [SourceCriticalRule]) ex_world = (Inr empty_result, ?d, ex_world)"
    using z by (simp add: Process_def ex_quiet_good ev del: evaluate_rules.simps)
  have snap: "archive_snapshot [] ex_quiet = Inr (fmupd (te_id ex_quiet) ex_quiet fmempty)" by (simp add: archive_snapshot_def)
  have one: "snd (collector_Emit ev_codec buffer_Write example_pb ex_quiet ex_chain) = ex_chain\<lparr>ch_engine := ?d, ch_ticks := 1,
      ch_down := (\<lparr>im_events = [ex_quiet], im_err = None\<rparr>, snd (LineSink_Emit ev_codec buffer_Write ex_quiet (snd (ch_down ex_chain))))\<rparr>"
    by (simp add: collector_Emit_def IncidentSink_Emit_def now_of_def ex_chain_def pr snap empty_result_def add_all_def
        teeSink_Emit_def InMemorySink_Emit_def LineSink_Emit_def ev_codec_def [THEN arg_cong, of cj_event] buffer_write_all)
  have "\<exists>d1. evaluate_rules 9 ex_critical [SourceCriticalRule] ?d ex_world =
      (Inr [\<lparr>mt_Rule = SourceCriticalRule, mt_Outcome = ex_outcome\<rparr>], d1, ex_world) \<and> dg_seen d1 = fmempty"
    using ex_outcome
    by (simp add: SourceCriticalRule_def ex_engine_def Registry_IsEnabled_def is_disabled_def put_stat_def Let_def)
  then obtain d1 where ev2: "evaluate_rules 9 ex_critical [SourceCriticalRule] ?d ex_world =
      (Inr [\<lparr>mt_Rule = SourceCriticalRule, mt_Outcome = ex_outcome\<rparr>], d1, ex_world)" "dg_seen d1 = fmempty" by blast
  have list: "Registry_List (dg_registry ?d) = [SourceCriticalRule]" by simp
  have pr2: "\<exists>d2. Process example_pb 9 (Some ex_critical) ?d ex_world =
      (Inr \<lparr>rs_Detections = [ex_det], rs_Alerts = [ex_alert9], rs_Suppressed = 0\<rparr>, d2, ex_world)"
    using z ev2 by (simp add: Process_def ex_critical_good list ex_build empty_result_def ex_alert9_def del: evaluate_rules.simps put_stat_sel)
  then obtain d2 where pr2: "Process example_pb 9 (Some ex_critical) ?d ex_world =
      (Inr \<lparr>rs_Detections = [ex_det], rs_Alerts = [ex_alert9], rs_Suppressed = 0\<rparr>, d2, ex_world)" by blast
  have same: "te_id ex_critical = te_id ex_quiet" by (simp add: ex_quiet_def)
  have dup: "\<exists>x. archive_snapshot [ex_quiet] ex_critical = Inl x" by (simp add: archive_snapshot_def same)
  then obtain x where dup: "archive_snapshot [ex_quiet] ex_critical = Inl x" by blast
  show ?thesis
    unfolding emits_def
    by (simp add: one) (simp add: collector_Emit_def IncidentSink_Emit_def now_of_def ex_chain_def pr2 dup add_all_def
        DetectionStore_Add_def tracked_def)
qed

subsection \<open>The properties\<close>





text \<open>
  The stage fails closed: when an emission returns an error, the downstream sink is as
  before, or the error is its own refusal of the event.
\<close>

theorem emission_fails_closed:
  assumes "fresh c0" and "c = emits J wr L es c0" and "collector_Emit J wr L e c = (Some x, t)"
  shows "ch_down t = ch_down c \<or>
    (\<exists>y. teeSink_Emit InMemorySink_Emit (LineSink_Emit J wr) e (ch_down c) = (Some y, ch_down t) \<and> x = Wrap (Pipeline ErrSink) y)"
  by (rule tee_archive.refused_or_unchanged [OF assms(3) [unfolded collector_Emit_def]])
    (simp add: assms(2) emits_chain fresh_chain [OF assms(1)])

theorem emission_fails_closed_witness:
  "\<exists>t x. collector_Emit ev_codec buffer_Write example_pb (ex_critical\<lparr>te_id := []\<rparr>) ex_chain = (Some x, t) \<and> ch_down t = ch_down ex_chain"
proof -
  have "\<exists>x. ValidateTelemetryEvent example_pb (Some (ex_critical\<lparr>te_id := []\<rparr>)) = Some x"
    by (simp add: ValidateTelemetryEvent_def require_fields_def fail_if_def)
  then have "\<exists>x t. collector_Emit ev_codec buffer_Write example_pb (ex_critical\<lparr>te_id := []\<rparr>) ex_chain = (Some (Wrap (Pipeline ErrDetection) x), t)"
    by (auto simp: collector_Emit_def IncidentSink_Emit_def Process_def)
  then obtain x t where t: "collector_Emit ev_codec buffer_Write example_pb (ex_critical\<lparr>te_id := []\<rparr>) ex_chain =
      (Some (Wrap (Pipeline ErrDetection) x), t)" by blast
  have c: "ex_chain = emits ev_codec buffer_Write example_pb [] ex_chain" by (simp add: emits_def)
  from emission_fails_closed [OF ex_fresh c t] show ?thesis using t by auto
qed

text \<open>
  An alert that was stored but got no incident gets none later: whatever events are
  emitted afterwards, the detection is suppressed as already emitted. (Detections are stored
  before the archive is checked for a repeated event id, so such alerts exist.)
\<close>

theorem stored_alert_without_incident_stays_so:
  assumes "fresh c0" and "c = emits J wr L es c0" and "k \<in> al_id ` set (ds_alerts (ch_detections c))"
    and "\<not> tracked (ch_incidents c) k"
  shows "\<not> tracked (ch_incidents (emits J wr L later c)) k"
  using emits_lost [OF _ assms(3,4)] emits_chain [OF fresh_chain [OF assms(1)]] assms(2) by blast

theorem stored_alert_without_incident_stays_so_witness:
  "al_id ex_alert9 \<in> al_id ` set (ds_alerts (ch_detections (emits ev_codec buffer_Write example_pb [ex_quiet, ex_critical] ex_chain))) \<and>
   \<not> tracked (ch_incidents (emits ev_codec buffer_Write example_pb [ex_critical]
       (emits ev_codec buffer_Write example_pb [ex_quiet, ex_critical] ex_chain))) (al_id ex_alert9)"
  using stored_alert_without_incident_stays_so [OF ex_fresh refl, of "al_id ex_alert9" ev_codec buffer_Write example_pb
      "[ex_quiet, ex_critical]" "[ex_critical]"] ex_lost by simp

end
