(* ===== verification/NetAddr.thy ===== *)
theory NetAddr
  imports Prelude
begin

text \<open>
  What the collector uses of \<open>net/netip\<close>, \<open>net\<close> and \<open>strconv\<close>: \<open>ParseAddr\<close> and \<open>String\<close> of
  addresses (IPv4, IPv6 with zones, embedded IPv4), \<open>SplitHostPort\<close> written after the
  documented behaviour of the Go standard library. An address is its bytes, four or sixteen
  with a zone.
\<close>

subsection \<open>Digits\<close>

definition hex_val :: "char \<Rightarrow> nat option" where
  "hex_val c = (let n = (of_char c :: nat) in
     if 48 \<le> n \<and> n \<le> 57 then Some (n - 48) else if 97 \<le> n \<and> n \<le> 102 then Some (n - 87)
     else if 65 \<le> n \<and> n \<le> 70 then Some (n - 55) else None)"

subsection \<open>Addresses\<close>

datatype Addr = V4 "nat list" | V6 "nat list" string

text \<open>\<open>parseIPv4Fields\<close>: the value and the number of digits of the field being read, the fields before it.\<close>

fun v4_fields :: "nat \<Rightarrow> nat \<Rightarrow> nat list \<Rightarrow> string \<Rightarrow> nat list option" where
  "v4_fields val dl fs [] = (if length fs < 3 then None else Some (fs @ [val]))"
| "v4_fields val dl fs (c # cs) =
     (if is_digit c then
        (if dl = 1 \<and> val = 0 then None
         else if 255 < 10 * val + digit_val c then None
         else v4_fields (10 * val + digit_val c) (dl + 1) fs cs)
      else if c = CHR ''.'' then
        (if dl = 0 \<or> cs = [] then None else if length fs = 3 then None else v4_fields 0 0 (fs @ [val]) cs)
      else None)"

text \<open>The hexadecimal digits of one field: its value, their number and the rest.\<close>

fun hex_run :: "nat \<Rightarrow> nat \<Rightarrow> string \<Rightarrow> (nat \<times> nat \<times> string) option" where
  "hex_run acc off [] = Some (acc, off, [])"
| "hex_run acc off (c # cs) =
     (case hex_val c of
        None \<Rightarrow> Some (acc, off, c # cs)
      | Some d \<Rightarrow> if 3 < off then None else hex_run (16 * acc + d) (off + 1) cs)"

text \<open>The loop of \<open>parseIPv6\<close>: bytes so far, the position of the ellipsis, the rest of the text.\<close>

fun v6_fields :: "nat \<Rightarrow> nat list \<Rightarrow> nat option \<Rightarrow> string \<Rightarrow> (nat list \<times> nat option \<times> string) option" where
  "v6_fields 0 ip el s = Some (ip, el, s)"
| "v6_fields (Suc k) ip el s =
     (case hex_run 0 0 s of
        None \<Rightarrow> None
      | Some (acc, off, rest) \<Rightarrow>
         if off = 0 then None
         else if has_prefix ''.'' rest then
           (if el = None \<and> length ip \<noteq> 12 then None
            else if 16 < length ip + 4 then None
            else (case v4_fields 0 0 [] s of None \<Rightarrow> None | Some fs \<Rightarrow> Some (ip @ fs, el, [])))
         else
           (let ip1 = ip @ [acc div 256, acc mod 256] in
            case rest of
              [] \<Rightarrow> Some (ip1, el, [])
            | c # r \<Rightarrow>
                if c \<noteq> CHR '':'' \<or> r = [] then None
                else if hd r = CHR '':'' then
                  (if el \<noteq> None then None
                   else if tl r = [] then Some (ip1, Some (length ip1), [])
                   else v6_fields k ip1 (Some (length ip1)) (tl r))
                else v6_fields k ip1 el r))"

definition expand :: "nat list \<Rightarrow> nat option \<Rightarrow> nat list option" where
  "expand ip el =
     (if length ip < 16
      then (case el of None \<Rightarrow> None | Some p \<Rightarrow> Some (take p ip @ replicate (16 - length ip) 0 @ drop p ip))
      else (if el = None then Some ip else None))"

definition parseIPv6 :: "string \<Rightarrow> Addr option" where
  "parseIPv6 s0 =
     (let s = takeWhile (\<lambda>c. c \<noteq> CHR ''%'') s0; z = dropWhile (\<lambda>c. c \<noteq> CHR ''%'') s0 in
      if z = ''%'' then None
      else if s = ''::'' then Some (V6 (replicate 16 0) (tl z))
      else
        (case (if has_prefix ''::'' s then v6_fields 8 [] (Some 0) (drop 2 s) else v6_fields 8 [] None s) of
           None \<Rightarrow> None
         | Some (ip, el, rest) \<Rightarrow>
             if rest \<noteq> [] then None
             else (case expand ip el of None \<Rightarrow> None | Some bs \<Rightarrow> Some (V6 bs (tl z)))))"

text \<open>\<open>netip.ParseAddr\<close>: the first of \<open>.\<close>, \<open>:\<close> and \<open>%\<close> decides.\<close>

definition ParseAddr :: "string \<Rightarrow> Addr option" where
  "ParseAddr s =
     (case dropWhile (\<lambda>c. c \<notin> {CHR ''.'', CHR '':'', CHR ''%''}) s of
        [] \<Rightarrow> None
      | c # _ \<Rightarrow>
          if c = CHR ''.'' then map_option V4 (v4_fields 0 0 [] s)
          else if c = CHR '':'' then parseIPv6 s else None)"

subsection \<open>Printing\<close>

definition string4 :: "nat list \<Rightarrow> string" where
  "string4 fs = join ''.'' (map utoa fs)"

fun hex_string :: "nat \<Rightarrow> string" where
  "hex_string n = (if n < 16 then [hex_nibble n] else hex_string (n div 16) @ [hex_nibble (n mod 16)])"

declare hex_string.simps [simp del]

fun fields16 :: "nat list \<Rightarrow> nat list" where
  "fields16 (a # b # bs) = (256 * a + b) # fields16 bs"
| "fields16 _ = []"

text \<open>The first longest run of at least two zero fields: its start and its length.\<close>

fun zero_run :: "nat \<Rightarrow> nat list \<Rightarrow> nat \<times> nat \<Rightarrow> nat \<times> nat" where
  "zero_run i [] best = best"
| "zero_run i (f # fs) best =
     (let l = length (takeWhile (\<lambda>x. x = 0) (f # fs))
      in zero_run (i + 1) fs (if 2 \<le> l \<and> snd best < l then (i, l) else best))"

definition string6 :: "nat list \<Rightarrow> string" where
  "string6 bs =
     (let fs = fields16 bs; r = zero_run 0 fs (0, 0)
      in if snd r = 0 then join '':'' (map hex_string fs)
         else join '':'' (map hex_string (take (fst r) fs)) @ ''::'' @
              join '':'' (map hex_string (drop (fst r + snd r) fs)))"

definition Is4In6 :: "nat list \<Rightarrow> bool" where
  "Is4In6 bs \<longleftrightarrow> take 12 bs = replicate 10 0 @ [255, 255]"

definition with_zone :: "string \<Rightarrow> string \<Rightarrow> string" where
  "with_zone z s = (if z = [] then s else s @ ''%'' @ z)"

fun Addr_String :: "Addr \<Rightarrow> string" where
  "Addr_String (V4 fs) = string4 fs"
| "Addr_String (V6 bs z) = with_zone z (if Is4In6 bs then ''::ffff:'' @ string4 (drop 12 bs) else string6 bs)"

subsection \<open>\<open>net.SplitHostPort\<close>\<close>

text \<open>The text before and after the last colon.\<close>

definition last_colon :: "string \<Rightarrow> (string \<times> string) option" where
  "last_colon s =
     (if CHR '':'' \<in> set s
      then Some (rev (tl (dropWhile (\<lambda>c. c \<noteq> CHR '':'') (rev s))), rev (takeWhile (\<lambda>c. c \<noteq> CHR '':'') (rev s)))
      else None)"

definition SplitHostPort :: "string \<Rightarrow> (string \<times> string) option" where
  "SplitHostPort s =
     (case last_colon s of
        None \<Rightarrow> None
      | Some (hd0, port) \<Rightarrow>
          if has_prefix ''['' s then
            (let inner = takeWhile (\<lambda>c. c \<noteq> CHR '']'') (tl s); rest = dropWhile (\<lambda>c. c \<noteq> CHR '']'') (tl s)
             in if rest = [] then None
                else if length (inner @ '']'') + 1 \<noteq> length hd0 then None
                else if CHR ''['' \<in> set inner \<or> CHR ''['' \<in> set port \<or> CHR '']'' \<in> set port then None
                else Some (inner, port))
          else if CHR '':'' \<in> set hd0 then None
          else if CHR ''['' \<in> set s \<or> CHR '']'' \<in> set s then None
          else Some (hd0, port))"

subsection \<open>Facts\<close>

lemma digit_is_digit: "d < 10 \<Longrightarrow> is_digit (digit d)"
  by (simp add: is_digit_def digit_def of_char_of)

lemma utoa_digits: "list_all is_digit (utoa n) \<and> utoa n \<noteq> []"
proof (induction n rule: utoa.induct)
  case (1 n)
  then show ?case by (simp add: utoa.simps [of n] digit_is_digit)
qed

lemma is_digit_simps [simp]: "\<not> is_digit (CHR ''.'')" "\<not> is_digit (CHR '':'')" "\<not> is_digit (CHR ''-'')" "\<not> is_digit (CHR ''+'')"
  "\<not> is_digit (CHR ''%'')" "\<not> is_digit (CHR ''['')" "\<not> is_digit (CHR '']'')"
  by (simp_all add: is_digit_def)

lemma utoa_no: "\<not> is_digit c \<Longrightarrow> c \<notin> set (utoa n)"
  using utoa_digits [of n] by (auto simp: list_all_iff)

lemma Atoi_itoa: "0 \<le> n \<Longrightarrow> n < 2 ^ 63 \<Longrightarrow> Atoi (itoa n) = Some n"
proof -
  assume n: "0 \<le> n" "n < 2 ^ 63"
  have u: "itoa n = utoa (nat n)" using n by (simp add: itoa_def)
  obtain c cs where c: "utoa (nat n) = c # cs" using utoa_digits [of "nat n"] by (cases "utoa (nat n)") auto
  have "c \<noteq> CHR ''-''" "c \<noteq> CHR ''+''" using utoa_digits [of "nat n"] by (auto simp: c)
  then show ?thesis using n utoa_digits [of "nat n"] atoi_utoa [of "nat n"] by (simp add: Atoi_def u c Let_def)
qed

text \<open>IPv4 text is a round trip.\<close>

lemma v4_digits:
  assumes "n \<le> 255"
  shows "v4_fields 0 0 fs (utoa n @ r) = v4_fields n (length (utoa n)) fs r"
proof -
  have dig: "is_digit (digit d)" "digit_val (digit d) = d" if "d < 10" for d
    using that by (simp_all add: digit_is_digit digit_val_digit)
  consider "n < 10" | "10 \<le> n" "n < 100" | "100 \<le> n" by linarith
  then show ?thesis
  proof cases
    case 1
    then show ?thesis by (simp add: utoa.simps [of n] dig)
  next
    case 2
    then have "n div 10 < 10" "n mod 10 < 10" "n div 10 \<noteq> 0" by simp_all
    then show ?thesis using 2 assms by (simp add: utoa.simps [of n] utoa.simps [of "n div 10"] dig)
  next
    case 3
    have d: "n div 10 div 10 < 10" "n div 10 mod 10 < 10" "n mod 10 < 10" "n div 10 div 10 \<noteq> 0" "\<not> n div 10 < 10" "\<not> n < 10"
      using 3 assms by simp_all
    have u: "utoa n = [digit (n div 10 div 10), digit (n div 10 mod 10), digit (n mod 10)]"
      using d by (simp add: utoa.simps [of n] utoa.simps [of "n div 10"] utoa.simps [of "n div 10 div 10"])
    have v: "10 * (n div 10 div 10) + n div 10 mod 10 = n div 10" by simp
    have w: "10 * (n div 10) + n mod 10 = n" by simp
    have le: "n div 10 \<le> 255" using assms by simp
    show ?thesis using d assms le unfolding u by (simp add: dig v w del: div_mult2_eq)
  qed
qed

lemma v4_fields_ok:
  "v4_fields val dl fs s = Some gs \<Longrightarrow> val \<le> 255 \<Longrightarrow> \<forall>x \<in> set fs. x \<le> 255 \<Longrightarrow> length fs \<le> 3 \<Longrightarrow>
     length gs = 4 \<and> (\<forall>x \<in> set gs. x \<le> 255)"
  by (induction val dl fs s rule: v4_fields.induct) (auto split: if_splits)

lemma v4_print:
  assumes "a \<le> 255" "b \<le> 255" "c \<le> 255" "d \<le> 255"
  shows "v4_fields 0 0 [] (string4 [a, b, c, d]) = Some [a, b, c, d]"
proof -
  have ne: "utoa n \<noteq> []" for n using utoa_digits by simp
  have s: "string4 [a, b, c, d] = utoa a @ ''.'' @ utoa b @ ''.'' @ utoa c @ ''.'' @ utoa d @ []" by (simp add: string4_def)
  show ?thesis unfolding s using assms ne [of a] ne [of b] ne [of c] ne [of d] by (simp add: v4_digits del: append_Nil2)
qed

lemma ParseAddr_V4: "ParseAddr s = Some (V4 fs) \<Longrightarrow> length fs = 4 \<and> (\<forall>x \<in> set fs. x \<le> 255)"
  using v4_fields_ok [of 0 0 "[]" s fs]
  by (auto simp: ParseAddr_def parseIPv6_def Let_def split: list.splits if_splits option.splits)

lemma ParseAddr_string4:
  assumes "ParseAddr s = Some (V4 fs)"
  shows "ParseAddr (string4 fs) = Some (V4 fs)"
proof -
  obtain a b c d where fs: "fs = [a, b, c, d]" and le: "a \<le> 255" "b \<le> 255" "c \<le> 255" "d \<le> 255"
    using ParseAddr_V4 [OF assms] by (auto simp: numeral_eq_Suc length_Suc_conv)
  have "\<forall>x \<in> set (utoa a). x \<notin> {CHR ''.'', CHR '':'', CHR ''%''}" using utoa_no [of _ a] by auto
  then have "dropWhile (\<lambda>c. c \<notin> {CHR ''.'', CHR '':'', CHR ''%''}) (utoa a @ ''.'' @ r) = ''.'' @ r" for r
    by (subst dropWhile_append2) auto
  moreover have "string4 fs = utoa a @ ''.'' @ utoa b @ ''.'' @ utoa c @ ''.'' @ utoa d" by (simp add: string4_def fs)
  ultimately show ?thesis using v4_print [OF le] by (simp add: ParseAddr_def fs)
qed

text \<open>Splitting a host and a port that were put together.\<close>

lemma last_colon_append: "CHR '':'' \<notin> set d \<Longrightarrow> last_colon (h @ '':'' @ d) = Some (h, d)"
proof -
  assume d: "CHR '':'' \<notin> set d"
  have r: "rev (h @ '':'' @ d) = rev d @ CHR '':'' # rev h" by simp
  have "\<forall>x \<in> set (rev d). x \<noteq> CHR '':''" using d by auto
  then show ?thesis unfolding last_colon_def r by (simp add: dropWhile_append2 takeWhile_append2 del: set_rev)
qed

lemma SplitHostPort_plain:
  assumes "CHR '':'' \<notin> set d" "CHR '':'' \<notin> set h" "CHR ''['' \<notin> set (h @ d)" "CHR '']'' \<notin> set (h @ d)"
  shows "SplitHostPort (h @ '':'' @ d) = Some (h, d)"
proof -
  have "\<not> has_prefix ''['' (h @ '':'' @ d)" using assms(3) by (cases h) auto
  then show ?thesis using assms last_colon_append [OF assms(1)] by (simp add: SplitHostPort_def)
qed

lemma SplitHostPort_bracket:
  assumes "CHR '':'' \<notin> set d" "CHR ''['' \<notin> set (h @ d)" "CHR '']'' \<notin> set (h @ d)"
  shows "SplitHostPort (''['' @ h @ '']'' @ '':'' @ d) = Some (h, d)"
proof -
  have l: "last_colon (''['' @ h @ '']'' @ '':'' @ d) = Some (''['' @ h @ '']'', d)"
    using last_colon_append [OF assms(1), of "''['' @ h @ '']''"] by simp
  have "\<forall>x \<in> set h. x \<noteq> CHR '']''" using assms(3) by auto
  then have t: "takeWhile (\<lambda>c. c \<noteq> CHR '']'') (h @ '']'' @ r) = h" "dropWhile (\<lambda>c. c \<noteq> CHR '']'') (h @ '']'' @ r) = '']'' @ r" for r
    by (simp_all add: takeWhile_append2 dropWhile_append2)
  have tt: "tl (''['' @ h @ '']'' @ '':'' @ d) = h @ '']'' @ '':'' @ d" by simp
  show ?thesis unfolding SplitHostPort_def l option.case prod.case Let_def tt t using assms by simp
qed

lemma set_tl_dropWhile: "x \<in> set (tl (dropWhile P xs)) \<Longrightarrow> x \<in> set xs"
  by (induction xs) (auto split: if_splits)

lemma last_colon_sub: "last_colon s = Some (h, d) \<Longrightarrow> set h \<subseteq> set s"
  using set_tl_dropWhile [of _ "\<lambda>c. c \<noteq> CHR '':''" "rev s"] by (auto simp: last_colon_def split: if_splits)

lemma SplitHostPort_parts:
  assumes "SplitHostPort s = Some (h, d)"
  shows "CHR ''['' \<notin> set h \<and> CHR '']'' \<notin> set h"
proof (cases "has_prefix ''['' s")
  case True
  then have h: "h = takeWhile (\<lambda>c. c \<noteq> CHR '']'') (tl s)" "CHR ''['' \<notin> set h"
    using assms by (auto simp: SplitHostPort_def Let_def split: option.splits if_splits)
  then show ?thesis by (auto dest: set_takeWhileD)
next
  case False
  then obtain q where "last_colon s = Some (h, q)" "CHR ''['' \<notin> set s" "CHR '']'' \<notin> set s"
    using assms by (auto simp: SplitHostPort_def Let_def split: option.splits if_splits)
  then show ?thesis using last_colon_sub by blast
qed

end
