(* ===== verification/Assets.thy ===== *)
theory Assets
  imports NetAddr Boundary Sha256 "HOL-Library.Product_Lexorder"
begin

text \<open>
  Asset identity, lifecycle and discovery: \<open>canonicalize.go\<close>, \<open>lifecycle.go\<close> and \<open>discovery.go\<close> of
  \<open>internal/asset\<close>. \<open>net/url\<close> is an argument: a function from the text to the parts of the URL
  that the code reads. Functions that change an asset in place return the changed asset.
\<close>

subsection \<open>Canonical identifiers\<close>

abbreviation (input) ASSET_TYPE_HOST :: enum where "ASSET_TYPE_HOST \<equiv> 1"
abbreviation (input) ASSET_TYPE_CONTAINER :: enum where "ASSET_TYPE_CONTAINER \<equiv> 2"
abbreviation (input) ASSET_TYPE_SERVICE :: enum where "ASSET_TYPE_SERVICE \<equiv> 3"
abbreviation (input) ASSET_TYPE_NETWORK :: enum where "ASSET_TYPE_NETWORK \<equiv> 4"
abbreviation (input) ASSET_TYPE_CLOUD_RESOURCE :: enum where "ASSET_TYPE_CLOUD_RESOURCE \<equiv> 5"
abbreviation (input) ASSET_TYPE_USER_DEVICE :: enum where "ASSET_TYPE_USER_DEVICE \<equiv> 6"
abbreviation (input) ASSET_TYPE_OTHER :: enum where "ASSET_TYPE_OTHER \<equiv> 7"
abbreviation (input) ASSET_TYPE_DOMAIN :: enum where "ASSET_TYPE_DOMAIN \<equiv> 8"
abbreviation (input) ASSET_TYPE_IP_ADDRESS :: enum where "ASSET_TYPE_IP_ADDRESS \<equiv> 9"
abbreviation (input) ASSET_TYPE_URL :: enum where "ASSET_TYPE_URL \<equiv> 10"
abbreviation (input) ASSET_TYPE_APPLICATION :: enum where "ASSET_TYPE_APPLICATION \<equiv> 11"

text \<open>The parts of a parsed URL that \<open>canonicalURL\<close> reads.\<close>

record URL =
  ur_Scheme :: string
  ur_Host :: string
  ur_User :: bool
  ur_Hostname :: string
  ur_Port :: string
  ur_EscapedPath :: string
  ur_RawQuery :: string

type_synonym urllib = "string \<Rightarrow> URL option"

definition bad_canon :: "string \<Rightarrow> err" where
  "bad_canon t = Sent (Asset ErrCanonicalize) t"

definition label_char :: "char \<Rightarrow> bool" where
  "label_char c = (let n = (of_char c :: nat) in (97 \<le> n \<and> n \<le> 122) \<or> (48 \<le> n \<and> n \<le> 57) \<or> c = CHR ''-'')"

definition bad_label :: "string \<Rightarrow> string \<Rightarrow> goerr" where
  "bad_label raw l = first_err [
     fail_if (l = [] \<or> 63 < length l) (bad_canon (''bad domain label in '' @ quote raw)),
     fail_if (\<not> list_all label_char l) (bad_canon (''bad character in '' @ quote raw)),
     fail_if (has_prefix ''-'' l \<or> has_suffix ''-'' l) (bad_canon (''bad hyphenation in '' @ quote raw))]"

definition TrimSuffix_dot :: "string \<Rightarrow> string" where
  "TrimSuffix_dot s = (if has_suffix ''.'' s then butlast s else s)"

definition canonicalDomain :: "string \<Rightarrow> string res" where
  "canonicalDomain raw =
     (let s = TrimSuffix_dot (ToLower (TrimSpace raw))
      in if s = [] \<or> 253 < length s then Inl (bad_canon (''bad domain length '' @ quote raw))
         else (case first_err (map (bad_label raw) (split_on (CHR ''.'') s)) of
                 Some e \<Rightarrow> Inl e
               | None \<Rightarrow> Inr s))"

definition canonicalIP :: "string \<Rightarrow> string res" where
  "canonicalIP raw =
     (case ParseAddr (TrimSpace raw) of
        None \<Rightarrow> Inl (bad_canon (''unparsable IP '' @ quote raw))
      | Some a \<Rightarrow> Inr (Addr_String a))"

definition canonicalURL :: "urllib \<Rightarrow> string \<Rightarrow> string res" where
  "canonicalURL U raw =
     (case U (TrimSpace raw) of
        None \<Rightarrow> Inl (bad_canon (''unparsable URL '' @ quote raw))
      | Some u \<Rightarrow>
         if ur_Host u = [] then Inl (bad_canon (''unparsable URL '' @ quote raw))
         else if ur_User u then Inl (bad_canon ''userinfo is not asset identity'')
         else
          (let scheme = ToLower (ur_Scheme u); host = ToLower (ur_Hostname u) in
           if scheme \<noteq> ''http'' \<and> scheme \<noteq> ''https'' then Inl (bad_canon (''unsupported URL scheme '' @ quote raw))
           else if host = [] then Inl (bad_canon (''empty URL host '' @ quote raw))
           else
            (let port = (if (scheme = ''http'' \<and> ur_Port u = ''80'') \<or> (scheme = ''https'' \<and> ur_Port u = ''443'')
                         then [] else ur_Port u);
                 path = (if ur_EscapedPath u = [] then ''/'' else ur_EscapedPath u);
                 query = (if ur_RawQuery u \<noteq> [] then ''?'' @ ur_RawQuery u else [])
             in if port \<noteq> [] \<and> Atoi port = None then Inl (bad_canon (''bad URL port '' @ quote raw))
                else Inr (scheme @ ''://'' @ (if port \<noteq> [] then host @ '':'' @ port else host) @ path @ query))))"

definition canonicalHost :: "string \<Rightarrow> string res" where
  "canonicalHost raw =
     (let s = ToLower (TrimSpace raw)
      in if s = [] then Inl (bad_canon ''empty hostname'')
         else if list_ex (\<lambda>c. c \<in> {CHR '' '', CHR 0x09, CHR ''/''}) s then Inl (bad_canon (''bad hostname '' @ quote raw))
         else Inr s)"

definition canonicalService :: "string \<Rightarrow> string res" where
  "canonicalService raw =
     (case SplitHostPort (TrimSpace raw) of
        None \<Rightarrow> Inl (bad_canon (''want host:port, got '' @ quote raw))
      | Some (h, port) \<Rightarrow>
         (let host = ToLower h in
          if host = [] then Inl (bad_canon (''empty service host '' @ quote raw))
          else (case Atoi port of
                  None \<Rightarrow> Inl (bad_canon (''bad service port '' @ quote raw))
                | Some n \<Rightarrow>
                    if n < 1 \<or> 65535 < n then Inl (bad_canon (''bad service port '' @ quote raw))
                    else Inr ((if contains host '':'' \<and> \<not> has_prefix ''['' host then ''['' @ host @ '']'' else host)
                           @ '':'' @ itoa n))))"

definition canonicalOpaque :: "string \<Rightarrow> string res" where
  "canonicalOpaque raw = (let s = TrimSpace raw in if s = [] then Inl (bad_canon ''empty identifier'') else Inr s)"

definition Canonicalize :: "urllib \<Rightarrow> enum \<Rightarrow> string \<Rightarrow> string res" where
  "Canonicalize U typ raw =
     (if typ = ASSET_TYPE_DOMAIN then canonicalDomain raw
      else if typ = ASSET_TYPE_IP_ADDRESS then canonicalIP raw
      else if typ = ASSET_TYPE_URL then canonicalURL U raw
      else if typ = ASSET_TYPE_HOST then canonicalHost raw
      else if typ = ASSET_TYPE_SERVICE then canonicalService raw
      else if typ \<in> {ASSET_TYPE_APPLICATION, ASSET_TYPE_CONTAINER, ASSET_TYPE_CLOUD_RESOURCE, ASSET_TYPE_USER_DEVICE,
                     ASSET_TYPE_NETWORK, ASSET_TYPE_OTHER} then canonicalOpaque raw
      else Inl (bad_canon (''unknown asset type '' @ itoa typ)))"

definition asset_IDFor :: "enum \<Rightarrow> string \<Rightarrow> string" where
  "asset_IDFor typ canonical = ''ast-'' @ id16 (itoa typ @ US @ canonical)"

definition IdentifierKind :: "enum \<Rightarrow> string" where
  "IdentifierKind typ =
     (if typ = ASSET_TYPE_DOMAIN then ''domain'' else if typ = ASSET_TYPE_IP_ADDRESS then ''ip''
      else if typ = ASSET_TYPE_URL then ''url'' else if typ = ASSET_TYPE_HOST then ''host''
      else if typ = ASSET_TYPE_SERVICE then ''service'' else if typ = ASSET_TYPE_APPLICATION then ''application''
      else if typ = ASSET_TYPE_CONTAINER then ''container'' else if typ = ASSET_TYPE_CLOUD_RESOURCE then ''cloud-resource''
      else if typ = ASSET_TYPE_USER_DEVICE then ''user-device'' else if typ = ASSET_TYPE_NETWORK then ''network''
      else ''other'')"

subsection \<open>Lifecycle\<close>

definition nextStates :: "enum \<Rightarrow> enum list" where
  "nextStates s =
     (if s = ASSET_STATUS_UNSPECIFIED \<or> s = ASSET_STATUS_DISCOVERED then [ASSET_STATUS_ACTIVE]
      else if s = ASSET_STATUS_ACTIVE then [ASSET_STATUS_STALE, ASSET_STATUS_RETIRED]
      else if s = ASSET_STATUS_STALE then [ASSET_STATUS_ACTIVE, ASSET_STATUS_RETIRED]
      else [])"

definition asset_Transition :: "pblib \<Rightarrow> Asset option \<Rightarrow> enum \<Rightarrow> gotime \<Rightarrow> Asset res" where
  "asset_Transition L p to now =
     (case p of None \<Rightarrow> Inl (Sent (Asset ErrLifecycle) ''nil asset'') | Some a \<Rightarrow>
        if to = ASSET_STATUS_UNSPECIFIED then Inl (Sent (Asset ErrLifecycle) ''target must be explicit'')
        else if to \<notin> set (nextStates (as_status a)) then Inl (Sent (Asset ErrLifecycle) ''illegal move'')
        else if IsZero now then Inl (Sent (Asset ErrLifecycle) ''transition timestamp is zero'')
        else Inr (a\<lparr>as_status := to, as_last_seen := Some (ts_New L now)\<rparr>))"

definition Touch :: "pblib \<Rightarrow> Asset option \<Rightarrow> gotime \<Rightarrow> Asset res" where
  "Touch L p now =
     (case p of None \<Rightarrow> Inl (Sent (Asset ErrLifecycle) ''nil asset'') | Some a \<Rightarrow>
        if IsZero now then Inl (Sent (Asset ErrLifecycle) ''observation timestamp is zero'')
        else
         (let a1 = a\<lparr>as_last_seen := Some (ts_New L now)\<rparr>
          in Inr (if as_status a \<in> {ASSET_STATUS_STALE, ASSET_STATUS_DISCOVERED, ASSET_STATUS_UNSPECIFIED}
                  then a1\<lparr>as_status := ASSET_STATUS_ACTIVE\<rparr> else a1)))"

subsection \<open>Discovery\<close>

record asset_Observation =
  ob_Source :: string
  ob_Type :: enum
  ob_Raw :: string
  ob_ObservedAt :: gotime
  ob_Environment :: string
  ob_Attributes :: attrs

text \<open>The twelve relationship kinds.\<close>

definition relation_kinds :: "string list" where
  "relation_kinds = [''CONTAINS'', ''COMMUNICATES_WITH'', ''EXPOSES'', ''SERVED_BY'', ''RUNS'', ''HOSTED_ON'', ''PART_OF'',
     ''BELONGS_TO'', ''ACCESSES'', ''MEMBER_OF'', ''ASSUMES'', ''AUTHENTICATES_TO'']"

record Relationship =
  rel_ParentID :: string
  rel_ChildID :: string
  rel_Kind :: string
  rel_Source :: string
  rel_ObservedAt :: gotime

definition Relationship_Validate :: "Relationship \<Rightarrow> goerr" where
  "Relationship_Validate r = first_err [
     fail_if (rel_ParentID r = [] \<or> rel_ChildID r = []) (Plain ''asset: relationship endpoints required''),
     fail_if (rel_ParentID r = rel_ChildID r) (Plain ''asset: self-link refused''),
     fail_if (rel_Kind r \<notin> set relation_kinds) (Plain (''asset: unknown relationship kind '' @ quote (rel_Kind r))),
     fail_if (rel_Source r = []) (Plain ''asset: relationship source required''),
     fail_if (IsZero (rel_ObservedAt r)) (Plain ''asset: relationship timestamp zero'')]"

definition strict_types :: "enum set" where
  "strict_types = {ASSET_TYPE_DOMAIN, ASSET_TYPE_IP_ADDRESS, ASSET_TYPE_URL, ASSET_TYPE_HOST, ASSET_TYPE_SERVICE}"

definition CheckCanonical :: "urllib \<Rightarrow> Asset option \<Rightarrow> goerr" where
  "CheckCanonical U p =
     (case p of None \<Rightarrow> Some (Plain ''asset: nil record'') | Some a \<Rightarrow>
        if as_type a \<in> strict_types
        then (case Canonicalize U (as_type a) (as_name a) of
                Inl _ \<Rightarrow> Some (Sent (Asset ErrDiscovery) (''name '' @ quote (as_name a) @ '' is not canonical''))
              | Inr c \<Rightarrow> fail_if (c \<noteq> as_name a)
                  (Sent (Asset ErrDiscovery) (''name '' @ quote (as_name a) @ '' is not canonical'')))
        else None)"

text \<open>The asset \<open>Normalize\<close> builds.\<close>

definition discovered :: "pblib \<Rightarrow> asset_Observation \<Rightarrow> string \<Rightarrow> Asset" where
  "discovered L obs canonical =
     \<lparr> as_id = asset_IDFor (ob_Type obs) canonical, as_type = ob_Type obs, as_name = canonical,
       as_identifiers = [\<lparr>ai_type = IdentifierKind (ob_Type obs), ai_value = canonical\<rparr>],
       as_criticality = SEVERITY_UNSPECIFIED, as_environment = TrimSpace (ob_Environment obs),
       as_status = ASSET_STATUS_DISCOVERED, as_first_seen = Some (ts_New L (ob_ObservedAt obs)),
       as_last_seen = Some (ts_New L (ob_ObservedAt obs)), as_attributes = ob_Attributes obs \<rparr>"

definition asset_Normalize :: "pblib \<Rightarrow> urllib \<Rightarrow> asset_Observation \<Rightarrow> Asset res" where
  "asset_Normalize L U obs =
     (if TrimSpace (ob_Source obs) = [] then Inl (Sent (Asset ErrDiscovery) ''source is required'')
      else if \<not> AssetType_known (ob_Type obs) \<or> ob_Type obs = 0
        then Inl (Sent (Asset ErrDiscovery) ''explicit asset type required'')
      else (case Canonicalize U (ob_Type obs) (ob_Raw obs) of
              Inl e \<Rightarrow> Inl e
            | Inr canonical \<Rightarrow>
               if IsZero (ob_ObservedAt obs) then Inl (Sent (Asset ErrDiscovery) ''observed_at is zero'')
               else (case ValidateAsset L (Some (discovered L obs canonical)) of
                       Some e \<Rightarrow> Inl e
                     | None \<Rightarrow> Inr (discovered L obs canonical))))"

text \<open>The text before and after the first occurrence of a separator.\<close>

fun cut :: "string \<Rightarrow> string \<Rightarrow> (string \<times> string) option" where
  "cut sep [] = (if sep = [] then Some ([], []) else None)"
| "cut sep (c # cs) =
     (if has_prefix sep (c # cs) then Some ([], drop (length sep) (c # cs))
      else map_option (\<lambda>(a, b). (c # a, b)) (cut sep cs))"

definition splitHostPort :: "string \<Rightarrow> (string \<times> string) option" where
  "splitHostPort s =
     (if has_prefix ''['' s then
        (case cut '']'' s of
           None \<Rightarrow> None
         | Some (a, rest) \<Rightarrow> if \<not> has_prefix '':'' rest then None else Some (tl a, tl rest))
      else
        (case last_colon s of
           None \<Rightarrow> None
         | Some (host, port) \<Rightarrow>
             if contains host '':'' then None else if \<not> list_all is_digit port then None else Some (host, port)))"

definition splitURLHostPort :: "string \<Rightarrow> string \<times> string" where
  "splitURLHostPort canonical =
     (case cut ''://'' canonical of
        None \<Rightarrow> ([], [])
      | Some (scheme, rest0) \<Rightarrow>
         (let rest = takeWhile (\<lambda>c. c \<noteq> CHR ''/'') rest0
          in case splitHostPort rest of
               Some hp \<Rightarrow> hp
             | None \<Rightarrow> if scheme = ''http'' then (rest, ''80'') else (rest, ''443'')))"

definition mkDerived :: "pblib \<Rightarrow> urllib \<Rightarrow> Asset \<Rightarrow> string \<Rightarrow> gotime \<Rightarrow> enum \<Rightarrow> string \<Rightarrow> Asset option" where
  "mkDerived L U a source observedAt typ canonical =
     (case asset_Normalize L U \<lparr>ob_Source = source @ '' (derived)'', ob_Type = typ, ob_Raw = canonical,
         ob_ObservedAt = observedAt, ob_Environment = as_environment a,
         ob_Attributes = fmap_of_list [(''blueveil.derived_from'', as_id a),
           (''blueveil.derivation'', ''url-host-decomposition'')]\<rparr> of
        Inl _ \<Rightarrow> None
      | Inr d \<Rightarrow> Some d)"

definition contains_rel :: "string \<Rightarrow> gotime \<Rightarrow> string \<Rightarrow> string \<Rightarrow> Relationship" where
  "contains_rel source observedAt parent child = \<lparr>rel_ParentID = parent, rel_ChildID = child, rel_Kind = ''CONTAINS'',
     rel_Source = source, rel_ObservedAt = observedAt\<rparr>"

text \<open>The host of a URL as an address or a domain, and its port as a service, each with its link.\<close>

definition derived_host :: "pblib \<Rightarrow> urllib \<Rightarrow> Asset \<Rightarrow> string \<Rightarrow> gotime \<Rightarrow> string \<Rightarrow> (Asset \<times> Relationship) list" where
  "derived_host L U a source observedAt host =
     (let link = (\<lambda>d. case d of None \<Rightarrow> [] | Some x \<Rightarrow> [(x, contains_rel source observedAt (as_id x) (as_id a))])
      in case Canonicalize U ASSET_TYPE_IP_ADDRESS host of
           Inr ip \<Rightarrow> link (mkDerived L U a source observedAt ASSET_TYPE_IP_ADDRESS ip)
         | Inl _ \<Rightarrow>
            (case Canonicalize U ASSET_TYPE_DOMAIN host of
               Inr dn \<Rightarrow> link (mkDerived L U a source observedAt ASSET_TYPE_DOMAIN dn)
             | Inl _ \<Rightarrow> []))"

definition derived_service :: "pblib \<Rightarrow> urllib \<Rightarrow> Asset \<Rightarrow> string \<Rightarrow> gotime \<Rightarrow> string \<Rightarrow> string \<Rightarrow> (Asset \<times> Relationship) list" where
  "derived_service L U a source observedAt host port =
     (if port = [] then []
      else (case Canonicalize U ASSET_TYPE_SERVICE (host @ '':'' @ port) of
              Inl _ \<Rightarrow> []
            | Inr svc \<Rightarrow>
               (case mkDerived L U a source observedAt ASSET_TYPE_SERVICE svc of
                  None \<Rightarrow> []
                | Some x \<Rightarrow> [(x, contains_rel source observedAt (as_id a) (as_id x))])))"

definition Decompose :: "pblib \<Rightarrow> urllib \<Rightarrow> Asset option \<Rightarrow> string \<Rightarrow> gotime \<Rightarrow> Asset list \<times> Relationship list" where
  "Decompose L U p source observedAt =
     (case p of None \<Rightarrow> ([], []) | Some a \<Rightarrow>
        if IsZero observedAt \<or> as_type a \<noteq> ASSET_TYPE_URL then ([], [])
        else
         (case splitURLHostPort (as_name a) of (host, port) \<Rightarrow>
            if host = [] then ([], [])
            else
             (let ds = derived_host L U a source observedAt host @ derived_service L U a source observedAt host port
              in (sort_key as_id (map fst ds), sort_key (\<lambda>r. (rel_ParentID r, rel_ChildID r)) (map snd ds)))))"

subsection \<open>Facts about the canonical forms\<close>

lemma is_space_lower [simp]: "is_space (lower_char c) = is_space c"
proof -
  have "of_char c < (256::nat)" by (metis mod_less_divisor of_char_mod_256 zero_less_numeral)
  show ?thesis
  proof (cases "65 \<le> (of_char c :: nat) \<and> of_char c \<le> (90 :: nat)")
    case True
    have "\<not> is_space c" using True by (auto simp: is_space_def)
    moreover have "\<not> is_space (lower_char c)"
    proof
      assume "is_space (lower_char c)"
      then have "(of_char (lower_char c) :: nat) \<le> 32" by (auto simp: is_space_def)
      then show False using True by (simp add: lower_char_def Let_def of_char_of)
    qed
    ultimately show ?thesis by simp
  next
    case False
    then show ?thesis by (auto simp: lower_char_def Let_def)
  qed
qed

lemma dropWhile_map_space: "dropWhile is_space (map lower_char s) = map lower_char (dropWhile is_space s)"
  by (induction s) auto

lemma TrimSpace_ToLower: "TrimSpace (ToLower s) = ToLower (TrimSpace s)"
  by (simp add: TrimSpace_def ToLower_def dropWhile_map_space rev_map)

lemma dropWhile_space_id: "s = [] \<or> \<not> is_space (hd s) \<Longrightarrow> dropWhile is_space s = s"
  by (cases s) auto

lemma TrimSpace_id: "s = [] \<or> \<not> is_space (hd s) \<and> \<not> is_space (last s) \<Longrightarrow> TrimSpace s = s"
  by (auto simp: TrimSpace_def dropWhile_space_id hd_rev)

lemma hd_dropWhile_space: "dropWhile is_space s \<noteq> [] \<Longrightarrow> \<not> is_space (hd (dropWhile is_space s))"
  by (rule hd_dropWhile)

lemma TrimSpace_ends: "TrimSpace s \<noteq> [] \<Longrightarrow> \<not> is_space (hd (TrimSpace s)) \<and> \<not> is_space (last (TrimSpace s))"
proof -
  assume ne: "TrimSpace s \<noteq> []"
  let ?t = "dropWhile is_space s" and ?u = "dropWhile is_space (rev (dropWhile is_space s))"
  have u: "?u \<noteq> []" using ne by (simp add: TrimSpace_def)
  have "last (TrimSpace s) = hd ?u" using u by (simp add: TrimSpace_def last_rev)
  moreover have "hd (TrimSpace s) = hd ?t"
  proof -
    have "?t = rev ?u @ rev (takeWhile is_space (rev ?t))"
      by (metis rev_append rev_rev_ident takeWhile_dropWhile_id)
    then show ?thesis using u unfolding TrimSpace_def by (metis hd_append2 rev_is_Nil_conv)
  qed
  moreover have "?t \<noteq> []" using u by (metis dropWhile.simps(1) rev.simps(1))
  ultimately show ?thesis using hd_dropWhile_space u by metis
qed

lemma TrimSpace_idem [simp]: "TrimSpace (TrimSpace s) = TrimSpace s"
  using TrimSpace_ends TrimSpace_id by blast

lemma canonicalOpaque_idem: "canonicalOpaque raw = Inr c \<Longrightarrow> canonicalOpaque c = Inr c"
  by (auto simp: canonicalOpaque_def Let_def split: if_splits)

lemma canonicalHost_idem: "canonicalHost raw = Inr c \<Longrightarrow> canonicalHost c = Inr c"
  by (auto simp: canonicalHost_def Let_def TrimSpace_ToLower split: if_splits)

text \<open>Domains: every label is non-empty and of label characters, so nothing is left to trim or fold.\<close>

lemma split_on_chars: "\<forall>l \<in> set (split_on sep s). list_all P l \<Longrightarrow> P sep \<Longrightarrow> list_all P s"
proof (induction sep s rule: split_on.induct)
  case (2 sep c cs)
  then show ?case by (auto split: if_splits list.splits)
qed simp

lemma split_on_dot_end: "\<exists>ws. ws \<noteq> [] \<and> split_on sep (s @ [sep]) = ws @ [[]]"
proof (induction s)
  case (Cons a s)
  then obtain ws where ws: "ws \<noteq> []" "split_on sep (s @ [sep]) = ws @ [[]]" by blast
  then show ?case
  proof (cases "a = sep")
    case False
    obtain w ws1 where "ws = w # ws1" using ws(1) by (cases ws) auto
    then show ?thesis using ws False by (intro exI [of _ "(a # w) # ws1"]) simp
  qed (use ws in \<open>auto intro!: exI [of _ "[] # ws"]\<close>)
qed simp

definition domain_char :: "char \<Rightarrow> bool" where
  "domain_char c = (label_char c \<or> c = CHR ''.'')"

lemma domain_char_plain: "domain_char c \<Longrightarrow> \<not> is_space c \<and> lower_char c = c"
  by (auto simp: domain_char_def label_char_def is_space_def lower_char_def Let_def)

lemma bad_label_None: "bad_label raw l = None \<longleftrightarrow>
    l \<noteq> [] \<and> length l \<le> 63 \<and> list_all label_char l \<and> \<not> has_prefix ''-'' l \<and> \<not> has_suffix ''-'' l"
  by (auto simp: bad_label_def)

lemma canonicalDomain_idem:
  assumes "canonicalDomain raw = Inr c" shows "canonicalDomain c = Inr c"
proof -
  have c: "c \<noteq> []" "length c \<le> 253" and labels: "\<forall>l \<in> set (split_on (CHR ''.'') c). bad_label raw l = None"
    using assms by (auto simp: canonicalDomain_def Let_def first_err_None_iff split: if_splits option.splits)
  have "list_all domain_char c"
    by (rule split_on_chars) (use labels in \<open>auto simp: bad_label_None domain_char_def list_all_iff\<close>)
  then have plain: "\<And>x. x \<in> set c \<Longrightarrow> \<not> is_space x \<and> lower_char x = x" using domain_char_plain by (auto simp: list_all_iff)
  have "TrimSpace c = c" using plain c(1) by (intro TrimSpace_id) auto
  moreover have "ToLower c = c" using plain by (simp add: ToLower_def map_idI)
  moreover have "TrimSuffix_dot c = c"
  proof -
    have "\<not> has_suffix ''.'' c"
    proof
      assume "has_suffix ''.'' c"
      then obtain t where "c = t @ ''.''" by (auto simp: has_suffix_def has_prefix_iff)
      then have "[] \<in> set (split_on (CHR ''.'') c)" using split_on_dot_end [of "CHR ''.''" t] by auto
      then show False using labels by (auto simp: bad_label_None)
    qed
    then show ?thesis by (simp add: TrimSuffix_dot_def)
  qed
  moreover have "first_err (map (bad_label c) (split_on (CHR ''.'') c)) = None"
    using labels by (simp add: first_err_None_iff bad_label_None)
  ultimately show ?thesis using c by (simp add: canonicalDomain_def)
qed

lemma TrimSpace_string4:
  assumes "ParseAddr x = Some (V4 fs)" shows "TrimSpace (string4 fs) = string4 fs"
proof -
  obtain a b c d where fs: "fs = [a, b, c, d]"
    using ParseAddr_V4 [OF assms] by (auto simp: numeral_eq_Suc length_Suc_conv)
  have s: "string4 fs = utoa a @ (''.'' @ utoa b @ ''.'' @ utoa c @ ''.'') @ utoa d" by (simp add: string4_def fs)
  have ne: "utoa n \<noteq> []" and dig: "\<And>x. x \<in> set (utoa n) \<Longrightarrow> \<not> is_space x" for n
    using utoa_digits [of n] by (auto simp: list_all_iff is_digit_def is_space_def)
  have "hd (string4 fs) \<in> set (utoa a)" "last (string4 fs) \<in> set (utoa d)" unfolding s using ne by simp_all
  then show ?thesis using dig by (intro TrimSpace_id) blast
qed

lemma canonicalIP_idem:
  assumes "canonicalIP raw = Inr c" and "ParseAddr (TrimSpace raw) = Some (V4 fs)"
  shows "canonicalIP c = Inr c"
  using assms ParseAddr_string4 [OF assms(2)] TrimSpace_string4 [OF assms(2)] by (simp add: canonicalIP_def)

text \<open>Services, unless a bracketed host begins with a space.\<close>

lemma lower_bracket: "lower_char c = CHR ''['' \<Longrightarrow> c = CHR ''[''" "lower_char c = CHR '']'' \<Longrightarrow> c = CHR '']''"
  by (auto simp: lower_char_def Let_def split: if_splits dest!: arg_cong [of _ _ "of_char :: char \<Rightarrow> nat"] simp: of_char_of)

lemma canonicalService_idem:
  assumes "canonicalService raw = Inr c" and trimmed: "TrimSpace c = c"
  shows "canonicalService c = Inr c"
proof -
  obtain h port where sp: "SplitHostPort (TrimSpace raw) = Some (h, port)"
    using assms(1) by (auto simp: canonicalService_def split: option.splits)
  then obtain n where at: "Atoi port = Some n" using assms(1) by (auto simp: canonicalService_def Let_def split: option.splits if_splits)
  then have ne: "ToLower h \<noteq> []" and n: "1 \<le> n" "n \<le> 65535"
    and c: "c = (if contains (ToLower h) '':'' \<and> \<not> has_prefix ''['' (ToLower h) then ''['' @ ToLower h @ '']'' else ToLower h) @ '':'' @ itoa n"
    using assms(1) sp by (auto simp: canonicalService_def Let_def split: if_splits)
  let ?h = "ToLower h"
  have br: "CHR ''['' \<notin> set ?h" "CHR '']'' \<notin> set ?h"
    using SplitHostPort_parts [OF sp] lower_bracket unfolding ToLower_def set_map by (metis imageE)+
  have d: "CHR '':'' \<notin> set (itoa n)" "CHR ''['' \<notin> set (itoa n)" "CHR '']'' \<notin> set (itoa n)"
    using n by (simp_all add: itoa_def utoa_no)
  have nb: "\<not> has_prefix ''['' ?h" using br(1) by (cases ?h) auto
  have colon: "contains ?h '':'' \<longleftrightarrow> CHR '':'' \<in> set ?h" by (auto simp: contains_iff in_set_conv_decomp)
  have "SplitHostPort c = Some (?h, itoa n)"
  proof (cases "CHR '':'' \<in> set ?h")
    case True
    then show ?thesis using SplitHostPort_bracket [of "itoa n" ?h] br d nb by (simp add: c colon)
  next
    case False
    then show ?thesis using SplitHostPort_plain [of "itoa n" ?h] br d by (simp add: c colon)
  qed
  moreover have "Atoi (itoa n) = Some n" using n by (intro Atoi_itoa) simp_all
  ultimately have "canonicalService c = Inr ((if contains ?h '':'' \<and> \<not> has_prefix ''['' ?h then ''['' @ ?h @ '']'' else ?h) @ '':'' @ itoa n)"
    using ne n by (simp add: canonicalService_def trimmed Let_def)
  then show ?thesis unfolding c [symmetric] .
qed

lemma Canonicalize_idem:
  assumes "Canonicalize U typ raw = Inr c" and "typ \<noteq> ASSET_TYPE_URL"
    and "typ = ASSET_TYPE_IP_ADDRESS \<longrightarrow> (\<exists>fs. ParseAddr (TrimSpace raw) = Some (V4 fs))"
    and "typ = ASSET_TYPE_SERVICE \<longrightarrow> TrimSpace c = c"
  shows "Canonicalize U typ c = Inr c"
  using assms canonicalDomain_idem canonicalIP_idem canonicalHost_idem canonicalService_idem canonicalOpaque_idem
  by (simp add: Canonicalize_def split: if_splits) blast

text \<open>Folding to lower case, trimming and the final dot never leave a canonical name empty.\<close>

lemma first_seen_kept:
  "asset_Transition L (Some a) to now = Inr a' \<Longrightarrow> as_first_seen a' = as_first_seen a \<and> as_id a' = as_id a \<and> as_type a' = as_type a \<and>
     as_name a' = as_name a"
  "Touch L (Some a) now = Inr b \<Longrightarrow> as_first_seen b = as_first_seen a \<and> as_id b = as_id a \<and> as_type b = as_type a \<and>
     as_name b = as_name a \<and> (as_status a = ASSET_STATUS_RETIRED \<longrightarrow> as_status b = ASSET_STATUS_RETIRED)"
  by (auto simp: asset_Transition_def Touch_def Let_def split: if_splits)

lemma asset_Normalize_Inr:
  assumes "asset_Normalize L U obs = Inr a"
  shows "\<exists>c. Canonicalize U (ob_Type obs) (ob_Raw obs) = Inr c \<and> a = discovered L obs c \<and> ValidateAsset L (Some a) = None"
  using assms by (auto simp: asset_Normalize_def split: if_splits sum.splits option.splits)

lemma mkDerived_Some: "mkDerived L U a source at typ c = Some x \<Longrightarrow> \<exists>obs. asset_Normalize L U obs = Inr x"
  by (auto simp: mkDerived_def split: sum.splits)

lemma derived_items:
  "p \<in> set (derived_host L U a source at host) \<Longrightarrow> \<exists>typ c. mkDerived L U a source at typ c = Some (fst p)"
  "p \<in> set (derived_service L U a source at host port) \<Longrightarrow> \<exists>typ c. mkDerived L U a source at typ c = Some (fst p)"
  by (auto simp: derived_host_def derived_service_def Let_def split: sum.splits option.splits if_splits) (metis+)

lemma Decompose_assets:
  assumes "x \<in> set (fst (Decompose L U p source at))" shows "\<exists>obs. asset_Normalize L U obs = Inr x"
proof -
  obtain a host port where "x \<in> fst ` (set (derived_host L U a source at host) \<union> set (derived_service L U a source at host port))"
    using assms by (auto simp: Decompose_def Let_def split: option.splits prod.splits if_splits)
  then obtain q where "q \<in> set (derived_host L U a source at host) \<or> q \<in> set (derived_service L U a source at host port)" "x = fst q"
    by blast
  then obtain t canonical where "mkDerived L U a source at t canonical = Some x" using derived_items by metis
  then show ?thesis by (rule mkDerived_Some)
qed

end
