(* ===== verification/AssetStore.thy ===== *)
theory AssetStore
  imports Assets Memory
begin

text \<open>
  The asset inventory: the in-memory asset and relationship repositories (\<open>store/memory.go\<close>) and
  the manager above them (\<open>asset/manager.go\<close>). The manager calls its stores through two small
  interfaces; here an asset store is a record of its three operations over any state, and its
  laws are a locale that the in-memory repository interprets. Every method holds the
  manager's mutex.
\<close>

subsection \<open>The in-memory repositories\<close>

definition asset_check :: "pblib \<Rightarrow> urllib \<Rightarrow> Asset option \<Rightarrow> goerr" where
  "asset_check L U p = map_option (Wrap (Store ErrInvalid)) (first_err [ValidateAsset L p, CheckCanonical U p])"

definition same_identity :: "Asset \<Rightarrow> Asset \<Rightarrow> bool" where
  "same_identity a b \<longleftrightarrow> as_type a = as_type b \<and> as_name a = as_name b"

definition memoryAsset_Create :: "pblib \<Rightarrow> urllib \<Rightarrow> Asset option \<Rightarrow> Asset gomap \<Rightarrow> goerr \<times> Asset gomap" where
  "memoryAsset_Create L U p items =
     (case asset_check L U p of
        Some e \<Rightarrow> (Some e, items)
      | None \<Rightarrow>
         (case p of
            None \<Rightarrow> (None, items)
          | Some a \<Rightarrow>
              if fmlookup items (as_id a) \<noteq> None
                then (Some (Sent (Store ErrDuplicate) (''asset '' @ quote (as_id a))), items)
              else if list_ex (same_identity a) (values_sorted items)
                then (Some (Sent (Store ErrDuplicate) (''asset identity '' @ quote (as_name a))), items)
              else (None, fmupd (as_id a) a items)))"

definition memoryAsset_Save :: "pblib \<Rightarrow> urllib \<Rightarrow> Asset option \<Rightarrow> Asset gomap \<Rightarrow> goerr \<times> Asset gomap" where
  "memoryAsset_Save L U p items =
     (case asset_check L U p of
        Some e \<Rightarrow> (Some e, items)
      | None \<Rightarrow>
         (case p of
            None \<Rightarrow> (None, items)
          | Some a \<Rightarrow>
              if fmlookup items (as_id a) = None
                then (Some (Sent (Store ErrNotFound) (''asset '' @ quote (as_id a))), items)
              else if list_ex (\<lambda>k. k \<noteq> as_id a \<and> (\<exists>x. fmlookup items k = Some x \<and> same_identity a x)) (sortedIDs items)
                then (Some (Sent (Store ErrDuplicate) (''asset identity '' @ quote (as_name a))), items)
              else (None, fmupd (as_id a) a items)))"

definition memoryAsset_Get :: "string \<Rightarrow> Asset gomap \<Rightarrow> Asset res" where
  "memoryAsset_Get k items = get_item ''asset '' k items"

definition memoryAsset_listWhere :: "enum option \<Rightarrow> enum option \<Rightarrow> Asset gomap \<Rightarrow> Asset list" where
  "memoryAsset_listWhere t status items =
     filter (\<lambda>a. (case t of None \<Rightarrow> True | Some x \<Rightarrow> as_type a = x) \<and> (case status of None \<Rightarrow> True | Some x \<Rightarrow> as_status a = x))
       (values_sorted items)"

definition memoryAsset_List :: "Asset gomap \<Rightarrow> Asset list" where
  "memoryAsset_List items = memoryAsset_listWhere None None items"

definition memoryAsset_ListByType :: "enum \<Rightarrow> Asset gomap \<Rightarrow> Asset list" where
  "memoryAsset_ListByType t items = memoryAsset_listWhere (Some t) None items"

definition memoryAsset_ListByStatus :: "enum \<Rightarrow> Asset gomap \<Rightarrow> Asset list" where
  "memoryAsset_ListByStatus status items = memoryAsset_listWhere None (Some status) items"

type_synonym relKey = "string \<times> string \<times> string"

definition relKey_of :: "Relationship \<Rightarrow> relKey" where
  "relKey_of r = (rel_ParentID r, rel_ChildID r, rel_Kind r)"

definition memoryRelationships_Append :: "Relationship \<Rightarrow> (relKey, Relationship) fmap \<Rightarrow> goerr \<times> (relKey, Relationship) fmap" where
  "memoryRelationships_Append r items =
     (case Relationship_Validate r of
        Some e \<Rightarrow> (Some (Wrap (Store ErrInvalid) e), items)
      | None \<Rightarrow>
          if fmlookup items (relKey_of r) \<noteq> None then (Some (Sent (Store ErrDuplicate) ''relationship''), items)
          else (None, fmupd (relKey_of r) r items))"

definition sortedRelKeys :: "(relKey, Relationship) fmap \<Rightarrow> relKey list" where
  "sortedRelKeys items = sorted_list_of_set (fmdom' items)"

definition relationships_where :: "(relKey \<Rightarrow> bool) \<Rightarrow> (relKey, Relationship) fmap \<Rightarrow> Relationship list" where
  "relationships_where f items = List.map_filter (fmlookup items) (filter f (sortedRelKeys items))"

definition memoryRelationships_Children :: "string \<Rightarrow> (relKey, Relationship) fmap \<Rightarrow> Relationship list" where
  "memoryRelationships_Children parentID items = relationships_where (\<lambda>(p, c, k). p = parentID) items"

definition memoryRelationships_Parents :: "string \<Rightarrow> (relKey, Relationship) fmap \<Rightarrow> Relationship list" where
  "memoryRelationships_Parents childID items = relationships_where (\<lambda>(p, c, k). c = childID) items"

subsection \<open>Error texts\<close>

text \<open>The manager looks into the text of an error, so here the text has the sentinel's own words.\<close>

definition sentinel_text :: "sentinel \<Rightarrow> string" where
  "sentinel_text s =
     (if s = Store ErrNotFound then ''store: not found'' else if s = Store ErrDuplicate then ''store: duplicate id''
      else if s = Store ErrInvalid then ''store: invalid object'' else if s = Store ErrCorrupted then ''store: corrupted record''
      else if s = Asset ErrCanonicalize then ''asset: cannot canonicalize identifier''
      else if s = Asset ErrLifecycle then ''asset: illegal lifecycle transition''
      else if s = Asset ErrDiscovery then ''asset: invalid observation'' else [])"

fun err_text :: "err \<Rightarrow> string" where
  "err_text (Plain t) = t"
| "err_text (Sent s t) = sentinel_text s @ '': '' @ t"
| "err_text (Wrap s e) = sentinel_text s @ '': '' @ err_text e"
| "err_text (Ctx t e) = t @ '': '' @ err_text e"

definition isNotFound :: "err \<Rightarrow> bool" where
  "isNotFound e = contains (err_text e) ''not found''"

definition isDuplicate :: "err \<Rightarrow> bool" where
  "isDuplicate e = contains (err_text e) ''duplicate''"

subsection \<open>The manager\<close>

record 's AssetStore =
  st_Create :: "Asset option \<Rightarrow> 's \<Rightarrow> goerr \<times> 's"
  st_Save :: "Asset option \<Rightarrow> 's \<Rightarrow> goerr \<times> 's"
  st_Get :: "string \<Rightarrow> 's \<Rightarrow> Asset res"

type_synonym 'r RelationshipStore = "Relationship \<Rightarrow> 'r \<Rightarrow> goerr \<times> 'r"

definition NewAssetManager :: "bool \<Rightarrow> bool \<Rightarrow> bool \<Rightarrow> goerr" where
  "NewAssetManager assets_nil rels_nil clock_nil = first_err [
     fail_if (assets_nil \<or> rels_nil) (Plain ''asset: manager needs asset and relationship stores''),
     fail_if clock_nil (Plain ''asset: manager clock is nil'')]"

text \<open>Touching a stored asset and saving it back.\<close>

definition touch_save :: "pblib \<Rightarrow> 's AssetStore \<Rightarrow> string \<Rightarrow> Asset \<Rightarrow> gotime \<Rightarrow> 's \<Rightarrow> (Asset \<times> bool) res \<times> 's" where
  "touch_save L S what existing now s =
     (case Touch L (Some existing) now of
        Inl e \<Rightarrow> (Inl e, s)
      | Inr a \<Rightarrow>
         (case st_Save S (Some a) s of
            (Some e, s1) \<Rightarrow> (Inl (Ctx what e), s1)
          | (None, s1) \<Rightarrow> (Inr (a, False), s1)))"

definition touchAfterRace :: "pblib \<Rightarrow> 's AssetStore \<Rightarrow> string \<Rightarrow> gotime \<Rightarrow> 's \<Rightarrow> (Asset \<times> bool) res \<times> 's" where
  "touchAfterRace L S k now s =
     (case st_Get S k s of
        Inl e \<Rightarrow> (Inl (Ctx ''asset: raced create re-read'' e), s)
      | Inr existing \<Rightarrow> touch_save L S ''asset: raced touch save'' existing now s)"

fun create_derived :: "'s AssetStore \<Rightarrow> Asset list \<Rightarrow> 's \<Rightarrow> goerr \<times> 's" where
  "create_derived S [] s = (None, s)"
| "create_derived S (d # ds) s =
     (case st_Create S (Some d) s of
        (None, s1) \<Rightarrow> create_derived S ds s1
      | (Some e, s1) \<Rightarrow>
          if isDuplicate e then create_derived S ds s1 else (Some (Ctx ''asset: derived create'' e), s1))"

fun append_links :: "'r RelationshipStore \<Rightarrow> Relationship list \<Rightarrow> 'r \<Rightarrow> goerr \<times> 'r" where
  "append_links app [] r = (None, r)"
| "append_links app (l # ls) r =
     (case app l r of
        (None, r1) \<Rightarrow> append_links app ls r1
      | (Some e, r1) \<Rightarrow> if isDuplicate e then append_links app ls r1 else (Some (Ctx ''asset: relationship append'' e), r1))"

definition asset_Ingest ::
  "pblib \<Rightarrow> urllib \<Rightarrow> 's AssetStore \<Rightarrow> 'r RelationshipStore \<Rightarrow> gotime \<Rightarrow> asset_Observation \<Rightarrow> 's \<times> 'r
    \<Rightarrow> (Asset \<times> bool) res \<times> 's \<times> 'r" where
  "asset_Ingest L U S app now obs st =
     (case st of (s, r) \<Rightarrow>
        if IsZero now then (Inl (Plain ''asset: manager clock returned zero time''), s, r)
        else (case asset_Normalize L U obs of
          Inl e \<Rightarrow> (Inl e, s, r)
        | Inr fresh \<Rightarrow>
           (case st_Get S (as_id fresh) s of
              Inr existing \<Rightarrow> (case touch_save L S ''asset: touch save'' existing now s of (out, s1) \<Rightarrow> (out, s1, r))
            | Inl e \<Rightarrow>
               if \<not> isNotFound e then (Inl (Ctx ''asset: lookup'' e), s, r)
               else
                (case st_Create S (Some fresh) s of
                   (Some ce, s1) \<Rightarrow>
                     if isDuplicate ce
                       then (case touchAfterRace L S (as_id fresh) now s1 of (out, s2) \<Rightarrow> (out, s2, r))
                     else (Inl (Ctx ''asset: create'' ce), s1, r)
                 | (None, s1) \<Rightarrow>
                     (case Decompose L U (Some fresh) (ob_Source obs) now of (ds, ls) \<Rightarrow>
                       (case create_derived S ds s1 of
                          (Some de, s2) \<Rightarrow> (Inl de, s2, r)
                        | (None, s2) \<Rightarrow>
                           (case append_links app ls r of
                              (Some re, r1) \<Rightarrow> (Inl re, s2, r1)
                            | (None, r1) \<Rightarrow>
                               (case st_Get S (as_id fresh) s2 of
                                  Inl ge \<Rightarrow> (Inl (Ctx ''asset: re-read'' ge), s2, r1)
                                | Inr stored \<Rightarrow>
                                   (case ValidateAsset L (Some stored) of
                                      Some ve \<Rightarrow> (Inl (Plain (''asset: stored record invalid: '' @ err_text ve)), s2, r1)
                                    | None \<Rightarrow> (Inr (stored, True), s2, r1))))))))))"

text \<open>\<open>Resolve\<close>: the exact id, then the strict canonical forms in a fixed order.\<close>

fun resolve_types :: "urllib \<Rightarrow> 's AssetStore \<Rightarrow> string \<Rightarrow> 's \<Rightarrow> enum list \<Rightarrow> Asset option res" where
  "resolve_types U S ref s [] = Inr None"
| "resolve_types U S ref s (t # ts) =
     (case Canonicalize U t ref of
        Inl _ \<Rightarrow> resolve_types U S ref s ts
      | Inr c \<Rightarrow>
         (case st_Get S (asset_IDFor t c) s of
            Inr a \<Rightarrow> Inr (Some a)
          | Inl e \<Rightarrow> if \<not> isNotFound e then Inl (Ctx ''asset: resolve lookup'' e) else resolve_types U S ref s ts))"

definition asset_Resolve :: "urllib \<Rightarrow> 's AssetStore \<Rightarrow> string \<Rightarrow> 's \<Rightarrow> Asset option res" where
  "asset_Resolve U S ref s =
     (case st_Get S ref s of
        Inr a \<Rightarrow> Inr (Some a)
      | Inl e \<Rightarrow>
         if \<not> isNotFound e then Inl (Ctx ''asset: resolve lookup'' e)
         else resolve_types U S ref s [ASSET_TYPE_HOST, ASSET_TYPE_DOMAIN, ASSET_TYPE_IP_ADDRESS, ASSET_TYPE_URL])"

subsection \<open>The contract of an asset store\<close>

text \<open>What survives of an asset whatever is ingested: its identity, its first sighting, its retirement.\<close>

definition outlives :: "Asset \<Rightarrow> Asset \<Rightarrow> bool" where
  "outlives a b \<longleftrightarrow> as_id b = as_id a \<and> as_type b = as_type a \<and> as_name b = as_name a \<and>
     as_first_seen b = as_first_seen a \<and> (as_status a = ASSET_STATUS_RETIRED \<longrightarrow> as_status b = ASSET_STATUS_RETIRED)"

definition inventory_kept :: "Asset gomap \<Rightarrow> Asset gomap \<Rightarrow> bool" where
  "inventory_kept m m1 \<longleftrightarrow> keyed as_id m1 \<and> (\<forall>k a. fmlookup m k = Some a \<longrightarrow> (\<exists>b. fmlookup m1 k = Some b \<and> outlives a b))"

lemma outlives_refl [simp]: "outlives a a"
  by (simp add: outlives_def)

lemma outlives_trans: "outlives a b \<Longrightarrow> outlives b c \<Longrightarrow> outlives a c"
  by (auto simp: outlives_def)

lemma inventory_kept_refl: "keyed as_id m \<Longrightarrow> inventory_kept m m"
  by (auto simp: inventory_kept_def)

lemma inventory_kept_trans: "inventory_kept m m1 \<Longrightarrow> inventory_kept m1 m2 \<Longrightarrow> inventory_kept m m2"
  unfolding inventory_kept_def using outlives_trans by blast

lemma inventory_kept_new: "keyed as_id m \<Longrightarrow> fmlookup m (as_id a) = None \<Longrightarrow> inventory_kept m (fmupd (as_id a) a m)"
  by (auto simp: inventory_kept_def keyed_upd)

lemma inventory_kept_touch:
  "keyed as_id m \<Longrightarrow> fmlookup m k = Some a \<Longrightarrow> outlives a b \<Longrightarrow> inventory_kept m (fmupd (as_id b) b m)"
  by (auto simp: inventory_kept_def keyed_upd) (auto simp: keyed_def outlives_def)

locale asset_store =
  fixes S :: "'s AssetStore" and all :: "'s \<Rightarrow> Asset gomap"
  assumes found: "fmlookup (all s) k = Some a \<Longrightarrow> st_Get S k s = Inr a"
    and missing: "fmlookup (all s) k = None \<Longrightarrow> \<exists>e. st_Get S k s = Inl e \<and> isNotFound e"
    and created: "st_Create S (Some a) s = (None, s1) \<Longrightarrow> fmlookup (all s) (as_id a) = None \<and> all s1 = fmupd (as_id a) a (all s)"
    and create_refused: "st_Create S p s = (Some e, s1) \<Longrightarrow> s1 = s"
    and saved: "st_Save S (Some a) s = (None, s1) \<Longrightarrow> all s1 = fmupd (as_id a) a (all s)"
    and save_refused: "st_Save S p s = (Some e, s1) \<Longrightarrow> s1 = s"
begin

lemma get_Inr: "st_Get S k s = Inr a \<longleftrightarrow> fmlookup (all s) k = Some a"
  using found [of s k] missing [of s k] by (cases "fmlookup (all s) k") auto

lemma touch_save_kept:
  assumes "touch_save L S what a now s = (out, s1)" and "keyed as_id (all s)" and "fmlookup (all s) k = Some a"
  shows "inventory_kept (all s) (all s1) \<and>
    (\<forall>b c. out = Inr (b, c) \<longrightarrow> \<not> c \<and> outlives a b \<and> fmlookup (all s1) k = Some b)"
proof (cases "Touch L (Some a) now")
  case (Inl e)
  then show ?thesis using assms inventory_kept_refl by (auto simp: touch_save_def)
next
  case (Inr b)
  have o: "outlives a b" using first_seen_kept(2) [OF Inr] by (simp add: outlives_def)
  have k: "as_id b = k" using o assms(2,3) by (simp add: outlives_def keyed_def)
  obtain r s2 where sv: "st_Save S (Some b) s = (r, s2)" by fastforce
  show ?thesis
  proof (cases r)
    case None
    then have "all s1 = fmupd (as_id b) b (all s)" "out = Inr (b, False)"
      using assms(1) Inr sv saved by (auto simp: touch_save_def)
    then show ?thesis using inventory_kept_touch [OF assms(2,3) o] o k by auto
  next
    case (Some e)
    then have "s1 = s" "out = Inl (Ctx what e)" using assms(1) Inr sv save_refused by (auto simp: touch_save_def)
    then show ?thesis using inventory_kept_refl [OF assms(2)] by simp
  qed
qed

lemma create_kept:
  "st_Create S (Some a) s = (r, s1) \<Longrightarrow> keyed as_id (all s) \<Longrightarrow> inventory_kept (all s) (all s1)"
  using created create_refused inventory_kept_new inventory_kept_refl by (cases r) metis+

lemma create_derived_kept:
  "create_derived S ds s = (r, s1) \<Longrightarrow> keyed as_id (all s) \<Longrightarrow> inventory_kept (all s) (all s1)"
proof (induction ds arbitrary: s)
  case (Cons d ds)
  obtain r2 s2 where c: "st_Create S (Some d) s = (r2, s2)" by fastforce
  have kept: "inventory_kept (all s) (all s2)" by (rule create_kept [OF c Cons.prems(2)])
  then have k2: "keyed as_id (all s2)" by (simp add: inventory_kept_def)
  show ?case
  proof (cases "r2 = None \<or> isDuplicate (the r2)")
    case True
    then have "create_derived S ds s2 = (r, s1)" using Cons.prems(1) c by (cases r2) auto
    then show ?thesis using Cons.IH [OF _ k2] inventory_kept_trans [OF kept] by blast
  next
    case False
    then have "s1 = s2" using Cons.prems(1) c by (cases r2) auto
    then show ?thesis using kept by simp
  qed
qed (simp add: inventory_kept_refl)

text \<open>One ingest: the inventory only grows, and what it returns is what is stored under the id of the observation.\<close>

lemma ingest_kept:
  assumes "asset_Ingest L U S app now obs (s, r) = (out, s1, r1)" and k: "keyed as_id (all s)"
  shows "inventory_kept (all s) (all s1) \<and>
    (\<forall>a c. out = Inr (a, c) \<longrightarrow> fmlookup (all s1) (as_id a) = Some a \<and>
       (\<exists>f. asset_Normalize L U obs = Inr f \<and> as_id a = as_id f \<and> (c \<longleftrightarrow> fmlookup (all s) (as_id f) = None)))"
proof (cases "IsZero now")
  case True
  then show ?thesis using assms inventory_kept_refl by (auto simp: asset_Ingest_def)
next
  case now: False
  show ?thesis
  proof (cases "asset_Normalize L U obs")
    case (Inl e)
    then show ?thesis using assms now inventory_kept_refl by (auto simp: asset_Ingest_def)
  next
    case f: (Inr f)
    show ?thesis
    proof (cases "fmlookup (all s) (as_id f)")
      case (Some a)
      obtain o2 s2 where t: "touch_save L S ''asset: touch save'' a now s = (o2, s2)" by fastforce
      have "out = o2" "s1 = s2" using assms(1) now f found [OF Some] t by (simp_all add: asset_Ingest_def)
      note res = touch_save_kept [OF t k Some]
      have "fmlookup (all s1) (as_id b) = Some b \<and>
          (\<exists>f. asset_Normalize L U obs = Inr f \<and> as_id b = as_id f \<and> (c \<longleftrightarrow> fmlookup (all s) (as_id f) = None))"
        if "out = Inr (b, c)" for b c
      proof -
        have h: "\<not> c" "outlives a b" "fmlookup (all s2) (as_id f) = Some b" using res [THEN conjunct2, rule_format, of b c] that \<open>out = o2\<close> by simp_all
        have "as_id a = as_id f" using k Some by (simp add: keyed_def)
        then have "as_id b = as_id f" using h(2) by (simp add: outlives_def)
        then show ?thesis using h(1,3) \<open>s1 = s2\<close> f Some by auto
      qed
      moreover have "inventory_kept (all s) (all s1)" using res unfolding \<open>s1 = s2\<close> by (rule conjunct1)
      ultimately show ?thesis by blast
    next
      case None
      then obtain e where e: "st_Get S (as_id f) s = Inl e" "isNotFound e" using missing by blast
      obtain r2 s2 where c: "st_Create S (Some f) s = (r2, s2)" by fastforce
      show ?thesis
      proof (cases r2)
        case (Some ce)
        have "s2 = s" using create_refused c Some by blast
        then have "\<exists>x. touchAfterRace L S (as_id f) now s2 = (Inl x, s)" using e by (simp add: touchAfterRace_def)
        then have "s1 = s \<and> (\<exists>x. out = Inl x)" using assms(1) now f e c Some \<open>s2 = s\<close>
          by (auto simp: asset_Ingest_def split: if_splits)
        then show ?thesis using inventory_kept_refl [OF k] by auto
      next
        case new: None
        have kept: "inventory_kept (all s) (all s2)" by (rule create_kept [OF c k])
        then have k2: "keyed as_id (all s2)" by (simp add: inventory_kept_def)
        have stored: "fmlookup (all s2) (as_id f) = Some f" using created c new by auto
        obtain ds ls where d: "Decompose L U (Some f) (ob_Source obs) now = (ds, ls)" by fastforce
        obtain r3 s3 where cd: "create_derived S ds s2 = (r3, s3)" by fastforce
        note kept3 = create_derived_kept [OF cd k2]
        obtain r4 l4 where al: "append_links app ls r = (r4, l4)" by fastforce
        have s1: "s1 = s3" using assms(1) now f e c new d cd al
          by (auto simp: asset_Ingest_def split: option.splits sum.splits)
        have "fmlookup (all s1) (as_id b) = Some b \<and>
          (\<exists>f. asset_Normalize L U obs = Inr f \<and> as_id b = as_id f \<and> (c \<longleftrightarrow> fmlookup (all s) (as_id f) = None))"
          if "out = Inr (b, c)" for b c
        proof -
          have h: "st_Get S (as_id f) s3 = Inr b \<and> c" using that assms(1) now f e \<open>st_Create S (Some f) s = (r2, s2)\<close> new d cd al
            by (auto simp: asset_Ingest_def split: option.splits sum.splits)
          obtain g where "fmlookup (all s3) (as_id f) = Some g" "outlives f g"
            using kept3 stored by (auto simp: inventory_kept_def)
          then have "as_id b = as_id f" "fmlookup (all s3) (as_id f) = Some b" using h by (auto simp: get_Inr outlives_def)
          then show ?thesis using h s1 f None by auto
        qed
        moreover have "inventory_kept (all s) (all s1)" using inventory_kept_trans [OF kept kept3] s1 by simp
        ultimately show ?thesis by blast
      qed
    qed
  qed
qed

end

definition memory_assets :: "pblib \<Rightarrow> urllib \<Rightarrow> Asset gomap AssetStore" where
  "memory_assets L U = \<lparr>st_Create = memoryAsset_Create L U, st_Save = memoryAsset_Save L U, st_Get = memoryAsset_Get\<rparr>"

lemma not_found_text: "isNotFound (Sent (Store ErrNotFound) t)"
  unfolding isNotFound_def contains_iff
  by (rule exI [of _ "''store: ''"], rule exI [of _ "'': '' @ t"]) (simp add: sentinel_text_def)

interpretation inventory: asset_store "memory_assets L U" "\<lambda>m. m" for L U
  by (rule asset_store.intro)
    (auto simp: memory_assets_def memoryAsset_Create_def memoryAsset_Save_def memoryAsset_Get_def get_item_def not_found_text
      asset_check_def ValidateAsset_def split: option.splits if_splits)

subsection \<open>The invariant of the repository\<close>

definition assets_ok :: "pblib \<Rightarrow> urllib \<Rightarrow> Asset gomap \<Rightarrow> bool" where
  "assets_ok L U m \<longleftrightarrow> keyed as_id m \<and> (\<forall>k a. fmlookup m k = Some a \<longrightarrow> ValidateAsset L (Some a) = None \<and> CheckCanonical U (Some a) = None) \<and>
     (\<forall>k k' a b. fmlookup m k = Some a \<longrightarrow> fmlookup m k' = Some b \<longrightarrow> same_identity a b \<longrightarrow> k = k')"

lemma asset_check_None: "asset_check L U p = None \<longleftrightarrow> ValidateAsset L p = None \<and> CheckCanonical U p = None"
  by (auto simp: asset_check_def)

lemma assets_ok_upd:
  assumes "assets_ok L U m" and "asset_check L U (Some a) = None"
    and "\<And>k x. fmlookup m k = Some x \<Longrightarrow> k \<noteq> as_id a \<Longrightarrow> \<not> same_identity a x"
  shows "assets_ok L U (fmupd (as_id a) a m)"
proof -
  have "same_identity x a \<longleftrightarrow> same_identity a x" for x by (auto simp: same_identity_def)
  then show ?thesis using assms by (auto simp: assets_ok_def keyed_upd asset_check_None)
qed

lemma memoryAsset_Create_ok: "assets_ok L U m \<Longrightarrow> assets_ok L U (snd (memoryAsset_Create L U p m))"
  by (auto simp: memoryAsset_Create_def list_ex_iff set_values_sorted split: option.splits intro!: assets_ok_upd)

lemma memoryAsset_Save_ok: "assets_ok L U m \<Longrightarrow> assets_ok L U (snd (memoryAsset_Save L U p m))"
  by (auto simp: memoryAsset_Save_def list_ex_iff fmlookup_dom'_iff split: option.splits intro!: assets_ok_upd)

text \<open>Any sequence of writes, and any sequence of ingests.\<close>

datatype asset_op = ACreate "Asset option" | ASave "Asset option"

fun asset_apply :: "pblib \<Rightarrow> urllib \<Rightarrow> asset_op \<Rightarrow> Asset gomap \<Rightarrow> Asset gomap" where
  "asset_apply L U (ACreate p) m = snd (memoryAsset_Create L U p m)"
| "asset_apply L U (ASave p) m = snd (memoryAsset_Save L U p m)"

definition asset_ops :: "pblib \<Rightarrow> urllib \<Rightarrow> asset_op list \<Rightarrow> Asset gomap" where
  "asset_ops L U ops = foldl (\<lambda>m op. asset_apply L U op m) fmempty ops"

lemma asset_ops_ok: "assets_ok L U (asset_ops L U ops)"
proof -
  have "assets_ok L U m \<Longrightarrow> assets_ok L U (foldl (\<lambda>m op. asset_apply L U op m) m ops)" for m
  proof (induction ops arbitrary: m)
    case (Cons op ops)
    then have "assets_ok L U (asset_apply L U op m)" by (cases op) (simp_all add: memoryAsset_Create_ok memoryAsset_Save_ok)
    then show ?case using Cons.IH by simp
  qed simp
  moreover have "assets_ok L U fmempty" by (simp add: assets_ok_def keyed_def)
  ultimately show ?thesis unfolding asset_ops_def by blast
qed

lemma asset_ops_keyed: "keyed as_id (asset_ops L U ops)"
  using asset_ops_ok by (auto simp: assets_ok_def)

type_synonym rel_map = "(relKey, Relationship) fmap"

definition memory_Ingest :: "pblib \<Rightarrow> urllib \<Rightarrow> gotime \<times> asset_Observation \<Rightarrow> Asset gomap \<times> rel_map \<Rightarrow> (Asset \<times> bool) res \<times> Asset gomap \<times> rel_map" where
  "memory_Ingest L U o1 st = asset_Ingest L U (memory_assets L U) memoryRelationships_Append (fst o1) (snd o1) st"

definition ingests :: "pblib \<Rightarrow> urllib \<Rightarrow> (gotime \<times> asset_Observation) list \<Rightarrow> Asset gomap \<times> rel_map \<Rightarrow> Asset gomap \<times> rel_map" where
  "ingests L U os st = foldl (\<lambda>st o1. snd (memory_Ingest L U o1 st)) st os"

lemma memory_Ingest_kept:
  assumes "memory_Ingest L U o1 (m, r) = (out, m1, r1)" and "keyed as_id m"
  shows "inventory_kept m m1 \<and> (\<forall>a c. out = Inr (a, c) \<longrightarrow> fmlookup m1 (as_id a) = Some a \<and>
    (\<exists>f. asset_Normalize L U (snd o1) = Inr f \<and> as_id a = as_id f \<and> (c \<longleftrightarrow> fmlookup m (as_id f) = None)))"
  using inventory.ingest_kept [OF assms(1) [unfolded memory_Ingest_def] assms(2)] .

lemma ingests_kept: "keyed as_id m \<Longrightarrow> inventory_kept m (fst (ingests L U os (m, r)))"
proof (induction os arbitrary: m r)
  case Nil
  then show ?case by (simp add: ingests_def inventory_kept_refl)
next
  case (Cons o1 os)
  obtain out m1 r1 where st: "memory_Ingest L U o1 (m, r) = (out, m1, r1)" using prod_cases3 by blast
  have kept: "inventory_kept m m1" using memory_Ingest_kept [OF st Cons.prems] by blast
  then have "keyed as_id m1" by (simp add: inventory_kept_def)
  moreover have "ingests L U (o1 # os) (m, r) = ingests L U os (m1, r1)" by (simp add: ingests_def st)
  ultimately show ?case using Cons.IH inventory_kept_trans [OF kept] by simp
qed

subsection \<open>A closed example\<close>

definition ex_obs :: "string \<Rightarrow> asset_Observation" where
  "ex_obs raw = \<lparr>ob_Source = ''sweep'', ob_Type = ASSET_TYPE_HOST, ob_Raw = raw, ob_ObservedAt = 5, ob_Environment = [],
     ob_Attributes = fmempty\<rparr>"

definition ex_host :: Asset where
  "ex_host = discovered example_pb (ex_obs ''web01'') ''web01''"

lemma ex_host_valid: "ValidateAsset example_pb (Some ex_host) = None"
  by (simp add: ValidateAsset_def ex_host_def discovered_def ex_obs_def boundary asset_IDFor_def IdentifierKind_def AssetType_known_def
      AssetStatus_known_def)

lemma ex_canonical: "Canonicalize U ASSET_TYPE_HOST ''web01'' = Inr ''web01''" "Canonicalize U ASSET_TYPE_HOST '' Web01 '' = Inr ''web01''"
  by (code_simp, code_simp)

text \<open>The example asset in another status.\<close>

lemma ex_host_revised_valid:
  "s \<in> {1, 2, 3, 4} \<Longrightarrow> ValidateAsset example_pb (Some (ex_host\<lparr>as_status := s\<rparr>)) = None"
  "ValidateAsset example_pb (Some (ex_host\<lparr>as_status := ASSET_STATUS_ACTIVE, as_last_seen := Some (ts_New example_pb 9)\<rparr>)) = None"
  by (auto simp: ValidateAsset_def ex_host_def discovered_def ex_obs_def boundary asset_IDFor_def IdentifierKind_def AssetType_known_def
      AssetStatus_known_def example_pb_def)

lemma ex_check:
  assumes "ValidateAsset example_pb (Some a) = None" and "as_type a = ASSET_TYPE_HOST" and "as_name a = ''web01''"
  shows "asset_check example_pb U (Some a) = None"
  using assms by (simp add: asset_check_def CheckCanonical_def ex_canonical fail_if_def)

lemma ex_normalize:
  "asset_Normalize example_pb U (ex_obs ''web01'') = Inr ex_host"
  "asset_Normalize example_pb U (ex_obs '' Web01 '') = Inr ex_host"
  using ex_host_valid ex_canonical
  by (simp_all add: asset_Normalize_def ex_host_def ex_obs_def discovered_def AssetType_known_def TrimSpace_def is_space_def IsZero_def zero_time_def)

lemma ex_ingest_host:
  "memory_Ingest example_pb U (9, ex_obs '' Web01 '') (fmempty, fmempty) = (Inr (ex_host, True), fmupd (as_id ex_host) ex_host fmempty, fmempty)"
proof -
  have z: "\<not> IsZero 9" by (simp add: IsZero_def zero_time_def)
  have "as_type ex_host = ASSET_TYPE_HOST" "as_name ex_host = ''web01''" by (simp_all add: ex_host_def discovered_def ex_obs_def)
  then have "CheckCanonical U (Some ex_host) = None" "Decompose example_pb U (Some ex_host) src 9 = ([], [])" for src
    by (simp_all add: CheckCanonical_def ex_canonical Decompose_def)
  then show ?thesis using z ex_host_valid
    by (simp add: memory_Ingest_def asset_Ingest_def ex_normalize memory_assets_def memoryAsset_Get_def get_item_def not_found_text
        memoryAsset_Create_def asset_check_def values_sorted_def sortedIDs_def)
qed

subsection \<open>The properties\<close>

text \<open>
  Canonical identifiers are fixed points: what \<open>Canonicalize\<close> returns for a host, a domain,
  an IPv4 address, a service or an opaque identifier is its own canonical form, so the stored
  name passes \<open>CheckCanonical\<close>. (For a service the form must not begin with a space, which only
  a bracketed host can cause.)
\<close>

theorem canonicalize_fixed_point:
  assumes "Canonicalize U kind raw = Inr c" and "kind \<noteq> ASSET_TYPE_URL"
    and "kind = ASSET_TYPE_IP_ADDRESS \<longrightarrow> (\<exists>fs. ParseAddr (TrimSpace raw) = Some (V4 fs))"
    and "kind = ASSET_TYPE_SERVICE \<longrightarrow> TrimSpace c = c" and "as_type a = kind" and "as_name a = c"
  shows "Canonicalize U kind c = Inr c \<and> CheckCanonical U (Some a) = None"
  using Canonicalize_idem [OF assms(1-4)] assms(5,6) by (simp add: CheckCanonical_def)

theorem canonicalize_fixed_point_witness:
  "Canonicalize U ASSET_TYPE_HOST ''web01'' = Inr ''web01'' \<and> CheckCanonical U (Some ex_host) = None"
proof -
  have "as_type ex_host = ASSET_TYPE_HOST" "as_name ex_host = ''web01''" by (simp_all add: ex_host_def discovered_def ex_obs_def)
  from canonicalize_fixed_point [OF ex_canonical(2) _ _ _ this] show ?thesis by simp
qed

text \<open>
  C20. After any sequence of creates and saves the asset repository holds contract-valid assets
  with canonical names under their own ids, and no two of them have the same type and name.
\<close>

theorem assets_unique_and_canonical:
  assumes "m = asset_ops L U ops" and "fmlookup m k = Some a" and "fmlookup m k' = Some b"
  shows "as_id a = k \<and> ValidateAsset L (Some a) = None \<and> CheckCanonical U (Some a) = None \<and>
    (as_type a = as_type b \<and> as_name a = as_name b \<longrightarrow> k = k')"
proof -
  have ok: "assets_ok L U m" using assms(1) asset_ops_ok by simp
  then have "as_id a = k" using assms(2) by (simp add: assets_ok_def keyed_def)
  moreover have "as_type a = as_type b \<and> as_name a = as_name b \<Longrightarrow> k = k'"
    using ok assms(2,3) unfolding assets_ok_def same_identity_def by blast
  ultimately show ?thesis using ok assms(2) by (simp add: assets_ok_def)
qed

theorem assets_unique_and_canonical_witness:
  "ValidateAsset example_pb (Some ex_host) = None \<and> fmlookup (asset_ops example_pb (\<lambda>_. None) [ACreate (Some ex_host)]) (as_id ex_host) = Some ex_host"
proof -
  have "as_type ex_host = ASSET_TYPE_HOST" "as_name ex_host = ''web01''" by (simp_all add: ex_host_def discovered_def ex_obs_def)
  then have "fmlookup (asset_ops example_pb (\<lambda>_. None) [ACreate (Some ex_host)]) (as_id ex_host) = Some ex_host"
    using ex_host_valid
    by (simp add: asset_ops_def memoryAsset_Create_def ex_check values_sorted_def sortedIDs_def)
  from assets_unique_and_canonical [OF refl this this] this show ?thesis by blast
qed

text \<open>
  Discovery never loses or rewrites an asset: whatever is ingested, every asset of the
  inventory stays under its id with its type, name and first sighting, and a RETIRED asset
  stays RETIRED.
\<close>

theorem ingest_keeps_inventory:
  assumes "m = asset_ops L U ops" and "fmlookup m k = Some a"
  shows "\<exists>b. fmlookup (fst (ingests L U os (m, r))) k = Some b \<and> as_type b = as_type a \<and> as_name b = as_name a \<and>
    as_first_seen b = as_first_seen a \<and> (as_status a = ASSET_STATUS_RETIRED \<longrightarrow> as_status b = ASSET_STATUS_RETIRED)"
proof -
  have "inventory_kept m (fst (ingests L U os (m, r)))" using ingests_kept asset_ops_keyed assms(1) by simp
  then show ?thesis using assms(2) by (auto simp: inventory_kept_def outlives_def)
qed

theorem ingest_keeps_inventory_witness:
  "\<exists>b. fmlookup (fst (ingests example_pb (\<lambda>_. None) [(9, ex_obs '' Web01 '')]
     (asset_ops example_pb (\<lambda>_. None) [ACreate (Some (ex_host\<lparr>as_status := ASSET_STATUS_RETIRED\<rparr>))], fmempty))) (as_id ex_host) = Some b \<and>
     as_status b = ASSET_STATUS_RETIRED"
proof -
  let ?a = "ex_host\<lparr>as_status := ASSET_STATUS_RETIRED\<rparr>"
  have "as_type ?a = ASSET_TYPE_HOST" "as_name ?a = ''web01''" by (simp_all add: ex_host_def discovered_def ex_obs_def)
  moreover have "ValidateAsset example_pb (Some ?a) = None"
    using ex_host_revised_valid(1) [of 4] by simp
  ultimately have "fmlookup (asset_ops example_pb (\<lambda>_. None) [ACreate (Some ?a)]) (as_id ex_host) = Some ?a"
    by (simp add: asset_ops_def memoryAsset_Create_def ex_check values_sorted_def sortedIDs_def)
  from ingest_keeps_inventory [OF refl this] show ?thesis by auto
qed

text \<open>
  C19. One asset per identity: once an observation was ingested, any later observation of the
  same type and canonical form, however it is spelled and whatever was ingested in between,
  that is ingested successfully returns the asset with the same id and creates nothing.
\<close>

theorem observations_resolve_to_one_asset:
  assumes "memory_Ingest L U (now, obs) (asset_ops L U ops, r) = (Inr (a, c), m1, r1)"
    and "(m2, r2) = ingests L U os (m1, r1)" and "memory_Ingest L U (now', obs') (m2, r2) = (Inr (b, c'), m3, r3)"
    and "ob_Type obs' = ob_Type obs" and "Canonicalize U (ob_Type obs) (ob_Raw obs') = Canonicalize U (ob_Type obs) (ob_Raw obs)"
  shows "as_id b = as_id a \<and> \<not> c'"
proof -
  note k1 = memory_Ingest_kept [OF assms(1) asset_ops_keyed]
  obtain f where f: "asset_Normalize L U obs = Inr f" "as_id a = as_id f" and a: "fmlookup m1 (as_id a) = Some a"
    using k1 [THEN conjunct2, rule_format, OF refl] by auto
  have "keyed as_id m1" using k1 by (simp add: inventory_kept_def)
  then have kept: "inventory_kept m1 m2" using ingests_kept [of m1 L U os r1] assms(2) by (metis fst_conv)
  then have key2: "keyed as_id m2" by (simp add: inventory_kept_def)
  obtain g where g: "asset_Normalize L U obs' = Inr g" "as_id b = as_id g" "c' \<longleftrightarrow> fmlookup m2 (as_id g) = None"
    using memory_Ingest_kept [OF assms(3) key2, THEN conjunct2, rule_format, OF refl] by auto
  have "as_id f = as_id g"
    using asset_Normalize_Inr [OF f(1)] asset_Normalize_Inr [OF g(1)] assms(4,5) by (auto simp: discovered_def)
  moreover have "fmlookup m2 (as_id a) \<noteq> None" using kept a by (auto simp: inventory_kept_def)
  ultimately show ?thesis using f(2) g by simp
qed

theorem observations_resolve_to_one_asset_witness:
  "\<exists>b m3 r3. memory_Ingest example_pb (\<lambda>_. None) (9, ex_obs ''web01'') (fmupd (as_id ex_host) ex_host fmempty, fmempty) = (Inr (b, False), m3, r3) \<and>
     as_id b = as_id ex_host"
proof -
  have one: "memory_Ingest example_pb (\<lambda>_. None) (9, ex_obs '' Web01 '') (asset_ops example_pb (\<lambda>_. None) [], fmempty) =
      (Inr (ex_host, True), fmupd (as_id ex_host) ex_host fmempty, fmempty)"
    using ex_ingest_host by (simp add: asset_ops_def)
  have run: "(fmupd (as_id ex_host) ex_host fmempty, fmempty) = ingests example_pb (\<lambda>_. None) [] (fmupd (as_id ex_host) ex_host fmempty, fmempty)"
    by (simp add: ingests_def)
  have z: "\<not> IsZero 9" by (simp add: IsZero_def zero_time_def)
  let ?b = "ex_host\<lparr>as_status := ASSET_STATUS_ACTIVE, as_last_seen := Some (ts_New example_pb 9)\<rparr>"
  have st: "as_status ex_host = ASSET_STATUS_DISCOVERED" "as_type ex_host = ASSET_TYPE_HOST" "as_name ex_host = ''web01''"
    "as_first_seen ex_host = Some (ts_New example_pb 5)"
    by (simp_all add: ex_host_def discovered_def ex_obs_def)
  have v: "ValidateAsset example_pb (Some ?b) = None"
    by (rule ex_host_revised_valid(2))
  have t: "Touch example_pb (Some ex_host) 9 = Inr ?b" using z st by (simp add: Touch_def)
  have sv: "\<exists>m. memoryAsset_Save example_pb (\<lambda>_. None) (Some ?b) (fmupd (as_id ex_host) ex_host fmempty) = (None, m)"
    using ex_check [OF v] st by (auto simp: memoryAsset_Save_def list_ex_iff fmlookup_dom'_iff)
  then have "\<exists>m. memory_Ingest example_pb (\<lambda>_. None) (9, ex_obs ''web01'') (fmupd (as_id ex_host) ex_host fmempty, fmempty) = (Inr (?b, False), m, fmempty)"
    using z t by (auto simp: memory_Ingest_def asset_Ingest_def ex_normalize memory_assets_def memoryAsset_Get_def get_item_def touch_save_def)
  then obtain m where two: "memory_Ingest example_pb (\<lambda>_. None) (9, ex_obs ''web01'') (fmupd (as_id ex_host) ex_host fmempty, fmempty) = (Inr (?b, False), m, fmempty)"
    by blast
  have same: "ob_Type (ex_obs ''web01'') = ob_Type (ex_obs '' Web01 '')"
    "Canonicalize (\<lambda>_. None) (ob_Type (ex_obs '' Web01 '')) (ob_Raw (ex_obs ''web01'')) =
     Canonicalize (\<lambda>_. None) (ob_Type (ex_obs '' Web01 '')) (ob_Raw (ex_obs '' Web01 ''))"
    by (simp_all add: ex_obs_def ex_canonical)
  from observations_resolve_to_one_asset [OF one run two same] two show ?thesis by blast
qed

end
