(* ===== verification/SupplyChain.thy ===== *)
theory SupplyChain
  imports Memory Assets GoTime
begin

text \<open>
  \<open>internal/supplychain\<close>: components, dependency edges, SBOM records, policies, vendors and the
  links of controls to them, with their identities and validators, and the policy evaluation.
  The Go types of the form \<open>type X string\<close> are strings here, since any string can be
  converted to them; the validators hold the vocabularies. \<open>strings.EqualFold\<close> is the case
  folding of the prelude.
\<close>

subsection \<open>Shared checks\<close>

abbreviation blank :: "string \<Rightarrow> bool" where
  "blank s \<equiv> TrimSpace s = []"

definition required :: "string \<Rightarrow> string \<Rightarrow> goerr" where
  "required what s = fail_if (blank s) (Plain (what @ '' required''))"

definition required_time :: "string \<Rightarrow> gotime \<Rightarrow> goerr" where
  "required_time what t = fail_if (IsZero t) (Plain (what @ '' required''))"

text \<open>A vocabulary check, with the value quoted in the message between two texts.\<close>

definition bounded :: "string \<Rightarrow> string list \<Rightarrow> string \<Rightarrow> string \<Rightarrow> goerr" where
  "bounded before vocabulary v after = fail_if (v \<notin> set vocabulary) (Plain (before @ quote v @ '' not in bounded vocabulary'' @ after))"

definition EqualFold :: "string \<Rightarrow> string \<Rightarrow> bool" where
  "EqualFold a b \<longleftrightarrow> ToLower a = ToLower b"

lemma required_None [boundary]: "required what s = None \<longleftrightarrow> \<not> blank s"
  by (simp add: required_def)

lemma required_time_None [boundary]: "required_time what t = None \<longleftrightarrow> \<not> IsZero t"
  by (simp add: required_time_def)

lemma bounded_None [boundary]: "bounded b vs v a = None \<longleftrightarrow> v \<in> set vs"
  by (simp add: bounded_def)

subsection \<open>Components\<close>

definition ComponentType :: "string list" where
  "ComponentType = [''PACKAGE'', ''LIBRARY'', ''FRAMEWORK'', ''CONTAINER_IMAGE'', ''BINARY'', ''SOURCE_REPOSITORY'',
     ''BUILD_ARTIFACT'', ''INFRASTRUCTURE_MODULE'', ''UNKNOWN'']"

definition Provenance :: "string list" where
  "Provenance = [''MANIFEST'', ''LOCKFILE'', ''BUILD_METADATA'', ''CONTAINER_METADATA'', ''SOURCE_REPOSITORY'',
     ''DEPLOYMENT_OBSERVATION'', ''OPERATOR_DECLARATION'', ''SBOM_IMPORT'']"

abbreviation (input) StatusObserved :: string where "StatusObserved \<equiv> ''OBSERVED''"
abbreviation (input) StatusVerified :: string where "StatusVerified \<equiv> ''VERIFIED''"
abbreviation (input) StatusOutdated :: string where "StatusOutdated \<equiv> ''OUTDATED''"
abbreviation (input) StatusUnsupported :: string where "StatusUnsupported \<equiv> ''UNSUPPORTED''"
abbreviation (input) StatusPolicyViolation :: string where "StatusPolicyViolation \<equiv> ''POLICY_VIOLATION''"
abbreviation (input) StatusNotAssessed :: string where "StatusNotAssessed \<equiv> ''NOT_ASSESSED''"
abbreviation (input) StatusUnknown :: string where "StatusUnknown \<equiv> ''UNKNOWN''"

record Component =
  co_Type :: string
  co_Ecosystem :: string
  co_Namespace :: string
  co_Name :: string
  co_Version :: string
  co_RequestedVersion :: string
  co_ResolvedVersion :: string
  co_Digest :: string
  co_SourceRevision :: string
  co_License :: string
  co_LicenseSource :: string
  co_Provenance :: string
  co_Source :: string
  co_ObservedAt :: gotime
  co_Status :: string
  co_StatusBasis :: string

definition Component_ID :: "Component \<Rightarrow> string" where
  "Component_ID c = ''comp-'' @ id16 (join US [''blueveil-supply-component-v1'', ToLower (TrimSpace (co_Ecosystem c)),
     co_Namespace c, co_Name c, co_Version c, co_Digest c])"

definition Component_Validate :: "Component \<Rightarrow> goerr" where
  "Component_Validate c = first_err [
     bounded ''supplychain: component type '' ComponentType (co_Type c) [],
     required ''supplychain: component ecosystem'' (co_Ecosystem c),
     required ''supplychain: component name'' (co_Name c),
     bounded ''supplychain: provenance '' Provenance (co_Provenance c) [],
     required ''supplychain: component source'' (co_Source c),
     required_time ''supplychain: component observed timestamp'' (co_ObservedAt c),
     (if co_Status c \<in> {StatusObserved, StatusNotAssessed, StatusUnknown} then None
      else if co_Status c \<in> {StatusVerified, StatusOutdated, StatusUnsupported, StatusPolicyViolation} then
        fail_if (blank (co_StatusBasis c)) (Plain (''supplychain: status '' @ co_Status c @ '' requires an explicit basis''))
      else Some (Plain (''supplychain: status '' @ quote (co_Status c) @ '' not in bounded vocabulary (no vulnerability states)'')))]"

subsection \<open>Dependency edges\<close>

record Dependency =
  dp_ParentID :: string
  dp_ParentKind :: string
  dp_ChildID :: string
  dp_Kind :: string
  dp_Source :: string
  dp_ObservedAt :: gotime

definition DependencyKind :: "string list" where
  "DependencyKind = [''DEPENDS_ON'', ''CONTAINS'', ''BUILT_FROM'', ''DERIVED_FROM'']"

definition Dependency_Validate :: "Dependency \<Rightarrow> goerr" where
  "Dependency_Validate d = first_err [
     required ''supplychain: dependency parent'' (dp_ParentID d),
     required ''supplychain: dependency child'' (dp_ChildID d),
     fail_if (dp_ParentID d = dp_ChildID d) (Plain ''supplychain: dependency self-link refused''),
     bounded ''supplychain: dependency kind '' DependencyKind (dp_Kind d) [],
     required ''supplychain: dependency source'' (dp_Source d),
     required_time ''supplychain: dependency observed timestamp'' (dp_ObservedAt d)]"

subsection \<open>SBOM records\<close>

record SBOM =
  sb_Format :: string
  sb_FormatVersion :: string
  sb_ComponentIDs :: "string list"
  sb_GeneratedAt :: gotime
  sb_Source :: string
  sb_Digest :: string

definition SBOM_ID :: "SBOM \<Rightarrow> string" where
  "SBOM_ID s = ''sbom-'' @ id16 (join US ([''blueveil-supply-sbom-v1'', sb_Format s, sb_FormatVersion s] @ sort (sb_ComponentIDs s)))"

definition SBOMFormat :: "string list" where
  "SBOMFormat = [''SPDX'', ''CycloneDX'', ''UNKNOWN'']"

definition SBOM_Validate :: "SBOM \<Rightarrow> goerr" where
  "SBOM_Validate s = first_err [
     bounded ''supplychain: sbom format '' SBOMFormat (sb_Format s) [],
     fail_if (sb_ComponentIDs s = []) (Plain ''supplychain: sbom needs at least one component reference''),
     fail_if (list_ex (\<lambda>i. blank i) (sb_ComponentIDs s)) (Plain ''supplychain: sbom component reference empty''),
     required_time ''supplychain: sbom generated timestamp'' (sb_GeneratedAt s),
     required ''supplychain: sbom source'' (sb_Source s)]"

subsection \<open>Vendors, assessments and links\<close>

record Vendor =
  ve_Name :: string
  ve_Service :: string
  ve_Category :: string
  ve_Environment :: string
  ve_Status :: string
  ve_Source :: string
  ve_ObservedAt :: gotime

definition Vendor_ID :: "Vendor \<Rightarrow> string" where
  "Vendor_ID v = ''vend-'' @ id16 (join US [''blueveil-supply-vendor-v1'', ve_Name v, ve_Service v])"

definition VendorStatus :: "string list" where
  "VendorStatus = [''ACTIVE'', ''INACTIVE'', ''UNKNOWN'', ''NOT_ASSESSED'']"

definition Vendor_Validate :: "Vendor \<Rightarrow> goerr" where
  "Vendor_Validate v = first_err [
     required ''supplychain: vendor name'' (ve_Name v),
     required ''supplychain: vendor service'' (ve_Service v),
     bounded ''supplychain: vendor status '' VendorStatus (ve_Status v) '' (no trust states)'',
     required ''supplychain: vendor source'' (ve_Source v),
     required_time ''supplychain: vendor observed timestamp'' (ve_ObservedAt v)]"

record VendorAssessment =
  va_VendorID :: string
  va_Status :: string
  va_Assessor :: string
  va_ObservedAt :: gotime
  va_EvidenceIDs :: "string list"
  va_Note :: string

definition VendorAssessment_ID :: "VendorAssessment \<Rightarrow> string" where
  "VendorAssessment_ID a = ''vass-'' @ id16 (join US [''blueveil-supply-vendor-assessment-v1'', va_VendorID a, va_Status a,
     format_RFC3339Nano (va_ObservedAt a)])"

definition VendorAssessmentStatus :: "string list" where
  "VendorAssessmentStatus = [''REVIEWED'', ''REQUIREMENT_DECLARED'', ''NOT_ASSESSED'', ''UNKNOWN'']"

definition VendorAssessment_Validate :: "VendorAssessment \<Rightarrow> goerr" where
  "VendorAssessment_Validate a = first_err [
     required ''supplychain: vendor assessment vendor'' (va_VendorID a),
     bounded ''supplychain: vendor assessment status '' VendorAssessmentStatus (va_Status a) '' (no certifications)'',
     required ''supplychain: vendor assessment assessor'' (va_Assessor a),
     required_time ''supplychain: vendor assessment observed timestamp'' (va_ObservedAt a)]"

definition IsAssessmentStale :: "gotime \<Rightarrow> duration \<Rightarrow> gotime \<Rightarrow> bool" where
  "IsAssessmentStale assessedAt window now \<longleftrightarrow> \<not> (now - window < assessedAt)"

record SupplyLink =
  sl_ControlID :: string
  sl_SubjectKind :: string
  sl_SubjectID :: string
  sl_Basis :: string

definition SupplyLink_ID :: "SupplyLink \<Rightarrow> string" where
  "SupplyLink_ID l = ''slink-'' @ id16 (join US [''blueveil-supply-link-v1'', sl_ControlID l, sl_SubjectKind l, sl_SubjectID l])"

definition LinkSubjectKind :: "string list" where
  "LinkSubjectKind = [''component'', ''vendor'', ''sbom'']"

definition SupplyLink_Validate :: "SupplyLink \<Rightarrow> goerr" where
  "SupplyLink_Validate l = first_err [
     required ''supplychain: link control'' (sl_ControlID l),
     bounded ''supplychain: link subject kind '' LinkSubjectKind (sl_SubjectKind l) [],
     fail_if (blank (sl_SubjectID l)) (Plain ''supplychain: link subject id required (no timestamp-only links)''),
     required ''supplychain: link basis'' (sl_Basis l)]"

subsection \<open>Policies\<close>

record SupplyPolicy =
  po_ID :: string
  po_Name :: string
  po_Source :: string
  po_AllowedEcosystems :: "string list"
  po_AllowedLicenses :: "string list"
  po_AllowedProvenance :: "string list"
  po_RequireDigest :: bool
  po_MinVersions :: "string gomap"
  po_Prohibited :: "string list"
  po_RequireSBOM :: bool
  po_ApprovedRepos :: "string list"

definition SupplyPolicy_Validate :: "SupplyPolicy \<Rightarrow> goerr" where
  "SupplyPolicy_Validate p = first_err [
     required ''supplychain: policy id'' (po_ID p),
     required ''supplychain: policy name'' (po_Name p),
     required ''supplychain: policy source'' (po_Source p),
     fail_if (list_ex (\<lambda>s. blank s) (po_Prohibited p)) (Plain ''supplychain: prohibited entry empty'')]"

datatype PolicyVerdict = PolicyOK | PolicyViolation | PolicyUnknown

record PolicyResult =
  pr_PolicyID :: string
  pr_ComponentID :: string
  pr_Verdict :: PolicyVerdict
  pr_Reasons :: "string list"

text \<open>\<open>compareVersions\<close>: the numbers of a release, and their comparison position by position.\<close>

fun parse_parts :: "string list \<Rightarrow> int list option" where
  "parse_parts [] = Some []"
| "parse_parts (p # ps) =
     (case Atoi p of
        None \<Rightarrow> None
      | Some n \<Rightarrow> if n < 0 then None else map_option ((#) n) (parse_parts ps))"

definition parse_version :: "string \<Rightarrow> int list option" where
  "parse_version s0 = (let s = TrimSpace s0 in if s = [] then None else parse_parts (split_on (CHR ''.'') s))"

fun compare_numbers :: "int list \<Rightarrow> int list \<Rightarrow> int" where
  "compare_numbers (h # hs) (w # ws) = (if h \<noteq> w then (if h < w then - 1 else 1) else compare_numbers hs ws)"
| "compare_numbers [] (w # ws) = - 1"
| "compare_numbers (h # hs) [] = 1"
| "compare_numbers [] [] = 0"

definition compareVersions :: "string \<Rightarrow> string \<Rightarrow> int \<times> bool" where
  "compareVersions current want =
     (case (parse_version current, parse_version want) of
        (Some h, Some w) \<Rightarrow> (compare_numbers h w, True)
      | _ \<Rightarrow> (0, False))"

text \<open>The two closures that \<open>EvaluatePolicy\<close> writes its result with.\<close>

definition violates :: "string \<Rightarrow> PolicyResult \<Rightarrow> PolicyResult" where
  "violates reason res = res\<lparr>pr_Verdict := PolicyViolation, pr_Reasons := pr_Reasons res @ [reason]\<rparr>"

definition unevaluable :: "string \<Rightarrow> PolicyResult \<Rightarrow> PolicyResult" where
  "unevaluable reason res =
     (let res1 = (if pr_Verdict res = PolicyOK then res\<lparr>pr_Verdict := PolicyUnknown\<rparr> else res)
      in res1\<lparr>pr_Reasons := pr_Reasons res1 @ [reason]\<rparr>)"

definition eval_ecosystem :: "Component \<Rightarrow> SupplyPolicy \<Rightarrow> PolicyResult \<Rightarrow> PolicyResult" where
  "eval_ecosystem c p res =
     (if po_AllowedEcosystems p \<noteq> [] \<and> \<not> list_ex (\<lambda>e. EqualFold (TrimSpace e) (co_Ecosystem c)) (po_AllowedEcosystems p)
      then violates (''ecosystem '' @ co_Ecosystem c @ '' not allowed'') res else res)"

fun eval_prohibited :: "Component \<Rightarrow> string list \<Rightarrow> PolicyResult \<Rightarrow> PolicyResult" where
  "eval_prohibited c [] res = res"
| "eval_prohibited c (d # ds) res =
     (let denied = TrimSpace d in
      if denied = [] then eval_prohibited c ds res
      else if EqualFold denied (co_Ecosystem c @ ''/'' @ co_Name c) \<or> EqualFold denied (Component_ID c)
        then eval_prohibited c ds (violates (''component '' @ denied @ '' prohibited'') res)
      else eval_prohibited c ds res)"

definition eval_digest :: "Component \<Rightarrow> SupplyPolicy \<Rightarrow> PolicyResult \<Rightarrow> PolicyResult" where
  "eval_digest c p res = (if po_RequireDigest p \<and> blank (co_Digest c) then violates ''digest required but absent'' res else res)"

definition eval_version :: "Component \<Rightarrow> SupplyPolicy \<Rightarrow> PolicyResult \<Rightarrow> PolicyResult" where
  "eval_version c p res =
     (case fmlookup (po_MinVersions p) (ToLower (co_Ecosystem c)) of
        None \<Rightarrow> res
      | Some lo \<Rightarrow>
          if blank (co_Version c) then unevaluable (''no version to compare against minimum '' @ lo) res
          else (case compareVersions (co_Version c) lo of (cmp, ok) \<Rightarrow>
            if \<not> ok then unevaluable (''version '' @ co_Version c @ '' not comparable'') res
            else if cmp < 0 then violates (''version '' @ co_Version c @ '' below minimum '' @ lo) res
            else res))"

definition eval_license :: "Component \<Rightarrow> SupplyPolicy \<Rightarrow> PolicyResult \<Rightarrow> PolicyResult" where
  "eval_license c p res =
     (if po_AllowedLicenses p = [] then res
      else if blank (co_License c) then unevaluable ''no declared license to check'' res
      else if list_ex (\<lambda>l. EqualFold (TrimSpace l) (co_License c)) (po_AllowedLicenses p) then res
      else violates (''license '' @ co_License c @ '' not allowed'') res)"

definition eval_provenance :: "Component \<Rightarrow> SupplyPolicy \<Rightarrow> PolicyResult \<Rightarrow> PolicyResult" where
  "eval_provenance c p res =
     (if po_AllowedProvenance p \<noteq> [] \<and> co_Provenance c \<notin> set (po_AllowedProvenance p)
      then violates (''provenance '' @ co_Provenance c @ '' not allowed'') res else res)"

definition EvaluatePolicy :: "Component \<Rightarrow> SupplyPolicy \<Rightarrow> PolicyResult" where
  "EvaluatePolicy c p =
     (let res0 = \<lparr>pr_PolicyID = po_ID p, pr_ComponentID = Component_ID c, pr_Verdict = PolicyOK, pr_Reasons = []\<rparr>;
          res1 = eval_ecosystem c p res0;
          res2 = eval_prohibited c (po_Prohibited p) res1;
          res3 = eval_digest c p res2;
          res4 = eval_version c p res3;
          res5 = eval_license c p res4;
          res6 = eval_provenance c p res5
      in res6\<lparr>pr_Reasons := sort (pr_Reasons res6)\<rparr>)"

subsection \<open>What a verdict means\<close>

text \<open>The numbers are compared in the lexicographic order of their lists.\<close>

lemma compare_numbers_order: "compare_numbers h w = (if h < w then - 1 else if h = w then 0 else 1)"
  by (induction h w rule: compare_numbers.induct) auto

definition below_minimum :: "string \<Rightarrow> string \<Rightarrow> bool" where
  "below_minimum v lo \<longleftrightarrow> (\<exists>h w. parse_version v = Some h \<and> parse_version lo = Some w \<and> h < w)"

definition comparable_versions :: "string \<Rightarrow> string \<Rightarrow> bool" where
  "comparable_versions v lo \<longleftrightarrow> parse_version v \<noteq> None \<and> parse_version lo \<noteq> None"

definition ecosystem_violated :: "Component \<Rightarrow> SupplyPolicy \<Rightarrow> bool" where
  "ecosystem_violated c p \<longleftrightarrow> po_AllowedEcosystems p \<noteq> [] \<and>
     (\<forall>e \<in> set (po_AllowedEcosystems p). \<not> EqualFold (TrimSpace e) (co_Ecosystem c))"

definition prohibited_violated :: "Component \<Rightarrow> SupplyPolicy \<Rightarrow> bool" where
  "prohibited_violated c p \<longleftrightarrow> (\<exists>d \<in> set (po_Prohibited p). \<not> blank d \<and>
     (EqualFold (TrimSpace d) (co_Ecosystem c @ ''/'' @ co_Name c) \<or> EqualFold (TrimSpace d) (Component_ID c)))"

definition minimum_for :: "Component \<Rightarrow> SupplyPolicy \<Rightarrow> string option" where
  "minimum_for c p = fmlookup (po_MinVersions p) (ToLower (co_Ecosystem c))"

definition version_violated :: "Component \<Rightarrow> SupplyPolicy \<Rightarrow> bool" where
  "version_violated c p \<longleftrightarrow> (\<exists>lo. minimum_for c p = Some lo \<and> below_minimum (co_Version c) lo)"

definition version_unknown :: "Component \<Rightarrow> SupplyPolicy \<Rightarrow> bool" where
  "version_unknown c p \<longleftrightarrow> (\<exists>lo. minimum_for c p = Some lo \<and> \<not> comparable_versions (co_Version c) lo)"

definition license_violated :: "Component \<Rightarrow> SupplyPolicy \<Rightarrow> bool" where
  "license_violated c p \<longleftrightarrow> po_AllowedLicenses p \<noteq> [] \<and> \<not> blank (co_License c) \<and>
     (\<forall>l \<in> set (po_AllowedLicenses p). \<not> EqualFold (TrimSpace l) (co_License c))"

definition provenance_violated :: "Component \<Rightarrow> SupplyPolicy \<Rightarrow> bool" where
  "provenance_violated c p \<longleftrightarrow> po_AllowedProvenance p \<noteq> [] \<and> co_Provenance c \<notin> set (po_AllowedProvenance p)"

text \<open>The specification: a component violates a policy in one of six dimensions.\<close>

definition policy_violated :: "Component \<Rightarrow> SupplyPolicy \<Rightarrow> bool" where
  "policy_violated c p \<longleftrightarrow> ecosystem_violated c p \<or> prohibited_violated c p \<or> (po_RequireDigest p \<and> blank (co_Digest c)) \<or>
     version_violated c p \<or> license_violated c p \<or> provenance_violated c p"

definition policy_open :: "Component \<Rightarrow> SupplyPolicy \<Rightarrow> bool" where
  "policy_open c p \<longleftrightarrow> version_unknown c p \<or> (po_AllowedLicenses p \<noteq> [] \<and> blank (co_License c))"

text \<open>One dimension adds its reason and moves the verdict up.\<close>

definition dim_moved :: "bool \<Rightarrow> bool \<Rightarrow> PolicyResult \<Rightarrow> PolicyResult \<Rightarrow> bool" where
  "dim_moved bad opn res res' \<longleftrightarrow>
     pr_Verdict res' = (if bad then PolicyViolation else if opn \<and> pr_Verdict res = PolicyOK then PolicyUnknown else pr_Verdict res) \<and>
     (pr_Reasons res' = [] \<longleftrightarrow> pr_Reasons res = [] \<and> \<not> bad \<and> \<not> opn)"

lemma moved_same: "dim_moved False False res res"
  by (simp add: dim_moved_def)

lemma moved_violates: "dim_moved True opn res (violates r res)"
  by (simp add: dim_moved_def violates_def)

lemma moved_unevaluable: "dim_moved False True res (unevaluable r res)"
  by (simp add: dim_moved_def unevaluable_def Let_def)

lemma moved_trans: "dim_moved b o1 r s \<Longrightarrow> dim_moved b' o2 s t \<Longrightarrow> dim_moved (b \<or> b') (o1 \<or> o2) r t"
  by (auto simp: dim_moved_def)

lemma moved_ecosystem: "dim_moved (ecosystem_violated c p) False res (eval_ecosystem c p res)"
proof -
  have "ecosystem_violated c p \<longleftrightarrow> po_AllowedEcosystems p \<noteq> [] \<and>
      \<not> list_ex (\<lambda>e. EqualFold (TrimSpace e) (co_Ecosystem c)) (po_AllowedEcosystems p)"
    by (auto simp: ecosystem_violated_def list_ex_iff)
  then show ?thesis by (simp add: eval_ecosystem_def moved_same moved_violates)
qed

lemma moved_digest: "dim_moved (po_RequireDigest p \<and> blank (co_Digest c)) False res (eval_digest c p res)"
  by (auto simp: eval_digest_def moved_same moved_violates)

lemma moved_license: "dim_moved (license_violated c p) (po_AllowedLicenses p \<noteq> [] \<and> blank (co_License c)) res (eval_license c p res)"
proof -
  have "license_violated c p \<longleftrightarrow> po_AllowedLicenses p \<noteq> [] \<and> \<not> blank (co_License c) \<and>
      \<not> list_ex (\<lambda>l. EqualFold (TrimSpace l) (co_License c)) (po_AllowedLicenses p)"
    by (auto simp: license_violated_def list_ex_iff)
  then show ?thesis by (simp add: eval_license_def moved_same moved_violates moved_unevaluable)
qed

lemma moved_provenance: "dim_moved (provenance_violated c p) False res (eval_provenance c p res)"
  by (auto simp: eval_provenance_def provenance_violated_def moved_same moved_violates)

lemma moved_version: "dim_moved (version_violated c p) (version_unknown c p) res (eval_version c p res)"
proof -
  have blank_none: "blank v \<Longrightarrow> parse_version v = None" for v by (simp add: parse_version_def)
  show ?thesis
    by (auto simp: eval_version_def version_violated_def version_unknown_def minimum_for_def below_minimum_def comparable_versions_def
        compareVersions_def compare_numbers_order blank_none moved_same moved_violates moved_unevaluable split: option.splits)
qed

lemma moved_prohibited:
  "dim_moved (\<exists>d \<in> set ds. \<not> blank d \<and> (EqualFold (TrimSpace d) (co_Ecosystem c @ ''/'' @ co_Name c) \<or> EqualFold (TrimSpace d) (Component_ID c)))
     False res (eval_prohibited c ds res)"
proof (induction ds arbitrary: res)
  case (Cons d ds)
  show ?case
  proof (cases "\<not> blank d \<and> (EqualFold (TrimSpace d) (co_Ecosystem c @ ''/'' @ co_Name c) \<or> EqualFold (TrimSpace d) (Component_ID c))")
    case True
    then have "eval_prohibited c (d # ds) res = eval_prohibited c ds (violates (''component '' @ TrimSpace d @ '' prohibited'') res)"
      by (simp add: Let_def)
    then show ?thesis using moved_trans [OF moved_violates Cons.IH] True by auto
  next
    case False
    then have "eval_prohibited c (d # ds) res = eval_prohibited c ds res" by (auto simp: Let_def)
    then show ?thesis using Cons.IH False by auto
  qed
qed (simp add: moved_same)

lemma EvaluatePolicy_moved:
  "dim_moved (policy_violated c p) (policy_open c p)
     \<lparr>pr_PolicyID = po_ID p, pr_ComponentID = Component_ID c, pr_Verdict = PolicyOK, pr_Reasons = []\<rparr> (EvaluatePolicy c p)"
proof -
  have nil: "sort xs = [] \<longleftrightarrow> xs = []" for xs :: "string list" by (metis set_empty set_sort)
  have sorted_too: "dim_moved b o1 r s \<Longrightarrow> dim_moved b o1 r (s\<lparr>pr_Reasons := sort (pr_Reasons s)\<rparr>)" for b o1 r s
    by (simp add: dim_moved_def nil)
  show ?thesis
    unfolding EvaluatePolicy_def Let_def
    by (rule sorted_too)
      (use moved_trans [OF moved_trans [OF moved_trans [OF moved_trans [OF moved_trans [OF
        moved_ecosystem moved_prohibited] moved_digest] moved_version] moved_license] moved_provenance]
       in \<open>simp add: policy_violated_def policy_open_def prohibited_violated_def\<close>)
qed

subsection \<open>The properties\<close>

text \<open>
  C22. \<open>EvaluatePolicy\<close> decides exactly the specification: VIOLATION when one of the six
  dimensions is violated (a version is below the minimum in the lexicographic order of its
  numbers), UNKNOWN when none is but a version or a license cannot be judged, OK otherwise;
  there are no reasons exactly for OK, and the reasons are sorted.
\<close>

theorem policy_verdict_meaning:
  "pr_Verdict (EvaluatePolicy c p) =
     (if policy_violated c p then PolicyViolation else if policy_open c p then PolicyUnknown else PolicyOK) \<and>
   (pr_Reasons (EvaluatePolicy c p) = [] \<longleftrightarrow> pr_Verdict (EvaluatePolicy c p) = PolicyOK) \<and>
   sorted (pr_Reasons (EvaluatePolicy c p))"
proof -
  have "sorted (pr_Reasons (EvaluatePolicy c p))" by (simp add: EvaluatePolicy_def Let_def)
  then show ?thesis using EvaluatePolicy_moved [of c p] by (auto simp: dim_moved_def)
qed

text \<open>A space before the ecosystem changes neither the identity nor the validity.\<close>

definition padded :: "Component \<Rightarrow> Component" where
  "padded c = c\<lparr>co_Ecosystem := CHR '' '' # co_Ecosystem c\<rparr>"

lemma TrimSpace_pad: "TrimSpace (CHR '' '' # s) = TrimSpace s"
proof -
  have sp: "is_space (CHR '' '')" by (simp add: is_space_def)
  show ?thesis by (simp add: TrimSpace_def sp)
qed

lemma padded_ID: "Component_ID (padded c) = Component_ID c"
  by (simp add: Component_ID_def padded_def TrimSpace_pad)

lemma padded_Validate: "Component_Validate (padded c) = Component_Validate c"
  by (simp add: Component_Validate_def padded_def required_def TrimSpace_pad)

lemma dropWhile_hd: "dropWhile P s \<noteq> [] \<Longrightarrow> \<not> P (hd (dropWhile P s))"
  by (rule hd_dropWhile)

lemma TrimSpace_hd: "TrimSpace s \<noteq> [] \<Longrightarrow> \<not> is_space (hd (TrimSpace s))"
proof -
  assume ne: "TrimSpace s \<noteq> []"
  let ?d = "dropWhile is_space s"
  obtain t where t: "rev ?d = t @ dropWhile is_space (rev ?d)" by (metis takeWhile_dropWhile_id)
  have "?d = TrimSpace s @ rev t" using arg_cong [OF t, of rev] by (simp add: TrimSpace_def)
  then have "hd ?d = hd (TrimSpace s)" "?d \<noteq> []" using ne by auto
  then show ?thesis using hd_dropWhile [of is_space s] by simp
qed

lemma not_EqualFold_pad: "\<not> EqualFold (TrimSpace d) (CHR '' '' # s)"
proof
  assume "EqualFold (TrimSpace d) (CHR '' '' # s)"
  then have eq: "map lower_char (TrimSpace d) = lower_char (CHR '' '') # map lower_char s"
    by (simp add: EqualFold_def ToLower_def)
  then have ne: "TrimSpace d \<noteq> []" by auto
  then have "lower_char (hd (TrimSpace d)) = lower_char (CHR '' '')" using eq by (metis hd_map list.sel(1))
  moreover have "lower_char (CHR '' '') = CHR '' ''" by (simp add: lower_char_def Let_def)
  ultimately have "lower_char (hd (TrimSpace d)) = CHR '' ''" by simp
  then have "is_space (lower_char (hd (TrimSpace d)))" by (simp add: is_space_def)
  then show False using TrimSpace_hd [OF ne] by simp
qed

text \<open>
  A space before the ecosystem escapes a policy: the component keeps its id and stays valid,
  but a policy that only sets minimum versions and prohibits by \<open>ecosystem/name\<close> no longer
  constrains it, although the id of the component is computed from the trimmed ecosystem.
\<close>

theorem padded_ecosystem_escapes:
  assumes "po_AllowedEcosystems p = []" and "\<not> po_RequireDigest p" and "po_AllowedLicenses p = []"
    and "po_AllowedProvenance p = []" and "\<forall>d \<in> set (po_Prohibited p). \<not> EqualFold (TrimSpace d) (Component_ID c)"
    and "\<forall>k \<in> fmdom' (po_MinVersions p). TrimSpace k = k"
  shows "Component_ID (padded c) = Component_ID c \<and> Component_Validate (padded c) = Component_Validate c \<and>
    pr_Verdict (EvaluatePolicy (padded c) p) = PolicyOK"
proof -
  have low: "lower_char (CHR '' '') = CHR '' ''" by (simp add: lower_char_def Let_def)
  have "minimum_for (padded c) p = None"
  proof (rule ccontr)
    assume "minimum_for (padded c) p \<noteq> None"
    then have "ToLower (co_Ecosystem (padded c)) \<in> fmdom' (po_MinVersions p)" by (auto simp: minimum_for_def fmlookup_dom'_iff)
    then have "TrimSpace (CHR '' '' # ToLower (co_Ecosystem c)) = CHR '' '' # ToLower (co_Ecosystem c)"
      using assms(6) by (simp add: padded_def ToLower_def low)
    then show False using TrimSpace_hd [of "CHR '' '' # ToLower (co_Ecosystem c)"] by (simp add: is_space_def)
  qed
  moreover have "\<not> prohibited_violated (padded c) p"
    using assms(5) not_EqualFold_pad by (auto simp: prohibited_violated_def padded_ID) (simp add: padded_def not_EqualFold_pad)
  ultimately have "\<not> policy_violated (padded c) p" "\<not> policy_open (padded c) p"
    using assms(1-4) by (simp_all add: policy_violated_def policy_open_def ecosystem_violated_def version_violated_def
        version_unknown_def license_violated_def provenance_violated_def)
  then show ?thesis using EvaluatePolicy_moved [of "padded c" p] by (simp add: dim_moved_def padded_ID padded_Validate)
qed

definition ex_component :: Component where
  "ex_component = \<lparr>co_Type = ''LIBRARY'', co_Ecosystem = ''npm'', co_Namespace = [], co_Name = ''left'', co_Version = ''1.2'',
     co_RequestedVersion = [], co_ResolvedVersion = [], co_Digest = [], co_SourceRevision = [], co_License = [], co_LicenseSource = [],
     co_Provenance = ''MANIFEST'', co_Source = ''op'', co_ObservedAt = 5, co_Status = ''OBSERVED'', co_StatusBasis = []\<rparr>"

definition ex_policy :: SupplyPolicy where
  "ex_policy = \<lparr>po_ID = ''p1'', po_Name = ''minimum'', po_Source = ''op'', po_AllowedEcosystems = [], po_AllowedLicenses = [],
     po_AllowedProvenance = [], po_RequireDigest = False, po_MinVersions = fmap_of_list [(''npm'', ''1.10'')], po_Prohibited = [],
     po_RequireSBOM = False, po_ApprovedRepos = []\<rparr>"

lemma ex_policy_violated: "policy_violated ex_component ex_policy"
proof -
  have "parse_version ''1.2'' = Some [1, 2]" "parse_version ''1.10'' = Some [1, 10]" "ToLower ''npm'' = ''npm''" by code_simp+
  then have "version_violated ex_component ex_policy"
    by (simp add: version_violated_def minimum_for_def below_minimum_def ex_component_def ex_policy_def fmlookup_of_list)
  then show ?thesis by (simp add: policy_violated_def)
qed

theorem padded_ecosystem_escapes_witness:
  "pr_Verdict (EvaluatePolicy ex_component ex_policy) = PolicyViolation \<and>
   pr_Verdict (EvaluatePolicy (padded ex_component) ex_policy) = PolicyOK \<and>
   Component_ID (padded ex_component) = Component_ID ex_component"
proof -
  have t: "TrimSpace ''npm'' = ''npm''" by code_simp
  have "pr_Verdict (EvaluatePolicy ex_component ex_policy) = PolicyViolation"
    using EvaluatePolicy_moved [of ex_component ex_policy] ex_policy_violated by (simp add: dim_moved_def)
  then show ?thesis using padded_ecosystem_escapes [of ex_policy ex_component] by (simp add: ex_policy_def t)
qed

end
