(* ===== verification/SupplyChecks.thy ===== *)
theory SupplyChecks
  imports SupplyChain "HOL-Library.Product_Lexorder" "HOL-Library.Multiset"
begin

text \<open>
  \<open>internal/supplychain/continuous.go\<close> and \<open>history.go\<close>: the five continuous checks over
  stored state and the posture history. A check returns its rule id, the subject, the outcome
  and the basis; a disabled check says so before it looks at anything.
\<close>

subsection \<open>Results and configuration\<close>

datatype CheckOutcome = CheckPass | CheckFail | CheckNotApplicable | CheckDisabled

record CheckResult =
  cr_RuleID :: string
  cr_Version :: string
  cr_SubjectID :: string
  cr_Outcome :: CheckOutcome
  cr_Basis :: string

abbreviation (input) CheckVersion :: string where "CheckVersion \<equiv> ''1''"
abbreviation (input) CheckIDMissingSBOM :: string where "CheckIDMissingSBOM \<equiv> ''supply-missing-sbom''"
abbreviation (input) CheckIDUnverifiedProvenance :: string where "CheckIDUnverifiedProvenance \<equiv> ''supply-unverified-provenance''"
abbreviation (input) CheckIDPolicyViolation :: string where "CheckIDPolicyViolation \<equiv> ''supply-policy-violation''"
abbreviation (input) CheckIDStaleVendor :: string where "CheckIDStaleVendor \<equiv> ''supply-stale-vendor-assessment''"
abbreviation (input) CheckIDRegression :: string where "CheckIDRegression \<equiv> ''supply-posture-regression''"

record CheckConfig =
  cc_RequireSBOM :: bool
  cc_RequireProvenance :: bool
  cc_AllowedProvenance :: "string list"
  cc_Policies :: "SupplyPolicy list"
  cc_VendorWindow :: duration
  cc_Enabled :: "bool gomap"

definition result :: "string \<Rightarrow> string \<Rightarrow> CheckOutcome \<Rightarrow> string \<Rightarrow> CheckResult" where
  "result rule subject outcome basis =
     \<lparr>cr_RuleID = rule, cr_Version = CheckVersion, cr_SubjectID = subject, cr_Outcome = outcome, cr_Basis = basis\<rparr>"

text \<open>\<open>checkEnabled\<close>: a rule is off only when the configuration maps it to false.\<close>

definition checkEnabled :: "CheckConfig \<Rightarrow> string \<Rightarrow> CheckResult option" where
  "checkEnabled cfg rule =
     (case fmlookup (cc_Enabled cfg) rule of
        Some False \<Rightarrow> Some (result rule [] CheckDisabled ''check disabled by configuration'')
      | _ \<Rightarrow> None)"

definition unless_disabled :: "CheckConfig \<Rightarrow> string \<Rightarrow> string \<Rightarrow> CheckResult \<Rightarrow> CheckResult" where
  "unless_disabled cfg rule subject r =
     (case checkEnabled cfg rule of Some disabled \<Rightarrow> disabled\<lparr>cr_SubjectID := subject\<rparr> | None \<Rightarrow> r)"

subsection \<open>The checks\<close>

definition CheckMissingSBOM :: "Component \<Rightarrow> SBOM list \<Rightarrow> CheckConfig \<Rightarrow> CheckResult" where
  "CheckMissingSBOM c sboms cfg =
     unless_disabled cfg CheckIDMissingSBOM (Component_ID c)
       (let r = result CheckIDMissingSBOM (Component_ID c) in
        if \<not> cc_RequireSBOM cfg then r CheckNotApplicable ''SBOM coverage not required by configuration''
        else if list_ex (\<lambda>s. list_ex (\<lambda>i. i = Component_ID c) (sb_ComponentIDs s)) sboms
          then r CheckPass ''component covered by observed SBOM''
        else r CheckFail ''SBOM required but no SBOM references this component'')"

definition CheckUnverifiedProvenance :: "Component \<Rightarrow> CheckConfig \<Rightarrow> CheckResult" where
  "CheckUnverifiedProvenance c cfg =
     unless_disabled cfg CheckIDUnverifiedProvenance (Component_ID c)
       (let r = result CheckIDUnverifiedProvenance (Component_ID c) in
        if \<not> cc_RequireProvenance cfg \<and> cc_AllowedProvenance cfg = [] then r CheckNotApplicable ''provenance policy not configured''
        else if cc_AllowedProvenance cfg \<noteq> [] then
          (if list_ex (\<lambda>p. p = co_Provenance c) (cc_AllowedProvenance cfg)
             then r CheckPass (''provenance '' @ co_Provenance c @ '' allowed'')
           else r CheckFail (''provenance '' @ co_Provenance c @ '' not in allowed set''))
        else r CheckPass ''provenance recorded'')"

text \<open>
  The policies in the order of their ids. (\<open>sort.Slice\<close> does not say how it orders equal ids;
  stored policies have distinct ones.)
\<close>

fun first_violated :: "Component \<Rightarrow> SupplyPolicy list \<Rightarrow> CheckResult" where
  "first_violated c [] = result CheckIDPolicyViolation (Component_ID c) CheckPass ''no configured policy violated''"
| "first_violated c (p # ps) =
     (let res = EvaluatePolicy c p in
      if pr_Verdict res = PolicyViolation then
        (let reasons = sort (pr_Reasons res);
             basis = ''policy '' @ po_ID p @ '' violated'' @ (if reasons \<noteq> [] then '': '' @ hd reasons else [])
         in result CheckIDPolicyViolation (Component_ID c) CheckFail basis)
      else first_violated c ps)"

definition CheckPolicyViolation :: "Component \<Rightarrow> CheckConfig \<Rightarrow> CheckResult" where
  "CheckPolicyViolation c cfg =
     unless_disabled cfg CheckIDPolicyViolation (Component_ID c)
       (if cc_Policies cfg = [] then result CheckIDPolicyViolation (Component_ID c) CheckNotApplicable ''no policies configured''
        else first_violated c (sort_key po_ID (cc_Policies cfg)))"

text \<open>The newest assessment of a vendor; of several at one instant the first.\<close>

fun newest :: "string \<Rightarrow> VendorAssessment list \<Rightarrow> VendorAssessment option \<Rightarrow> VendorAssessment option" where
  "newest vendorID [] acc = acc"
| "newest vendorID (a # as) acc =
     (if va_VendorID a \<noteq> vendorID then newest vendorID as acc
      else (case acc of
              None \<Rightarrow> newest vendorID as (Some a)
            | Some n \<Rightarrow> newest vendorID as (if va_ObservedAt n < va_ObservedAt a then Some a else Some n)))"

definition CheckStaleVendor :: "string \<Rightarrow> VendorAssessment list \<Rightarrow> CheckConfig \<Rightarrow> gotime \<Rightarrow> CheckResult" where
  "CheckStaleVendor vendorID assessments cfg now =
     unless_disabled cfg CheckIDStaleVendor vendorID
       (let r = result CheckIDStaleVendor vendorID in
        if cc_VendorWindow cfg \<le> 0 then r CheckNotApplicable ''vendor window not configured''
        else (case newest vendorID assessments None of
            None \<Rightarrow> r CheckNotApplicable ''no assessment recorded for vendor''
          | Some a \<Rightarrow>
              if IsAssessmentStale (va_ObservedAt a) (cc_VendorWindow cfg) now
                then r CheckFail (''newest assessment '' @ format_RFC3339 (va_ObservedAt a) @ '' past window '' @ duration_String (cc_VendorWindow cfg))
              else r CheckPass ''assessment within window''))"

definition statusRank :: "string \<Rightarrow> int \<times> bool" where
  "statusRank s =
     (if s = StatusUnknown \<or> s = StatusNotAssessed then (0, True)
      else if s = StatusObserved then (1, True)
      else if s = StatusOutdated \<or> s = StatusUnsupported then (2, True)
      else if s = StatusPolicyViolation then (3, True)
      else if s = StatusVerified then (4, True)
      else (0, False))"

definition CheckRegression :: "string \<Rightarrow> Component \<Rightarrow> string gomap \<Rightarrow> CheckConfig \<Rightarrow> CheckResult" where
  "CheckRegression subjectID current previous cfg =
     unless_disabled cfg CheckIDRegression subjectID
       (let r = result CheckIDRegression subjectID in
        case fmlookup previous subjectID of
          None \<Rightarrow> r CheckNotApplicable ''no previous status recorded''
        | Some prev \<Rightarrow>
            (case (statusRank prev, statusRank (co_Status current)) of ((oldRank, oldOK), (newRank, newOK)) \<Rightarrow>
               if \<not> oldOK \<or> \<not> newOK \<or> oldRank = 0 then r CheckNotApplicable ''unranked state cannot regress''
               else if newRank < oldRank then r CheckFail (''status dim_moved '' @ prev @ '' to '' @ co_Status current)
               else r CheckPass ''status not weaker than recorded''))"

subsection \<open>History\<close>

record HistoryEntry =
  he_ID :: string
  he_OccurredAt :: gotime
  he_Kind :: string
  he_SubjectID :: string
  he_Summary :: string

definition historyID :: "string \<Rightarrow> string \<Rightarrow> gotime \<Rightarrow> string" where
  "historyID kind subject t = ''shist-'' @ id16 (join US [''blueveil-supply-history-v1'', kind, subject, format_RFC3339Nano t])"

text \<open>The package's own \<open>itoa\<close>: digits are written from the right into a buffer.\<close>

fun itoa_loop :: "nat \<Rightarrow> string \<Rightarrow> string" where
  "itoa_loop n b = (if n = 0 then b else itoa_loop (n div 10) (digit (n mod 10) # b))"

declare itoa_loop.simps [simp del]

definition supply_itoa :: "nat \<Rightarrow> string" where
  "supply_itoa n = (if n = 0 then ''0'' else itoa_loop n [])"

definition history_row :: "string \<Rightarrow> string \<Rightarrow> string \<Rightarrow> gotime \<Rightarrow> string \<Rightarrow> HistoryEntry" where
  "history_row kind keyed_by subject t summary =
     \<lparr>he_ID = historyID kind keyed_by t, he_OccurredAt = t, he_Kind = kind, he_SubjectID = subject, he_Summary = summary\<rparr>"

definition component_row :: "Component \<Rightarrow> HistoryEntry" where
  "component_row c = history_row ''component'' (Component_ID c) (Component_ID c) (co_ObservedAt c)
     (co_Ecosystem c @ ''/'' @ co_Name c @ ''@'' @ co_Version c @ '' '' @ co_Status c)"

definition assessment_row :: "VendorAssessment \<Rightarrow> HistoryEntry" where
  "assessment_row a = history_row ''vendor-assessment'' (VendorAssessment_ID a) (va_VendorID a) (va_ObservedAt a)
     (''vendor '' @ va_VendorID a @ '' '' @ va_Status a)"

definition sbom_row :: "SBOM \<Rightarrow> HistoryEntry" where
  "sbom_row s = history_row ''sbom'' (SBOM_ID s) (SBOM_ID s) (sb_GeneratedAt s)
     (sb_Format s @ '' sbom with '' @ supply_itoa (length (sb_ComponentIDs s)) @ '' components'')"

definition PostureHistory :: "Component list \<Rightarrow> VendorAssessment list \<Rightarrow> SBOM list \<Rightarrow> HistoryEntry list" where
  "PostureHistory comps assessments sboms =
     sort_key (\<lambda>e. (he_OccurredAt e, he_ID e))
       (map component_row (filter (\<lambda>c. \<not> IsZero (co_ObservedAt c)) comps)
        @ map assessment_row (filter (\<lambda>a. \<not> IsZero (va_ObservedAt a)) assessments)
        @ map sbom_row (filter (\<lambda>s. \<not> IsZero (sb_GeneratedAt s)) sboms))"

subsection \<open>Facts\<close>

lemma itoa_loop_utoa: "0 < n \<Longrightarrow> itoa_loop n b = utoa n @ b"
proof (induction n arbitrary: b rule: less_induct)
  case (less n)
  show ?case
  proof (cases "n < 10")
    case True
    then show ?thesis using less.prems by (simp add: itoa_loop.simps [of n] itoa_loop.simps [of 0] utoa.simps [of n])
  next
    case False
    then have "itoa_loop (n div 10) (digit (n mod 10) # b) = utoa (n div 10) @ digit (n mod 10) # b" using less by simp
    then show ?thesis using False less.prems by (simp add: itoa_loop.simps [of n] utoa.simps [of n])
  qed
qed

lemma supply_itoa_utoa: "supply_itoa n = utoa n"
proof -
  have "char_of (48 :: nat) = CHR ''0''" by code_simp
  then show ?thesis using itoa_loop_utoa [of n "[]"] by (simp add: supply_itoa_def utoa.simps [of 0] digit_def)
qed

lemma newest_fold:
  "newest v as acc = (case (filter (\<lambda>a. va_VendorID a = v) as) of
      [] \<Rightarrow> acc
    | b # bs \<Rightarrow> (case acc of
        None \<Rightarrow> Some (foldl (\<lambda>n a. if va_ObservedAt n < va_ObservedAt a then a else n) b bs)
      | Some n0 \<Rightarrow> Some (foldl (\<lambda>n a. if va_ObservedAt n < va_ObservedAt a then a else n) n0 (b # bs))))"
  by (induction v as acc rule: newest.induct) (auto split: option.splits list.splits)

lemma first_violated_find:
  "first_violated c ps =
     (case find (\<lambda>p. policy_violated c p) ps of
        None \<Rightarrow> result CheckIDPolicyViolation (Component_ID c) CheckPass ''no configured policy violated''
      | Some p \<Rightarrow> result CheckIDPolicyViolation (Component_ID c) CheckFail
          (''policy '' @ po_ID p @ '' violated: '' @ hd (sort (pr_Reasons (EvaluatePolicy c p)))))"
proof (induction ps)
  case (Cons p ps)
  have m: "dim_moved (policy_violated c p) (policy_open c p)
     \<lparr>pr_PolicyID = po_ID p, pr_ComponentID = Component_ID c, pr_Verdict = PolicyOK, pr_Reasons = []\<rparr> (EvaluatePolicy c p)"
    by (rule EvaluatePolicy_moved)
  then have "pr_Verdict (EvaluatePolicy c p) = PolicyViolation \<longleftrightarrow> policy_violated c p"
    "policy_violated c p \<Longrightarrow> pr_Reasons (EvaluatePolicy c p) \<noteq> []"
    by (simp_all add: dim_moved_def)
  moreover have "sort xs = [] \<longleftrightarrow> xs = []" for xs :: "string list" by (metis set_empty set_sort)
  ultimately show ?case using Cons.IH by (simp add: Let_def)
qed simp

lemma unless_disabled_Fail:
  "cr_Outcome (unless_disabled cfg rule subject r) = CheckFail \<longleftrightarrow>
     fmlookup (cc_Enabled cfg) rule \<noteq> Some False \<and> cr_Outcome r = CheckFail"
  by (auto simp: unless_disabled_def checkEnabled_def result_def split: option.splits bool.splits)

definition later :: "VendorAssessment \<Rightarrow> VendorAssessment \<Rightarrow> VendorAssessment" where
  "later n a = (if va_ObservedAt n < va_ObservedAt a then a else n)"

lemma later_max: "later n a \<in> {n, a} \<and> va_ObservedAt n \<le> va_ObservedAt (later n a) \<and> va_ObservedAt a \<le> va_ObservedAt (later n a)"
  by (simp add: later_def)

lemma newest_is_max:
  "foldl later b bs \<in> set (b # bs) \<and> (\<forall>a \<in> set (b # bs). va_ObservedAt a \<le> va_ObservedAt (foldl later b bs))"
proof (induction bs arbitrary: b)
  case (Cons a bs)
  have top: "va_ObservedAt (later b a) \<le> va_ObservedAt (foldl later (later b a) bs)" using Cons.IH [of "later b a"] by simp
  then have "va_ObservedAt x \<le> va_ObservedAt (foldl later b (a # bs))" if "x \<in> set (b # a # bs)" for x
    using that Cons.IH [of "later b a"] later_max [of b a] by auto
  moreover have "foldl later b (a # bs) \<in> set (b # a # bs)" using Cons.IH [of "later b a"] later_max [of b a] by auto
  ultimately show ?case by blast
qed simp

lemma newest_filter:
  "newest v as None = (case filter (\<lambda>a. va_VendorID a = v) as of [] \<Rightarrow> None | b # bs \<Rightarrow> Some (foldl later b bs))"
  unfolding newest_fold later_def by (simp split: list.split)

lemma newest_None: "newest v as None = None \<longleftrightarrow> (\<forall>a \<in> set as. va_VendorID a \<noteq> v)"
proof -
  have "newest v as None = None \<longleftrightarrow> filter (\<lambda>a. va_VendorID a = v) as = []" unfolding newest_filter by (simp split: list.split)
  then show ?thesis by (simp add: filter_empty_conv)
qed

lemma newest_Some:
  assumes "newest v as None = Some n"
  shows "n \<in> set as \<and> va_VendorID n = v \<and> (\<forall>a \<in> set as. va_VendorID a = v \<longrightarrow> va_ObservedAt a \<le> va_ObservedAt n)"
proof (cases "filter (\<lambda>a. va_VendorID a = v) as")
  case Nil
  then show ?thesis using assms by (simp add: newest_filter)
next
  case (Cons b bs)
  then have n: "n = foldl later b bs" using assms by (simp add: newest_filter)
  moreover have "set (b # bs) = {a \<in> set as. va_VendorID a = v}" by (simp only: Cons [symmetric] set_filter)
  ultimately show ?thesis using newest_is_max [of b bs] unfolding n by blast
qed

subsection \<open>The properties\<close>

text \<open>
  The policy check does not depend on the order in which the policies are configured: for
  the same policies with distinct ids it returns the same result, basis included, and when
  it is enabled it fails exactly if some policy is violated.
\<close>

theorem policy_check_order_independent:
  assumes "mset ps = mset qs" and "distinct (map po_ID ps)" and "fmlookup (cc_Enabled cfg) CheckIDPolicyViolation \<noteq> Some False"
  shows "CheckPolicyViolation c (cfg\<lparr>cc_Policies := ps\<rparr>) = CheckPolicyViolation c (cfg\<lparr>cc_Policies := qs\<rparr>) \<and>
    (cr_Outcome (CheckPolicyViolation c (cfg\<lparr>cc_Policies := ps\<rparr>)) = CheckFail \<longleftrightarrow> (\<exists>p \<in> set ps. policy_violated c p))"
proof -
  have inj: "inj_on po_ID (set ps)" using assms(2) by (simp add: distinct_map)
  have "sort_key po_ID ps = sort_key po_ID qs"
    by (rule sort_key_inj_key_eq [OF _ inj]) (simp_all add: assms(1))
  moreover have "ps = [] \<longleftrightarrow> qs = []" using assms(1) by auto
  moreover have "cr_Outcome (CheckPolicyViolation c (cfg\<lparr>cc_Policies := ps\<rparr>)) = CheckFail \<longleftrightarrow> (\<exists>p \<in> set ps. policy_violated c p)"
  proof -
    have "cr_Outcome (first_violated c l) = CheckFail \<longleftrightarrow> (\<exists>p \<in> set l. policy_violated c p)" for l
      by (auto simp: first_violated_find result_def find_None_iff find_Some_iff split: option.splits)
    then show ?thesis using assms(3) by (auto simp: CheckPolicyViolation_def unless_disabled_Fail result_def)
  qed
  moreover have "CheckPolicyViolation c (cfg\<lparr>cc_Policies := ps\<rparr>) = CheckPolicyViolation c (cfg\<lparr>cc_Policies := qs\<rparr>)"
    if "sort_key po_ID ps = sort_key po_ID qs" "ps = [] \<longleftrightarrow> qs = []"
  proof -
    have "checkEnabled (cfg\<lparr>cc_Policies := l\<rparr>) rule = checkEnabled cfg rule" for l rule by (simp add: checkEnabled_def)
    then show ?thesis using that
      by (cases "checkEnabled cfg CheckIDPolicyViolation") (simp_all add: CheckPolicyViolation_def unless_disabled_def)
  qed
  ultimately show ?thesis by blast
qed

definition ex_check_config :: CheckConfig where
  "ex_check_config = \<lparr>cc_RequireSBOM = False, cc_RequireProvenance = False, cc_AllowedProvenance = [], cc_Policies = [],
     cc_VendorWindow = 100, cc_Enabled = fmempty\<rparr>"

theorem policy_check_order_independent_witness:
  "CheckPolicyViolation ex_component (ex_check_config\<lparr>cc_Policies := [ex_policy, ex_policy\<lparr>po_ID := ''p2''\<rparr>]\<rparr>) =
   CheckPolicyViolation ex_component (ex_check_config\<lparr>cc_Policies := [ex_policy\<lparr>po_ID := ''p2''\<rparr>, ex_policy]\<rparr>) \<and>
   cr_Outcome (CheckPolicyViolation ex_component (ex_check_config\<lparr>cc_Policies := [ex_policy, ex_policy\<lparr>po_ID := ''p2''\<rparr>]\<rparr>)) = CheckFail"
proof -
  let ?q = "ex_policy\<lparr>po_ID := ''p2''\<rparr>"
  have "mset [ex_policy, ?q] = mset [?q, ex_policy]" by simp
  moreover have "distinct (map po_ID [ex_policy, ?q])" by (simp add: ex_policy_def)
  moreover have "fmlookup (cc_Enabled ex_check_config) CheckIDPolicyViolation \<noteq> Some False" by (simp add: ex_check_config_def)
  ultimately show ?thesis using policy_check_order_independent [of "[ex_policy, ?q]" "[?q, ex_policy]" ex_check_config ex_component]
      ex_policy_violated by (metis list.set_intros(1))
qed

text \<open>
  With a window configured, the vendor check fails exactly when the vendor has been assessed
  and every one of its assessments is at or past the edge of the window, whatever the order
  in which they are stored.
\<close>

theorem stale_vendor_decided_by_newest:
  assumes "0 < cc_VendorWindow cfg" and "fmlookup (cc_Enabled cfg) CheckIDStaleVendor \<noteq> Some False"
  shows "cr_Outcome (CheckStaleVendor v as cfg now) = CheckFail \<longleftrightarrow>
    (\<exists>a \<in> set as. va_VendorID a = v) \<and> (\<forall>a \<in> set as. va_VendorID a = v \<longrightarrow> va_ObservedAt a \<le> now - cc_VendorWindow cfg)"
proof (cases "newest v as None")
  case None
  then show ?thesis using assms newest_None [of v as]
    by (auto simp: CheckStaleVendor_def unless_disabled_Fail result_def)
next
  case (Some n)
  have "cr_Outcome (CheckStaleVendor v as cfg now) = CheckFail \<longleftrightarrow> va_ObservedAt n \<le> now - cc_VendorWindow cfg"
    using assms Some by (simp add: CheckStaleVendor_def unless_disabled_Fail result_def IsAssessmentStale_def not_less Let_def)
  then show ?thesis using newest_Some [OF Some] by (metis order_trans)
qed

theorem stale_vendor_decided_by_newest_witness:
  "cr_Outcome (CheckStaleVendor ''v1'' [\<lparr>va_VendorID = ''v1'', va_Status = ''REVIEWED'', va_Assessor = ''op'', va_ObservedAt = 900,
      va_EvidenceIDs = [], va_Note = []\<rparr>] ex_check_config 1000) = CheckFail"
  using stale_vendor_decided_by_newest [of ex_check_config "''v1''"
      "[\<lparr>va_VendorID = ''v1'', va_Status = ''REVIEWED'', va_Assessor = ''op'', va_ObservedAt = 900, va_EvidenceIDs = [], va_Note = []\<rparr>]" 1000]
  by (simp add: ex_check_config_def)

end
