(* ===== verification/Governance.thy ===== *)
theory Governance
  imports SupplyChain Assets
begin

text \<open>
  \<open>internal/grc\<close>: requirements, controls, assessments, mappings and the lab baseline
  (\<open>model.go\<close>, \<open>catalog.go\<close>), the resilience posture derived from observations
  (\<open>resilience.go\<close>) and the read-only architecture view (\<open>architecture.go\<close>).
\<close>

subsection \<open>Requirements and controls\<close>

definition validDomain :: "string \<Rightarrow> bool" where
  "validDomain d \<longleftrightarrow> d \<in> set [''network'', ''application'', ''endpoint'', ''server'', ''container'', ''cloud'', ''identity'',
     ''auth'', ''data'', ''waf'', ''governance'', ''resilience'', ''architecture'']"

definition domain_check :: "string \<Rightarrow> string \<Rightarrow> goerr" where
  "domain_check what d = fail_if (\<not> validDomain d) (Plain (''grc: '' @ what @ '' domain '' @ quote d @ '' not in bounded vocabulary''))"

record Requirement =
  rq_Framework :: string
  rq_FrameworkVersion :: string
  rq_ControlRef :: string
  rq_Title :: string
  rq_Description :: string
  rq_Domain :: string

definition Requirement_ID :: "Requirement \<Rightarrow> string" where
  "Requirement_ID r = ''greq-'' @ id16 (join US [''blueveil-grc-requirement-v1'', rq_Framework r, rq_FrameworkVersion r, rq_ControlRef r])"

definition Requirement_Validate :: "Requirement \<Rightarrow> goerr" where
  "Requirement_Validate r = first_err [
     required ''grc: requirement framework'' (rq_Framework r),
     required ''grc: requirement control reference'' (rq_ControlRef r),
     required ''grc: requirement title'' (rq_Title r),
     domain_check ''requirement'' (rq_Domain r)]"

record Control =
  ct_ID :: string
  ct_Title :: string
  ct_Description :: string
  ct_Domain :: string
  ct_Framework :: string
  ct_FrameworkVersion :: string
  ct_Implementation :: string

definition ImplementationStatus :: "string list" where
  "ImplementationStatus = [''IMPLEMENTED'', ''PARTIAL'', ''NOT_IMPLEMENTED'', ''UNKNOWN'']"

definition Control_Validate :: "Control \<Rightarrow> goerr" where
  "Control_Validate c = first_err [
     required ''grc: control id'' (ct_ID c),
     required ''grc: control title'' (ct_Title c),
     domain_check ''control'' (ct_Domain c),
     required ''grc: control framework'' (ct_Framework c),
     bounded ''grc: control implementation '' (ImplementationStatus @ ['''']) (ct_Implementation c) []]"

record Framework =
  fw_ID :: string
  fw_Version :: string
  fw_Kind :: string
  fw_Title :: string

definition BaselineFramework :: Framework where
  "BaselineFramework = \<lparr>fw_ID = ''BLUEVEIL-BASELINE'', fw_Version = ''1.0.0-lab'', fw_Kind = ''INTERNAL_BASELINE'',
     fw_Title = ''Blueveil lab control baseline''\<rparr>"

definition mk_control :: "string \<Rightarrow> string \<Rightarrow> string \<Rightarrow> string \<Rightarrow> string \<Rightarrow> Control" where
  "mk_control i title desc domain impl = \<lparr>ct_ID = i, ct_Title = title, ct_Description = desc, ct_Domain = domain,
     ct_Framework = fw_ID BaselineFramework, ct_FrameworkVersion = fw_Version BaselineFramework, ct_Implementation = impl\<rparr>"

definition BaselineControls :: "Control list" where
  "BaselineControls = [
     mk_control ''AC-1'' ''Authentication required for lab access''
       ''Access to lab systems requires an authenticated principal.'' ''identity'' ''IMPLEMENTED'',
     mk_control ''LG-1'' ''Security telemetry logging enabled''
       ''Lab sources emit structured security telemetry.'' ''governance'' ''IMPLEMENTED'',
     mk_control ''NW-1'' ''Egress connections observed''
       ''Outbound lab connections are observed and recorded.'' ''network'' ''PARTIAL'',
     mk_control ''DT-1'' ''Suspicious lab activity detected''
       ''Deterministic detection rules evaluate lab telemetry.'' ''data'' ''IMPLEMENTED'',
     mk_control ''RC-1'' ''Recovery procedure declared''
       ''A lab recovery procedure is documented.'' ''resilience'' ''NOT_IMPLEMENTED'',
     mk_control ''BK-1'' ''Backup observations recorded''
       ''Backup observations are recorded when a source emits them.'' ''resilience'' ''UNKNOWN'',
     mk_control ''AP-1'' ''Application requests observed''
       ''Lab application traffic is observed.'' ''application'' ''IMPLEMENTED'',
     mk_control ''EP-1'' ''Endpoint process activity observed''
       ''Lab endpoint process activity is observed.'' ''endpoint'' ''IMPLEMENTED'']"

record ControlMapping =
  cm_ControlID :: string
  cm_SourceType :: string
  cm_SourceID :: string
  cm_Note :: string

definition SourceType :: "string list" where
  "SourceType = [''asset'', ''telemetry'', ''detection'', ''alert'', ''incident'', ''evidence'', ''validation-result'', ''response-audit'']"

definition ControlMapping_Validate :: "ControlMapping \<Rightarrow> goerr" where
  "ControlMapping_Validate m = first_err [
     fail_if (cm_ControlID m = []) (Plain ''grc: mapping control required''),
     bounded ''grc: mapping source '' SourceType (cm_SourceType m) [],
     fail_if (cm_SourceID m = []) (Plain ''grc: mapping source id required (no timestamp-only mappings)'')]"

subsection \<open>Assessments\<close>

record Assessment =
  gs_ControlID :: string
  gs_Target :: string
  gs_Status :: string
  gs_Assessor :: string
  gs_ObservedAt :: gotime
  gs_EvidenceIDs :: "string list"
  gs_ValidationIDs :: "string list"
  gs_Basis :: string
  gs_Notes :: string
  gs_Risk :: string
  gs_RiskBasis :: string

definition Assessment_ID :: "Assessment \<Rightarrow> string" where
  "Assessment_ID a = ''gass-'' @ id16 (join US [''blueveil-grc-assessment-v1'', gs_ControlID a, gs_Target a, gs_Status a,
     gs_Assessor a, format_RFC3339Nano (gs_ObservedAt a)])"

definition decisive_status :: "string list" where
  "decisive_status = [''COMPLIANT'', ''PARTIALLY_COMPLIANT'', ''NON_COMPLIANT'']"

definition AssessmentStatus :: "string list" where
  "AssessmentStatus = decisive_status @ [''NOT_ASSESSED'', ''NOT_APPLICABLE'', ''UNKNOWN'']"

definition RiskLevel :: "string list" where
  "RiskLevel = [''LOW'', ''MEDIUM'', ''HIGH'', ''CRITICAL'', ''UNKNOWN'']"

definition Assessment_Validate :: "Assessment \<Rightarrow> goerr" where
  "Assessment_Validate a = first_err [
     required ''grc: assessment control'' (gs_ControlID a),
     required ''grc: assessment target'' (gs_Target a),
     bounded ''grc: assessment status '' AssessmentStatus (gs_Status a) '' (no SECURE/SAFE)'',
     required ''grc: assessment assessor/source'' (gs_Assessor a),
     required_time ''grc: assessment observed timestamp'' (gs_ObservedAt a),
     fail_if (gs_Status a \<in> set decisive_status \<and> blank (gs_Basis a))
       (Plain (''grc: status '' @ gs_Status a @ '' requires an explicit basis'')),
     bounded ''grc: risk '' ('''' # RiskLevel) (gs_Risk a) '' (no scores)'',
     fail_if (gs_Risk a \<noteq> [] \<and> gs_Risk a \<noteq> ''UNKNOWN'' \<and> blank (gs_RiskBasis a))
       (Plain (''grc: risk '' @ gs_Risk a @ '' requires an explicit basis''))]"

definition RedactMetadata :: "string gomap \<Rightarrow> string gomap" where
  "RedactMetadata meta = fmfilter (\<lambda>k. \<not> SensitiveField k) meta"

subsection \<open>Resilience posture\<close>

abbreviation (input) ResilienceReady :: string where "ResilienceReady \<equiv> ''READY''"
abbreviation (input) ResilienceDegraded :: string where "ResilienceDegraded \<equiv> ''DEGRADED''"
abbreviation (input) ResilienceNotAssessed :: string where "ResilienceNotAssessed \<equiv> ''NOT_ASSESSED''"

record ResilienceInput =
  ri_Target :: string
  ri_Assessor :: string
  ri_ObservedAt :: gotime
  ri_BackupObserved :: bool
  ri_BackupAt :: gotime
  ri_RestoreTestObserved :: bool
  ri_RestoreTestAt :: gotime
  ri_ProcedureDeclared :: bool
  ri_Dependencies :: "string list"
  ri_EvidenceIDs :: "string list"
  ri_RetentionConfigured :: bool
  ri_EncryptionObserved :: bool

record ResilienceRecord = ResilienceInput +
  rr_ID :: string
  rr_Status :: string

definition ResilienceStatus :: "string list" where
  "ResilienceStatus = [''READY'', ''DEGRADED'', ''NOT_READY'', ''NOT_ASSESSED'', ''UNKNOWN'']"

definition claims_timed :: "'a ResilienceInput_scheme \<Rightarrow> goerr" where
  "claims_timed r = first_err [
     fail_if (ri_BackupObserved r \<and> IsZero (ri_BackupAt r)) (Plain ''grc: claimed backup observation needs a timestamp''),
     fail_if (ri_RestoreTestObserved r \<and> IsZero (ri_RestoreTestAt r)) (Plain ''grc: claimed restore-test observation needs a timestamp'')]"

definition ResilienceRecord_Validate :: "ResilienceRecord \<Rightarrow> goerr" where
  "ResilienceRecord_Validate r = first_err [
     required ''grc: resilience record identity'' (rr_ID r),
     required ''grc: resilience target'' (ri_Target r),
     required ''grc: resilience assessor/source'' (ri_Assessor r),
     required_time ''grc: resilience observed timestamp'' (ri_ObservedAt r),
     bounded ''grc: resilience status '' ResilienceStatus (rr_Status r) '' (no READY-by-default)'',
     claims_timed r]"

definition posture :: "'a ResilienceInput_scheme \<Rightarrow> string" where
  "posture i =
     (if ri_BackupObserved i \<and> ri_RestoreTestObserved i \<and> ri_ProcedureDeclared i then ResilienceReady
      else if ri_BackupObserved i \<or> ri_RestoreTestObserved i \<or> ri_ProcedureDeclared i then ResilienceDegraded
      else ResilienceNotAssessed)"

definition resilience_ID :: "'a ResilienceInput_scheme \<Rightarrow> string \<Rightarrow> string" where
  "resilience_ID i status = ''grsl-'' @ id16 (join US [''blueveil-grc-resilience-v1'', ri_Target i, ri_Assessor i,
     format_RFC3339Nano (ri_ObservedAt i), status])"

definition AssessResilience :: "ResilienceInput \<Rightarrow> ResilienceRecord res" where
  "AssessResilience i =
     (case first_err [
        required ''grc: resilience target'' (ri_Target i),
        required ''grc: resilience assessor/source'' (ri_Assessor i),
        required_time ''grc: resilience observed timestamp'' (ri_ObservedAt i),
        claims_timed i] of
        Some e \<Rightarrow> Inl e
      | None \<Rightarrow> Inr (ResilienceInput.extend i \<lparr>rr_ID = resilience_ID i (posture i), rr_Status = posture i\<rparr>))"

subsection \<open>The architecture view\<close>

record SystemNode =
  sn_AssetID :: string
  sn_Kind :: string
  sn_Name :: string
  sn_Boundary :: string

record DependencyEdge =
  de_ParentID :: string
  de_ChildID :: string
  de_Kind :: string

text \<open>The names of the asset types (\<open>AssetType.String\<close>); an unknown number prints as itself.\<close>

definition AssetType_String :: "enum \<Rightarrow> string" where
  "AssetType_String t =
     (case map_of [(0, ''ASSET_TYPE_UNSPECIFIED''), (1, ''ASSET_TYPE_HOST''), (2, ''ASSET_TYPE_CONTAINER''), (3, ''ASSET_TYPE_SERVICE''),
        (4, ''ASSET_TYPE_NETWORK''), (5, ''ASSET_TYPE_CLOUD_RESOURCE''), (6, ''ASSET_TYPE_USER_DEVICE''), (7, ''ASSET_TYPE_OTHER''),
        (8, ''ASSET_TYPE_DOMAIN''), (9, ''ASSET_TYPE_IP_ADDRESS''), (10, ''ASSET_TYPE_URL''), (11, ''ASSET_TYPE_APPLICATION'')] t of
        Some s \<Rightarrow> s | None \<Rightarrow> itoa t)"

definition node_of :: "Asset \<Rightarrow> SystemNode" where
  "node_of a = \<lparr>sn_AssetID = as_id a, sn_Kind = AssetType_String (as_type a), sn_Name = as_name a, sn_Boundary = as_environment a\<rparr>"

definition edge_of :: "Relationship \<Rightarrow> DependencyEdge" where
  "edge_of r = \<lparr>de_ParentID = rel_ParentID r, de_ChildID = rel_ChildID r, de_Kind = rel_Kind r\<rparr>"

definition ArchitectureView :: "Asset option list \<Rightarrow> Relationship list \<Rightarrow> SystemNode list \<times> DependencyEdge list" where
  "ArchitectureView assets rels =
     (sort_key sn_AssetID (map node_of (List.map_filter id assets)),
      sort_key (\<lambda>e. (de_ParentID e, de_ChildID e, de_Kind e)) (map edge_of rels))"

definition ArchitectureViewChecked :: "Asset option list \<Rightarrow> Relationship list \<Rightarrow> (SystemNode list \<times> DependencyEdge list) res" where
  "ArchitectureViewChecked assets rels =
     (case first_err (map Relationship_Validate rels) of
        Some e \<Rightarrow> Inl (Plain (''grc: architecture edge: '' @ err_Error e))
      | None \<Rightarrow> Inr (ArchitectureView assets rels))"

subsection \<open>Facts\<close>

lemma AssessResilience_Inr:
  assumes "AssessResilience i = Inr r"
  shows "r = ResilienceInput.extend i \<lparr>rr_ID = resilience_ID i (posture i), rr_Status = posture i\<rparr>"
    and "ResilienceRecord_Validate r = None"
proof -
  have checks: "\<not> blank (ri_Target i)" "\<not> blank (ri_Assessor i)" "\<not> IsZero (ri_ObservedAt i)" "claims_timed i = None"
    and r: "r = ResilienceInput.extend i \<lparr>rr_ID = resilience_ID i (posture i), rr_Status = posture i\<rparr>"
    using assms by (auto simp: AssessResilience_def boundary simp del: first_err.simps split: option.splits)
  show "r = ResilienceInput.extend i \<lparr>rr_ID = resilience_ID i (posture i), rr_Status = posture i\<rparr>" by (rule r)
  have fields: "ri_Target r = ri_Target i" "ri_Assessor r = ri_Assessor i" "ri_ObservedAt r = ri_ObservedAt i"
    "ri_BackupObserved r = ri_BackupObserved i" "ri_BackupAt r = ri_BackupAt i"
    "ri_RestoreTestObserved r = ri_RestoreTestObserved i" "ri_RestoreTestAt r = ri_RestoreTestAt i"
    "rr_Status r = posture i" "rr_ID r = resilience_ID i (posture i)"
    by (simp_all add: r ResilienceInput.defs)
  have "claims_timed r = claims_timed i" by (simp add: claims_timed_def fields)
  moreover have "posture i \<in> set ResilienceStatus" by (simp add: posture_def ResilienceStatus_def)
  moreover have "\<not> blank (resilience_ID i s)" for s
    by (simp add: resilience_ID_def TrimSpace_def is_space_def)
  ultimately show "ResilienceRecord_Validate r = None"
    using checks by (simp add: ResilienceRecord_Validate_def boundary fields)
qed

subsection \<open>The property\<close>

text \<open>
  An assessed posture is backed by its observations: a record that \<open>AssessResilience\<close>
  returns is READY exactly when a backup, a restore test and a procedure were all observed,
  both observations carrying a time; it is DEGRADED when only some were and NOT_ASSESSED when
  none was; it is valid and carries every observation of the input.
\<close>

theorem assessed_posture_backed:
  assumes "AssessResilience i = Inr r"
  shows "ResilienceRecord_Validate r = None \<and> ResilienceInput.truncate r = i \<and>
    (rr_Status r = ''READY'' \<longleftrightarrow> ri_BackupObserved i \<and> ri_RestoreTestObserved i \<and> ri_ProcedureDeclared i) \<and>
    (rr_Status r = ''NOT_ASSESSED'' \<longleftrightarrow> \<not> ri_BackupObserved i \<and> \<not> ri_RestoreTestObserved i \<and> \<not> ri_ProcedureDeclared i) \<and>
    rr_Status r \<in> {''READY'', ''DEGRADED'', ''NOT_ASSESSED''} \<and>
    (rr_Status r = ''READY'' \<longrightarrow> \<not> IsZero (ri_BackupAt r) \<and> \<not> IsZero (ri_RestoreTestAt r))"
proof -
  have r: "r = ResilienceInput.extend i \<lparr>rr_ID = resilience_ID i (posture i), rr_Status = posture i\<rparr>"
    and v: "ResilienceRecord_Validate r = None" using AssessResilience_Inr [OF assms] .
  have s: "rr_Status r = posture i" and t: "ResilienceInput.truncate r = i" by (simp_all add: r ResilienceInput.defs)
  have "ri_BackupObserved r = ri_BackupObserved i" "ri_RestoreTestObserved r = ri_RestoreTestObserved i"
    by (simp_all add: r ResilienceInput.defs)
  moreover have "claims_timed r = None" using v by (simp add: ResilienceRecord_Validate_def)
  ultimately have "posture i = ''READY'' \<Longrightarrow> \<not> IsZero (ri_BackupAt r) \<and> \<not> IsZero (ri_RestoreTestAt r)"
    by (auto simp: posture_def claims_timed_def split: if_splits)
  then show ?thesis unfolding s using v t by (auto simp: posture_def)
qed

definition ex_posture :: ResilienceInput where
  "ex_posture = \<lparr>ri_Target = ''db'', ri_Assessor = ''op'', ri_ObservedAt = 9, ri_BackupObserved = True, ri_BackupAt = 3,
     ri_RestoreTestObserved = True, ri_RestoreTestAt = 4, ri_ProcedureDeclared = True, ri_Dependencies = [], ri_EvidenceIDs = [],
     ri_RetentionConfigured = False, ri_EncryptionObserved = False\<rparr>"

theorem assessed_posture_backed_witness:
  "\<exists>r. AssessResilience ex_posture = Inr r \<and> rr_Status r = ''READY''"
proof -
  have "TrimSpace ''db'' = ''db''" "TrimSpace ''op'' = ''op''" by code_simp+
  then have "\<exists>r. AssessResilience ex_posture = Inr r"
    by (simp add: AssessResilience_def ex_posture_def required_def required_time_def claims_timed_def fail_if_def IsZero_def zero_time_def)
  then obtain r where "AssessResilience ex_posture = Inr r" by blast
  with assessed_posture_backed [OF this] show ?thesis by (auto simp: ex_posture_def)
qed

end
