(* ===== verification/RecordStore.thy ===== *)
theory RecordStore
  imports SupplyChecks Governance
begin

text \<open>
  The append-only record repositories of \<open>store/memory.go\<close>: governance assessments and
  resilience records, and the supply-chain components, edges, SBOMs, policies, vendors, vendor
  assessments and links. All but the edges are keyed by a deterministic id and have the shape
  of \<^const>\<open>append_item\<close>; an edge is keyed by its ends and its kind.
\<close>

subsection \<open>The repositories\<close>

text \<open>A record is handed over by value, so its validator never sees a nil pointer.\<close>

definition value_check :: "('v \<Rightarrow> goerr) \<Rightarrow> 'v option \<Rightarrow> goerr" where
  "value_check f p = (case p of None \<Rightarrow> None | Some v \<Rightarrow> f v)"

definition memoryAssessment_Create :: "Assessment \<Rightarrow> Assessment gomap \<Rightarrow> goerr \<times> Assessment gomap" where
  "memoryAssessment_Create a items = append_item (value_check Assessment_Validate) Assessment_ID ''assessment '' (Some a) items"

definition memoryAssessment_Get :: "string \<Rightarrow> Assessment gomap \<Rightarrow> Assessment res" where
  "memoryAssessment_Get k items = get_item ''assessment '' k items"

definition memoryAssessment_List :: "Assessment gomap \<Rightarrow> Assessment list" where
  "memoryAssessment_List items = values_sorted items"

definition memoryResilience_Create :: "ResilienceRecord \<Rightarrow> ResilienceRecord gomap \<Rightarrow> goerr \<times> ResilienceRecord gomap" where
  "memoryResilience_Create r items = append_item (value_check ResilienceRecord_Validate) rr_ID ''resilience record '' (Some r) items"

definition memoryResilience_Get :: "string \<Rightarrow> ResilienceRecord gomap \<Rightarrow> ResilienceRecord res" where
  "memoryResilience_Get k items = get_item ''resilience record '' k items"

definition memoryResilience_List :: "ResilienceRecord gomap \<Rightarrow> ResilienceRecord list" where
  "memoryResilience_List items = values_sorted items"

definition memoryComponent_Create :: "Component \<Rightarrow> Component gomap \<Rightarrow> goerr \<times> Component gomap" where
  "memoryComponent_Create c items = append_item (value_check Component_Validate) Component_ID ''component '' (Some c) items"

definition memoryComponent_Get :: "string \<Rightarrow> Component gomap \<Rightarrow> Component res" where
  "memoryComponent_Get k items = get_item ''component '' k items"

definition memoryComponent_List :: "Component gomap \<Rightarrow> Component list" where
  "memoryComponent_List items = values_sorted items"

definition memorySBOM_Create :: "SBOM \<Rightarrow> SBOM gomap \<Rightarrow> goerr \<times> SBOM gomap" where
  "memorySBOM_Create s items = append_item (value_check SBOM_Validate) SBOM_ID ''sbom '' (Some s) items"

definition memorySBOM_Get :: "string \<Rightarrow> SBOM gomap \<Rightarrow> SBOM res" where
  "memorySBOM_Get k items = get_item ''sbom '' k items"

definition memorySBOM_List :: "SBOM gomap \<Rightarrow> SBOM list" where
  "memorySBOM_List items = values_sorted items"

definition memoryPolicy_Create :: "SupplyPolicy \<Rightarrow> SupplyPolicy gomap \<Rightarrow> goerr \<times> SupplyPolicy gomap" where
  "memoryPolicy_Create p items = append_item (value_check SupplyPolicy_Validate) po_ID ''policy '' (Some p) items"

definition memoryPolicy_Get :: "string \<Rightarrow> SupplyPolicy gomap \<Rightarrow> SupplyPolicy res" where
  "memoryPolicy_Get k items = get_item ''policy '' k items"

definition memoryPolicy_List :: "SupplyPolicy gomap \<Rightarrow> SupplyPolicy list" where
  "memoryPolicy_List items = values_sorted items"

definition memoryVendor_Create :: "Vendor \<Rightarrow> Vendor gomap \<Rightarrow> goerr \<times> Vendor gomap" where
  "memoryVendor_Create v items = append_item (value_check Vendor_Validate) Vendor_ID ''vendor '' (Some v) items"

definition memoryVendor_Get :: "string \<Rightarrow> Vendor gomap \<Rightarrow> Vendor res" where
  "memoryVendor_Get k items = get_item ''vendor '' k items"

definition memoryVendor_List :: "Vendor gomap \<Rightarrow> Vendor list" where
  "memoryVendor_List items = values_sorted items"

definition memoryVendorAssessment_Create :: "VendorAssessment \<Rightarrow> VendorAssessment gomap \<Rightarrow> goerr \<times> VendorAssessment gomap" where
  "memoryVendorAssessment_Create a items =
     append_item (value_check VendorAssessment_Validate) VendorAssessment_ID ''vendor assessment '' (Some a) items"

definition memoryVendorAssessment_Get :: "string \<Rightarrow> VendorAssessment gomap \<Rightarrow> VendorAssessment res" where
  "memoryVendorAssessment_Get k items = get_item ''vendor assessment '' k items"

definition memoryVendorAssessment_List :: "VendorAssessment gomap \<Rightarrow> VendorAssessment list" where
  "memoryVendorAssessment_List items = values_sorted items"

definition memorySupplyLink_Create :: "SupplyLink \<Rightarrow> SupplyLink gomap \<Rightarrow> goerr \<times> SupplyLink gomap" where
  "memorySupplyLink_Create l items = append_item (value_check SupplyLink_Validate) SupplyLink_ID ''supply link '' (Some l) items"

definition memorySupplyLink_List :: "SupplyLink gomap \<Rightarrow> SupplyLink list" where
  "memorySupplyLink_List items = values_sorted items"

subsection \<open>Dependency edges\<close>

type_synonym depKey = "string \<times> string \<times> string"
type_synonym dep_map = "(depKey, Dependency) fmap"

definition depKeyOf :: "Dependency \<Rightarrow> depKey" where
  "depKeyOf d = (dp_ParentID d, dp_ChildID d, dp_Kind d)"

definition memoryDependency_Append :: "Dependency \<Rightarrow> dep_map \<Rightarrow> goerr \<times> dep_map" where
  "memoryDependency_Append d items =
     (case Dependency_Validate d of
        Some e \<Rightarrow> (Some (Wrap (Store ErrInvalid) e), items)
      | None \<Rightarrow>
          if fmlookup items (depKeyOf d) \<noteq> None
            then (Some (Sent (Store ErrDuplicate) (''dependency '' @ dp_ParentID d @ [CHR 0xE2, CHR 0x86, CHR 0x92] @ dp_ChildID d)), items)
          else (None, fmupd (depKeyOf d) d items))"

text \<open>
  \<open>links\<close> collects the matching edges in the order of the map and sorts them by their ends and
  kind. Here the edges are taken in key order and then sorted, which gives the same list: the
  sort key is the map key.
\<close>

definition all_edges :: "dep_map \<Rightarrow> Dependency list" where
  "all_edges items = List.map_filter (fmlookup items) (sorted_list_of_set (fmdom' items))"

definition links :: "(Dependency \<Rightarrow> string) \<Rightarrow> string \<Rightarrow> dep_map \<Rightarrow> Dependency list" where
  "links col i items = sort_key depKeyOf (filter (\<lambda>d. col d = i) (all_edges items))"

definition memoryDependency_Children :: "string \<Rightarrow> dep_map \<Rightarrow> Dependency list" where
  "memoryDependency_Children parentID items = links dp_ParentID parentID items"

definition memoryDependency_Parents :: "string \<Rightarrow> dep_map \<Rightarrow> Dependency list" where
  "memoryDependency_Parents childID items = links dp_ChildID childID items"

subsection \<open>All record repositories together\<close>

record records =
  rs_assessments :: "Assessment gomap"
  rs_resilience :: "ResilienceRecord gomap"
  rs_components :: "Component gomap"
  rs_dependencies :: dep_map
  rs_sboms :: "SBOM gomap"
  rs_policies :: "SupplyPolicy gomap"
  rs_vendors :: "Vendor gomap"
  rs_vendor_assessments :: "VendorAssessment gomap"
  rs_links :: "SupplyLink gomap"

definition no_records :: records where
  "no_records = \<lparr>rs_assessments = fmempty, rs_resilience = fmempty, rs_components = fmempty, rs_dependencies = fmempty,
     rs_sboms = fmempty, rs_policies = fmempty, rs_vendors = fmempty, rs_vendor_assessments = fmempty, rs_links = fmempty\<rparr>"

datatype record_op =
    PutAssessment Assessment | PutResilience ResilienceRecord | PutComponent Component | PutDependency Dependency
  | PutSBOM SBOM | PutPolicy SupplyPolicy | PutVendor Vendor | PutVendorAssessment VendorAssessment | PutLink SupplyLink

fun put_record :: "record_op \<Rightarrow> records \<Rightarrow> goerr \<times> records" where
  "put_record (PutAssessment x) r = (case memoryAssessment_Create x (rs_assessments r) of (e, m) \<Rightarrow> (e, r\<lparr>rs_assessments := m\<rparr>))"
| "put_record (PutResilience x) r = (case memoryResilience_Create x (rs_resilience r) of (e, m) \<Rightarrow> (e, r\<lparr>rs_resilience := m\<rparr>))"
| "put_record (PutComponent x) r = (case memoryComponent_Create x (rs_components r) of (e, m) \<Rightarrow> (e, r\<lparr>rs_components := m\<rparr>))"
| "put_record (PutDependency x) r = (case memoryDependency_Append x (rs_dependencies r) of (e, m) \<Rightarrow> (e, r\<lparr>rs_dependencies := m\<rparr>))"
| "put_record (PutSBOM x) r = (case memorySBOM_Create x (rs_sboms r) of (e, m) \<Rightarrow> (e, r\<lparr>rs_sboms := m\<rparr>))"
| "put_record (PutPolicy x) r = (case memoryPolicy_Create x (rs_policies r) of (e, m) \<Rightarrow> (e, r\<lparr>rs_policies := m\<rparr>))"
| "put_record (PutVendor x) r = (case memoryVendor_Create x (rs_vendors r) of (e, m) \<Rightarrow> (e, r\<lparr>rs_vendors := m\<rparr>))"
| "put_record (PutVendorAssessment x) r =
     (case memoryVendorAssessment_Create x (rs_vendor_assessments r) of (e, m) \<Rightarrow> (e, r\<lparr>rs_vendor_assessments := m\<rparr>))"
| "put_record (PutLink x) r = (case memorySupplyLink_Create x (rs_links r) of (e, m) \<Rightarrow> (e, r\<lparr>rs_links := m\<rparr>))"

definition put_records :: "record_op list \<Rightarrow> records \<Rightarrow> records" where
  "put_records ops r = foldl (\<lambda>r op. snd (put_record op r)) r ops"

text \<open>What is stored in a map stays in a later one.\<close>

definition map_grows :: "('k, 'v) fmap \<Rightarrow> ('k, 'v) fmap \<Rightarrow> bool" where
  "map_grows m m' \<longleftrightarrow> (\<forall>k v. fmlookup m k = Some v \<longrightarrow> fmlookup m' k = Some v)"

lemma map_grows_refl [simp]: "map_grows m m"
  by (simp add: map_grows_def)

lemma map_grows_trans: "map_grows a b \<Longrightarrow> map_grows b c \<Longrightarrow> map_grows a c"
  by (simp add: map_grows_def)

lemma map_grows_append_item: "map_grows items (snd (append_item check key what p items))"
  by (auto simp: map_grows_def append_item_def split: option.splits)

lemma map_grows_Append: "map_grows items (snd (memoryDependency_Append d items))"
  by (auto simp: map_grows_def memoryDependency_Append_def split: option.splits)

text \<open>Every stored value is valid and under its own key.\<close>

definition sound_map :: "('v \<Rightarrow> goerr) \<Rightarrow> ('v \<Rightarrow> 'k) \<Rightarrow> ('k, 'v) fmap \<Rightarrow> bool" where
  "sound_map check key m \<longleftrightarrow> (\<forall>k v. fmlookup m k = Some v \<longrightarrow> key v = k \<and> check v = None)"

lemma sound_map_key: "sound_map check key m \<Longrightarrow> fmlookup m k = Some v \<Longrightarrow> key v = k"
  by (simp add: sound_map_def)

lemma sound_append_item:
  "sound_map check key m \<Longrightarrow> sound_map check key (snd (append_item (value_check check) key what (Some v) m))"
  by (auto simp: sound_map_def append_item_def value_check_def split: option.splits)

lemma sound_Append:
  "sound_map Dependency_Validate depKeyOf m \<Longrightarrow> sound_map Dependency_Validate depKeyOf (snd (memoryDependency_Append d m))"
  by (auto simp: sound_map_def memoryDependency_Append_def split: option.splits)

definition records_sound :: "records \<Rightarrow> bool" where
  "records_sound r \<longleftrightarrow>
     sound_map Assessment_Validate Assessment_ID (rs_assessments r) \<and>
     sound_map ResilienceRecord_Validate rr_ID (rs_resilience r) \<and>
     sound_map Component_Validate Component_ID (rs_components r) \<and>
     sound_map Dependency_Validate depKeyOf (rs_dependencies r) \<and>
     sound_map SBOM_Validate SBOM_ID (rs_sboms r) \<and>
     sound_map SupplyPolicy_Validate po_ID (rs_policies r) \<and>
     sound_map Vendor_Validate Vendor_ID (rs_vendors r) \<and>
     sound_map VendorAssessment_Validate VendorAssessment_ID (rs_vendor_assessments r) \<and>
     sound_map SupplyLink_Validate SupplyLink_ID (rs_links r)"

definition records_grow :: "records \<Rightarrow> records \<Rightarrow> bool" where
  "records_grow r r' \<longleftrightarrow>
     map_grows (rs_assessments r) (rs_assessments r') \<and> map_grows (rs_resilience r) (rs_resilience r') \<and>
     map_grows (rs_components r) (rs_components r') \<and> map_grows (rs_dependencies r) (rs_dependencies r') \<and>
     map_grows (rs_sboms r) (rs_sboms r') \<and> map_grows (rs_policies r) (rs_policies r') \<and> map_grows (rs_vendors r) (rs_vendors r') \<and>
     map_grows (rs_vendor_assessments r) (rs_vendor_assessments r') \<and> map_grows (rs_links r) (rs_links r')"

lemmas record_creates =
  memoryAssessment_Create_def memoryResilience_Create_def memoryComponent_Create_def memorySBOM_Create_def
  memoryPolicy_Create_def memoryVendor_Create_def memoryVendorAssessment_Create_def memorySupplyLink_Create_def

lemma put_record_grow: "records_grow r (snd (put_record op r))"
  by (cases op) (auto simp: records_grow_def record_creates split_beta map_grows_append_item map_grows_Append)

lemma put_record_sound: "records_sound r \<Longrightarrow> records_sound (snd (put_record op r))"
  by (cases op) (auto simp: records_sound_def record_creates split_beta sound_append_item sound_Append)

lemma put_records_grow: "records_grow r (put_records ops r)"
proof (induction ops arbitrary: r)
  case Nil
  then show ?case by (simp add: put_records_def records_grow_def)
next
  case (Cons op ops)
  have "records_grow (snd (put_record op r)) (put_records (op # ops) r)" using Cons by (simp add: put_records_def)
  then show ?case using put_record_grow [of r op] unfolding records_grow_def by (blast intro: map_grows_trans)
qed

lemma put_records_sound: "records_sound r \<Longrightarrow> records_sound (put_records ops r)"
  by (induction ops arbitrary: r) (simp_all add: put_records_def put_record_sound)

lemma no_records_sound [simp]: "records_sound no_records"
  by (simp add: records_sound_def no_records_def sound_map_def)

subsection \<open>The properties\<close>

lemma set_all_edges: "set (all_edges m) = {d. \<exists>k. fmlookup m k = Some d}"
  by (force simp: all_edges_def List.map_filter_def fmlookup_dom'_iff)

lemma set_links: "set (links col i m) = {d. col d = i \<and> (\<exists>k. fmlookup m k = Some d)}"
  by (auto simp: links_def set_all_edges)

lemma distinct_links:
  assumes "sound_map check depKeyOf m"
  shows "sorted (map depKeyOf (links col i m)) \<and> distinct (links col i m)"
proof -
  have "distinct (List.map_filter (fmlookup m) ks)" if "distinct ks" "set ks \<subseteq> fmdom' m" for ks
    using that
  proof (induction ks)
    case (Cons k ks)
    then obtain v where v: "fmlookup m k = Some v" by (auto simp: fmlookup_dom'_iff)
    have "v \<notin> set (List.map_filter (fmlookup m) ks)"
    proof
      assume "v \<in> set (List.map_filter (fmlookup m) ks)"
      then obtain k' where k': "k' \<in> set ks" "fmlookup m k' = Some v" by (force simp: List.map_filter_def)
      then have "k' = k" using sound_map_key [OF assms k'(2)] sound_map_key [OF assms v] by simp
      then show False using k'(1) Cons.prems(1) by simp
    qed
    then show ?case using Cons v by (simp add: List.map_filter_def)
  qed (simp add: List.map_filter_def)
  then have "distinct (all_edges m)" by (simp add: all_edges_def)
  then show ?thesis by (simp add: links_def)
qed

text \<open>
  C21. The record repositories only grow: after any sequence of creates, accepted or refused,
  every stored record is valid and under its own id, whatever was stored is unchanged by
  further creates, and the two views of the dependency edges agree with each other and with
  the stored edges, sorted and without repetition.
\<close>

theorem records_only_grow:
  "records_sound (put_records ops no_records) \<and>
   records_grow (put_records ops no_records) (put_records ops' (put_records ops no_records)) \<and>
   (let edges = rs_dependencies (put_records ops no_records) in
      d \<in> set (memoryDependency_Children (dp_ParentID d) edges) = (fmlookup edges (depKeyOf d) = Some d) \<and>
      d \<in> set (memoryDependency_Parents (dp_ChildID d) edges) = (fmlookup edges (depKeyOf d) = Some d) \<and>
      sorted (map depKeyOf (memoryDependency_Children i edges)) \<and> distinct (memoryDependency_Children i edges) \<and>
      sorted (map depKeyOf (memoryDependency_Parents i edges)) \<and> distinct (memoryDependency_Parents i edges))"
proof -
  have sound: "records_sound (put_records ops no_records)" by (simp add: put_records_sound)
  then have edges: "sound_map Dependency_Validate depKeyOf (rs_dependencies (put_records ops no_records))"
    by (simp add: records_sound_def)
  then have "(\<exists>k. fmlookup (rs_dependencies (put_records ops no_records)) k = Some d) \<longleftrightarrow>
      fmlookup (rs_dependencies (put_records ops no_records)) (depKeyOf d) = Some d"
    using sound_map_key [OF edges] by metis
  then show ?thesis using sound put_records_grow distinct_links [OF edges]
    by (simp add: Let_def memoryDependency_Children_def memoryDependency_Parents_def set_links)
qed

text \<open>
  The posture of a stored resilience record is not checked against its observations: a
  record that claims no observation at all is accepted as READY under any new id, and is
  read back as READY.
\<close>

theorem unbacked_ready_accepted:
  assumes "ResilienceRecord_Validate r = None" and "fmlookup items (rr_ID r) = None"
    and "\<not> ri_BackupObserved r" and "\<not> ri_RestoreTestObserved r" and "\<not> ri_ProcedureDeclared r"
  shows "\<exists>items'. memoryResilience_Create (r\<lparr>rr_Status := ''READY''\<rparr>) items = (None, items') \<and>
    memoryResilience_Get (rr_ID r) items' = Inr (r\<lparr>rr_Status := ''READY''\<rparr>)"
proof -
  have "ResilienceRecord_Validate (r\<lparr>rr_Status := ''READY''\<rparr>) = None"
    using assms(1) by (simp add: ResilienceRecord_Validate_def boundary ResilienceStatus_def claims_timed_def)
  then show ?thesis using assms(2)
    by (simp add: memoryResilience_Create_def append_item_def value_check_def memoryResilience_Get_def get_item_def)
qed

theorem unbacked_ready_accepted_witness:
  "\<exists>r items'. memoryResilience_Create r fmempty = (None, items') \<and> rr_Status r = ''READY'' \<and> \<not> ri_BackupObserved r"
proof -
  let ?i = "ex_posture\<lparr>ri_BackupObserved := False, ri_RestoreTestObserved := False, ri_ProcedureDeclared := False\<rparr>"
  have "TrimSpace ''db'' = ''db''" "TrimSpace ''op'' = ''op''" by code_simp+
  then have "\<exists>r. AssessResilience ?i = Inr r"
    by (simp add: AssessResilience_def ex_posture_def required_def required_time_def claims_timed_def fail_if_def IsZero_def zero_time_def)
  then obtain r where r: "AssessResilience ?i = Inr r" by blast
  have none: "\<not> ri_BackupObserved r" "\<not> ri_RestoreTestObserved r" "\<not> ri_ProcedureDeclared r"
    unfolding AssessResilience_Inr(1) [OF r] by (simp_all add: ResilienceInput.defs ex_posture_def)
  obtain items' where "memoryResilience_Create (r\<lparr>rr_Status := ''READY''\<rparr>) fmempty = (None, items')"
    using unbacked_ready_accepted [OF AssessResilience_Inr(2) [OF r] _ none, of fmempty] by auto
  moreover have "rr_Status (r\<lparr>rr_Status := ''READY''\<rparr>) = ''READY''" "\<not> ri_BackupObserved (r\<lparr>rr_Status := ''READY''\<rparr>)"
    using none by simp_all
  ultimately show ?thesis by blast
qed

end
