(* ===== verification/Validation.thy ===== *)
theory Validation
  imports Boundary Sha256 Archive SupplyChain
begin

text \<open>
  \<open>internal/validation\<close>: requests built from stored objects (\<open>request.go\<close>), the provider
  boundary with its checks (\<open>provider.go\<close>), the registry, the scripted and failing test
  providers (\<open>native.go\<close>), the unavailable Redveil adapter (\<open>redveil.go\<close>), campaigns and
  purple-team exercises. A provider is a record of its self-description and of its validation
  function over a state of its own.
\<close>

abbreviation (input) VERDICT_PREVENTED :: enum where "VERDICT_PREVENTED \<equiv> 1"
abbreviation (input) VERDICT_DETECTED :: enum where "VERDICT_DETECTED \<equiv> 2"
abbreviation (input) VERDICT_PREVENTED_AND_DETECTED :: enum where "VERDICT_PREVENTED_AND_DETECTED \<equiv> 3"
abbreviation (input) VERDICT_ALLOWED_BUT_DETECTED :: enum where "VERDICT_ALLOWED_BUT_DETECTED \<equiv> 4"
abbreviation (input) VERDICT_ALLOWED_AND_NOT_DETECTED :: enum where "VERDICT_ALLOWED_AND_NOT_DETECTED \<equiv> 5"
abbreviation (input) VERDICT_RATE_LIMITED :: enum where "VERDICT_RATE_LIMITED \<equiv> 6"
abbreviation (input) VERDICT_UNKNOWN :: enum where "VERDICT_UNKNOWN \<equiv> 7"
abbreviation (input) VERDICT_NOT_TESTED :: enum where "VERDICT_NOT_TESTED \<equiv> 8"

definition ValidationVerdict_name :: "enum \<Rightarrow> string option" where
  "ValidationVerdict_name v =
     (if 0 \<le> v \<and> v \<le> 8 then Some (''VALIDATION_VERDICT_'' @
        [''UNSPECIFIED'', ''PREVENTED'', ''DETECTED'', ''PREVENTED_AND_DETECTED'', ''ALLOWED_BUT_DETECTED'',
         ''ALLOWED_AND_NOT_DETECTED'', ''RATE_LIMITED'', ''UNKNOWN'', ''NOT_TESTED''] ! nat v)
      else None)"

subsection \<open>Requests\<close>

definition requestID :: "string \<Rightarrow> string \<Rightarrow> string \<Rightarrow> string" where
  "requestID controlID target incidentID =
     ''vreq-'' @ id16 (''blueveil-validation-request-v1'' @ US @ controlID @ US @ target @ US @ incidentID)"

definition build_err :: "string \<Rightarrow> err" where
  "build_err t = Sent (Validation ErrValidationBuild) t"

definition build_wrap :: "goerr \<Rightarrow> goerr" where
  "build_wrap e = map_option (Wrap (Validation ErrValidationBuild)) e"

definition CheckRequest :: "pblib \<Rightarrow> ValidationRequest option \<Rightarrow> goerr" where
  "CheckRequest L p = map_option (Ctx ''validation'') (ValidateValidationRequest L p)"

text \<open>The contributing events by id; a later event of the same id wins.\<close>

fun request_events :: "TelemetryEvent option list \<Rightarrow> TelemetryEvent gomap \<Rightarrow> TelemetryEvent gomap res" where
  "request_events [] m = Inr m"
| "request_events (None # es) m = Inl (build_err ''nil contributing event'')"
| "request_events (Some e # es) m = request_events es (fmupd (te_id e) e m)"

text \<open>The control of an event: the first non-empty of its two control attributes.\<close>

definition controlAttributeKeys :: "string list" where
  "controlAttributeKeys = [''control_id'', ''rule_id'']"

fun first_attribute :: "attrs \<Rightarrow> string list \<Rightarrow> string" where
  "first_attribute m [] = []"
| "first_attribute m (k # ks) = (if attr m k \<noteq> [] then attr m k else first_attribute m ks)"

fun request_walk ::
  "pblib \<Rightarrow> TelemetryEvent gomap \<Rightarrow> string list \<Rightarrow> string list \<Rightarrow> string \<Rightarrow> (string list \<times> string) res" where
  "request_walk L m [] assets control = Inr (assets, control)"
| "request_walk L m (k # ks) assets control =
     (case fmlookup m k of
        None \<Rightarrow> Inl (build_err (''detection event '' @ quote k @ '' not provided (refusing to fabricate)''))
      | Some e \<Rightarrow>
         (case ValidateTelemetryEvent L (Some e) of
            Some x \<Rightarrow> Inl (Wrap (Validation ErrValidationBuild) x)
          | None \<Rightarrow>
              request_walk L m ks (te_asset_id e # assets)
                (if control = [] then first_attribute (te_attributes e) controlAttributeKeys else control)))"

definition BuildRequest ::
  "pblib \<Rightarrow> Incident option \<Rightarrow> Alert option \<Rightarrow> Detection option \<Rightarrow> TelemetryEvent option list \<Rightarrow> gotime
    \<Rightarrow> ValidationRequest res" where
  "BuildRequest L incident alert det events now =
     (case (incident, alert, det) of
        (Some i, Some a, Some d) \<Rightarrow>
          (case first_err [
             build_wrap (ValidateIncident L (Some i)), build_wrap (ValidateAlert L (Some a)), build_wrap (ValidateDetection L (Some d)),
             fail_if (al_id a \<notin> set (inc_alert_ids i))
               (build_err (''alert '' @ quote (al_id a) @ '' not attached to incident '' @ quote (inc_id i))),
             fail_if (det_id d \<notin> set (al_detection_ids a))
               (build_err (''alert '' @ quote (al_id a) @ '' does not reference detection '' @ quote (det_id d)))] of
             Some e \<Rightarrow> Inl e
           | None \<Rightarrow>
              (case request_events events fmempty of
                 Inl e \<Rightarrow> Inl e
               | Inr m \<Rightarrow>
                  (case request_walk L m (det_telemetry_event_ids d) [] [] of
                     Inl e \<Rightarrow> Inl e
                   | Inr (assets, control) \<Rightarrow>
                      (let targets = sortedKeys assets in
                       if control = [] then
                         Inl (build_err (''no control identity in contributing telemetry (need ''
                           @ join ''/'' controlAttributeKeys @ '' attributes)''))
                       else if targets = [] then Inl (build_err ''no target asset'')
                       else if IsZero now then Inl (build_err ''request timestamp is zero'')
                       else
                        (let target = join '','' targets;
                             req = \<lparr> vq_id = requestID control target (inc_id i), vq_control_id = control, vq_target = target,
                                     vq_context = fmap_of_list [(''incident_id'', inc_id i), (''alert_id'', al_id a),
                                       (''detection_id'', det_id d)],
                                     vq_requested_at = Some (ts_New L now) \<rparr>
                         in case CheckRequest L (Some req) of Some e \<Rightarrow> Inl e | None \<Rightarrow> Inr req)))))
      | _ \<Rightarrow> Inl (build_err ''incident, alert and detection are required''))"

subsection \<open>Providers\<close>

record ProviderInfo =
  pi_ID :: string
  pi_Name :: string
  pi_Version :: string
  pi_ContractVersion :: string

text \<open>\<open>Validate\<close> returns a result pointer, which may be nil, or an error.\<close>

record 'p Provider =
  pv_Info :: ProviderInfo
  pv_Validate :: "'p \<Rightarrow> ValidationRequest option \<Rightarrow> 'p \<times> ValidationResult option res"

definition CheckValidationResult :: "pblib \<Rightarrow> ValidationResult option \<Rightarrow> goerr" where
  "CheckValidationResult L p = map_option (Wrap (Validation ErrProviderOutput)) (ValidateValidationResult L p)"

definition CheckIdentity :: "ValidationRequest \<Rightarrow> ValidationResult \<Rightarrow> goerr" where
  "CheckIdentity req r = first_err [
     fail_if (vr_request_id r \<noteq> vq_id req)
       (Sent (Validation ErrProviderOutput) (''result answers '' @ quote (vr_request_id r) @ '', request is '' @ quote (vq_id req))),
     fail_if (vr_control_id r \<noteq> vq_control_id req)
       (Sent (Validation ErrProviderOutput) (''result control '' @ quote (vr_control_id r) @ '', request control '' @ quote (vq_control_id req)))]"

definition CheckProvider :: "'p Provider option \<Rightarrow> goerr" where
  "CheckProvider p =
     (case p of
        None \<Rightarrow> Some (Plain ''validation: provider is nil'')
      | Some q \<Rightarrow> fail_if (pi_ID (pv_Info q) = []) (Sent (Validation ErrRegistry) ''provider id is empty''))"

subsection \<open>The registry\<close>

definition Register :: "'p Provider option \<Rightarrow> 'p Provider gomap \<Rightarrow> goerr \<times> 'p Provider gomap" where
  "Register p providers =
     (case CheckProvider p of
        Some e \<Rightarrow> (Some e, providers)
      | None \<Rightarrow>
         (case p of
            None \<Rightarrow> (None, providers)
          | Some q \<Rightarrow>
             (let i = pi_ID (pv_Info q) in
              if fmlookup providers i \<noteq> None
                then (Some (Sent (Validation ErrRegistry) (''duplicate provider id '' @ quote i)), providers)
              else (None, fmupd i q providers))))"

definition Providers_Get :: "string \<Rightarrow> 'p Provider gomap \<Rightarrow> 'p Provider option" where
  "Providers_Get i providers = fmlookup providers i"

definition Providers_List :: "'p Provider gomap \<Rightarrow> ProviderInfo list" where
  "Providers_List providers = map pv_Info (values_sorted providers)"

subsection \<open>The test providers and the adapter\<close>

abbreviation (input) NativeProviderID :: string where "NativeProviderID \<equiv> ''blueveil/provider/native-test''"
abbreviation (input) RedveilProviderID :: string where "RedveilProviderID \<equiv> ''blueveil/provider/redveil''"

definition checkExplicitVerdict :: "enum \<Rightarrow> goerr" where
  "checkExplicitVerdict v = first_err [
     fail_if (v = 0) (Plain ''validation: scripted verdict must be explicit (UNSPECIFIED is not an outcome)''),
     fail_if (\<not> ValidationVerdict_known v) (Plain (''validation: scripted verdict '' @ itoa v @ '' out of bounded vocabulary''))]"

text \<open>The clock is read once per validation; the number of reads is part of the state.\<close>

record ScriptedProvider =
  sp_version :: string
  sp_def :: enum
  sp_scenario :: "enum gomap"
  sp_ticks :: nat

definition NewScriptedProvider :: "string \<Rightarrow> bool \<Rightarrow> enum \<Rightarrow> ScriptedProvider res" where
  "NewScriptedProvider version clock_nil defaultVerdict =
     (if clock_nil then Inl (Plain ''validation: native provider clock is nil'')
      else (case checkExplicitVerdict defaultVerdict of
              Some e \<Rightarrow> Inl e
            | None \<Rightarrow> Inr \<lparr>sp_version = version, sp_def = defaultVerdict, sp_scenario = fmempty, sp_ticks = 0\<rparr>))"

definition SetVerdict :: "string \<Rightarrow> enum \<Rightarrow> ScriptedProvider \<Rightarrow> goerr \<times> ScriptedProvider" where
  "SetVerdict controlID verdict p =
     (case checkExplicitVerdict verdict of
        Some e \<Rightarrow> (Some e, p)
      | None \<Rightarrow> (None, p\<lparr>sp_scenario := fmupd controlID verdict (sp_scenario p)\<rparr>))"

definition provider_info :: "string \<Rightarrow> string \<Rightarrow> string \<Rightarrow> ProviderInfo" where
  "provider_info i name version = \<lparr>pi_ID = i, pi_Name = name, pi_Version = version, pi_ContractVersion = ContractVersion\<rparr>"

text \<open>The result both providers build: contract-valid or an error.\<close>

definition provider_answer ::
  "pblib \<Rightarrow> ValidationRequest \<Rightarrow> string \<Rightarrow> string \<Rightarrow> string \<Rightarrow> enum \<Rightarrow> string \<Rightarrow> gotime \<Rightarrow> ValidationResult option res" where
  "provider_answer L req resultID provider version verdict note now =
     (let r = \<lparr> vr_id = resultID, vr_request_id = vq_id req, vr_control_id = vq_control_id req, vr_provider = provider,
                vr_provider_version = version, vr_contract_version = ContractVersion, vr_verdict = verdict,
                vr_validated_at = Some (ts_New L now), vr_evidence_ids = [], vr_note = note \<rparr>
      in case CheckValidationResult L (Some r) of Some e \<Rightarrow> Inl e | None \<Rightarrow> Inr (Some r))"

definition Scripted_Validate ::
  "pblib \<Rightarrow> (nat \<Rightarrow> gotime) \<Rightarrow> ScriptedProvider \<Rightarrow> ValidationRequest option \<Rightarrow> ScriptedProvider \<times> ValidationResult option res" where
  "Scripted_Validate L clock p rq =
     (case CheckRequest L rq of
        Some e \<Rightarrow> (p, Inl e)
      | None \<Rightarrow>
         (case rq of
            None \<Rightarrow> (p, Inr None)
          | Some req \<Rightarrow>
             (let verdict = (case fmlookup (sp_scenario p) (vq_control_id req) of Some v \<Rightarrow> v | None \<Rightarrow> sp_def p);
                  now = clock (sp_ticks p); p1 = p\<lparr>sp_ticks := Suc (sp_ticks p)\<rparr> in
              if IsZero now then (p1, Inl (Sent (Validation ErrProvider) ''provider clock returned zero time''))
              else (p1, provider_answer L req
                (''vres-'' @ id16 (''blueveil-validation-result-v1'' @ US @ vq_id req @ US @ NativeProviderID @ US
                   @ enum_String ValidationVerdict_name verdict))
                NativeProviderID (sp_version p) verdict ''synthetic test verdict, not production security validation'' now))))"

definition ScriptedProvider_as :: "pblib \<Rightarrow> (nat \<Rightarrow> gotime) \<Rightarrow> string \<Rightarrow> ScriptedProvider Provider" where
  "ScriptedProvider_as L clock version =
     \<lparr>pv_Info = provider_info NativeProviderID ''native-test'' version, pv_Validate = Scripted_Validate L clock\<rparr>"

definition Error_Validate :: "pblib \<Rightarrow> goerr \<Rightarrow> unit \<Rightarrow> ValidationRequest option \<Rightarrow> unit \<times> ValidationResult option res" where
  "Error_Validate L pErr u rq =
     (case CheckRequest L rq of
        Some e \<Rightarrow> (u, Inl e)
      | None \<Rightarrow> (u, Inl (case pErr of
            Some e \<Rightarrow> Wrap (Validation ErrProvider) e
          | None \<Rightarrow> Sent (Validation ErrProvider) ''programmed failure'')))"

definition ErrorProvider_as :: "pblib \<Rightarrow> goerr \<Rightarrow> unit Provider" where
  "ErrorProvider_as L pErr = \<lparr>pv_Info = provider_info ''blueveil/provider/error-test'' ''error-test'' ''0'', pv_Validate = Error_Validate L pErr\<rparr>"

record RedveilAdapter =
  ra_version :: string
  ra_reason :: string
  ra_ticks :: nat

definition NewUnavailableAdapter :: "string \<Rightarrow> bool \<Rightarrow> string \<Rightarrow> RedveilAdapter res" where
  "NewUnavailableAdapter version clock_nil reason =
     (if clock_nil then Inl (Plain ''validation: redveil adapter clock is nil'')
      else if reason = [] then Inl (Plain ''validation: unavailability reason is required'')
      else Inr \<lparr>ra_version = version, ra_reason = reason, ra_ticks = 0\<rparr>)"

definition Redveil_Validate ::
  "pblib \<Rightarrow> (nat \<Rightarrow> gotime) \<Rightarrow> RedveilAdapter \<Rightarrow> ValidationRequest option \<Rightarrow> RedveilAdapter \<times> ValidationResult option res" where
  "Redveil_Validate L clock a rq =
     (case CheckRequest L rq of
        Some e \<Rightarrow> (a, Inl e)
      | None \<Rightarrow>
         (case rq of
            None \<Rightarrow> (a, Inr None)
          | Some req \<Rightarrow>
             (let now = clock (ra_ticks a); a1 = a\<lparr>ra_ticks := Suc (ra_ticks a)\<rparr> in
              if IsZero now then (a1, Inl (Sent (Validation ErrProvider) ''adapter clock returned zero time''))
              else (a1, provider_answer L req (''vres-'' @ id16 (''blueveil-validation-result-v1'' @ US @ vq_id req @ US @ RedveilProviderID))
                RedveilProviderID (ra_version a) VERDICT_NOT_TESTED
                (''redveil runtime unavailable ('' @ ra_reason a @ ''): NOT_TESTED, not a pass'') now))))"

definition RedveilAdapter_as :: "pblib \<Rightarrow> (nat \<Rightarrow> gotime) \<Rightarrow> string \<Rightarrow> RedveilAdapter Provider" where
  "RedveilAdapter_as L clock version =
     \<lparr>pv_Info = provider_info RedveilProviderID ''redveil'' version, pv_Validate = Redveil_Validate L clock\<rparr>"

subsection \<open>The contract of a provider\<close>

text \<open>
  What the executor expects of a provider: it refuses an invalid request, and a result it
  returns without an error is valid and answers that request. The provider may keep a state
  with an invariant of its own.
\<close>

locale validation_provider =
  fixes L :: pblib and P :: "'p Provider" and good :: "'p \<Rightarrow> bool"
  assumes refuses: "CheckRequest L rq \<noteq> None \<Longrightarrow> \<exists>e. snd (pv_Validate P p rq) = Inl e"
    and answers: "good p \<Longrightarrow> snd (pv_Validate P p (Some req)) = Inr out \<Longrightarrow>
      \<exists>r. out = Some r \<and> CheckValidationResult L (Some r) = None \<and> CheckIdentity req r = None"
    and keeps: "good p \<Longrightarrow> good (fst (pv_Validate P p rq))"
begin

lemma answer_accepted:
  assumes "good p" and "pv_Validate P p (Some req) = (p', Inr out)"
  obtains r where "out = Some r" and "CheckValidationResult L (Some r) = None" and "CheckIdentity req r = None"
    and "CheckRequest L (Some req) = None" and "good p'"
proof -
  have "snd (pv_Validate P p (Some req)) = Inr out" using assms(2) by simp
  then obtain r where r: "out = Some r" "CheckValidationResult L (Some r) = None" "CheckIdentity req r = None"
    using answers [OF assms(1)] by blast
  moreover have "CheckRequest L (Some req) = None" using refuses [of "Some req" p] assms(2) by fastforce
  moreover have "good p'" using keeps [OF assms(1), of "Some req"] assms(2) by simp
  ultimately show thesis by (rule that)
qed

end

lemma provider_answer_Inr: "provider_answer L req i provider version verdict note now = Inr out \<Longrightarrow>
  \<exists>r. out = Some r \<and> CheckValidationResult L (Some r) = None \<and> CheckIdentity req r = None \<and> vr_verdict r = verdict"
  by (auto simp: provider_answer_def Let_def CheckIdentity_def split: option.splits)

lemma CheckRequest_nil: "CheckRequest L None \<noteq> None"
  by (simp add: CheckRequest_def ValidateValidationRequest_def)

lemma provider_by_request:
  assumes "\<And>p rq e. CheckRequest L rq = Some e \<Longrightarrow> pv_Validate P p rq = (p, Inl e)"
    and "\<And>p req out. CheckRequest L (Some req) = None \<Longrightarrow> snd (pv_Validate P p (Some req)) = Inr out \<Longrightarrow>
      \<exists>r. out = Some r \<and> CheckValidationResult L (Some r) = None \<and> CheckIdentity req r = None"
  shows "validation_provider L P (\<lambda>_. True)"
proof
  fix rq p
  assume "CheckRequest L rq \<noteq> None"
  then show "\<exists>e. snd (pv_Validate P p rq) = Inl e" using assms(1) by fastforce
next
  fix p req out
  assume "snd (pv_Validate P p (Some req)) = Inr out"
  then show "\<exists>r. out = Some r \<and> CheckValidationResult L (Some r) = None \<and> CheckIdentity req r = None"
    using assms(1) [of "Some req"] assms(2) [of req p out] by (cases "CheckRequest L (Some req)") auto
qed simp

interpretation scripted: validation_provider L "ScriptedProvider_as L clock version" "\<lambda>_. True"
proof (rule provider_by_request)
  show "\<exists>r. out = Some r \<and> CheckValidationResult L (Some r) = None \<and> CheckIdentity req r = None"
    if "CheckRequest L (Some req) = None" "snd (pv_Validate (ScriptedProvider_as L clock version) p (Some req)) = Inr out" for p req out
    using that by (auto simp: ScriptedProvider_as_def Scripted_Validate_def Let_def dest: provider_answer_Inr split: if_splits)
qed (simp_all add: ScriptedProvider_as_def Scripted_Validate_def)

interpretation failing: validation_provider L "ErrorProvider_as L pErr" "\<lambda>_. True"
  by (rule provider_by_request) (simp_all add: ErrorProvider_as_def Error_Validate_def)

interpretation redveil: validation_provider L "RedveilAdapter_as L clock version" "\<lambda>_. True"
proof (rule provider_by_request)
  show "\<exists>r. out = Some r \<and> CheckValidationResult L (Some r) = None \<and> CheckIdentity req r = None"
    if "CheckRequest L (Some req) = None" "snd (pv_Validate (RedveilAdapter_as L clock version) p (Some req)) = Inr out" for p req out
    using that by (auto simp: RedveilAdapter_as_def Redveil_Validate_def Let_def dest: provider_answer_Inr split: if_splits)
qed (simp_all add: RedveilAdapter_as_def Redveil_Validate_def)

end
