(* ===== verification/ValidationRun.thy ===== *)
theory ValidationRun
  imports Validation Example_Run EvidenceStore
begin

text \<open>
  \<open>internal/validation/executor.go\<close> and \<open>runner.go\<close>: the executor that runs a provider behind
  the response engine, and one campaign case through the whole gated path. The engine is the
  model of \<open>Engine\<close>, instantiated with this executor, the default policy and the static
  verifier. The canonical serialization of a result is a parameter \<open>ser\<close>.
\<close>

subsection \<open>The executor\<close>

record 'p ValidationExecutor =
  vx_provider :: "'p Provider"
  vx_incident :: "Incident option"
  vx_alert :: "Alert option"
  vx_det :: "Detection option"
  vx_events :: "TelemetryEvent option list"
  vx_target :: string
  vx_clock :: "nat \<Rightarrow> gotime"

text \<open>
  What changes while it runs: the provider's own state, the evidence store, the number of
  clock reads, and the request and result of the single invocation.
\<close>

record 'p vex_state =
  vs_provider :: 'p
  vs_evidence :: "Evidence gomap"
  vs_ticks :: nat
  vs_lastReq :: "ValidationRequest option"
  vs_lastRes :: "ValidationResult option"

definition LastRequest :: "'p vex_state \<Rightarrow> ValidationRequest option" where
  "LastRequest x = vs_lastReq x"

definition LastResult :: "'p vex_state \<Rightarrow> ValidationResult option" where
  "LastResult x = vs_lastRes x"

text \<open>\<open>joinSorted\<close> of a set of asset ids.\<close>

fun join_comma :: "bool \<Rightarrow> string list \<Rightarrow> string" where
  "join_comma first [] = []"
| "join_comma first (s # ss) = (if first then [] else '','') @ s @ join_comma False ss"

definition joinSorted :: "string list \<Rightarrow> string" where
  "joinSorted names = join_comma True (sortedKeys names)"

fun executor_targets :: "pblib \<Rightarrow> TelemetryEvent option list \<Rightarrow> string list \<Rightarrow> string list res" where
  "executor_targets L [] acc = Inr acc"
| "executor_targets L (None # es) acc = Inl (Plain ''validation: nil contributing event'')"
| "executor_targets L (Some e # es) acc =
     (case ValidateTelemetryEvent L (Some e) of
        Some x \<Rightarrow> Inl (Ctx ''validation'' x)
      | None \<Rightarrow> executor_targets L es (te_asset_id e # acc))"

definition NewValidationExecutor ::
  "pblib \<Rightarrow> 'p Provider option \<Rightarrow> Incident option \<Rightarrow> Alert option \<Rightarrow> Detection option \<Rightarrow> TelemetryEvent option list
    \<Rightarrow> Evidence gomap option \<Rightarrow> (nat \<Rightarrow> gotime) option \<Rightarrow> 'p ValidationExecutor res" where
  "NewValidationExecutor L P incident alert det events store clock =
     (case P of None \<Rightarrow> Inl (Plain ''validation: executor needs a provider'') | Some p \<Rightarrow>
      if store = None then Inl (Plain ''validation: executor needs an evidence store'') else
      case clock of None \<Rightarrow> Inl (Plain ''validation: executor clock is nil'') | Some c \<Rightarrow>
      if incident = None \<or> alert = None \<or> det = None then Inl (Plain ''validation: incident, alert and detection are required'')
      else (case executor_targets L events [] of
              Inl e \<Rightarrow> Inl e
            | Inr targets \<Rightarrow>
                if targets = [] then Inl (Plain ''validation: no target asset'')
                else Inr \<lparr> vx_provider = p, vx_incident = incident, vx_alert = alert, vx_det = det, vx_events = events,
                           vx_target = joinSorted targets, vx_clock = c \<rparr>))"

abbreviation (input) EVIDENCE_NOTE :: enum where "EVIDENCE_NOTE \<equiv> EVIDENCE_TYPE_NOTE"

text \<open>The answer to a provider's result that passed the checks: the evidence and the report.\<close>

definition vex_report ::
  "pblib \<Rightarrow> (ValidationResult \<Rightarrow> string res) \<Rightarrow> 'p ValidationExecutor \<Rightarrow> ValidationRequest \<Rightarrow> ValidationResult \<Rightarrow> gotime
    \<Rightarrow> 'p vex_state \<Rightarrow> 'p vex_state \<times> ExecResult res" where
  "vex_report L ser x vreq r now st =
     (case ser r of
        Inl e \<Rightarrow> (st, Inl (Ctx ''validation: serialize result'' e))
      | Inr content \<Rightarrow>
         (case NewItem L (case vx_incident x of Some i \<Rightarrow> inc_id i | None \<Rightarrow> []) ''validation'' (vr_id r) EVIDENCE_NOTE
                 (vr_provider r) content now of
            Inl e \<Rightarrow> (st, Inl (Ctx ''validation: evidence'' e))
          | Inr item \<Rightarrow>
             (let st1 = st\<lparr>vs_evidence := snd (Store_Add item (vs_evidence st))\<rparr>;
                  detail = ''provider '' @ vr_provider r @ '' answered '' @ enum_String ValidationVerdict_name (vr_verdict r)
                    @ '' for control '' @ vr_control_id r @ '' (request '' @ vq_id vreq @ '', result '' @ vr_id r @ '')''
              in if vr_verdict r = VERDICT_NOT_TESTED
                   then (st1, Inr \<lparr>xr_success = False, xr_detail = detail @ '': validation not performed''\<rparr>)
                 else (st1, Inr \<lparr>xr_success = True, xr_detail = detail\<rparr>))))"

definition vex_Execute ::
  "pblib \<Rightarrow> (ValidationResult \<Rightarrow> string res) \<Rightarrow> 'p ValidationExecutor \<Rightarrow> 'p vex_state executor" where
  "vex_Execute L ser x st req =
     (if er_target req \<noteq> vx_target x \<or> er_target req = []
        then (st, Inl (Plain (''validation: executor bound to target '' @ quote (vx_target x) @ '', request targets '' @ quote (er_target req))))
      else
       (let now = vx_clock x (vs_ticks st); st1 = st\<lparr>vs_ticks := Suc (vs_ticks st)\<rparr> in
        if IsZero now then (st1, Inl (Plain ''validation: clock returned zero time''))
        else
         (case BuildRequest L (vx_incident x) (vx_alert x) (vx_det x) (vx_events x) now of
            Inl e \<Rightarrow> (st1, Inl e)
          | Inr vreq \<Rightarrow>
             (case pv_Validate (vx_provider x) (vs_provider st1) (Some vreq) of
                (p', Inl e) \<Rightarrow> (st1\<lparr>vs_provider := p'\<rparr>, Inl (Wrap (Validation ErrProvider) e))
              | (p', Inr out) \<Rightarrow>
                 (let st2 = st1\<lparr>vs_provider := p'\<rparr> in
                  case CheckValidationResult L out of
                    Some e \<Rightarrow> (st2, Inl e)
                  | None \<Rightarrow>
                     (case out of
                        None \<Rightarrow> (st2, Inr \<lparr>xr_success = False, xr_detail = []\<rparr>)
                      | Some r \<Rightarrow>
                         (case CheckIdentity vreq r of
                            Some e \<Rightarrow> (st2, Inl e)
                          | None \<Rightarrow>
                              vex_report L ser x vreq r now (st2\<lparr>vs_lastReq := Some vreq, vs_lastRes := Some r\<rparr>))))))))"

subsection \<open>One case\<close>

text \<open>
  The parameters of a run. The engine and the executor read one clock; since the reads
  interleave in a fixed order, the values they see are given as two functions of their own
  read numbers, the engine's and the executor's.
\<close>

record 'p CaseParams =
  cp_Provider :: "'p Provider option"
  cp_Incident :: "Incident option"
  cp_Alert :: "Alert option"
  cp_Detection :: "Detection option"
  cp_Events :: "TelemetryEvent option list"
  cp_Actor :: string
  cp_Reason :: string
  cp_Audit :: "AuditEntry list option"
  cp_Evidence :: "Evidence gomap option"
  cp_Clock :: "((nat \<Rightarrow> gotime) \<times> (nat \<Rightarrow> gotime)) option"

record CaseOutcome =
  cs_Request :: "ValidationRequest option"
  cs_Result :: "ValidationResult option"
  cs_Success :: bool
  cs_ProviderErr :: goerr

definition no_outcome :: CaseOutcome where
  "no_outcome = \<lparr>cs_Request = None, cs_Result = None, cs_Success = False, cs_ProviderErr = None\<rparr>"

text \<open>A step of the engine whose error ends the run.\<close>

definition and_then ::
  "'a outcome \<times> 's \<Rightarrow> ('a \<Rightarrow> 's \<Rightarrow> CaseOutcome outcome \<times> 's) \<Rightarrow> CaseOutcome outcome \<times> 's" where
  "and_then step k =
     (case step of
        (Ret a, s) \<Rightarrow> k a s
      | (Fail e, s) \<Rightarrow> (RetFail no_outcome e, s)
      | (RetFail a e, s) \<Rightarrow> (RetFail no_outcome e, s)
      | (Panicked, s) \<Rightarrow> (Panicked, s))"

text \<open>The report of the run from what the executor recorded.\<close>

definition recorded :: "bool \<Rightarrow> err \<Rightarrow> 'p vex_state engine \<Rightarrow> CaseOutcome outcome \<times> 'p vex_state engine" where
  "recorded success missing s =
     (case (LastRequest (en_exec s), LastResult (en_exec s)) of
        (Some q, Some r) \<Rightarrow> (Ret \<lparr>cs_Request = Some q, cs_Result = Some r, cs_Success = success, cs_ProviderErr = None\<rparr>, s)
      | _ \<Rightarrow> (RetFail no_outcome missing, s))"

definition after_execute ::
  "'p vex_state env \<Rightarrow> string \<Rightarrow> Execution outcome \<times> 'p vex_state engine \<Rightarrow> CaseOutcome outcome \<times> 'p vex_state engine" where
  "after_execute env recID step =
     (let failed = (\<lambda>e s.
            if \<not> errors_Is e (Response ErrExecutionFailed) then (RetFail (no_outcome\<lparr>cs_ProviderErr := Some e\<rparr>) e, s)
            else recorded False (Plain (''validation: execution failed without a recorded result: '' @ err_Error e)) s)
      in case step of
           (Panicked, s) \<Rightarrow> (Panicked, s)
         | (Fail e, s) \<Rightarrow> failed e s
         | (RetFail x e, s) \<Rightarrow> failed e s
         | (Ret exec, s) \<Rightarrow>
             and_then (e_Verify env recID s)
               (\<lambda>_ s1. recorded (ex_success exec) (Plain ''validation: execution succeeded without a recorded result'') s1))"

definition approve_if_pending ::
  "'p vex_state env \<Rightarrow> Recommendation \<Rightarrow> string \<Rightarrow> string \<Rightarrow> string \<Rightarrow> 'p vex_state engine \<Rightarrow> unit outcome \<times> 'p vex_state engine" where
  "approve_if_pending env dec recID actor reason s =
     (if rec_status dec = ST_PENDING_APPROVAL then
        (case e_Approve env recID actor reason 3600000000000 s of
           (Ret _, s1) \<Rightarrow> (Ret (), s1) | (Fail e, s1) \<Rightarrow> (Fail e, s1) | (RetFail _ e, s1) \<Rightarrow> (Fail e, s1)
         | (Panicked, s1) \<Rightarrow> (Panicked, s1))
      else (Ret (), s))"

definition run_engine ::
  "'p CaseParams \<Rightarrow> 'p vex_state env \<Rightarrow> 'p vex_state engine \<Rightarrow> CaseOutcome outcome \<times> 'p vex_state engine" where
  "run_engine p env s0 =
     and_then (e_Recommend env (cp_Incident p) (cp_Alert p) (cp_Detection p) (cp_Events p) s0) (\<lambda>r s1.
     and_then (e_Decide env (rec_id r) ''campaign/policy'' s1) (\<lambda>dec s2.
     and_then (approve_if_pending env dec (rec_id r) (cp_Actor p) (cp_Reason p) s2) (\<lambda>_ s3.
     after_execute env (rec_id r) (e_Execute env (rec_id r) s3))))"

definition run_checks :: "'p CaseParams \<Rightarrow> goerr" where
  "run_checks p = first_err [
     fail_if (cp_Provider p = None) (Plain ''validation: run needs a provider''),
     fail_if (cp_Incident p = None \<or> cp_Alert p = None \<or> cp_Detection p = None)
       (Plain ''validation: run needs incident, alert and detection''),
     fail_if (cp_Actor p = []) (Plain ''validation: run needs an actor''),
     fail_if (cp_Audit p = None) (Plain ''validation: run needs an audit log''),
     fail_if (cp_Evidence p = None) (Plain ''validation: run needs an evidence store''),
     fail_if (cp_Clock p = None) (Plain ''validation: run needs a clock'')]"

text \<open>
  \<open>RunCase\<close> from the provider's state: the outcome, and the engine state it leaves (with the
  audit log and the executor's state), or nothing when it ended before there was an engine.
\<close>

definition RunCase ::
  "pblib \<Rightarrow> (ValidationResult \<Rightarrow> string res) \<Rightarrow> 'p CaseParams \<Rightarrow> 'p \<Rightarrow> CaseOutcome outcome \<times> 'p vex_state engine option" where
  "RunCase L ser p p0 =
     (case run_checks p of
        Some e \<Rightarrow> (RetFail no_outcome e, None)
      | None \<Rightarrow>
         (case NewValidationExecutor L (cp_Provider p) (cp_Incident p) (cp_Alert p) (cp_Detection p) (cp_Events p)
                 (cp_Evidence p) (map_option snd (cp_Clock p)) of
            Inl e \<Rightarrow> (RetFail no_outcome e, None)
          | Inr x \<Rightarrow>
             (case NewEngine L (Some DefaultPolicy_Decide) (Some (vex_Execute L ser x))
                     (Some (StaticVerifier OUTCOME_VERIFIED ''campaign harness confirms execution''))
                     (cp_Audit p) (map_option fst (cp_Clock p))
                     \<lparr>vs_provider = p0, vs_evidence = (case cp_Evidence p of Some ev \<Rightarrow> ev | None \<Rightarrow> fmempty), vs_ticks = 0,
                      vs_lastReq = None, vs_lastRes = None\<rparr> of
                Inl e \<Rightarrow> (RetFail no_outcome e, None)
              | Inr (env, s0) \<Rightarrow> (case run_engine p env s0 of (out, s) \<Rightarrow> (out, Some s)))))"

subsection \<open>Counting outcomes\<close>

record Summary =
  su_Total :: nat
  su_ByVerdict :: "(enum, nat) fmap"
  su_ProviderErrors :: nat
  su_NotTested :: nat
  su_RateLimited :: nat
  su_Unknown :: nat

definition verdict_count :: "(enum, nat) fmap \<Rightarrow> enum \<Rightarrow> nat" where
  "verdict_count m v = (case fmlookup m v of Some n \<Rightarrow> n | None \<Rightarrow> 0)"

definition summarize_one :: "CaseOutcome \<Rightarrow> Summary \<Rightarrow> Summary" where
  "summarize_one c s =
     (let s1 = s\<lparr>su_Total := su_Total s + 1\<rparr> in
      case (cs_ProviderErr c, cs_Result c) of
        (None, Some r) \<Rightarrow>
          (let v = vr_verdict r; s2 = s1\<lparr>su_ByVerdict := fmupd v (verdict_count (su_ByVerdict s1) v + 1) (su_ByVerdict s1)\<rparr> in
           if v = VERDICT_NOT_TESTED then s2\<lparr>su_NotTested := su_NotTested s2 + 1\<rparr>
           else if v = VERDICT_RATE_LIMITED then s2\<lparr>su_RateLimited := su_RateLimited s2 + 1\<rparr>
           else if v = VERDICT_UNKNOWN then s2\<lparr>su_Unknown := su_Unknown s2 + 1\<rparr>
           else s2)
      | _ \<Rightarrow> s1\<lparr>su_ProviderErrors := su_ProviderErrors s1 + 1\<rparr>)"

definition Summarize :: "CaseOutcome list \<Rightarrow> Summary" where
  "Summarize outcomes = fold summarize_one outcomes
     \<lparr>su_Total = 0, su_ByVerdict = fmempty, su_ProviderErrors = 0, su_NotTested = 0, su_RateLimited = 0, su_Unknown = 0\<rparr>"

subsection \<open>What one invocation does\<close>

text \<open>
  The executor was invoked: the request it built reached the provider, whose result passed the
  checks and was recorded; what it reports and stores follows the result.
\<close>

definition invoked ::
  "pblib \<Rightarrow> (ValidationResult \<Rightarrow> string res) \<Rightarrow> 'p ValidationExecutor \<Rightarrow> 'p vex_state \<Rightarrow> ValidationRequest \<Rightarrow> ValidationResult
    \<Rightarrow> 'p vex_state \<Rightarrow> ExecResult res \<Rightarrow> bool" where
  "invoked L ser x st q r st' ans \<longleftrightarrow> vs_lastReq st' = Some q \<and> vs_lastRes st' = Some r \<and>
     CheckRequest L (Some q) = None \<and>
     pv_Validate (vx_provider x) (vs_provider st) (Some q) = (vs_provider st', Inr (Some r)) \<and>
     CheckValidationResult L (Some r) = None \<and> CheckIdentity q r = None \<and>
     (\<forall>res. ans = Inr res \<longrightarrow> xr_success res = (vr_verdict r \<noteq> VERDICT_NOT_TESTED)) \<and>
     (\<exists>now. \<forall>content item. ser r = Inr content \<longrightarrow>
        NewItem L (case vx_incident x of Some i \<Rightarrow> inc_id i | None \<Rightarrow> []) ''validation'' (vr_id r) EVIDENCE_NOTE (vr_provider r) content now
          = Inr item \<longrightarrow> vs_evidence st' = snd (Store_Add item (vs_evidence st)))"

definition evidence_grows :: "Evidence gomap \<Rightarrow> Evidence gomap \<Rightarrow> bool" where
  "evidence_grows m m' \<longleftrightarrow> (\<forall>k v. fmlookup m k = Some v \<longrightarrow> fmlookup m' k = Some v)"

lemma Store_Add_grows: "evidence_grows m (snd (Store_Add item m))"
  by (auto simp: evidence_grows_def Store_Add_def)

lemma vex_report_cases:
  assumes "vex_report L ser x q r now st = (st', ans)"
  shows "vs_lastReq st' = vs_lastReq st \<and> vs_lastRes st' = vs_lastRes st \<and> vs_provider st' = vs_provider st \<and>
    evidence_grows (vs_evidence st) (vs_evidence st') \<and>
    (\<forall>res. ans = Inr res \<longrightarrow> xr_success res = (vr_verdict r \<noteq> VERDICT_NOT_TESTED)) \<and>
    (\<forall>content item. ser r = Inr content \<longrightarrow>
        NewItem L (case vx_incident x of Some i \<Rightarrow> inc_id i | None \<Rightarrow> []) ''validation'' (vr_id r) EVIDENCE_NOTE (vr_provider r) content now
          = Inr item \<longrightarrow> vs_evidence st' = snd (Store_Add item (vs_evidence st)))"
  using assms Store_Add_grows
  by (auto simp: vex_report_def Let_def evidence_grows_def split: sum.splits if_splits)

lemma BuildRequest_checked: "BuildRequest L i a d es now = Inr q \<Longrightarrow> CheckRequest L (Some q) = None"
  by (auto simp: BuildRequest_def Let_def split: option.splits sum.splits prod.splits if_splits)

lemma CheckValidationResult_nil [simp]: "CheckValidationResult L None \<noteq> None"
  by (simp add: CheckValidationResult_def ValidateValidationResult_def)

lemma vex_cases:
  assumes "vex_Execute L ser x st req = (st', ans)" and "vs_lastReq st = None" and "vs_lastRes st = None"
  shows "evidence_grows (vs_evidence st) (vs_evidence st') \<and>
    (vs_lastReq st' = None \<and> vs_lastRes st' = None \<and> (\<exists>e. ans = Inl e) \<or> (\<exists>q r. invoked L ser x st q r st' ans))"
proof -
  have refl: "evidence_grows m m" for m by (simp add: evidence_grows_def)
  let ?now = "vx_clock x (vs_ticks st)" and ?st1 = "st\<lparr>vs_ticks := Suc (vs_ticks st)\<rparr>"
  show ?thesis
  proof (cases "\<exists>q p' r. er_target req = vx_target x \<and> er_target req \<noteq> [] \<and> \<not> IsZero ?now \<and>
      BuildRequest L (vx_incident x) (vx_alert x) (vx_det x) (vx_events x) ?now = Inr q \<and>
      pv_Validate (vx_provider x) (vs_provider st) (Some q) = (p', Inr (Some r)) \<and> CheckValidationResult L (Some r) = None \<and> CheckIdentity q r = None")
    case True
    then obtain q p' r where h: "er_target req = vx_target x" "er_target req \<noteq> []" "\<not> IsZero ?now"
      "BuildRequest L (vx_incident x) (vx_alert x) (vx_det x) (vx_events x) ?now = Inr q"
      "pv_Validate (vx_provider x) (vs_provider st) (Some q) = (p', Inr (Some r))" "CheckValidationResult L (Some r) = None" "CheckIdentity q r = None"
      by blast
    let ?st2 = "st\<lparr>vs_ticks := Suc (vs_ticks st), vs_provider := p', vs_lastReq := Some q, vs_lastRes := Some r\<rparr>"
    have "vex_report L ser x q r ?now ?st2 = (st', ans)" using assms(1) h by (simp add: vex_Execute_def Let_def)
    note rep = vex_report_cases [OF this]
    have "invoked L ser x st q r st' ans"
      unfolding invoked_def using rep h BuildRequest_checked [OF h(4)] by auto
    then show ?thesis using rep by auto
  next
    case False
    then have "vs_lastReq st' = None \<and> vs_lastRes st' = None \<and> (\<exists>e. ans = Inl e) \<and> vs_evidence st' = vs_evidence st"
      using assms by (auto simp: vex_Execute_def Let_def split: if_splits sum.splits prod.splits option.splits)
    then show ?thesis by (simp add: refl)
  qed
qed

subsection \<open>The engine around it\<close>

lemma Recommend_exec: "e_Recommend env i a d es s = (out, s') \<Longrightarrow> en_exec s' = en_exec s"
  using Recommend_effect [of env i a d es s out s'] by (auto simp: quiet_def proposed_def)

lemma Decide_exec: "e_Decide env i actor s = (out, s') \<Longrightarrow> en_exec s' = en_exec s"
  using Decide_effect [of env i actor s out s'] by (auto simp: quiet_def moved_def)

lemma Approve_exec: "e_Approve env i a r t s = (out, s') \<Longrightarrow> en_exec s' = en_exec s"
  using Approve_effect [of env i a r t s out s'] by (auto simp: quiet_def moved_def)

lemma Verify_exec: "e_Verify env i s = (out, s') \<Longrightarrow> en_exec s' = en_exec s"
  using Verify_effect [of env i s out s'] by (auto simp: quiet_def moved_def)

lemma approve_if_pending_exec: "approve_if_pending env dec i actor reason s = (out, s') \<Longrightarrow> en_exec s' = en_exec s"
  by (auto simp: approve_if_pending_def dest: Approve_exec split: if_splits prod.splits outcome.splits)

lemma settle_exec: "e_settle env i r ss actor dec reason result phase out s = (o', s') \<Longrightarrow> en_exec s' = en_exec s"
  using e_settle_effect [of env i r ss actor dec reason result phase out s o' s'] by (simp add: quiet_def)

lemma record_exec: "e_record env actor op risk dec reason result recID phase s = (b, s') \<Longrightarrow> en_exec s' = en_exec s"
  using e_record_quiet [of env actor op risk dec reason result recID phase s b s'] by (simp add: quiet_def)

lemma finish_exec: "e_finish env i r ss req now answer s3 = (out, s') \<Longrightarrow> en_exec s' = en_exec s3"
  by (auto simp: e_finish_def Let_def dest!: settle_exec record_exec e_now_cases split: sum.splits prod.splits bool.splits if_splits)

lemma finish_Ret:
  assumes "e_finish env i r ss req now answer s3 = (Ret exec, s')"
  shows "\<exists>res. answer = Inr res \<and> xr_success res \<and> ex_success exec"
proof -
  have "BuildExecution L req res a b = Inr e \<Longrightarrow> ex_success e = xr_success res" for L res a b e
    by (auto simp: BuildExecution_def Let_def split: if_splits option.splits)
  then show ?thesis using assms
    by (auto simp: e_finish_def Let_def e_settle_def split: sum.splits prod.splits bool.splits if_splits option.splits)
qed

lemma Execute_exec:
  assumes "e_Execute env i s = (out, s')"
  shows "(en_exec s' = en_exec s \<and> (\<forall>exec. out \<noteq> Ret exec)) \<or>
    (\<exists>req ans. e_executor env (en_exec s) req = (en_exec s', ans) \<and>
       (\<forall>exec. out = Ret exec \<longrightarrow> (\<exists>res. ans = Inr res \<and> xr_success res \<and> ex_success exec)))"
proof -
  let ?s1 = "s\<lparr>en_ticks := Suc (en_ticks s)\<rparr>" and ?now = "e_clock env (en_ticks s)"
  show ?thesis
  proof (cases "\<exists>r ss aid. \<not> IsZero ?now \<and> e_live i s = Ret (r, ss) \<and>
      rec_status r = ST_APPROVED \<and> ss_safety ss = StateConfirm \<and> \<not> ss_executed ss \<and> authorize (e_pb env) r ss ?now = Inr aid")
    case False
    then show ?thesis using assms
      by (auto simp: e_Execute_def e_now_def Let_def split: if_splits outcome.splits prod.splits sum.splits)
  next
    case True
    then obtain r ss aid where h: "\<not> IsZero ?now" "e_live i s = Ret (r, ss)"
      "rec_status r = ST_APPROVED" "ss_safety ss = StateConfirm" "\<not> ss_executed ss" "authorize (e_pb env) r ss ?now = Inr aid" by blast
    have adv: "Advance StateConfirm GateApproved = Inr StateExecute" by (simp add: Advance_def)
    let ?r1 = "r\<lparr>rec_status := ST_EXECUTING\<rparr>" and ?ss1 = "ss\<lparr>ss_safety := StateExecute\<rparr>"
    let ?req = "exec_request ?r1 aid"
    obtain x' ans where a: "e_executor env (en_exec s) ?req = (x', ans)" by force
    have fin: "e_finish env i ?r1 ?ss1 ?req ?now ans ((e_put i ?r1 ?ss1 ?s1)\<lparr>en_exec := x'\<rparr>) = (out, s')"
      using assms h adv a by (simp add: e_Execute_def e_now_def Let_def)
    have x': "x' = en_exec s'" using finish_exec [OF fin] by simp
    have "\<exists>res. ans = Inr res \<and> xr_success res \<and> ex_success exec" if "out = Ret exec" for exec
      by (rule finish_Ret [OF fin [unfolded that]])
    then show ?thesis using a unfolding x' by blast
  qed
qed

subsection \<open>What a run returns\<close>

lemma and_then_Ret: "and_then step k = (Ret out, s') \<longleftrightarrow> (\<exists>a s. step = (Ret a, s) \<and> k a s = (Ret out, s'))"
  by (auto simp: and_then_def split: prod.splits outcome.splits)

lemma recorded_Ret: "recorded success missing s = (Ret out, s') \<longleftrightarrow> s' = s \<and>
    (\<exists>q r. vs_lastReq (en_exec s) = Some q \<and> vs_lastRes (en_exec s) = Some r \<and>
       out = \<lparr>cs_Request = Some q, cs_Result = Some r, cs_Success = success, cs_ProviderErr = None\<rparr>)"
  by (auto simp: recorded_def LastRequest_def LastResult_def split: option.splits)

lemma after_execute_Ret:
  assumes "after_execute env i (x, s) = (Ret out, s')"
  shows "en_exec s' = en_exec s \<and> (\<exists>q r. vs_lastReq (en_exec s) = Some q \<and> vs_lastRes (en_exec s) = Some r \<and>
      cs_Request out = Some q \<and> cs_Result out = Some r \<and> cs_ProviderErr out = None) \<and>
    (cs_Success out \<longrightarrow> (\<exists>exec v s1. x = Ret exec \<and> ex_success exec \<and> e_Verify env i s = (Ret v, s1) \<and> s' = s1))"
proof (cases x)
  case (Ret exec)
  then obtain v where v: "e_Verify env i s = (Ret v, s')" and
    "recorded (ex_success exec) (Plain ''validation: execution succeeded without a recorded result'') s' = (Ret out, s')"
    using assms by (auto simp: after_execute_def and_then_Ret recorded_Ret)
  then show ?thesis using Ret Verify_exec [OF v] by (auto simp: recorded_Ret)
next
  case (Fail e)
  then show ?thesis using assms by (auto simp: after_execute_def recorded_Ret split: if_splits)
next
  case (RetFail y e)
  then show ?thesis using assms by (auto simp: after_execute_def recorded_Ret split: if_splits)
next
  case Panicked
  then show ?thesis using assms by (simp add: after_execute_def)
qed

text \<open>A run that returns an outcome invoked its executor once, from the state it started in.\<close>

lemma run_engine_Ret:
  assumes "run_engine p env s0 = (Ret out, s)" and "e_executor env = vex_Execute L ser x"
    and "vs_lastReq (en_exec s0) = None" and "vs_lastRes (en_exec s0) = None"
  shows "\<exists>q r ans. invoked L ser x (en_exec s0) q r (en_exec s) ans \<and> evidence_grows (vs_evidence (en_exec s0)) (vs_evidence (en_exec s)) \<and>
    cs_Request out = Some q \<and> cs_Result out = Some r \<and> cs_ProviderErr out = None \<and>
    (cs_Success out \<longrightarrow> vr_verdict r \<noteq> VERDICT_NOT_TESTED)"
proof -
  obtain r1 s1 dec s2 u s3 where steps:
    "e_Recommend env (cp_Incident p) (cp_Alert p) (cp_Detection p) (cp_Events p) s0 = (Ret r1, s1)"
    "e_Decide env (rec_id r1) ''campaign/policy'' s1 = (Ret dec, s2)"
    "approve_if_pending env dec (rec_id r1) (cp_Actor p) (cp_Reason p) s2 = (Ret u, s3)"
    "after_execute env (rec_id r1) (e_Execute env (rec_id r1) s3) = (Ret out, s)"
    using assms(1) unfolding run_engine_def and_then_Ret by blast
  have e3: "en_exec s3 = en_exec s0"
    using Recommend_exec [OF steps(1)] Decide_exec [OF steps(2)] approve_if_pending_exec [OF steps(3)] by simp
  obtain y s4 where y: "e_Execute env (rec_id r1) s3 = (y, s4)" by force
  note fin = after_execute_Ret [OF steps(4) [unfolded y]]
  then obtain q r where qr: "vs_lastReq (en_exec s4) = Some q" "vs_lastRes (en_exec s4) = Some r"
    "cs_Request out = Some q" "cs_Result out = Some r" "cs_ProviderErr out = None" by blast
  have "en_exec s4 \<noteq> en_exec s0" using qr(1) assms(3) by auto
  then obtain req ans where ans: "vex_Execute L ser x (en_exec s0) req = (en_exec s4, ans)"
    and ret: "\<forall>exec. y = Ret exec \<longrightarrow> (\<exists>res. ans = Inr res \<and> xr_success res \<and> ex_success exec)"
    using Execute_exec [OF y] unfolding e3 assms(2) by metis
  have v: "evidence_grows (vs_evidence (en_exec s0)) (vs_evidence (en_exec s4))"
    "\<exists>q' r'. invoked L ser x (en_exec s0) q' r' (en_exec s4) ans"
    using vex_cases [OF ans assms(3,4)] qr(1) by auto
  then have inv: "invoked L ser x (en_exec s0) q r (en_exec s4) ans"
    using qr(1,2) unfolding invoked_def by auto
  have "cs_Success out \<longrightarrow> vr_verdict r \<noteq> VERDICT_NOT_TESTED"
  proof
    assume "cs_Success out"
    then obtain exec where "y = Ret exec" using fin by blast
    then obtain res where "ans = Inr res" "xr_success res" using ret by blast
    then show "vr_verdict r \<noteq> VERDICT_NOT_TESTED" using inv unfolding invoked_def by blast
  qed
  then show ?thesis using inv v(1) qr fin by metis
qed

lemma NewValidationExecutor_Inr:
  assumes "NewValidationExecutor L P i a d es ev c = Inr x"
  shows "P = Some (vx_provider x) \<and> vx_incident x = i \<and> vx_alert x = a \<and> vx_det x = d \<and> vx_events x = es \<and> c = Some (vx_clock x)"
  using assms by (auto simp: NewValidationExecutor_def split: option.splits if_splits sum.splits)

lemma NewEngine_Inr:
  assumes "NewEngine L p x v l c x0 = Inr (env, s0)"
  shows "x = Some (e_executor env) \<and> v = Some (e_verifier env) \<and> p = Some (e_policy env) \<and> c = Some (e_clock env) \<and> e_pb env = L \<and>
    l = Some (en_audit s0) \<and> en_exec s0 = x0 \<and> en_recs s0 = Map.empty"
  using assms by (auto simp: NewEngine_def split: option.splits)

lemma RunCase_Ret:
  assumes "RunCase L ser p p0 = (Ret out, so)"
  obtains P ev x env s0 s where "cp_Provider p = Some P" and "cp_Evidence p = Some ev" and "so = Some s"
    and "vx_provider x = P" and "vx_incident x = cp_Incident p" and "run_engine p env s0 = (Ret out, s)"
    and "e_executor env = vex_Execute L ser x" and "e_policy env = DefaultPolicy_Decide" and "e_pb env = L"
    and "e_verifier env = StaticVerifier OUTCOME_VERIFIED ''campaign harness confirms execution''"
    and "en_exec s0 = \<lparr>vs_provider = p0, vs_evidence = ev, vs_ticks = 0, vs_lastReq = None, vs_lastRes = None\<rparr>"
    and "en_recs s0 = Map.empty" and "cp_Audit p = Some (en_audit s0)"
proof -
  have checks: "run_checks p = None" using assms by (auto simp: RunCase_def split: option.splits)
  then obtain P ev where P: "cp_Provider p = Some P" and ev: "cp_Evidence p = Some ev" by (auto simp: run_checks_def)
  obtain x where x: "NewValidationExecutor L (cp_Provider p) (cp_Incident p) (cp_Alert p) (cp_Detection p) (cp_Events p)
      (cp_Evidence p) (map_option snd (cp_Clock p)) = Inr x"
    using assms checks by (auto simp: RunCase_def split: sum.splits)
  let ?x0 = "\<lparr>vs_provider = p0, vs_evidence = ev, vs_ticks = 0, vs_lastReq = None, vs_lastRes = None\<rparr>"
  obtain env s0 where e: "NewEngine L (Some DefaultPolicy_Decide) (Some (vex_Execute L ser x))
      (Some (StaticVerifier OUTCOME_VERIFIED ''campaign harness confirms execution'')) (cp_Audit p) (map_option fst (cp_Clock p)) ?x0 = Inr (env, s0)"
    using assms checks x ev by (auto simp: RunCase_def split: sum.splits)
  have run: "(case run_engine p env s0 of (out, s) \<Rightarrow> (out, Some s)) = (Ret out, so)"
    using assms checks x e ev by (simp add: RunCase_def)
  then obtain s where "run_engine p env s0 = (Ret out, s)" "so = Some s" by (auto split: prod.splits)
  then show thesis using that [of P ev s x env s0] P ev NewValidationExecutor_Inr [OF x] NewEngine_Inr [OF e] by simp
qed

subsection \<open>The audit trail\<close>

text \<open>One entry was appended, with a given actor and decision.\<close>

definition adds :: "string \<Rightarrow> AuditDecision \<Rightarrow> AuditEntry list \<Rightarrow> AuditEntry list \<Rightarrow> bool" where
  "adds actor d l l' \<longleftrightarrow> (\<exists>e. l' = l @ [e] \<and> au_decision e = d \<and> au_actor e = actor)"

lemma record_adds: "e_record env actor op risk dec reason result recID phase s = (True, s') \<Longrightarrow> adds actor dec (en_audit s) (en_audit s')"
  by (auto simp: e_record_def adds_def AuditLog_Append_def split: prod.splits sum.splits dest!: e_now_cases)

lemma settle_adds:
  "e_settle env i r ss actor dec reason result phase out s = (Ret v, s') \<Longrightarrow> adds actor dec (en_audit s) (en_audit s') \<and> out = Ret v \<and>
     en_sessions s' i = Some ss"
proof -
  assume a: "e_settle env i r ss actor dec reason result phase out s = (Ret v, s')"
  then have "adds actor dec (en_audit s) (en_audit s') \<and> out = Ret v"
    by (auto simp: e_settle_def split: prod.splits bool.splits option.splits dest!: record_adds)
  moreover have "en_sessions s' i = Some ss" using e_settle_effect [OF a] by (simp add: quiet_def)
  ultimately show ?thesis by blast
qed

lemma Recommend_adds:
  assumes "e_Recommend env i a d es s = (Ret r, s')" and "en_recs s = Map.empty"
  shows "adds (rec_recommended_by r) AuditRecommended (en_audit s) (en_audit s')"
  using assms
  by (auto simp: e_Recommend_def Let_def split: prod.splits sum.splits bool.splits if_splits dest!: record_adds e_now_cases)

lemma DefaultPolicy_answers: "DefaultPolicy_Decide a = (d, None) \<Longrightarrow> d = DecisionAllow \<or> d = DecisionRequireApproval"
  by (auto simp: DefaultPolicy_Decide_def split: if_splits)

lemma Decide_adds:
  assumes "e_Decide env i actor s = (Ret r, s')" and "e_policy env = DefaultPolicy_Decide"
  shows "rec_status r = ST_APPROVED \<and> adds actor AuditAllowed (en_audit s) (en_audit s') \<or>
    rec_status r = ST_PENDING_APPROVAL \<and> adds actor AuditApprovalRequired (en_audit s) (en_audit s')"
  using assms
  by (auto simp: e_Decide_def Let_def split: prod.splits sum.splits outcome.splits if_splits option.splits Decision.splits
      dest!: settle_adds e_now_cases DefaultPolicy_answers)

lemma Approve_adds: "e_Approve env i actor reason ttl s = (Ret a, s') \<Longrightarrow> adds actor AuditApproved (en_audit s) (en_audit s')"
  by (auto simp: e_Approve_def Let_def split: prod.splits sum.splits outcome.splits if_splits option.splits bool.splits
      dest!: record_adds e_now_cases)

lemma finish_adds:
  "e_finish env i r ss req now ans s3 = (Ret exec, s') \<Longrightarrow> adds ''executor'' AuditExecuted (en_audit s3) (en_audit s') \<and>
     (\<exists>ss'. en_sessions s' i = Some ss' \<and> ss_execution ss' = Some exec)"
  by (auto simp: e_finish_def Let_def split: sum.splits prod.splits bool.splits if_splits dest!: settle_adds e_now_cases)

lemma Execute_adds:
  "e_Execute env i s = (Ret exec, s') \<Longrightarrow> adds ''executor'' AuditExecuted (en_audit s) (en_audit s') \<and>
     (\<exists>ss'. en_sessions s' i = Some ss' \<and> ss_execution ss' = Some exec)"
  by (auto simp: e_Execute_def Let_def split: prod.splits sum.splits outcome.splits if_splits dest!: finish_adds e_now_cases)

lemma Verify_adds:
  assumes "e_Verify env i s = (Ret v, s')" and "en_sessions s i = Some ss" and "ss_execution ss = Some exec" and "ex_success exec"
    and "e_verifier env = StaticVerifier OUTCOME_VERIFIED detail" and "detail \<noteq> []"
  shows "adds ''verifier'' AuditVerified (en_audit s) (en_audit s')"
  using assms
  by (auto simp: e_Verify_def Let_def verify_outcome_def StaticVerifier_def e_live_Ret
      split: prod.splits sum.splits outcome.splits if_splits dest!: settle_adds e_now_cases)

lemma approve_if_pending_adds:
  assumes "approve_if_pending env dec i actor reason s = (Ret u, s')"
  shows "if rec_status dec = ST_PENDING_APPROVAL then adds actor AuditApproved (en_audit s) (en_audit s') else s' = s"
  using assms by (auto simp: approve_if_pending_def split: prod.splits outcome.splits dest!: Approve_adds)

lemma run_engine_audit:
  assumes "run_engine p env s0 = (Ret out, s)" and "cs_Success out" and "en_recs s0 = Map.empty"
    and "e_policy env = DefaultPolicy_Decide" and "e_verifier env = StaticVerifier OUTCOME_VERIFIED detail" and "detail \<noteq> []"
  shows "\<exists>new. en_audit s = en_audit s0 @ new \<and>
    (map au_decision new = [AuditRecommended, AuditAllowed, AuditExecuted, AuditVerified] \<or>
     map au_decision new = [AuditRecommended, AuditApprovalRequired, AuditApproved, AuditExecuted, AuditVerified] \<and>
       au_actor (new ! 2) = cp_Actor p)"
proof -
  obtain r1 s1 dec s2 u s3 where steps:
    "e_Recommend env (cp_Incident p) (cp_Alert p) (cp_Detection p) (cp_Events p) s0 = (Ret r1, s1)"
    "e_Decide env (rec_id r1) ''campaign/policy'' s1 = (Ret dec, s2)"
    "approve_if_pending env dec (rec_id r1) (cp_Actor p) (cp_Reason p) s2 = (Ret u, s3)"
    "after_execute env (rec_id r1) (e_Execute env (rec_id r1) s3) = (Ret out, s)"
    using assms(1) unfolding run_engine_def and_then_Ret by blast
  obtain y s4 where y: "e_Execute env (rec_id r1) s3 = (y, s4)" by force
  obtain exec v where ex: "y = Ret exec" "ex_success exec" "e_Verify env (rec_id r1) s4 = (Ret v, s)"
    using after_execute_Ret [OF steps(4) [unfolded y]] assms(2) by blast
  obtain ss where ss: "en_sessions s4 (rec_id r1) = Some ss" "ss_execution ss = Some exec"
    and a4: "adds ''executor'' AuditExecuted (en_audit s3) (en_audit s4)"
    using Execute_adds [OF y [unfolded ex(1)]] by blast
  obtain e1 e4 e5 where e: "en_audit s1 = en_audit s0 @ [e1]" "au_decision e1 = AuditRecommended"
    "en_audit s4 = en_audit s3 @ [e4]" "au_decision e4 = AuditExecuted" "en_audit s = en_audit s4 @ [e5]" "au_decision e5 = AuditVerified"
    using Recommend_adds [OF steps(1) assms(3)] a4 Verify_adds [OF ex(3) ss ex(2) assms(5,6)] unfolding adds_def by blast
  consider (low) "rec_status dec = ST_APPROVED" "adds ''campaign/policy'' AuditAllowed (en_audit s1) (en_audit s2)"
    | (high) "rec_status dec = ST_PENDING_APPROVAL" "adds ''campaign/policy'' AuditApprovalRequired (en_audit s1) (en_audit s2)"
    using Decide_adds [OF steps(2) assms(4)] by blast
  then show ?thesis
  proof cases
    case low
    then obtain e2 where "en_audit s2 = en_audit s1 @ [e2]" "au_decision e2 = AuditAllowed" by (auto simp: adds_def)
    moreover have "s3 = s2" using approve_if_pending_adds [OF steps(3)] low by simp
    ultimately show ?thesis using e by (intro exI [of _ "[e1, e2, e4, e5]"]) simp
  next
    case high
    then obtain e2 where "en_audit s2 = en_audit s1 @ [e2]" "au_decision e2 = AuditApprovalRequired" by (auto simp: adds_def)
    moreover obtain e3 where "en_audit s3 = en_audit s2 @ [e3]" "au_decision e3 = AuditApproved" "au_actor e3 = cp_Actor p"
      using approve_if_pending_adds [OF steps(3)] high by (auto simp: adds_def)
    ultimately show ?thesis using e by (intro exI [of _ "[e1, e2, e3, e4, e5]"]) simp
  qed
qed

end
