(* ===== verification/ValidationClaims.thy ===== *)
theory ValidationClaims
  imports ValidationRun
begin

text \<open>
  What a campaign case guarantees, whatever the provider: its verdict is the provider's own
  checked answer to the one request it was given, errors never become verdicts, a successful
  case left the whole audit trail, and the Redveil adapter never passes a case.
\<close>

subsection \<open>A complete case on concrete inputs\<close>

text \<open>
  The HIGH incident of the engine's example run with an event that names its control. The
  engine's clock jumps by \<open>d\<close> before \<open>Execute\<close> reads it; with a jump of two hours the
  approval has expired by then.
\<close>

definition rc_event :: TelemetryEvent where
  "rc_event = demo_event\<lparr>te_attributes := fmap_of_list [(''rule_id'', ''r-1'')]\<rparr>"

definition rc_clock :: "int \<Rightarrow> nat \<Rightarrow> gotime" where
  "rc_clock d n = 1000000000 + int n + (if n < 7 then 0 else d)"

definition rc_provider :: "ScriptedProvider Provider" where
  "rc_provider = ScriptedProvider_as example_pb (\<lambda>_. 50) ''1''"

definition rc_scripted :: ScriptedProvider where
  "rc_scripted = \<lparr>sp_version = ''1'', sp_def = VERDICT_DETECTED, sp_scenario = fmempty, sp_ticks = 0\<rparr>"

definition rc_ser :: "ValidationResult \<Rightarrow> string res" where
  "rc_ser r = Inr ''{}''"

definition rc_params :: "int \<Rightarrow> 'p Provider \<Rightarrow> 'p CaseParams" where
  "rc_params d P = \<lparr>cp_Provider = Some P, cp_Incident = Some demo_incident, cp_Alert = Some demo_alert,
     cp_Detection = Some demo_detection, cp_Events = [Some rc_event], cp_Actor = ''alice'', cp_Reason = ''ok'', cp_Audit = Some [],
     cp_Evidence = Some fmempty, cp_Clock = Some (rc_clock d, (\<lambda>_. 1000000007))\<rparr>"

definition rc_env :: "int \<Rightarrow> 'x executor \<Rightarrow> 'x env" where
  "rc_env d X = \<lparr>e_pb = example_pb, e_policy = DefaultPolicy_Decide, e_executor = X,
     e_verifier = StaticVerifier OUTCOME_VERIFIED ''campaign harness confirms execution'', e_clock = rc_clock d\<rparr>"

definition rc_0 :: "'x \<Rightarrow> 'x engine" where
  "rc_0 x = \<lparr>en_recs = Map.empty, en_sessions = Map.empty, en_audit = [], en_ticks = 0, en_exec = x\<rparr>"

lemma rc_env_simps [simp]:
  "e_pb (rc_env d X) = example_pb" "e_policy (rc_env d X) = DefaultPolicy_Decide" "e_executor (rc_env d X) = X"
  "e_verifier (rc_env d X) = StaticVerifier OUTCOME_VERIFIED ''campaign harness confirms execution''" "e_clock (rc_env d X) = rc_clock d"
  by (simp_all add: rc_env_def)

lemma rc_clock_simps [simp]: "n < 7 \<Longrightarrow> rc_clock d n = 1000000000 + int n" "7 \<le> n \<Longrightarrow> rc_clock d n = 1000000000 + int n + d"
  by (simp_all add: rc_clock_def)

lemma rc_event_valid [simp]: "ValidateTelemetryEvent example_pb (Some rc_event) = None"
proof -
  have "ValidateTelemetryEvent example_pb (Some demo_event) = None" by simp
  then show ?thesis by (simp add: ValidateTelemetryEvent_def rc_event_def)
qed

lemma rc_recommend_check:
  "recommend_check example_pb (Some demo_incident) (Some demo_alert) (Some demo_detection) [Some rc_event]
     = Inr (demo_incident, demo_alert, demo_detection, [''host-1''])"
proof -
  have "al_id demo_alert \<in> set (inc_alert_ids demo_incident)" "te_asset_id rc_event = ''host-1''"
    by (simp_all add: demo_alert_def demo_incident_def demo_event_def rc_event_def)
  then show ?thesis by (simp add: recommend_check_def fail_if_def sortedKeys_def)
qed

definition rc_3 :: "int \<Rightarrow> 'x executor \<Rightarrow> 'x \<Rightarrow> AuditEntry list \<Rightarrow> 'x engine" where
  "rc_3 d X x l = \<lparr>en_recs = [demo_id \<mapsto> demo_rec\<lparr>rec_status := ST_APPROVED\<rparr>],
     en_sessions = [demo_id \<mapsto> (new_session StateConfirm)\<lparr>ss_approvalRequired := True, ss_approval := Some demo_approval\<rparr>],
     en_audit = l, en_ticks = 7, en_exec = x\<rparr>"

text \<open>Up to the approval the two clocks agree.\<close>

lemma rc_recommend: "\<exists>l. e_Recommend (rc_env d X) (Some demo_incident) (Some demo_alert) (Some demo_detection) [Some rc_event] (rc_0 x) =
    (Ret demo_rec, \<lparr>en_recs = [demo_id \<mapsto> demo_rec], en_sessions = [demo_id \<mapsto> new_session StateRecommend], en_audit = l,
       en_ticks = 3, en_exec = x\<rparr>)"
  using rc_recommend_check demo_recommend_build
  by (simp add: rc_0_def e_Recommend_def e_now_def e_record_def e_put_def Advance_def)

lemma rc_decide: "\<exists>l'. e_Decide (rc_env d X) demo_id ''campaign/policy''
     \<lparr>en_recs = [demo_id \<mapsto> demo_rec], en_sessions = [demo_id \<mapsto> new_session StateRecommend], en_audit = l, en_ticks = 3, en_exec = x\<rparr> =
    (Ret (demo_rec\<lparr>rec_status := ST_PENDING_APPROVAL\<rparr>),
     \<lparr>en_recs = [demo_id \<mapsto> demo_rec\<lparr>rec_status := ST_PENDING_APPROVAL\<rparr>],
      en_sessions = [demo_id \<mapsto> (new_session StateConfirm)\<lparr>ss_approvalRequired := True\<rparr>], en_audit = l', en_ticks = 5, en_exec = x\<rparr>)"
  using demo_rec_valid [of ST_PENDING_APPROVAL]
  by (simp add: e_Decide_def e_now_def e_live_def e_settle_def e_record_def e_put_def Advance_def new_session_def
      DefaultPolicy_Decide_def knownOperation_def knownRisk_def OperationType_known_def RiskLevel_known_def isDestructive_def Let_def)

lemma rc_approve: "\<exists>a l'. e_Approve (rc_env d X) demo_id ''alice'' ''ok'' 3600000000000
     \<lparr>en_recs = [demo_id \<mapsto> demo_rec\<lparr>rec_status := ST_PENDING_APPROVAL\<rparr>],
      en_sessions = [demo_id \<mapsto> (new_session StateConfirm)\<lparr>ss_approvalRequired := True\<rparr>], en_audit = l, en_ticks = 5, en_exec = x\<rparr> =
    (Ret a, rc_3 d X x l')"
  using demo_rec_valid [of ST_APPROVED] demo_grant
  by (simp add: e_Approve_def e_now_def e_live_def e_record_def e_put_def new_session_def Let_def rc_3_def)

text \<open>So the whole run is what \<open>Execute\<close> makes of the approved state.\<close>

lemma rc_run: "\<exists>l. run_engine (rc_params d P) (rc_env d X) (rc_0 x) =
    after_execute (rc_env d X) demo_id (e_Execute (rc_env d X) demo_id (rc_3 d X x l))"
proof -
  obtain l1 where r: "e_Recommend (rc_env d X) (Some demo_incident) (Some demo_alert) (Some demo_detection) [Some rc_event] (rc_0 x) =
    (Ret demo_rec, \<lparr>en_recs = [demo_id \<mapsto> demo_rec], en_sessions = [demo_id \<mapsto> new_session StateRecommend], en_audit = l1,
       en_ticks = 3, en_exec = x\<rparr>)" using rc_recommend [of d X x] by (elim exE) (rule that)
  obtain l2 where d: "e_Decide (rc_env d X) demo_id ''campaign/policy''
     \<lparr>en_recs = [demo_id \<mapsto> demo_rec], en_sessions = [demo_id \<mapsto> new_session StateRecommend], en_audit = l1, en_ticks = 3, en_exec = x\<rparr> =
    (Ret (demo_rec\<lparr>rec_status := ST_PENDING_APPROVAL\<rparr>),
     \<lparr>en_recs = [demo_id \<mapsto> demo_rec\<lparr>rec_status := ST_PENDING_APPROVAL\<rparr>],
      en_sessions = [demo_id \<mapsto> (new_session StateConfirm)\<lparr>ss_approvalRequired := True\<rparr>], en_audit = l2, en_ticks = 5, en_exec = x\<rparr>)"
    using rc_decide [of d X l1 x] by (elim exE) (rule that)
  obtain a l3 where "e_Approve (rc_env d X) demo_id ''alice'' ''ok'' 3600000000000
     \<lparr>en_recs = [demo_id \<mapsto> demo_rec\<lparr>rec_status := ST_PENDING_APPROVAL\<rparr>],
      en_sessions = [demo_id \<mapsto> (new_session StateConfirm)\<lparr>ss_approvalRequired := True\<rparr>], en_audit = l2, en_ticks = 5, en_exec = x\<rparr> =
    (Ret a, rc_3 d X x l3)" using rc_approve [of d X l2 x] by (elim exE) (rule that)
  then have "run_engine (rc_params d P) (rc_env d X) (rc_0 x) =
      after_execute (rc_env d X) demo_id (e_Execute (rc_env d X) demo_id (rc_3 d X x l3))"
    using r d by (simp add: run_engine_def and_then_def approve_if_pending_def rc_params_def)
  then show ?thesis by blast
qed

definition rc_x0 :: "'p \<Rightarrow> 'p vex_state" where
  "rc_x0 p = \<lparr>vs_provider = p, vs_evidence = fmempty, vs_ticks = 0, vs_lastReq = None, vs_lastRes = None\<rparr>"

definition rc_vex :: "'p Provider \<Rightarrow> 'p ValidationExecutor" where
  "rc_vex P = \<lparr>vx_provider = P, vx_incident = Some demo_incident, vx_alert = Some demo_alert, vx_det = Some demo_detection,
     vx_events = [Some rc_event], vx_target = ''host-1'', vx_clock = (\<lambda>_. 1000000007)\<rparr>"

lemma rc_RunCase: "\<exists>l. RunCase example_pb ser (rc_params d P) p =
    (case after_execute (rc_env d (vex_Execute example_pb ser (rc_vex P))) demo_id
        (e_Execute (rc_env d (vex_Execute example_pb ser (rc_vex P))) demo_id (rc_3 d (vex_Execute example_pb ser (rc_vex P)) (rc_x0 p) l))
     of (out, s) \<Rightarrow> (out, Some s))"
proof -
  have "te_asset_id rc_event = ''host-1''" by (simp add: rc_event_def demo_event_def)
  then have "NewValidationExecutor example_pb (Some P) (Some demo_incident) (Some demo_alert) (Some demo_detection) [Some rc_event]
      (Some fmempty) (Some (\<lambda>_. 1000000007)) = Inr (rc_vex P)"
    by (simp add: NewValidationExecutor_def rc_vex_def joinSorted_def sortedKeys_def)
  moreover have "run_checks (rc_params d P) = None" by (simp add: run_checks_def rc_params_def)
  moreover obtain l where "run_engine (rc_params d P) (rc_env d (vex_Execute example_pb ser (rc_vex P))) (rc_0 (rc_x0 p)) =
      after_execute (rc_env d (vex_Execute example_pb ser (rc_vex P))) demo_id
        (e_Execute (rc_env d (vex_Execute example_pb ser (rc_vex P))) demo_id (rc_3 d (vex_Execute example_pb ser (rc_vex P)) (rc_x0 p) l))"
    using rc_run [of d P "vex_Execute example_pb ser (rc_vex P)" "rc_x0 p"] by (elim exE) (rule that)
  ultimately show ?thesis
    by (auto simp: RunCase_def rc_params_def NewEngine_def rc_env_def rc_0_def rc_x0_def)
qed

text \<open>Two hours later the approval no longer covers the request.\<close>

lemma rc_expired: "\<exists>s. e_Execute (rc_env 7200000000000 X) demo_id (rc_3 7200000000000 X x l) =
    (Fail (Sent (Response ErrApprovalInvalid) ''approval does not cover this request''), s) \<and> en_exec s = x"
proof -
  have "authorize example_pb (demo_rec\<lparr>rec_status := ST_APPROVED\<rparr>)
     ((new_session StateConfirm)\<lparr>ss_approvalRequired := True, ss_approval := Some demo_approval\<rparr>) 7201000000007
     = Inl (Sent (Response ErrApprovalInvalid) ''approval does not cover this request'')"
    by (simp add: authorize_def RequiredGate_def Covers_Some_iff demo_approval_def)
  then show ?thesis
    by (simp add: e_Execute_def e_now_def e_live_def rc_3_def new_session_def Let_def)
qed

text \<open>Without a jump the executor runs the provider.\<close>

definition rc_request :: ValidationRequest where
  "rc_request = \<lparr> vq_id = requestID ''r-1'' ''host-1'' ''inc-1'', vq_control_id = ''r-1'', vq_target = ''host-1'',
     vq_context = fmap_of_list [(''incident_id'', ''inc-1''), (''alert_id'', ''al-1''), (''detection_id'', ''det-1'')],
     vq_requested_at = Some (ts_New example_pb 1000000007) \<rparr>"

definition rc_result :: ValidationResult where
  "rc_result = \<lparr> vr_id = ''vres-'' @ id16 (''blueveil-validation-result-v1'' @ US @ vq_id rc_request @ US @ NativeProviderID @ US
       @ ''VALIDATION_VERDICT_DETECTED''),
     vr_request_id = vq_id rc_request, vr_control_id = ''r-1'', vr_provider = NativeProviderID, vr_provider_version = ''1'',
     vr_contract_version = ContractVersion, vr_verdict = VERDICT_DETECTED, vr_validated_at = Some (ts_New example_pb 50),
     vr_evidence_ids = [], vr_note = ''synthetic test verdict, not production security validation'' \<rparr>"

lemma rc_request_valid: "CheckRequest example_pb (Some rc_request) = None"
  by (simp add: CheckRequest_def ValidateValidationRequest_def boundary rc_request_def requestID_def)

lemma rc_build: "BuildRequest example_pb (Some demo_incident) (Some demo_alert) (Some demo_detection) [Some rc_event] 1000000007 = Inr rc_request"
proof -
  have ids: "inc_id demo_incident = ''inc-1''" "al_id demo_alert = ''al-1''" "det_id demo_detection = ''det-1''"
    "inc_alert_ids demo_incident = [''al-1'']" "al_detection_ids demo_alert = [''det-1'']"
    "det_telemetry_event_ids demo_detection = [''ev-1'']" "te_id rc_event = ''ev-1''" "te_asset_id rc_event = ''host-1''"
    "te_attributes rc_event = fmap_of_list [(''rule_id'', ''r-1'')]"
    by (simp_all add: demo_incident_def demo_alert_def demo_detection_def demo_event_def rc_event_def)
  have walk: "request_walk example_pb (fmupd ''ev-1'' rc_event fmempty) [''ev-1''] [] [] = Inr ([''host-1''], ''r-1'')"
    by (simp add: ids controlAttributeKeys_def attr_def)
  have "request_events [Some rc_event] fmempty = Inr (fmupd ''ev-1'' rc_event fmempty)" by (simp add: ids)
  moreover have "sortedKeys [''host-1''] = [''host-1'']" by (simp add: sortedKeys_def)
  moreover have "join '','' [''host-1''] = ''host-1''" by simp
  ultimately show ?thesis using walk rc_request_valid
    by (simp add: BuildRequest_def ids build_wrap_def fail_if_def rc_request_def [symmetric] Let_def)
      (simp add: rc_request_def)
qed

lemma rc_answer: "Scripted_Validate example_pb (\<lambda>_. 50) rc_scripted (Some rc_request) = (rc_scripted\<lparr>sp_ticks := 1\<rparr>, Inr (Some rc_result))"
proof -
  have v: "CheckValidationResult example_pb (Some rc_result) = None"
    by (simp add: CheckValidationResult_def ValidateValidationResult_def boundary rc_result_def rc_request_def requestID_def ValidationVerdict_known_def)
  have "enum_String ValidationVerdict_name 2 = ''VALIDATION_VERDICT_DETECTED''"
    by (simp add: enum_String_def ValidationVerdict_name_def)
  then have "provider_answer example_pb rc_request (''vres-'' @ id16 (''blueveil-validation-result-v1'' @ US @ vq_id rc_request @ US @
      NativeProviderID @ US @ enum_String ValidationVerdict_name 2)) NativeProviderID ''1'' 2
      ''synthetic test verdict, not production security validation'' 50 = Inr (Some rc_result)"
    using v by (simp add: provider_answer_def rc_result_def rc_request_def)
  then show ?thesis using rc_request_valid
    by (simp add: Scripted_Validate_def rc_scripted_def IsZero_def zero_time_def)
qed

definition rc_x1 :: "Evidence \<Rightarrow> ScriptedProvider vex_state" where
  "rc_x1 item = \<lparr>vs_provider = rc_scripted\<lparr>sp_ticks := 1\<rparr>, vs_evidence = fmupd (ev_id item) item fmempty, vs_ticks = 1,
     vs_lastReq = Some rc_request, vs_lastRes = Some rc_result\<rparr>"

lemma rc_item: "\<exists>item. NewItem example_pb ''inc-1'' ''validation'' (vr_id rc_result) EVIDENCE_NOTE (vr_provider rc_result) ''{}'' 1000000007 = Inr item"
proof -
  let ?e = "\<lparr> ev_id = evidenceID ''inc-1'' ''validation'' (vr_id rc_result), ev_incident_id = ''inc-1'', ev_type = EVIDENCE_NOTE,
    ev_collected_at = Some (ts_New example_pb 1000000007), ev_source = vr_provider rc_result, ev_media_type = MediaJSON,
    ev_sha256 = digest ''{}'', ev_content = ''{}'' \<rparr>"
  have "ValidateEvidence example_pb (Some ?e) = None"
    by (simp add: ValidateEvidence_def boundary evidenceID_def rc_result_def EvidenceType_known_def MediaJSON_def digest_wellformed)
  moreover have "vr_id rc_result \<noteq> []" by (simp add: rc_result_def)
  ultimately show ?thesis by (simp add: NewItem_def Let_def)
qed

lemma rc_executes: "\<exists>item detail. detail \<noteq> [] \<and>
   vex_Execute example_pb rc_ser (rc_vex rc_provider) (rc_x0 rc_scripted) demo_request =
     (rc_x1 item, Inr \<lparr>xr_success = True, xr_detail = detail\<rparr>)"
proof -
  obtain item where item: "NewItem example_pb ''inc-1'' ''validation'' (vr_id rc_result) EVIDENCE_NOTE (vr_provider rc_result) ''{}'' 1000000007 = Inr item"
    using rc_item by blast
  have c: "CheckValidationResult example_pb (Some rc_result) = None" "CheckIdentity rc_request rc_result = None"
    by (simp_all add: CheckValidationResult_def ValidateValidationResult_def boundary rc_result_def rc_request_def requestID_def
        ValidationVerdict_known_def CheckIdentity_def)
  have "inc_id demo_incident = ''inc-1''" "vr_verdict rc_result = VERDICT_DETECTED" by (simp_all add: demo_incident_def rc_result_def)
  then have "\<exists>detail. detail \<noteq> [] \<and> vex_Execute example_pb rc_ser (rc_vex rc_provider) (rc_x0 rc_scripted) demo_request =
     (rc_x1 item, Inr \<lparr>xr_success = True, xr_detail = detail\<rparr>)"
    using item c rc_answer rc_build
    by (simp add: vex_Execute_def vex_report_def rc_vex_def rc_x0_def rc_provider_def ScriptedProvider_as_def rc_ser_def rc_x1_def
        Store_Add_def Let_def)
  then show ?thesis by blast
qed

lemma rc_finish:
  assumes "detail \<noteq> []"
  shows "\<exists>exec s. ex_success exec \<and>
    e_finish (rc_env 0 X) demo_id (demo_rec\<lparr>rec_status := ST_EXECUTING\<rparr>)
      ((new_session StateConfirm)\<lparr>ss_approvalRequired := True, ss_approval := Some demo_approval, ss_safety := StateExecute\<rparr>)
      demo_request 1000000007 (Inr \<lparr>xr_success = True, xr_detail = detail\<rparr>)
      \<lparr>en_recs = rs, en_sessions = ss, en_audit = l, en_ticks = 8, en_exec = x\<rparr> = (Ret exec, s) \<and> en_exec s = x \<and> en_ticks s = 10 \<and>
    en_recs s = rs(demo_id \<mapsto> demo_rec\<lparr>rec_status := ST_EXECUTED\<rparr>) \<and>
    en_sessions s = ss(demo_id \<mapsto> (new_session StateVerify)\<lparr>ss_approvalRequired := True, ss_approval := Some demo_approval,
       ss_executed := True, ss_execution := Some exec\<rparr>) \<and> ex_id exec = executionID demo_request \<and>
    ValidateResponseExecution example_pb (Some exec) = None"
proof -
  let ?e = "demo_execution\<lparr>ex_detail := detail\<rparr>"
  have v: "ValidateResponseExecution example_pb (Some ?e) = None"
    using assms by (simp add: ValidateResponseExecution_def demo_execution_def boundary executionID_def)
  then have "BuildExecution example_pb demo_request \<lparr>xr_success = True, xr_detail = detail\<rparr> 1000000007 1000000008 = Inr ?e"
    by (simp add: BuildExecution_def demo_execution_def Let_def)
  then show ?thesis using demo_rec_valid [of ST_EXECUTED] v
    by (simp add: e_finish_def e_now_def e_settle_def e_record_def e_put_def Advance_def new_session_def Let_def demo_execution_def)
qed

lemma rc_verify:
  assumes "ex_success exec" and "ex_id exec = executionID demo_request" and "ValidateResponseExecution example_pb (Some exec) = None"
    and "en_recs s = rs(demo_id \<mapsto> demo_rec\<lparr>rec_status := ST_EXECUTED\<rparr>)" and "en_ticks s = 10"
    and "en_sessions s = ss(demo_id \<mapsto> (new_session StateVerify)\<lparr>ss_approvalRequired := True, ss_approval := Some demo_approval,
       ss_executed := True, ss_execution := Some exec\<rparr>)"
  shows "\<exists>v s1. e_Verify (rc_env 0 X) demo_id s = (Ret v, s1)"
proof -
  have "ValidateResponseVerification example_pb (Some \<lparr>ver_id = verificationID (ex_id exec),
      ver_execution_id = ex_id exec, ver_outcome = OUTCOME_VERIFIED,
      ver_verified_at = Some (ts_New example_pb 1000000010), ver_detail = ''campaign harness confirms execution''\<rparr>) = None"
    by (simp add: ValidateResponseVerification_def boundary verificationID_def assms(2) executionID_def VerificationOutcome_known_def)
  then show ?thesis
    using assms demo_rec_valid [of ST_VERIFIED]
    by (simp add: e_Verify_def e_now_def e_live_def e_settle_def e_record_def e_put_def Advance_def new_session_def
        verify_outcome_def StaticVerifier_def BuildVerification_def VerificationOutcome_known_def fail_if_def Let_def)
qed

text \<open>The case succeeds with the provider's verdict.\<close>

lemma rc_success: "\<exists>out s. RunCase example_pb rc_ser (rc_params 0 rc_provider) rc_scripted = (Ret out, Some s) \<and> cs_Success out"
proof -
  let ?X = "vex_Execute example_pb rc_ser (rc_vex rc_provider)"
  obtain l where run: "RunCase example_pb rc_ser (rc_params 0 rc_provider) rc_scripted =
    (case after_execute (rc_env 0 ?X) demo_id (e_Execute (rc_env 0 ?X) demo_id (rc_3 0 ?X (rc_x0 rc_scripted) l)) of (out, s) \<Rightarrow> (out, Some s))"
    using rc_RunCase [of rc_ser 0 rc_provider rc_scripted] by (elim exE) (rule that)
  obtain item detail where x: "detail \<noteq> []" "?X (rc_x0 rc_scripted) demo_request = (rc_x1 item, Inr \<lparr>xr_success = True, xr_detail = detail\<rparr>)"
    using rc_executes by blast
  let ?rs = "[demo_id \<mapsto> demo_rec\<lparr>rec_status := ST_EXECUTING\<rparr>]"
  let ?ss = "(new_session StateConfirm)\<lparr>ss_approvalRequired := True, ss_approval := Some demo_approval, ss_safety := StateExecute\<rparr>"
  obtain exec s where f: "ex_success exec" "e_finish (rc_env 0 ?X) demo_id (demo_rec\<lparr>rec_status := ST_EXECUTING\<rparr>) ?ss demo_request 1000000007
      (Inr \<lparr>xr_success = True, xr_detail = detail\<rparr>)
      \<lparr>en_recs = ?rs, en_sessions = [demo_id \<mapsto> ?ss], en_audit = l, en_ticks = 8, en_exec = rc_x1 item\<rparr> = (Ret exec, s)"
    "en_exec s = rc_x1 item" "en_ticks s = 10" "en_recs s = ?rs(demo_id \<mapsto> demo_rec\<lparr>rec_status := ST_EXECUTED\<rparr>)"
    "en_sessions s = [demo_id \<mapsto> ?ss](demo_id \<mapsto> (new_session StateVerify)\<lparr>ss_approvalRequired := True, ss_approval := Some demo_approval,
       ss_executed := True, ss_execution := Some exec\<rparr>)" "ex_id exec = executionID demo_request"
    "ValidateResponseExecution example_pb (Some exec) = None"
    using rc_finish [OF x(1), of ?X ?rs "[demo_id \<mapsto> ?ss]" l "rc_x1 item"] by (elim exE conjE) (rule that)
  have "e_Execute (rc_env 0 ?X) demo_id (rc_3 0 ?X (rc_x0 rc_scripted) l) = (Ret exec, s)"
    using demo_authorize x(2) f(2)
    by (simp add: e_Execute_def e_now_def e_live_def rc_3_def new_session_def Let_def Advance_def e_put_def demo_request_def)
  moreover obtain v s1 where v: "e_Verify (rc_env 0 ?X) demo_id s = (Ret v, s1)"
    using rc_verify [OF f(1) f(7) f(8) f(5) f(4) f(6)] by blast
  moreover have "en_exec s1 = rc_x1 item" using Verify_exec [OF v] f(3) by simp
  ultimately show ?thesis using run f(1)
    by (simp add: after_execute_def and_then_def recorded_def LastRequest_def LastResult_def rc_x1_def)
qed

subsection \<open>The properties\<close>

text \<open>
  C23. A verdict is an answer: when a case returns an outcome, the provider was called exactly
  once, with the request of the outcome, and answered the result of the outcome, which is
  valid and names that request and its control; evidence stored before is unchanged; and a
  case whose verdict is NOT\_TESTED is never a success.
\<close>

theorem case_outcome_answered:
  assumes "RunCase L ser p p0 = (Ret out, so)"
  shows "\<exists>P ev q r s. cp_Provider p = Some P \<and> cp_Evidence p = Some ev \<and> so = Some s \<and> cs_Request out = Some q \<and> cs_Result out = Some r \<and>
    cs_ProviderErr out = None \<and> pv_Validate P p0 (Some q) = (vs_provider (en_exec s), Inr (Some r)) \<and> CheckRequest L (Some q) = None \<and>
    CheckValidationResult L (Some r) = None \<and> CheckIdentity q r = None \<and> (cs_Success out \<longrightarrow> vr_verdict r \<noteq> VERDICT_NOT_TESTED) \<and>
    (\<forall>k e. fmlookup ev k = Some e \<longrightarrow> fmlookup (vs_evidence (en_exec s)) k = Some e)"
proof (rule RunCase_Ret [OF assms])
  fix P ev x and env :: "'a vex_state env" and s0 s
  assume h: "cp_Provider p = Some P" "cp_Evidence p = Some ev" "so = Some s" "vx_provider x = P"
    "run_engine p env s0 = (Ret out, s)" "e_executor env = vex_Execute L ser x"
    and x0: "en_exec s0 = \<lparr>vs_provider = p0, vs_evidence = ev, vs_ticks = 0, vs_lastReq = None, vs_lastRes = None\<rparr>"
  show ?thesis using run_engine_Ret [OF h(5,6)] h(1-4) unfolding x0 invoked_def evidence_grows_def by auto
qed

theorem case_outcome_answered_witness:
  "\<exists>out q r. fst (RunCase example_pb rc_ser (rc_params 0 rc_provider) rc_scripted) = Ret out \<and> cs_Request out = Some q \<and>
     cs_Result out = Some r \<and> CheckIdentity q r = None \<and> vr_verdict r \<noteq> VERDICT_NOT_TESTED"
proof -
  obtain out s where r: "RunCase example_pb rc_ser (rc_params 0 rc_provider) rc_scripted = (Ret out, Some s)" "cs_Success out"
    using rc_success by blast
  show ?thesis using case_outcome_answered [OF r(1)] r by auto
qed

text \<open>
  A successful case went through the whole gate: it appended to the audit log exactly the
  entries recommended, allowed, executed and verified, or recommended, approval required,
  approved by the actor of the run, executed and verified, in this order.
\<close>

theorem successful_case_audited:
  assumes "RunCase L ser p p0 = (Ret out, so)" and "cs_Success out"
  shows "\<exists>l s new. cp_Audit p = Some l \<and> so = Some s \<and> en_audit s = l @ new \<and>
    (map au_decision new = [AuditRecommended, AuditAllowed, AuditExecuted, AuditVerified] \<or>
     map au_decision new = [AuditRecommended, AuditApprovalRequired, AuditApproved, AuditExecuted, AuditVerified] \<and>
       au_actor (new ! 2) = cp_Actor p)"
proof (rule RunCase_Ret [OF assms(1)])
  fix env :: "'a vex_state env" and s0 s
  assume h: "so = Some s" "run_engine p env s0 = (Ret out, s)" "e_policy env = DefaultPolicy_Decide" "en_recs s0 = Map.empty"
    "cp_Audit p = Some (en_audit s0)" "e_verifier env = StaticVerifier OUTCOME_VERIFIED ''campaign harness confirms execution''"
  show ?thesis using run_engine_audit [OF h(2) assms(2) h(4,3,6)] h(1,5) by simp
qed

theorem successful_case_audited_witness:
  "\<exists>s. snd (RunCase example_pb rc_ser (rc_params 0 rc_provider) rc_scripted) = Some s \<and> 4 \<le> length (en_audit s)"
proof -
  obtain out s where r: "RunCase example_pb rc_ser (rc_params 0 rc_provider) rc_scripted = (Ret out, Some s)" "cs_Success out"
    using rc_success by blast
  obtain l new where "en_audit s = l @ new" "length new = 4 \<or> length new = 5"
    using successful_case_audited [OF r] by (auto dest: arg_cong [of _ _ length])
  then show ?thesis using r by auto
qed

lemma redveil_verdict:
  assumes "pv_Validate (RedveilAdapter_as L clock version) a rq = (a', Inr (Some r))"
  shows "vr_verdict r = VERDICT_NOT_TESTED"
  using assms by (auto simp: RedveilAdapter_as_def Redveil_Validate_def Let_def split: option.splits if_splits dest!: provider_answer_Inr)

text \<open>
  Without a Redveil runtime no case ever passes: a case run with the adapter never
  succeeds, and when it returns an outcome at all the verdict is NOT\_TESTED.
\<close>

theorem redveil_never_passes:
  assumes "RunCase L ser (p\<lparr>cp_Provider := Some (RedveilAdapter_as L clock version)\<rparr>) a = (Ret out, so)"
  shows "\<not> cs_Success out \<and> (\<exists>r. cs_Result out = Some r \<and> vr_verdict r = VERDICT_NOT_TESTED)"
proof (rule RunCase_Ret [OF assms])
  fix P ev x and env :: "RedveilAdapter vex_state env" and s0 s
  assume h: "cp_Provider (p\<lparr>cp_Provider := Some (RedveilAdapter_as L clock version)\<rparr>) = Some P" "vx_provider x = P"
    "run_engine (p\<lparr>cp_Provider := Some (RedveilAdapter_as L clock version)\<rparr>) env s0 = (Ret out, s)" "e_executor env = vex_Execute L ser x"
    and x0: "en_exec s0 = \<lparr>vs_provider = a, vs_evidence = ev, vs_ticks = 0, vs_lastReq = None, vs_lastRes = None\<rparr>"
  have none: "vs_lastReq (en_exec s0) = None" "vs_lastRes (en_exec s0) = None" by (simp_all add: x0)
  obtain q r ans where i: "invoked L ser x (en_exec s0) q r (en_exec s) ans" "cs_Result out = Some r"
    "cs_Success out \<longrightarrow> vr_verdict r \<noteq> VERDICT_NOT_TESTED"
    using run_engine_Ret [OF h(3,4) none] by blast
  have "vx_provider x = RedveilAdapter_as L clock version" using h(1,2) by simp
  then have "pv_Validate (RedveilAdapter_as L clock version) (vs_provider (en_exec s0)) (Some q) = (vs_provider (en_exec s), Inr (Some r))"
    using i(1) by (simp add: invoked_def)
  then have "vr_verdict r = VERDICT_NOT_TESTED" by (rule redveil_verdict)
  then show ?thesis using i by simp
qed

lemma rv_executes: "\<exists>x1 q r detail. detail \<noteq> [] \<and>
   vex_Execute example_pb rc_ser (rc_vex (RedveilAdapter_as example_pb (\<lambda>_. 50) ''1'')) (rc_x0 \<lparr>ra_version = ''1'', ra_reason = ''none'', ra_ticks = 0\<rparr>)
     demo_request = (x1, Inr \<lparr>xr_success = False, xr_detail = detail\<rparr>) \<and> vs_lastReq x1 = Some q \<and> vs_lastRes x1 = Some r"
proof -
  let ?P = "RedveilAdapter_as example_pb (\<lambda>_. 50) ''1''" and ?a = "\<lparr>ra_version = ''1'', ra_reason = ''none'', ra_ticks = 0\<rparr>"
  let ?r = "\<lparr> vr_id = ''vres-'' @ id16 (''blueveil-validation-result-v1'' @ US @ vq_id rc_request @ US @ RedveilProviderID),
     vr_request_id = vq_id rc_request, vr_control_id = ''r-1'', vr_provider = RedveilProviderID, vr_provider_version = ''1'',
     vr_contract_version = ContractVersion, vr_verdict = VERDICT_NOT_TESTED, vr_validated_at = Some (ts_New example_pb 50),
     vr_evidence_ids = [], vr_note = ''redveil runtime unavailable ('' @ ''none'' @ ''): NOT_TESTED, not a pass'' \<rparr>"
  have c: "CheckValidationResult example_pb (Some ?r) = None" "CheckIdentity rc_request ?r = None"
    by (simp_all add: CheckValidationResult_def ValidateValidationResult_def boundary rc_request_def requestID_def ValidationVerdict_known_def CheckIdentity_def)
  have ctl: "vq_control_id rc_request = ''r-1''" by (simp add: rc_request_def)
  have ans: "Redveil_Validate example_pb (\<lambda>_. 50) ?a (Some rc_request) = (?a\<lparr>ra_ticks := 1\<rparr>, Inr (Some ?r))"
    using rc_request_valid c ctl by (simp add: Redveil_Validate_def provider_answer_def IsZero_def zero_time_def)
  have "\<exists>item. NewItem example_pb ''inc-1'' ''validation'' (vr_id ?r) EVIDENCE_NOTE (vr_provider ?r) ''{}'' 1000000007 = Inr item"
  proof -
    let ?e = "\<lparr> ev_id = evidenceID ''inc-1'' ''validation'' (vr_id ?r), ev_incident_id = ''inc-1'', ev_type = EVIDENCE_NOTE,
      ev_collected_at = Some (ts_New example_pb 1000000007), ev_source = vr_provider ?r, ev_media_type = MediaJSON,
      ev_sha256 = digest ''{}'', ev_content = ''{}'' \<rparr>"
    have "ValidateEvidence example_pb (Some ?e) = None"
      by (simp add: ValidateEvidence_def boundary evidenceID_def EvidenceType_known_def MediaJSON_def digest_wellformed)
    then show ?thesis by (simp add: NewItem_def Let_def)
  qed
  then obtain item where item: "NewItem example_pb ''inc-1'' ''validation'' (vr_id ?r) EVIDENCE_NOTE (vr_provider ?r) ''{}'' 1000000007 = Inr item" by blast
  have "inc_id demo_incident = ''inc-1''" by (simp add: demo_incident_def)
  then have "\<exists>detail. detail \<noteq> [] \<and> vex_Execute example_pb rc_ser (rc_vex ?P) (rc_x0 ?a) demo_request =
     (\<lparr>vs_provider = ?a\<lparr>ra_ticks := 1\<rparr>, vs_evidence = snd (Store_Add item fmempty), vs_ticks = 1, vs_lastReq = Some rc_request, vs_lastRes = Some ?r\<rparr>,
      Inr \<lparr>xr_success = False, xr_detail = detail\<rparr>)"
    using item c ans rc_build
    by (simp add: vex_Execute_def vex_report_def rc_vex_def rc_x0_def RedveilAdapter_as_def rc_ser_def Let_def)
  then obtain detail where "detail \<noteq> []" "vex_Execute example_pb rc_ser (rc_vex ?P) (rc_x0 ?a) demo_request =
     (\<lparr>vs_provider = ?a\<lparr>ra_ticks := 1\<rparr>, vs_evidence = snd (Store_Add item fmempty), vs_ticks = 1, vs_lastReq = Some rc_request, vs_lastRes = Some ?r\<rparr>,
      Inr \<lparr>xr_success = False, xr_detail = detail\<rparr>)" by (elim exE conjE) (rule that)
  then show ?thesis by simp
qed

lemma rv_finish:
  assumes "detail \<noteq> []"
  shows "\<exists>exec s. e_finish (rc_env 0 X) demo_id (demo_rec\<lparr>rec_status := ST_EXECUTING\<rparr>)
      ((new_session StateConfirm)\<lparr>ss_approvalRequired := True, ss_approval := Some demo_approval, ss_safety := StateExecute\<rparr>)
      demo_request 1000000007 (Inr \<lparr>xr_success = False, xr_detail = detail\<rparr>)
      \<lparr>en_recs = rs, en_sessions = ss, en_audit = l, en_ticks = 8, en_exec = x\<rparr> =
      (RetFail exec (Sent (Response ErrExecutionFailed) []), s) \<and> en_exec s = x"
proof -
  let ?e = "demo_execution\<lparr>ex_success := False, ex_detail := detail\<rparr>"
  have v: "ValidateResponseExecution example_pb (Some ?e) = None"
    using assms by (simp add: ValidateResponseExecution_def demo_execution_def boundary executionID_def)
  then have "BuildExecution example_pb demo_request \<lparr>xr_success = False, xr_detail = detail\<rparr> 1000000007 1000000008 = Inr ?e"
    by (simp add: BuildExecution_def demo_execution_def Let_def)
  then show ?thesis using demo_rec_valid [of ST_EXECUTION_FAILED] v
    by (simp add: e_finish_def e_now_def e_settle_def e_record_def e_put_def Advance_def new_session_def Let_def demo_execution_def)
qed

theorem redveil_never_passes_witness:
  "\<exists>out. fst (RunCase example_pb rc_ser (rc_params 0 (RedveilAdapter_as example_pb (\<lambda>_. 50) ''1''))
       \<lparr>ra_version = ''1'', ra_reason = ''none'', ra_ticks = 0\<rparr>) = Ret out \<and> \<not> cs_Success out"
proof -
  let ?P = "RedveilAdapter_as example_pb (\<lambda>_. 50) ''1''" and ?a = "\<lparr>ra_version = ''1'', ra_reason = ''none'', ra_ticks = 0\<rparr>"
  let ?X = "vex_Execute example_pb rc_ser (rc_vex ?P)"
  obtain l where run: "RunCase example_pb rc_ser (rc_params 0 ?P) ?a =
    (case after_execute (rc_env 0 ?X) demo_id (e_Execute (rc_env 0 ?X) demo_id (rc_3 0 ?X (rc_x0 ?a) l)) of (out, s) \<Rightarrow> (out, Some s))"
    using rc_RunCase [of rc_ser 0 ?P ?a] by (elim exE) (rule that)
  obtain x1 q r detail where x: "detail \<noteq> []" "?X (rc_x0 ?a) demo_request = (x1, Inr \<lparr>xr_success = False, xr_detail = detail\<rparr>)"
    "vs_lastReq x1 = Some q" "vs_lastRes x1 = Some r"
    using rv_executes by (elim exE conjE) (rule that)
  let ?ss = "(new_session StateConfirm)\<lparr>ss_approvalRequired := True, ss_approval := Some demo_approval, ss_safety := StateExecute\<rparr>"
  obtain exec s where f: "e_finish (rc_env 0 ?X) demo_id (demo_rec\<lparr>rec_status := ST_EXECUTING\<rparr>) ?ss demo_request 1000000007
      (Inr \<lparr>xr_success = False, xr_detail = detail\<rparr>)
      \<lparr>en_recs = [demo_id \<mapsto> demo_rec\<lparr>rec_status := ST_EXECUTING\<rparr>], en_sessions = [demo_id \<mapsto> ?ss], en_audit = l, en_ticks = 8, en_exec = x1\<rparr> =
      (RetFail exec (Sent (Response ErrExecutionFailed) []), s)" "en_exec s = x1"
    using rv_finish [OF x(1), of ?X "[demo_id \<mapsto> demo_rec\<lparr>rec_status := ST_EXECUTING\<rparr>]" "[demo_id \<mapsto> ?ss]" l x1] by (elim exE conjE) (rule that)
  have "e_Execute (rc_env 0 ?X) demo_id (rc_3 0 ?X (rc_x0 ?a) l) = (RetFail exec (Sent (Response ErrExecutionFailed) []), s)"
    using demo_authorize x(2) f(1)
    by (simp add: e_Execute_def e_now_def e_live_def rc_3_def new_session_def Let_def Advance_def e_put_def demo_request_def)
  then have "\<exists>out. RunCase example_pb rc_ser (rc_params 0 ?P) ?a = (Ret out, Some s)"
    using run f(2) x(3,4) by (simp add: after_execute_def recorded_def LastRequest_def LastResult_def)
  then obtain out where r: "RunCase example_pb rc_ser (rc_params 0 ?P) ?a = (Ret out, Some s)" by blast
  have "(rc_params 0 ?P)\<lparr>cp_Provider := Some ?P\<rparr> = rc_params 0 ?P" by (simp add: rc_params_def)
  then have "\<not> cs_Success out"
    using redveil_never_passes [where L = example_pb and ser = rc_ser and p = "rc_params 0 ?P" and clock = "\<lambda>_. 50"
      and version = "''1''" and a = ?a and out = out and so = "Some s"] r by simp
  then show ?thesis using r by simp
qed

text \<open>
  A refusal of the gate is reported as a failure of the provider: when the clock passes the
  end of the approval between \<open>Approve\<close> and \<open>Execute\<close>, the outcome of the case carries the
  engine's error as \<open>ProviderErr\<close>, although the provider, whichever it is, was never called.
\<close>

theorem expired_approval_blamed_on_provider:
  "\<exists>e s. RunCase example_pb ser (rc_params 7200000000000 P) p0 = (RetFail (no_outcome\<lparr>cs_ProviderErr := Some e\<rparr>) e, Some s) \<and>
     errors_Is e (Response ErrApprovalInvalid) \<and> vs_provider (en_exec s) = p0 \<and> LastRequest (en_exec s) = None"
proof -
  let ?X = "vex_Execute example_pb ser (rc_vex P)"
  obtain l where run: "RunCase example_pb ser (rc_params 7200000000000 P) p0 =
    (case after_execute (rc_env 7200000000000 ?X) demo_id (e_Execute (rc_env 7200000000000 ?X) demo_id (rc_3 7200000000000 ?X (rc_x0 p0) l))
     of (out, s) \<Rightarrow> (out, Some s))"
    using rc_RunCase [of ser 7200000000000 P p0] by (elim exE) (rule that)
  obtain s where "e_Execute (rc_env 7200000000000 ?X) demo_id (rc_3 7200000000000 ?X (rc_x0 p0) l) =
    (Fail (Sent (Response ErrApprovalInvalid) ''approval does not cover this request''), s)" "en_exec s = rc_x0 p0"
    using rc_expired [of ?X "rc_x0 p0" l] by (elim exE conjE) (rule that)
  then show ?thesis using run by (simp add: after_execute_def rc_x0_def LastRequest_def)
qed

end
