(* ===== verification/Campaigns.thy ===== *)
theory Campaigns
  imports ValidationRun RecordStore
begin

text \<open>
  The declarative side of \<open>internal/validation\<close>: campaigns and their cases (\<open>campaign.go\<close>),
  purple-team exercises (\<open>purple.go\<close>), and the two repositories that keep them
  (\<open>store/memory.go\<close>). A Go type of the form \<open>type X string\<close> is a string here.
\<close>

subsection \<open>Cases and campaigns\<close>

definition CampaignStatus_String :: "int \<Rightarrow> string" where
  "CampaignStatus_String s =
     (if s = 1 then ''DRAFT'' else if s = 2 then ''RUNNING'' else if s = 3 then ''COMPLETED''
      else if s = 4 then ''FAILED'' else ''UNKNOWN'')"

definition CaseDomain :: "string list" where
  "CaseDomain = [''network'', ''application'', ''endpoint'', ''server'', ''container'', ''cloud'', ''identity'', ''auth'',
     ''data'', ''waf'']"

definition ExpectedBehavior :: "string list" where
  "ExpectedBehavior = [''PREVENT'', ''DETECT'', ''PREVENT_AND_DETECT'', ''OBSERVE'']"

record ValidationCase =
  vc_Title :: string
  vc_Domain :: string
  vc_Target :: string
  vc_Expected :: string
  vc_Operation :: enum
  vc_Risk :: enum
  vc_Provider :: string
  vc_Source :: string

definition ValidationCase_ID :: "ValidationCase \<Rightarrow> string" where
  "ValidationCase_ID c = ''vcase-'' @ id16 (join US [''blueveil-validation-case-v1'',
     vc_Title c, vc_Domain c, vc_Target c, vc_Expected c, vc_Provider c])"

definition ValidationCase_Validate :: "ValidationCase \<Rightarrow> goerr" where
  "ValidationCase_Validate c = first_err [
     required ''validation: case title'' (vc_Title c),
     bounded ''validation: case domain '' CaseDomain (vc_Domain c) [],
     required ''validation: case target'' (vc_Target c),
     bounded ''validation: case expected '' ExpectedBehavior (vc_Expected c) [],
     fail_if (\<not> OperationType_known (vc_Operation c) \<or> vc_Operation c = 0) (Plain ''validation: case operation must be explicit''),
     fail_if (\<not> RiskLevel_known (vc_Risk c) \<or> vc_Risk c = 0) (Plain ''validation: case risk must be explicit''),
     required ''validation: case provider'' (vc_Provider c),
     required ''validation: case source'' (vc_Source c)]"

record Campaign =
  ca_Name :: string
  ca_Description :: string
  ca_Target :: string
  ca_Provider :: string
  ca_Source :: string
  ca_Status :: int
  ca_CreatedAt :: gotime
  ca_StartedAt :: gotime
  ca_CompletedAt :: gotime
  ca_CaseIDs :: "string list"
  ca_ResultIDs :: "string list"

definition Campaign_ID :: "Campaign \<Rightarrow> string" where
  "Campaign_ID c = ''vcamp-'' @ id16 (join US [''blueveil-validation-campaign-v1'', ca_Name c, ca_Target c, ca_Provider c])"

definition Campaign_Validate :: "Campaign \<Rightarrow> goerr" where
  "Campaign_Validate c = first_err [
     required ''validation: campaign name'' (ca_Name c),
     required ''validation: campaign target'' (ca_Target c),
     required ''validation: campaign provider'' (ca_Provider c),
     required ''validation: campaign source'' (ca_Source c),
     fail_if (ca_Status c \<notin> {1, 2, 3, 4})
       (Plain (''validation: campaign status '' @ itoa (ca_Status c) @ '' out of bounded vocabulary'')),
     fail_if (\<not> IsZero (ca_CreatedAt c) \<and> \<not> IsZero (ca_StartedAt c) \<and> ca_StartedAt c < ca_CreatedAt c)
       (Plain ''validation: campaign started before created''),
     fail_if (\<not> IsZero (ca_StartedAt c) \<and> \<not> IsZero (ca_CompletedAt c) \<and> ca_CompletedAt c < ca_StartedAt c)
       (Plain ''validation: campaign completed before started'')]"

subsection \<open>Exercises\<close>

definition ExerciseStatus :: "string list" where
  "ExerciseStatus = [''ATTEMPTED'', ''PREVENTED'', ''DETECTED'', ''PREVENTED_AND_DETECTED'', ''ALLOWED_BUT_DETECTED'',
     ''ALLOWED_AND_NOT_DETECTED'', ''NOT_TESTED'', ''RATE_LIMITED'', ''UNKNOWN_OUTCOME'', ''PROVIDER_FAILURE'']"

definition ExerciseStatusFor :: "enum \<Rightarrow> goerr \<Rightarrow> string" where
  "ExerciseStatusFor verdict providerErr =
     (if providerErr \<noteq> None then ''PROVIDER_FAILURE''
      else if verdict = VERDICT_PREVENTED then ''PREVENTED''
      else if verdict = VERDICT_DETECTED then ''DETECTED''
      else if verdict = VERDICT_PREVENTED_AND_DETECTED then ''PREVENTED_AND_DETECTED''
      else if verdict = VERDICT_ALLOWED_BUT_DETECTED then ''ALLOWED_BUT_DETECTED''
      else if verdict = VERDICT_ALLOWED_AND_NOT_DETECTED then ''ALLOWED_AND_NOT_DETECTED''
      else if verdict = VERDICT_NOT_TESTED then ''NOT_TESTED''
      else if verdict = VERDICT_RATE_LIMITED then ''RATE_LIMITED''
      else ''UNKNOWN_OUTCOME'')"

text \<open>An entry handed in and an entry kept share their links; the one has the error of the
  provider, the other the derived status.\<close>

record entry_links =
  ee_CaseID :: string
  ee_RequestID :: string
  ee_ResultID :: string
  ee_Verdict :: enum
  ee_TelemetryIDs :: "string list"
  ee_DetectionIDs :: "string list"
  ee_AlertIDs :: "string list"
  ee_IncidentIDs :: "string list"
  ee_EvidenceIDs :: "string list"

record ExerciseEntryInput = entry_links +
  ei_ProviderErr :: goerr

record ExerciseEntry = entry_links +
  en_Status :: string

record ExerciseInput =
  xi_CampaignID :: string
  xi_Name :: string
  xi_Source :: string
  xi_Entries :: "ExerciseEntryInput list"

record Exercise =
  xc_ID :: string
  xc_CampaignID :: string
  xc_Name :: string
  xc_Source :: string
  xc_Entries :: "ExerciseEntry list"

text \<open>The checks of an entry's links, the same in \<open>Validate\<close> and in \<open>BuildExercise\<close> up to a remark.\<close>

definition check_links :: "string \<Rightarrow> nat \<Rightarrow> 'a entry_links_scheme \<Rightarrow> goerr" where
  "check_links remark i e =
     (let at_entry = ''validation: exercise entry '' @ utoa i @ '': '' in first_err [
        required (at_entry @ ''case'') (ee_CaseID e),
        required (at_entry @ ''request'') (ee_RequestID e),
        required (at_entry @ ''result'') (ee_ResultID e),
        fail_if (ee_TelemetryIDs e = []) (Plain (at_entry @ ''telemetry linkage required'')),
        fail_if (ee_Verdict e = 0) (Plain (at_entry @ ''explicit verdict required'' @ remark)),
        fail_if (\<not> ValidationVerdict_known (ee_Verdict e))
          (Plain (at_entry @ ''verdict '' @ itoa (ee_Verdict e) @ '' out of bounded vocabulary''))])"

fun validate_entries :: "nat \<Rightarrow> ExerciseEntry list \<Rightarrow> goerr" where
  "validate_entries i [] = None"
| "validate_entries i (e # es) =
     (case first_err [
        check_links [] i e,
        fail_if (en_Status e \<notin> set ExerciseStatus)
          (Plain (''validation: exercise entry '' @ utoa i @ '': status '' @ quote (en_Status e) @ '' out of bounded vocabulary''))] of
        Some x \<Rightarrow> Some x
      | None \<Rightarrow> validate_entries (Suc i) es)"

definition Exercise_Validate :: "Exercise \<Rightarrow> goerr" where
  "Exercise_Validate e = first_err [
     required ''validation: exercise identity'' (xc_ID e),
     required ''validation: exercise campaign'' (xc_CampaignID e),
     required ''validation: exercise name'' (xc_Name e),
     required ''validation: exercise source'' (xc_Source e),
     fail_if (xc_Entries e = []) (Plain ''validation: exercise needs at least one entry''),
     validate_entries 0 (xc_Entries e)]"

definition build_entry :: "ExerciseEntryInput \<Rightarrow> ExerciseEntry" where
  "build_entry e = entry_links.extend (entry_links.truncate e)
     (ExerciseEntry.fields (ExerciseStatusFor (ee_Verdict e) (ei_ProviderErr e)))"

fun build_entries :: "nat \<Rightarrow> ExerciseEntryInput list \<Rightarrow> (ExerciseEntry list \<times> string list) res" where
  "build_entries i [] = Inr ([], [])"
| "build_entries i (e # es) =
     (case check_links '' (UNSPECIFIED is not an outcome)'' i e of
        Some x \<Rightarrow> Inl x
      | None \<Rightarrow>
         (case build_entries (Suc i) es of
            Inl x \<Rightarrow> Inl x
          | Inr (out, key) \<Rightarrow> Inr (build_entry e # out, ee_CaseID e # ee_ResultID e # key)))"

definition BuildExercise :: "ExerciseInput \<Rightarrow> Exercise res" where
  "BuildExercise inp =
     (case first_err [
        required ''validation: exercise campaign'' (xi_CampaignID inp),
        required ''validation: exercise name'' (xi_Name inp),
        required ''validation: exercise source'' (xi_Source inp),
        fail_if (xi_Entries inp = []) (Plain ''validation: exercise needs at least one entry'')] of
        Some e \<Rightarrow> Inl e
      | None \<Rightarrow>
         (case build_entries 0 (xi_Entries inp) of
            Inl e \<Rightarrow> Inl e
          | Inr (entries, key) \<Rightarrow>
              Inr \<lparr> xc_ID = ''pex-'' @ id16 (join US ([''blueveil-purple-exercise-v1'', xi_CampaignID inp, xi_Name inp] @ key)),
                    xc_CampaignID = xi_CampaignID inp, xc_Name = xi_Name inp, xc_Source = xi_Source inp, xc_Entries = entries \<rparr>))"

subsection \<open>The repositories\<close>

definition memoryCampaign_Create :: "Campaign \<Rightarrow> Campaign gomap \<Rightarrow> goerr \<times> Campaign gomap" where
  "memoryCampaign_Create c items = append_item (value_check Campaign_Validate) Campaign_ID ''campaign '' (Some c) items"

definition memoryCampaign_Save :: "Campaign \<Rightarrow> Campaign gomap \<Rightarrow> goerr \<times> Campaign gomap" where
  "memoryCampaign_Save c items = save_item (value_check Campaign_Validate) Campaign_ID ''campaign '' (Some c) items"

definition memoryCampaign_Get :: "string \<Rightarrow> Campaign gomap \<Rightarrow> Campaign res" where
  "memoryCampaign_Get k items = get_item ''campaign '' k items"

definition memoryCampaign_List :: "Campaign gomap \<Rightarrow> Campaign list" where
  "memoryCampaign_List items = values_sorted items"

definition memoryExercise_Create :: "Exercise \<Rightarrow> Exercise gomap \<Rightarrow> goerr \<times> Exercise gomap" where
  "memoryExercise_Create e items = append_item (value_check Exercise_Validate) xc_ID ''exercise '' (Some e) items"

definition memoryExercise_Get :: "string \<Rightarrow> Exercise gomap \<Rightarrow> Exercise res" where
  "memoryExercise_Get k items = get_item ''exercise '' k items"

definition memoryExercise_List :: "Exercise gomap \<Rightarrow> Exercise list" where
  "memoryExercise_List items = values_sorted items"

interpretation campaigns: lifecycle_store fmlookup
  "\<lambda>s v. done_ok (memoryCampaign_Create v s)" "\<lambda>s v. snd (memoryCampaign_Create v s)"
  memoryCampaign_List Campaign_ID "keyed Campaign_ID"
  "\<lambda>s v. done_ok (memoryCampaign_Save v s)" "\<lambda>s v. snd (memoryCampaign_Save v s)"
  unfolding memoryCampaign_Create_def memoryCampaign_Save_def memoryCampaign_List_def by (rule item_lifecycle_store)

interpretation exercises: archive fmlookup
  "\<lambda>s v. done_ok (memoryExercise_Create v s)" "\<lambda>s v. snd (memoryExercise_Create v s)"
  memoryExercise_List xc_ID "keyed xc_ID"
  unfolding memoryExercise_Create_def memoryExercise_List_def by (rule item_archive)

subsection \<open>Built exercises are valid\<close>

lemma check_links_None: "check_links r i e = None \<longleftrightarrow> check_links r' i' e = None"
  by (simp add: check_links_def Let_def boundary)

lemma build_entry_sel [simp]:
  "ee_CaseID (build_entry e) = ee_CaseID e" "ee_RequestID (build_entry e) = ee_RequestID e"
  "ee_ResultID (build_entry e) = ee_ResultID e" "ee_Verdict (build_entry e) = ee_Verdict e"
  "ee_TelemetryIDs (build_entry e) = ee_TelemetryIDs e" "ee_EvidenceIDs (build_entry e) = ee_EvidenceIDs e"
  "en_Status (build_entry e) = ExerciseStatusFor (ee_Verdict e) (ei_ProviderErr e)"
  by (simp_all add: build_entry_def entry_links.defs ExerciseEntry.defs)

lemma status_known: "ExerciseStatusFor v e \<in> set ExerciseStatus"
  by (simp add: ExerciseStatusFor_def ExerciseStatus_def)

lemma validate_entries_None:
  "validate_entries i es = None \<longleftrightarrow> (\<forall>e \<in> set es. check_links [] 0 e = None \<and> en_Status e \<in> set ExerciseStatus)"
proof (induction es arbitrary: i)
  case (Cons e es)
  have "first_err [check_links [] i e, fail_if (en_Status e \<notin> set ExerciseStatus) t] = None \<longleftrightarrow>
      check_links [] 0 e = None \<and> en_Status e \<in> set ExerciseStatus" for t
    using check_links_None [of "[]" i e "[]" 0] by simp
  then show ?case using Cons by (auto simp: fail_if_def split: option.splits)
qed simp

lemma build_entries_Inr:
  "build_entries i es = Inr (out, key) \<Longrightarrow> out = map build_entry es \<and> (\<forall>e \<in> set es. check_links [] 0 e = None)"
proof (induction i es arbitrary: out key rule: build_entries.induct)
  case (2 i e es)
  then obtain out' key' where p: "build_entries (Suc i) es = Inr (out', key')" "out = build_entry e # out'"
    and c: "check_links '' (UNSPECIFIED is not an outcome)'' i e = None"
    by (auto split: option.splits sum.splits)
  have "check_links [] 0 e = None" using c check_links_None [of _ i e "[]" 0] by metis
  then show ?case using 2(1) [OF c p(1)] p(2) by simp
qed simp

lemma build_entries_ok:
  "\<forall>e \<in> set es. check_links [] 0 e = None \<Longrightarrow> \<exists>key. build_entries i es = Inr (map build_entry es, key)"
proof (induction es arbitrary: i)
  case (Cons e es)
  then have c: "check_links '' (UNSPECIFIED is not an outcome)'' i e = None"
    using check_links_None [of _ i e "[]" 0] by auto
  obtain key where "build_entries (Suc i) es = Inr (map build_entry es, key)" using Cons.IH [of "Suc i"] Cons.prems by auto
  then show ?case using c by simp
qed simp

lemma check_links_build: "check_links [] 0 (build_entry e) = None \<longleftrightarrow> check_links [] 0 e = None"
  by (simp add: check_links_def Let_def boundary)

text \<open>The identity of an exercise starts with letters, so it is never blank.\<close>

lemma not_blank: "c \<in> set s \<Longrightarrow> \<not> is_space c \<Longrightarrow> \<not> blank s"
proof
  assume c: "c \<in> set s" "\<not> is_space c" and "blank s"
  then have "dropWhile is_space (rev (dropWhile is_space s)) = []" by (simp add: TrimSpace_def)
  then have "\<forall>x \<in> set (dropWhile is_space s). is_space x" by (metis dropWhile_eq_Nil_conv set_rev)
  moreover have "c \<in> set (dropWhile is_space s)"
    using c by (metis Un_iff set_append set_takeWhileD takeWhile_dropWhile_id)
  ultimately show False using c(2) by blast
qed

lemma BuildExercise_Inr:
  assumes "BuildExercise inp = Inr ex"
  shows "xc_CampaignID ex = xi_CampaignID inp" "xc_Name ex = xi_Name inp" "xc_Source ex = xi_Source inp"
    "xc_Entries ex = map build_entry (xi_Entries inp)" "Exercise_Validate ex = None"
proof -
  obtain entries key where b: "build_entries 0 (xi_Entries inp) = Inr (entries, key)"
    and ex: "ex = \<lparr> xc_ID = ''pex-'' @ id16 (join US ([''blueveil-purple-exercise-v1'', xi_CampaignID inp, xi_Name inp] @ key)),
                    xc_CampaignID = xi_CampaignID inp, xc_Name = xi_Name inp, xc_Source = xi_Source inp, xc_Entries = entries \<rparr>"
    and c: "\<not> blank (xi_CampaignID inp)" "\<not> blank (xi_Name inp)" "\<not> blank (xi_Source inp)" "xi_Entries inp \<noteq> []"
    using assms by (auto simp: BuildExercise_def boundary split: option.splits sum.splits)
  have e: "entries = map build_entry (xi_Entries inp)" "\<forall>e \<in> set (xi_Entries inp). check_links [] 0 e = None"
    using build_entries_Inr [OF b] by auto
  have "\<not> blank (''pex-'' @ s)" for s
    by (rule not_blank [of "CHR ''p''"]) (simp_all add: is_space_def)
  then show "Exercise_Validate ex = None"
    using c e by (simp add: Exercise_Validate_def boundary ex validate_entries_None check_links_build status_known)
  show "xc_CampaignID ex = xi_CampaignID inp" "xc_Name ex = xi_Name inp" "xc_Source ex = xi_Source inp"
    "xc_Entries ex = map build_entry (xi_Entries inp)" by (simp_all add: ex e)
qed

lemma BuildExercise_ok:
  "(\<exists>ex. BuildExercise inp = Inr ex) \<longleftrightarrow>
     \<not> blank (xi_CampaignID inp) \<and> \<not> blank (xi_Name inp) \<and> \<not> blank (xi_Source inp) \<and> xi_Entries inp \<noteq> [] \<and>
     (\<forall>e \<in> set (xi_Entries inp). check_links [] 0 e = None)"
  (is "?l \<longleftrightarrow> ?r")
proof
  assume ?l
  then show ?r using build_entries_Inr [of 0 "xi_Entries inp"]
    by (auto simp: BuildExercise_def boundary split: option.splits sum.splits)
next
  assume r: ?r
  obtain key where "build_entries 0 (xi_Entries inp) = Inr (map build_entry (xi_Entries inp), key)"
    using r build_entries_ok [of "xi_Entries inp" 0] by blast
  then show ?l using r by (simp add: BuildExercise_def required_def fail_if_def)
qed

subsection \<open>The properties\<close>


definition ex_entry_input :: "goerr \<Rightarrow> ExerciseEntryInput" where
  "ex_entry_input e = \<lparr>ee_CaseID = ''c'', ee_RequestID = ''q'', ee_ResultID = ''r'', ee_Verdict = 4, ee_TelemetryIDs = [''t''],
     ee_DetectionIDs = [], ee_AlertIDs = [], ee_IncidentIDs = [], ee_EvidenceIDs = [], ei_ProviderErr = e\<rparr>"

lemma ex_exercise:
  "\<exists>ex. BuildExercise \<lparr>xi_CampaignID = ''c'', xi_Name = ''n'', xi_Source = ''s'', xi_Entries = [ex_entry_input e]\<rparr> = Inr ex"
proof -
  have "TrimSpace ''c'' = ''c''" "TrimSpace ''n'' = ''n''" "TrimSpace ''s'' = ''s''" "TrimSpace ''q'' = ''q''" "TrimSpace ''r'' = ''r''"
    by code_simp+
  then show ?thesis
    by (simp add: BuildExercise_ok check_links_def Let_def boundary ex_entry_input_def ValidationVerdict_known_def)
qed


text \<open>What each outcome of a campaign adds to the summary.\<close>

definition answered :: "CaseOutcome \<Rightarrow> enum option" where
  "answered c = (if cs_ProviderErr c = None then map_option vr_verdict (cs_Result c) else None)"

definition tally :: "CaseOutcome list \<Rightarrow> enum \<Rightarrow> nat" where
  "tally cs v = length (filter (\<lambda>c. answered c = Some v) cs)"

definition summary_of :: "CaseOutcome list \<Rightarrow> Summary \<Rightarrow> bool" where
  "summary_of cs s \<longleftrightarrow> su_Total s = length cs \<and>
     (\<forall>v. verdict_count (su_ByVerdict s) v = tally cs v) \<and>
     su_ProviderErrors s = length (filter (\<lambda>c. answered c = None) cs) \<and>
     su_NotTested s = tally cs VERDICT_NOT_TESTED \<and> su_RateLimited s = tally cs VERDICT_RATE_LIMITED \<and>
     su_Unknown s = tally cs VERDICT_UNKNOWN \<and>
     su_ProviderErrors s + (\<Sum>v\<in>fmdom' (su_ByVerdict s). verdict_count (su_ByVerdict s) v) = length cs"

lemma sum_count_upd:
  "(\<Sum>v\<in>fmdom' (fmupd w (verdict_count m w + 1) m). verdict_count (fmupd w (verdict_count m w + 1) m) v) =
   Suc (\<Sum>v\<in>fmdom' m. verdict_count m v)"
proof -
  have "(\<Sum>v\<in>insert w (fmdom' m). verdict_count (fmupd w (verdict_count m w + 1) m) v) =
      verdict_count m w + 1 + (\<Sum>v\<in>fmdom' m - {w}. verdict_count (fmupd w (verdict_count m w + 1) m) v)"
    by (simp add: sum.insert_remove verdict_count_def)
  moreover have "(\<Sum>v\<in>fmdom' m - {w}. verdict_count (fmupd w (verdict_count m w + 1) m) v) = (\<Sum>v\<in>fmdom' m - {w}. verdict_count m v)"
    by (rule sum.cong) (auto simp: verdict_count_def)
  moreover have "(\<Sum>v\<in>fmdom' m. verdict_count m v) = verdict_count m w + (\<Sum>v\<in>fmdom' m - {w}. verdict_count m v)"
  proof (cases "w \<in> fmdom' m")
    case True
    then show ?thesis by (simp add: sum.remove)
  next
    case False
    then show ?thesis by (simp add: verdict_count_def fmdom'_notD)
  qed
  ultimately show ?thesis by simp
qed

lemma tally_snoc: "tally (cs @ [c]) v = tally cs v + (if answered c = Some v then 1 else 0)"
  by (simp add: tally_def)

lemma summary_step:
  assumes "summary_of cs s"
  shows "summary_of (cs @ [c]) (summarize_one c s)"
proof (cases "answered c")
  case None
  have "summarize_one c s = s\<lparr>su_Total := su_Total s + 1, su_ProviderErrors := su_ProviderErrors s + 1\<rparr>"
    using None by (auto simp: summarize_one_def answered_def Let_def split: option.splits if_splits)
  moreover have "tally (cs @ [c]) = tally cs" using None by (simp add: fun_eq_iff tally_snoc)
  ultimately show ?thesis using assms None unfolding summary_of_def by auto
next
  case (Some v)
  define m where "m = fmupd v (verdict_count (su_ByVerdict s) v + 1) (su_ByVerdict s)"
  obtain r where r: "cs_ProviderErr c = None" "cs_Result c = Some r" "vr_verdict r = v"
    using Some by (auto simp: answered_def split: if_splits)
  have s': "su_Total (summarize_one c s) = su_Total s + 1" "su_ByVerdict (summarize_one c s) = m"
    "su_ProviderErrors (summarize_one c s) = su_ProviderErrors s"
    "su_NotTested (summarize_one c s) = su_NotTested s + (if v = VERDICT_NOT_TESTED then 1 else 0)"
    "su_RateLimited (summarize_one c s) = su_RateLimited s + (if v = VERDICT_RATE_LIMITED then 1 else 0)"
    "su_Unknown (summarize_one c s) = su_Unknown s + (if v = VERDICT_UNKNOWN then 1 else 0)"
    using r by (simp_all add: summarize_one_def Let_def m_def)
  have m: "verdict_count m w = verdict_count (su_ByVerdict s) w + (if w = v then 1 else 0)" for w
    by (simp add: m_def verdict_count_def)
  have sum: "(\<Sum>w\<in>fmdom' m. verdict_count m w) = Suc (\<Sum>w\<in>fmdom' (su_ByVerdict s). verdict_count (su_ByVerdict s) w)"
    unfolding m_def by (rule sum_count_upd)
  have h: "su_Total s = length cs" "\<And>w. verdict_count (su_ByVerdict s) w = tally cs w"
    "su_ProviderErrors s = length (filter (\<lambda>c. answered c = None) cs)"
    "su_NotTested s = tally cs VERDICT_NOT_TESTED" "su_RateLimited s = tally cs VERDICT_RATE_LIMITED"
    "su_Unknown s = tally cs VERDICT_UNKNOWN"
    and total: "su_ProviderErrors s + (\<Sum>v\<in>fmdom' (su_ByVerdict s). verdict_count (su_ByVerdict s) v) = length cs"
    using assms unfolding summary_of_def by blast+
  have "su_ProviderErrors s + (\<Sum>w\<in>fmdom' m. verdict_count m w) = length (cs @ [c])" using total sum by simp
  then show ?thesis unfolding summary_of_def s' using h(1,3-6) by (auto simp: tally_snoc Some m h(2))
qed

text \<open>
  The summary of a campaign accounts for every outcome exactly once: the total is the
  number of outcomes, a verdict is counted once for every outcome that has it and no provider
  error, everything else is a provider error, and the counters for not tested, rate limited
  and unknown are those of the table.
\<close>

theorem summary_accounts_for_all: "summary_of cs (Summarize cs)"
proof (induction cs rule: rev_induct)
  case Nil
  then show ?case by (simp add: summary_of_def Summarize_def tally_def verdict_count_def)
next
  case (snoc c cs)
  then show ?case using summary_step [of cs _ c] by (simp add: Summarize_def)
qed

end
