(* ===== verification/ApiAuth.thy ===== *)
theory ApiAuth
  imports Prelude GoTime "HOL-Library.Word"
begin

text \<open>
  \<open>internal/auth\<close>, the gate of \<open>internal/api/middleware.go\<close>, and \<open>internal/obs\<close>: API keys,
  roles, the capability of a route, the decision of the gate on a request, the counters, and
  the redaction of log records. The bcrypt library is an argument: the check of a hash and the
  comparison of a hash with a secret. A request is what the gate and the handlers read of it;
  its path is the decoded path of the URL.
\<close>

subsection \<open>Roles\<close>

abbreviation (input) RoleRead :: string where "RoleRead \<equiv> ''READ''"
abbreviation (input) RoleRespond :: string where "RoleRespond \<equiv> ''RESPOND''"
abbreviation (input) RoleValidate :: string where "RoleValidate \<equiv> ''VALIDATE''"
abbreviation (input) RoleAdmin :: string where "RoleAdmin \<equiv> ''ADMIN''"

definition ValidRole :: "string \<Rightarrow> bool" where
  "ValidRole r \<longleftrightarrow> r \<in> {RoleRead, RoleRespond, RoleValidate, RoleAdmin}"

definition roleRank :: "string \<Rightarrow> nat" where
  "roleRank r =
     (if r = RoleRead then 1 else if r = RoleRespond then 2 else if r = RoleValidate then 3 else if r = RoleAdmin then 4 else 0)"

definition Sufficient :: "string \<Rightarrow> string \<Rightarrow> bool" where
  "Sufficient held needed \<longleftrightarrow> roleRank needed \<le> roleRank held \<and> 0 < roleRank needed"

subsection \<open>API keys\<close>

record bcrypt =
  bc_CostOk :: "string \<Rightarrow> bool"
  bc_Matches :: "string \<Rightarrow> string \<Rightarrow> bool"

record Identity =
  id_KeyID :: string
  id_Role :: string

record Key =
  key_ID :: string
  key_Role :: string
  key_Hash :: string
  key_ExpiresAt :: gotime

text \<open>The construction: \<open>seen\<close> is the set of ids so far; the entries keep the order of the keys.\<close>

fun check_keys :: "bcrypt \<Rightarrow> string list \<Rightarrow> Key list \<Rightarrow> goerr" where
  "check_keys B seen [] = None"
| "check_keys B seen (k # ks) =
     (case first_err [
        fail_if (TrimSpace (key_ID k) = []) (Plain ''auth: key id is empty''),
        fail_if (key_ID k \<in> set seen) (Plain (''auth: duplicate key id '' @ key_ID k)),
        fail_if (\<not> ValidRole (key_Role k)) (Plain (''auth: key '' @ key_ID k @ '' has unknown role'')),
        fail_if (\<not> bc_CostOk B (key_Hash k)) (Plain (''auth: key '' @ key_ID k @ '' hash is malformed''))] of
        Some e \<Rightarrow> Some e
      | None \<Rightarrow> check_keys B (key_ID k # seen) ks)"

definition NewAPIKeyAuthenticator :: "bcrypt \<Rightarrow> Key list \<Rightarrow> bool \<Rightarrow> Key list res" where
  "NewAPIKeyAuthenticator B keys clock_nil =
     (case first_err [
        fail_if (keys = []) (Plain ''auth: no API keys configured (no default production credential)''),
        fail_if clock_nil (Plain ''auth: clock is nil''),
        check_keys B [] keys] of
        Some e \<Rightarrow> Inl e
      | None \<Rightarrow> Inr keys)"

record Request =
  rq_Method :: string
  rq_Path :: string
  rq_Authorization :: string
  rq_RequestID :: string
  rq_Query :: attrs
  rq_Body :: string

definition bearerSecret :: "Request \<Rightarrow> string res" where
  "bearerSecret r =
     (let h = rq_Authorization r in
      if h = [] then Inl (Sent (Auth ErrMissingCredentials) [])
      else if \<not> has_prefix ''Bearer '' h then Inl (Sent (Auth ErrInvalidCredentials) [])
      else let secret = TrimSpace (drop (length ''Bearer '') h) in
        if secret = [] then Inl (Sent (Auth ErrInvalidCredentials) []) else Inr secret)"

text \<open>The loop over the keys: every hash is compared, the first match is kept.\<close>

fun first_hit :: "bcrypt \<Rightarrow> string \<Rightarrow> Key list \<Rightarrow> Key option \<Rightarrow> Key option" where
  "first_hit B secret [] hit = hit"
| "first_hit B secret (k # ks) hit =
     first_hit B secret ks (if bc_Matches B (key_Hash k) secret \<and> hit = None then Some k else hit)"

definition Authenticate :: "bcrypt \<Rightarrow> Key list \<Rightarrow> gotime \<Rightarrow> Request \<Rightarrow> Identity res" where
  "Authenticate B keys now r =
     (case bearerSecret r of
        Inl e \<Rightarrow> Inl e
      | Inr secret \<Rightarrow>
         (case first_hit B secret keys None of
            None \<Rightarrow> Inl (Sent (Auth ErrInvalidCredentials) [])
          | Some k \<Rightarrow>
              if \<not> IsZero (key_ExpiresAt k) \<and> \<not> now < key_ExpiresAt k then Inl (Sent (Auth ErrExpiredCredential) [])
              else Inr \<lparr>id_KeyID = key_ID k, id_Role = key_Role k\<rparr>))"

lemma first_hit_Some [simp]: "first_hit B s ks (Some k) = Some k"
  by (induction ks) simp_all

lemma first_hit_find: "first_hit B s ks None = find (\<lambda>k. bc_Matches B (key_Hash k) s) ks"
  by (induction ks) simp_all

subsection \<open>The capability of a route\<close>

text \<open>\<open>None\<close> is a route that is not protected.\<close>

definition CapabilityFor :: "string \<Rightarrow> string \<Rightarrow> string option" where
  "CapabilityFor meth path =
     (if meth = ''GET'' \<and> (path = ''/api/v1/healthz'' \<or> path = ''/api/v1/readyz'') then None
      else if meth = ''POST'' \<and> path = ''/api/v1/assets/observations'' then Some RoleRespond
      else if meth = ''PATCH'' \<and> has_prefix ''/api/v1/assets/'' path \<and> has_suffix ''/lifecycle'' path then Some RoleAdmin
      else if has_prefix ''/api/'' path then Some RoleRead
      else None)"

subsection \<open>Responses and the gate\<close>

text \<open>JSON values as the handlers build them; \<open>JRaw\<close> is the text of a marshalled message.\<close>

datatype json = JStr string | JBool bool | JNum int | JRaw string | JArr "json list" | JObj "(string \<times> json) list"

record Reply =
  rp_Status :: int
  rp_Body :: json

definition writeJSON :: "int \<Rightarrow> json \<Rightarrow> Reply" where
  "writeJSON status v = \<lparr>rp_Status = status, rp_Body = v\<rparr>"

definition writeError :: "int \<Rightarrow> string \<Rightarrow> string \<Rightarrow> Reply" where
  "writeError status code message =
     writeJSON status (JObj [(''error'', JObj [(''code'', JStr code), (''message'', JStr message)])])"

record AuthGate =
  ga_auth :: "gotime \<Rightarrow> Request \<Rightarrow> Identity res"
  ga_public :: "string list"

definition UseAuth :: "(gotime \<Rightarrow> Request \<Rightarrow> Identity res) \<Rightarrow> string list \<Rightarrow> AuthGate" where
  "UseAuth a public =
     \<lparr>ga_auth = a, ga_public = [''/api/v1/healthz'', ''/api/v1/readyz''] @ filter (\<lambda>p. p \<noteq> []) public\<rparr>"

text \<open>What the gate does with a request: it hands it on, with the identity if it asked for one, or refuses it.\<close>

datatype verdict = Pass "Identity option" | Refuse Reply

definition refusal :: "err \<Rightarrow> Reply" where
  "refusal e =
     (if errors_Is e (Auth ErrMissingCredentials) then writeError 401 ''UNAUTHORIZED'' ''authentication required''
      else if errors_Is e (Auth ErrExpiredCredential) then writeError 401 ''UNAUTHORIZED'' ''credential expired''
      else writeError 401 ''UNAUTHORIZED'' ''invalid credentials'')"

definition gate_verdict :: "AuthGate \<Rightarrow> gotime \<Rightarrow> Request \<Rightarrow> verdict" where
  "gate_verdict g now r =
     (if rq_Path r \<in> set (ga_public g) then Pass None
      else (case CapabilityFor (rq_Method r) (rq_Path r) of
              None \<Rightarrow> Pass None
            | Some role \<Rightarrow>
               (case ga_auth g now r of
                  Inl e \<Rightarrow> Refuse (refusal e)
                | Inr i \<Rightarrow>
                    if \<not> Sufficient (id_Role i) role
                      then Refuse (writeError 403 ''FORBIDDEN'' (''role '' @ id_Role i @ '' may not perform this operation''))
                    else Pass (Some i))))"

text \<open>\<open>wrap\<close>: the handlers behind the gate are a function of the request over the state they serve.\<close>

definition gate_wrap :: "AuthGate \<Rightarrow> gotime \<Rightarrow> (Request \<Rightarrow> 's \<Rightarrow> Reply \<times> 's) \<Rightarrow> Request \<Rightarrow> 's \<Rightarrow> Reply \<times> 's" where
  "gate_wrap g now next r s = (case gate_verdict g now r of Refuse p \<Rightarrow> (p, s) | Pass _ \<Rightarrow> next r s)"

subsection \<open>Counters\<close>

record ObsMetrics =
  me_requests :: "64 word"
  me_requestErr4xx :: "64 word"
  me_requestErr5xx :: "64 word"
  me_persistenceFailures :: "64 word"
  me_ingestAccepted :: "64 word"
  me_ingestRejected :: "64 word"
  me_detectionErrors :: "64 word"
  me_validationProviderErrors :: "64 word"

definition NewMetrics :: ObsMetrics where
  "NewMetrics = \<lparr>me_requests = 0, me_requestErr4xx = 0, me_requestErr5xx = 0, me_persistenceFailures = 0, me_ingestAccepted = 0,
     me_ingestRejected = 0, me_detectionErrors = 0, me_validationProviderErrors = 0\<rparr>"

definition Metrics_Request :: "ObsMetrics \<Rightarrow> ObsMetrics" where
  "Metrics_Request m = m\<lparr>me_requests := me_requests m + 1\<rparr>"

definition RequestError :: "int \<Rightarrow> ObsMetrics \<Rightarrow> ObsMetrics" where
  "RequestError status m =
     (if 500 \<le> status then m\<lparr>me_requestErr5xx := me_requestErr5xx m + 1\<rparr>
      else if 400 \<le> status then m\<lparr>me_requestErr4xx := me_requestErr4xx m + 1\<rparr>
      else m)"

definition PersistenceFailure :: "ObsMetrics \<Rightarrow> ObsMetrics" where
  "PersistenceFailure m = m\<lparr>me_persistenceFailures := me_persistenceFailures m + 1\<rparr>"

definition IngestAccepted :: "ObsMetrics \<Rightarrow> ObsMetrics" where
  "IngestAccepted m = m\<lparr>me_ingestAccepted := me_ingestAccepted m + 1\<rparr>"

definition IngestRejected :: "ObsMetrics \<Rightarrow> ObsMetrics" where
  "IngestRejected m = m\<lparr>me_ingestRejected := me_ingestRejected m + 1\<rparr>"

definition DetectionError :: "ObsMetrics \<Rightarrow> ObsMetrics" where
  "DetectionError m = m\<lparr>me_detectionErrors := me_detectionErrors m + 1\<rparr>"

definition ValidationProviderError :: "ObsMetrics \<Rightarrow> ObsMetrics" where
  "ValidationProviderError m = m\<lparr>me_validationProviderErrors := me_validationProviderErrors m + 1\<rparr>"

definition Snapshot :: "ObsMetrics \<Rightarrow> json" where
  "Snapshot m = JObj (map (\<lambda>(k, v). (k, JNum (uint v))) [
     (''requests_total'', me_requests m), (''request_errors_4xx'', me_requestErr4xx m),
     (''request_errors_5xx'', me_requestErr5xx m), (''persistence_failures'', me_persistenceFailures m),
     (''ingest_accepted'', me_ingestAccepted m), (''ingest_rejected'', me_ingestRejected m),
     (''detection_errors'', me_detectionErrors m), (''validation_provider_errors'', me_validationProviderErrors m)])"

text \<open>What \<open>observability.wrap\<close> counts for a served request.\<close>

definition count_reply :: "int \<Rightarrow> ObsMetrics \<Rightarrow> ObsMetrics" where
  "count_reply status m = (let m1 = Metrics_Request m in if 400 \<le> status then RequestError status m1 else m1)"

subsection \<open>Log redaction\<close>

text \<open>An argument of a log call: a string, which may be a key or a value, or a value of another type.\<close>

datatype logarg = LStr string | LVal int

definition sensitiveLogKeys :: "string list" where
  "sensitiveLogKeys = [''password'', ''passwd'', ''token'', ''secret'', ''credential'', ''cookie'',
     ''authorization'', ''session'', ''api_key'', ''apikey'', ''private_key'', ''mfa'', ''access_key'']"

definition sensitive_log :: "string \<Rightarrow> bool" where
  "sensitive_log k \<longleftrightarrow> list_ex (\<lambda>frag. contains (ToLower k) frag) sensitiveLogKeys"

fun redactAttrs :: "logarg list \<Rightarrow> logarg list" where
  "redactAttrs [] = []"
| "redactAttrs (LVal v # as) = LVal v # redactAttrs as"
| "redactAttrs (LStr k # as) = (if sensitive_log k then redactAttrs (tl as) else LStr k # redactAttrs as)"

text \<open>
  How \<open>log/slog\<close> pairs the arguments: a string takes the next argument as its value, a string
  at the end and any other argument is the value of \<open>!BADKEY\<close>.
\<close>

fun log_attrs :: "logarg list \<Rightarrow> (string \<times> logarg) list" where
  "log_attrs [] = []"
| "log_attrs [LStr k] = [(''!BADKEY'', LStr k)]"
| "log_attrs (LStr k # v # as) = (k, v) # log_attrs as"
| "log_attrs (LVal v # as) = (''!BADKEY'', LVal v) # log_attrs as"

text \<open>The handler of the record drops the attributes with a sensitive key.\<close>

definition redacting_Handle :: "(string \<times> logarg) list \<Rightarrow> (string \<times> logarg) list" where
  "redacting_Handle attrs = filter (\<lambda>(k, v). \<not> sensitive_log k) attrs"

definition Logger_Info :: "logarg list \<Rightarrow> (string \<times> logarg) list" where
  "Logger_Info kv = redacting_Handle (log_attrs (redactAttrs kv))"

text \<open>The access log of a request: its attributes in the order of the call.\<close>

definition access_log :: "Request \<Rightarrow> string \<Rightarrow> int \<Rightarrow> int \<Rightarrow> Identity option \<Rightarrow> (string \<times> logarg) list" where
  "access_log r request_id status duration i = Logger_Info [
     LStr ''operation'', LStr (rq_Method r @ '' '' @ rq_Path r), LStr ''request_id'', LStr request_id,
     LStr ''status'', LVal status, LStr ''duration_ms'', LVal duration,
     LStr ''role'', LStr (case i of None \<Rightarrow> [] | Some x \<Rightarrow> id_Role x)]"

subsection \<open>The properties\<close>

text \<open>When a key authenticates a request.\<close>

lemma Authenticate_Inr:
  "Authenticate B keys now r = Inr i \<longleftrightarrow>
     (\<exists>secret k. bearerSecret r = Inr secret \<and> find (\<lambda>k. bc_Matches B (key_Hash k) secret) keys = Some k \<and>
        (IsZero (key_ExpiresAt k) \<or> now < key_ExpiresAt k) \<and> i = \<lparr>id_KeyID = key_ID k, id_Role = key_Role k\<rparr>)"
  by (auto simp: Authenticate_def first_hit_find split: sum.splits option.splits if_splits)

lemma Sufficient_rank: "Sufficient h n \<Longrightarrow> roleRank n \<le> roleRank h \<and> roleRank n \<noteq> 0"
  by (simp add: Sufficient_def)

lemma roleRank_pos: "0 < roleRank r \<longleftrightarrow> ValidRole r"
  by (simp add: roleRank_def ValidRole_def)

text \<open>What passes the gate: a public or unprotected path, or an identity of sufficient role.\<close>

lemma gate_Pass:
  "gate_verdict g now r = Pass i \<longleftrightarrow>
     (if rq_Path r \<in> set (ga_public g) \<or> CapabilityFor (rq_Method r) (rq_Path r) = None then i = None
      else \<exists>role x. CapabilityFor (rq_Method r) (rq_Path r) = Some role \<and> ga_auth g now r = Inr x \<and>
             Sufficient (id_Role x) role \<and> i = Some x)"
  by (auto simp: gate_verdict_def split: option.splits sum.splits if_splits)


text \<open>Logging a request as pairs of keys and values.\<close>

definition as_args :: "(string \<times> logarg) list \<Rightarrow> logarg list" where
  "as_args ps = concat (map (\<lambda>(k, v). [LStr k, v]) ps)"

definition harmless :: "logarg \<Rightarrow> bool" where
  "harmless v \<longleftrightarrow> (case v of LStr s \<Rightarrow> \<not> sensitive_log s | LVal n \<Rightarrow> True)"

lemma redact_pairs:
  "\<forall>(k, v) \<in> set ps. sensitive_log k \<or> harmless v \<Longrightarrow>
     redactAttrs (as_args ps) = as_args (filter (\<lambda>(k, v). \<not> sensitive_log k) ps)"
proof (induction ps)
  case (Cons p ps)
  obtain k v where p: "p = (k, v)" by fastforce
  then show ?case using Cons by (cases v) (auto simp: as_args_def harmless_def)
qed (simp add: as_args_def)

lemma log_pairs: "log_attrs (as_args ps) = ps"
proof (induction ps)
  case (Cons p ps)
  then show ?case by (cases p) (simp add: as_args_def)
qed (simp add: as_args_def)

text \<open>
  Redaction is exact on well-behaved records: when no logged value of an insensitive key
  itself contains a sensitive word, a log call writes exactly the pairs whose key is not
  sensitive, in their order.
\<close>

theorem redaction_exact:
  assumes "\<forall>(k, v) \<in> set ps. sensitive_log k \<or> harmless v"
  shows "Logger_Info (as_args ps) = filter (\<lambda>(k, v). \<not> sensitive_log k) ps"
  using redact_pairs [OF assms] by (simp add: Logger_Info_def log_pairs redacting_Handle_def)

theorem redaction_exact_witness:
  "Logger_Info (as_args [(''role'', LStr ''READ''), (''api_key'', LStr ''k1''), (''status'', LVal 200)]) =
     [(''role'', LStr ''READ''), (''status'', LVal 200)]"
proof -
  have s: "sensitive_log ''api_key''" "\<not> sensitive_log ''role''" "\<not> sensitive_log ''status''" "\<not> sensitive_log ''READ''"
    by code_simp+
  show ?thesis
    using redaction_exact [of "[(''role'', LStr ''READ''), (''api_key'', LStr ''k1''), (''status'', LVal 200)]"] s
    by (simp add: harmless_def)
qed

text \<open>
  The redaction takes values for keys: when the method and path of a request contain a
  sensitive word, which the client chooses, the access log loses the path and the key of the
  request id, and the request id, which the client chooses too, is logged as the operation.
\<close>

theorem access_log_forged:
  assumes "sensitive_log (rq_Method r @ '' '' @ rq_Path r)" and "\<not> sensitive_log request_id" and "i = None \<or> ValidRole (id_Role (the i))"
  shows "access_log r request_id status duration i =
    [(''operation'', LStr request_id), (''status'', LVal status), (''duration_ms'', LVal duration),
     (''role'', LStr (case i of None \<Rightarrow> [] | Some x \<Rightarrow> id_Role x))]"
proof -
  have keys: "\<not> sensitive_log ''operation''" "\<not> sensitive_log ''status''" "\<not> sensitive_log ''duration_ms''"
    "\<not> sensitive_log ''role''" "\<not> sensitive_log []" "\<not> sensitive_log ''READ''" "\<not> sensitive_log ''RESPOND''"
    "\<not> sensitive_log ''VALIDATE''" "\<not> sensitive_log ''ADMIN''"
    by code_simp+
  have role: "\<not> sensitive_log (case i of None \<Rightarrow> [] | Some x \<Rightarrow> id_Role x)"
    using assms(3) keys by (auto simp: ValidRole_def split: option.splits)
  show ?thesis using assms(1,2) keys role
    by (simp add: access_log_def Logger_Info_def redacting_Handle_def)
qed


theorem access_log_forged_witness:
  "map_of (access_log \<lparr>rq_Method = ''PATCH'', rq_Path = ''/api/v1/assets/token/lifecycle'', rq_Authorization = [],
     rq_RequestID = ''GET /api/v1/healthz'', rq_Query = fmempty, rq_Body = []\<rparr> ''GET /api/v1/healthz'' 401 0 None) ''operation'' =
   Some (LStr ''GET /api/v1/healthz'')"
proof -
  let ?r = "\<lparr>rq_Method = ''PATCH'', rq_Path = ''/api/v1/assets/token/lifecycle'', rq_Authorization = [],
     rq_RequestID = ''GET /api/v1/healthz'', rq_Query = fmempty, rq_Body = []\<rparr>"
  have "sensitive_log (''PATCH'' @ '' '' @ ''/api/v1/assets/token/lifecycle'')" "\<not> sensitive_log ''GET /api/v1/healthz''" by code_simp+
  then show ?thesis using access_log_forged [of ?r "''GET /api/v1/healthz''" None 401 0] by simp
qed

end
