(* ===== verification/ApiServer.thy ===== *)
theory ApiServer
  imports ApiAuth AssetStore Validation
begin

text \<open>
  The HTTP boundary over the store interfaces: \<open>internal/api/api.go\<close> and \<open>assets.go\<close> with the
  route mux and the composed handler. The store is any backend: a record of the operations the
  handlers call, over a state of three parts, the asset repository, the relationship repository
  and everything the handlers only read. Arguments of the model are the marshaller of messages
  (\<open>protojson\<close>), the decoders of the two request bodies and the parser of instants.
\<close>

subsection \<open>What the handlers call\<close>

record 'a Repo =
  rp_List :: "'a list res"
  rp_Get :: "string \<Rightarrow> 'a res"

record Reads =
  rd_Telemetry :: "TelemetryEvent Repo"
  rd_Detection :: "Detection Repo"
  rd_Alert :: "Alert Repo"
  rd_Incident :: "Incident Repo"
  rd_Evidence :: "Evidence Repo"
  rd_EvidenceByIncident :: "string \<Rightarrow> Evidence list res"
  rd_Response :: "Recommendation Repo"
  rd_Approvals :: "Approval Repo"
  rd_Executions :: "Execution Repo"
  rd_Verifications :: "Verification Repo"
  rd_ValidationRequest :: "string \<Rightarrow> ValidationRequest res"
  rd_ValidationResults :: "ValidationResult Repo"
  rd_Audit :: "ArchivedEntry Repo"

record ('s, 'r, 'o) Backend =
  be_Assets :: "'s AssetStore"
  be_AssetList :: "'s \<Rightarrow> Asset list res"
  be_Relationships :: "'r RelationshipStore"
  be_Children :: "string \<Rightarrow> 'r \<Rightarrow> Relationship list res"
  be_Parents :: "string \<Rightarrow> 'r \<Rightarrow> Relationship list res"
  be_Reads :: "'o \<Rightarrow> Reads"

type_synonym ('s, 'r, 'o) served = "'s \<times> 'r \<times> 'o"

record observationRequest =
  or_Source :: string
  or_Type :: string
  or_Raw :: string
  or_ObservedAt :: string
  or_Environment :: string
  or_Attributes :: attrs

record httplib =
  ht_DecodeObservation :: "string \<Rightarrow> observationRequest option"
  ht_DecodeLifecycle :: "string \<Rightarrow> string option"
  ht_ParseTime :: "string \<Rightarrow> gotime option"
  ht_Telemetry :: "TelemetryEvent \<Rightarrow> string option"
  ht_Detection :: "Detection \<Rightarrow> string option"
  ht_Alert :: "Alert \<Rightarrow> string option"
  ht_Incident :: "Incident \<Rightarrow> string option"
  ht_Evidence :: "Evidence \<Rightarrow> string option"
  ht_Recommendation :: "Recommendation \<Rightarrow> string option"
  ht_Approval :: "Approval \<Rightarrow> string option"
  ht_Execution :: "Execution \<Rightarrow> string option"
  ht_Verification :: "Verification \<Rightarrow> string option"
  ht_ValidationRequest :: "ValidationRequest \<Rightarrow> string option"
  ht_ValidationResult :: "ValidationResult \<Rightarrow> string option"
  ht_Asset :: "Asset \<Rightarrow> string option"

subsection \<open>Errors and messages\<close>

definition mapError :: "err \<Rightarrow> string \<Rightarrow> string \<Rightarrow> Reply" where
  "mapError e kind i =
     (if errors_Is e (Store ErrNotFound) then writeError 404 ''NOT_FOUND'' (kind @ '' '' @ i @ '' not found'')
      else if errors_Is e (Store ErrCorrupted) then writeError 500 ''INTEGRITY_FAILURE'' (kind @ '' '' @ i @ '' failed integrity check'')
      else writeError 500 ''INTERNAL'' ''backend error'')"

definition mapListError :: "err \<Rightarrow> string \<Rightarrow> Reply" where
  "mapListError e kind =
     (if errors_Is e (Store ErrCorrupted) then writeError 500 ''INTEGRITY_FAILURE'' (kind @ '' failed integrity check'')
      else writeError 500 ''INTERNAL'' ''backend error'')"

definition bad_serialization :: Reply where
  "bad_serialization = writeError 500 ''INTERNAL'' ''serialization error''"

definition bad_request :: "string \<Rightarrow> Reply" where
  "bad_request message = writeError 400 ''BAD_REQUEST'' message"

definition not_allowed :: "string \<Rightarrow> Reply" where
  "not_allowed message = writeError 405 ''METHOD_NOT_ALLOWED'' message"

text \<open>\<open>requireGET\<close> and the rest of the handler.\<close>

definition requireGET :: "Request \<Rightarrow> Reply \<Rightarrow> Reply" where
  "requireGET r reply = (if rq_Method r \<noteq> ''GET'' then not_allowed ''read-only API: GET only'' else reply)"

text \<open>The remainder of a path after a fixed prefix, as an id without a slash.\<close>

definition TrimPrefix :: "string \<Rightarrow> string \<Rightarrow> string" where
  "TrimPrefix s p = (if has_prefix p s then drop (length p) s else s)"

definition idFromPath :: "string \<Rightarrow> string \<Rightarrow> string option" where
  "idFromPath path pre = (let i = TrimPrefix path pre in if i = [] \<or> contains i ''/'' then None else Some i)"

definition marshal_all :: "('a \<Rightarrow> string option) \<Rightarrow> 'a list \<Rightarrow> json list option" where
  "marshal_all m items = those (map (\<lambda>x. map_option JRaw (m x)) items)"

definition writeProtoList :: "('a \<Rightarrow> string option) \<Rightarrow> 'a list \<Rightarrow> Reply" where
  "writeProtoList m items =
     (case marshal_all m items of None \<Rightarrow> bad_serialization | Some raw \<Rightarrow> writeJSON 200 (JObj [(''data'', JArr raw)]))"

definition writeProtoItem :: "('a \<Rightarrow> string option) \<Rightarrow> 'a \<Rightarrow> Reply" where
  "writeProtoItem m item =
     (case m item of None \<Rightarrow> bad_serialization | Some data \<Rightarrow> writeJSON 200 (JObj [(''data'', JRaw data)]))"

subsection \<open>The reading handlers\<close>

text \<open>Most handlers repeat one of two bodies, list all or get one by the id at the end of the path.\<close>

definition list_handler :: "('a \<Rightarrow> string option) \<Rightarrow> string \<Rightarrow> 'a list res \<Rightarrow> Request \<Rightarrow> Reply" where
  "list_handler m kind found r = requireGET r
     (case found of Inl e \<Rightarrow> mapListError e kind | Inr items \<Rightarrow> writeProtoList m items)"

definition get_handler ::
  "('a \<Rightarrow> string option) \<Rightarrow> string \<Rightarrow> string \<Rightarrow> (string \<Rightarrow> 'a res) \<Rightarrow> Request \<Rightarrow> Reply" where
  "get_handler m kind pre found r = requireGET r
     (case idFromPath (rq_Path r) pre of
        None \<Rightarrow> bad_request ''missing id''
      | Some i \<Rightarrow> (case found i of Inl e \<Rightarrow> mapError e kind i | Inr item \<Rightarrow> writeProtoItem m item))"

definition handleHealth :: "Request \<Rightarrow> Reply" where
  "handleHealth r = requireGET r (writeJSON 200 (JObj [(''data'', JObj [(''status'', JStr ''ok'')])]))"

text \<open>
  Readiness: whether the server is draining, the result of the health hook when there is one
  (true for no error), and the counters when they are attached.
\<close>

record Status =
  sv_unserving :: bool
  sv_health :: "bool option"
  sv_metrics :: "ObsMetrics option"

definition ready :: "Status \<Rightarrow> bool" where
  "ready v \<longleftrightarrow> \<not> sv_unserving v \<and> sv_health v \<noteq> Some False"

definition handleReady :: "Status \<Rightarrow> Request \<Rightarrow> Reply" where
  "handleReady v r = requireGET r
     (writeJSON (if ready v then 200 else 503) (JObj [(''data'', JObj (
        [(''status'', JStr (if ready v then ''ready'' else ''not-ready'')),
         (''checks'', JObj ((if sv_unserving v then [(''serving'', JStr ''draining'')] else []) @
            [(''database'', JStr (case sv_health v of None \<Rightarrow> ''unconfigured'' | Some ok \<Rightarrow> if ok then ''ok'' else ''unreachable''))]))] @
        (case sv_metrics v of None \<Rightarrow> [] | Some m \<Rightarrow> [(''metrics'', Snapshot m)])))]))"

definition listTelemetry :: "httplib \<Rightarrow> Reads \<Rightarrow> Request \<Rightarrow> Reply" where
  "listTelemetry H d = list_handler (ht_Telemetry H) ''telemetry'' (rp_List (rd_Telemetry d))"

definition getTelemetry :: "httplib \<Rightarrow> Reads \<Rightarrow> Request \<Rightarrow> Reply" where
  "getTelemetry H d = get_handler (ht_Telemetry H) ''telemetry'' ''/api/v1/telemetry/'' (rp_Get (rd_Telemetry d))"

definition listDetections :: "httplib \<Rightarrow> Reads \<Rightarrow> Request \<Rightarrow> Reply" where
  "listDetections H d = list_handler (ht_Detection H) ''detections'' (rp_List (rd_Detection d))"

definition getDetection :: "httplib \<Rightarrow> Reads \<Rightarrow> Request \<Rightarrow> Reply" where
  "getDetection H d = get_handler (ht_Detection H) ''detection'' ''/api/v1/detections/'' (rp_Get (rd_Detection d))"

definition listAlerts :: "httplib \<Rightarrow> Reads \<Rightarrow> Request \<Rightarrow> Reply" where
  "listAlerts H d = list_handler (ht_Alert H) ''alerts'' (rp_List (rd_Alert d))"

definition getAlert :: "httplib \<Rightarrow> Reads \<Rightarrow> Request \<Rightarrow> Reply" where
  "getAlert H d = get_handler (ht_Alert H) ''alert'' ''/api/v1/alerts/'' (rp_Get (rd_Alert d))"

definition listIncidents :: "httplib \<Rightarrow> Reads \<Rightarrow> Request \<Rightarrow> Reply" where
  "listIncidents H d = list_handler (ht_Incident H) ''incidents'' (rp_List (rd_Incident d))"

definition getIncident :: "httplib \<Rightarrow> Reads \<Rightarrow> Request \<Rightarrow> Reply" where
  "getIncident H d = get_handler (ht_Incident H) ''incident'' ''/api/v1/incidents/'' (rp_Get (rd_Incident d))"

definition listRecommendations :: "httplib \<Rightarrow> Reads \<Rightarrow> Request \<Rightarrow> Reply" where
  "listRecommendations H d = list_handler (ht_Recommendation H) ''responses'' (rp_List (rd_Response d))"

definition getRecommendation :: "httplib \<Rightarrow> Reads \<Rightarrow> Request \<Rightarrow> Reply" where
  "getRecommendation H d = get_handler (ht_Recommendation H) ''recommendation'' ''/api/v1/recommendations/'' (rp_Get (rd_Response d))"

definition listApprovals :: "httplib \<Rightarrow> Reads \<Rightarrow> Request \<Rightarrow> Reply" where
  "listApprovals H d = list_handler (ht_Approval H) ''approvals'' (rp_List (rd_Approvals d))"

definition getApproval :: "httplib \<Rightarrow> Reads \<Rightarrow> Request \<Rightarrow> Reply" where
  "getApproval H d = get_handler (ht_Approval H) ''approval'' ''/api/v1/approvals/'' (rp_Get (rd_Approvals d))"

definition listExecutions :: "httplib \<Rightarrow> Reads \<Rightarrow> Request \<Rightarrow> Reply" where
  "listExecutions H d = list_handler (ht_Execution H) ''executions'' (rp_List (rd_Executions d))"

definition getExecution :: "httplib \<Rightarrow> Reads \<Rightarrow> Request \<Rightarrow> Reply" where
  "getExecution H d = get_handler (ht_Execution H) ''execution'' ''/api/v1/executions/'' (rp_Get (rd_Executions d))"

definition listVerifications :: "httplib \<Rightarrow> Reads \<Rightarrow> Request \<Rightarrow> Reply" where
  "listVerifications H d = list_handler (ht_Verification H) ''verifications'' (rp_List (rd_Verifications d))"

definition getVerification :: "httplib \<Rightarrow> Reads \<Rightarrow> Request \<Rightarrow> Reply" where
  "getVerification H d = get_handler (ht_Verification H) ''verification'' ''/api/v1/verifications/'' (rp_Get (rd_Verifications d))"

definition getValidationRequest :: "httplib \<Rightarrow> Reads \<Rightarrow> Request \<Rightarrow> Reply" where
  "getValidationRequest H d = get_handler (ht_ValidationRequest H) ''validation request'' ''/api/v1/validation-requests/'' (rd_ValidationRequest d)"

definition listValidationResults :: "httplib \<Rightarrow> Reads \<Rightarrow> Request \<Rightarrow> Reply" where
  "listValidationResults H d = list_handler (ht_ValidationResult H) ''validation results'' (rp_List (rd_ValidationResults d))"

definition getValidationResult :: "httplib \<Rightarrow> Reads \<Rightarrow> Request \<Rightarrow> Reply" where
  "getValidationResult H d = get_handler (ht_ValidationResult H) ''validation result'' ''/api/v1/validation-results/'' (rp_Get (rd_ValidationResults d))"

definition write_evidence :: "httplib \<Rightarrow> Evidence list \<Rightarrow> Reply" where
  "write_evidence H items =
     (case marshal_all (ht_Evidence H) items of
        None \<Rightarrow> bad_serialization
      | Some raw \<Rightarrow> writeJSON 200 (JObj [(''data'', JArr raw), (''integrity'', JStr ''verified'')]))"

definition listEvidence :: "httplib \<Rightarrow> Reads \<Rightarrow> Request \<Rightarrow> Reply" where
  "listEvidence H d r = requireGET r
     (let incidentID = attr (rq_Query r) ''incident'' in
      if incidentID \<noteq> [] then
        (case rd_EvidenceByIncident d incidentID of
           Inl e \<Rightarrow> mapListError e ''evidence''
         | Inr [] \<Rightarrow>
             (case rp_Get (rd_Incident d) incidentID of
                Inl e \<Rightarrow> mapError e ''incident'' incidentID
              | Inr _ \<Rightarrow> write_evidence H [])
         | Inr (x # xs) \<Rightarrow> write_evidence H (x # xs))
      else
        (case rp_List (rd_Evidence d) of Inl e \<Rightarrow> mapListError e ''evidence'' | Inr items \<Rightarrow> write_evidence H items))"

definition getEvidence :: "httplib \<Rightarrow> Reads \<Rightarrow> Request \<Rightarrow> Reply" where
  "getEvidence H d r = requireGET r
     (case idFromPath (rq_Path r) ''/api/v1/evidence/'' of
        None \<Rightarrow> bad_request ''missing id''
      | Some i \<Rightarrow>
         (case rp_Get (rd_Evidence d) i of
            Inl e \<Rightarrow> mapError e ''evidence'' i
          | Inr item \<Rightarrow>
             (case ht_Evidence H item of
                None \<Rightarrow> bad_serialization
              | Some data \<Rightarrow> writeJSON 200 (JObj [(''data'', JRaw data), (''integrity'', JStr ''verified'')]))))"

definition RiskLevel_String :: "enum \<Rightarrow> string" where
  "RiskLevel_String v =
     (if 0 \<le> v \<and> v \<le> 4 then ''RISK_LEVEL_'' @ [''UNSPECIFIED'', ''LOW'', ''MEDIUM'', ''HIGH'', ''CRITICAL''] ! nat v else itoa v)"

definition auditToJSON :: "ArchivedEntry \<Rightarrow> json" where
  "auditToJSON e = JObj [
     (''id'', JStr (ae_ID e)), (''decided_at'', JStr (format_RFC3339Nano (ae_DecidedAt e))), (''actor'', JStr (ae_Actor e)),
     (''operation'', JStr (enum_String OperationType_name (ae_Operation e))), (''risk'', JStr (RiskLevel_String (ae_Risk e))),
     (''decision'', JStr (ae_Decision e)), (''reason'', JStr (ae_Reason e)), (''result'', JStr (ae_Result e)),
     (''response_id'', JStr (ae_ResponseID e)), (''phase'', JStr (ae_Phase e))]"

definition listAudit :: "Reads \<Rightarrow> Request \<Rightarrow> Reply" where
  "listAudit d r = requireGET r
     (case rp_List (rd_Audit d) of
        Inl e \<Rightarrow> mapListError e ''audit''
      | Inr items \<Rightarrow> writeJSON 200 (JObj [(''data'', JArr (map auditToJSON items))]))"

definition getAudit :: "Reads \<Rightarrow> Request \<Rightarrow> Reply" where
  "getAudit d r = requireGET r
     (case idFromPath (rq_Path r) ''/api/v1/audit/'' of
        None \<Rightarrow> bad_request ''missing id''
      | Some i \<Rightarrow>
         (case rp_Get (rd_Audit d) i of
            Inl e \<Rightarrow> mapError e ''audit'' i
          | Inr item \<Rightarrow> writeJSON 200 (JObj [(''data'', auditToJSON item)])))"

subsection \<open>Assets\<close>

definition AssetType_value :: "string \<Rightarrow> enum option" where
  "AssetType_value = map_of (zip (map (\<lambda>n. ''ASSET_TYPE_'' @ n)
     [''UNSPECIFIED'', ''HOST'', ''CONTAINER'', ''SERVICE'', ''NETWORK'', ''CLOUD_RESOURCE'', ''USER_DEVICE'', ''OTHER'', ''DOMAIN'',
      ''IP_ADDRESS'', ''URL'', ''APPLICATION'']) [0, 1, 2, 3, 4, 5, 6, 7, 8, 9, 10, 11])"

definition AssetStatus_value :: "string \<Rightarrow> enum option" where
  "AssetStatus_value = map_of (zip (map (\<lambda>n. ''ASSET_STATUS_'' @ n)
     [''UNSPECIFIED'', ''DISCOVERED'', ''ACTIVE'', ''STALE'', ''RETIRED'']) [0, 1, 2, 3, 4])"

text \<open>A filter of the list: the wanted value, absent when the parameter is absent.\<close>

definition wanted :: "(string \<Rightarrow> enum option) \<Rightarrow> string \<Rightarrow> enum option option" where
  "wanted values s =
     (if s = [] then Some None
      else (case values s of None \<Rightarrow> None | Some v \<Rightarrow> if v = 0 then None else Some (Some v)))"

definition keep_asset :: "enum option \<Rightarrow> enum option \<Rightarrow> string \<Rightarrow> Asset \<Rightarrow> bool" where
  "keep_asset t status search a \<longleftrightarrow>
     (case t of None \<Rightarrow> True | Some v \<Rightarrow> as_type a = v) \<and> (case status of None \<Rightarrow> True | Some v \<Rightarrow> as_status a = v) \<and>
     (search \<noteq> [] \<longrightarrow> contains (ToLower (as_id a)) search \<or> contains (ToLower (as_name a)) search)"

definition assetsRoot :: "httplib \<Rightarrow> Asset list res \<Rightarrow> Request \<Rightarrow> Reply" where
  "assetsRoot H found r = requireGET r
     (case wanted AssetType_value (attr (rq_Query r) ''type'') of
        None \<Rightarrow> bad_request ''unknown asset type''
      | Some t \<Rightarrow>
         (case wanted AssetStatus_value (attr (rq_Query r) ''status'') of
            None \<Rightarrow> bad_request ''unknown asset status''
          | Some status \<Rightarrow>
             (case found of
                Inl e \<Rightarrow> mapListError e ''assets''
              | Inr items \<Rightarrow>
                  writeProtoList (ht_Asset H) (filter (keep_asset t status (ToLower (attr (rq_Query r) ''q''))) items))))"

definition relationshipToJSON :: "Relationship \<Rightarrow> json" where
  "relationshipToJSON r = JObj [
     (''parent_id'', JStr (rel_ParentID r)), (''child_id'', JStr (rel_ChildID r)), (''kind'', JStr (rel_Kind r)),
     (''source'', JStr (rel_Source r)), (''observed_at'', JStr (format_RFC3339Nano (rel_ObservedAt r)))]"

definition assetRelationships :: "('s, 'r, 'o) Backend \<Rightarrow> string \<Rightarrow> ('s, 'r, 'o) served \<Rightarrow> Reply" where
  "assetRelationships B i st =
     (case st of (s, rl, _) \<Rightarrow>
      case st_Get (be_Assets B) i s of
        Inl e \<Rightarrow> mapError e ''asset'' i
      | Inr _ \<Rightarrow>
         (case be_Children B i rl of
            Inl e \<Rightarrow> mapListError e ''relationships''
          | Inr children \<Rightarrow>
             (case be_Parents B i rl of
                Inl e \<Rightarrow> mapListError e ''relationships''
              | Inr parents \<Rightarrow>
                  writeJSON 200 (JObj [(''data'', JObj [(''parents'', JArr (map relationshipToJSON parents)),
                                                        (''children'', JArr (map relationshipToJSON children))])]))))"

definition assetMatchKeys :: "Asset \<Rightarrow> string list" where
  "assetMatchKeys a = as_id a # as_name a # map ai_value (as_identifiers a)"

definition assetTelemetry :: "httplib \<Rightarrow> ('s, 'r, 'o) Backend \<Rightarrow> string \<Rightarrow> ('s, 'r, 'o) served \<Rightarrow> Reply" where
  "assetTelemetry H B i st =
     (case st of (s, _, x) \<Rightarrow>
      case st_Get (be_Assets B) i s of
        Inl e \<Rightarrow> mapError e ''asset'' i
      | Inr a \<Rightarrow>
         (case rp_List (rd_Telemetry (be_Reads B x)) of
            Inl e \<Rightarrow> mapListError e ''telemetry''
          | Inr events \<Rightarrow>
              writeProtoList (ht_Telemetry H) (filter (\<lambda>e. te_asset_id e \<in> set (assetMatchKeys a)) events)))"

text \<open>The stored objects one link further: those that refer to one of the ids.\<close>

definition linked :: "('a \<Rightarrow> string list) \<Rightarrow> string list \<Rightarrow> 'a list \<Rightarrow> 'a list" where
  "linked refs ids items = filter (\<lambda>x. list_ex (\<lambda>i. i \<in> set ids) (refs x)) items"

definition write_findings :: "httplib \<Rightarrow> Detection list \<Rightarrow> Alert list \<Rightarrow> Incident list \<Rightarrow> Reply" where
  "write_findings H ds als is =
     (case (marshal_all (ht_Detection H) ds, marshal_all (ht_Alert H) als, marshal_all (ht_Incident H) is) of
        (Some d, Some a, Some i) \<Rightarrow>
          writeJSON 200 (JObj [(''data'', JObj [(''detections'', JArr d), (''alerts'', JArr a), (''incidents'', JArr i)])])
      | _ \<Rightarrow> bad_serialization)"

definition assetFindings :: "httplib \<Rightarrow> ('s, 'r, 'o) Backend \<Rightarrow> string \<Rightarrow> ('s, 'r, 'o) served \<Rightarrow> Reply" where
  "assetFindings H B i st =
     (case st of (s, _, x) \<Rightarrow> let d = be_Reads B x in
      case st_Get (be_Assets B) i s of
        Inl e \<Rightarrow> mapError e ''asset'' i
      | Inr a \<Rightarrow>
         (case rp_List (rd_Telemetry d) of
            Inl e \<Rightarrow> mapListError e ''telemetry''
          | Inr events \<Rightarrow>
             (let eventIDs = map te_id (filter (\<lambda>e. te_asset_id e \<in> set (assetMatchKeys a)) events) in
              case rp_List (rd_Detection d) of
                Inl e \<Rightarrow> mapListError e ''detections''
              | Inr detections \<Rightarrow>
                 (let dets = linked det_telemetry_event_ids eventIDs detections in
                  case rp_List (rd_Alert d) of
                    Inl e \<Rightarrow> mapListError e ''alerts''
                  | Inr alerts \<Rightarrow>
                     (let als = linked al_detection_ids (map det_id dets) alerts in
                      case rp_List (rd_Incident d) of
                        Inl e \<Rightarrow> mapListError e ''incidents''
                      | Inr incidents \<Rightarrow>
                          write_findings H dets als (linked inc_alert_ids (map al_id als) incidents))))))"

subsection \<open>The two writing handlers\<close>

definition postObservation ::
  "httplib \<Rightarrow> pblib \<Rightarrow> urllib \<Rightarrow> ('s, 'r, 'o) Backend \<Rightarrow> gotime \<Rightarrow> Request \<Rightarrow> ('s, 'r, 'o) served \<Rightarrow> Reply \<times> ('s, 'r, 'o) served" where
  "postObservation H L U B now r st =
     (if rq_Method r \<noteq> ''POST'' then (not_allowed ''POST only here'', st)
      else (case ht_DecodeObservation H (rq_Body r) of
        None \<Rightarrow> (bad_request ''invalid JSON body'', st)
      | Some body \<Rightarrow>
         (case AssetType_value (or_Type body) of
            None \<Rightarrow> (bad_request ''unknown asset type'', st)
          | Some typ \<Rightarrow>
             if typ = 0 then (bad_request ''unknown asset type'', st)
             else (case ht_ParseTime H (or_ObservedAt body) of
               None \<Rightarrow> (bad_request ''observed_at must be RFC 3339'', st)
             | Some at \<Rightarrow>
                (case st of (s, rl, x) \<Rightarrow>
                 case asset_Ingest L U (be_Assets B) (be_Relationships B) now
                        \<lparr>ob_Source = or_Source body, ob_Type = typ, ob_Raw = or_Raw body, ob_ObservedAt = at,
                         ob_Environment = or_Environment body, ob_Attributes = or_Attributes body\<rparr> (s, rl) of
                   (Inl e, s1, rl1) \<Rightarrow> (bad_request (err_text e), (s1, rl1, x))
                 | (Inr (a, created), s1, rl1) \<Rightarrow>
                    (case ht_Asset H a of
                       None \<Rightarrow> (bad_serialization, (s1, rl1, x))
                     | Some data \<Rightarrow>
                         (writeJSON 201 (JObj [(''data'', JRaw data), (''created'', JBool created)]), (s1, rl1, x))))))))"

definition patchLifecycle ::
  "httplib \<Rightarrow> pblib \<Rightarrow> 's AssetStore \<Rightarrow> gotime \<Rightarrow> Request \<Rightarrow> string \<Rightarrow> 's \<Rightarrow> Reply \<times> 's" where
  "patchLifecycle H L S now r i s =
     (case ht_DecodeLifecycle H (rq_Body r) of
        None \<Rightarrow> (bad_request ''invalid JSON body'', s)
      | Some status \<Rightarrow>
         (case AssetStatus_value status of
            None \<Rightarrow> (bad_request ''unknown asset status'', s)
          | Some to \<Rightarrow>
             if to = 0 then (bad_request ''unknown asset status'', s)
             else (case st_Get S i s of
               Inl e \<Rightarrow> (mapError e ''asset'' i, s)
             | Inr a \<Rightarrow>
                (case asset_Transition L (Some a) to now of
                   Inl e \<Rightarrow> (writeError 400 ''INVALID_TRANSITION'' (err_text e), s)
                 | Inr b \<Rightarrow>
                    (case st_Save S (Some b) s of
                       (Some e, s1) \<Rightarrow> (mapError e ''asset'' i, s1)
                     | (None, s1) \<Rightarrow> (writeProtoItem (ht_Asset H) b, s1))))))"

text \<open>\<open>strings.Cut\<close> at the first slash.\<close>

fun cut_slash :: "string \<Rightarrow> string \<times> string" where
  "cut_slash [] = ([], [])"
| "cut_slash (c # cs) = (if c = CHR ''/'' then ([], cs) else (case cut_slash cs of (a, b) \<Rightarrow> (c # a, b)))"

definition assetSub ::
  "httplib \<Rightarrow> pblib \<Rightarrow> ('s, 'r, 'o) Backend \<Rightarrow> gotime \<Rightarrow> Request \<Rightarrow> ('s, 'r, 'o) served \<Rightarrow> Reply \<times> ('s, 'r, 'o) served" where
  "assetSub H L B now r st =
     (let rest = TrimPrefix (rq_Path r) ''/api/v1/assets/'' in
      if rest = [] \<or> rest = rq_Path r then (bad_request ''missing id'', st)
      else (case cut_slash rest of (i, sub) \<Rightarrow>
        if sub = [] then
          (requireGET r (case st_Get (be_Assets B) i (fst st) of
             Inl e \<Rightarrow> mapError e ''asset'' i | Inr item \<Rightarrow> writeProtoItem (ht_Asset H) item), st)
        else if sub = ''lifecycle'' then
          (if rq_Method r \<noteq> ''PATCH'' then (not_allowed ''lifecycle moves via PATCH only'', st)
           else (case st of (s, rest') \<Rightarrow>
                 case patchLifecycle H L (be_Assets B) now r i s of (p, s1) \<Rightarrow> (p, (s1, rest'))))
        else if sub = ''relationships'' then (requireGET r (assetRelationships B i st), st)
        else if sub = ''telemetry'' then (requireGET r (assetTelemetry H B i st), st)
        else if sub = ''findings'' then (requireGET r (assetFindings H B i st), st)
        else (writeError 404 ''NOT_FOUND'' ''unknown asset sub-resource'', st)))"

subsection \<open>The mux\<close>

datatype Route =
    Health | Ready | ListTelemetry | GetTelemetry | ListDetections | GetDetection | ListAlerts | GetAlert | ListIncidents | GetIncident
  | ListEvidence | GetEvidence | ListRecommendations | GetRecommendation | ListApprovals | GetApproval | ListExecutions
  | GetExecution | ListVerifications | GetVerification | GetValidationRequest | ListValidationResults | GetValidationResult
  | ListAudit | GetAudit | AssetsRoot | AssetSub | PostObservation

definition routes :: "(string \<times> Route) list" where
  "routes = map (\<lambda>(p, h). (''/api/v1/'' @ p, h)) [
     (''healthz'', Health), (''readyz'', Ready), (''telemetry'', ListTelemetry), (''telemetry/'', GetTelemetry),
     (''detections'', ListDetections), (''detections/'', GetDetection), (''alerts'', ListAlerts), (''alerts/'', GetAlert),
     (''incidents'', ListIncidents), (''incidents/'', GetIncident), (''evidence'', ListEvidence), (''evidence/'', GetEvidence),
     (''recommendations'', ListRecommendations), (''recommendations/'', GetRecommendation),
     (''approvals'', ListApprovals), (''approvals/'', GetApproval), (''executions'', ListExecutions), (''executions/'', GetExecution),
     (''verifications'', ListVerifications), (''verifications/'', GetVerification),
     (''validation-requests/'', GetValidationRequest), (''validation-results'', ListValidationResults),
     (''validation-results/'', GetValidationResult), (''audit'', ListAudit), (''audit/'', GetAudit),
     (''assets'', AssetsRoot), (''assets/'', AssetSub), (''assets/observations'', PostObservation)]"

text \<open>
  \<open>http.ServeMux\<close> on patterns without wildcards: a path that is not clean is redirected, an exact
  pattern wins, then the longest pattern that ends in a slash and is a prefix; a path that only
  lacks the final slash of a pattern is redirected, and everything else is not found.
\<close>

datatype matched = Matched Route | Redirected | Unmatched

definition clean_path :: "string \<Rightarrow> bool" where
  "clean_path p \<longleftrightarrow>
     (case split_on (CHR ''/'') p of
        [] # segs \<Rightarrow> segs \<noteq> [] \<and> list_all (\<lambda>s. s \<noteq> []) (butlast segs) \<and> list_all (\<lambda>s. s \<noteq> ''.'' \<and> s \<noteq> ''..'') segs
      | _ \<Rightarrow> False)"

definition longest_subtree :: "(string \<times> Route) list \<Rightarrow> string \<Rightarrow> Route option" where
  "longest_subtree table path =
     map_option snd (fold (\<lambda>(p, h) best.
        if has_suffix ''/'' p \<and> has_prefix p path \<and> (case best of None \<Rightarrow> True | Some (q, _) \<Rightarrow> length q < length p)
        then Some (p, h) else best) table None)"

definition mux_match :: "(string \<times> Route) list \<Rightarrow> string \<Rightarrow> matched" where
  "mux_match table path =
     (if \<not> clean_path path then Redirected
      else (case map_of table path of
              Some h \<Rightarrow> Matched h
            | None \<Rightarrow>
                if map_of table (path @ ''/'') \<noteq> None then Redirected
                else (case longest_subtree table path of Some h \<Rightarrow> Matched h | None \<Rightarrow> Unmatched)))"

definition route_handle ::
  "Status \<Rightarrow> httplib \<Rightarrow> pblib \<Rightarrow> urllib \<Rightarrow> ('s, 'r, 'o) Backend \<Rightarrow> gotime \<Rightarrow> Route \<Rightarrow> Request \<Rightarrow> ('s, 'r, 'o) served
    \<Rightarrow> Reply \<times> ('s, 'r, 'o) served" where
  "route_handle v H L U B now h r st =
     (let d = be_Reads B (snd (snd st)) in
      case h of
        PostObservation \<Rightarrow> postObservation H L U B now r st
      | AssetSub \<Rightarrow> assetSub H L B now r st
      | AssetsRoot \<Rightarrow> (assetsRoot H (be_AssetList B (fst st)) r, st)
      | Health \<Rightarrow> (handleHealth r, st)
      | Ready \<Rightarrow> (handleReady v r, st)
      | ListTelemetry \<Rightarrow> (listTelemetry H d r, st) | GetTelemetry \<Rightarrow> (getTelemetry H d r, st)
      | ListDetections \<Rightarrow> (listDetections H d r, st) | GetDetection \<Rightarrow> (getDetection H d r, st)
      | ListAlerts \<Rightarrow> (listAlerts H d r, st) | GetAlert \<Rightarrow> (getAlert H d r, st)
      | ListIncidents \<Rightarrow> (listIncidents H d r, st) | GetIncident \<Rightarrow> (getIncident H d r, st)
      | ListEvidence \<Rightarrow> (listEvidence H d r, st) | GetEvidence \<Rightarrow> (getEvidence H d r, st)
      | ListRecommendations \<Rightarrow> (listRecommendations H d r, st) | GetRecommendation \<Rightarrow> (getRecommendation H d r, st)
      | ListApprovals \<Rightarrow> (listApprovals H d r, st) | GetApproval \<Rightarrow> (getApproval H d r, st)
      | ListExecutions \<Rightarrow> (listExecutions H d r, st) | GetExecution \<Rightarrow> (getExecution H d r, st)
      | ListVerifications \<Rightarrow> (listVerifications H d r, st) | GetVerification \<Rightarrow> (getVerification H d r, st)
      | GetValidationRequest \<Rightarrow> (getValidationRequest H d r, st)
      | ListValidationResults \<Rightarrow> (listValidationResults H d r, st) | GetValidationResult \<Rightarrow> (getValidationResult H d r, st)
      | ListAudit \<Rightarrow> (listAudit d r, st) | GetAudit \<Rightarrow> (getAudit d r, st))"

definition mux_serve ::
  "Status \<Rightarrow> httplib \<Rightarrow> pblib \<Rightarrow> urllib \<Rightarrow> ('s, 'r, 'o) Backend \<Rightarrow> gotime \<Rightarrow> Request \<Rightarrow> ('s, 'r, 'o) served \<Rightarrow> Reply \<times> ('s, 'r, 'o) served" where
  "mux_serve v H L U B now r st =
     (case mux_match routes (rq_Path r) of
        Matched h \<Rightarrow> route_handle v H L U B now h r st
      | Redirected \<Rightarrow> (writeJSON 307 (JRaw ''redirect''), st)
      | Unmatched \<Rightarrow> (writeJSON 404 (JRaw ''404 page not found''), st))"

text \<open>
  The composed handler: observability around the gate when there is one, then the mux. It
  returns the reply, the state, the counters and the attributes of the access log. The gate and
  the handlers read their own clocks; the duration is what the two reads of \<open>wrap\<close> differ by.
\<close>

definition gated ::
  "Status \<Rightarrow> httplib \<Rightarrow> pblib \<Rightarrow> urllib \<Rightarrow> ('s, 'r, 'o) Backend \<Rightarrow> AuthGate option \<Rightarrow> gotime \<Rightarrow> gotime \<Rightarrow> Request \<Rightarrow> ('s, 'r, 'o) served
    \<Rightarrow> Reply \<times> ('s, 'r, 'o) served" where
  "gated v H L U B gate gate_now now r st =
     (case gate of
        None \<Rightarrow> mux_serve v H L U B now r st
      | Some g \<Rightarrow> gate_wrap g gate_now (mux_serve v H L U B now) r st)"

definition request_identity :: "AuthGate option \<Rightarrow> gotime \<Rightarrow> Request \<Rightarrow> Identity option" where
  "request_identity gate gate_now r =
     (case gate of None \<Rightarrow> None | Some g \<Rightarrow> (case gate_verdict g gate_now r of Pass i \<Rightarrow> i | Refuse _ \<Rightarrow> None))"

definition server_Handler ::
  "Status \<Rightarrow> httplib \<Rightarrow> pblib \<Rightarrow> urllib \<Rightarrow> ('s, 'r, 'o) Backend \<Rightarrow> AuthGate option \<Rightarrow> gotime \<Rightarrow> gotime \<Rightarrow> string \<Rightarrow> int \<Rightarrow> Request
    \<Rightarrow> ('s, 'r, 'o) served \<Rightarrow> Reply \<times> ('s, 'r, 'o) served \<times> ObsMetrics option \<times> (string \<times> logarg) list" where
  "server_Handler v H L U B gate gate_now now minted duration r st =
     (case gated v H L U B gate gate_now now r st of (p, st1) \<Rightarrow>
        (p, st1, map_option (count_reply (rp_Status p)) (sv_metrics v),
         access_log r (if rq_RequestID r = [] then minted else rq_RequestID r) (rp_Status p) duration
           (request_identity gate gate_now r)))"

end
