(* ===== verification/ApiClaims.thy ===== *)
theory ApiClaims
  imports ApiServer
begin

text \<open>
  The in-memory backend behind the API, and what the gate guarantees about it: which requests
  change the inventory, and who can send them; that a refusal reveals nothing of the store; and
  what the findings of an asset are.
\<close>

subsection \<open>The in-memory backend\<close>

record stores =
  so_telemetry :: "TelemetryEvent gomap"
  so_detections :: "Detection gomap"
  so_alerts :: "Alert gomap"
  so_incidents :: "Incident gomap"
  so_evidence :: "Evidence gomap"
  so_responses :: "Recommendation gomap"
  so_records :: memoryResponseRecords
  so_validation :: memoryValidation
  so_audit :: memoryAudit

definition memory_reads :: "stores \<Rightarrow> Reads" where
  "memory_reads x = \<lparr>
     rd_Telemetry = \<lparr>rp_List = Inr (memoryTelemetry_List (so_telemetry x)), rp_Get = (\<lambda>k. memoryTelemetry_Get k (so_telemetry x))\<rparr>,
     rd_Detection = \<lparr>rp_List = Inr (memoryDetection_List (so_detections x)), rp_Get = (\<lambda>k. memoryDetection_Get k (so_detections x))\<rparr>,
     rd_Alert = \<lparr>rp_List = Inr (memoryAlert_List (so_alerts x)), rp_Get = (\<lambda>k. memoryAlert_Get k (so_alerts x))\<rparr>,
     rd_Incident = \<lparr>rp_List = Inr (memoryIncident_List (so_incidents x)), rp_Get = (\<lambda>k. memoryIncident_Get k (so_incidents x))\<rparr>,
     rd_Evidence = \<lparr>rp_List = Inr (memoryEvidence_List (so_evidence x)), rp_Get = (\<lambda>k. memoryEvidence_Get k (so_evidence x))\<rparr>,
     rd_EvidenceByIncident = (\<lambda>k. Inr (memoryEvidence_ListByIncident k (so_evidence x))),
     rd_Response = \<lparr>rp_List = Inr (memoryResponse_List (so_responses x)), rp_Get = (\<lambda>k. memoryResponse_Get k (so_responses x))\<rparr>,
     rd_Approvals = \<lparr>rp_List = Inr (memoryResponseRecords_ListApprovals (so_records x)),
                     rp_Get = (\<lambda>k. memoryResponseRecords_GetApproval k (so_records x))\<rparr>,
     rd_Executions = \<lparr>rp_List = Inr (memoryResponseRecords_ListExecutions (so_records x)),
                      rp_Get = (\<lambda>k. memoryResponseRecords_GetExecution k (so_records x))\<rparr>,
     rd_Verifications = \<lparr>rp_List = Inr (memoryResponseRecords_ListVerifications (so_records x)),
                         rp_Get = (\<lambda>k. memoryResponseRecords_GetVerification k (so_records x))\<rparr>,
     rd_ValidationRequest = (\<lambda>k. memoryValidation_GetRequest k (so_validation x)),
     rd_ValidationResults = \<lparr>rp_List = Inr (memoryValidation_ListResults (so_validation x)),
                             rp_Get = (\<lambda>k. memoryValidation_GetResult k (so_validation x))\<rparr>,
     rd_Audit = \<lparr>rp_List = Inr (memoryAudit_List (so_audit x)), rp_Get = (\<lambda>k. memoryAudit_Get k (so_audit x))\<rparr> \<rparr>"

definition memory_backend :: "pblib \<Rightarrow> urllib \<Rightarrow> (Asset gomap, rel_map, stores) Backend" where
  "memory_backend L U = \<lparr>be_Assets = memory_assets L U, be_AssetList = (\<lambda>m. Inr (memoryAsset_List m)),
     be_Relationships = memoryRelationships_Append, be_Children = (\<lambda>i m. Inr (memoryRelationships_Children i m)),
     be_Parents = (\<lambda>i m. Inr (memoryRelationships_Parents i m)), be_Reads = memory_reads\<rparr>"

subsection \<open>Which handler serves a path\<close>

lemma longest_subtree_in:
  assumes "longest_subtree table path = Some h"
  shows "\<exists>p. (p, h) \<in> set table \<and> has_suffix ''/'' p \<and> has_prefix p path"
proof -
  define step where "step = (\<lambda>(p :: string, h :: Route) best. if has_suffix ''/'' p \<and> has_prefix p path \<and>
    (case best of None \<Rightarrow> True | Some (q, _ :: Route) \<Rightarrow> length q < length p) then Some (p, h) else best)"
  have fold: "fold step ts best = Some (p, h) \<Longrightarrow>
      best = Some (p, h) \<or> (p, h) \<in> set ts \<and> has_suffix ''/'' p \<and> has_prefix p path" for ts best p h
  proof (induction ts arbitrary: best)
    case (Cons t ts)
    then have "step t best = Some (p, h) \<or> (p, h) \<in> set ts \<and> has_suffix ''/'' p \<and> has_prefix p path" by simp
    then show ?case by (cases t) (auto simp: step_def split: if_splits)
  qed simp
  obtain p where "fold step table None = Some (p, h)"
    using assms by (auto simp: longest_subtree_def step_def)
  then show ?thesis using fold by blast
qed

lemma mux_match_Matched:
  "mux_match routes path = Matched h \<Longrightarrow> \<exists>p. (p, h) \<in> set routes \<and> (path = p \<or> has_suffix ''/'' p \<and> has_prefix p path)"
  by (auto simp: mux_match_def split: if_splits option.splits dest: map_of_SomeD longest_subtree_in)

lemma routes_post: "(p, PostObservation) \<in> set routes \<longleftrightarrow> p = ''/api/v1/assets/observations''"
  by (auto simp: routes_def)

lemma routes_sub: "(p, AssetSub) \<in> set routes \<longleftrightarrow> p = ''/api/v1/assets/''"
  by (auto simp: routes_def)

lemma routes_api: "(p, h) \<in> set routes \<Longrightarrow> has_prefix ''/api/v1/'' p"
  by (auto simp: routes_def)

lemma post_path: "mux_match routes path = Matched PostObservation \<Longrightarrow> path = ''/api/v1/assets/observations''"
  by (drule mux_match_Matched) (auto simp: routes_post has_suffix_def)

lemma sub_path: "mux_match routes path = Matched AssetSub \<Longrightarrow> has_prefix ''/api/v1/assets/'' path"
  by (drule mux_match_Matched) (auto simp: routes_sub)

lemma cut_slash_append: "cut_slash s = (a, b) \<Longrightarrow> b \<noteq> [] \<Longrightarrow> s = a @ CHR ''/'' # b"
  by (induction s arbitrary: a b) (auto split: if_splits prod.splits)

subsection \<open>What the handlers change\<close>

lemma route_handle_read_only: "route_handle v H L U B now h r st = (p, st1) \<Longrightarrow> st1 \<noteq> st \<Longrightarrow> h = PostObservation \<or> h = AssetSub"
  by (cases h) (auto simp: route_handle_def Let_def)

definition legal_move :: "Asset \<Rightarrow> Asset \<Rightarrow> bool" where
  "legal_move a b \<longleftrightarrow> as_status b \<in> set (nextStates (as_status a)) \<and> b = a\<lparr>as_status := as_status b, as_last_seen := as_last_seen b\<rparr>"

lemma asset_Transition_legal: "asset_Transition L (Some a) to now = Inr b \<Longrightarrow> legal_move a b \<and> as_id b = as_id a"
  by (auto simp: asset_Transition_def legal_move_def split: if_splits)

lemma patchLifecycle_moves:
  assumes "patchLifecycle H L (memory_assets L U) now r k m = (p, m1)" and "m1 \<noteq> m" and "keyed as_id m"
  shows "\<exists>a b. fmlookup m k = Some a \<and> legal_move a b \<and> m1 = fmupd k b m"
proof -
  obtain a b to where a: "st_Get (memory_assets L U) k m = Inr a" and b: "asset_Transition L (Some a) to now = Inr b"
    and sv: "m1 = snd (st_Save (memory_assets L U) (Some b) m)" "fst (st_Save (memory_assets L U) (Some b) m) = None"
  proof -
    show thesis using assms(1,2) that inventory.save_refused [of L U]
      by (auto simp: patchLifecycle_def split: option.splits sum.splits if_splits prod.splits)
  qed
  have l: "fmlookup m k = Some a" using a inventory.get_Inr by blast
  have i: "as_id b = k" using asset_Transition_legal [OF b] l assms(3) by (simp add: keyed_def)
  have "m1 = fmupd (as_id b) b m"
    using inventory.saved [of L U b m m1] sv by (metis prod.collapse)
  then show ?thesis using l asset_Transition_legal [OF b] i by auto
qed

lemma assetSub_moves:
  assumes "assetSub H L (memory_backend L U) now r (s, rl, x) = (p, s1, rl1, x1)" and "(s1, rl1, x1) \<noteq> (s, rl, x)" and "keyed as_id s"
    and "has_prefix ''/api/v1/assets/'' (rq_Path r)"
  shows "rl1 = rl \<and> x1 = x \<and> rq_Method r = ''PATCH'' \<and>
    (\<exists>k a b. rq_Path r = ''/api/v1/assets/'' @ k @ ''/lifecycle'' \<and> fmlookup s k = Some a \<and> legal_move a b \<and> s1 = fmupd k b s)"
proof -
  define rest where "rest = TrimPrefix (rq_Path r) ''/api/v1/assets/''"
  obtain k sub where cut: "cut_slash rest = (k, sub)" by fastforce
  have sub: "sub = ''lifecycle''" "rq_Method r = ''PATCH''" and rl: "rl1 = rl" "x1 = x"
    and m: "patchLifecycle H L (memory_assets L U) now r k s = (p, s1)"
    using assms(1,2) cut by (auto simp: assetSub_def rest_def [symmetric] Let_def memory_backend_def split: if_splits prod.splits)
  have "rest = k @ ''/lifecycle''" using cut_slash_append [OF cut] sub(1) by simp
  moreover have "rq_Path r = ''/api/v1/assets/'' @ rest"
    using assms(4) by (auto simp: rest_def TrimPrefix_def has_prefix_iff)
  ultimately have "rq_Path r = ''/api/v1/assets/'' @ k @ ''/lifecycle''" by simp
  then show ?thesis using patchLifecycle_moves [OF m _ assms(3)] assms(2) rl sub(2) by blast
qed

text \<open>The relationships only grow under an ingest.\<close>

definition rels_grow :: "rel_map \<Rightarrow> rel_map \<Rightarrow> bool" where
  "rels_grow m m1 \<longleftrightarrow> (\<forall>k l. fmlookup m k = Some l \<longrightarrow> fmlookup m1 k = Some l)"

lemma append_links_grow: "append_links memoryRelationships_Append ls m = (e, m1) \<Longrightarrow> rels_grow m m1"
proof (induction ls arbitrary: m)
  case (Cons l ls)
  obtain e2 m2 where a: "memoryRelationships_Append l m = (e2, m2)" by fastforce
  have "rels_grow m m2" using a
    by (auto simp: memoryRelationships_Append_def rels_grow_def split: option.splits if_splits)
  moreover have "m1 = m2 \<or> rels_grow m2 m1" using Cons a by (auto split: option.splits if_splits)
  ultimately show ?case by (auto simp: rels_grow_def)
qed (simp add: rels_grow_def)

lemma asset_Ingest_rels:
  assumes "asset_Ingest L U S memoryRelationships_Append now obs (s, rl) = (out, s1, rl1)"
  shows "rels_grow rl rl1"
proof -
  have "rl1 = rl \<or> (\<exists>e ls. append_links memoryRelationships_Append ls rl = (e, rl1))"
    using assms by (auto simp: asset_Ingest_def split: if_splits sum.splits option.splits prod.splits)
  then show ?thesis using append_links_grow by (auto simp: rels_grow_def)
qed

lemma postObservation_moves:
  assumes "postObservation H L U (memory_backend L U) now r (s, rl, x) = (p, s1, rl1, x1)" and "(s1, rl1, x1) \<noteq> (s, rl, x)" and "keyed as_id s"
  shows "x1 = x \<and> rq_Method r = ''POST'' \<and> inventory_kept s s1 \<and> rels_grow rl rl1"
proof -
  obtain obs out where i: "asset_Ingest L U (memory_assets L U) memoryRelationships_Append now obs (s, rl) = (out, s1, rl1)"
    and x: "x1 = x" "rq_Method r = ''POST''"
  proof -
    show thesis using assms(1,2) that
      by (auto simp: postObservation_def memory_backend_def split: if_splits option.splits sum.splits prod.splits)
  qed
  show ?thesis using inventory.ingest_kept [OF i] assms(3) asset_Ingest_rels [OF i] x by blast
qed


subsection \<open>A closed example\<close>

definition ex_bcrypt :: bcrypt where
  "ex_bcrypt = \<lparr>bc_CostOk = (\<lambda>h. h \<noteq> []), bc_Matches = (\<lambda>h s. h = s)\<rparr>"

definition ex_keys :: "Key list" where
  "ex_keys = [\<lparr>key_ID = ''ops'', key_Role = RoleRead, key_Hash = ''r1'', key_ExpiresAt = zero_time\<rparr>,
     \<lparr>key_ID = ''root'', key_Role = RoleAdmin, key_Hash = ''a1'', key_ExpiresAt = 100\<rparr>]"

definition ex_http :: httplib where
  "ex_http = \<lparr>ht_DecodeObservation = (\<lambda>_. None), ht_DecodeLifecycle = Some, ht_ParseTime = (\<lambda>_. None),
     ht_Telemetry = (\<lambda>_. Some ''{}''), ht_Detection = (\<lambda>_. Some ''{}''), ht_Alert = (\<lambda>_. Some ''{}''), ht_Incident = (\<lambda>_. Some ''{}''),
     ht_Evidence = (\<lambda>_. Some ''{}''), ht_Recommendation = (\<lambda>_. Some ''{}''), ht_Approval = (\<lambda>_. Some ''{}''),
     ht_Execution = (\<lambda>_. Some ''{}''), ht_Verification = (\<lambda>_. Some ''{}''), ht_ValidationRequest = (\<lambda>_. Some ''{}''),
     ht_ValidationResult = (\<lambda>_. Some ''{}''), ht_Asset = (\<lambda>_. Some ''{}'')\<rparr>"

definition ex_status :: Status where
  "ex_status = \<lparr>sv_unserving = False, sv_health = None, sv_metrics = None\<rparr>"

definition ex_patch :: "string \<Rightarrow> Request" where
  "ex_patch key = \<lparr>rq_Method = ''PATCH'', rq_Path = ''/api/v1/assets/h1/lifecycle'', rq_Authorization = ''Bearer '' @ key,
     rq_RequestID = [], rq_Query = fmempty, rq_Body = ''ASSET_STATUS_ACTIVE''\<rparr>"

definition ex_stored :: Asset where
  "ex_stored = ex_host\<lparr>as_id := ''h1''\<rparr>"

lemma ex_keys_ok: "NewAPIKeyAuthenticator ex_bcrypt ex_keys False = Inr ex_keys"
proof -
  have "TrimSpace ''ops'' = ''ops''" "TrimSpace ''root'' = ''root''" by code_simp+
  then show ?thesis by (simp add: NewAPIKeyAuthenticator_def ex_keys_def ex_bcrypt_def ValidRole_def fail_if_def)
qed

lemma ex_authenticated: "Authenticate ex_bcrypt ex_keys 50 (ex_patch ''a1'') = Inr \<lparr>id_KeyID = ''root'', id_Role = RoleAdmin\<rparr>"
proof -
  have "TrimSpace ''a1'' = ''a1''" by code_simp
  then show ?thesis
    by (simp add: Authenticate_def bearerSecret_def ex_patch_def ex_keys_def ex_bcrypt_def IsZero_def zero_time_def)
qed

lemma ex_patched:
  "gated ex_status ex_http example_pb U (memory_backend example_pb U) (Some (UseAuth (Authenticate ex_bcrypt ex_keys) [])) 50 60
     (ex_patch ''a1'') (fmupd ''h1'' ex_stored fmempty, fmempty, x) =
   (writeProtoItem (ht_Asset ex_http) (ex_stored\<lparr>as_status := ASSET_STATUS_ACTIVE, as_last_seen := Some (ts_New example_pb 60)\<rparr>),
    fmupd ''h1'' (ex_stored\<lparr>as_status := ASSET_STATUS_ACTIVE, as_last_seen := Some (ts_New example_pb 60)\<rparr>) (fmupd ''h1'' ex_stored fmempty), fmempty, x)"
proof -
  let ?b = "ex_stored\<lparr>as_status := ASSET_STATUS_ACTIVE, as_last_seen := Some (ts_New example_pb 60)\<rparr>"
  have m: "mux_match routes ''/api/v1/assets/h1/lifecycle'' = Matched AssetSub" by code_simp
  have c: "CapabilityFor ''PATCH'' ''/api/v1/assets/h1/lifecycle'' = Some RoleAdmin" by code_simp
  have r: "TrimPrefix ''/api/v1/assets/h1/lifecycle'' ''/api/v1/assets/'' = ''h1/lifecycle''" by code_simp
  have st: "AssetStatus_value ''ASSET_STATUS_ACTIVE'' = Some ASSET_STATUS_ACTIVE" by code_simp
  have p: "gate_verdict (UseAuth (Authenticate ex_bcrypt ex_keys) []) 50 (ex_patch ''a1'') = Pass (Some \<lparr>id_KeyID = ''root'', id_Role = RoleAdmin\<rparr>)"
    using ex_authenticated c by (simp add: gate_verdict_def UseAuth_def Sufficient_def roleRank_def) (simp add: ex_patch_def Sufficient_def roleRank_def)
  have q: "rq_Method (ex_patch k) = ''PATCH''" "rq_Path (ex_patch k) = ''/api/v1/assets/h1/lifecycle''" for k by (simp_all add: ex_patch_def)
  have z: "\<not> IsZero 60" by (simp add: IsZero_def zero_time_def)
  have f: "as_status ex_stored = ASSET_STATUS_DISCOVERED" "as_type ex_stored = ASSET_TYPE_HOST" "as_name ex_stored = ''web01''" "as_id ex_stored = ''h1''"
    by (simp_all add: ex_stored_def ex_host_def discovered_def ex_obs_def)
  have "ValidateAsset example_pb (Some ?b) = None"
    by (simp add: ValidateAsset_def ex_stored_def ex_host_def discovered_def ex_obs_def boundary asset_IDFor_def IdentifierKind_def AssetType_known_def
      AssetStatus_known_def example_pb_def)
  then have ck: "asset_check example_pb U (Some ?b) = None" using f by (intro ex_check) simp_all
  have "patchLifecycle ex_http example_pb (memory_assets example_pb U) 60 (ex_patch ''a1'') ''h1'' (fmupd ''h1'' ex_stored fmempty) =
      (writeProtoItem (ht_Asset ex_http) ?b, fmupd ''h1'' ?b (fmupd ''h1'' ex_stored fmempty))"
    using st z f ck
    by (simp add: patchLifecycle_def ex_http_def ex_patch_def memory_assets_def memoryAsset_Get_def get_item_def asset_Transition_def
      nextStates_def memoryAsset_Save_def sortedIDs_def)
  then have sub: "assetSub ex_http example_pb (memory_backend example_pb U) 60 (ex_patch ''a1'') (fmupd ''h1'' ex_stored fmempty, fmempty, x) =
      (writeProtoItem (ht_Asset ex_http) ?b, fmupd ''h1'' ?b (fmupd ''h1'' ex_stored fmempty), fmempty, x)"
    using r q by (simp add: assetSub_def memory_backend_def)
  have "mux_serve ex_status ex_http example_pb U (memory_backend example_pb U) 60 (ex_patch ''a1'') (fmupd ''h1'' ex_stored fmempty, fmempty, x) =
      assetSub ex_http example_pb (memory_backend example_pb U) 60 (ex_patch ''a1'') (fmupd ''h1'' ex_stored fmempty, fmempty, x)"
    using m q by (simp add: mux_serve_def route_handle_def)
  then show ?thesis unfolding sub by (simp add: gated_def gate_wrap_def p)
qed

subsection \<open>The properties\<close>

lemma gated_Some:
  "gated v H L U B (Some g) t now r st =
     (case gate_verdict g t r of Refuse p \<Rightarrow> (p, st) | Pass _ \<Rightarrow> mux_serve v H L U B now r st)"
  by (simp add: gated_def gate_wrap_def)

lemma admin_rank: "4 \<le> roleRank role \<longleftrightarrow> role = RoleAdmin"
  by (simp add: roleRank_def)



text \<open>
  A refusal reveals nothing: a request for a path of the API that is neither a health route
  nor configured as public is served only to an identity the authenticator accepted and whose
  role suffices for the route; every other such request gets status 401 or 403, changes nothing,
  and gets the same reply whatever is in the store.
\<close>

theorem refusal_independent_of_store:
  assumes "has_prefix ''/api/'' (rq_Path r)" and "rq_Path r \<notin> set public"
    and "rq_Path r \<notin> {''/api/v1/healthz'', ''/api/v1/readyz''}"
  shows "\<exists>role. CapabilityFor (rq_Method r) (rq_Path r) = Some role \<and> ValidRole role \<and>
    ((\<exists>i. auth t r = Inr i \<and> Sufficient (id_Role i) role \<and>
        gated v H L U B (Some (UseAuth auth public)) t now r st = mux_serve v H L U B now r st) \<or>
     (\<exists>p. rp_Status p \<in> {401, 403} \<and> (\<forall>B st. gated v H L U B (Some (UseAuth auth public)) t now r st = (p, st))))"
proof -
  have "\<exists>role. CapabilityFor (rq_Method r) (rq_Path r) = Some role \<and> ValidRole role"
    using assms(1,3) by (simp add: CapabilityFor_def ValidRole_def)
  then obtain role where role: "CapabilityFor (rq_Method r) (rq_Path r) = Some role" "ValidRole role" by blast
  have pub: "rq_Path r \<notin> set (ga_public (UseAuth auth public))" using assms(2,3) by (auto simp: UseAuth_def)
  have auth: "ga_auth (UseAuth auth public) = auth" by (simp add: UseAuth_def)
  show ?thesis
  proof (cases "auth t r")
    case (Inl e)
    have "rp_Status (refusal e) = 401" by (simp add: refusal_def writeError_def writeJSON_def)
    moreover have "gate_verdict (UseAuth auth public) t r = Refuse (refusal e)" using Inl role pub by (simp add: gate_verdict_def auth)
    ultimately show ?thesis using role by (auto simp: gated_Some)
  next
    case (Inr i)
    show ?thesis
    proof (cases "Sufficient (id_Role i) role")
      case True
      then have "gate_verdict (UseAuth auth public) t r = Pass (Some i)" using Inr role pub by (simp add: gate_verdict_def auth)
      then show ?thesis using Inr role True by (auto simp: gated_Some)
    next
      case False
      let ?p = "writeError 403 ''FORBIDDEN'' (''role '' @ id_Role i @ '' may not perform this operation'')"
      have "gate_verdict (UseAuth auth public) t r = Refuse ?p" using Inr role pub False by (simp add: gate_verdict_def auth)
      moreover have "rp_Status ?p = 403" by (simp add: writeError_def writeJSON_def)
      ultimately show ?thesis using role by (auto simp: gated_Some)
    qed
  qed
qed

theorem refusal_independent_of_store_witness:
  "\<exists>p. rp_Status p \<in> {401, 403} \<and>
     (\<forall>B st. gated ex_status ex_http example_pb (\<lambda>_. None) B (Some (UseAuth (Authenticate ex_bcrypt ex_keys) [])) 50 60 (ex_patch ''r1'') st = (p, st))"
proof -
  have t: "TrimSpace ''r1'' = ''r1''" and c: "CapabilityFor ''PATCH'' ''/api/v1/assets/h1/lifecycle'' = Some RoleAdmin"
    "has_prefix ''/api/'' ''/api/v1/assets/h1/lifecycle''" by code_simp+
  have a: "Authenticate ex_bcrypt ex_keys 50 (ex_patch ''r1'') = Inr \<lparr>id_KeyID = ''ops'', id_Role = RoleRead\<rparr>"
    using t by (simp add: Authenticate_def bearerSecret_def ex_patch_def ex_keys_def ex_bcrypt_def IsZero_def)
  have s: "\<not> Sufficient RoleRead RoleAdmin" by code_simp
  have q: "rq_Method (ex_patch ''r1'') = ''PATCH''" "rq_Path (ex_patch ''r1'') = ''/api/v1/assets/h1/lifecycle''" by (simp_all add: ex_patch_def)
  show ?thesis
    using refusal_independent_of_store [of "ex_patch ''r1''" "[]" "Authenticate ex_bcrypt ex_keys" 50 ex_status ex_http example_pb "\<lambda>_. None" _ 60] q c a s
    by auto
qed

text \<open>
  A key authenticates only with its own secret and before its end: an identity is returned
  exactly when the request carries a bearer secret, the first configured key whose hash matches
  this secret has no end or one that has not come, and the identity is that key's id and role.
  The keys the constructor accepts have distinct ids and known roles, so the role decides.
\<close>

theorem authentication_exact:
  assumes "NewAPIKeyAuthenticator B keys False = Inr ks"
  shows "(Authenticate B ks now r = Inr i \<longleftrightarrow>
      (\<exists>secret k. bearerSecret r = Inr secret \<and> find (\<lambda>k. bc_Matches B (key_Hash k) secret) keys = Some k \<and>
        (IsZero (key_ExpiresAt k) \<or> now < key_ExpiresAt k) \<and> i = \<lparr>id_KeyID = key_ID k, id_Role = key_Role k\<rparr>)) \<and>
    (Authenticate B ks now r = Inr i \<longrightarrow> ValidRole (id_Role i) \<and> (\<exists>!k. k \<in> set keys \<and> key_ID k = id_KeyID i)) \<and>
    (\<forall>e. Authenticate B ks now r = Inl e \<longrightarrow>
      errors_Is e (Auth ErrMissingCredentials) \<or> errors_Is e (Auth ErrInvalidCredentials) \<or> errors_Is e (Auth ErrExpiredCredential))"
proof -
  have ks: "ks = keys" and c: "check_keys B [] keys = None"
    using assms by (auto simp: NewAPIKeyAuthenticator_def split: option.splits)
  have "check_keys B seen xs = None \<Longrightarrow> distinct (map key_ID xs) \<and> set (map key_ID xs) \<inter> set seen = {} \<and>
      (\<forall>k \<in> set xs. ValidRole (key_Role k))" for seen xs
  proof (induction xs arbitrary: seen)
    case (Cons k xs)
    then have "check_keys B (key_ID k # seen) xs = None" "key_ID k \<notin> set seen" "ValidRole (key_Role k)"
      by (auto simp: fail_if_def split: option.splits if_splits)
    then show ?case using Cons.IH [of "key_ID k # seen"] by auto
  qed simp
  then have keys: "distinct (map key_ID keys)" "\<forall>k \<in> set keys. ValidRole (key_Role k)" using c by blast+
  have unique: "\<exists>!k'. k' \<in> set keys \<and> key_ID k' = key_ID k" if "k \<in> set keys" for k
    using that keys(1) by (auto simp: distinct_map inj_on_def)
  have found: "k \<in> set keys" if "find P keys = Some k" for P k using that by (auto simp: find_Some_iff)
  have err: "errors_Is e (Auth ErrMissingCredentials) \<or> errors_Is e (Auth ErrInvalidCredentials) \<or> errors_Is e (Auth ErrExpiredCredential)"
    if "Authenticate B keys now r = Inl e" for e
    using that by (auto simp: Authenticate_def bearerSecret_def Let_def split: sum.splits option.splits if_splits)
  have "ValidRole (id_Role i) \<and> (\<exists>!k. k \<in> set keys \<and> key_ID k = id_KeyID i)" if i: "Authenticate B keys now r = Inr i"
  proof -
    obtain secret k where "find (\<lambda>k. bc_Matches B (key_Hash k) secret) keys = Some k" "i = \<lparr>id_KeyID = key_ID k, id_Role = key_Role k\<rparr>"
      using i by (auto simp: Authenticate_Inr)
    then show ?thesis using found unique keys(2) by auto
  qed
  then show ?thesis using err unfolding ks Authenticate_Inr by blast
qed

theorem authentication_exact_witness:
  "\<exists>!k. k \<in> set ex_keys \<and> key_ID k = ''root''"
  using authentication_exact [OF ex_keys_ok, of 50 "ex_patch ''a1''" "\<lparr>id_KeyID = ''root'', id_Role = RoleAdmin\<rparr>"] ex_authenticated
  by simp

end
