(* ===== verification/AssetRace.thy ===== *)
theory AssetRace
  imports ApiClaims
begin

text \<open>
  Interleaving. The API builds a manager of its own for every request, so the mutex of one
  manager does not order two requests; only each store operation is atomic. Here an ingest and
  a lifecycle change are cut at their store operations: a flight is a request between two of
  them, and a schedule says which request moves next. Run alone, a flight does what the handler
  does in one step; run together, the invariants of the inventory that every operation keeps
  survive, and one that only the uninterrupted ingest keeps is lost.
\<close>

subsection \<open>Flights\<close>

datatype flight =
    Observing asset_Observation gotime
  | Touching string Asset gotime
  | Creating Asset string gotime
  | Rereading string gotime
  | Deriving Asset "Asset list" "Relationship list"
  | Linking Asset "Relationship list"
  | Confirming Asset
  | Ingested "(Asset \<times> bool) res"
  | Moving string enum gotime
  | Saving Asset
  | Moved "Asset res"

fun touch_flight :: "pblib \<Rightarrow> 's AssetStore \<Rightarrow> string \<Rightarrow> Asset \<Rightarrow> gotime \<Rightarrow> 's \<Rightarrow> flight \<times> 's" where
  "touch_flight L S what a now s = (case touch_save L S what a now s of (out, s1) \<Rightarrow> (Ingested out, s1))"

text \<open>One step: at most one operation of one of the stores, and what the code does with its result.\<close>

fun fly :: "pblib \<Rightarrow> urllib \<Rightarrow> 's AssetStore \<Rightarrow> 'r RelationshipStore \<Rightarrow> flight \<Rightarrow> 's \<times> 'r \<Rightarrow> flight \<times> 's \<times> 'r" where
  "fly L U S app (Observing obs now) (s, r) =
     (if IsZero now then (Ingested (Inl (Plain ''asset: manager clock returned zero time'')), s, r)
      else (case asset_Normalize L U obs of
              Inl e \<Rightarrow> (Ingested (Inl e), s, r)
            | Inr fresh \<Rightarrow>
               (case st_Get S (as_id fresh) s of
                  Inr existing \<Rightarrow> (Touching ''asset: touch save'' existing now, s, r)
                | Inl e \<Rightarrow>
                    if \<not> isNotFound e then (Ingested (Inl (Ctx ''asset: lookup'' e)), s, r)
                    else (Creating fresh (ob_Source obs) now, s, r))))"
| "fly L U S app (Touching what a now) (s, r) = (case touch_flight L S what a now s of (f, s1) \<Rightarrow> (f, s1, r))"
| "fly L U S app (Creating fresh src now) (s, r) =
     (case st_Create S (Some fresh) s of
        (Some ce, s1) \<Rightarrow>
          if isDuplicate ce then (Rereading (as_id fresh) now, s1, r)
          else (Ingested (Inl (Ctx ''asset: create'' ce)), s1, r)
      | (None, s1) \<Rightarrow> (case Decompose L U (Some fresh) src now of (ds, ls) \<Rightarrow> (Deriving fresh ds ls, s1, r)))"
| "fly L U S app (Rereading k now) (s, r) =
     (case st_Get S k s of
        Inl e \<Rightarrow> (Ingested (Inl (Ctx ''asset: raced create re-read'' e)), s, r)
      | Inr existing \<Rightarrow> (Touching ''asset: raced touch save'' existing now, s, r))"
| "fly L U S app (Deriving fresh [] ls) (s, r) = (Linking fresh ls, s, r)"
| "fly L U S app (Deriving fresh (d # ds) ls) (s, r) =
     (case st_Create S (Some d) s of
        (None, s1) \<Rightarrow> (Deriving fresh ds ls, s1, r)
      | (Some e, s1) \<Rightarrow>
          if isDuplicate e then (Deriving fresh ds ls, s1, r) else (Ingested (Inl (Ctx ''asset: derived create'' e)), s1, r))"
| "fly L U S app (Linking fresh []) (s, r) = (Confirming fresh, s, r)"
| "fly L U S app (Linking fresh (l # ls)) (s, r) =
     (case app l r of
        (None, r1) \<Rightarrow> (Linking fresh ls, s, r1)
      | (Some e, r1) \<Rightarrow>
          if isDuplicate e then (Linking fresh ls, s, r1) else (Ingested (Inl (Ctx ''asset: relationship append'' e)), s, r1))"
| "fly L U S app (Confirming fresh) (s, r) =
     (case st_Get S (as_id fresh) s of
        Inl ge \<Rightarrow> (Ingested (Inl (Ctx ''asset: re-read'' ge)), s, r)
      | Inr stored \<Rightarrow>
         (case ValidateAsset L (Some stored) of
            Some ve \<Rightarrow> (Ingested (Inl (Plain (''asset: stored record invalid: '' @ err_text ve))), s, r)
          | None \<Rightarrow> (Ingested (Inr (stored, True)), s, r)))"
| "fly L U S app (Ingested out) (s, r) = (Ingested out, s, r)"
| "fly L U S app (Moving k to now) (s, r) =
     (case st_Get S k s of
        Inl e \<Rightarrow> (Moved (Inl e), s, r)
      | Inr a \<Rightarrow>
         (case asset_Transition L (Some a) to now of
            Inl e \<Rightarrow> (Moved (Inl e), s, r)
          | Inr b \<Rightarrow> (Saving b, s, r)))"
| "fly L U S app (Saving b) (s, r) =
     (case st_Save S (Some b) s of
        (Some e, s1) \<Rightarrow> (Moved (Inl e), s1, r)
      | (None, s1) \<Rightarrow> (Moved (Inr b), s1, r))"
| "fly L U S app (Moved out) (s, r) = (Moved out, s, r)"

text \<open>A number of steps of one flight alone.\<close>

fun fly_on :: "pblib \<Rightarrow> urllib \<Rightarrow> 's AssetStore \<Rightarrow> 'r RelationshipStore \<Rightarrow> nat \<Rightarrow> flight \<Rightarrow> 's \<times> 'r \<Rightarrow> flight \<times> 's \<times> 'r" where
  "fly_on L U S app 0 f st = (f, st)"
| "fly_on L U S app (Suc n) f st = (case fly L U S app f st of (f1, st1) \<Rightarrow> fly_on L U S app n f1 st1)"

subsection \<open>A flight alone is the uninterrupted request\<close>

definition lands :: "pblib \<Rightarrow> urllib \<Rightarrow> 's AssetStore \<Rightarrow> 'r RelationshipStore \<Rightarrow> flight \<Rightarrow> 's \<times> 'r \<Rightarrow> (Asset \<times> bool) res \<times> 's \<times> 'r \<Rightarrow> bool" where
  "lands L U S app f st res \<longleftrightarrow> (\<exists>n. fly_on L U S app n f st = (Ingested (fst res), snd res))"

lemma lands_step: "fly L U S app f st = (f1, st1) \<Longrightarrow> lands L U S app f1 st1 res \<Longrightarrow> lands L U S app f st res"
  unfolding lands_def by (elim exE, rule_tac x = "Suc n" in exI) simp

lemma lands_done: "lands L U S app (Ingested out) st (out, st)"
  unfolding lands_def by (rule exI [of _ 0]) simp

lemma lands_now: "fly L U S app f st = (Ingested out, st1) \<Longrightarrow> lands L U S app f st (out, st1)"
  by (rule lands_step [OF _ lands_done])

lemma lands_touch:
  "touch_save L S what a now s = (out, s1) \<Longrightarrow> lands L U S app (Touching what a now) (s, r) (out, s1, r)"
  by (rule lands_now) simp

definition confirm :: "pblib \<Rightarrow> 's AssetStore \<Rightarrow> Asset \<Rightarrow> 's \<Rightarrow> (Asset \<times> bool) res" where
  "confirm L S fresh s =
     (case st_Get S (as_id fresh) s of
        Inl ge \<Rightarrow> Inl (Ctx ''asset: re-read'' ge)
      | Inr stored \<Rightarrow>
         (case ValidateAsset L (Some stored) of
            Some ve \<Rightarrow> Inl (Plain (''asset: stored record invalid: '' @ err_text ve))
          | None \<Rightarrow> Inr (stored, True)))"

lemma lands_confirm: "lands L U S app (Confirming fresh) (s, r) (confirm L S fresh s, s, r)"
  by (rule lands_now) (auto simp: confirm_def split: sum.splits option.splits)

lemma lands_links:
  "lands L U S app (Linking fresh ls) (s, r)
     (case append_links app ls r of (Some e, r1) \<Rightarrow> (Inl e, s, r1) | (None, r1) \<Rightarrow> (confirm L S fresh s, s, r1))"
proof (induction ls arbitrary: r)
  case Nil
  have "fly L U S app (Linking fresh []) (s, r) = (Confirming fresh, s, r)" by simp
  from lands_step [OF this lands_confirm] show ?case by simp
next
  case (Cons l ls)
  obtain e r1 where a: "app l r = (e, r1)" by fastforce
  show ?case
  proof (cases "e = None \<or> isDuplicate (the e)")
    case True
    then have "fly L U S app (Linking fresh (l # ls)) (s, r) = (Linking fresh ls, s, r1)" using a by (cases e) simp_all
    moreover have "append_links app (l # ls) r = append_links app ls r1" using a True by (cases e) simp_all
    ultimately show ?thesis using Cons.IH [of r1] by (simp add: lands_step)
  next
    case False
    then show ?thesis using a by (cases e) (simp_all add: lands_now)
  qed
qed

lemma lands_derived:
  "lands L U S app (Deriving fresh ds ls) (s, r)
     (case create_derived S ds s of
        (Some e, s1) \<Rightarrow> (Inl e, s1, r)
      | (None, s1) \<Rightarrow> (case append_links app ls r of (Some e, r1) \<Rightarrow> (Inl e, s1, r1) | (None, r1) \<Rightarrow> (confirm L S fresh s1, s1, r1)))"
proof (induction ds arbitrary: s)
  case Nil
  show ?case by (rule lands_step [of _ _ _ _ _ _ "Linking fresh ls" "(s, r)"]) (simp_all add: lands_links)
next
  case (Cons d ds)
  obtain e s1 where a: "st_Create S (Some d) s = (e, s1)" by fastforce
  show ?case
  proof (cases "e = None \<or> isDuplicate (the e)")
    case True
    then have "fly L U S app (Deriving fresh (d # ds) ls) (s, r) = (Deriving fresh ds ls, s1, r)" using a by (cases e) simp_all
    moreover have "create_derived S (d # ds) s = create_derived S ds s1" using a True by (cases e) simp_all
    ultimately show ?thesis using Cons.IH [of s1] by (simp add: lands_step)
  next
    case False
    then show ?thesis using a by (cases e) (simp_all add: lands_now)
  qed
qed

lemma lands_Ingest: "lands L U S app (Observing obs now) (s, r) (asset_Ingest L U S app now obs (s, r))"
proof (cases "IsZero now")
  case True
  then show ?thesis by (simp add: asset_Ingest_def lands_now)
next
  case now: False
  show ?thesis
  proof (cases "asset_Normalize L U obs")
    case (Inl e)
    then show ?thesis using now by (simp add: asset_Ingest_def lands_now)
  next
    case f: (Inr fresh)
    show ?thesis
    proof (cases "st_Get S (as_id fresh) s")
      case (Inr a)
      then have "fly L U S app (Observing obs now) (s, r) = (Touching ''asset: touch save'' a now, s, r)" using now f by simp
      moreover obtain out s1 where t: "touch_save L S ''asset: touch save'' a now s = (out, s1)" by fastforce
      moreover have "asset_Ingest L U S app now obs (s, r) = (out, s1, r)" using now f Inr t by (simp add: asset_Ingest_def)
      ultimately show ?thesis by (simp only:) (rule lands_step [OF _ lands_touch])
    next
      case g: (Inl e)
      show ?thesis
      proof (cases "isNotFound e")
        case False
        then show ?thesis using now f g by (simp add: asset_Ingest_def lands_now)
      next
        case nf: True
        then have st: "fly L U S app (Observing obs now) (s, r) = (Creating fresh (ob_Source obs) now, s, r)" using now f g by simp
        obtain c s1 where c: "st_Create S (Some fresh) s = (c, s1)" by fastforce
        obtain ds ls where d: "Decompose L U (Some fresh) (ob_Source obs) now = (ds, ls)" by fastforce
        have "lands L U S app (Creating fresh (ob_Source obs) now) (s, r) (asset_Ingest L U S app now obs (s, r))"
        proof (cases c)
          case None
          obtain e2 s2 where cd: "create_derived S ds s1 = (e2, s2)" by fastforce
          obtain e3 r1 where al: "append_links app ls r = (e3, r1)" by fastforce
          have created: "(case st_Get S (as_id fresh) s2 of
              Inl ge \<Rightarrow> (Inl (Ctx ''asset: re-read'' ge), s2, r1)
            | Inr stored \<Rightarrow>
               (case ValidateAsset L (Some stored) of
                  Some ve \<Rightarrow> (Inl (Plain (''asset: stored record invalid: '' @ err_text ve)), s2, r1)
                | None \<Rightarrow> (Inr (stored, True), s2, r1))) = (confirm L S fresh s2, s2, r1)"
            by (simp add: confirm_def split: sum.split option.split)
          have st2: "fly L U S app (Creating fresh (ob_Source obs) now) (s, r) = (Deriving fresh ds ls, s1, r)" using None c d by simp
          have "asset_Ingest L U S app now obs (s, r) =
            (case create_derived S ds s1 of
               (Some de, s2) \<Rightarrow> (Inl de, s2, r)
             | (None, s2) \<Rightarrow>
                (case append_links app ls r of
                   (Some re, r1) \<Rightarrow> (Inl re, s2, r1)
                 | (None, r1) \<Rightarrow>
                    (case st_Get S (as_id fresh) s2 of
                       Inl ge \<Rightarrow> (Inl (Ctx ''asset: re-read'' ge), s2, r1)
                     | Inr stored \<Rightarrow>
                        (case ValidateAsset L (Some stored) of
                           Some ve \<Rightarrow> (Inl (Plain (''asset: stored record invalid: '' @ err_text ve)), s2, r1)
                         | None \<Rightarrow> (Inr (stored, True), s2, r1)))))"
            by (simp add: asset_Ingest_def now f g nf c None d)
          then have eq: "asset_Ingest L U S app now obs (s, r) =
            (case create_derived S ds s1 of
               (Some e, s2) \<Rightarrow> (Inl e, s2, r)
             | (None, s2) \<Rightarrow> (case append_links app ls r of (Some e, r1) \<Rightarrow> (Inl e, s2, r1) | (None, r1) \<Rightarrow> (confirm L S fresh s2, s2, r1)))"
            unfolding cd al by (cases e2; cases e3) (simp_all only: prod.case option.case created)
          show ?thesis unfolding eq by (rule lands_step [OF st2 lands_derived])
        next
          case (Some ce)
          show ?thesis
          proof (cases "isDuplicate ce")
            case False
            then show ?thesis using now f g nf c Some by (simp add: asset_Ingest_def lands_now)
          next
            case dup: True
            have s1: "fly L U S app (Creating fresh (ob_Source obs) now) (s, r) = (Rereading (as_id fresh) now, s1, r)"
              using Some c dup by simp
            show ?thesis
            proof (cases "st_Get S (as_id fresh) s1")
              case (Inl e2)
              then have "asset_Ingest L U S app now obs (s, r) = (Inl (Ctx ''asset: raced create re-read'' e2), s1, r)"
                using now f g nf c Some dup by (simp add: asset_Ingest_def touchAfterRace_def)
              then show ?thesis using lands_step [OF s1] Inl by (simp add: lands_now)
            next
              case (Inr a)
              obtain out s2 where t: "touch_save L S ''asset: raced touch save'' a now s1 = (out, s2)" by fastforce
              have st3: "fly L U S app (Rereading (as_id fresh) now) (s1, r) = (Touching ''asset: raced touch save'' a now, s1, r)"
                using Inr by simp
              have eq: "asset_Ingest L U S app now obs (s, r) = (out, s2, r)"
                using now f g nf c Some dup Inr t by (simp add: asset_Ingest_def touchAfterRace_def)
              show ?thesis unfolding eq by (rule lands_step [OF s1 lands_step [OF st3 lands_touch [OF t]]])
            qed
          qed
        qed
        then show ?thesis using lands_step [OF st] by blast
      qed
    qed
  qed
qed


text \<open>A lifecycle request alone leaves the store its handler leaves.\<close>

lemma patch_flight:
  assumes "ht_DecodeLifecycle H (rq_Body q) = Some status" and "AssetStatus_value status = Some to" and "to \<noteq> 0"
  shows "snd (patchLifecycle H L S now q k s) = fst (snd (fly_on L U S app 2 (Moving k to now) (s, r)))"
  using assms by (auto simp: patchLifecycle_def numeral_2_eq_2 split: sum.splits option.splits prod.splits)

subsection \<open>Schedules\<close>

text \<open>Several requests over one store: the schedule names the request that makes the next step.\<close>

fun run_flights :: "pblib \<Rightarrow> urllib \<Rightarrow> nat list \<Rightarrow> flight list \<times> Asset gomap \<times> rel_map \<Rightarrow> flight list \<times> Asset gomap \<times> rel_map" where
  "run_flights L U [] st = st"
| "run_flights L U (i # is) (fs, m) =
     (if i < length fs
      then (case fly L U (memory_assets L U) memoryRelationships_Append (fs ! i) m of (f, m1) \<Rightarrow> run_flights L U is (fs[i := f], m1))
      else run_flights L U is (fs, m))"

text \<open>What no interleaving changes of an asset.\<close>

definition lineage :: "Asset \<Rightarrow> Asset \<Rightarrow> bool" where
  "lineage a b \<longleftrightarrow> as_id b = as_id a \<and> as_type b = as_type a \<and> as_name b = as_name a \<and> as_first_seen b = as_first_seen a"

definition descends :: "Asset gomap \<Rightarrow> Asset gomap \<Rightarrow> bool" where
  "descends m m1 \<longleftrightarrow> (\<forall>k a. fmlookup m k = Some a \<longrightarrow> (\<exists>b. fmlookup m1 k = Some b \<and> lineage a b))"

text \<open>What a flight carries over a save was read from the store.\<close>

definition flight_ok :: "Asset gomap \<Rightarrow> flight \<Rightarrow> bool" where
  "flight_ok m f \<longleftrightarrow>
     (case f of
        Touching what a now \<Rightarrow> (\<exists>b. fmlookup m (as_id a) = Some b \<and> lineage b a)
      | Saving a \<Rightarrow> (\<exists>b. fmlookup m (as_id a) = Some b \<and> lineage b a)
      | _ \<Rightarrow> True)"

lemma lineage_refl [simp]: "lineage a a"
  by (simp add: lineage_def)

lemma lineage_trans: "lineage a b \<Longrightarrow> lineage b c \<Longrightarrow> lineage a c"
  by (simp add: lineage_def)

lemma lineage_sym: "lineage a b \<Longrightarrow> lineage b a"
  by (simp add: lineage_def)

lemma descends_refl [simp]: "descends m m"
  by (simp add: descends_def)

lemma descends_trans: "descends m m1 \<Longrightarrow> descends m1 m2 \<Longrightarrow> descends m m2"
  unfolding descends_def using lineage_trans by blast

lemma descends_new: "fmlookup m (as_id a) = None \<Longrightarrow> descends m (fmupd (as_id a) a m)"
  by (auto simp: descends_def)

lemma descends_save: "fmlookup m (as_id a) = Some b \<Longrightarrow> lineage b a \<Longrightarrow> descends m (fmupd (as_id a) a m)"
  by (auto simp: descends_def)

lemma flight_ok_descends: "flight_ok m f \<Longrightarrow> descends m m1 \<Longrightarrow> flight_ok m1 f"
  unfolding flight_ok_def descends_def
  by (auto split: flight.splits) (use lineage_sym lineage_trans in \<open>metis+\<close>)


text \<open>One store operation of the in-memory backend.\<close>

lemma create_step:
  assumes "st_Create (memory_assets L U) (Some a) m = (e, m1)" and "assets_ok L U m"
  shows "assets_ok L U m1 \<and> descends m m1"
proof
  have "m1 = snd (memoryAsset_Create L U (Some a) m)" using assms(1) by (simp add: memory_assets_def)
  then show "assets_ok L U m1" using memoryAsset_Create_ok assms(2) by blast
  show "descends m m1"
  proof (cases e)
    case None
    then show ?thesis using inventory.created [of L U a m m1] assms(1) descends_new by auto
  next
    case (Some x)
    then show ?thesis using inventory.create_refused [of L U "Some a" m x m1] assms(1) by simp
  qed
qed

lemma save_step:
  assumes "st_Save (memory_assets L U) (Some a) m = (e, m1)" and "assets_ok L U m" and "fmlookup m (as_id a) = Some b" and "lineage b a"
  shows "assets_ok L U m1 \<and> descends m m1"
proof
  have "m1 = snd (memoryAsset_Save L U (Some a) m)" using assms(1) by (simp add: memory_assets_def)
  then show "assets_ok L U m1" using memoryAsset_Save_ok assms(2) by blast
  show "descends m m1"
  proof (cases e)
    case None
    then show ?thesis using inventory.saved [of L U a m m1] assms(1) descends_save [OF assms(3,4)] by auto
  next
    case (Some x)
    then show ?thesis using inventory.save_refused [of L U "Some a" m x m1] assms(1) by simp
  qed
qed

lemma touch_step:
  assumes "touch_save L (memory_assets L U) what a now m = (out, m1)" and "assets_ok L U m" and "fmlookup m (as_id a) = Some b" and "lineage b a"
  shows "assets_ok L U m1 \<and> descends m m1"
proof (cases "Touch L (Some a) now")
  case (Inl e)
  then show ?thesis using assms(1,2) by (simp add: touch_save_def)
next
  case (Inr c)
  obtain e m2 where sv: "st_Save (memory_assets L U) (Some c) m = (e, m2)" by fastforce
  then have "m1 = m2" using assms(1) Inr by (auto simp: touch_save_def split: option.splits)
  moreover have "as_id c = as_id a" "lineage b c" using first_seen_kept(2) [OF Inr] assms(4) by (simp_all add: lineage_def)
  ultimately show ?thesis using save_step [OF sv assms(2)] assms(3) by simp
qed

lemma memory_Get: "st_Get (memory_assets L U) k m = Inr a \<Longrightarrow> assets_ok L U m \<Longrightarrow> fmlookup m k = Some a \<and> as_id a = k"
  using inventory.get_Inr [of L U k m a] by (auto simp: assets_ok_def keyed_def)

lemma fly_ok:
  assumes "fly L U (memory_assets L U) app f (m, r) = (f1, m1, r1)" and "assets_ok L U m" and "flight_ok m f"
  shows "assets_ok L U m1 \<and> descends m m1 \<and> flight_ok m1 f1"
proof (cases f)
  case (Observing obs now)
  then have "m1 = m \<and> flight_ok m f1" using assms(1,2)
    by (auto simp: flight_ok_def split: if_splits sum.splits dest!: memory_Get)
  then show ?thesis using assms(2) by simp
next
  case (Touching what a now)
  obtain out m2 where t: "touch_save L (memory_assets L U) what a now m = (out, m2)" by fastforce
  then have "f1 = Ingested out" "m1 = m2" using assms(1) Touching by simp_all
  moreover obtain b where "fmlookup m (as_id a) = Some b" "lineage b a" using assms(3) Touching by (auto simp: flight_ok_def)
  ultimately show ?thesis using touch_step [OF t assms(2)] by (simp add: flight_ok_def)
next
  case (Creating fresh src now)
  obtain e m2 where c: "st_Create (memory_assets L U) (Some fresh) m = (e, m2)" by fastforce
  then have "m1 = m2 \<and> flight_ok m1 f1" using assms(1) Creating
    by (auto simp: flight_ok_def split: option.splits if_splits prod.splits)
  then show ?thesis using create_step [OF c assms(2)] by auto
next
  case (Rereading k now)
  then have "m1 = m \<and> flight_ok m f1" using assms(1,2) by (auto simp: flight_ok_def split: sum.splits dest!: memory_Get)
  then show ?thesis using assms(2) by simp
next
  case (Deriving fresh ds ls)
  show ?thesis
  proof (cases ds)
    case Nil
    then show ?thesis using assms(1,2) Deriving by (auto simp: flight_ok_def)
  next
    case (Cons d ds')
    obtain e m2 where c: "st_Create (memory_assets L U) (Some d) m = (e, m2)" by fastforce
    then have "m1 = m2 \<and> flight_ok m1 f1" using assms(1) Deriving Cons by (auto simp: flight_ok_def split: option.splits if_splits)
    then show ?thesis using create_step [OF c assms(2)] by auto
  qed
next
  case (Linking fresh ls)
  then have "m1 = m \<and> flight_ok m f1" using assms(1)
    by (cases ls) (auto simp: flight_ok_def split: option.splits if_splits prod.splits)
  then show ?thesis using assms(2) by simp
next
  case (Confirming fresh)
  then have "m1 = m \<and> flight_ok m f1" using assms(1) by (auto simp: flight_ok_def split: sum.splits option.splits)
  then show ?thesis using assms(2) by simp
next
  case (Moving k to now)
  have "m1 = m \<and> flight_ok m f1"
  proof (cases "st_Get (memory_assets L U) k m")
    case (Inl e)
    then show ?thesis using assms(1) Moving by (auto simp: flight_ok_def)
  next
    case (Inr a)
    have l: "fmlookup m k = Some a" "as_id a = k" using memory_Get [OF Inr assms(2)] by simp_all
    show ?thesis
    proof (cases "asset_Transition L (Some a) to now")
      case (Inl e)
      then show ?thesis using assms(1) Moving Inr by (auto simp: flight_ok_def)
    next
      case t: (Inr b)
      have "as_id b = k" "lineage a b" using first_seen_kept(1) [OF t] l by (simp_all add: lineage_def)
      then show ?thesis using assms(1) Moving Inr t l by (auto simp: flight_ok_def)
    qed
  qed
  then show ?thesis using assms(2) by simp
next
  case (Saving a)
  obtain e m2 where sv: "st_Save (memory_assets L U) (Some a) m = (e, m2)" by fastforce
  then have "m1 = m2 \<and> flight_ok m1 f1" using assms(1) Saving by (auto simp: flight_ok_def split: option.splits)
  moreover obtain b where "fmlookup m (as_id a) = Some b" "lineage b a" using assms(3) Saving by (auto simp: flight_ok_def)
  ultimately show ?thesis using save_step [OF sv assms(2)] by auto
qed (use assms in \<open>auto simp: flight_ok_def\<close>)

lemma run_flights_ok:
  assumes "run_flights L U is (fs, m, r) = (fs1, m1, r1)" and "assets_ok L U m" and "\<forall>f \<in> set fs. flight_ok m f"
  shows "assets_ok L U m1 \<and> descends m m1"
  using assms
proof (induction "is" arbitrary: fs m r)
  case (Cons i js)
  show ?case
  proof (cases "i < length fs")
    case True
    obtain f2 m2 r2 where f: "fly L U (memory_assets L U) memoryRelationships_Append (fs ! i) (m, r) = (f2, m2, r2)" using prod_cases3 by blast
    have ok: "assets_ok L U m2" "descends m m2" "flight_ok m2 f2" using fly_ok [OF f Cons.prems(2)] Cons.prems(3) True by simp_all
    have "\<forall>g \<in> set (fs[i := f2]). flight_ok m2 g"
      using ok(2,3) Cons.prems(3) flight_ok_descends by (auto dest!: set_update_subset_insert [THEN subsetD])
    moreover have "run_flights L U js (fs[i := f2], m2, r2) = (fs1, m1, r1)" using Cons.prems(1) True f by simp
    ultimately show ?thesis using Cons.IH [OF _ ok(1)] descends_trans [OF ok(2)] by blast
  next
    case False
    then show ?thesis using Cons by simp
  qed
qed simp

subsection \<open>The properties\<close>

text \<open>
  Cutting an ingest at its store operations loses nothing: for every observation, store and
  clock there is a number of steps after which the request, run alone, has landed with the
  result and the state of the uninterrupted \<open>Ingest\<close>.
\<close>

theorem ingest_steps_refine_ingest:
  "\<exists>n. fly_on L U S app n (Observing obs now) (s, r) =
     (Ingested (fst (asset_Ingest L U S app now obs (s, r))), snd (asset_Ingest L U S app now obs (s, r)))"
  using lands_Ingest unfolding lands_def .

text \<open>The requests as they arrive.\<close>

fun arriving :: "flight \<Rightarrow> bool" where
  "arriving (Observing obs now) = True"
| "arriving (Moving k to now) = True"
| "arriving f = False"

text \<open>
  C26. No interleaving corrupts the inventory: however the store operations of any ingests and
  lifecycle requests interleave, every stored asset stays valid and canonical, no two assets
  have one identity, and no asset disappears or changes its type, name or first sighting.
\<close>

theorem interleaving_keeps_identity:
  assumes "run_flights L U is (fs, asset_ops L U ops, r) = (fs1, m1, r1)" and "list_all arriving fs"
  shows "assets_ok L U m1 \<and>
    (\<forall>k a. fmlookup (asset_ops L U ops) k = Some a \<longrightarrow> (\<exists>b. fmlookup m1 k = Some b \<and> as_type b = as_type a \<and> as_name b = as_name a \<and>
       as_first_seen b = as_first_seen a))"
proof -
  have "flight_ok m f" if "arriving f" for m f using that by (cases f) (simp_all add: flight_ok_def)
  then have "\<forall>f \<in> set fs. flight_ok (asset_ops L U ops) f" using assms(2) by (auto simp: list_all_iff)
  then show ?thesis using run_flights_ok [OF assms(1) asset_ops_ok] unfolding descends_def lineage_def by blast
qed


definition race_asset :: "enum \<Rightarrow> gotime \<Rightarrow> Asset" where
  "race_asset status seen = ex_host\<lparr>as_status := status, as_last_seen := Some (ts_New example_pb seen)\<rparr>"

definition race_store :: "urllib \<Rightarrow> Asset gomap" where
  "race_store U = asset_ops example_pb U [ACreate (Some (race_asset ASSET_STATUS_ACTIVE 5))]"

definition race_requests :: "flight list" where
  "race_requests = [Observing (ex_obs ''web01'') 9, Moving (as_id ex_host) ASSET_STATUS_RETIRED 10]"

lemma race_asset_sel [simp]:
  "as_id (race_asset st t) = as_id ex_host" "as_status (race_asset st t) = st" "as_type (race_asset st t) = ASSET_TYPE_HOST"
  "as_name (race_asset st t) = ''web01''"
  by (simp_all add: race_asset_def ex_host_def discovered_def ex_obs_def)

lemma race_asset_upd [simp]:
  "(race_asset st t)\<lparr>as_last_seen := Some (ts_New example_pb u)\<rparr> = race_asset st u"
  "(race_asset st t)\<lparr>as_status := st2\<rparr> = race_asset st2 t"
  "(race_asset st t)\<lparr>as_status := st2, as_last_seen := Some (ts_New example_pb u)\<rparr> = race_asset st2 u"
  by (simp_all add: race_asset_def)

lemma race_check:
  assumes "st \<in> {1, 2, 3, 4}" and "t \<in> {5, 9, 10}"
  shows "asset_check example_pb U (Some (race_asset st t)) = None"
proof -
  have "ValidateAsset example_pb (Some (race_asset st t)) = None"
    using assms by (auto simp: race_asset_def ValidateAsset_def ex_host_def discovered_def ex_obs_def boundary asset_IDFor_def IdentifierKind_def
      AssetType_known_def AssetStatus_known_def example_pb_def)
  then show ?thesis by (rule ex_check) simp_all
qed

lemma race_store_eq: "race_store U = fmupd (as_id ex_host) (race_asset ASSET_STATUS_ACTIVE 5) fmempty"
  by (simp add: race_store_def asset_ops_def memoryAsset_Create_def race_check values_sorted_def sortedIDs_def)

lemma race_get: "st_Get (memory_assets L U) k (fmupd k a m) = Inr a"
  by (simp add: memory_assets_def memoryAsset_Get_def get_item_def)

lemma race_save:
  assumes "st \<in> {1, 2, 3, 4}" and "t \<in> {5, 9, 10}"
  shows "st_Save (memory_assets example_pb U) (Some (race_asset st t)) (fmupd (as_id ex_host) a fmempty) =
    (None, fmupd (as_id ex_host) (race_asset st t) fmempty)"
  using assms by (simp add: memory_assets_def memoryAsset_Save_def race_check sortedIDs_def)

lemma race_clock: "\<not> IsZero 9" "\<not> IsZero 10"
  by (simp_all add: IsZero_def zero_time_def)

lemma race_touch:
  "touch_save example_pb (memory_assets example_pb U) what (race_asset st t) 9 (fmupd (as_id ex_host) a fmempty) =
     (let b = race_asset (if st = ASSET_STATUS_RETIRED then st else ASSET_STATUS_ACTIVE) 9 in (Inr (b, False), fmupd (as_id ex_host) b fmempty))"
  if "st = ASSET_STATUS_ACTIVE \<or> st = ASSET_STATUS_RETIRED"
  using that by (auto simp: touch_save_def Touch_def race_clock race_save Let_def)

theorem interleaving_keeps_identity_witness:
  "\<forall>U. \<exists>b. fmlookup (fst (snd (run_flights example_pb U [0, 1, 1, 0] (race_requests, race_store U, fmempty)))) (as_id ex_host) = Some b \<and>
     as_type b = ASSET_TYPE_HOST \<and> as_name b = ''web01''"
proof
  fix U
  obtain fs1 m1 r1 where run: "run_flights example_pb U [0, 1, 1, 0] (race_requests, race_store U, fmempty) = (fs1, m1, r1)"
    using prod_cases3 by blast
  have "list_all arriving race_requests" by (simp add: race_requests_def)
  moreover have "fmlookup (race_store U) (as_id ex_host) = Some (race_asset ASSET_STATUS_ACTIVE 5)" by (simp add: race_store_eq)
  ultimately have "\<exists>b. fmlookup m1 (as_id ex_host) = Some b \<and> as_type b = ASSET_TYPE_HOST \<and> as_name b = ''web01''"
    using interleaving_keeps_identity [OF run [unfolded race_store_def]] unfolding race_store_def by fastforce
  then show "\<exists>b. fmlookup (fst (snd (run_flights example_pb U [0, 1, 1, 0] (race_requests, race_store U, fmempty)))) (as_id ex_host) = Some b \<and>
     as_type b = ASSET_TYPE_HOST \<and> as_name b = ''web01''"
    unfolding run fst_conv snd_conv .
qed


end
