(* ===== verification/NetObs.thy ===== *)
theory NetObs
  imports NetAddr IdentObs "HOL-Library.Word"
begin

text \<open>
  Network observations (\<open>internal/netobs/observation.go\<close>): the normalized connection read from
  the attributes of a \<open>net.connection\<close> event, and the address prefixes
  (\<open>netip.ParsePrefix\<close>, \<open>Masked\<close>, \<open>Contains\<close>) the correlator's configuration uses, written after
  the documented behaviour of the Go standard library. Ports keep their 16 bits.
\<close>

subsection \<open>Observations\<close>

definition EventTypeConnection :: string where "EventTypeConnection = ''net.connection''"

definition knownProtocols :: "string list" where
  "knownProtocols = [''TCP'', ''UDP'', ''ICMP'', ''ICMPV6'', ''SCTP'']"

definition net_knownDirections :: "string list" where
  "net_knownDirections = [''inbound'', ''outbound'', ''internal'', ''lateral'']"

definition knownVerdicts :: "string list" where
  "knownVerdicts = [''allowed'', ''denied'']"

type_synonym port = "16 word"

record net_Observation =
  no_EventID :: string
  no_Source :: string
  no_AssetID :: string
  no_OccurredAt :: gotime
  no_Severity :: enum
  no_SrcIP :: Addr
  no_DstIP :: Addr
  no_SrcPort :: port
  no_HasSrcPort :: bool
  no_DstPort :: port
  no_HasDstPort :: bool
  no_Protocol :: string
  no_Direction :: string
  no_Verdict :: string

definition parseIP :: "string \<Rightarrow> string \<Rightarrow> Addr res" where
  "parseIP raw what =
     (case ParseAddr (TrimSpace raw) of
        None \<Rightarrow> Inl (Plain (''netobs: invalid '' @ what @ '' '' @ quote raw))
      | Some a \<Rightarrow> Inr a)"

definition parsePort :: "string \<Rightarrow> string \<Rightarrow> (port \<times> bool) res" where
  "parsePort raw what =
     (if TrimSpace raw = [] then Inr (0, False)
      else (case Atoi (TrimSpace raw) of
              None \<Rightarrow> Inl (Plain (''netobs: invalid '' @ what @ '' '' @ quote raw @ '': want 1-65535''))
            | Some n \<Rightarrow>
                if n < 1 \<or> 65535 < n
                  then Inl (Plain (''netobs: invalid '' @ what @ '' '' @ quote raw @ '': want 1-65535''))
                else Inr (word_of_int n, True)))"

text \<open>A closed vocabulary: an absent value stays empty, a present one must be known.\<close>

definition known_or_empty :: "string list \<Rightarrow> string \<Rightarrow> bool" where
  "known_or_empty known s \<longleftrightarrow> s = [] \<or> s \<in> set known"

definition net_Parse :: "pblib \<Rightarrow> TelemetryEvent option \<Rightarrow> net_Observation res" where
  "net_Parse L p =
     (case p of None \<Rightarrow> Inl (Plain ''netobs: nil event'') | Some e \<Rightarrow>
        if te_event_type e \<noteq> EventTypeConnection then Inl (Plain ''netobs: event_type is not net.connection'')
        else
         (let m = te_attributes e in
          case parseIP (attr m ''net.src_ip'') ''net.src_ip'' of Inl x \<Rightarrow> Inl x | Inr src \<Rightarrow>
         (case parseIP (attr m ''net.dst_ip'') ''net.dst_ip'' of Inl x \<Rightarrow> Inl x | Inr dst \<Rightarrow>
         (case parsePort (attr m ''net.src_port'') ''net.src_port'' of Inl x \<Rightarrow> Inl x | Inr (srcPort, hasSrc) \<Rightarrow>
         (case parsePort (attr m ''net.dst_port'') ''net.dst_port'' of Inl x \<Rightarrow> Inl x | Inr (dstPort, hasDst) \<Rightarrow>
          (let proto = ToUpper (TrimSpace (attr m ''net.protocol''));
               dir = ToLower (TrimSpace (attr m ''net.direction''));
               verdict = ToLower (TrimSpace (attr m ''net.verdict'')) in
           if \<not> known_or_empty knownProtocols proto
             then Inl (Plain (''netobs: unknown net.protocol '' @ quote (attr m ''net.protocol'')))
           else if \<not> known_or_empty net_knownDirections dir
             then Inl (Plain (''netobs: unknown net.direction '' @ quote (attr m ''net.direction'')))
           else if \<not> known_or_empty knownVerdicts verdict
             then Inl (Plain (''netobs: unknown net.verdict '' @ quote (attr m ''net.verdict'')))
           else Inr \<lparr> no_EventID = te_id e, no_Source = te_source e, no_AssetID = te_asset_id e,
             no_OccurredAt = occurred L e, no_Severity = te_severity e, no_SrcIP = src, no_DstIP = dst,
             no_SrcPort = srcPort, no_HasSrcPort = hasSrc, no_DstPort = dstPort, no_HasDstPort = hasDst,
             no_Protocol = proto, no_Direction = dir, no_Verdict = verdict \<rparr>))))))"

text \<open>The texts \<open>%d\<close> and \<open>%t\<close> print.\<close>

definition port_text :: "port \<Rightarrow> string" where
  "port_text p = itoa (uint p)"

definition bool_text :: "bool \<Rightarrow> string" where
  "bool_text b = (if b then ''true'' else ''false'')"

definition net_key :: "net_Observation \<Rightarrow> string" where
  "net_key o1 = join US [Addr_String (no_SrcIP o1), Addr_String (no_DstIP o1), port_text (no_SrcPort o1),
     bool_text (no_HasSrcPort o1), port_text (no_DstPort o1), bool_text (no_HasDstPort o1),
     no_Protocol o1, no_Direction o1, no_Verdict o1]"

definition net_ID :: "net_Observation \<Rightarrow> string" where
  "net_ID o1 = ''netobs-'' @ id16 (net_key o1)"

subsection \<open>Prefixes\<close>

datatype Prefix = Prefix (pf_addr: Addr) (pf_bits: nat)

fun addr_bytes :: "Addr \<Rightarrow> nat list" where
  "addr_bytes (V4 bs) = bs"
| "addr_bytes (V6 bs z) = bs"

fun has_zone :: "Addr \<Rightarrow> bool" where
  "has_zone (V4 bs) = False"
| "has_zone (V6 bs z) = (z \<noteq> [])"

text \<open>The bits of an address, most significant first.\<close>

definition byte_bits :: "nat \<Rightarrow> bool list" where
  "byte_bits b = map (\<lambda>i. odd (b div 2 ^ (7 - i))) [0..<8]"

definition addr_bits :: "Addr \<Rightarrow> bool list" where
  "addr_bits a = concat (map byte_bits (addr_bytes a))"

definition BitLen :: "Addr \<Rightarrow> nat" where
  "BitLen a = (case a of V4 _ \<Rightarrow> 32 | V6 _ _ \<Rightarrow> 128)"

definition last_slash :: "string \<Rightarrow> (string \<times> string) option" where
  "last_slash s =
     (if CHR ''/'' \<in> set s
      then Some (rev (tl (dropWhile (\<lambda>c. c \<noteq> CHR ''/'') (rev s))), rev (takeWhile (\<lambda>c. c \<noteq> CHR ''/'') (rev s)))
      else None)"

definition ParsePrefix :: "string \<Rightarrow> Prefix option" where
  "ParsePrefix s =
     (case last_slash s of
        None \<Rightarrow> None
      | Some (ip, bits) \<Rightarrow>
         (case ParseAddr ip of
            None \<Rightarrow> None
          | Some a \<Rightarrow>
              if has_zone a then None
              else if 1 < length bits \<and> (\<not> is_digit (hd bits) \<or> hd bits = CHR ''0'') then None
              else (case Atoi bits of
                      None \<Rightarrow> None
                    | Some n \<Rightarrow> if n < 0 \<or> int (BitLen a) < n then None else Some (Prefix a (nat n)))))"

text \<open>A byte with only its first \<open>n\<close> bits, and an address with only the bits of its prefix.\<close>

definition mask_byte :: "nat \<Rightarrow> nat \<Rightarrow> nat" where
  "mask_byte n b = (if 8 \<le> n then b else b div 2 ^ (8 - n) * 2 ^ (8 - n))"

fun mask_bytes :: "nat \<Rightarrow> nat list \<Rightarrow> nat list" where
  "mask_bytes n [] = []"
| "mask_bytes n (b # bs) = mask_byte n b # mask_bytes (n - 8) bs"

fun Masked :: "Prefix \<Rightarrow> Prefix" where
  "Masked (Prefix (V4 bs) n) = Prefix (V4 (mask_bytes n bs)) n"
| "Masked (Prefix (V6 bs z) n) = Prefix (V6 (mask_bytes n bs) z) n"

definition Prefix_Contains :: "Prefix \<Rightarrow> Addr \<Rightarrow> bool" where
  "Prefix_Contains p ip \<longleftrightarrow> \<not> has_zone ip \<and> BitLen (pf_addr p) = BitLen ip \<and>
     take (pf_bits p) (addr_bits ip) = take (pf_bits p) (addr_bits (pf_addr p))"

subsection \<open>Facts\<close>

lemma parsePort_Inr:
  "parsePort raw what = Inr (p, has) \<Longrightarrow>
     (if has then \<exists>n. Atoi (TrimSpace raw) = Some n \<and> 1 \<le> n \<and> n \<le> 65535 \<and> uint p = n
      else TrimSpace raw = [] \<and> p = 0)"
  by (auto simp: parsePort_def unsigned_of_int take_bit_int_eq_self split: if_splits option.splits)

text \<open>Masking keeps the bits of the prefix, so it does not change what the prefix contains.\<close>

lemma div_mult_div: "k \<le> i \<Longrightarrow> (b div 2 ^ k * 2 ^ k) div 2 ^ i = b div (2 ^ i :: nat)"
proof -
  assume "k \<le> i"
  then obtain j where "i = k + j" using le_Suc_ex by blast
  then show ?thesis by (simp add: power_add div_mult2_eq)
qed

lemma byte_bits_nth: "i < 8 \<Longrightarrow> byte_bits b ! i = odd (b div 2 ^ (7 - i))"
  by (simp add: byte_bits_def del: upt_Suc)

lemma length_byte_bits [simp]: "length (byte_bits b) = 8"
  by (simp add: byte_bits_def)

lemma take_mask_byte: "n \<le> 8 \<Longrightarrow> take n (byte_bits (mask_byte n b)) = take n (byte_bits b)"
  by (rule nth_equalityI) (auto simp: mask_byte_def byte_bits_nth div_mult_div)

lemma take_mask_bytes: "take n (concat (map byte_bits (mask_bytes n bs))) = take n (concat (map byte_bits bs))"
proof (induction n bs rule: mask_bytes.induct)
  case (2 n b bs)
  show ?case
  proof (cases "8 \<le> n")
    case True
    then show ?thesis using 2 by (simp add: mask_byte_def)
  next
    case False
    then have "take n (byte_bits (mask_byte n b)) = take n (byte_bits b)" using take_mask_byte [of n b] by simp
    then show ?thesis using False by simp
  qed
qed simp

lemma Masked_Contains: "Prefix_Contains (Masked p) ip = Prefix_Contains p ip"
  by (cases p rule: Masked.cases) (simp_all add: Prefix_Contains_def addr_bits_def BitLen_def take_mask_bytes)

end
