(* ===== verification/HttpObs.thy ===== *)
theory HttpObs
  imports IdentObs Assets
begin

text \<open>
  HTTP observations (\<open>internal/httpobs/observation.go\<close>): the normalized request read from the
  attributes of an \<open>http.request\<close> event once its sensitive attributes are gone. The content-type
  expression is written as the two tokens around a slash it describes.
\<close>

definition EventTypeHTTPRequest :: string where "EventTypeHTTPRequest = ''http.request''"

definition knownMethods :: "string list" where
  "knownMethods = [''GET'', ''POST'', ''PUT'', ''DELETE'', ''PATCH'', ''HEAD'', ''OPTIONS'', ''CONNECT'', ''TRACE'']"

definition knownSchemes :: "string list" where "knownSchemes = [''http'', ''https'']"

definition http_knownDirections :: "string list" where "http_knownDirections = [''inbound'', ''outbound'', ''internal'']"

definition media_token :: "string \<Rightarrow> bool" where
  "media_token s \<longleftrightarrow>
     (let alnum = (\<lambda>c. is_digit c \<or> (97 \<le> (of_char c :: nat) \<and> (of_char c :: nat) \<le> 122))
      in s \<noteq> [] \<and> alnum (hd s) \<and> list_all (\<lambda>c. alnum c \<or> c \<in> set ''!#$&-^_.+'') s)"

definition contentTypeRe :: "string \<Rightarrow> bool" where
  "contentTypeRe s = (case cut ''/'' s of None \<Rightarrow> False | Some (a, b) \<Rightarrow> media_token a \<and> media_token b)"

definition rawBodyFragment :: string where "rawBodyFragment = ''raw_body''"

record http_Observation =
  ho_EventID :: string
  ho_Source :: string
  ho_AssetID :: string
  ho_OccurredAt :: gotime
  ho_Severity :: enum
  ho_Method :: string
  ho_Scheme :: string
  ho_Host :: string
  ho_Path :: string
  ho_QueryPresent :: bool
  ho_HasQuery :: bool
  ho_StatusCode :: int
  ho_HasStatus :: bool
  ho_ContentType :: string
  ho_Route :: string
  ho_APIVersion :: string
  ho_RequestID :: string
  ho_UserAgent :: string
  ho_Direction :: string
  ho_BytesIn :: int
  ho_HasBytesIn :: bool
  ho_BytesOut :: int
  ho_HasBytesOut :: bool
  ho_AuthOutcome :: string
  ho_RawAttrs :: attrs

definition http_sensitive :: "string \<Rightarrow> bool" where
  "http_sensitive k \<longleftrightarrow> SensitiveField k \<or> contains (ToLower k) rawBodyFragment"

definition http_clean :: "attrs \<Rightarrow> attrs" where
  "http_clean m = fmfilter (\<lambda>k. \<not> http_sensitive k) m"

text \<open>An optional number: absent, or a number in its range, or an error naming the attribute.\<close>

definition optional_int :: "(int \<Rightarrow> bool) \<Rightarrow> err \<Rightarrow> string \<Rightarrow> (int \<times> bool) res" where
  "optional_int ok bad raw =
     (if raw = [] then Inr (0, False)
      else (case Atoi raw of None \<Rightarrow> Inl bad | Some n \<Rightarrow> if ok n then Inr (n, True) else Inl bad))"

text \<open>An optional flag: absent, or one of the two words.\<close>

definition optional_bool :: "err \<Rightarrow> string \<Rightarrow> (bool \<times> bool) res" where
  "optional_bool bad raw =
     (if raw = [] then Inr (False, False)
      else if ToLower raw = ''true'' then Inr (True, True)
      else if ToLower raw = ''false'' then Inr (False, True) else Inl bad)"

definition media_type :: "string \<Rightarrow> string" where
  "media_type ct = (if CHR '';'' \<in> set ct then TrimSpace (takeWhile (\<lambda>c. c \<noteq> CHR '';'') ct) else ct)"

text \<open>The error of a result, and its value where there is none.\<close>

definition err_of :: "'a res \<Rightarrow> goerr" where
  "err_of r = (case r of Inl e \<Rightarrow> Some e | Inr _ \<Rightarrow> None)"

definition val_of :: "'a \<Rightarrow> 'a res \<Rightarrow> 'a" where
  "val_of z r = (case r of Inl _ \<Rightarrow> z | Inr x \<Rightarrow> x)"

text \<open>The fields whose parsing may fail, and the checks in the order of the source.\<close>

definition http_query :: "attrs \<Rightarrow> (bool \<times> bool) res" where
  "http_query m = (let raw = trimmed m ''http.query_present''
     in optional_bool (Plain (''httpobs: invalid http.query_present '' @ quote raw)) raw)"

definition http_status :: "attrs \<Rightarrow> (int \<times> bool) res" where
  "http_status m = (let raw = trimmed m ''http.status_code''
     in optional_int (\<lambda>n. 100 \<le> n \<and> n \<le> 599) (Plain (''httpobs: invalid http.status_code '' @ quote raw)) raw)"

definition http_bytes :: "string \<Rightarrow> attrs \<Rightarrow> (int \<times> bool) res" where
  "http_bytes k m = (let raw = trimmed m k
     in optional_int (\<lambda>n. 0 \<le> n) (Plain (''httpobs: invalid '' @ k @ '' '' @ quote raw)) raw)"

definition http_checks :: "attrs \<Rightarrow> goerr" where
  "http_checks m =
     (let methodRaw = trimmed m ''http.method''; hostRaw = trimmed m ''http.host''; host = ToLower hostRaw;
          scheme = lowered m ''http.scheme''; ct = media_type (lowered m ''http.content_type'');
          direction = lowered m ''http.direction''; auth = lowered m ''http.auth_outcome'' in
      first_err [
        fail_if (methodRaw = []) (Plain ''httpobs: http.method required''),
        fail_if (ToUpper methodRaw \<notin> set knownMethods) (Plain (''httpobs: unknown http.method '' @ quote methodRaw)),
        fail_if (hostRaw = []) (Plain ''httpobs: http.host required''),
        fail_if (contains host '' '' \<or> contains host ''/'') (Plain (''httpobs: invalid http.host '' @ quote hostRaw)),
        fail_if (trimmed m ''http.path'' = []) (Plain ''httpobs: http.path required''),
        fail_if (scheme \<noteq> [] \<and> scheme \<notin> set knownSchemes) (Plain (''httpobs: unknown http.scheme '' @ quote scheme)),
        err_of (http_query m),
        err_of (http_status m),
        fail_if (ct \<noteq> [] \<and> \<not> contentTypeRe ct) (Plain (''httpobs: invalid http.content_type '' @ quote ct)),
        fail_if (direction \<noteq> [] \<and> direction \<notin> set http_knownDirections)
          (Plain (''httpobs: unknown http.direction '' @ quote direction)),
        err_of (http_bytes ''http.bytes_in'' m),
        err_of (http_bytes ''http.bytes_out'' m),
        fail_if (auth \<noteq> [] \<and> auth \<noteq> ''success'' \<and> auth \<noteq> ''failure'')
          (Plain (''httpobs: unknown http.auth_outcome '' @ quote auth))])"

definition http_record :: "pblib \<Rightarrow> TelemetryEvent \<Rightarrow> attrs \<Rightarrow> http_Observation" where
  "http_record L e m =
     (let path = trimmed m ''http.path'' in
      \<lparr> ho_EventID = te_id e, ho_Source = te_source e, ho_AssetID = te_asset_id e,
        ho_OccurredAt = occurred L e, ho_Severity = te_severity e,
        ho_Method = ToUpper (trimmed m ''http.method''), ho_Scheme = lowered m ''http.scheme'',
        ho_Host = lowered m ''http.host'', ho_Path = (if has_prefix ''/'' path then path else ''/'' @ path),
        ho_QueryPresent = fst (val_of (False, False) (http_query m)), ho_HasQuery = snd (val_of (False, False) (http_query m)),
        ho_StatusCode = fst (val_of (0, False) (http_status m)), ho_HasStatus = snd (val_of (0, False) (http_status m)),
        ho_ContentType = media_type (lowered m ''http.content_type''),
        ho_Route = trimmed m ''http.route'', ho_APIVersion = trimmed m ''http.api_version'',
        ho_RequestID = trimmed m ''http.request_id'', ho_UserAgent = trimmed m ''http.user_agent'',
        ho_Direction = lowered m ''http.direction'',
        ho_BytesIn = fst (val_of (0, False) (http_bytes ''http.bytes_in'' m)),
        ho_HasBytesIn = snd (val_of (0, False) (http_bytes ''http.bytes_in'' m)),
        ho_BytesOut = fst (val_of (0, False) (http_bytes ''http.bytes_out'' m)),
        ho_HasBytesOut = snd (val_of (0, False) (http_bytes ''http.bytes_out'' m)),
        ho_AuthOutcome = lowered m ''http.auth_outcome'', ho_RawAttrs = m \<rparr>)"

definition http_Parse :: "pblib \<Rightarrow> TelemetryEvent option \<Rightarrow> http_Observation res" where
  "http_Parse L p =
     (case p of None \<Rightarrow> Inl (Plain ''httpobs: nil event'') | Some e \<Rightarrow>
        if te_event_type e \<noteq> EventTypeHTTPRequest then Inl (Plain ''httpobs: event_type is not http.request'')
        else
         (let m = http_clean (te_attributes e) in
          case http_checks m of Some x \<Rightarrow> Inl x | None \<Rightarrow> Inr (http_record L e m)))"

definition http_key :: "http_Observation \<Rightarrow> string" where
  "http_key o1 = join US [ho_Method o1, ho_Host o1, ho_Path o1,
     (if ho_HasStatus o1 then itoa (ho_StatusCode o1) else []), ho_Route o1, ho_APIVersion o1]"

definition http_ID :: "http_Observation \<Rightarrow> string" where
  "http_ID o1 = ''httpobs-'' @ id16 (http_key o1)"

subsection \<open>Facts\<close>

lemma http_clean_again: "http_clean (http_clean m) = http_clean m"
  by (rule fmap_ext) (simp add: http_clean_def)

lemma http_Parse_Inr:
  "http_Parse L (Some e) = Inr o1 \<longleftrightarrow> te_event_type e = EventTypeHTTPRequest \<and>
     http_checks (http_clean (te_attributes e)) = None \<and> o1 = http_record L e (http_clean (te_attributes e))"
  by (auto simp: http_Parse_def Let_def split: option.splits)

lemma http_record_sel [simp]:
  "ho_EventID (http_record L e m) = te_id e" "ho_Source (http_record L e m) = te_source e"
  "ho_OccurredAt (http_record L e m) = occurred L e" "ho_RawAttrs (http_record L e m) = m"
  "ho_Severity (http_record L e m) = te_severity e" "ho_Host (http_record L e m) = lowered m ''http.host''"
  by (simp_all add: http_record_def Let_def)

lemma http_checks_host: "http_checks m = None \<Longrightarrow> trimmed m ''http.host'' \<noteq> []"
  unfolding http_checks_def Let_def by (simp only: first_err_Cons_None_iff fail_if_None_iff not_False_eq_True)

text \<open>A redacted event parses as the event does.\<close>

lemma http_Parse_redacted:
  "http_Parse L (Some (e\<lparr>te_attributes := http_clean (te_attributes e)\<rparr>)) = http_Parse L (Some e)"
  by (simp add: http_Parse_def http_clean_again http_record_def occurred_def Let_def split: option.split)

end
