(* ===== verification/InfraObs.thy ===== *)
theory InfraObs
  imports HttpObs
begin

text \<open>
  Endpoint, server, container and cloud observations (\<open>internal/infraobs/observation.go\<close>), with
  the redaction of command lines. The four payloads of one Go record, of which only the one of
  the event's type is ever set and read, are a sum here.
\<close>

definition EventTypeEndpointActivity :: string where "EventTypeEndpointActivity = ''endpoint.activity''"
definition EventTypeServerActivity :: string where "EventTypeServerActivity = ''server.activity''"
definition EventTypeContainerActivity :: string where "EventTypeContainerActivity = ''container.activity''"
definition EventTypeCloudActivity :: string where "EventTypeCloudActivity = ''cloud.activity''"

definition validEndpointActions :: "string list" where
  "validEndpointActions = [''process_start'', ''privilege_transition'', ''file_modify'', ''process_end'']"

definition validServerActions :: "string list" where
  "validServerActions = [''start'', ''stop'', ''restart'', ''failure'', ''success'']"

definition validContainerActions :: "string list" where
  "validContainerActions = [''start'', ''stop'', ''create'', ''remove'']"

definition validCloudProviders :: "string list" where "validCloudProviders = [''aws'', ''azure'', ''gcp'']"
definition validCloudResults :: "string list" where "validCloudResults = [''success'', ''denied'', ''failure'']"

record EndpointObservation =
  eo_Host :: string
  eo_Process :: string
  eo_PID :: int
  eo_HasPID :: bool
  eo_ParentPID :: int
  eo_HasParentPID :: bool
  eo_Executable :: string
  eo_Command :: string
  eo_User :: string
  eo_Action :: string
  eo_FilePath :: string
  eo_Hash :: string
  eo_IntegrityLevel :: string
  eo_Result :: string

record ServerObservation =
  so_Hostname :: string
  so_Service :: string
  so_ServiceAction :: string
  so_Process :: string
  so_Port :: int
  so_HasPort :: bool
  so_Protocol :: string
  so_Result :: string
  so_Resource :: string

record ContainerObservation =
  co_Runtime :: string
  co_ContainerID :: string
  co_Image :: string
  co_ImageDigest :: string
  co_Namespace :: string
  co_Pod :: string
  co_Cluster :: string
  co_Action :: string
  co_Process :: string
  co_User :: string
  co_Privileged :: bool
  co_HostNetwork :: bool
  co_HostPID :: bool
  co_Result :: string

record CloudObservation =
  cl_Provider :: string
  cl_Account :: string
  cl_Region :: string
  cl_Service :: string
  cl_Resource :: string
  cl_Action :: string
  cl_Principal :: string
  cl_Result :: string
  cl_ResourceType :: string
  cl_RequestID :: string

datatype infra_payload =
    EndpointPayload EndpointObservation | ServerPayload ServerObservation
  | ContainerPayload ContainerObservation | CloudPayload CloudObservation

record infra_Observation =
  fo_EventID :: string
  fo_Source :: string
  fo_AssetID :: string
  fo_OccurredAt :: gotime
  fo_Severity :: enum
  fo_Type :: string
  fo_Payload :: infra_payload
  fo_RawAttrs :: attrs

subsection \<open>Redaction of command lines\<close>

text \<open>\<open>strings.Fields\<close> and \<open>strings.ReplaceAll\<close> (of a non-empty text).\<close>

fun fields_acc :: "string \<Rightarrow> string \<Rightarrow> string list" where
  "fields_acc cur [] = (if cur = [] then [] else [cur])"
| "fields_acc cur (c # cs) =
     (if is_space c then (if cur = [] then fields_acc [] cs else cur # fields_acc [] cs)
      else fields_acc (cur @ [c]) cs)"

definition Fields :: "string \<Rightarrow> string list" where
  "Fields s = fields_acc [] s"

fun ReplaceAll :: "string \<Rightarrow> string \<Rightarrow> string \<Rightarrow> string" where
  "ReplaceAll [] old new = []"
| "ReplaceAll (c # cs) old new =
     (if old \<noteq> [] \<and> has_prefix old (c # cs) then new @ ReplaceAll (drop (length old - 1) cs) old new
      else c # ReplaceAll cs old new)"

definition credential_word :: "string \<Rightarrow> bool" where
  "credential_word p = (let low = ToLower p in contains low ''password'' \<or> contains low ''token'' \<or> contains low ''secret'')"

text \<open>The key=value form: the value of a credential key is masked, whatever was done before.\<close>

definition mask_value :: "string \<Rightarrow> string \<Rightarrow> string" where
  "mask_value p q =
     (case cut ''='' p of
        None \<Rightarrow> q
      | Some (k, v) \<Rightarrow> if credential_word k then k @ ''=***'' else q)"

text \<open>
  The first loop: each word is looked at as the loop left it; a credential word masks the word
  after it, and the last word itself is masked by replacing its lower-case form.
\<close>

fun redact_words :: "string list \<Rightarrow> string list" where
  "redact_words [] = []"
| "redact_words [p] = [mask_value p (if credential_word p then ReplaceAll p (ToLower p) ''***'' else p)]"
| "redact_words (p # q # ps) = mask_value p p # redact_words ((if credential_word p then ''***'' else q) # ps)"

definition mask_secret :: "string \<Rightarrow> string" where
  "mask_secret p = (if contains (ToLower p) ''secret'' then ''***'' else p)"

definition redactCommand :: "string \<Rightarrow> string" where
  "redactCommand cmd = join '' '' (map mask_secret (redact_words (Fields cmd)))"

definition infra_clean :: "attrs \<Rightarrow> attrs" where
  "infra_clean m =
     fmmap_keys (\<lambda>k v. if ToLower k = ''endpoint.command'' then redactCommand v else v)
       (fmfilter (\<lambda>k. ToLower k = ''endpoint.command'' \<or> \<not> SensitiveField k) m)"

subsection \<open>Parsing\<close>

definition infra_base :: "pblib \<Rightarrow> TelemetryEvent \<Rightarrow> string \<Rightarrow> infra_payload \<Rightarrow> attrs \<Rightarrow> infra_Observation" where
  "infra_base L e kind p m =
     \<lparr> fo_EventID = te_id e, fo_Source = te_source e, fo_AssetID = te_asset_id e, fo_OccurredAt = occurred L e,
       fo_Severity = te_severity e, fo_Type = kind, fo_Payload = p, fo_RawAttrs = m \<rparr>"

definition parseEndpoint :: "pblib \<Rightarrow> TelemetryEvent \<Rightarrow> infra_Observation res" where
  "parseEndpoint L e =
     (let m = infra_clean (te_attributes e);
          host = trimmed m ''endpoint.host''; proc = trimmed m ''endpoint.process'';
          action0 = lowered m ''endpoint.action'';
          action = (if action0 = [] then ''process_start'' else action0);
          pid = trimmed m ''endpoint.pid''; ppid = trimmed m ''endpoint.parent_pid'';
          cmd = (if contains (ToLower (attr m ''endpoint.command'')) ''secret''
                 then redactCommand (attr m ''endpoint.command'') else trimmed m ''endpoint.command'') in
      if host = [] then Inl (Plain ''infraobs: endpoint.host required'')
      else if proc = [] then Inl (Plain ''infraobs: endpoint.process required'')
      else if action \<notin> set validEndpointActions then Inl (Plain (''infraobs: unknown endpoint.action '' @ quote action))
      else
        (case optional_int (\<lambda>n. 0 \<le> n) (Plain (''infraobs: invalid endpoint.pid '' @ quote pid)) pid of
           Inl x \<Rightarrow> Inl x | Inr (n, has) \<Rightarrow>
        (case optional_int (\<lambda>n. 0 \<le> n) (Plain (''infraobs: invalid endpoint.parent_pid '' @ quote ppid)) ppid of
           Inl x \<Rightarrow> Inl x | Inr (pn, hasP) \<Rightarrow>
         Inr (infra_base L e EventTypeEndpointActivity (EndpointPayload
          \<lparr> eo_Host = host, eo_Process = proc, eo_PID = n, eo_HasPID = has, eo_ParentPID = pn, eo_HasParentPID = hasP,
            eo_Executable = trimmed m ''endpoint.executable'', eo_Command = cmd, eo_User = trimmed m ''endpoint.user'',
            eo_Action = action, eo_FilePath = trimmed m ''endpoint.file_path'', eo_Hash = lowered m ''endpoint.hash'',
            eo_IntegrityLevel = lowered m ''endpoint.integrity_level'', eo_Result = lowered m ''endpoint.result'' \<rparr>) m))))"

definition parseServer :: "pblib \<Rightarrow> TelemetryEvent \<Rightarrow> infra_Observation res" where
  "parseServer L e =
     (let m = infra_clean (te_attributes e);
          hostname = trimmed m ''server.hostname''; service = trimmed m ''server.service'';
          action0 = lowered m ''server.service_action'';
          action = (if action0 = [] then lowered m ''server.action'' else action0);
          port = trimmed m ''server.port'' in
      if hostname = [] then Inl (Plain ''infraobs: server.hostname required'')
      else if service = [] then Inl (Plain ''infraobs: server.service required'')
      else if action \<noteq> [] \<and> action \<notin> set validServerActions \<and> action \<noteq> ''failure'' \<and> action \<noteq> ''success''
        then Inl (Plain (''infraobs: unknown server action '' @ quote action))
      else
        (case optional_int (\<lambda>n. 1 \<le> n \<and> n \<le> 65535) (Plain (''infraobs: invalid server.port '' @ quote port)) port of
           Inl x \<Rightarrow> Inl x | Inr (n, has) \<Rightarrow>
         Inr (infra_base L e EventTypeServerActivity (ServerPayload
          \<lparr> so_Hostname = hostname, so_Service = service, so_ServiceAction = action,
            so_Process = trimmed m ''server.process'', so_Port = n, so_HasPort = has,
            so_Protocol = lowered m ''server.protocol'', so_Result = lowered m ''server.result'',
            so_Resource = trimmed m ''server.resource'' \<rparr>) m)))"

definition parseContainer :: "pblib \<Rightarrow> TelemetryEvent \<Rightarrow> infra_Observation res" where
  "parseContainer L e =
     (let m = infra_clean (te_attributes e);
          cid = trimmed m ''container.container_id''; image = trimmed m ''container.image'';
          action = lowered m ''container.action'' in
      if cid = [] then Inl (Plain ''infraobs: container.container_id required'')
      else if image = [] then Inl (Plain ''infraobs: container.image required'')
      else if action \<noteq> [] \<and> action \<notin> set validContainerActions
        then Inl (Plain (''infraobs: unknown container.action '' @ quote action))
      else
         Inr (infra_base L e EventTypeContainerActivity (ContainerPayload
          \<lparr> co_Runtime = trimmed m ''container.runtime'', co_ContainerID = cid, co_Image = image,
            co_ImageDigest = trimmed m ''container.image_digest'', co_Namespace = trimmed m ''container.namespace'',
            co_Pod = trimmed m ''container.pod'', co_Cluster = trimmed m ''container.cluster'', co_Action = action,
            co_Process = trimmed m ''container.process'', co_User = trimmed m ''container.user'',
            co_Privileged = (lowered m ''container.privileged'' = ''true''),
            co_HostNetwork = (lowered m ''container.host_network'' = ''true''),
            co_HostPID = (lowered m ''container.host_pid'' = ''true''), co_Result = lowered m ''container.result'' \<rparr>) m))"

definition parseCloud :: "pblib \<Rightarrow> TelemetryEvent \<Rightarrow> infra_Observation res" where
  "parseCloud L e =
     (let m = infra_clean (te_attributes e);
          provider = lowered m ''cloud.provider''; action = trimmed m ''cloud.action'';
          result0 = lowered m ''cloud.result''; result = (if result0 = [] then ''success'' else result0) in
      if provider = [] \<or> provider \<notin> set validCloudProviders
        then Inl (Plain (''infraobs: invalid cloud.provider '' @ quote provider))
      else if action = [] then Inl (Plain ''infraobs: cloud.action required'')
      else if result \<notin> set validCloudResults then Inl (Plain (''infraobs: unknown cloud.result '' @ quote result))
      else
         Inr (infra_base L e EventTypeCloudActivity (CloudPayload
          \<lparr> cl_Provider = provider, cl_Account = trimmed m ''cloud.account'', cl_Region = trimmed m ''cloud.region'',
            cl_Service = trimmed m ''cloud.service'', cl_Resource = trimmed m ''cloud.resource'', cl_Action = action,
            cl_Principal = trimmed m ''cloud.principal'', cl_Result = result,
            cl_ResourceType = trimmed m ''cloud.resource_type'', cl_RequestID = trimmed m ''cloud.request_id'' \<rparr>) m))"

definition infra_Parse :: "pblib \<Rightarrow> TelemetryEvent option \<Rightarrow> infra_Observation res" where
  "infra_Parse L p =
     (case p of None \<Rightarrow> Inl (Plain ''infraobs: nil event'') | Some e \<Rightarrow>
        if te_event_type e = EventTypeEndpointActivity then parseEndpoint L e
        else if te_event_type e = EventTypeServerActivity then parseServer L e
        else if te_event_type e = EventTypeContainerActivity then parseContainer L e
        else if te_event_type e = EventTypeCloudActivity then parseCloud L e
        else Inl (Plain (''infraobs: unknown event_type '' @ quote (te_event_type e))))"

definition infra_key :: "infra_Observation \<Rightarrow> string" where
  "infra_key o1 = fo_Type o1 @ US @
     (case fo_Payload o1 of
        EndpointPayload p \<Rightarrow> join US [eo_Host p, eo_Process p, eo_Action p]
      | ServerPayload p \<Rightarrow> join US [so_Hostname p, so_Service p, so_ServiceAction p]
      | ContainerPayload p \<Rightarrow> join US [co_ContainerID p, co_Image p]
      | CloudPayload p \<Rightarrow> join US [cl_Provider p, cl_Action p, cl_Principal p])"

definition infra_ID :: "infra_Observation \<Rightarrow> string" where
  "infra_ID o1 = ''infraobs-'' @ id16 (infra_key o1)"

subsection \<open>Redacting twice\<close>

text \<open>The words of a line: not empty and free of spaces; joining them by spaces is undone by \<^const>\<open>Fields\<close>.\<close>

definition wordy :: "string \<Rightarrow> bool" where
  "wordy w \<longleftrightarrow> w \<noteq> [] \<and> list_all (\<lambda>c. \<not> is_space c) w"

lemma fields_acc_wordy:
  "list_all (\<lambda>c. \<not> is_space c) cur \<Longrightarrow> list_all wordy (fields_acc cur s)"
  by (induction cur s rule: fields_acc.induct) (auto simp: wordy_def)

lemma Fields_wordy: "list_all wordy (Fields s)"
  unfolding Fields_def by (rule fields_acc_wordy) simp

lemma fields_acc_word: "list_all (\<lambda>c. \<not> is_space c) w \<Longrightarrow> fields_acc cur (w @ r) = fields_acc (cur @ w) r"
  by (induction w arbitrary: cur) auto

lemma Fields_join: "list_all wordy ws \<Longrightarrow> Fields (join '' '' ws) = ws"
proof (induction ws rule: induct_list012)
  case (2 w)
  then show ?case using fields_acc_word [of w "[]" "[]"] by (simp add: Fields_def wordy_def)
next
  case (3 w v ws)
  have "is_space (CHR '' '')" by (simp add: is_space_def)
  then show ?case using 3 fields_acc_word [of w "[]" "'' '' @ join '' '' (v # ws)"] by (simp add: Fields_def wordy_def)
qed (simp add: Fields_def)

text \<open>The key of a key=value word, and what masking does to it.\<close>

lemma cut_eq_Some: "cut ''='' p = Some (k, v) \<longleftrightarrow> p = k @ ''='' @ v \<and> CHR ''='' \<notin> set k"
proof (induction p arbitrary: k)
  case (Cons c p)
  show ?case
  proof (cases k)
    case Nil
    then show ?thesis by auto
  next
    case (Cons d k')
    then show ?thesis using Cons.IH [of k'] by (auto simp: \<open>k = _\<close>)
  qed
qed simp

lemma cut_eq_None: "cut ''='' p = None \<longleftrightarrow> CHR ''='' \<notin> set p"
  by (induction p) auto

lemma ToLower_append [simp]: "ToLower (a @ b) = ToLower a @ ToLower b"
  by (simp add: ToLower_def)

lemma contains_append: "contains a sub \<Longrightarrow> contains (a @ b) sub"
proof -
  assume "contains a sub"
  then obtain x y where "a = x @ sub @ y" by (auto simp: contains_iff)
  then have "a @ b = x @ sub @ (y @ b)" by simp
  then show ?thesis unfolding contains_iff by blast
qed

lemma credential_prefix: "credential_word k \<Longrightarrow> credential_word (k @ r)"
  by (auto simp: credential_word_def Let_def contains_append)

lemma not_credential_mask [simp]: "\<not> credential_word ''***''" "\<not> contains (ToLower ''***'') ''secret''"
  by code_simp+

lemma mask_value_cases:
  obtains (masked) k v where "p = k @ ''='' @ v" "CHR ''='' \<notin> set k" "credential_word k" "\<And>q. mask_value p q = k @ ''=***''"
  | (other) "\<And>q. mask_value p q = q"
proof (cases "cut ''='' p")
  case None
  then show ?thesis by (intro other) (simp add: mask_value_def)
next
  case (Some kv)
  obtain k v where kv: "kv = (k, v)" by (cases kv)
  show ?thesis
  proof (cases "credential_word k")
    case True
    have "p = k @ ''='' @ v" "CHR ''='' \<notin> set k" using Some [unfolded kv cut_eq_Some] by blast+
    moreover have "mask_value p q = k @ ''=***''" for q using Some True by (simp add: mask_value_def kv)
    ultimately show ?thesis using True by (intro masked [of k v])
  next
    case False
    then show ?thesis using Some kv by (intro other) (simp add: mask_value_def)
  qed
qed

lemma mask_value_key: "CHR ''='' \<notin> set k \<Longrightarrow> credential_word k \<Longrightarrow> mask_value (k @ ''=***'') q = k @ ''=***''"
  using cut_eq_Some [of "k @ ''=***''" k "''***''"] by (simp add: mask_value_def)

lemma mask_value_mask [simp]: "mask_value ''***'' q = q"
  by (simp add: mask_value_def)

lemma has_prefix_length: "has_prefix a s \<Longrightarrow> length a \<le> length s"
  by (induction a s rule: has_prefix.induct) auto

lemma has_prefix_same: "length s = length a \<Longrightarrow> has_prefix a s \<longleftrightarrow> s = a"
  by (induction a s rule: has_prefix.induct) auto

lemma ReplaceAll_short: "length s < length old \<Longrightarrow> ReplaceAll s old new = s"
proof (induction s)
  case (Cons c s)
  have "\<not> has_prefix old (c # s)" using has_prefix_length [of old "c # s"] Cons.prems by auto
  then show ?case using Cons by simp
qed simp

lemma ReplaceAll_whole: "old \<noteq> [] \<Longrightarrow> length s = length old \<Longrightarrow> ReplaceAll s old new = (if s = old then new else s)"
  by (cases s) (auto simp: has_prefix_same ReplaceAll_short)

text \<open>The last word, and a word before the last one.\<close>

definition mask_last :: "string \<Rightarrow> string" where
  "mask_last p = mask_value p (if credential_word p \<and> p = ToLower p then ''***'' else p)"

lemma redact_last: "wordy p \<Longrightarrow> redact_words [p] = [mask_last p]"
  by (auto simp: wordy_def mask_last_def ReplaceAll_whole ToLower_def)

lemma mask_secret_mask [simp]: "mask_secret ''***'' = ''***''"
  unfolding mask_secret_def by simp

lemma mask_secret_cases: "mask_secret p = ''***'' \<or> mask_secret p = p \<and> \<not> contains (ToLower p) ''secret''"
  by (simp add: mask_secret_def)

lemma mask_last_again: "mask_last (mask_secret (mask_last p)) = mask_secret (mask_last p)"
proof -
  have star: "mask_last ''***'' = ''***''" by (simp add: mask_last_def)
  have "mask_last (mask_last p) = mask_last p"
  proof (cases p rule: mask_value_cases)
    case (masked k v)
    then show ?thesis by (simp add: mask_last_def mask_value_key)
  next
    case other
    then have "mask_last p = ''***'' \<or> mask_last p = p" by (simp add: mask_last_def)
    then show ?thesis using star by auto
  qed
  then show ?thesis using mask_secret_cases [of "mask_last p"] star by auto
qed

lemma mask_value_again: "mask_value (mask_secret (mask_value p p)) (mask_secret (mask_value p p)) = mask_secret (mask_value p p)"
proof -
  have "mask_value (mask_value p p) (mask_value p p) = mask_value p p"
    by (cases p rule: mask_value_cases) (simp_all add: mask_value_key)
  then show ?thesis using mask_secret_cases [of "mask_value p p"] by auto
qed

lemma credential_masked: "credential_word (mask_secret (mask_value p p)) \<Longrightarrow> credential_word p"
  using mask_secret_cases [of "mask_value p p"]
  by (cases p rule: mask_value_cases) (auto simp: credential_prefix)

text \<open>A redacted line: every word is masked as far as it will be, and after a credential word comes the mask.\<close>

fun redacted :: "string list \<Rightarrow> bool" where
  "redacted [] = True"
| "redacted [p] \<longleftrightarrow> mask_last p = p \<and> mask_secret p = p"
| "redacted (p # q # ps) \<longleftrightarrow> mask_value p p = p \<and> mask_secret p = p \<and> (credential_word p \<longrightarrow> q = ''***'') \<and> redacted (q # ps)"

lemma mask_secret_again [simp]: "mask_secret (mask_secret p) = mask_secret p"
  using mask_secret_cases [of p] by auto

lemma wordy_mask [simp]: "wordy ''***''"
  by (simp add: wordy_def is_space_def)

lemma redact_words_shape: "wordy p \<Longrightarrow> \<exists>q qs. redact_words (p # ps) = q # qs \<and> (p = ''***'' \<longrightarrow> q = ''***'')"
  by (cases ps) (auto simp: redact_last mask_last_def simp del: redact_words.simps(2))

lemma redact_words_redacted: "list_all wordy ws \<Longrightarrow> redacted (map mask_secret (redact_words ws))"
proof (induction ws rule: redact_words.induct)
  case (2 p)
  then show ?case by (simp add: redact_last mask_last_again del: redact_words.simps(2))
next
  case (3 p q ps)
  let ?r = "if credential_word p then ''***'' else q"
  have wr: "wordy ?r" using 3(2) by simp
  obtain q' qs where r: "redact_words (?r # ps) = q' # qs" "?r = ''***'' \<longrightarrow> q' = ''***''"
    using redact_words_shape [of ?r ps] wr by blast
  have "redacted (map mask_secret (q' # qs))" using 3 r(1) by auto
  moreover have "mask_secret q' = ''***''" if "credential_word (mask_secret (mask_value p p))"
    using credential_masked [OF that] r(2) by simp
  ultimately show ?case using r(1) by (simp add: mask_value_again)
qed simp

lemma redacted_fixed: "list_all wordy ws \<Longrightarrow> redacted ws \<Longrightarrow> map mask_secret (redact_words ws) = ws"
proof (induction ws rule: redacted.induct)
  case (2 p)
  then show ?case by (simp add: redact_last del: redact_words.simps(2))
next
  case (3 p q ps)
  then have "(if credential_word p then ''***'' else q) = q" by simp
  then show ?case using 3 by simp
qed simp

lemma redact_words_wordy: "list_all wordy ws \<Longrightarrow> list_all wordy (map mask_secret (redact_words ws))"
proof -
  have val: "wordy (mask_value p q)" if "wordy p" "wordy q" for p q
    using that by (cases p rule: mask_value_cases) (auto simp: wordy_def is_space_def)
  have sec: "wordy (mask_secret p)" if "wordy p" for p using that mask_secret_cases [of p] by auto
  show "list_all wordy ws \<Longrightarrow> list_all wordy (map mask_secret (redact_words ws))"
    by (induction ws rule: redact_words.induct)
      (auto simp: redact_last mask_last_def val sec simp del: redact_words.simps(2))
qed

lemma redactCommand_words: "Fields (redactCommand cmd) = map mask_secret (redact_words (Fields cmd))"
  unfolding redactCommand_def by (rule Fields_join) (rule redact_words_wordy [OF Fields_wordy])

lemma redactCommand_again: "redactCommand (redactCommand cmd) = redactCommand cmd"
proof -
  have "map mask_secret (redact_words (Fields (redactCommand cmd))) = Fields (redactCommand cmd)"
    unfolding redactCommand_words
    by (rule redacted_fixed [OF redact_words_wordy [OF Fields_wordy] redact_words_redacted [OF Fields_wordy]])
  then show ?thesis unfolding redactCommand_def [of "redactCommand cmd"] redactCommand_words
    by (simp only: redactCommand_def [symmetric])
qed

text \<open>What redaction promises of the words of a line.\<close>

fun masked_after :: "string list \<Rightarrow> bool" where
  "masked_after (p # q # ps) \<longleftrightarrow> (credential_word p \<longrightarrow> q = ''***'') \<and> masked_after (q # ps)"
| "masked_after ps \<longleftrightarrow> True"

definition masked_values :: "string list \<Rightarrow> bool" where
  "masked_values ws \<longleftrightarrow> list_all (\<lambda>w. case cut ''='' w of None \<Rightarrow> True | Some (k, v) \<Rightarrow> \<not> credential_word k \<or> v = ''***'') ws"

definition no_secrets :: "string list \<Rightarrow> bool" where
  "no_secrets ws \<longleftrightarrow> list_all (\<lambda>w. \<not> contains (ToLower w) ''secret'') ws"

lemma masked_values_cons: "masked_values (p # ps) \<longleftrightarrow> masked_values [p] \<and> masked_values ps"
  by (simp add: masked_values_def)

lemma masked_values_one:
  assumes "mask_value p q = p"
  shows "masked_values [p]"
proof (cases "cut ''='' p")
  case (Some kv)
  obtain k v where kv: "kv = (k, v)" by (cases kv)
  have p: "p = k @ ''='' @ v" using Some [unfolded kv cut_eq_Some] by blast
  have "v = ''***''" if "credential_word k" using assms that Some p by (simp add: mask_value_def kv)
  then show ?thesis using Some by (auto simp: masked_values_def kv)
qed (simp add: masked_values_def)

lemma mask_secret_fixed: "mask_secret p = p \<Longrightarrow> \<not> contains (ToLower p) ''secret''"
  using mask_secret_cases [of p] by auto

lemma redacted_promises: "redacted ws \<Longrightarrow> masked_after ws \<and> masked_values ws \<and> no_secrets ws"
proof (induction ws rule: redacted.induct)
  case 1
  then show ?case by (simp add: masked_values_def no_secrets_def)
next
  case (2 p)
  then have "mask_last p = p" by simp
  then have "masked_values [p]" unfolding mask_last_def by (rule masked_values_one)
  then show ?case using 2 mask_secret_fixed [of p] by (simp add: no_secrets_def)
next
  case (3 p q ps)
  then have "masked_values [p]" by (intro masked_values_one [of p p]) simp
  moreover have "masked_after (q # ps)" "masked_values (q # ps)" "no_secrets (q # ps)" using 3 by simp_all
  moreover have "credential_word p \<longrightarrow> q = ''***''" "mask_secret p = p" using 3(2) by simp_all
  ultimately show ?case using mask_secret_fixed [of p] masked_values_cons [of p "q # ps"] by (simp add: no_secrets_def)
qed

lemma redactCommand_redacted: "redacted (Fields (redactCommand cmd))"
  unfolding redactCommand_words by (rule redact_words_redacted [OF Fields_wordy])

text \<open>
  A redacted command line keeps its promises: the word after a credential word is masked, so
  is the value of a credential key, no word still contains \<open>secret\<close>, and redacting again
  changes nothing - the sink, the parser and the parser's second look agree.
\<close>

theorem command_redaction:
  "masked_after (Fields (redactCommand cmd)) \<and> masked_values (Fields (redactCommand cmd)) \<and>
   no_secrets (Fields (redactCommand cmd)) \<and> redactCommand (redactCommand cmd) = redactCommand cmd"
  using redacted_promises [OF redactCommand_redacted] redactCommand_again by blast

text \<open>
  What slips through: a credential word in last position is masked only if it is all
  lower-case, since its lower-case form is what is replaced; and only the first word of a
  quoted value is masked.
\<close>

theorem command_redaction_leaks:
  "redactCommand ''login token123'' = ''login ***'' \<and>
   redactCommand ''login Token123'' = ''login Token123'' \<and>
   redactCommand ''db --password my pass phrase'' = ''db --password *** pass phrase''"
  by code_simp

subsection \<open>Parsing redacted events\<close>

lemma command_not_sensitive: "ToLower k = ''endpoint.command'' \<Longrightarrow> \<not> SensitiveField k"
proof -
  have "\<not> SensitiveField ''endpoint.command''" by code_simp
  moreover have "ToLower ''endpoint.command'' = ''endpoint.command''" by code_simp
  ultimately show "ToLower k = ''endpoint.command'' \<Longrightarrow> \<not> SensitiveField k" by (simp add: SensitiveField_def)
qed

text \<open>The sink tests the two conditions in the other order; the redaction is the same.\<close>

definition infra_redact :: "attrs \<Rightarrow> attrs" where
  "infra_redact m =
     fmmap_keys (\<lambda>k v. if ToLower k = ''endpoint.command'' then redactCommand v else v) (fmfilter (\<lambda>k. \<not> SensitiveField k) m)"

lemma infra_redact_clean: "infra_redact m = infra_clean m"
proof -
  have "(\<lambda>k. ToLower k = ''endpoint.command'' \<or> \<not> SensitiveField k) = (\<lambda>k. \<not> SensitiveField k)"
    using command_not_sensitive by blast
  then show ?thesis unfolding infra_redact_def infra_clean_def by (rule arg_cong [OF sym])
qed

lemma infra_clean_again: "infra_clean (infra_clean m) = infra_clean m"
proof (rule fmap_ext)
  fix k
  show "fmlookup (infra_clean (infra_clean m)) k = fmlookup (infra_clean m) k"
    by (cases "fmlookup m k") (simp_all add: infra_clean_def redactCommand_again)
qed

lemma infra_clean_sensitive: "SensitiveField k \<Longrightarrow> fmlookup (infra_clean m) k = None"
  unfolding infra_redact_clean [symmetric] by (simp add: infra_redact_def)

lemma infra_Parse_redacted:
  "infra_Parse L (Some (e\<lparr>te_attributes := infra_clean (te_attributes e)\<rparr>)) = infra_Parse L (Some e)"
proof -
  let ?e = "e\<lparr>te_attributes := infra_clean (te_attributes e)\<rparr>"
  have base: "infra_base L ?e = infra_base L e"
    by (intro ext) (simp add: infra_base_def occurred_def)
  have attrs: "infra_clean (te_attributes ?e) = infra_clean (te_attributes e)" by (simp add: infra_clean_again)
  have "parseEndpoint L ?e = parseEndpoint L e" unfolding parseEndpoint_def base attrs ..
  moreover have "parseServer L ?e = parseServer L e" unfolding parseServer_def base attrs ..
  moreover have "parseContainer L ?e = parseContainer L e" unfolding parseContainer_def base attrs ..
  moreover have "parseCloud L ?e = parseCloud L e" unfolding parseCloud_def base attrs ..
  ultimately show ?thesis by (simp add: infra_Parse_def)
qed

lemma infra_Parse_Inr:
  "infra_Parse L (Some e) = Inr o1 \<Longrightarrow>
     fo_EventID o1 = te_id e \<and> fo_Source o1 = te_source e \<and> fo_OccurredAt o1 = occurred L e \<and>
     fo_Severity o1 = te_severity e \<and> fo_Type o1 = te_event_type e \<and>
     (case fo_Payload o1 of
        EndpointPayload p \<Rightarrow> te_event_type e = EventTypeEndpointActivity
      | ServerPayload p \<Rightarrow> te_event_type e = EventTypeServerActivity
      | ContainerPayload p \<Rightarrow> te_event_type e = EventTypeContainerActivity
      | CloudPayload p \<Rightarrow> te_event_type e = EventTypeCloudActivity)"
  by (auto simp: infra_Parse_def parseEndpoint_def parseServer_def parseContainer_def parseCloud_def infra_base_def Let_def
      split: if_splits sum.splits)

end
