(* ===== verification/Correlating.thy ===== *)
theory Correlating
  imports AssetStore RecordStore
begin

text \<open>
  What the four correlators share (\<open>correlate.go\<close> and \<open>sink.go\<close> of \<open>netobs\<close>, \<open>httpobs\<close>,
  \<open>infraobs\<close>, \<open>identobs\<close>). A correlator is straight-line code over three calls of the asset
  inventory - resolve, ingest, append an edge - that returns early from many places with
  the correlation built so far. It is written here in a small state and early-return monad:
  an action maps the local correlation and the inventory to a value, or to the error result
  of an early return. Every use of the manager's clock may read a different instant, so the
  clock is a function of the position of the call in the source.
\<close>

subsection \<open>Actions\<close>

record ('s, 'r) inventory =
  iv_assets :: 's
  iv_edges :: 'r

type_synonym ('a, 'c, 's, 'r) act = "'c \<times> ('s, 'r) inventory \<Rightarrow> (goerr + 'a) \<times> 'c \<times> ('s, 'r) inventory"

definition give :: "'a \<Rightarrow> ('a, 'c, 's, 'r) act" where
  "give x st = (Inr x, st)"

definition leave :: "goerr \<Rightarrow> ('a, 'c, 's, 'r) act" where
  "leave e st = (Inl e, st)"

definition andThen :: "('a, 'c, 's, 'r) act \<Rightarrow> ('a \<Rightarrow> ('b, 'c, 's, 'r) act) \<Rightarrow> ('b, 'c, 's, 'r) act" where
  "andThen m f st = (case m st of (Inl e, st1) \<Rightarrow> (Inl e, st1) | (Inr x, st1) \<Rightarrow> f x st1)"

text \<open>An assignment to the local correlation, and a look at it.\<close>

definition note_that :: "('c \<Rightarrow> 'c) \<Rightarrow> (unit, 'c, 's, 'r) act" where
  "note_that f st = (Inr (), f (fst st), snd st)"

definition noted :: "('c, 'c, 's, 'r) act" where
  "noted st = (Inr (fst st), st)"

text \<open>A correlation runs on the zero value of its record and ends in an error or none.\<close>

definition run_act :: "('a, 'c, 's, 'r) act \<Rightarrow> 'c \<Rightarrow> ('s, 'r) inventory \<Rightarrow> goerr \<times> 'c \<times> ('s, 'r) inventory" where
  "run_act m c iv = (case m (c, iv) of (Inl e, st) \<Rightarrow> (e, st) | (Inr _, st) \<Rightarrow> (None, st))"

text \<open>
  The three calls. They answer with the call's own result, errors included: what the caller
  does with an error is the caller's code.
\<close>

record ('s, 'r) inventory_api =
  ia_pb :: pblib
  ia_url :: urllib
  ia_store :: "'s AssetStore"
  ia_append :: "'r RelationshipStore"
  ia_now :: "nat \<Rightarrow> gotime"

definition resolve :: "('s, 'r) inventory_api \<Rightarrow> string \<Rightarrow> (Asset option res, 'c, 's, 'r) act" where
  "resolve A ref st = (Inr (asset_Resolve (ia_url A) (ia_store A) ref (iv_assets (snd st))), st)"

definition ingest :: "('s, 'r) inventory_api \<Rightarrow> nat \<Rightarrow> asset_Observation \<Rightarrow> ((Asset \<times> bool) res, 'c, 's, 'r) act" where
  "ingest A n obs st =
     (case asset_Ingest (ia_pb A) (ia_url A) (ia_store A) (ia_append A) (ia_now A n) obs
        (iv_assets (snd st), iv_edges (snd st)) of
        (out, s, r) \<Rightarrow> (Inr out, fst st, (snd st)\<lparr>iv_assets := s, iv_edges := r\<rparr>))"

definition append_edge :: "('s, 'r) inventory_api \<Rightarrow> Relationship \<Rightarrow> (goerr, 'c, 's, 'r) act" where
  "append_edge A rel st =
     (case ia_append A rel (iv_edges (snd st)) of
        (e, r) \<Rightarrow> (Inr e, fst st, (snd st)\<lparr>iv_edges := r\<rparr>))"

text \<open>Append, where a duplicate counts as recorded and any other error ends the correlation.\<close>

definition link :: "('s, 'r) inventory_api \<Rightarrow> string \<Rightarrow> Relationship \<Rightarrow> (unit, 'c, 's, 'r) act" where
  "link A what rel = andThen (append_edge A rel) (\<lambda>e. case e of
     None \<Rightarrow> give ()
   | Some x \<Rightarrow> if errors_Is x (Store ErrDuplicate) then give () else leave (Some (Ctx what x)))"

definition sighting :: "string \<Rightarrow> enum \<Rightarrow> string \<Rightarrow> gotime \<Rightarrow> (string \<times> string) list \<Rightarrow> asset_Observation" where
  "sighting source kind raw observed m = \<lparr>ob_Source = source, ob_Type = kind, ob_Raw = raw,
     ob_ObservedAt = observed, ob_Environment = [], ob_Attributes = fmap_of_list m\<rparr>"

definition edge :: "Asset \<Rightarrow> string \<Rightarrow> Asset \<Rightarrow> string \<Rightarrow> gotime \<Rightarrow> Relationship" where
  "edge parent kind child source observed = \<lparr>rel_ParentID = as_id parent, rel_ChildID = as_id child,
     rel_Kind = kind, rel_Source = source, rel_ObservedAt = observed\<rparr>"

subsection \<open>Allowlists\<close>

text \<open>
  The configuration of the host and principal correlators: auto-creation and an allowlist need
  each other, every entry is trimmed and lowered, and \<open>bad\<close> is what the package refuses beyond
  an empty entry. Set membership is all the program asks of the result.
\<close>

record allow_config =
  al_entries :: "string list"
  al_auto :: bool

fun allow_entries :: "string \<Rightarrow> string \<Rightarrow> (string \<Rightarrow> bool) \<Rightarrow> string list \<Rightarrow> string list res" where
  "allow_entries pkg noun bad [] = Inr []"
| "allow_entries pkg noun bad (h # hs) =
     (let t = ToLower (TrimSpace h) in
      if t = [] then Inl (Plain (pkg @ '': empty allowed '' @ noun))
      else if bad t then Inl (Plain (pkg @ '': invalid allowed '' @ noun @ '' '' @ quote h))
      else map_sum id (\<lambda>ts. t # ts) (allow_entries pkg noun bad hs))"

definition allow_validate :: "string \<Rightarrow> string \<Rightarrow> (string \<Rightarrow> bool) \<Rightarrow> allow_config \<Rightarrow> string list res" where
  "allow_validate pkg noun bad c =
     (if \<not> al_auto c \<and> al_entries c \<noteq> []
        then Inl (Plain (pkg @ '': allowed '' @ noun @ ''s configured while auto-create disabled''))
      else if al_auto c \<and> al_entries c = [] then Inl (Plain (pkg @ '': auto-create needs at least one allowed '' @ noun))
      else allow_entries pkg noun bad (al_entries c))"

text \<open>The constructors of the correlators: both stores, then the configuration.\<close>

definition new_correlator :: "string \<Rightarrow> bool \<Rightarrow> bool \<Rightarrow> 'a res \<Rightarrow> 'a res" where
  "new_correlator pkg mgr_nil rels_nil config =
     (if mgr_nil then Inl (Plain (pkg @ '': asset manager is nil''))
      else if rels_nil then Inl (Plain (pkg @ '': relationship store is nil''))
      else config)"

subsection \<open>Correlating sinks\<close>

text \<open>
  \<open>CorrelatingSink.Emit\<close>: an event the package handles is redacted in place and correlated; an
  error other than a duplicate ends the call, and otherwise the event goes downstream, into a
  sink that may share the inventory. The event the call leaves behind is the one it was given,
  redacted.
\<close>

type_synonym ('i, 'd) emitter = "TelemetryEvent \<Rightarrow> 'i \<times> 'd \<Rightarrow> goerr \<times> 'i \<times> 'd"

definition correlating_Emit ::
  "(TelemetryEvent \<Rightarrow> bool) \<Rightarrow> (attrs \<Rightarrow> attrs) \<Rightarrow> (TelemetryEvent \<Rightarrow> 'i \<Rightarrow> goerr \<times> 'i) \<Rightarrow> ('i, 'd) emitter
    \<Rightarrow> ('i, 'd) emitter" where
  "correlating_Emit handles redact correlate down e w =
     (if handles e then
        (let e1 = e\<lparr>te_attributes := redact (te_attributes e)\<rparr> in
         case correlate e1 (fst w) of
           (Some x, i) \<Rightarrow> if errors_Is x (Store ErrDuplicate) then down e1 (i, snd w) else (Some x, i, snd w)
         | (None, i) \<Rightarrow> down e1 (i, snd w))
      else down e w)"

definition NewCorrelatingSink :: "string \<Rightarrow> bool \<Rightarrow> bool \<Rightarrow> goerr" where
  "NewCorrelatingSink pkg correlator_nil downstream_nil = first_err [
     fail_if correlator_nil (Plain (pkg @ '': correlator is nil'')),
     fail_if downstream_nil (Plain (pkg @ '': downstream is nil''))]"

subsection \<open>What an action does to the inventory\<close>

named_theorems step_intros \<open>how the combinators and the three calls carry a relation on inventories\<close>

definition steps :: "(('s, 'r) inventory \<Rightarrow> ('s, 'r) inventory \<Rightarrow> bool) \<Rightarrow> ('a, 'c, 's, 'r) act \<Rightarrow> bool" where
  "steps R m \<longleftrightarrow> (\<forall>st. R (snd st) (snd (snd (m st))))"

lemma stepsD: "steps R m \<Longrightarrow> m st = (x, st1) \<Longrightarrow> R (snd st) (snd st1)"
  by (metis steps_def snd_conv)

text \<open>A reflexive and transitive relation the two writing calls respect.\<close>

locale inventory_relation =
  fixes A :: "('s, 'r) inventory_api" and R :: "('s, 'r) inventory \<Rightarrow> ('s, 'r) inventory \<Rightarrow> bool"
  assumes same: "R iv iv"
    and chain: "R iv iv1 \<Longrightarrow> R iv1 iv2 \<Longrightarrow> R iv iv2"
    and appended: "ia_append A rel (iv_edges iv) = (e, r) \<Longrightarrow> R iv (iv\<lparr>iv_edges := r\<rparr>)"
begin

lemma steps_give [step_intros]: "steps R (give x)"
  by (simp add: steps_def give_def same)

lemma steps_leave [step_intros]: "steps R (leave e)"
  by (simp add: steps_def leave_def same)

lemma steps_note [step_intros]: "steps R (note_that f)"
  by (simp add: steps_def note_that_def same)

lemma steps_noted [step_intros]: "steps R noted"
  by (simp add: steps_def noted_def same)

lemma steps_resolve [step_intros]: "steps R (resolve B ref)"
  by (simp add: steps_def resolve_def same)

lemma steps_append [step_intros]: "steps R (append_edge A rel)"
  using appended by (auto simp: steps_def append_edge_def split: prod.splits)

lemma steps_andThen [step_intros]:
  assumes "steps R m" and "\<And>x. steps R (f x)"
  shows "steps R (andThen m f)"
  unfolding steps_def
proof
  fix st
  obtain x st1 where m: "m st = (x, st1)" by (rule prod.exhaust)
  have r: "R (snd st) (snd st1)" using stepsD [OF assms(1) m] .
  show "R (snd st) (snd (snd (andThen m f st)))"
  proof (cases x)
    case (Inl e)
    then show ?thesis using r by (simp add: andThen_def m)
  next
    case (Inr y)
    have "R (snd st1) (snd (snd (f y st1)))" using assms(2) [of y] unfolding steps_def by blast
    then show ?thesis using r chain by (simp add: andThen_def m Inr)
  qed
qed

lemma steps_link [step_intros]: "steps R (link A what rel)"
  unfolding link_def by (rule steps_andThen [OF steps_append]) (auto split: option.split intro: step_intros)

lemma steps_run: "steps R m \<Longrightarrow> run_act m c iv = (e, c1, iv1) \<Longrightarrow> R iv iv1"
  by (auto simp: run_act_def split: prod.splits sum.splits dest: stepsD)

end

text \<open>The same, for a relation that ingesting respects too.\<close>

locale ingest_relation = inventory_relation A R
  for A :: "('s, 'r) inventory_api" and R :: "('s, 'r) inventory \<Rightarrow> ('s, 'r) inventory \<Rightarrow> bool" +
  assumes ingested: "asset_Ingest (ia_pb A) (ia_url A) (ia_store A) (ia_append A) now obs (iv_assets iv, iv_edges iv) = (out, s, r) \<Longrightarrow>
      R iv (iv\<lparr>iv_assets := s, iv_edges := r\<rparr>)"
begin

lemma steps_ingest [step_intros]: "steps R (ingest A n obs)"
  using ingested by (auto simp: steps_def ingest_def split: prod.splits)

end

subsection \<open>The in-memory inventory\<close>

definition memory_api :: "pblib \<Rightarrow> urllib \<Rightarrow> (nat \<Rightarrow> gotime) \<Rightarrow> (Asset gomap, rel_map) inventory_api" where
  "memory_api L U now = \<lparr>ia_pb = L, ia_url = U, ia_store = memory_assets L U,
     ia_append = memoryRelationships_Append, ia_now = now\<rparr>"

lemma memory_api_sel [simp]:
  "ia_pb (memory_api L U now) = L" "ia_url (memory_api L U now) = U" "ia_store (memory_api L U now) = memory_assets L U"
  "ia_append (memory_api L U now) = memoryRelationships_Append" "ia_now (memory_api L U now) = now"
  by (simp_all add: memory_api_def)

text \<open>An edge is kept under its key once recorded, and only valid edges are recorded.\<close>

definition edges_ok :: "rel_map \<Rightarrow> bool" where
  "edges_ok r \<longleftrightarrow> (\<forall>k x. fmlookup r k = Some x \<longrightarrow> relKey_of x = k \<and> Relationship_Validate x = None)"

definition edges_kept :: "rel_map \<Rightarrow> rel_map \<Rightarrow> bool" where
  "edges_kept r r1 \<longleftrightarrow> map_grows r r1 \<and> (edges_ok r \<longrightarrow> edges_ok r1)"

definition memory_kept :: "(Asset gomap, rel_map) inventory \<Rightarrow> (Asset gomap, rel_map) inventory \<Rightarrow> bool" where
  "memory_kept iv iv1 \<longleftrightarrow> (keyed as_id (iv_assets iv) \<longrightarrow> inventory_kept (iv_assets iv) (iv_assets iv1)) \<and>
     edges_kept (iv_edges iv) (iv_edges iv1)"

lemma edges_kept_refl [simp]: "edges_kept r r"
  by (simp add: edges_kept_def)

lemma edges_kept_trans: "edges_kept r r1 \<Longrightarrow> edges_kept r1 r2 \<Longrightarrow> edges_kept r r2"
  unfolding edges_kept_def using map_grows_trans by blast

lemma append_edges_kept: "memoryRelationships_Append x r = (e, r1) \<Longrightarrow> edges_kept r r1"
  by (auto simp: memoryRelationships_Append_def edges_kept_def edges_ok_def map_grows_def split: option.splits if_splits)

lemma append_links_kept: "append_links memoryRelationships_Append ls r = (e, r1) \<Longrightarrow> edges_kept r r1"
proof (induction ls arbitrary: r)
  case (Cons l ls)
  obtain e0 r0 where l: "memoryRelationships_Append l r = (e0, r0)" by (rule prod.exhaust)
  then have "edges_kept r r0" by (rule append_edges_kept)
  then show ?case using Cons l edges_kept_trans by (cases e0) (auto split: if_splits)
qed simp

lemma ingest_edges_kept:
  "asset_Ingest L U S memoryRelationships_Append now obs (s, r) = (out, s1, r1) \<Longrightarrow> edges_kept r r1"
  by (auto simp: asset_Ingest_def dest!: append_links_kept split: if_splits sum.splits option.splits prod.splits)

lemma memory_kept_trans: "memory_kept a b \<Longrightarrow> memory_kept b c \<Longrightarrow> memory_kept a c"
  unfolding memory_kept_def by (meson edges_kept_trans inventory_kept_def inventory_kept_trans)

lemma memory_kept_refl: "memory_kept iv iv"
  by (simp add: memory_kept_def inventory_kept_refl)

lemma memory_kept_append: "memoryRelationships_Append x (iv_edges iv) = (e, r) \<Longrightarrow> memory_kept iv (iv\<lparr>iv_edges := r\<rparr>)"
  by (simp add: memory_kept_def inventory_kept_refl append_edges_kept)

interpretation kept: ingest_relation "memory_api L U now" memory_kept for L U now
proof
  fix iv :: "(Asset gomap, rel_map) inventory" and obs now' out s r
  assume "asset_Ingest (ia_pb (memory_api L U now)) (ia_url (memory_api L U now)) (ia_store (memory_api L U now))
    (ia_append (memory_api L U now)) now' obs (iv_assets iv, iv_edges iv) = (out, s, r)"
  then have i: "asset_Ingest L U (memory_assets L U) memoryRelationships_Append now' obs (iv_assets iv, iv_edges iv) = (out, s, r)"
    by simp
  have "keyed as_id (iv_assets iv) \<Longrightarrow> inventory_kept (iv_assets iv) s"
    using memory_Ingest_kept [of L U "(now', obs)"] i by (auto simp: memory_Ingest_def)
  then show "memory_kept iv (iv\<lparr>iv_assets := s, iv_edges := r\<rparr>)"
    using ingest_edges_kept [OF i] by (simp add: memory_kept_def)
qed (rule memory_kept_refl, erule (1) memory_kept_trans, simp add: memory_kept_append)

text \<open>Without ingesting, the assets stay as they are.\<close>

definition assets_same :: "(Asset gomap, rel_map) inventory \<Rightarrow> (Asset gomap, rel_map) inventory \<Rightarrow> bool" where
  "assets_same iv iv1 \<longleftrightarrow> iv_assets iv1 = iv_assets iv"

interpretation same: inventory_relation "memory_api L U now" assets_same for L U now
  by (rule inventory_relation.intro) (auto simp: assets_same_def)

subsection \<open>Streams through a correlating sink\<close>

fun emit_all :: "('i, 'd) emitter \<Rightarrow> TelemetryEvent list \<Rightarrow> 'i \<times> 'd \<Rightarrow> 'i \<times> 'd" where
  "emit_all em [] w = w"
| "emit_all em (e # es) w = emit_all em es (snd (em e w))"

text \<open>
  The laws of a correlation stage: the correlator respects a relation on the inventory and the
  redaction drops or rewrites attributes only, the same however often it is applied.
\<close>

locale correlation_stage =
  fixes R :: "'i \<Rightarrow> 'i \<Rightarrow> bool" and handles :: "TelemetryEvent \<Rightarrow> bool" and redact :: "attrs \<Rightarrow> attrs"
    and correlate :: "TelemetryEvent \<Rightarrow> 'i \<Rightarrow> goerr \<times> 'i"
  assumes start: "R i i"
    and compose: "R i j \<Longrightarrow> R j k \<Longrightarrow> R i k"
    and respects: "correlate e i = (x, j) \<Longrightarrow> R i j"
    and kind: "handles (e\<lparr>te_attributes := m\<rparr>) = handles e"
    and again: "redact (redact m) = redact m"
begin

lemma emit_keeps:
  assumes "\<And>e w. R (fst w) (fst (snd (down e w)))"
  shows "R (fst w) (fst (snd (correlating_Emit handles redact correlate down e w)))"
proof (cases "handles e")
  case True
  let ?e = "e\<lparr>te_attributes := redact (te_attributes e)\<rparr>"
  obtain x j where c: "correlate ?e (fst w) = (x, j)" by (rule prod.exhaust)
  have "R (fst w) (fst (snd (down ?e (j, snd w))))" using compose [OF respects [OF c] assms [of "(j, snd w)", simplified]] .
  then show ?thesis using True c respects [OF c] by (cases x) (auto simp: correlating_Emit_def Let_def)
qed (simp add: correlating_Emit_def assms)

text \<open>What is downstream sees the redacted event or nothing.\<close>

definition seen :: "TelemetryEvent \<Rightarrow> TelemetryEvent" where
  "seen e = (if handles e then e\<lparr>te_attributes := redact (te_attributes e)\<rparr> else e)"

lemma emit_down:
  "snd (snd (correlating_Emit handles redact correlate down e w)) = snd w \<and> fst (correlating_Emit handles redact correlate down e w) \<noteq> None \<or>
   (\<exists>i. correlating_Emit handles redact correlate down e w = down (seen e) (i, snd w))"
proof (cases "handles e")
  case True
  obtain x j where "correlate (seen e) (fst w) = (x, j)" by (rule prod.exhaust)
  then show ?thesis using True by (cases x) (auto simp: correlating_Emit_def seen_def Let_def)
next
  case False
  then have "correlating_Emit handles redact correlate down e w = down (seen e) (fst w, snd w)"
    by (simp add: correlating_Emit_def seen_def)
  then show ?thesis by blast
qed

lemma seen_again: "seen (seen e) = seen e"
  by (auto simp: seen_def kind again)

end

end
