(* ===== verification/Correlators.thy ===== *)
theory Correlators
  imports NetObs InfraObs Correlating
begin

text \<open>
  The four correlators (\<open>correlate.go\<close> of \<open>netobs\<close>, \<open>httpobs\<close>, \<open>infraobs\<close>, \<open>identobs\<close>): each links
  a normalized observation to the asset inventory, creates an asset only where its
  configuration allows, and records edges between assets.
\<close>

text \<open>\<open>a, _ := Resolve(...)\<close>: an error reads as no asset.\<close>

definition found_asset :: "Asset option res \<Rightarrow> Asset option" where
  "found_asset r = (case r of Inl _ \<Rightarrow> None | Inr a \<Rightarrow> a)"

text \<open>An append whose error is dropped.\<close>

definition link_quietly :: "('s, 'r) inventory_api \<Rightarrow> Relationship \<Rightarrow> (unit, 'c, 's, 'r) act" where
  "link_quietly A rel = andThen (append_edge A rel) (\<lambda>e. give ())"

subsection \<open>Network (\<open>netobs\<close>)\<close>

record CorrelateConfig =
  nf_LocalPrefixes :: "string list"
  nf_AllowAutoCreate :: bool

record net_correlator =
  nc_prefixes :: "Prefix list"
  nc_auto :: bool

fun parse_prefixes :: "string list \<Rightarrow> Prefix list res" where
  "parse_prefixes [] = Inr []"
| "parse_prefixes (raw # rs) =
     (case ParsePrefix raw of
        None \<Rightarrow> Inl (Plain (''netobs: invalid local prefix '' @ quote raw))
      | Some p \<Rightarrow> map_sum id (\<lambda>ps. Masked p # ps) (parse_prefixes rs))"

definition net_validate :: "CorrelateConfig \<Rightarrow> Prefix list res" where
  "net_validate c =
     (if \<not> nf_AllowAutoCreate c \<and> nf_LocalPrefixes c \<noteq> []
        then Inl (Plain ''netobs: local prefixes configured while auto-create is disabled'')
      else if nf_AllowAutoCreate c \<and> nf_LocalPrefixes c = []
        then Inl (Plain ''netobs: auto-create needs at least one local prefix'')
      else parse_prefixes (nf_LocalPrefixes c))"

definition NewCorrelator :: "bool \<Rightarrow> bool \<Rightarrow> CorrelateConfig \<Rightarrow> net_correlator res" where
  "NewCorrelator mgr_nil rels_nil c = new_correlator ''netobs'' mgr_nil rels_nil
     (map_sum id (\<lambda>ps. \<lparr>nc_prefixes = ps, nc_auto = nf_AllowAutoCreate c\<rparr>) (net_validate c))"

record net_Correlation =
  ncn_Obs :: "net_Observation option"
  ncn_SrcAsset :: "Asset option"
  ncn_DstAsset :: "Asset option"
  ncn_SrcCreated :: bool
  ncn_DstCreated :: bool
  ncn_RelRecorded :: bool

definition no_net_Correlation :: net_Correlation where
  "no_net_Correlation = \<lparr>ncn_Obs = None, ncn_SrcAsset = None, ncn_DstAsset = None, ncn_SrcCreated = False,
     ncn_DstCreated = False, ncn_RelRecorded = False\<rparr>"

definition isLocal :: "net_correlator \<Rightarrow> Addr \<Rightarrow> bool" where
  "isLocal C ip \<longleftrightarrow> list_ex (\<lambda>p. Prefix_Contains p ip) (nc_prefixes C)"

definition resolveOrObserve ::
  "('s, 'r) inventory_api \<Rightarrow> net_correlator \<Rightarrow> nat \<Rightarrow> Addr \<Rightarrow> net_Observation \<Rightarrow> string
    \<Rightarrow> (Asset option \<times> bool, 'c, 's, 'r) act" where
  "resolveOrObserve A C n ip obs role =
     andThen (resolve A (Addr_String ip)) (\<lambda>r. case r of
       Inl e \<Rightarrow> leave (Some (Ctx (''netobs: resolve '' @ role) e))
     | Inr (Some a) \<Rightarrow> give (Some a, False)
     | Inr None \<Rightarrow>
         if \<not> nc_auto C \<or> \<not> isLocal C ip then give (None, False)
         else
           andThen (ingest A n (sighting (no_Source obs) ASSET_TYPE_IP_ADDRESS (Addr_String ip) (no_OccurredAt obs)
             [(''blueveil.netobs_event'', no_EventID obs), (''blueveil.netobs_role'', role)])) (\<lambda>out. case out of
             Inl e \<Rightarrow> leave (Some (Ctx (''netobs: observe '' @ role) e))
           | Inr (stored, created) \<Rightarrow> give (Some stored, created)))"

definition net_correlation ::
  "('s, 'r) inventory_api \<Rightarrow> net_correlator \<Rightarrow> TelemetryEvent option \<Rightarrow> (unit, net_Correlation, 's, 'r) act" where
  "net_correlation A C p =
     (case net_Parse (ia_pb A) p of
        Inl e \<Rightarrow> leave (Some e)
      | Inr obs \<Rightarrow>
         andThen (note_that (\<lambda>c. c\<lparr>ncn_Obs := Some obs\<rparr>)) (\<lambda>_.
         andThen (resolveOrObserve A C 0 (no_SrcIP obs) obs ''src'') (\<lambda>(src, created).
         andThen (note_that (\<lambda>c. c\<lparr>ncn_SrcAsset := src, ncn_SrcCreated := created\<rparr>)) (\<lambda>_.
         andThen (resolveOrObserve A C 1 (no_DstIP obs) obs ''dst'') (\<lambda>(dst, created).
         andThen (note_that (\<lambda>c. c\<lparr>ncn_DstAsset := dst, ncn_DstCreated := created\<rparr>)) (\<lambda>_.
           (case (src, dst) of
              (Some s, Some d) \<Rightarrow>
                if as_id s = as_id d then leave None
                else
                  andThen (link A ''netobs: append relationship''
                    (edge s ''COMMUNICATES_WITH'' d (no_Source obs) (no_OccurredAt obs)))
                    (\<lambda>_. note_that (\<lambda>c. c\<lparr>ncn_RelRecorded := True\<rparr>))
            | _ \<Rightarrow> leave None)))))))"

definition net_Correlate ::
  "('s, 'r) inventory_api \<Rightarrow> net_correlator \<Rightarrow> TelemetryEvent option \<Rightarrow> ('s, 'r) inventory
    \<Rightarrow> goerr \<times> net_Correlation \<times> ('s, 'r) inventory" where
  "net_Correlate A C p iv = run_act (net_correlation A C p) no_net_Correlation iv"

subsection \<open>HTTP (\<open>httpobs\<close>)\<close>

record correlator =
  cr_allowed :: "string list"
  cr_auto :: bool

definition allowlisted :: "correlator \<Rightarrow> string \<Rightarrow> bool" where
  "allowlisted C s \<longleftrightarrow> ToLower s \<in> set (cr_allowed C)"

definition http_validate :: "allow_config \<Rightarrow> string list res" where
  "http_validate c = allow_validate ''httpobs'' ''host'' (\<lambda>t. contains t '' '' \<or> contains t ''/'') c"

definition allow_correlator :: "allow_config \<Rightarrow> string list \<Rightarrow> correlator" where
  "allow_correlator c allowed = \<lparr>cr_allowed = allowed, cr_auto = al_auto c\<rparr>"

definition NewHTTPCorrelator :: "bool \<Rightarrow> bool \<Rightarrow> allow_config \<Rightarrow> correlator res" where
  "NewHTTPCorrelator mgr_nil rels_nil c =
     new_correlator ''httpobs'' mgr_nil rels_nil (map_sum id (allow_correlator c) (http_validate c))"

record HTTPCorrelation =
  hc_Obs :: "http_Observation option"
  hc_URLAsset :: "Asset option"
  hc_URLCreated :: bool
  hc_DomainAsset :: "Asset option"
  hc_AppAsset :: "Asset option"
  hc_AppCreated :: bool
  hc_ServiceAsset :: "Asset option"
  hc_RelExposesRecorded :: bool
  hc_RelServedByRecorded :: bool

definition no_HTTPCorrelation :: HTTPCorrelation where
  "no_HTTPCorrelation = \<lparr>hc_Obs = None, hc_URLAsset = None, hc_URLCreated = False, hc_DomainAsset = None,
     hc_AppAsset = None, hc_AppCreated = False, hc_ServiceAsset = None, hc_RelExposesRecorded = False,
     hc_RelServedByRecorded = False\<rparr>"

definition http_sighting :: "http_Observation \<Rightarrow> enum \<Rightarrow> string \<Rightarrow> asset_Observation" where
  "http_sighting obs kind raw =
     sighting (ho_Source obs) kind raw (ho_OccurredAt obs) [(''blueveil.httpobs_event'', ho_EventID obs)]"

definition http_scheme :: "http_Observation \<Rightarrow> string" where
  "http_scheme obs = (if ho_Scheme obs = [] then ''https'' else ho_Scheme obs)"

text \<open>The URL asset: resolved, or created where allowed; without one the correlation ends.\<close>

definition http_url ::
  "('s, 'r) inventory_api \<Rightarrow> correlator \<Rightarrow> http_Observation \<Rightarrow> (unit, HTTPCorrelation, 's, 'r) act" where
  "http_url A C obs =
     (let urlStr = http_scheme obs @ ''://'' @ ho_Host obs @ ho_Path obs in
      andThen (resolve A urlStr) (\<lambda>r. case r of
        Inl e \<Rightarrow> leave (Some (Ctx ''httpobs: resolve url'' e))
      | Inr (Some a) \<Rightarrow> note_that (\<lambda>c. c\<lparr>hc_URLAsset := Some a\<rparr>)
      | Inr None \<Rightarrow>
          if cr_auto C \<and> allowlisted C (ho_Host obs) then
            andThen (ingest A 0 (http_sighting obs ASSET_TYPE_URL urlStr)) (\<lambda>out. case out of
              Inl e \<Rightarrow> leave (Some (Ctx ''httpobs: observe url'' e))
            | Inr (stored, created) \<Rightarrow> note_that (\<lambda>c. c\<lparr>hc_URLAsset := Some stored, hc_URLCreated := created\<rparr>))
          else leave None))"

text \<open>The application named by the event, and its edge to the URL.\<close>

definition http_app ::
  "('s, 'r) inventory_api \<Rightarrow> correlator \<Rightarrow> http_Observation \<Rightarrow> (unit, HTTPCorrelation, 's, 'r) act" where
  "http_app A C obs =
     (let appName = trimmed (ho_RawAttrs obs) ''http.application'' in
      if appName = [] then give ()
      else
        andThen (andThen (resolve A appName) (\<lambda>r. case r of
          Inl e \<Rightarrow> leave (Some (Ctx ''httpobs: resolve app'' e))
        | Inr (Some a) \<Rightarrow> note_that (\<lambda>c. c\<lparr>hc_AppAsset := Some a\<rparr>)
        | Inr None \<Rightarrow>
            if cr_auto C \<and> allowlisted C (ho_Host obs) then
              andThen (ingest A 1 (http_sighting obs ASSET_TYPE_APPLICATION appName)) (\<lambda>out. case out of
                Inl e \<Rightarrow> leave (Some (Ctx ''httpobs: observe app'' e))
              | Inr (stored, created) \<Rightarrow> note_that (\<lambda>c. c\<lparr>hc_AppAsset := Some stored, hc_AppCreated := created\<rparr>))
            else give ())) (\<lambda>_.
        andThen noted (\<lambda>c. case (hc_AppAsset c, hc_URLAsset c) of
          (Some a, Some u) \<Rightarrow>
            andThen (link A ''httpobs: append exposes'' (edge a ''EXPOSES'' u (ho_Source obs) (ho_OccurredAt obs)))
              (\<lambda>_. note_that (\<lambda>c. c\<lparr>hc_RelExposesRecorded := True\<rparr>))
        | _ \<Rightarrow> give ())))"

text \<open>The service at the host's default port, and the URL's edge to it.\<close>

definition http_service ::
  "('s, 'r) inventory_api \<Rightarrow> http_Observation \<Rightarrow> (unit, HTTPCorrelation, 's, 'r) act" where
  "http_service A obs =
     (let port = (if http_scheme obs = ''http'' then ''80'' else ''443'') in
      andThen noted (\<lambda>c. case hc_URLAsset c of
        None \<Rightarrow> give ()
      | Some u \<Rightarrow>
          andThen (resolve A (ho_Host obs @ '':'' @ port)) (\<lambda>r. case r of
            Inl e \<Rightarrow> if isNotFound e then give () else leave (Some (Ctx ''httpobs: resolve service'' e))
          | Inr None \<Rightarrow> give ()
          | Inr (Some svc) \<Rightarrow>
              andThen (note_that (\<lambda>c. c\<lparr>hc_ServiceAsset := Some svc\<rparr>)) (\<lambda>_.
              andThen (link A ''httpobs: append served_by'' (edge u ''SERVED_BY'' svc (ho_Source obs) (ho_OccurredAt obs)))
                (\<lambda>_. note_that (\<lambda>c. c\<lparr>hc_RelServedByRecorded := True\<rparr>))))))"

definition http_correlation ::
  "('s, 'r) inventory_api \<Rightarrow> correlator \<Rightarrow> TelemetryEvent option \<Rightarrow> (unit, HTTPCorrelation, 's, 'r) act" where
  "http_correlation A C p =
     (case http_Parse (ia_pb A) p of
        Inl e \<Rightarrow> leave (Some e)
      | Inr obs \<Rightarrow>
         andThen (note_that (\<lambda>c. c\<lparr>hc_Obs := Some obs\<rparr>)) (\<lambda>_.
         andThen (http_url A C obs) (\<lambda>_.
         andThen (resolve A (ho_Host obs)) (\<lambda>d.
         andThen (case found_asset d of None \<Rightarrow> give () | Some a \<Rightarrow> note_that (\<lambda>c. c\<lparr>hc_DomainAsset := Some a\<rparr>)) (\<lambda>_.
         andThen (http_app A C obs) (\<lambda>_. http_service A obs))))))"

definition http_Correlate ::
  "('s, 'r) inventory_api \<Rightarrow> correlator \<Rightarrow> TelemetryEvent option \<Rightarrow> ('s, 'r) inventory
    \<Rightarrow> goerr \<times> HTTPCorrelation \<times> ('s, 'r) inventory" where
  "http_Correlate A C p iv = run_act (http_correlation A C p) no_HTTPCorrelation iv"

subsection \<open>Infrastructure (\<open>infraobs\<close>)\<close>

definition infra_validate :: "allow_config \<Rightarrow> string list res" where
  "infra_validate c = allow_validate ''infraobs'' ''host'' (\<lambda>t. False) c"

definition NewInfraCorrelator :: "bool \<Rightarrow> bool \<Rightarrow> allow_config \<Rightarrow> correlator res" where
  "NewInfraCorrelator mgr_nil rels_nil c =
     new_correlator ''infraobs'' mgr_nil rels_nil (map_sum id (allow_correlator c) (infra_validate c))"

record InfraCorrelation =
  ic_Obs :: "infra_Observation option"
  ic_HostAsset :: "Asset option"
  ic_Created :: bool

definition no_InfraCorrelation :: InfraCorrelation where
  "no_InfraCorrelation = \<lparr>ic_Obs = None, ic_HostAsset = None, ic_Created = False\<rparr>"

definition infra_sighting :: "infra_Observation \<Rightarrow> enum \<Rightarrow> string \<Rightarrow> (string \<times> string) list \<Rightarrow> asset_Observation" where
  "infra_sighting obs kind raw m = sighting (fo_Source obs) kind raw (fo_OccurredAt obs) m"

definition event_mark :: "infra_Observation \<Rightarrow> (string \<times> string) list" where
  "event_mark obs = [(''blueveil.infra_event'', fo_EventID obs)]"

text \<open>\<open>RUNS\<close> from the asset a host name resolves to, if any.\<close>

definition runs_on ::
  "('s, 'r) inventory_api \<Rightarrow> infra_Observation \<Rightarrow> string \<Rightarrow> Asset \<Rightarrow> (unit, 'c, 's, 'r) act" where
  "runs_on A obs host child = andThen (resolve A host) (\<lambda>h. case found_asset h of
     None \<Rightarrow> give ()
   | Some parent \<Rightarrow> link_quietly A (edge parent ''RUNS'' child (fo_Source obs) (fo_OccurredAt obs)))"

text \<open>The service of a server event: created where the host is allowed, and linked to the host.\<close>

definition infra_service ::
  "('s, 'r) inventory_api \<Rightarrow> correlator \<Rightarrow> infra_Observation \<Rightarrow> ServerObservation \<Rightarrow> (unit, 'c, 's, 'r) act" where
  "infra_service A C obs srv =
     (if so_Service srv = [] then give ()
      else
       (let svcRaw = so_Hostname srv @ '':'' @ so_Service srv in
        andThen (resolve A svcRaw) (\<lambda>r. case r of
          Inl e \<Rightarrow> give ()
        | Inr (Some svc) \<Rightarrow> runs_on A obs (so_Hostname srv) svc
        | Inr None \<Rightarrow>
            if cr_auto C \<and> allowlisted C (so_Hostname srv) then
              andThen (ingest A 0 (infra_sighting obs ASSET_TYPE_SERVICE svcRaw (event_mark obs))) (\<lambda>out. case out of
                Inl e \<Rightarrow> give ()
              | Inr (svc, created) \<Rightarrow> runs_on A obs (so_Hostname srv) svc)
            else give ())))"

text \<open>
  A container event. The condition for creating the container is the source's, word for word:
  its last disjunct holds whenever anything is allowed at all.
\<close>

definition infra_container ::
  "('s, 'r) inventory_api \<Rightarrow> correlator \<Rightarrow> infra_Observation \<Rightarrow> ContainerObservation \<Rightarrow> (unit, InfraCorrelation, 's, 'r) act" where
  "infra_container A C obs cnt =
     (let host = (if co_Cluster cnt = [] then co_Pod cnt else co_Cluster cnt); raw = co_ContainerID cnt in
      andThen (resolve A raw) (\<lambda>r. case r of
        Inl e \<Rightarrow> leave (Some e)
      | Inr (Some a) \<Rightarrow>
          andThen (note_that (\<lambda>c. c\<lparr>ic_HostAsset := Some a\<rparr>)) (\<lambda>_.
            if host = [] then leave None else andThen (runs_on A obs host a) (\<lambda>_. leave None))
      | Inr None \<Rightarrow>
          if cr_auto C \<and> (allowlisted C (co_Image cnt) \<or> allowlisted C host \<or> cr_allowed C \<noteq> []) then
           (let allowed = list_ex (\<lambda>h. contains (ToLower raw) h \<or> contains (ToLower (co_Image cnt)) h) (cr_allowed C) in
            if allowed \<or> cr_allowed C \<noteq> [] then
              andThen (ingest A 0 (infra_sighting obs ASSET_TYPE_CONTAINER raw (event_mark obs @ [(''image'', co_Image cnt)]))) (\<lambda>out.
              case out of
                Inl e \<Rightarrow> leave (Some e)
              | Inr (stored, created) \<Rightarrow>
                  andThen (note_that (\<lambda>c. c\<lparr>ic_HostAsset := Some stored, ic_Created := created\<rparr>)) (\<lambda>_.
                    if host = [] then leave None
                    else
                      andThen (resolve A host) (\<lambda>h. case h of
                        Inr None \<Rightarrow>
                          if cr_auto C then
                            andThen (ingest A 1 (infra_sighting obs ASSET_TYPE_HOST host [])) (\<lambda>hout. case hout of
                              Inl e \<Rightarrow> leave None
                            | Inr (hstored, hcreated) \<Rightarrow>
                                andThen (link_quietly A (edge hstored ''RUNS'' stored (fo_Source obs) (fo_OccurredAt obs)))
                                  (\<lambda>_. leave None))
                          else leave None
                      | _ \<Rightarrow> leave None)))
            else leave None)
          else leave None))"

text \<open>The path endpoint, server and cloud events share.\<close>

definition infra_primary ::
  "('s, 'r) inventory_api \<Rightarrow> correlator \<Rightarrow> infra_Observation \<Rightarrow> string \<Rightarrow> enum \<Rightarrow> string \<Rightarrow> string option
    \<Rightarrow> (unit, InfraCorrelation, 's, 'r) act" where
  "infra_primary A C obs host kind raw provider =
     (if raw = [] then leave None
      else
        andThen (resolve A raw) (\<lambda>r. case r of
          Inl e \<Rightarrow> leave (Some e)
        | Inr (Some a) \<Rightarrow> andThen (note_that (\<lambda>c. c\<lparr>ic_HostAsset := Some a\<rparr>)) (\<lambda>_. leave None)
        | Inr None \<Rightarrow>
            if \<not> cr_auto C then leave None
            else if \<not> allowlisted C host \<and> (case provider of None \<Rightarrow> True | Some q \<Rightarrow> \<not> allowlisted C q) then leave None
            else
              andThen (ingest A 2 (infra_sighting obs kind raw (event_mark obs))) (\<lambda>out. case out of
                Inr (stored, created) \<Rightarrow> note_that (\<lambda>c. c\<lparr>ic_HostAsset := Some stored, ic_Created := created\<rparr>)
              | Inl e \<Rightarrow>
                  if errors_Is e (Store ErrDuplicate) then
                    andThen (resolve A raw) (\<lambda>again. case found_asset again of
                      Some a \<Rightarrow> andThen (note_that (\<lambda>c. c\<lparr>ic_HostAsset := Some a\<rparr>)) (\<lambda>_. leave None)
                    | None \<Rightarrow> leave (Some e))
                  else leave (Some e))))"

definition infra_correlation ::
  "('s, 'r) inventory_api \<Rightarrow> correlator \<Rightarrow> TelemetryEvent option \<Rightarrow> (unit, InfraCorrelation, 's, 'r) act" where
  "infra_correlation A C p =
     (case infra_Parse (ia_pb A) p of
        Inl e \<Rightarrow> leave (Some e)
      | Inr obs \<Rightarrow>
         andThen (note_that (\<lambda>c. c\<lparr>ic_Obs := Some obs\<rparr>)) (\<lambda>_.
           case fo_Payload obs of
             EndpointPayload e \<Rightarrow> infra_primary A C obs (eo_Host e) ASSET_TYPE_HOST (eo_Host e) None
           | ServerPayload srv \<Rightarrow>
               andThen (infra_service A C obs srv) (\<lambda>_.
                 infra_primary A C obs (so_Hostname srv) ASSET_TYPE_HOST (so_Hostname srv) None)
           | ContainerPayload cnt \<Rightarrow> infra_container A C obs cnt
           | CloudPayload cl \<Rightarrow>
               infra_primary A C obs (if cl_Account cl = [] then cl_Provider cl else cl_Account cl) ASSET_TYPE_CLOUD_RESOURCE
                 (if cl_Resource cl = [] then cl_Action cl @ '':'' @ cl_Principal cl else cl_Resource cl) (Some (cl_Provider cl))))"

definition infra_Correlate ::
  "('s, 'r) inventory_api \<Rightarrow> correlator \<Rightarrow> TelemetryEvent option \<Rightarrow> ('s, 'r) inventory
    \<Rightarrow> goerr \<times> InfraCorrelation \<times> ('s, 'r) inventory" where
  "infra_Correlate A C p iv = run_act (infra_correlation A C p) no_InfraCorrelation iv"

subsection \<open>Identity (\<open>identobs\<close>)\<close>

definition ident_validate :: "allow_config \<Rightarrow> string list res" where
  "ident_validate c = allow_validate ''identobs'' ''principal'' (\<lambda>t. False) c"

definition NewIdentCorrelator :: "bool \<Rightarrow> bool \<Rightarrow> allow_config \<Rightarrow> correlator res" where
  "NewIdentCorrelator mgr_nil rels_nil c =
     new_correlator ''identobs'' mgr_nil rels_nil (map_sum id (allow_correlator c) (ident_validate c))"

record IdentCorrelation =
  dc_Obs :: "Observation option"
  dc_PrincipalAsset :: "Asset option"
  dc_PrincipalCreated :: bool
  dc_TargetAsset :: "Asset option"
  dc_RelRecorded :: bool
  dc_RelKind :: string

definition no_IdentCorrelation :: IdentCorrelation where
  "no_IdentCorrelation = \<lparr>dc_Obs = None, dc_PrincipalAsset = None, dc_PrincipalCreated = False, dc_TargetAsset = None,
     dc_RelRecorded = False, dc_RelKind = []\<rparr>"

text \<open>Principal, target and edge kind of an observation.\<close>

definition ident_ends :: "payload \<Rightarrow> string \<times> string \<times> string" where
  "ident_ends p =
     (case p of
        IdentityPayload i \<Rightarrow>
          (io_Principal i,
           (if io_Target i \<noteq> [] then io_Target i else if io_Role i \<noteq> [] then io_Role i else io_Group i),
           (if io_Action i = ''login'' \<or> io_Action i = ''logout'' then ''AUTHENTICATES_TO''
            else if io_Action i = ''role_change'' \<or> io_Action i = ''permission_change'' then ''ASSUMES''
            else if io_Action i = ''group_change'' then ''MEMBER_OF'' else ''ASSUMES''))
      | AuthPayload a \<Rightarrow> (ao_Principal a, ao_Target a, ''AUTHENTICATES_TO'')
      | DataPayload d \<Rightarrow> (do_Principal d, do_Resource d, ''ACCESSES''))"

text \<open>\<open>resolveOther\<close>: the id an opaque asset of this name would have.\<close>

definition resolveOther :: "('s, 'r) inventory_api \<Rightarrow> string \<Rightarrow> (Asset option res, 'c, 's, 'r) act" where
  "resolveOther A raw =
     (case Canonicalize (ia_url A) ASSET_TYPE_OTHER raw of
        Inl e \<Rightarrow> give (Inl e)
      | Inr canonical \<Rightarrow> resolve A (asset_IDFor ASSET_TYPE_OTHER canonical))"

definition ident_sighting :: "Observation \<Rightarrow> string \<Rightarrow> (string \<times> string) list \<Rightarrow> asset_Observation" where
  "ident_sighting obs raw m = sighting (Observation.ob_Source obs) ASSET_TYPE_OTHER raw (ob_OccurredAt obs)
     ([(''blueveil.identobs_event'', ob_EventID obs)] @ m)"

definition ensurePrincipal ::
  "('s, 'r) inventory_api \<Rightarrow> correlator \<Rightarrow> string \<Rightarrow> Observation \<Rightarrow> (Asset option \<times> bool, 'c, 's, 'r) act" where
  "ensurePrincipal A C who obs =
     andThen (resolveOther A who) (\<lambda>r. case r of
       Inl e \<Rightarrow> leave (Some (Ctx ''identobs: resolve principal'' e))
     | Inr (Some a) \<Rightarrow> give (Some a, False)
     | Inr None \<Rightarrow>
         if \<not> cr_auto C \<or> \<not> allowlisted C who then give (None, False)
         else
           andThen (ingest A 0 (ident_sighting obs who [(''blueveil.identity_principal'', ''true'')])) (\<lambda>out. case out of
             Inl e \<Rightarrow> leave (Some (Ctx ''identobs: observe principal'' e))
           | Inr (stored, created) \<Rightarrow> give (Some stored, created)))"

text \<open>The target of a known principal: created as well, but only beside a principal just created.\<close>

definition ident_target ::
  "('s, 'r) inventory_api \<Rightarrow> string \<Rightarrow> bool \<Rightarrow> Observation \<Rightarrow> (Asset option, 'c, 's, 'r) act" where
  "ident_target A target created obs =
     andThen (resolveOther A target) (\<lambda>r. case r of
       Inl e \<Rightarrow> leave (Some (Ctx ''identobs: resolve target'' e))
     | Inr (Some a) \<Rightarrow> give (Some a)
     | Inr None \<Rightarrow>
         if \<not> created then give None
         else
           andThen (ingest A 1 (ident_sighting obs target [])) (\<lambda>out. case out of
             Inr (stored, c) \<Rightarrow> give (Some stored)
           | Inl e \<Rightarrow>
               if \<not> errors_Is e (Store ErrDuplicate) then leave (Some (Ctx ''identobs: observe target'' e))
               else andThen (resolveOther A target) (\<lambda>again. give (found_asset again))))"

text \<open>An observation without a principal only looks its target up.\<close>

definition ident_lookup ::
  "('s, 'r) inventory_api \<Rightarrow> string \<Rightarrow> (unit, IdentCorrelation, 's, 'r) act" where
  "ident_lookup A target =
     (if target = [] then give ()
      else
        andThen (resolve A target) (\<lambda>r. case r of
          Inl e \<Rightarrow> leave (Some (Ctx ''identobs: resolve target'' e))
        | Inr (Some a) \<Rightarrow> note_that (\<lambda>c. c\<lparr>dc_TargetAsset := Some a\<rparr>)
        | Inr None \<Rightarrow> andThen (resolveOther A target) (\<lambda>other. case found_asset other of
            None \<Rightarrow> give () | Some a \<Rightarrow> note_that (\<lambda>c. c\<lparr>dc_TargetAsset := Some a\<rparr>))))"

definition ident_correlation ::
  "('s, 'r) inventory_api \<Rightarrow> correlator \<Rightarrow> TelemetryEvent option \<Rightarrow> (unit, IdentCorrelation, 's, 'r) act" where
  "ident_correlation A C p =
     (case ident_Parse (ia_pb A) p of
        Inl e \<Rightarrow> leave (Some e)
      | Inr obs \<Rightarrow>
         andThen (note_that (\<lambda>c. c\<lparr>dc_Obs := Some obs\<rparr>)) (\<lambda>_.
         case ident_ends (ob_Payload obs) of (who, target, kind) \<Rightarrow>
           if who = [] then andThen (ident_lookup A target) (\<lambda>_. leave None)
           else
             andThen (ensurePrincipal A C who obs) (\<lambda>(pAsset, created).
             andThen (note_that (\<lambda>c. c\<lparr>dc_PrincipalAsset := pAsset, dc_PrincipalCreated := created\<rparr>)) (\<lambda>_.
             case pAsset of
               None \<Rightarrow> leave None
             | Some pa \<Rightarrow>
                 if target = [] then leave None
                 else
                   andThen (ident_target A target created obs) (\<lambda>tAsset. case tAsset of
                     None \<Rightarrow> leave None
                   | Some ta \<Rightarrow>
                       andThen (note_that (\<lambda>c. c\<lparr>dc_TargetAsset := Some ta\<rparr>)) (\<lambda>_.
                         if as_id pa = as_id ta then leave None
                         else
                           andThen (link A ''identobs: append relationship''
                             (edge pa kind ta (Observation.ob_Source obs) (ob_OccurredAt obs)))
                             (\<lambda>_. note_that (\<lambda>c. c\<lparr>dc_RelRecorded := True, dc_RelKind := kind\<rparr>))))))))"

definition ident_Correlate ::
  "('s, 'r) inventory_api \<Rightarrow> correlator \<Rightarrow> TelemetryEvent option \<Rightarrow> ('s, 'r) inventory
    \<Rightarrow> goerr \<times> IdentCorrelation \<times> ('s, 'r) inventory" where
  "ident_Correlate A C p iv = run_act (ident_correlation A C p) no_IdentCorrelation iv"

subsection \<open>Every correlator respects the inventory\<close>

text \<open>
  One proof for the four: the combinators carry any relation the two writing calls respect, so a
  correlator is taken apart along its own structure.
\<close>

context ingest_relation
begin

lemmas by_structure = step_intros

lemma net_steps: "steps R (net_correlation A C p)"
  unfolding net_correlation_def resolveOrObserve_def
  by (auto intro!: by_structure split: sum.split option.split prod.split)

lemma http_steps: "steps R (http_correlation A C p)"
  unfolding http_correlation_def http_url_def http_app_def http_service_def Let_def
  by (auto intro!: by_structure split: sum.split option.split prod.split)

lemma steps_link_quietly: "steps R (link_quietly A rel)"
  unfolding link_quietly_def by (intro by_structure)

lemma steps_runs_on: "steps R (runs_on A obs host child)"
  unfolding runs_on_def by (auto intro!: by_structure steps_link_quietly split: option.split)

lemma infra_steps: "steps R (infra_correlation A C p)"
  unfolding infra_correlation_def infra_service_def infra_container_def infra_primary_def Let_def
  by (auto intro!: by_structure steps_runs_on steps_link_quietly split: sum.split option.split prod.split infra_payload.split)

lemma steps_resolveOther: "steps R (resolveOther A raw)"
  unfolding resolveOther_def by (auto intro!: by_structure split: sum.split)

lemma ident_steps: "steps R (ident_correlation A C p)"
  unfolding ident_correlation_def ensurePrincipal_def ident_target_def ident_lookup_def
  by (auto intro!: by_structure steps_resolveOther split: sum.split option.split prod.split)

end

end
