(* ===== verification/ObsSinks.thy ===== *)
theory ObsSinks
  imports Correlators
begin

text \<open>
  The correlating sinks of the four packages and the chain the collector stacks them in
  (\<open>cmd/collector/seed.go\<close>: identity, infrastructure, HTTP, network, then the incident stage),
  all over one asset inventory.
\<close>

subsection \<open>The four sinks\<close>

type_synonym memory_inventory = "(Asset gomap, rel_map) inventory"

definition net_handles :: "TelemetryEvent \<Rightarrow> bool" where
  "net_handles e \<longleftrightarrow> te_event_type e = EventTypeConnection"

definition http_handles :: "TelemetryEvent \<Rightarrow> bool" where
  "http_handles e \<longleftrightarrow> te_event_type e = EventTypeHTTPRequest"

definition infra_handles :: "TelemetryEvent \<Rightarrow> bool" where
  "infra_handles e \<longleftrightarrow> te_event_type e \<in> {EventTypeEndpointActivity, EventTypeServerActivity,
     EventTypeContainerActivity, EventTypeCloudActivity}"

definition ident_handles :: "TelemetryEvent \<Rightarrow> bool" where
  "ident_handles e \<longleftrightarrow> te_event_type e \<in> {EventTypeIdentityActivity, EventTypeAuthActivity, EventTypeDataActivity}"

text \<open>The sink drops the correlation and keeps its error.\<close>

definition errors_of :: "(TelemetryEvent option \<Rightarrow> 'i \<Rightarrow> goerr \<times> 'c \<times> 'i) \<Rightarrow> TelemetryEvent \<Rightarrow> 'i \<Rightarrow> goerr \<times> 'i" where
  "errors_of correlate e i = (case correlate (Some e) i of (x, c, i1) \<Rightarrow> (x, i1))"

definition net_Emit ::
  "('s, 'r) inventory_api \<Rightarrow> net_correlator \<Rightarrow> (('s, 'r) inventory, 'd) emitter \<Rightarrow> (('s, 'r) inventory, 'd) emitter" where
  "net_Emit A C = correlating_Emit net_handles (\<lambda>m. m) (errors_of (net_Correlate A C))"

definition http_Emit ::
  "('s, 'r) inventory_api \<Rightarrow> correlator \<Rightarrow> (('s, 'r) inventory, 'd) emitter \<Rightarrow> (('s, 'r) inventory, 'd) emitter" where
  "http_Emit A C = correlating_Emit http_handles http_clean (errors_of (http_Correlate A C))"

definition infra_Emit ::
  "('s, 'r) inventory_api \<Rightarrow> correlator \<Rightarrow> (('s, 'r) inventory, 'd) emitter \<Rightarrow> (('s, 'r) inventory, 'd) emitter" where
  "infra_Emit A C = correlating_Emit infra_handles infra_redact (errors_of (infra_Correlate A C))"

definition ident_Emit ::
  "('s, 'r) inventory_api \<Rightarrow> correlator \<Rightarrow> (('s, 'r) inventory, 'd) emitter \<Rightarrow> (('s, 'r) inventory, 'd) emitter" where
  "ident_Emit A C = correlating_Emit ident_handles cleanAttrs (errors_of (ident_Correlate A C))"

text \<open>The chain, above a stage that does not touch the inventory.\<close>

record correlators =
  cs_net :: net_correlator
  cs_http :: correlator
  cs_infra :: correlator
  cs_ident :: correlator

definition stage_only :: "(TelemetryEvent \<Rightarrow> 'd \<Rightarrow> goerr \<times> 'd) \<Rightarrow> ('i, 'd) emitter" where
  "stage_only f e w = (case f e (snd w) of (x, d) \<Rightarrow> (x, fst w, d))"

definition sink_chain ::
  "('s, 'r) inventory_api \<Rightarrow> correlators \<Rightarrow> (TelemetryEvent \<Rightarrow> 'd \<Rightarrow> goerr \<times> 'd) \<Rightarrow> (('s, 'r) inventory, 'd) emitter" where
  "sink_chain A K f = ident_Emit A (cs_ident K) (infra_Emit A (cs_infra K)
     (http_Emit A (cs_http K) (net_Emit A (cs_net K) (stage_only f))))"

subsection \<open>The stages keep the laws\<close>

lemma cleanAttrs_again: "cleanAttrs (cleanAttrs m) = cleanAttrs m"
  by (rule fmap_ext) (simp add: cleanAttrs_def)

interpretation net_stage: correlation_stage memory_kept net_handles "\<lambda>m. m" "errors_of (net_Correlate (memory_api L U now) C)"
  for L U now C
proof
  show "errors_of (net_Correlate (memory_api L U now) C) e i = (x, j) \<Longrightarrow> memory_kept i j" for e i x j
    unfolding errors_of_def net_Correlate_def by (auto split: prod.splits dest: kept.steps_run [OF kept.net_steps])
qed (rule memory_kept_refl, erule (1) memory_kept_trans, simp_all add: net_handles_def)

interpretation http_stage: correlation_stage memory_kept http_handles http_clean "errors_of (http_Correlate (memory_api L U now) C)"
  for L U now C
proof
  show "errors_of (http_Correlate (memory_api L U now) C) e i = (x, j) \<Longrightarrow> memory_kept i j" for e i x j
    unfolding errors_of_def http_Correlate_def by (auto split: prod.splits dest: kept.steps_run [OF kept.http_steps])
qed (rule memory_kept_refl, erule (1) memory_kept_trans, simp_all add: http_handles_def http_clean_again)

interpretation infra_stage: correlation_stage memory_kept infra_handles infra_redact "errors_of (infra_Correlate (memory_api L U now) C)"
  for L U now C
proof
  show "errors_of (infra_Correlate (memory_api L U now) C) e i = (x, j) \<Longrightarrow> memory_kept i j" for e i x j
    unfolding errors_of_def infra_Correlate_def by (auto split: prod.splits dest: kept.steps_run [OF kept.infra_steps])
qed (rule memory_kept_refl, erule (1) memory_kept_trans, simp_all add: infra_handles_def infra_redact_clean infra_clean_again)

interpretation ident_stage: correlation_stage memory_kept ident_handles cleanAttrs "errors_of (ident_Correlate (memory_api L U now) C)"
  for L U now C
proof
  show "errors_of (ident_Correlate (memory_api L U now) C) e i = (x, j) \<Longrightarrow> memory_kept i j" for e i x j
    unfolding errors_of_def ident_Correlate_def by (auto split: prod.splits dest: kept.steps_run [OF kept.ident_steps])
qed (rule memory_kept_refl, erule (1) memory_kept_trans, simp_all add: ident_handles_def cleanAttrs_again)

lemma chain_keeps: "memory_kept (fst w) (fst (snd (sink_chain (memory_api L U now) K f e w)))"
  unfolding sink_chain_def ident_Emit_def infra_Emit_def http_Emit_def net_Emit_def
  by (rule ident_stage.emit_keeps, rule infra_stage.emit_keeps, rule http_stage.emit_keeps, rule net_stage.emit_keeps)
    (simp add: stage_only_def memory_kept_refl split: prod.split)

lemma chain_keeps_all: "memory_kept (fst w) (fst (emit_all (sink_chain (memory_api L U now) K f) es w))"
proof (induction es arbitrary: w)
  case (Cons e es)
  show ?case unfolding emit_all.simps by (rule memory_kept_trans [OF chain_keeps Cons.IH])
qed (simp add: memory_kept_refl)

text \<open>The event as the stage below the chain sees it.\<close>

definition chain_seen :: "TelemetryEvent \<Rightarrow> TelemetryEvent" where
  "chain_seen e =
     (if ident_handles e then e\<lparr>te_attributes := cleanAttrs (te_attributes e)\<rparr>
      else if infra_handles e then e\<lparr>te_attributes := infra_redact (te_attributes e)\<rparr>
      else if http_handles e then e\<lparr>te_attributes := http_clean (te_attributes e)\<rparr> else e)"

lemma handled_once:
  "ident_handles e \<Longrightarrow> \<not> infra_handles e \<and> \<not> http_handles e" "infra_handles e \<Longrightarrow> \<not> http_handles e"
  by (auto simp: ident_handles_def infra_handles_def http_handles_def EventTypeIdentityActivity_def EventTypeAuthActivity_def
      EventTypeDataActivity_def EventTypeEndpointActivity_def EventTypeServerActivity_def EventTypeContainerActivity_def
      EventTypeCloudActivity_def EventTypeHTTPRequest_def)

text \<open>One stage after another: what a stage passes on, or that it passed nothing on.\<close>

definition passes :: "('i, 'd) emitter \<Rightarrow> (TelemetryEvent \<Rightarrow> 'd \<Rightarrow> goerr \<times> 'd) \<Rightarrow> (TelemetryEvent \<Rightarrow> TelemetryEvent) \<Rightarrow> bool" where
  "passes em f g \<longleftrightarrow> (\<forall>e w. case em e w of (x, i, d) \<Rightarrow> x \<noteq> None \<and> d = snd w \<or> (x, d) = f (g e) (snd w))"

lemma passesD: "passes em f g \<Longrightarrow> em e w = (x, i, d) \<Longrightarrow> x \<noteq> None \<and> d = snd w \<or> (x, d) = f (g e) (snd w)"
  unfolding passes_def by (drule spec [of _ e], drule spec [of _ w]) simp

lemma passes_stage_only: "passes (stage_only f) f (\<lambda>e. e)"
  by (auto simp: passes_def stage_only_def split: prod.splits)

context correlation_stage
begin

lemma passes_through:
  assumes "passes down f g"
  shows "passes (correlating_Emit handles redact correlate down) f (\<lambda>e. g (seen e))"
  unfolding passes_def
proof (intro allI)
  fix e w
  let ?r = "correlating_Emit handles redact correlate down e w"
  obtain x i d where r: "?r = (x, i, d)" by (rule prod_cases3)
  from emit_down [of down e w] show "case ?r of (x, i, d) \<Rightarrow> x \<noteq> None \<and> d = snd w \<or> (x, d) = f (g (seen e)) (snd w)"
  proof
    assume "\<exists>i. ?r = down (seen e) (i, snd w)"
    then obtain j where "down (seen e) (j, snd w) = (x, i, d)" using r by auto
    from passesD [OF assms this] show ?thesis by (simp add: r)
  qed (simp add: r)
qed

end

lemma chain_passes: "passes (sink_chain (memory_api L U now) K f) f chain_seen"
proof -
  have "passes (sink_chain (memory_api L U now) K f) f
      (\<lambda>e. net_stage.seen (http_stage.seen (infra_stage.seen (ident_stage.seen e))))"
    unfolding sink_chain_def ident_Emit_def infra_Emit_def http_Emit_def net_Emit_def
    by (intro ident_stage.passes_through infra_stage.passes_through http_stage.passes_through
        net_stage.passes_through [where g = "\<lambda>e. e"] passes_stage_only)
  moreover have "net_stage.seen (http_stage.seen (infra_stage.seen (ident_stage.seen e))) = chain_seen e" for e
    using handled_once [of e]
    by (auto simp: chain_seen_def ident_stage.seen_def infra_stage.seen_def http_stage.seen_def net_stage.seen_def
        ident_stage.kind infra_stage.kind http_stage.kind)
  ultimately show ?thesis by simp
qed

subsection \<open>Where assets are created\<close>

text \<open>The observations for which a correlator may create assets at all.\<close>

definition net_may :: "net_correlator \<Rightarrow> net_Observation \<Rightarrow> bool" where
  "net_may C obs \<longleftrightarrow> nc_auto C \<and> (isLocal C (no_SrcIP obs) \<or> isLocal C (no_DstIP obs))"

definition http_may :: "correlator \<Rightarrow> http_Observation \<Rightarrow> bool" where
  "http_may C obs \<longleftrightarrow> cr_auto C \<and> allowlisted C (ho_Host obs)"

definition infra_may :: "correlator \<Rightarrow> infra_Observation \<Rightarrow> bool" where
  "infra_may C obs \<longleftrightarrow> cr_auto C \<and>
     (case fo_Payload obs of
        EndpointPayload e \<Rightarrow> allowlisted C (eo_Host e)
      | ServerPayload srv \<Rightarrow> allowlisted C (so_Hostname srv)
      | ContainerPayload cnt \<Rightarrow> cr_allowed C \<noteq> []
      | CloudPayload cl \<Rightarrow> allowlisted C (cl_Provider cl) \<or> cl_Account cl \<noteq> [] \<and> allowlisted C (cl_Account cl))"

definition ident_may :: "correlator \<Rightarrow> Observation \<Rightarrow> bool" where
  "ident_may C obs \<longleftrightarrow> cr_auto C \<and> allowlisted C (fst (ident_ends (ob_Payload obs)))"

text \<open>What an action can answer with.\<close>

definition gives :: "('a \<Rightarrow> bool) \<Rightarrow> ('a, 'c, 's, 'r) act \<Rightarrow> bool" where
  "gives P m \<longleftrightarrow> (\<forall>st x st1. m st = (Inr x, st1) \<longrightarrow> P x)"

lemma gives_give: "P x \<Longrightarrow> gives P (give x)"
  by (simp add: gives_def give_def)

lemma gives_leave: "gives P (leave e)"
  by (simp add: gives_def leave_def)

lemma gives_andThen: "(\<And>x. gives P (f x)) \<Longrightarrow> gives P (andThen m f)"
  by (fastforce simp: gives_def andThen_def split: prod.splits sum.splits)

context inventory_relation
begin

lemma steps_andThen_gives:
  assumes "steps R m" and "gives P m" and "\<And>x. P x \<Longrightarrow> steps R (f x)"
  shows "steps R (andThen m f)"
  unfolding steps_def
proof
  fix st
  obtain x st1 where m: "m st = (x, st1)" by (rule prod.exhaust)
  have r: "R (snd st) (snd st1)" using stepsD [OF assms(1) m] .
  show "R (snd st) (snd (snd (andThen m f st)))"
  proof (cases x)
    case (Inl e)
    then show ?thesis using r by (simp add: andThen_def m)
  next
    case (Inr y)
    have "P y" using assms(2) m unfolding Inr gives_def by blast
    then have "R (snd st1) (snd (snd (f y st1)))" using assms(3) [of y] unfolding steps_def by blast
    then show ?thesis using r chain by (simp add: andThen_def m Inr)
  qed
qed

lemma resolve_only: "\<not> nc_auto C \<or> \<not> isLocal C ip \<Longrightarrow> steps R (resolveOrObserve B C n ip obs role)"
  unfolding resolveOrObserve_def by (auto intro!: step_intros split: sum.split option.split)

lemma net_resolve_only:
  assumes "\<And>obs. net_Parse (ia_pb A) p = Inr obs \<Longrightarrow> \<not> nc_auto C \<or> \<not> isLocal C (no_SrcIP obs) \<and> \<not> isLocal C (no_DstIP obs)"
  shows "steps R (net_correlation A C p)"
proof (cases "net_Parse (ia_pb A) p")
  case (Inr obs)
  have "steps R (resolveOrObserve A C 0 (no_SrcIP obs) obs ''src'')" "steps R (resolveOrObserve A C 1 (no_DstIP obs) obs ''dst'')"
    using assms [OF Inr] resolve_only by blast+
  then show ?thesis
    unfolding net_correlation_def Inr sum.case by (auto intro!: step_intros split: option.split prod.split)
qed (simp add: net_correlation_def steps_leave)

lemma http_resolve_only:
  assumes "\<And>obs. http_Parse (ia_pb A) p = Inr obs \<Longrightarrow> \<not> http_may C obs"
  shows "steps R (http_correlation A C p)"
proof (cases "http_Parse (ia_pb A) p")
  case (Inr obs)
  have closed: "\<not> (cr_auto C \<and> allowlisted C (ho_Host obs))" using assms [OF Inr] by (simp add: http_may_def)
  show ?thesis
    unfolding http_correlation_def Inr sum.case http_url_def http_app_def http_service_def Let_def if_not_P [OF closed]
    by (auto intro!: step_intros split: sum.split option.split)
qed (simp add: http_correlation_def steps_leave)

lemma quiet_link: "steps R (link_quietly A rel)"
  unfolding link_quietly_def by (intro step_intros)

lemma quiet_runs_on: "steps R (runs_on A obs host child)"
  unfolding runs_on_def by (auto intro!: step_intros quiet_link split: option.split)

lemma quiet_service:
  assumes "\<not> (cr_auto C \<and> allowlisted C (so_Hostname srv))"
  shows "steps R (infra_service A C obs srv)"
  unfolding infra_service_def Let_def if_not_P [OF assms]
  by (auto intro!: step_intros quiet_runs_on split: sum.split option.split)

lemma quiet_container:
  assumes "\<not> (cr_auto C \<and> cr_allowed C \<noteq> [])"
  shows "steps R (infra_container A C obs cnt)"
proof -
  have closed: "\<not> (cr_auto C \<and> (allowlisted C i \<or> allowlisted C h \<or> cr_allowed C \<noteq> []))" for i h
    using assms by (auto simp: allowlisted_def)
  show ?thesis
    unfolding infra_container_def Let_def if_not_P [OF closed]
    by (auto intro!: step_intros quiet_runs_on split: sum.split option.split)
qed

lemma quiet_primary:
  assumes "\<not> (cr_auto C \<and> (allowlisted C host \<or> (case provider of None \<Rightarrow> False | Some q \<Rightarrow> allowlisted C q)))"
  shows "steps R (infra_primary A C obs host kind raw provider)"
proof (cases "cr_auto C")
  case True
  then have closed: "\<not> allowlisted C host \<and> (case provider of None \<Rightarrow> True | Some q \<Rightarrow> \<not> allowlisted C q)"
    using assms by (auto split: option.splits)
  show ?thesis
    unfolding infra_primary_def if_P [OF closed] by (auto intro!: step_intros split: sum.split option.split)
next
  case False
  then show ?thesis
    unfolding infra_primary_def if_P [OF False] by (auto intro!: step_intros split: sum.split option.split)
qed

lemma infra_resolve_only:
  assumes "\<And>obs. infra_Parse (ia_pb A) p = Inr obs \<Longrightarrow> \<not> infra_may C obs"
  shows "steps R (infra_correlation A C p)"
proof (cases "infra_Parse (ia_pb A) p")
  case (Inr obs)
  show ?thesis
    unfolding infra_correlation_def Inr sum.case using assms [OF Inr]
    by (auto simp: infra_may_def intro!: step_intros quiet_service quiet_container quiet_primary split: infra_payload.split)
qed (simp add: infra_correlation_def steps_leave)

lemma quiet_resolveOther: "steps R (resolveOther A raw)"
  unfolding resolveOther_def by (auto intro!: step_intros split: sum.split)

lemma quiet_target: "steps R (ident_target A target False obs)"
  unfolding ident_target_def by (auto intro!: step_intros quiet_resolveOther split: sum.split option.split)

lemma quiet_principal: "\<not> cr_auto C \<or> \<not> allowlisted C who \<Longrightarrow> steps R (ensurePrincipal A C who obs) \<and>
    gives (\<lambda>x. \<not> snd x) (ensurePrincipal A C who obs :: (Asset option \<times> bool, 'c, 's, 'r) act)"
  unfolding ensurePrincipal_def
  by (auto intro!: step_intros quiet_resolveOther gives_andThen gives_give gives_leave split: sum.split option.split)

lemma ident_resolve_only:
  assumes "\<And>obs. ident_Parse (ia_pb A) p = Inr obs \<Longrightarrow> \<not> ident_may C obs"
  shows "steps R (ident_correlation A C p)"
proof (cases "ident_Parse (ia_pb A) p")
  case (Inr obs)
  obtain who target kind where ends: "ident_ends (ob_Payload obs) = (who, target, kind)" by (rule prod_cases3)
  have closed: "\<not> cr_auto C \<or> \<not> allowlisted C who" using assms [OF Inr] by (simp add: ident_may_def ends)
  have rest: "steps R (case x of (pAsset, created) \<Rightarrow> g pAsset created)"
    if "\<And>pAsset. steps R (g pAsset False)" "\<not> snd x" for x and g :: "Asset option \<Rightarrow> bool \<Rightarrow> (unit, IdentCorrelation, 's, 'r) act"
    using that by (cases x) simp
  show ?thesis
    unfolding ident_correlation_def Inr sum.case ends prod.case ident_lookup_def
    by (auto intro!: step_intros quiet_resolveOther quiet_target
        steps_andThen_gives [OF conjunct1 [OF quiet_principal [OF closed]] conjunct2 [OF quiet_principal [OF closed]]] rest
        split: option.split sum.split)
qed (simp add: ident_correlation_def steps_leave)

end

lemma run_same:
  fixes iv :: memory_inventory
  shows "steps assets_same m \<Longrightarrow> iv_assets (snd (snd (run_act m c iv))) = iv_assets iv"
  using same.steps_run [of m c iv] by (cases "run_act m c iv") (auto simp: assets_same_def)

text \<open>
  C29. Correlation creates assets only where it was told to. A correlator changes no asset unless
  auto-creation is on and what it observed is allowed: an end of the connection in a local
  prefix, the host of the request, the host of the endpoint or server event, the account or
  provider of the cloud event, the principal of the identity event. Only a container event
  asks for no more than that anything is allowed at all.
\<close>

theorem correlation_creates_only_allowed:
  fixes iv :: memory_inventory
  assumes "\<forall>obs. net_Parse L p = Inr obs \<longrightarrow> \<not> net_may N obs"
    and "\<forall>obs. http_Parse L p = Inr obs \<longrightarrow> \<not> http_may H obs"
    and "\<forall>obs. infra_Parse L p = Inr obs \<longrightarrow> \<not> infra_may I obs"
    and "\<forall>obs. ident_Parse L p = Inr obs \<longrightarrow> \<not> ident_may P obs"
  shows "iv_assets (snd (snd (net_Correlate (memory_api L U now) N p iv))) = iv_assets iv \<and>
    iv_assets (snd (snd (http_Correlate (memory_api L U now) H p iv))) = iv_assets iv \<and>
    iv_assets (snd (snd (infra_Correlate (memory_api L U now) I p iv))) = iv_assets iv \<and>
    iv_assets (snd (snd (ident_Correlate (memory_api L U now) P p iv))) = iv_assets iv"
proof -
  have "steps assets_same (net_correlation (memory_api L U now) N p)"
    using assms(1) by (intro same.net_resolve_only) (auto simp: net_may_def)
  moreover have "steps assets_same (http_correlation (memory_api L U now) H p)"
    using assms(2) by (intro same.http_resolve_only) simp
  moreover have "steps assets_same (infra_correlation (memory_api L U now) I p)"
    using assms(3) by (intro same.infra_resolve_only) simp
  moreover have "steps assets_same (ident_correlation (memory_api L U now) P p)"
    using assms(4) by (intro same.ident_resolve_only) simp
  ultimately show ?thesis
    unfolding net_Correlate_def http_Correlate_def infra_Correlate_def ident_Correlate_def by (intro conjI run_same)
qed

text \<open>Example events: a connection between two addresses outside any prefix, and others.\<close>

definition ex_observed :: "string \<Rightarrow> (string \<times> string) list \<Rightarrow> TelemetryEvent" where
  "ex_observed kind m = \<lparr>te_id = ''e1'', te_occurred_at = Some (Timestamp 5 0), te_source = ''sensor'', te_asset_id = ''h1'',
     te_identity_id = [], te_event_type = kind, te_severity = SEVERITY_LOW, te_attributes = fmap_of_list m, te_raw = []\<rparr>"

definition ex_conn :: "string \<Rightarrow> string \<Rightarrow> TelemetryEvent" where
  "ex_conn src dst = ex_observed ''net.connection'' [(''net.src_ip'', src), (''net.dst_ip'', dst), (''net.verdict'', ''Denied'')]"

definition ex_prefix :: Prefix where
  "ex_prefix = Prefix (V4 [10, 0, 0, 0]) 8"

lemma ex_prefix_parsed: "net_validate \<lparr>nf_LocalPrefixes = [''10.1.2.3/8''], nf_AllowAutoCreate = True\<rparr> = Inr [ex_prefix]"
  by code_simp

definition no_inventory :: memory_inventory where
  "no_inventory = \<lparr>iv_assets = fmempty, iv_edges = fmempty\<rparr>"

definition closed_correlator :: correlator where
  "closed_correlator = \<lparr>cr_allowed = [], cr_auto = False\<rparr>"

lemma ex_conn_parsed:
  "\<exists>obs. net_Parse example_pb (Some (ex_conn ''203.0.113.7'' ''198.51.100.9'')) = Inr obs \<and>
     no_SrcIP obs = V4 [203, 0, 113, 7] \<and> no_DstIP obs = V4 [198, 51, 100, 9]"
proof -
  have "parseIP ''203.0.113.7'' what = Inr (V4 [203, 0, 113, 7])" "parseIP ''198.51.100.9'' what = Inr (V4 [198, 51, 100, 9])"
    "parsePort [] what = Inr (0, False)" "ToLower (TrimSpace ''Denied'') = ''denied''" "TrimSpace [] = []" for what
    by code_simp+
  then show ?thesis
    by (simp add: net_Parse_def ex_conn_def ex_observed_def EventTypeConnection_def attr_def fmlookup_of_list known_or_empty_def
        knownVerdicts_def ToUpper_def ToLower_def)
qed

definition trusting :: correlator where
  "trusting = \<lparr>cr_allowed = [''trusted''], cr_auto = True\<rparr>"

theorem correlation_creates_only_allowed_witness:
  "\<forall>U now. iv_assets (snd (snd (net_Correlate (memory_api example_pb U now) \<lparr>nc_prefixes = [ex_prefix], nc_auto = True\<rparr>
      (Some (ex_conn ''203.0.113.7'' ''198.51.100.9'')) no_inventory))) = fmempty"
proof (intro allI)
  fix U now
  let ?p = "Some (ex_conn ''203.0.113.7'' ''198.51.100.9'')" and ?N = "\<lparr>nc_prefixes = [ex_prefix], nc_auto = True\<rparr>"
  have "\<not> Prefix_Contains ex_prefix (V4 [203, 0, 113, 7])" "\<not> Prefix_Contains ex_prefix (V4 [198, 51, 100, 9])" by code_simp+
  then have n: "\<forall>obs. net_Parse example_pb ?p = Inr obs \<longrightarrow> \<not> net_may ?N obs"
    using ex_conn_parsed by (auto simp: net_may_def isLocal_def)
  have h: "\<forall>obs. http_Parse example_pb ?p = Inr obs \<longrightarrow> \<not> http_may trusting obs"
    by (simp add: http_Parse_def ex_conn_def ex_observed_def EventTypeHTTPRequest_def)
  have i: "\<forall>obs. infra_Parse example_pb ?p = Inr obs \<longrightarrow> \<not> infra_may trusting obs"
    by (simp add: infra_Parse_def ex_conn_def ex_observed_def EventTypeEndpointActivity_def EventTypeServerActivity_def
        EventTypeContainerActivity_def EventTypeCloudActivity_def)
  have d: "\<forall>obs. ident_Parse example_pb ?p = Inr obs \<longrightarrow> \<not> ident_may trusting obs"
    by (simp add: ident_Parse_def ex_conn_def ex_observed_def EventTypeIdentityActivity_def EventTypeAuthActivity_def
        EventTypeDataActivity_def)
  show "iv_assets (snd (snd (net_Correlate (memory_api example_pb U now) ?N ?p no_inventory))) = fmempty"
    using correlation_creates_only_allowed [OF n h i d, of U now no_inventory] by (simp add: no_inventory_def)
qed


definition closed_chain :: correlators where
  "closed_chain = \<lparr>cs_net = \<lparr>nc_prefixes = [ex_prefix], nc_auto = True\<rparr>, cs_http = closed_correlator,
     cs_infra = closed_correlator, cs_ident = closed_correlator\<rparr>"

definition collect :: "TelemetryEvent \<Rightarrow> TelemetryEvent list \<Rightarrow> goerr \<times> TelemetryEvent list" where
  "collect e d = (None, d @ [e])"


text \<open>
  C30. No sensitive attribute passes the chain: when an identity, infrastructure or HTTP event is
  emitted, the stage below either sees nothing and the caller gets an error, or it sees the
  same event with no attribute whose key is sensitive, and its answer is the caller's.
\<close>

theorem chain_redacts:
  assumes "ident_handles e \<or> infra_handles e \<or> http_handles e"
    and "sink_chain (memory_api L U now) K f e (iv, d) = (x, iv1, d1)"
  shows "x \<noteq> None \<and> d1 = d \<or>
    (\<exists>e1. (x, d1) = f e1 d \<and> te_id e1 = te_id e \<and> te_event_type e1 = te_event_type e \<and>
       (\<forall>k. SensitiveField k \<longrightarrow> fmlookup (te_attributes e1) k = None))"
proof -
  have "x \<noteq> None \<and> d1 = d \<or> (x, d1) = f (chain_seen e) d"
    using passesD [OF chain_passes assms(2)] by simp
  moreover have "fmlookup (te_attributes (chain_seen e)) k = None" if "SensitiveField k" for k
    using assms(1) that by (auto simp: chain_seen_def cleanAttrs_def infra_redact_def http_clean_def http_sensitive_def)
  moreover have "te_id (chain_seen e) = te_id e" "te_event_type (chain_seen e) = te_event_type e"
    by (simp_all add: chain_seen_def)
  ultimately show ?thesis by blast
qed

theorem chain_redacts_witness:
  "\<forall>U now. list_all (\<lambda>e. fmlookup (te_attributes e) ''session_token'' = None)
     (snd (snd (sink_chain (memory_api example_pb U now) closed_chain collect
        (ex_observed ''auth.activity'' [(''auth.principal'', ''alice''), (''auth.outcome'', ''failure''), (''session_token'', ''s3cret'')])
        (no_inventory, []))))"
proof (intro allI)
  fix U now
  let ?e = "ex_observed ''auth.activity'' [(''auth.principal'', ''alice''), (''auth.outcome'', ''failure''), (''session_token'', ''s3cret'')]"
  obtain x iv1 d1 where r: "sink_chain (memory_api example_pb U now) closed_chain collect ?e (no_inventory, []) = (x, iv1, d1)"
    by (rule prod_cases3)
  have h: "ident_handles ?e" by (simp add: ident_handles_def ex_observed_def EventTypeAuthActivity_def)
  have "SensitiveField ''session_token''" by code_simp
  then show "list_all (\<lambda>e. fmlookup (te_attributes e) ''session_token'' = None)
     (snd (snd (sink_chain (memory_api example_pb U now) closed_chain collect ?e (no_inventory, []))))"
    using chain_redacts [OF disjI1 [OF h] r] unfolding r by (auto simp: collect_def)
qed

text \<open>
  C31. The allowlist of the infrastructure correlator does not decide what containers are
  created: once anything is allowed, any two allowlists treat every container event alike.
\<close>

theorem container_ignores_allowlist:
  assumes "infra_Parse (ia_pb A) p = Inr obs" and "fo_Payload obs = ContainerPayload cnt"
    and "cr_auto C \<and> cr_allowed C \<noteq> []" and "cr_auto D \<and> cr_allowed D \<noteq> []"
  shows "infra_Correlate A C p iv = infra_Correlate A D p iv"
proof -
  have on: "cr_auto C = True" "(cr_allowed C \<noteq> []) = True" "cr_auto D = True" "(cr_allowed D \<noteq> []) = True"
    using assms(3,4) by simp_all
  have "infra_container A C obs cnt = infra_container A D obs cnt"
    unfolding infra_container_def Let_def on simp_thms if_True ..
  then show ?thesis by (simp add: infra_Correlate_def infra_correlation_def assms(1,2))
qed

theorem container_ignores_allowlist_witness:
  "\<forall>A :: (Asset gomap, rel_map) inventory_api. infra_Correlate A \<lparr>cr_allowed = [''trusted''], cr_auto = True\<rparr>
     (Some (ex_observed ''container.activity'' [(''container.container_id'', ''c1''), (''container.image'', ''miner'')])) no_inventory =
   infra_Correlate A \<lparr>cr_allowed = [''other''], cr_auto = True\<rparr>
     (Some (ex_observed ''container.activity'' [(''container.container_id'', ''c1''), (''container.image'', ''miner'')])) no_inventory"
proof
  fix A :: "(Asset gomap, rel_map) inventory_api"
  let ?e = "ex_observed ''container.activity'' [(''container.container_id'', ''c1''), (''container.image'', ''miner'')]"
  have t: "TrimSpace ''c1'' = ''c1''" "TrimSpace ''miner'' = ''miner''" "TrimSpace [] = []" by code_simp+
  have s: "\<not> SensitiveField ''container.container_id''" "\<not> SensitiveField ''container.image''"
    "ToLower ''container.container_id'' \<noteq> ''endpoint.command''" "ToLower ''container.image'' \<noteq> ''endpoint.command''" by code_simp+
  have "\<exists>obs cnt. infra_Parse (ia_pb A) (Some ?e) = Inr obs \<and> fo_Payload obs = ContainerPayload cnt"
    by (simp add: infra_Parse_def parseContainer_def ex_observed_def infra_base_def EventTypeEndpointActivity_def
        EventTypeServerActivity_def EventTypeContainerActivity_def attr_def infra_clean_def fmlookup_of_list s t ToLower_def Let_def)
  then obtain obs cnt where "infra_Parse (ia_pb A) (Some ?e) = Inr obs" "fo_Payload obs = ContainerPayload cnt" by blast
  then show "infra_Correlate A \<lparr>cr_allowed = [''trusted''], cr_auto = True\<rparr> (Some ?e) no_inventory =
      infra_Correlate A \<lparr>cr_allowed = [''other''], cr_auto = True\<rparr> (Some ?e) no_inventory"
    by (rule container_ignores_allowlist) simp_all
qed

end
