(* ===== verification/BurstRules.thy ===== *)
theory BurstRules
  imports RuleStreams
begin

text \<open>
  What every windowed rule does with an event it counts, once and for all. A windowed rule is
  given by the key under which it counts an event, if it does; the locale derives from two
  laws that the rule is sound for the engine and that it fires exactly when its window fills.
\<close>

text \<open>The tail of every windowed rule: observe, and answer with the window if it was just filled.\<close>

definition burst_tail ::
  "burst_config \<Rightarrow> string \<Rightarrow> gotime \<Rightarrow> TelemetryEvent \<Rightarrow> netWindow gomap \<Rightarrow> string \<Rightarrow> (netWindow \<Rightarrow> string)
    \<Rightarrow> (netWindow \<Rightarrow> (string \<times> string) list) \<Rightarrow> Outcome res \<times> netWindow gomap" where
  "burst_tail r key at e ws title detail m =
     (case window_observe r key at e ws of
        (reached, w, ws1) \<Rightarrow>
          (if reached then Inr (match (window_peak w) title (detail w) (window_ids w) (m w)) else Inr no_match, ws1))"

text \<open>The entries of the events counted under a key.\<close>

definition hits ::
  "(gotime \<Rightarrow> TelemetryEvent \<Rightarrow> string option) \<Rightarrow> pblib \<Rightarrow> string \<Rightarrow> (gotime \<times> TelemetryEvent) list \<Rightarrow> netWindowEntry list" where
  "hits key L k es = map (\<lambda>x. entry L (snd x)) (filter (\<lambda>x. key (fst x) (snd x) = Some k) es)"

lemma hits_snoc: "hits key L k (es @ [(now, e)]) = hits key L k es @ (if key now e = Some k then [entry L e] else [])"
  by (simp add: hits_def)

lemma observe_is_entry:
  "observe (occurred L e) (te_id e) (te_severity e) d n w = observe_entry d n (entry L e) w"
  by (simp add: observe_entry_def entry_def)

lemma observe_matches:
  assumes "observe at i sev d n w = (True, w1)"
  shows "n \<le> int (length (nw_entries w1))"
  using assms by (auto simp: observe_def Let_def split: if_splits)

locale window_rule =
  fixes L :: pblib and r :: burst_config
    and key :: "gotime \<Rightarrow> TelemetryEvent \<Rightarrow> string option"
    and eval :: "gotime \<Rightarrow> TelemetryEvent \<Rightarrow> netWindow gomap \<Rightarrow> Outcome res \<times> netWindow gomap"
  assumes skips: "key now e = None \<Longrightarrow>
      snd (eval now e ws) = ws \<and> (\<forall>oc. fst (eval now e ws) = Inr oc \<longrightarrow> \<not> oc_Matched oc)"
    and counts: "key now e = Some k \<Longrightarrow>
      \<exists>t d m. t \<noteq> [] \<and> (\<forall>w. d w \<noteq> []) \<and> (\<forall>w. plain_attrs (m w)) \<and> eval now e ws = burst_tail r k (occurred L e) e ws t d m"
begin

lemma counted_step:
  assumes "key now e = Some k"
  obtains t d m w where "t \<noteq> []" "\<And>w. d w \<noteq> []" "\<And>w. plain_attrs (m w)"
    and "observe_entry (bc_window r) (bc_threshold r) (entry L e) (window_of k ws) = (True, w)"
    and "eval now e ws = (Inr (match (window_peak w) t (d w) (window_ids w) (m w)), fmupd k w ws)"
  | w where "observe_entry (bc_window r) (bc_threshold r) (entry L e) (window_of k ws) = (False, w)"
    and "eval now e ws = (Inr no_match, fmupd k w ws)"
proof -
  obtain t d m where tail: "t \<noteq> []" "\<And>w. d w \<noteq> []" "\<And>w. plain_attrs (m w)"
    "eval now e ws = burst_tail r k (occurred L e) e ws t d m" using counts [OF assms, of ws] by blast
  obtain f w where o: "observe_entry (bc_window r) (bc_threshold r) (entry L e) (window_of k ws) = (f, w)" by (rule prod.exhaust)
  have "eval now e ws = (if f then Inr (match (window_peak w) t (d w) (window_ids w) (m w)) else Inr no_match, fmupd k w ws)"
    by (simp add: tail(4) burst_tail_def window_observe_def observe_is_entry o)
  then show thesis using that tail(1-3) o by (cases f) auto
qed

lemma rule_usable:
  assumes "good_event L e" and "windows_ok ws"
  shows "windows_ok (snd (eval now e ws)) \<and> usable e (fst (eval now e ws))"
proof (cases "key now e")
  case None
  then show ?thesis using skips [OF None, of ws] assms(2)
    by (cases "fst (eval now e ws)") (auto simp: usable_def)
next
  case (Some k)
  show ?thesis
  proof (cases rule: counted_step [OF Some, of ws, case_names fires quiet])
    case (fires t d m w)
    have o: "observe (occurred L e) (te_id e) (te_severity e) (bc_window r) (bc_threshold r) (window_of k ws) = (True, w)"
      using fires(4) by (simp add: observe_is_entry)
    show ?thesis using burst_step [OF assms o] fires by simp
  next
    case (quiet w)
    have o: "observe (occurred L e) (te_id e) (te_severity e) (bc_window r) (bc_threshold r) (window_of k ws) = (False, w)"
      using quiet(1) by (simp add: observe_is_entry)
    show ?thesis using burst_step(1) [OF assms o] quiet(2) by simp
  qed
qed

lemma feed_window:
  "window_of k (feed eval es fmempty) = snd (run_window (bc_window r) (bc_threshold r) (hits key L k es) empty_window)"
proof (induction es rule: rev_induct)
  case Nil
  then show ?case by (simp add: hits_def window_of_def)
next
  case (snoc x es)
  obtain now e where x: "x = (now, e)" by (rule prod.exhaust)
  let ?ws = "feed eval es fmempty"
  show ?case
  proof (cases "key now e")
    case None
    then show ?thesis using snoc skips [OF None, of ?ws] by (simp add: x feed_snoc hits_snoc)
  next
    case (Some k')
    obtain f w out where o: "observe_entry (bc_window r) (bc_threshold r) (entry L e) (window_of k' ?ws) = (f, w)"
      "eval now e ?ws = (out, fmupd k' w ?ws)"
      by (cases rule: counted_step [OF Some, of ?ws]) blast+
    show ?thesis
    proof (cases "k' = k")
      case True
      obtain fs w0 where run: "run_window (bc_window r) (bc_threshold r) (hits key L k es) empty_window = (fs, w0)" by (rule prod.exhaust)
      then show ?thesis using snoc o Some True by (simp add: x feed_snoc hits_snoc run_window_snoc)
    next
      case False
      then show ?thesis using snoc o Some by (simp add: x feed_snoc hits_snoc)
    qed
  qed
qed

text \<open>The rule fires exactly when the events counted under the key of this one fill the window with it.\<close>

lemma fires_exactly:
  assumes "key now e = Some k" and "0 \<le> bc_window r"
    and "sorted (map we_at (hits key L k (past @ [(now, e)])))"
  shows "\<exists>oc. fst (eval now e (feed eval past fmempty)) = Inr oc \<and>
    (oc_Matched oc \<longleftrightarrow> dense (bc_window r) (bc_threshold r) (hits key L k (past @ [(now, e)])) \<and>
       \<not> dense (bc_window r) (bc_threshold r) (hits key L k past)) \<and>
    (oc_Matched oc \<longrightarrow> oc_EventIDs oc = sort (map we_id (within (bc_window r) (hits key L k (past @ [(now, e)])))) \<and>
       (\<forall>x \<in> set (within (bc_window r) (hits key L k (past @ [(now, e)]))). we_severity x \<le> oc_Severity oc))"
proof -
  let ?ws = "feed eval past fmempty" and ?es = "hits key L k past"
  have es: "hits key L k (past @ [(now, e)]) = ?es @ [entry L e]" by (simp add: hits_snoc assms(1))
  have sorted: "sorted (map we_at ?es)" using assms(3) by (simp add: es sorted_append)
  have w: "window_of k ?ws = \<lparr>nw_entries = within (bc_window r) ?es, nw_fired = dense (bc_window r) (bc_threshold r) ?es\<rparr>"
    unfolding feed_window run_window_spec [OF sorted assms(2)] by simp
  have step: "observe_entry (bc_window r) (bc_threshold r) (entry L e) (window_of k ?ws) =
      (dense (bc_window r) (bc_threshold r) (?es @ [entry L e]) \<and> \<not> dense (bc_window r) (bc_threshold r) ?es,
       \<lparr>nw_entries = within (bc_window r) (?es @ [entry L e]), nw_fired = dense (bc_window r) (bc_threshold r) (?es @ [entry L e])\<rparr>)"
    using assms(2,3) unfolding es by (intro observe_entry_eq) (simp_all add: w)
  show ?thesis
  proof (cases rule: counted_step [OF assms(1), of ?ws, case_names fires quiet])
    case (fires t d m w1)
    then have w1: "nw_entries w1 = within (bc_window r) (?es @ [entry L e])"
      and dense: "dense (bc_window r) (bc_threshold r) (?es @ [entry L e]) \<and> \<not> dense (bc_window r) (bc_threshold r) ?es"
      using step by auto
    have "\<forall>x \<in> set (within (bc_window r) (?es @ [entry L e])). we_severity x \<le> window_peak w1"
      unfolding w1 [symmetric] by (blast intro: window_peak_ge(2))
    then show ?thesis unfolding es using dense fires(5) by (simp add: window_ids_def w1)
  next
    case (quiet w1)
    then have "\<not> (dense (bc_window r) (bc_threshold r) (?es @ [entry L e]) \<and> \<not> dense (bc_window r) (bc_threshold r) ?es)"
      using step by auto
    then show ?thesis unfolding es using quiet(2) by simp
  qed
qed

end

sublocale window_rule \<subseteq> sound: sound_rule eval windows_ok "good_event L"
  by (rule sound_ruleI) (rule rule_usable)

end
