(* ===== verification/NetRules.thy ===== *)
theory NetRules
  imports BurstRules NetObs
begin

text \<open>
  The network rules (\<open>detect/network.go\<close>): traffic to a destination the operator has listed, bursts
  of connections from one source, and repeated denied connections to one destination.
\<close>

subsection \<open>Disallowed destinations\<close>

record DisallowedTarget =
  dt_DstIP :: string
  dt_DstPort :: port
  dt_HasPort :: bool
  dt_Protocol :: string
  dt_Severity :: enum
  dt_Label :: string

record normalizedTarget =
  nt_addr :: Addr
  nt_port :: port
  nt_hasPort :: bool
  nt_protocol :: string
  nt_severity :: enum
  nt_label :: string
  nt_rawIP :: string

definition normalize_target :: "nat \<Rightarrow> DisallowedTarget \<Rightarrow> normalizedTarget res" where
  "normalize_target i e =
     (let what = ''detect: entry '' @ utoa i; proto = ToUpper (TrimSpace (dt_Protocol e)) in
      case ParseAddr (TrimSpace (dt_DstIP e)) of
        None \<Rightarrow> Inl (Plain (what @ '': invalid dst ip '' @ quote (dt_DstIP e)))
      | Some addr \<Rightarrow>
          if dt_HasPort e \<and> dt_DstPort e = 0 then Inl (Plain (what @ '': port out of range''))
          else if proto \<noteq> [] \<and> proto \<notin> set knownProtocols
            then Inl (Plain (what @ '': unknown protocol '' @ quote (dt_Protocol e)))
          else if dt_Severity e = SEVERITY_UNSPECIFIED then Inl (Plain (what @ '': explicit severity required''))
          else if \<not> Severity_known (dt_Severity e) then Inl (Plain (what @ '': unknown severity '' @ itoa (dt_Severity e)))
          else if TrimSpace (dt_Label e) = [] then Inl (Plain (what @ '': policy label required''))
          else Inr \<lparr> nt_addr = addr, nt_port = dt_DstPort e, nt_hasPort = dt_HasPort e, nt_protocol = proto,
                 nt_severity = dt_Severity e, nt_label = TrimSpace (dt_Label e), nt_rawIP = Addr_String addr \<rparr>)"

fun normalize_targets :: "nat \<Rightarrow> DisallowedTarget list \<Rightarrow> normalizedTarget list res" where
  "normalize_targets i [] = Inr []"
| "normalize_targets i (e # es) =
     (case normalize_target i e of
        Inl x \<Rightarrow> Inl x
      | Inr t \<Rightarrow> map_sum id (\<lambda>ts. t # ts) (normalize_targets (i + 1) es))"

definition NewNetDisallowedDestinationRule :: "DisallowedTarget list \<Rightarrow> normalizedTarget list res" where
  "NewNetDisallowedDestinationRule es =
     (if es = [] then Inl (Plain ''detect: disallow policy must hold at least one entry'') else normalize_targets 0 es)"

definition portOrAny :: "net_Observation \<Rightarrow> string" where
  "portOrAny obs = (if no_HasDstPort obs then port_text (no_DstPort obs) else ''any'')"

text \<open>The three tests that skip an entry.\<close>

definition target_hit :: "net_Observation \<Rightarrow> normalizedTarget \<Rightarrow> bool" where
  "target_hit obs e \<longleftrightarrow> \<not> (no_DstIP obs \<noteq> nt_addr e) \<and>
     \<not> (nt_hasPort e \<and> (\<not> no_HasDstPort obs \<or> no_DstPort obs \<noteq> nt_port e)) \<and>
     \<not> (nt_protocol e \<noteq> [] \<and> no_Protocol obs \<noteq> nt_protocol e)"

definition disallowed_outcome :: "TelemetryEvent \<Rightarrow> net_Observation \<Rightarrow> normalizedTarget \<Rightarrow> Outcome" where
  "disallowed_outcome event obs e =
     match (nt_severity e) ''Disallowed network destination observed''
       (''source '' @ quote (te_source event) @ '' observed '' @ Addr_String (no_SrcIP obs) @ '' ''
         @ [CHR 0xE2, CHR 0x86, CHR 0x92] @ '' '' @ nt_rawIP e @ '':'' @ portOrAny obs @ '' ('' @ no_Protocol obs
         @ '', verdict '' @ quote (no_Verdict obs) @ '') matching policy '' @ quote (nt_label e) @ '' for asset ''
         @ quote (te_asset_id event) @ '' (event '' @ te_id event @ '')'')
       [te_id event]
       [(''policy'', nt_label e),
        (''match'', ''dst='' @ nt_rawIP e @ (if nt_hasPort e then '',port='' @ port_text (nt_port e) else [])
          @ (if nt_protocol e \<noteq> [] then '',protocol='' @ nt_protocol e else [])),
        (''verdict'', no_Verdict obs)]"

fun first_target :: "TelemetryEvent \<Rightarrow> net_Observation \<Rightarrow> normalizedTarget list \<Rightarrow> Outcome" where
  "first_target event obs [] = no_match"
| "first_target event obs (e # es) = (if target_hit obs e then disallowed_outcome event obs e else first_target event obs es)"

definition NetDisallowedDestination_Evaluate :: "pblib \<Rightarrow> normalizedTarget list \<Rightarrow> TelemetryEvent option \<Rightarrow> Outcome res" where
  "NetDisallowedDestination_Evaluate L entries p =
     (case p of None \<Rightarrow> Inl errNilEvent | Some e \<Rightarrow>
        if te_event_type e \<noteq> EventTypeConnection then Inr no_match
        else (case net_Parse L (Some e) of
                Inl x \<Rightarrow> Inl (Ctx ''detect: disallow'' x)
              | Inr obs \<Rightarrow> Inr (first_target e obs entries)))"

subsection \<open>Connection bursts\<close>

definition NetConnectionBurst_Evaluate ::
  "pblib \<Rightarrow> burst_config \<Rightarrow> gotime \<Rightarrow> TelemetryEvent option \<Rightarrow> netWindow gomap \<Rightarrow> Outcome res \<times> netWindow gomap" where
  "NetConnectionBurst_Evaluate L r now p ws =
     (case p of None \<Rightarrow> (Inl errNilEvent, ws) | Some e \<Rightarrow>
        if te_event_type e \<noteq> EventTypeConnection then (Inr no_match, ws)
        else
         (case checkNetClock now ''burst'' of Some x \<Rightarrow> (Inl x, ws) | None \<Rightarrow>
         (case net_Parse L (Some e) of
            Inl x \<Rightarrow> (Inl (Ctx ''detect: burst'' x), ws)
          | Inr obs \<Rightarrow>
             (let at = no_OccurredAt obs; key = Addr_String (no_SrcIP obs) in
              if IsZero at then (Inl (Plain ''detect: burst needs event occurred_at''), ws)
              else burst_tail r key at e ws ''Connection burst observed''
                (\<lambda>w. count_of w @ '' connections from '' @ key @ '' within '' @ duration_String (bc_window r)
                   @ '' (threshold '' @ itoa (bc_threshold r) @ '')'')
                (\<lambda>w. burst_attrs r w @ [(''src'', key)])))))"

subsection \<open>Repeated denials\<close>

definition NetDeniedActivity_Evaluate ::
  "pblib \<Rightarrow> burst_config \<Rightarrow> gotime \<Rightarrow> TelemetryEvent option \<Rightarrow> netWindow gomap \<Rightarrow> Outcome res \<times> netWindow gomap" where
  "NetDeniedActivity_Evaluate L r now p ws =
     (case p of None \<Rightarrow> (Inl errNilEvent, ws) | Some e \<Rightarrow>
        if te_event_type e \<noteq> EventTypeConnection then (Inr no_match, ws)
        else
         (case checkNetClock now ''denied'' of Some x \<Rightarrow> (Inl x, ws) | None \<Rightarrow>
         (case net_Parse L (Some e) of
            Inl x \<Rightarrow> (Inl (Ctx ''detect: denied'' x), ws)
          | Inr obs \<Rightarrow>
             (let at = no_OccurredAt obs; src = Addr_String (no_SrcIP obs); dst = Addr_String (no_DstIP obs);
                  port = portOrAny obs in
              if no_Verdict obs \<noteq> ''denied'' then (Inr no_match, ws)
              else if IsZero at then (Inl (Plain ''detect: denied needs event occurred_at''), ws)
              else burst_tail r (src @ US @ dst @ US @ port) at e ws ''Repeated denied network activity observed''
                (\<lambda>w. count_of w @ '' denied connections from '' @ src @ '' to '' @ dst @ '' port '' @ port @ '' within ''
                   @ duration_String (bc_window r) @ '' (threshold '' @ itoa (bc_threshold r) @ '')'')
                (\<lambda>w. burst_attrs r w @ [(''src'', src), (''dst'', dst), (''port'', port)])))))"

definition NewNetConnectionBurstRule :: "int \<Rightarrow> duration \<Rightarrow> gotime option \<Rightarrow> burst_config res" where
  "NewNetConnectionBurstRule threshold window clock = NewBurstRule ''burst'' threshold window clock"

definition NewNetDeniedActivityRule :: "int \<Rightarrow> duration \<Rightarrow> gotime option \<Rightarrow> burst_config res" where
  "NewNetDeniedActivityRule threshold window clock = NewBurstRule ''denied'' threshold window clock"

subsection \<open>What the windowed rules count\<close>

text \<open>A connection that parses, at a time: as the two rules see it.\<close>

definition connection :: "pblib \<Rightarrow> gotime \<Rightarrow> TelemetryEvent \<Rightarrow> net_Observation option" where
  "connection L now e =
     (if te_event_type e \<noteq> EventTypeConnection \<or> IsZero now then None
      else case net_Parse L (Some e) of Inl x \<Rightarrow> None | Inr obs \<Rightarrow> if IsZero (no_OccurredAt obs) then None else Some obs)"

definition burst_key :: "pblib \<Rightarrow> gotime \<Rightarrow> TelemetryEvent \<Rightarrow> string option" where
  "burst_key L now e = map_option (\<lambda>obs. Addr_String (no_SrcIP obs)) (connection L now e)"

definition denied_key :: "pblib \<Rightarrow> gotime \<Rightarrow> TelemetryEvent \<Rightarrow> string option" where
  "denied_key L now e =
     (case connection L now e of
        None \<Rightarrow> None
      | Some obs \<Rightarrow>
          if no_Verdict obs = ''denied''
            then Some (Addr_String (no_SrcIP obs) @ US @ Addr_String (no_DstIP obs) @ US @ portOrAny obs)
          else None)"

lemma net_Parse_occurred: "net_Parse L (Some e) = Inr obs \<Longrightarrow> no_OccurredAt obs = occurred L e"
  by (auto simp: net_Parse_def Let_def split: if_splits sum.splits prod.splits)

interpretation net_burst: window_rule L r "burst_key L" "\<lambda>now e. NetConnectionBurst_Evaluate L r now (Some e)" for L r
proof
  fix now e ws
  show "burst_key L now e = None \<Longrightarrow> snd (NetConnectionBurst_Evaluate L r now (Some e) ws) = ws \<and>
      (\<forall>oc. fst (NetConnectionBurst_Evaluate L r now (Some e) ws) = Inr oc \<longrightarrow> \<not> oc_Matched oc)"
    by (auto simp: burst_key_def connection_def NetConnectionBurst_Evaluate_def checkNetClock_def fail_if_def Let_def
        split: if_splits sum.splits)
next
  fix now e k ws assume "burst_key L now e = Some k"
  then obtain obs where obs: "te_event_type e = EventTypeConnection" "\<not> IsZero now" "net_Parse L (Some e) = Inr obs"
    "\<not> IsZero (no_OccurredAt obs)" "k = Addr_String (no_SrcIP obs)"
    by (auto simp: burst_key_def connection_def split: if_splits sum.splits)
  show "\<exists>t d m. t \<noteq> [] \<and> (\<forall>w. d w \<noteq> []) \<and> (\<forall>w. plain_attrs (m w)) \<and>
      NetConnectionBurst_Evaluate L r now (Some e) ws = burst_tail r k (occurred L e) e ws t d m"
    unfolding NetConnectionBurst_Evaluate_def
    by (intro exI conjI [OF _ conjI [OF _ conjI]])
      (simp_all add: obs checkNetClock_def fail_if_def net_Parse_occurred [OF obs(3), symmetric] Let_def)
qed

interpretation net_denied: window_rule L r "denied_key L" "\<lambda>now e. NetDeniedActivity_Evaluate L r now (Some e)" for L r
proof
  fix now e ws
  show "denied_key L now e = None \<Longrightarrow> snd (NetDeniedActivity_Evaluate L r now (Some e) ws) = ws \<and>
      (\<forall>oc. fst (NetDeniedActivity_Evaluate L r now (Some e) ws) = Inr oc \<longrightarrow> \<not> oc_Matched oc)"
    by (auto simp: denied_key_def connection_def NetDeniedActivity_Evaluate_def checkNetClock_def fail_if_def Let_def
        split: if_splits sum.splits)
next
  fix now e k ws assume "denied_key L now e = Some k"
  then obtain obs where obs: "te_event_type e = EventTypeConnection" "\<not> IsZero now" "net_Parse L (Some e) = Inr obs"
    "\<not> IsZero (no_OccurredAt obs)" "no_Verdict obs = ''denied''"
    "k = Addr_String (no_SrcIP obs) @ US @ Addr_String (no_DstIP obs) @ US @ portOrAny obs"
    by (auto simp: denied_key_def connection_def split: if_splits sum.splits)
  show "\<exists>t d m. t \<noteq> [] \<and> (\<forall>w. d w \<noteq> []) \<and> (\<forall>w. plain_attrs (m w)) \<and>
      NetDeniedActivity_Evaluate L r now (Some e) ws = burst_tail r k (occurred L e) e ws t d m"
    unfolding NetDeniedActivity_Evaluate_def
    by (intro exI conjI [OF _ conjI [OF _ conjI]])
      (simp_all add: obs checkNetClock_def fail_if_def net_Parse_occurred [OF obs(3), symmetric] Let_def)
qed

text \<open>
  C32. The denied-activity rule fires exactly when it should. For any past and any denied
  connection whose predecessors under the same source, destination and port came in time
  order: the rule answers without an error, it matches if and only if this connection brings
  the denied ones within the window before it to the threshold they had not reached, and then
  names exactly those, at a severity no lower than any of theirs.
\<close>

theorem net_denied_fires_exactly:
  assumes "NewNetDeniedActivityRule threshold window clock = Inr r" and "denied_key L now e = Some k"
    and "sorted (map we_at (hits (denied_key L) L k (past @ [(now, e)])))"
  shows "\<exists>oc. fst (NetDeniedActivity_Evaluate L r now (Some e)
      (feed (\<lambda>now e. NetDeniedActivity_Evaluate L r now (Some e)) past fmempty)) = Inr oc \<and>
    (oc_Matched oc \<longleftrightarrow> dense window threshold (hits (denied_key L) L k (past @ [(now, e)])) \<and>
       \<not> dense window threshold (hits (denied_key L) L k past)) \<and>
    (oc_Matched oc \<longrightarrow> oc_EventIDs oc = sort (map we_id (within window (hits (denied_key L) L k (past @ [(now, e)])))) \<and>
       (\<forall>x \<in> set (within window (hits (denied_key L) L k (past @ [(now, e)]))). we_severity x \<le> oc_Severity oc))"
proof -
  have r: "bc_threshold r = threshold" "bc_window r = window" "0 \<le> bc_window r"
    using assms(1) by (auto simp: NewNetDeniedActivityRule_def NewBurstRule_def checkBurstParams_def split: option.splits)
  show ?thesis using net_denied.fires_exactly [OF assms(2) r(3) assms(3)] unfolding r(1,2) .
qed

subsection \<open>The disallow policy\<close>

text \<open>A policy entry as the operator wrote it, and the connection it forbids.\<close>

definition forbids :: "DisallowedTarget \<Rightarrow> net_Observation \<Rightarrow> bool" where
  "forbids d obs \<longleftrightarrow> ParseAddr (TrimSpace (dt_DstIP d)) = Some (no_DstIP obs) \<and>
     (\<not> dt_HasPort d \<or> no_HasDstPort obs \<and> no_DstPort obs = dt_DstPort d) \<and>
     (ToUpper (TrimSpace (dt_Protocol d)) = [] \<or> ToUpper (TrimSpace (dt_Protocol d)) = no_Protocol obs)"

definition target_of :: "DisallowedTarget \<Rightarrow> normalizedTarget \<Rightarrow> bool" where
  "target_of d t \<longleftrightarrow> (\<forall>obs. target_hit obs t \<longleftrightarrow> forbids d obs) \<and> nt_severity t = dt_Severity d \<and>
     nt_label t = TrimSpace (dt_Label d) \<and> SEVERITY_INFO \<le> nt_severity t \<and> nt_severity t \<le> SEVERITY_CRITICAL"

lemma normalize_target_of: "normalize_target i d = Inr t \<Longrightarrow> target_of d t"
  by (auto simp: normalize_target_def target_of_def target_hit_def forbids_def Let_def boundary split: option.splits if_splits)

lemma normalize_targets_of: "normalize_targets i ds = Inr ts \<Longrightarrow> list_all2 target_of ds ts"
proof (induction i ds arbitrary: ts rule: normalize_targets.induct)
  case (2 i d ds)
  then obtain t ts1 where "normalize_target i d = Inr t" "normalize_targets (i + 1) ds = Inr ts1" "ts = t # ts1"
    by (auto split: sum.splits) (metis (no_types, lifting) Inr_inject map_sum.simps old.sum.exhaust sum.distinct(1))
  then show ?case using 2 normalize_target_of by simp
qed simp

lemma new_disallow_of: "NewNetDisallowedDestinationRule ds = Inr ts \<Longrightarrow> list_all2 target_of ds ts"
  by (auto simp: NewNetDisallowedDestinationRule_def dest: normalize_targets_of split: if_splits)

lemma first_target_of:
  assumes "list_all2 target_of ds ts"
  shows "case find (\<lambda>d. forbids d obs) ds of
      None \<Rightarrow> first_target event obs ts = no_match
    | Some d \<Rightarrow> oc_Matched (first_target event obs ts) \<and> oc_Severity (first_target event obs ts) = dt_Severity d \<and>
        oc_EventIDs (first_target event obs ts) = [te_id event] \<and>
        attr (oc_Attrs (first_target event obs ts)) ''policy'' = TrimSpace (dt_Label d)"
  using assms by (induction rule: list_all2_induct)
    (auto simp: target_of_def disallowed_outcome_def attr_def fmlookup_of_list split: option.splits)

text \<open>
  The disallow rule applies the policy as written: over an accepted policy, a connection
  matches if and only if some entry forbids it, and the first entry that does gives the
  severity and the label; the rule adds no judgment of its own.
\<close>

theorem disallow_policy_exact:
  assumes "NewNetDisallowedDestinationRule ds = Inr ts" and "net_Parse L (Some e) = Inr obs"
  shows "\<exists>oc. NetDisallowedDestination_Evaluate L ts (Some e) = Inr oc \<and>
    (case find (\<lambda>d. forbids d obs) ds of
       None \<Rightarrow> \<not> oc_Matched oc
     | Some d \<Rightarrow> oc_Matched oc \<and> oc_Severity oc = dt_Severity d \<and> oc_EventIDs oc = [te_id e] \<and>
         attr (oc_Attrs oc) ''policy'' = TrimSpace (dt_Label d))"
proof -
  have "te_event_type e = EventTypeConnection" using assms(2) by (auto simp: net_Parse_def split: if_splits)
  then have "NetDisallowedDestination_Evaluate L ts (Some e) = Inr (first_target e obs ts)"
    by (simp add: NetDisallowedDestination_Evaluate_def assms(2))
  then show ?thesis using first_target_of [OF new_disallow_of [OF assms(1)], where obs = obs and event = e] by (auto split: option.splits)
qed

definition targets_ok :: "normalizedTarget list \<Rightarrow> bool" where
  "targets_ok ts \<longleftrightarrow> list_all (\<lambda>t. SEVERITY_INFO \<le> nt_severity t \<and> nt_severity t \<le> SEVERITY_CRITICAL) ts"

lemma first_target_usable: "good_event L e \<Longrightarrow> targets_ok ts \<Longrightarrow> usable e (Inr (first_target e obs ts))"
proof (induction ts)
  case (Cons t ts)
  then show ?case using good_event_facts [OF Cons.prems(1)]
    by (auto simp: targets_ok_def disallowed_outcome_def intro!: buildable_match)
qed simp

interpretation disallowed: sound_rule "\<lambda>now e ts. (NetDisallowedDestination_Evaluate L ts (Some e), ts)" targets_ok "good_event L" for L
  by (rule sound_ruleI)
    (auto simp: NetDisallowedDestination_Evaluate_def first_target_usable split: sum.split)

text \<open>Examples: the self-test's entry, and denied connections five seconds apart.\<close>

definition ex_target :: DisallowedTarget where
  "ex_target = \<lparr>dt_DstIP = '' 203.0.113.7'', dt_DstPort = 4444, dt_HasPort = True, dt_Protocol = ''tcp'',
     dt_Severity = SEVERITY_HIGH, dt_Label = ''lab''\<rparr>"

definition ex_flow :: "string \<Rightarrow> int \<Rightarrow> TelemetryEvent" where
  "ex_flow i t = \<lparr>te_id = i, te_occurred_at = Some (Timestamp t 0), te_source = ''fw'', te_asset_id = ''h1'',
     te_identity_id = [], te_event_type = ''net.connection'', te_severity = SEVERITY_LOW,
     te_attributes = fmap_of_list [(''net.src_ip'', ''10.0.0.1''), (''net.dst_ip'', ''203.0.113.7''), (''net.dst_port'', ''4444''),
       (''net.protocol'', ''Tcp''), (''net.verdict'', ''denied'')], te_raw = []\<rparr>"

definition ex_flow_obs :: "string \<Rightarrow> int \<Rightarrow> net_Observation" where
  "ex_flow_obs i t = \<lparr> no_EventID = i, no_Source = ''fw'', no_AssetID = ''h1'', no_OccurredAt = ts_AsTime example_pb (Timestamp t 0),
     no_Severity = SEVERITY_LOW, no_SrcIP = V4 [10, 0, 0, 1], no_DstIP = V4 [203, 0, 113, 7], no_SrcPort = 0, no_HasSrcPort = False,
     no_DstPort = 4444, no_HasDstPort = True, no_Protocol = ''TCP'', no_Direction = [], no_Verdict = ''denied'' \<rparr>"

lemma ex_flow_parsed: "net_Parse example_pb (Some (ex_flow i t)) = Inr (ex_flow_obs i t)"
proof -
  have p: "parseIP ''10.0.0.1'' what = Inr (V4 [10, 0, 0, 1])" "parseIP ''203.0.113.7'' what = Inr (V4 [203, 0, 113, 7])"
    "parsePort [] what = Inr (0, False)" "parsePort ''4444'' what = Inr (4444, True)" for what
    by code_simp+
  have t: "ToUpper (TrimSpace ''Tcp'') = ''TCP''" "ToLower (TrimSpace ''denied'') = ''denied''" "ToLower (TrimSpace []) = []"
    by code_simp+
  show ?thesis
    by (simp add: net_Parse_def ex_flow_def ex_flow_obs_def EventTypeConnection_def attr_def fmlookup_of_list known_or_empty_def
        knownVerdicts_def knownProtocols_def occurred_def p t)
qed

theorem disallow_policy_exact_witness:
  "\<exists>ts oc. NewNetDisallowedDestinationRule [ex_target] = Inr ts \<and>
     NetDisallowedDestination_Evaluate example_pb ts (Some (ex_flow ''f1'' 5)) = Inr oc \<and> oc_Matched oc \<and> oc_Severity oc = SEVERITY_HIGH"
proof -
  have "ParseAddr (TrimSpace '' 203.0.113.7'') = Some (V4 [203, 0, 113, 7])" "ToUpper (TrimSpace ''tcp'') = ''TCP''"
    "TrimSpace ''lab'' = ''lab''" by code_simp+
  then have hit: "forbids ex_target (ex_flow_obs ''f1'' 5)" and new: "\<exists>ts. NewNetDisallowedDestinationRule [ex_target] = Inr ts"
    by (simp_all add: forbids_def ex_target_def ex_flow_obs_def NewNetDisallowedDestinationRule_def normalize_target_def
        knownProtocols_def boundary)
  obtain ts where ts: "NewNetDisallowedDestinationRule [ex_target] = Inr ts" using new by blast
  then show ?thesis using disallow_policy_exact [OF ts ex_flow_parsed [of "''f1''" 5]] hit
    by (auto simp: ex_target_def ex_flow_def)
qed

theorem net_denied_fires_exactly_witness:
  "\<exists>r oc. NewNetDeniedActivityRule 2 10000000000 (Some 9) = Inr r \<and>
     fst (NetDeniedActivity_Evaluate example_pb r 9 (Some (ex_flow ''f2'' 10))
       (feed (\<lambda>now e. NetDeniedActivity_Evaluate example_pb r now (Some e)) [(9, ex_flow ''f1'' 5)] fmempty)) = Inr oc \<and>
     oc_Matched oc \<and> oc_EventIDs oc = [''f1'', ''f2'']"
proof -
  obtain r where r: "NewNetDeniedActivityRule 2 10000000000 (Some 9) = Inr r"
    by (simp add: NewNetDeniedActivityRule_def NewBurstRule_def checkBurstParams_def fail_if_def)
  let ?k = "''10.0.0.1'' @ US @ ''203.0.113.7'' @ US @ ''4444''"
  have "Addr_String (V4 [10, 0, 0, 1]) = ''10.0.0.1''" "Addr_String (V4 [203, 0, 113, 7]) = ''203.0.113.7''"
    "port_text 4444 = ''4444''"
    by (simp_all add: string4_def port_text_def itoa_def utoa.simps digit_def char_of_def bit_Suc_0_iff)
  then have key: "denied_key example_pb 9 (ex_flow i t) = Some ?k" if "t \<ge> 0" for i t
    using that by (simp add: denied_key_def connection_def ex_flow_parsed, simp add: ex_flow_obs_def portOrAny_def ex_flow_def
        EventTypeConnection_def IsZero_def zero_time_def example_pb_def)
  have h: "hits (denied_key example_pb) example_pb ?k [(9, ex_flow ''f1'' 5)] = [entry example_pb (ex_flow ''f1'' 5)]"
    "hits (denied_key example_pb) example_pb ?k ([(9, ex_flow ''f1'' 5)] @ [(9, ex_flow ''f2'' 10)]) =
       [entry example_pb (ex_flow ''f1'' 5), entry example_pb (ex_flow ''f2'' 10)]"
    by (simp_all add: hits_def key)
  have s: "sorted (map we_at (hits (denied_key example_pb) example_pb ?k ([(9, ex_flow ''f1'' 5)] @ [(9, ex_flow ''f2'' 10)])))"
    unfolding h by (simp add: entry_def occurred_def ex_flow_def example_pb_def)
  have d: "dense 10000000000 2 [entry example_pb (ex_flow ''f1'' 5), entry example_pb (ex_flow ''f2'' 10)]"
    "\<not> dense 10000000000 2 [entry example_pb (ex_flow ''f1'' 5)]"
    "within 10000000000 [entry example_pb (ex_flow ''f1'' 5), entry example_pb (ex_flow ''f2'' 10)] =
       [entry example_pb (ex_flow ''f1'' 5), entry example_pb (ex_flow ''f2'' 10)]"
    by (simp_all add: dense_def within_def entry_def occurred_def ex_flow_def example_pb_def)
  have "sort (map we_id [entry example_pb (ex_flow ''f1'' 5), entry example_pb (ex_flow ''f2'' 10)]) = [''f1'', ''f2'']"
    by (simp add: entry_def ex_flow_def)
  with net_denied_fires_exactly [OF r key [of 10 "''f2''"] s] r show ?thesis unfolding h using d by fastforce
qed

end
