(* ===== verification/AppRules.thy ===== *)
theory AppRules
  imports BurstRules InfraObs
begin

text \<open>
  The application and infrastructure rules (\<open>detect/http.go\<close>, \<open>detect/infra.go\<close>): four windowed
  rules, and three stateless ones that repeat an operator's policy or a source's rating.
\<close>

subsection \<open>HTTP (\<open>http.go\<close>)\<close>

text \<open>\<open>Evaluate\<close> of the two windowed HTTP rules up to the test of what is counted.\<close>

definition http_rule ::
  "string \<Rightarrow> (TelemetryEvent \<Rightarrow> http_Observation \<Rightarrow> netWindow gomap \<Rightarrow> Outcome res \<times> netWindow gomap) \<Rightarrow> pblib \<Rightarrow> gotime
    \<Rightarrow> TelemetryEvent option \<Rightarrow> netWindow gomap \<Rightarrow> Outcome res \<times> netWindow gomap" where
  "http_rule what body L now p ws =
     (case p of None \<Rightarrow> (Inl errNilEvent, ws) | Some e \<Rightarrow>
        if te_event_type e \<noteq> EventTypeHTTPRequest then (Inr no_match, ws)
        else
         (case checkNetClock now what of Some x \<Rightarrow> (Inl x, ws) | None \<Rightarrow>
         (case http_Parse L (Some e) of
            Inl x \<Rightarrow> (Inl (Ctx (''detect: '' @ what) x), ws)
          | Inr obs \<Rightarrow> body e obs ws)))"

definition error_route :: "http_Observation \<Rightarrow> string" where
  "error_route obs = (if ho_Route obs = [] then ho_Path obs else ho_Route obs)"

definition HTTPErrorBurst_Evaluate ::
  "pblib \<Rightarrow> burst_config \<Rightarrow> gotime \<Rightarrow> TelemetryEvent option \<Rightarrow> netWindow gomap \<Rightarrow> Outcome res \<times> netWindow gomap" where
  "HTTPErrorBurst_Evaluate L r = http_rule ''http-error-burst'' (\<lambda>e obs ws.
     if \<not> ho_HasStatus obs \<or> ho_StatusCode obs < 500 \<or> ho_StatusCode obs > 599 then (Inr no_match, ws)
     else if IsZero (ho_OccurredAt obs) then (Inl (Plain ''detect: http-error-burst needs occurred_at''), ws)
     else burst_tail r (te_asset_id e @ US @ ho_Host obs @ US @ error_route obs) (ho_OccurredAt obs) e ws
       ''HTTP error burst observed''
       (\<lambda>w. count_of w @ '' HTTP 5xx for '' @ ho_Host obs @ '' '' @ error_route obs @ '' within ''
          @ duration_String (bc_window r) @ '' (threshold '' @ itoa (bc_threshold r) @ '')'')
       (\<lambda>w. burst_attrs r w @ [(''host'', ho_Host obs), (''route'', ho_Route obs)])) L"

definition AuthFailureBurst_Evaluate ::
  "pblib \<Rightarrow> burst_config \<Rightarrow> gotime \<Rightarrow> TelemetryEvent option \<Rightarrow> netWindow gomap \<Rightarrow> Outcome res \<times> netWindow gomap" where
  "AuthFailureBurst_Evaluate L r = http_rule ''auth-failure-burst'' (\<lambda>e obs ws.
     if ho_AuthOutcome obs \<noteq> ''failure'' then (Inr no_match, ws)
     else if IsZero (ho_OccurredAt obs) then (Inl (Plain ''detect: auth-failure-burst needs occurred_at''), ws)
     else burst_tail r (te_asset_id e) (ho_OccurredAt obs) e ws ''Authentication failure burst observed''
       (\<lambda>w. count_of w @ '' auth failures for asset '' @ quote (te_asset_id e) @ '' within ''
          @ duration_String (bc_window r) @ '' (threshold '' @ itoa (bc_threshold r) @ '')'')
       (burst_attrs r)) L"

definition NewHTTPErrorBurstRule :: "int \<Rightarrow> duration \<Rightarrow> gotime option \<Rightarrow> burst_config res" where
  "NewHTTPErrorBurstRule threshold window clock = NewBurstRule ''http-error-burst'' threshold window clock"

definition NewAuthFailureBurstRule :: "int \<Rightarrow> duration \<Rightarrow> gotime option \<Rightarrow> burst_config res" where
  "NewAuthFailureBurstRule threshold window clock = NewBurstRule ''auth-failure-burst'' threshold window clock"

text \<open>The application policy; the three sets are given by their members.\<close>

record AppPolicy =
  ap_DisallowedMethods :: "string list"
  ap_DisallowedRoutes :: "string list"
  ap_DisallowedContentTypes :: "string list"
  ap_Severity :: enum

definition NewAppPolicyViolationRule :: "AppPolicy \<Rightarrow> AppPolicy res" where
  "NewAppPolicyViolationRule p =
     (let methods = map (\<lambda>m. ToUpper (TrimSpace m)) (ap_DisallowedMethods p);
          routes = map TrimSpace (ap_DisallowedRoutes p);
          cts = map (\<lambda>c. ToLower (TrimSpace c)) (ap_DisallowedContentTypes p) in
      if ap_DisallowedMethods p = [] \<and> ap_DisallowedRoutes p = [] \<and> ap_DisallowedContentTypes p = []
        then Inl (Plain ''detect: app policy must have at least one disallowed entry'')
      else if ap_Severity p = SEVERITY_UNSPECIFIED then Inl (Plain ''detect: app policy explicit severity required'')
      else if \<not> Severity_known (ap_Severity p) then Inl (Plain (''detect: app policy unknown severity '' @ itoa (ap_Severity p)))
      else
        (case find (\<lambda>m. ToUpper (TrimSpace m) \<notin> set knownMethods) (ap_DisallowedMethods p) of
           Some m \<Rightarrow> Inl (Plain (if ToUpper (TrimSpace m) = [] then ''detect: empty disallowed method''
               else ''detect: invalid disallowed method '' @ quote m))
         | None \<Rightarrow>
             if [] \<in> set routes then Inl (Plain ''detect: empty disallowed route'')
             else if [] \<in> set cts then Inl (Plain ''detect: empty disallowed content type'')
             else Inr \<lparr>ap_DisallowedMethods = methods, ap_DisallowedRoutes = routes, ap_DisallowedContentTypes = cts,
                    ap_Severity = ap_Severity p\<rparr>))"

definition app_hit :: "AppPolicy \<Rightarrow> http_Observation \<Rightarrow> string" where
  "app_hit r obs =
     (if ho_Method obs \<in> set (ap_DisallowedMethods r) then ''method='' @ ho_Method obs
      else if ho_Path obs \<in> set (ap_DisallowedRoutes r) \<or> ho_Route obs \<in> set (ap_DisallowedRoutes r)
        then (if ho_Route obs \<noteq> [] then ''route='' @ ho_Route obs else ''route='' @ ho_Path obs)
      else if ho_ContentType obs \<in> set (ap_DisallowedContentTypes r) then ''content_type='' @ ho_ContentType obs
      else [])"

definition AppPolicyViolation_Evaluate :: "pblib \<Rightarrow> AppPolicy \<Rightarrow> TelemetryEvent option \<Rightarrow> Outcome res" where
  "AppPolicyViolation_Evaluate L r p =
     (case p of None \<Rightarrow> Inl errNilEvent | Some e \<Rightarrow>
        if te_event_type e \<noteq> EventTypeHTTPRequest then Inr no_match
        else
         (case http_Parse L (Some e) of
            Inl x \<Rightarrow> Inl (Ctx ''detect: app-policy'' x)
          | Inr obs \<Rightarrow>
             (let hit = app_hit r obs in
              if hit = [] then Inr no_match
              else Inr (match (ap_Severity r) ''Application policy violation observed''
                (''policy violation '' @ hit @ '' for '' @ ho_Method obs @ '' '' @ ho_Path obs @ '' (event '' @ te_id e @ '')'')
                [te_id e] [(''policy'', hit)]))))"

subsection \<open>Infrastructure (\<open>infra.go\<close>)\<close>

definition EndpointPrivilegeChange_Evaluate :: "pblib \<Rightarrow> TelemetryEvent option \<Rightarrow> Outcome res" where
  "EndpointPrivilegeChange_Evaluate L p =
     (case p of None \<Rightarrow> Inl errNilEvent | Some e \<Rightarrow>
        if te_event_type e \<noteq> EventTypeEndpointActivity then Inr no_match
        else
         (case infra_Parse L (Some e) of
            Inl x \<Rightarrow> Inl (Ctx ''detect: endpoint-privilege'' x)
          | Inr obs \<Rightarrow>
             (case fo_Payload obs of
                EndpointPayload ep \<Rightarrow>
                  if eo_Action ep \<noteq> ''privilege_transition'' then Inr no_match
                  else if TrimSpace (eo_IntegrityLevel ep) = [] then Inr no_match
                  else Inr (match (te_severity e) ''Endpoint privilege transition observed''
                    (''host '' @ quote (eo_Host ep) @ '' process '' @ quote (eo_Process ep) @ '' privilege transition to ''
                      @ quote (eo_IntegrityLevel ep))
                    [te_id e] [(''integrity_level'', eo_IntegrityLevel ep)])
              | _ \<Rightarrow> Inr no_match)))"

text \<open>\<open>Evaluate\<close> of the two windowed infrastructure rules up to the test of what is counted.\<close>

definition infra_rule ::
  "string \<Rightarrow> string \<Rightarrow> string \<Rightarrow> (TelemetryEvent \<Rightarrow> infra_Observation \<Rightarrow> netWindow gomap \<Rightarrow> Outcome res \<times> netWindow gomap) \<Rightarrow> pblib \<Rightarrow> gotime
    \<Rightarrow> TelemetryEvent option \<Rightarrow> netWindow gomap \<Rightarrow> Outcome res \<times> netWindow gomap" where
  "infra_rule kind what short body L now p ws =
     (case p of None \<Rightarrow> (Inl errNilEvent, ws) | Some e \<Rightarrow>
        if te_event_type e \<noteq> kind then (Inr no_match, ws)
        else
         (case checkNetClock now what of Some x \<Rightarrow> (Inl x, ws) | None \<Rightarrow>
         (case infra_Parse L (Some e) of
            Inl x \<Rightarrow> (Inl (Ctx (''detect: '' @ short) x), ws)
          | Inr obs \<Rightarrow> body e obs ws)))"

definition ServerServiceFailureBurst_Evaluate ::
  "pblib \<Rightarrow> burst_config \<Rightarrow> gotime \<Rightarrow> TelemetryEvent option \<Rightarrow> netWindow gomap \<Rightarrow> Outcome res \<times> netWindow gomap" where
  "ServerServiceFailureBurst_Evaluate L r =
     infra_rule EventTypeServerActivity ''server-failure-burst'' ''server-failure'' (\<lambda>e obs ws.
       case fo_Payload obs of
         ServerPayload s \<Rightarrow>
           if so_Result s \<noteq> ''failure'' \<and> so_ServiceAction s \<noteq> ''failure'' then (Inr no_match, ws)
           else if IsZero (fo_OccurredAt obs) then (Inl (Plain ''detect: server-failure needs occurred_at''), ws)
           else burst_tail r (so_Hostname s @ US @ so_Service s) (fo_OccurredAt obs) e ws
             ''Server service failure burst observed''
             (\<lambda>w. count_of w @ '' failures for '' @ so_Hostname s @ ''/'' @ so_Service s @ '' within '' @ duration_String (bc_window r))
             (burst_attrs r)
       | _ \<Rightarrow> (Inr no_match, ws)) L"

definition NewServerServiceFailureBurstRule :: "int \<Rightarrow> duration \<Rightarrow> gotime option \<Rightarrow> burst_config res" where
  "NewServerServiceFailureBurstRule threshold window clock = NewBurstRule ''server-failure-burst'' threshold window clock"

record ContainerPolicy =
  cp_Privileged :: bool
  cp_HostNetwork :: bool
  cp_HostPID :: bool
  cp_Severity :: enum

definition NewContainerRiskyRuntimePolicyRule :: "ContainerPolicy \<Rightarrow> ContainerPolicy res" where
  "NewContainerRiskyRuntimePolicyRule p =
     (if \<not> cp_Privileged p \<and> \<not> cp_HostNetwork p \<and> \<not> cp_HostPID p
        then Inl (Plain ''detect: container policy must enable at least one flag'')
      else if cp_Severity p = SEVERITY_UNSPECIFIED then Inl (Plain ''detect: container policy explicit severity required'')
      else if \<not> Severity_known (cp_Severity p) then Inl (Plain (''detect: container policy unknown severity '' @ itoa (cp_Severity p)))
      else Inr p)"

definition container_hit :: "ContainerPolicy \<Rightarrow> ContainerObservation \<Rightarrow> string" where
  "container_hit r c =
     (if cp_Privileged r \<and> co_Privileged c then ''privileged=true''
      else if cp_HostNetwork r \<and> co_HostNetwork c then ''host_network=true''
      else if cp_HostPID r \<and> co_HostPID c then ''host_pid=true'' else [])"

definition ContainerRiskyRuntimePolicy_Evaluate :: "pblib \<Rightarrow> ContainerPolicy \<Rightarrow> TelemetryEvent option \<Rightarrow> Outcome res" where
  "ContainerRiskyRuntimePolicy_Evaluate L r p =
     (case p of None \<Rightarrow> Inl errNilEvent | Some e \<Rightarrow>
        if te_event_type e \<noteq> EventTypeContainerActivity then Inr no_match
        else
         (case infra_Parse L (Some e) of
            Inl x \<Rightarrow> Inl (Ctx ''detect: container-policy'' x)
          | Inr obs \<Rightarrow>
             (case fo_Payload obs of
                ContainerPayload c \<Rightarrow>
                 (let hit = container_hit r c in
                  if hit = [] then Inr no_match
                  else Inr (match (cp_Severity r) ''Container runtime policy violation''
                    (''container '' @ quote (co_ContainerID c) @ '' image '' @ quote (co_Image c) @ '' '' @ hit)
                    [te_id e] [(''policy'', hit)]))
              | _ \<Rightarrow> Inr no_match)))"

definition cloud_key :: "CloudObservation \<Rightarrow> string" where
  "cloud_key c =
     (let key = cl_Principal c @ US @ cl_Resource c in if key = US then cl_Provider c @ US @ cl_Action c else key)"

definition CloudDeniedActionBurst_Evaluate ::
  "pblib \<Rightarrow> burst_config \<Rightarrow> gotime \<Rightarrow> TelemetryEvent option \<Rightarrow> netWindow gomap \<Rightarrow> Outcome res \<times> netWindow gomap" where
  "CloudDeniedActionBurst_Evaluate L r =
     infra_rule EventTypeCloudActivity ''cloud-denied-burst'' ''cloud-denied'' (\<lambda>e obs ws.
       case fo_Payload obs of
         CloudPayload c \<Rightarrow>
           if cl_Result c \<noteq> ''denied'' then (Inr no_match, ws)
           else if IsZero (fo_OccurredAt obs) then (Inl (Plain ''detect: cloud-denied needs occurred_at''), ws)
           else burst_tail r (cloud_key c) (fo_OccurredAt obs) e ws ''Repeated cloud authorization denials observed''
             (\<lambda>w. count_of w @ '' denials for '' @ quote (cloud_key c) @ '' within '' @ duration_String (bc_window r))
             (burst_attrs r)
       | _ \<Rightarrow> (Inr no_match, ws)) L"

definition NewCloudDeniedActionBurstRule :: "int \<Rightarrow> duration \<Rightarrow> gotime option \<Rightarrow> burst_config res" where
  "NewCloudDeniedActionBurstRule threshold window clock = NewBurstRule ''cloud-denied-burst'' threshold window clock"

subsection \<open>What the windowed rules count\<close>

definition http_error_key :: "pblib \<Rightarrow> gotime \<Rightarrow> TelemetryEvent \<Rightarrow> string option" where
  "http_error_key L now e =
     (if IsZero now then None
      else case http_Parse L (Some e) of Inl x \<Rightarrow> None | Inr obs \<Rightarrow>
        if ho_HasStatus obs \<and> 500 \<le> ho_StatusCode obs \<and> ho_StatusCode obs \<le> 599 \<and> \<not> IsZero (ho_OccurredAt obs)
          then Some (te_asset_id e @ US @ ho_Host obs @ US @ error_route obs) else None)"

definition http_auth_key :: "pblib \<Rightarrow> gotime \<Rightarrow> TelemetryEvent \<Rightarrow> string option" where
  "http_auth_key L now e =
     (if IsZero now then None
      else case http_Parse L (Some e) of Inl x \<Rightarrow> None | Inr obs \<Rightarrow>
        if ho_AuthOutcome obs = ''failure'' \<and> \<not> IsZero (ho_OccurredAt obs) then Some (te_asset_id e) else None)"

definition server_key :: "pblib \<Rightarrow> gotime \<Rightarrow> TelemetryEvent \<Rightarrow> string option" where
  "server_key L now e =
     (if IsZero now then None
      else case infra_Parse L (Some e) of Inl x \<Rightarrow> None | Inr obs \<Rightarrow>
        (case fo_Payload obs of
           ServerPayload s \<Rightarrow>
             if (so_Result s = ''failure'' \<or> so_ServiceAction s = ''failure'') \<and> \<not> IsZero (fo_OccurredAt obs)
               then Some (so_Hostname s @ US @ so_Service s) else None
         | _ \<Rightarrow> None))"

definition cloud_denied_key :: "pblib \<Rightarrow> gotime \<Rightarrow> TelemetryEvent \<Rightarrow> string option" where
  "cloud_denied_key L now e =
     (if IsZero now then None
      else case infra_Parse L (Some e) of Inl x \<Rightarrow> None | Inr obs \<Rightarrow>
        (case fo_Payload obs of
           CloudPayload c \<Rightarrow>
             if cl_Result c = ''denied'' \<and> \<not> IsZero (fo_OccurredAt obs) then Some (cloud_key c) else None
         | _ \<Rightarrow> None))"

text \<open>The laws of a windowed rule, from what it does on the two kinds of events.\<close>

lemma window_ruleI:
  assumes "\<And>now e ws. key now e = None \<Longrightarrow> snd (eval now e ws) = ws \<and> (\<forall>oc. fst (eval now e ws) = Inr oc \<longrightarrow> \<not> oc_Matched oc)"
    and "\<And>now e k ws. key now e = Some k \<Longrightarrow> \<exists>t d m. t \<noteq> [] \<and> (\<forall>w. d w \<noteq> []) \<and> (\<forall>w. plain_attrs (m w)) \<and>
      eval now e ws = burst_tail r k (occurred L e) e ws t d m"
  shows "window_rule L r key eval"
  by (rule window_rule.intro) (rule assms, assumption)+

lemma tail_shape:
  "t \<noteq> [] \<Longrightarrow> (\<And>w. d w \<noteq> []) \<Longrightarrow> (\<And>w. plain_attrs (m w)) \<Longrightarrow> x = burst_tail r k at e ws t d m \<Longrightarrow>
     \<exists>t d m. t \<noteq> [] \<and> (\<forall>w. d w \<noteq> []) \<and> (\<forall>w. plain_attrs (m w)) \<and> x = burst_tail r k at e ws t d m"
  by blast

lemma http_rule_None:
  "(\<And>obs. http_Parse L (Some e) = Inr obs \<Longrightarrow> \<not> IsZero now \<Longrightarrow>
      snd (body e obs ws) = ws \<and> (\<forall>oc. fst (body e obs ws) = Inr oc \<longrightarrow> \<not> oc_Matched oc)) \<Longrightarrow>
   snd (http_rule what body L now (Some e) ws) = ws \<and>
     (\<forall>oc. fst (http_rule what body L now (Some e) ws) = Inr oc \<longrightarrow> \<not> oc_Matched oc)"
  by (auto simp: http_rule_def checkNetClock_def fail_if_def split: sum.splits)

lemma http_rule_Inr:
  "http_Parse L (Some e) = Inr obs \<Longrightarrow> \<not> IsZero now \<Longrightarrow> http_rule what body L now (Some e) ws = body e obs ws"
  by (frule http_Parse_Inr [THEN iffD1]) (simp add: http_rule_def checkNetClock_def fail_if_def)

lemma infra_rule_None:
  "(\<And>obs. te_event_type e = kind \<Longrightarrow> infra_Parse L (Some e) = Inr obs \<Longrightarrow> \<not> IsZero now \<Longrightarrow>
      snd (body e obs ws) = ws \<and> (\<forall>oc. fst (body e obs ws) = Inr oc \<longrightarrow> \<not> oc_Matched oc)) \<Longrightarrow>
   snd (infra_rule kind what short body L now (Some e) ws) = ws \<and>
     (\<forall>oc. fst (infra_rule kind what short body L now (Some e) ws) = Inr oc \<longrightarrow> \<not> oc_Matched oc)"
  by (auto simp: infra_rule_def checkNetClock_def fail_if_def split: sum.splits)

lemma infra_rule_Inr:
  "infra_Parse L (Some e) = Inr obs \<Longrightarrow> te_event_type e = kind \<Longrightarrow> \<not> IsZero now \<Longrightarrow>
     infra_rule kind what short body L now (Some e) ws = body e obs ws"
  by (simp add: infra_rule_def checkNetClock_def fail_if_def)

lemma http_occurred: "http_Parse L (Some e) = Inr obs \<Longrightarrow> occurred L e = ho_OccurredAt obs"
  by (auto simp: http_Parse_Inr)

interpretation http_error_burst: window_rule L r "http_error_key L" "\<lambda>now e. HTTPErrorBurst_Evaluate L r now (Some e)" for L r
proof (rule window_ruleI)
  fix now e k ws assume "http_error_key L now e = Some k"
  then obtain obs where obs: "\<not> IsZero now" "http_Parse L (Some e) = Inr obs" "ho_HasStatus obs" "500 \<le> ho_StatusCode obs"
    "ho_StatusCode obs \<le> 599" "\<not> IsZero (ho_OccurredAt obs)" "k = te_asset_id e @ US @ ho_Host obs @ US @ error_route obs"
    by (auto simp: http_error_key_def split: if_splits sum.splits)
  show "\<exists>t d m. t \<noteq> [] \<and> (\<forall>w. d w \<noteq> []) \<and> (\<forall>w. plain_attrs (m w)) \<and>
      HTTPErrorBurst_Evaluate L r now (Some e) ws = burst_tail r k (occurred L e) e ws t d m"
    unfolding HTTPErrorBurst_Evaluate_def http_rule_Inr [OF obs(2,1)]
    by (rule tail_shape [rotated 3]) (use obs in \<open>auto simp: http_occurred [OF obs(2)]\<close>)
qed (unfold HTTPErrorBurst_Evaluate_def, rule http_rule_None, auto simp: http_error_key_def)

interpretation http_auth_burst: window_rule L r "http_auth_key L" "\<lambda>now e. AuthFailureBurst_Evaluate L r now (Some e)" for L r
proof (rule window_ruleI)
  fix now e k ws assume "http_auth_key L now e = Some k"
  then obtain obs where obs: "\<not> IsZero now" "http_Parse L (Some e) = Inr obs" "ho_AuthOutcome obs = ''failure''"
    "\<not> IsZero (ho_OccurredAt obs)" "k = te_asset_id e"
    by (auto simp: http_auth_key_def split: if_splits sum.splits)
  show "\<exists>t d m. t \<noteq> [] \<and> (\<forall>w. d w \<noteq> []) \<and> (\<forall>w. plain_attrs (m w)) \<and>
      AuthFailureBurst_Evaluate L r now (Some e) ws = burst_tail r k (occurred L e) e ws t d m"
    unfolding AuthFailureBurst_Evaluate_def http_rule_Inr [OF obs(2,1)]
    by (rule tail_shape [rotated 3]) (use obs in \<open>auto simp: http_occurred [OF obs(2)]\<close>)
qed (unfold AuthFailureBurst_Evaluate_def, rule http_rule_None, auto simp: http_auth_key_def)

interpretation server_burst: window_rule L r "server_key L" "\<lambda>now e. ServerServiceFailureBurst_Evaluate L r now (Some e)" for L r
proof (rule window_ruleI)
  fix now e k ws assume "server_key L now e = Some k"
  then obtain obs s where obs: "\<not> IsZero now" "infra_Parse L (Some e) = Inr obs" "fo_Payload obs = ServerPayload s"
    "so_Result s = ''failure'' \<or> so_ServiceAction s = ''failure''" "\<not> IsZero (fo_OccurredAt obs)"
    "k = so_Hostname s @ US @ so_Service s"
    by (auto simp: server_key_def split: if_splits sum.splits infra_payload.splits)
  note facts = infra_Parse_Inr [OF obs(2)]
  have kind: "te_event_type e = EventTypeServerActivity" "fo_OccurredAt obs = occurred L e" using facts obs(3) by simp_all
  show "\<exists>t d m. t \<noteq> [] \<and> (\<forall>w. d w \<noteq> []) \<and> (\<forall>w. plain_attrs (m w)) \<and>
      ServerServiceFailureBurst_Evaluate L r now (Some e) ws = burst_tail r k (occurred L e) e ws t d m"
    unfolding ServerServiceFailureBurst_Evaluate_def infra_rule_Inr [OF obs(2) kind(1) obs(1)]
    by (rule tail_shape [rotated 3]) (use obs kind(2) in auto)
qed (unfold ServerServiceFailureBurst_Evaluate_def, rule infra_rule_None, auto simp: server_key_def split: infra_payload.splits)

interpretation cloud_burst: window_rule L r "cloud_denied_key L" "\<lambda>now e. CloudDeniedActionBurst_Evaluate L r now (Some e)" for L r
proof (rule window_ruleI)
  fix now e k ws assume "cloud_denied_key L now e = Some k"
  then obtain obs c where obs: "\<not> IsZero now" "infra_Parse L (Some e) = Inr obs" "fo_Payload obs = CloudPayload c"
    "cl_Result c = ''denied''" "\<not> IsZero (fo_OccurredAt obs)" "k = cloud_key c"
    by (auto simp: cloud_denied_key_def split: if_splits sum.splits infra_payload.splits)
  note facts = infra_Parse_Inr [OF obs(2)]
  have kind: "te_event_type e = EventTypeCloudActivity" "fo_OccurredAt obs = occurred L e" using facts obs(3) by simp_all
  show "\<exists>t d m. t \<noteq> [] \<and> (\<forall>w. d w \<noteq> []) \<and> (\<forall>w. plain_attrs (m w)) \<and>
      CloudDeniedActionBurst_Evaluate L r now (Some e) ws = burst_tail r k (occurred L e) e ws t d m"
    unfolding CloudDeniedActionBurst_Evaluate_def infra_rule_Inr [OF obs(2) kind(1) obs(1)]
    by (rule tail_shape [rotated 3]) (use obs kind(2) in auto)
qed (unfold CloudDeniedActionBurst_Evaluate_def, rule infra_rule_None, auto simp: cloud_denied_key_def split: infra_payload.splits)

subsection \<open>The stateless rules\<close>

lemma endpoint_usable: "good_event L e \<Longrightarrow> usable e (EndpointPrivilegeChange_Evaluate L (Some e))"
  by (frule good_event_facts)
    (auto simp: EndpointPrivilegeChange_Evaluate_def intro!: buildable_match split: sum.split infra_payload.split)

definition app_policy_ok :: "AppPolicy \<Rightarrow> bool" where
  "app_policy_ok r \<longleftrightarrow> SEVERITY_INFO \<le> ap_Severity r \<and> ap_Severity r \<le> SEVERITY_CRITICAL"

definition container_policy_ok :: "ContainerPolicy \<Rightarrow> bool" where
  "container_policy_ok r \<longleftrightarrow> SEVERITY_INFO \<le> cp_Severity r \<and> cp_Severity r \<le> SEVERITY_CRITICAL"

lemma new_app_policy_ok: "NewAppPolicyViolationRule p = Inr r \<Longrightarrow> app_policy_ok r"
  by (auto simp: NewAppPolicyViolationRule_def app_policy_ok_def Let_def boundary split: if_splits option.splits)

lemma new_container_policy_ok: "NewContainerRiskyRuntimePolicyRule p = Inr r \<Longrightarrow> container_policy_ok r"
  by (auto simp: NewContainerRiskyRuntimePolicyRule_def container_policy_ok_def boundary split: if_splits)

lemma app_usable: "good_event L e \<Longrightarrow> app_policy_ok r \<Longrightarrow> usable e (AppPolicyViolation_Evaluate L r (Some e))"
  by (frule good_event_facts)
    (auto simp: AppPolicyViolation_Evaluate_def app_policy_ok_def Let_def intro!: buildable_match split: sum.split)

lemma container_usable:
  "good_event L e \<Longrightarrow> container_policy_ok r \<Longrightarrow> usable e (ContainerRiskyRuntimePolicy_Evaluate L r (Some e))"
  by (frule good_event_facts)
    (auto simp: ContainerRiskyRuntimePolicy_Evaluate_def container_policy_ok_def Let_def intro!: buildable_match
      split: sum.split infra_payload.split)

interpretation endpoint_privilege: sound_rule "\<lambda>now e s. (EndpointPrivilegeChange_Evaluate L (Some e), s)" "\<lambda>s :: unit. True" "good_event L" for L
  by (rule sound_ruleI) (simp add: endpoint_usable)

interpretation app_policy: sound_rule "\<lambda>now e r. (AppPolicyViolation_Evaluate L r (Some e), r)" app_policy_ok "good_event L" for L
  by (rule sound_ruleI) (simp add: app_usable)

interpretation container_policy: sound_rule "\<lambda>now e r. (ContainerRiskyRuntimePolicy_Evaluate L r (Some e), r)" container_policy_ok "good_event L" for L
  by (rule sound_ruleI) (simp add: container_usable)

end
