(* ===== verification/IocMatch.thy ===== *)
theory IocMatch
  imports Rules SupplyChain "HOL-Library.Product_Lexorder"
begin

text \<open>
  The offline indicator set (\<open>internal/threatintel/ioc.go\<close>) and the rule over it (\<open>detect/threat.go\<close>).
  Reading the file, decoding its JSON and the Python normalizer are outside the repository's Go
  code: they are the fields of a record that is a parameter. The event's fields are a Go map,
  whose iteration order is not fixed: it is a parameter of the match as well.
\<close>

subsection \<open>Sets\<close>

record Entry =
  en_Kind :: string
  en_Value :: string
  en_Source :: string

record iocset =
  is_ID :: string
  is_Version :: string
  is_Entries :: "Entry list"

record iocmatch =
  im_ID :: string
  im_SetID :: string
  im_SetVersion :: string
  im_Indicator :: string
  im_Kind :: string
  im_ListSource :: string
  im_EventID :: string
  im_MatchedField :: string

record ioclib =
  il_ReadFile :: "string \<Rightarrow> string res"
  il_Unmarshal :: "string \<Rightarrow> Entry list res"
  il_python :: "goerr"
  il_normalize :: "string \<Rightarrow> string \<Rightarrow> string res"

fun load_entries :: "ioclib \<Rightarrow> nat \<Rightarrow> Entry list \<Rightarrow> Entry list res" where
  "load_entries X i [] = Inr []"
| "load_entries X i (item # items) =
     (if TrimSpace (en_Source item) = [] then Inl (Plain (''threatintel: indicator '' @ utoa i @ '': empty source''))
      else (case il_normalize X (en_Kind item) (en_Value item) of
              Inl e \<Rightarrow> Inl (Plain (''threatintel: indicator '' @ utoa i @ '': '' @ err_Error e))
            | Inr norm \<Rightarrow> map_sum id (\<lambda>es. item\<lparr>en_Value := norm\<rparr> # es) (load_entries X (i + 1) items)))"

definition set_header :: "string \<Rightarrow> string \<Rightarrow> goerr" where
  "set_header i version = first_err [
     fail_if (TrimSpace i = []) (Plain ''threatintel: set id required''),
     fail_if (TrimSpace version = []) (Plain ''threatintel: set version required'')]"

definition LoadSetBytes :: "ioclib \<Rightarrow> string \<Rightarrow> string \<Rightarrow> string \<Rightarrow> string \<Rightarrow> iocset res" where
  "LoadSetBytes X raw origin i version =
     (case set_header i version of
        Some e \<Rightarrow> Inl e
      | None \<Rightarrow>
         (case il_Unmarshal X raw of
            Inl e \<Rightarrow> Inl (Plain (''threatintel: parse '' @ origin @ '': '' @ err_Error e))
          | Inr items \<Rightarrow>
              if items = [] then Inl (Plain (''threatintel: empty indicator set '' @ origin))
              else (case il_python X of
                      Some e \<Rightarrow> Inl e
                    | None \<Rightarrow> map_sum id (\<lambda>es. \<lparr>is_ID = i, is_Version = version, is_Entries = es\<rparr>) (load_entries X 0 items))))"

definition LoadSet :: "ioclib \<Rightarrow> string \<Rightarrow> string \<Rightarrow> string \<Rightarrow> iocset res" where
  "LoadSet X path i version =
     (case set_header i version of
        Some e \<Rightarrow> Inl e
      | None \<Rightarrow>
         (case il_ReadFile X path of
            Inl e \<Rightarrow> Inl (Plain (''threatintel: read '' @ path @ '': '' @ err_Error e))
          | Inr raw \<Rightarrow> LoadSetBytes X raw path i version))"

subsection \<open>Matching\<close>

definition ioc_matchID :: "string \<Rightarrow> string \<Rightarrow> string \<Rightarrow> string \<Rightarrow> string \<Rightarrow> string" where
  "ioc_matchID setID version eventID indicator field = ''iocm-'' @ id16 (join US [setID, version, eventID, indicator, field])"

text \<open>The scanned fields: five of the event, and every attribute under its prefixed name.\<close>

definition scanned :: "TelemetryEvent \<Rightarrow> (string \<times> string) list" where
  "scanned e = [(''id'', te_id e), (''event_type'', te_event_type e), (''asset_id'', te_asset_id e),
     (''source'', te_source e), (''raw'', te_raw e)] @
     map (\<lambda>k. (''attributes.'' @ k, attr (te_attributes e) k)) (sortedIDs (te_attributes e))"

definition entry_match :: "iocset \<Rightarrow> TelemetryEvent \<Rightarrow> Entry \<Rightarrow> string \<times> string \<Rightarrow> iocmatch option" where
  "entry_match s e en f =
     (case f of (field, body) \<Rightarrow>
        if body = [] then None
        else if \<not> EqualFold (TrimSpace body) (en_Value en) then None
        else Some \<lparr> im_ID = ioc_matchID (is_ID s) (is_Version s) (te_id e) (en_Value en) field, im_SetID = is_ID s,
               im_SetVersion = is_Version s, im_Indicator = en_Value en, im_Kind = en_Kind en,
               im_ListSource = en_Source en, im_EventID = te_id e, im_MatchedField = field \<rparr>)"

definition match_order :: "iocmatch \<Rightarrow> string \<times> string \<times> string \<times> string" where
  "match_order m = (im_Indicator m, im_MatchedField m, im_Kind m, im_ListSource m)"

text \<open>\<open>MatchEvent\<close>, with the order in which the range over the map visits the fields.\<close>

definition MatchEvent :: "(string \<times> string) list \<Rightarrow> TelemetryEvent option \<Rightarrow> iocset \<Rightarrow> iocmatch list" where
  "MatchEvent order p s =
     (case p of None \<Rightarrow> [] | Some e \<Rightarrow>
        if is_Entries s = [] then []
        else sort_key match_order (concat (map (\<lambda>en. List.map_filter (entry_match s e en) order) (is_Entries s))))"

subsection \<open>The rule\<close>

record ioc_rule =
  ioc_set :: iocset
  ioc_severity :: enum
  ioc_label :: string

definition NewConfiguredIOCMatchRule :: "iocset \<Rightarrow> enum \<Rightarrow> string \<Rightarrow> ioc_rule res" where
  "NewConfiguredIOCMatchRule s severity label =
     (if is_Entries s = [] then Inl (Plain ''detect: ioc-match needs a non-empty IOC set'')
      else if \<not> Severity_known severity \<or> severity = SEVERITY_UNSPECIFIED
        then Inl (Plain (''detect: ioc-match explicit severity required, got '' @ itoa severity))
      else if label = [] then Inl (Plain ''detect: ioc-match policy label required'')
      else Inr \<lparr>ioc_set = s, ioc_severity = severity, ioc_label = label\<rparr>)"

definition ConfiguredIOCMatch_Evaluate :: "(TelemetryEvent \<Rightarrow> (string \<times> string) list) \<Rightarrow> ioc_rule \<Rightarrow> TelemetryEvent option \<Rightarrow> Outcome res" where
  "ConfiguredIOCMatch_Evaluate order r p =
     (case p of None \<Rightarrow> Inl errNilEvent | Some e \<Rightarrow>
       (case MatchEvent (order e) (Some e) (ioc_set r) of
          [] \<Rightarrow> Inr no_match
        | m # _ \<Rightarrow>
            Inr (match (ioc_severity r) ''Configured IOC match observed''
              (''event '' @ te_id e @ '' field '' @ quote (im_MatchedField m) @ '' exactly holds configured '' @ im_Kind m
                @ '' indicator '' @ quote (im_Indicator m) @ '' from set '' @ quote (is_ID (ioc_set r))
                @ '' (event '' @ te_id e @ '')'')
              [te_id e]
              [(''ioc_set'', is_ID (ioc_set r)), (''ioc_version'', is_Version (ioc_set r)), (''indicator'', im_Indicator m),
               (''ioc_kind'', im_Kind m), (''field'', im_MatchedField m), (''policy'', ioc_label r)])))"

definition ioc_rule_ok :: "ioc_rule \<Rightarrow> bool" where
  "ioc_rule_ok r \<longleftrightarrow> SEVERITY_INFO \<le> ioc_severity r \<and> ioc_severity r \<le> SEVERITY_CRITICAL"

lemma new_ioc_rule_ok: "NewConfiguredIOCMatchRule s severity label = Inr r \<Longrightarrow> ioc_rule_ok r"
  by (auto simp: NewConfiguredIOCMatchRule_def ioc_rule_ok_def boundary split: if_splits)

interpretation ioc: sound_rule "\<lambda>now e r. (ConfiguredIOCMatch_Evaluate order r (Some e), r)" ioc_rule_ok "good_event L" for L order
  by (rule sound_ruleI, frule good_event_facts)
    (auto simp: ConfiguredIOCMatch_Evaluate_def ioc_rule_ok_def intro!: buildable_match split: list.split)

subsection \<open>What is matched\<close>

lemma entry_match_Some:
  "entry_match s e en (field, body) = Some m \<longleftrightarrow> body \<noteq> [] \<and> EqualFold (TrimSpace body) (en_Value en) \<and>
     m = \<lparr> im_ID = ioc_matchID (is_ID s) (is_Version s) (te_id e) (en_Value en) field, im_SetID = is_ID s,
       im_SetVersion = is_Version s, im_Indicator = en_Value en, im_Kind = en_Kind en,
       im_ListSource = en_Source en, im_EventID = te_id e, im_MatchedField = field \<rparr>"
  by (auto simp: entry_match_def)

lemma entry_match_fields:
  "entry_match s e en (field, body) = Some m \<Longrightarrow> body \<noteq> [] \<and> EqualFold (TrimSpace body) (en_Value en) \<and>
     im_Indicator m = en_Value en \<and> im_MatchedField m = field \<and> im_EventID m = te_id e"
  by (simp add: entry_match_Some)

lemma entry_match_exists:
  "body \<noteq> [] \<Longrightarrow> EqualFold (TrimSpace body) (en_Value en) \<Longrightarrow> \<exists>m. entry_match s e en (field, body) = Some m"
  by (simp add: entry_match_def)

lemma set_pass: "set (List.map_filter f xs) = {y. \<exists>x \<in> set xs. f x = Some y}"
  by (induction xs) (auto simp: List.map_filter_simps split: option.splits)

lemma set_MatchEvent:
  "set (MatchEvent order (Some e) s) = {m. \<exists>en \<in> set (is_Entries s). \<exists>f \<in> set order. entry_match s e en f = Some m}"
  by (auto simp: MatchEvent_def set_pass)

lemma match_determined:
  "entry_match s e en f = Some m \<Longrightarrow> entry_match s e en' f' = Some m' \<Longrightarrow> match_order m = match_order m' \<Longrightarrow> m = m'"
  by (cases f; cases f') (auto simp: entry_match_Some match_order_def)

lemma mset_map_filter_order: "mset xs = mset ys \<Longrightarrow> mset (List.map_filter f xs) = mset (List.map_filter f ys)"
  by (simp add: List.map_filter_def mset_map mset_filter)

lemma mset_concat_map: "(\<And>x. x \<in> set xs \<Longrightarrow> mset (f x) = mset (g x)) \<Longrightarrow> mset (concat (map f xs)) = mset (concat (map g xs))"
  by (induction xs) auto

lemma mset_concat_perm: "mset xs = mset ys \<Longrightarrow> mset (concat (map f xs)) = mset (concat (map f ys))"
proof -
  have "mset (concat (map f zs)) = \<Sum>\<^sub># (image_mset (\<lambda>x. mset (f x)) (mset zs))" for zs by (induction zs) auto
  then show "mset xs = mset ys \<Longrightarrow> mset (concat (map f xs)) = mset (concat (map f ys))" by simp
qed

text \<open>
  C33. Matching is exact and does not depend on any order. The matches of an event are exactly the
  pairs of a configured indicator and a non-empty field that equals it up to surrounding space
  and letter case; and whatever order the map of fields is visited in, and whatever order the
  indicators are configured in, the same list comes out.
\<close>

theorem ioc_match_exact:
  assumes "mset order = mset (scanned e)" and "mset (is_Entries s') = mset (is_Entries s)"
    and "is_ID s' = is_ID s" and "is_Version s' = is_Version s"
  shows "MatchEvent order (Some e) s' = MatchEvent (scanned e) (Some e) s \<and>
    (\<forall>en field body. en \<in> set (is_Entries s) \<longrightarrow> (field, body) \<in> set (scanned e) \<longrightarrow> body \<noteq> [] \<longrightarrow>
       EqualFold (TrimSpace body) (en_Value en) \<longrightarrow>
       (\<exists>m \<in> set (MatchEvent order (Some e) s'). im_Indicator m = en_Value en \<and> im_MatchedField m = field)) \<and>
    (\<forall>m \<in> set (MatchEvent order (Some e) s'). \<exists>en body. en \<in> set (is_Entries s) \<and> (im_MatchedField m, body) \<in> set (scanned e) \<and>
       body \<noteq> [] \<and> EqualFold (TrimSpace body) (en_Value en) \<and> im_Indicator m = en_Value en \<and> im_EventID m = te_id e)"
proof -
  let ?pass = "\<lambda>order s. concat (map (\<lambda>en. List.map_filter (entry_match s e en) order) (is_Entries s))"
  have em: "entry_match s' e = entry_match s e" by (intro ext) (simp only: entry_match_def assms(3,4))
  have "mset (?pass order s') = mset (?pass order s)"
    unfolding em by (rule mset_concat_perm [OF assms(2)])
  also have "\<dots> = mset (?pass (scanned e) s)"
    by (rule mset_concat_map) (rule mset_map_filter_order [OF assms(1)])
  finally have perm: "mset (?pass order s') = mset (?pass (scanned e) s)" .
  have "inj_on match_order (set (?pass order s'))"
    by (rule inj_onI) (auto simp: set_pass intro: match_determined)
  then have same: "sort_key match_order (?pass order s') = sort_key match_order (?pass (scanned e) s)"
    by (intro sort_key_inj_key_eq) (simp_all only: perm mset_sort sorted_sort_key)
  have empty: "is_Entries s' = [] \<longleftrightarrow> is_Entries s = []" using assms(2) by (metis mset_zero_iff)
  have eq: "MatchEvent order (Some e) s' = MatchEvent (scanned e) (Some e) s"
    using same empty by (simp add: MatchEvent_def)
  have found: "\<exists>m \<in> set (MatchEvent order (Some e) s'). im_Indicator m = en_Value en \<and> im_MatchedField m = field"
    if h: "en \<in> set (is_Entries s)" "(field, body) \<in> set (scanned e)" "body \<noteq> []" "EqualFold (TrimSpace body) (en_Value en)"
    for en field body
  proof -
    obtain m where m: "entry_match s e en (field, body) = Some m" using entry_match_exists [OF h(3,4)] by blast
    then have "m \<in> set (MatchEvent (scanned e) (Some e) s)" unfolding set_MatchEvent using h(1,2) by blast
    then show ?thesis unfolding eq using entry_match_fields [OF m] by blast
  qed
  have real: "\<exists>en body. en \<in> set (is_Entries s) \<and> (im_MatchedField m, body) \<in> set (scanned e) \<and>
       body \<noteq> [] \<and> EqualFold (TrimSpace body) (en_Value en) \<and> im_Indicator m = en_Value en \<and> im_EventID m = te_id e"
    if hm: "m \<in> set (MatchEvent order (Some e) s')" for m
  proof -
    obtain en f where ef: "en \<in> set (is_Entries s)" "f \<in> set (scanned e)" "entry_match s e en f = Some m"
      using hm unfolding eq set_MatchEvent by blast
    obtain field body where f: "f = (field, body)" by (rule prod.exhaust)
    show ?thesis using ef entry_match_fields [OF ef(3) [unfolded f]] f by blast
  qed
  show ?thesis using eq found real by blast
qed

definition ex_set :: "Entry list \<Rightarrow> iocset" where
  "ex_set es = \<lparr>is_ID = ''lab'', is_Version = ''1'', is_Entries = es\<rparr>"

definition ex_ioc_event :: TelemetryEvent where
  "ex_ioc_event = ex_login\<lparr>te_raw := '' EVIL.example '', te_attributes := fmempty\<rparr>"

theorem ioc_match_exact_witness:
  "\<exists>m \<in> set (MatchEvent (rev (scanned ex_ioc_event)) (Some ex_ioc_event)
      (ex_set [\<lparr>en_Kind = ''domain'', en_Value = ''evil.example'', en_Source = ''lab''\<rparr>])).
     im_Indicator m = ''evil.example'' \<and> im_MatchedField m = ''raw''"
proof -
  let ?en = "\<lparr>en_Kind = ''domain'', en_Value = ''evil.example'', en_Source = ''lab''\<rparr>"
  have "EqualFold (TrimSpace '' EVIL.example '') ''evil.example''" by code_simp
  then show ?thesis
    using conjunct1 [OF conjunct2 [OF ioc_match_exact [of "rev (scanned ex_ioc_event)" ex_ioc_event "ex_set [?en]" "ex_set [?en]",
        OF mset_rev refl refl refl]], THEN spec, of ?en, THEN spec, of "''raw''", THEN spec, of "'' EVIL.example ''"]
    by (simp add: ex_set_def scanned_def ex_ioc_event_def)
qed

end
