(* ===== verification/Monitor.thy ===== *)
theory Monitor
  imports IdentObs GoTime "HOL-Library.Product_Lexorder" "HOL-Library.Multiset"
begin

text \<open>
  Monitoring over persisted telemetry (\<open>internal/monitor\<close>): the query of \<open>query.go\<close> and the three
  correlations of \<open>siem.go\<close>. Stored events are pointers, so a list of them may hold nil.
  \<open>sort.Slice\<close> is not stable; the orders used here can only tie for events with the same
  instant and id, and a stable sort is taken for them.
\<close>

subsection \<open>Queries (\<open>query.go\<close>)\<close>

definition MaxLimit :: int where "MaxLimit = 1000"
definition DefaultLimit :: int where "DefaultLimit = 100"

record Query =
  qy_From :: gotime
  qy_To :: gotime
  qy_Source :: string
  qy_EventType :: string
  qy_Severity :: enum
  qy_HasSeverity :: bool
  qy_AssetID :: string
  qy_CorrelationID :: string
  qy_DetectedIDs :: "bool gomap"
  qy_Detected :: "bool option"
  qy_Limit :: int
  qy_OrderDesc :: bool

definition correlation_attr :: "TelemetryEvent \<Rightarrow> string" where
  "correlation_attr e = attr (te_attributes e) ''blueveil.correlation_id''"

text \<open>The constraints, each a \<open>continue\<close> of the loop.\<close>

definition query_keeps :: "pblib \<Rightarrow> Query \<Rightarrow> TelemetryEvent \<Rightarrow> bool" where
  "query_keeps L q e \<longleftrightarrow>
     \<not> (\<not> IsZero (qy_From q) \<and> occurred L e < qy_From q) \<and>
     \<not> (\<not> IsZero (qy_To q) \<and> qy_To q < occurred L e) \<and>
     \<not> (qy_Source q \<noteq> [] \<and> te_source e \<noteq> qy_Source q) \<and>
     \<not> (qy_EventType q \<noteq> [] \<and> te_event_type e \<noteq> qy_EventType q) \<and>
     \<not> (qy_HasSeverity q \<and> te_severity e \<noteq> qy_Severity q) \<and>
     \<not> (qy_AssetID q \<noteq> [] \<and> te_asset_id e \<noteq> qy_AssetID q) \<and>
     \<not> (qy_CorrelationID q \<noteq> [] \<and> correlation_attr e \<noteq> qy_CorrelationID q) \<and>
     (case qy_Detected q of None \<Rightarrow> True
      | Some wanted \<Rightarrow> wanted = (fmlookup (qy_DetectedIDs q) (te_id e) = Some True))"

text \<open>An event without a time, or none at all, fails the whole query.\<close>

definition is_corrupt :: "TelemetryEvent option \<Rightarrow> bool" where
  "is_corrupt p \<longleftrightarrow> (case p of None \<Rightarrow> True | Some e \<Rightarrow> te_occurred_at e = None)"

definition idOf :: "TelemetryEvent option \<Rightarrow> string" where
  "idOf p = (case p of None \<Rightarrow> ''<nil>'' | Some e \<Rightarrow> te_id e)"

fun query_rows :: "pblib \<Rightarrow> Query \<Rightarrow> TelemetryEvent option list \<Rightarrow> TelemetryEvent list res" where
  "query_rows L q [] = Inr []"
| "query_rows L q (p # ps) =
     (if is_corrupt p then Inl (Plain (''monitor: corrupt persisted event '' @ idOf p @ '' fails closed''))
      else if query_keeps L q (the p) then map_sum id (\<lambda>es. the p # es) (query_rows L q ps)
      else query_rows L q ps)"

definition event_order :: "pblib \<Rightarrow> TelemetryEvent \<Rightarrow> gotime \<times> string" where
  "event_order L e = (occurred L e, te_id e)"

definition query_limit :: "int \<Rightarrow> int" where
  "query_limit n = (if n = 0 then DefaultLimit else n)"

definition query_order :: "pblib \<Rightarrow> Query \<Rightarrow> TelemetryEvent list \<Rightarrow> TelemetryEvent list" where
  "query_order L q es = (let up = sort_key (event_order L) es in if qy_OrderDesc q then rev up else up)"

definition query_Execute :: "pblib \<Rightarrow> Query \<Rightarrow> TelemetryEvent option list \<Rightarrow> TelemetryEvent list res" where
  "query_Execute L q ps =
     (let limit = query_limit (qy_Limit q) in
      if limit < 0 \<or> MaxLimit < limit
        then Inl (Plain (''monitor: limit '' @ itoa (qy_Limit q) @ '' out of [0,'' @ itoa MaxLimit @ '']''))
      else if \<not> IsZero (qy_From q) \<and> \<not> IsZero (qy_To q) \<and> qy_To q < qy_From q
        then Inl (Plain ''monitor: time range inverted'')
      else map_sum id (\<lambda>es. take (nat limit) (query_order L q es)) (query_rows L q ps))"

subsection \<open>Correlations (\<open>siem.go\<close>)\<close>

definition CorrelationAuthToIdentity :: string where "CorrelationAuthToIdentity = ''auth-to-identity-change''"
definition CorrelationNetworkToApp :: string where "CorrelationNetworkToApp = ''network-to-application''"
definition CorrelationEndpointToServer :: string where "CorrelationEndpointToServer = ''endpoint-to-server''"
definition StatusCorrelated :: string where "StatusCorrelated = ''CORRELATED''"

record mon_Correlation =
  mc_ID :: string
  mc_Type :: string
  mc_EventIDs :: "string list"
  mc_Principal :: string
  mc_AssetID :: string
  mc_ObservedAt :: gotime
  mc_Status :: string

definition correlationID :: "string \<Rightarrow> string list \<Rightarrow> string" where
  "correlationID kind ids = ''corr-'' @ id16 (kind @ US @ join US (sort ids))"

definition eventTime :: "pblib \<Rightarrow> TelemetryEvent \<Rightarrow> gotime res" where
  "eventTime L e = (case te_occurred_at e of None \<Rightarrow> Inl (Plain ''monitor: corrupt event fails closed'')
     | Some t \<Rightarrow> Inr (ts_AsTime L t))"

definition checkWindow :: "duration \<Rightarrow> goerr" where
  "checkWindow window = fail_if (window \<le> 0) (Plain (''monitor: window must be > 0, got '' @ duration_String window))"

text \<open>What a loop appends, round by round; the first error ends it.\<close>

fun gather :: "('a \<Rightarrow> 'b list res) \<Rightarrow> 'a list \<Rightarrow> 'b list res" where
  "gather f [] = Inr []"
| "gather f (x # xs) = (case f x of Inl e \<Rightarrow> Inl e | Inr ys \<Rightarrow> map_sum id (\<lambda>zs. ys @ zs) (gather f xs))"

text \<open>A nil event has no type, so every loop passes over it.\<close>

definition present :: "'a option list \<Rightarrow> 'a list" where
  "present ps = List.map_filter (\<lambda>p. p) ps"

subsubsection \<open>Failures before a privilege change\<close>

definition is_failure :: "string \<Rightarrow> TelemetryEvent \<Rightarrow> bool" where
  "is_failure who e \<longleftrightarrow> te_event_type e = ''auth.activity'' \<and> attr (te_attributes e) ''auth.outcome'' = ''failure'' \<and>
     attr (te_attributes e) ''auth.principal'' = who \<and> who \<noteq> []"

definition is_change :: "TelemetryEvent \<Rightarrow> bool" where
  "is_change e \<longleftrightarrow> te_event_type e = ''identity.activity'' \<and>
     (let a = attr (te_attributes e) ''identity.action'' in a = ''role_change'' \<or> a = ''permission_change'')"

definition failure_ids :: "pblib \<Rightarrow> duration \<Rightarrow> gotime \<Rightarrow> TelemetryEvent list \<Rightarrow> string list res" where
  "failure_ids L window ct fs = gather (\<lambda>f. case eventTime L f of Inl x \<Rightarrow> Inl x | Inr ft \<Rightarrow>
     (let d = time_Sub ct ft in if d < 0 \<or> window < d then Inr [] else Inr [te_id f])) fs"

definition change_correlation :: "pblib \<Rightarrow> duration \<Rightarrow> TelemetryEvent list \<Rightarrow> TelemetryEvent \<Rightarrow> mon_Correlation list res" where
  "change_correlation L window es c =
     (let who = attr (te_attributes c) ''identity.principal'' in
      if who = [] then Inr []
      else
       (case eventTime L c of Inl x \<Rightarrow> Inl x | Inr ct \<Rightarrow>
       (case failure_ids L window ct (filter (is_failure who) es) of Inl x \<Rightarrow> Inl x | Inr fids \<Rightarrow>
         (let ids = te_id c # fids in
          if length ids < 2 then Inr []
          else Inr [\<lparr> mc_ID = correlationID CorrelationAuthToIdentity ids, mc_Type = CorrelationAuthToIdentity,
                 mc_EventIDs = sort ids, mc_Principal = who, mc_AssetID = [], mc_ObservedAt = ct,
                 mc_Status = StatusCorrelated \<rparr>]))))"

definition CorrelateAuthToIdentity :: "pblib \<Rightarrow> TelemetryEvent option list \<Rightarrow> duration \<Rightarrow> mon_Correlation list res" where
  "CorrelateAuthToIdentity L ps window =
     (case checkWindow window of Some e \<Rightarrow> Inl e | None \<Rightarrow>
       (let es = present ps in gather (change_correlation L window es) (sort_key te_id (filter is_change es))))"

subsubsection \<open>Clusters\<close>

text \<open>\<open>clusterByTime\<close>, with its loop variables \<open>cur\<close> and \<open>prev\<close>.\<close>

fun cluster_from :: "pblib \<Rightarrow> duration \<Rightarrow> TelemetryEvent list \<Rightarrow> gotime \<Rightarrow> TelemetryEvent list \<Rightarrow> TelemetryEvent list list res" where
  "cluster_from L window cur prev [] = Inr (if cur = [] then [] else [cur])"
| "cluster_from L window cur prev (e # es) =
     (case eventTime L e of Inl x \<Rightarrow> Inl x | Inr at \<Rightarrow>
        if cur = [] \<or> time_Sub at prev \<le> window then cluster_from L window (cur @ [e]) at es
        else map_sum id (\<lambda>cs. cur # cs) (cluster_from L window [e] at es))"

definition clusterByTime :: "pblib \<Rightarrow> TelemetryEvent list \<Rightarrow> duration \<Rightarrow> TelemetryEvent list list res" where
  "clusterByTime L es window = cluster_from L window [] zero_time es"

definition byTimeAsc :: "pblib \<Rightarrow> TelemetryEvent list \<Rightarrow> TelemetryEvent list" where
  "byTimeAsc L es = sort_key (event_order L) es"

definition linkageKey :: "TelemetryEvent \<Rightarrow> string" where
  "linkageKey e = (if te_asset_id e \<noteq> [] then ''asset:'' @ te_asset_id e
     else if correlation_attr e \<noteq> [] then ''corr:'' @ correlation_attr e else [])"

definition latest :: "pblib \<Rightarrow> TelemetryEvent list \<Rightarrow> gotime" where
  "latest L cl = foldl (\<lambda>l e. if l < occurred L e then occurred L e else l) zero_time cl"

text \<open>A cluster counts when both types of event are in it.\<close>

definition cluster_correlation ::
  "pblib \<Rightarrow> string \<Rightarrow> string \<Rightarrow> string \<Rightarrow> TelemetryEvent list \<Rightarrow> mon_Correlation list" where
  "cluster_correlation L kind first asset cl =
     (if list_ex (\<lambda>e. te_event_type e = first) cl \<and> list_ex (\<lambda>e. te_event_type e \<noteq> first) cl
      then [\<lparr> mc_ID = correlationID kind (map te_id cl), mc_Type = kind, mc_EventIDs = sort (map te_id cl),
              mc_Principal = [], mc_AssetID = asset, mc_ObservedAt = latest L cl, mc_Status = StatusCorrelated \<rparr>]
      else [])"

text \<open>
  The two clustering correlations: the events of interest grouped by a key, the empty key left
  out, the groups in the order of their keys.
\<close>

definition group_correlations ::
  "pblib \<Rightarrow> string \<Rightarrow> string \<Rightarrow> (string \<Rightarrow> TelemetryEvent list \<Rightarrow> string) \<Rightarrow> (TelemetryEvent \<Rightarrow> string)
    \<Rightarrow> TelemetryEvent list \<Rightarrow> duration \<Rightarrow> string \<Rightarrow> mon_Correlation list res" where
  "group_correlations L kind first asset key es window k =
     (case clusterByTime L (byTimeAsc L (filter (\<lambda>e. key e = k) es)) window of Inl x \<Rightarrow> Inl x
      | Inr cls \<Rightarrow> Inr (concat (map (\<lambda>cl. cluster_correlation L kind first (asset k cl) cl) cls)))"

definition grouped_correlations ::
  "pblib \<Rightarrow> string \<Rightarrow> string \<Rightarrow> (string \<Rightarrow> TelemetryEvent list \<Rightarrow> string) \<Rightarrow> (TelemetryEvent \<Rightarrow> string)
    \<Rightarrow> TelemetryEvent list \<Rightarrow> duration \<Rightarrow> mon_Correlation list res" where
  "grouped_correlations L kind first asset key es window =
     (case checkWindow window of Some e \<Rightarrow> Inl e | None \<Rightarrow>
        gather (group_correlations L kind first asset key es window)
          (sortedKeys (filter (\<lambda>k. k \<noteq> []) (map key es))))"

definition CorrelateNetworkToApp :: "pblib \<Rightarrow> TelemetryEvent option list \<Rightarrow> duration \<Rightarrow> mon_Correlation list res" where
  "CorrelateNetworkToApp L ps window =
     grouped_correlations L CorrelationNetworkToApp ''net.connection'' (\<lambda>k cl. te_asset_id (hd cl)) linkageKey
       (filter (\<lambda>e. te_event_type e = ''net.connection'' \<or> te_event_type e = ''http.request'') (present ps)) window"

definition host_of :: "TelemetryEvent \<Rightarrow> string" where
  "host_of e = (if te_event_type e = ''endpoint.activity'' then attr (te_attributes e) ''endpoint.host''
     else attr (te_attributes e) ''server.hostname'')"

definition CorrelateEndpointToServer :: "pblib \<Rightarrow> TelemetryEvent option list \<Rightarrow> duration \<Rightarrow> mon_Correlation list res" where
  "CorrelateEndpointToServer L ps window =
     grouped_correlations L CorrelationEndpointToServer ''endpoint.activity'' (\<lambda>k cl. k) host_of
       (filter (\<lambda>e. te_event_type e = ''endpoint.activity'' \<or> te_event_type e = ''server.activity'') (present ps)) window"

subsection \<open>What a query returns\<close>

lemma set_present: "set (present ps) = {e. Some e \<in> set ps}"
  by (induction ps) (auto simp: present_def List.map_filter_simps split: option.splits)

lemma mset_present: "mset ps = mset qs \<Longrightarrow> mset (present ps) = mset (present qs)"
  by (simp add: present_def List.map_filter_def mset_map mset_filter)

lemma query_rows_Inr:
  "query_rows L q ps = Inr es \<longleftrightarrow> (\<forall>p \<in> set ps. \<not> is_corrupt p) \<and> es = filter (query_keeps L q) (present ps)"
proof (induction ps arbitrary: es)
  case Nil
  then show ?case by (auto simp: present_def List.map_filter_simps)
next
  case (Cons p ps)
  show ?case
  proof (cases p)
    case None
    then show ?thesis by (simp add: is_corrupt_def)
  next
    case (Some e)
    have "present (p # ps) = e # present ps" by (simp add: present_def List.map_filter_simps Some)
    then show ?thesis using Cons by (cases "query_rows L q ps") (auto simp: Some)
  qed
qed

lemma mset_query_order [simp]: "mset (query_order L q es) = mset es"
  by (simp add: query_order_def Let_def)

lemma set_query_order [simp]: "set (query_order L q es) = set es"
  by (simp add: query_order_def Let_def)

lemma query_order_same:
  assumes "mset es = mset es'" and "inj_on (event_order L) (set es)"
  shows "query_order L q es = query_order L q es'"
proof -
  have "sort_key (event_order L) es = sort_key (event_order L) es'"
    using assms by (intro sort_key_inj_key_eq) simp_all
  then show ?thesis by (simp add: query_order_def)
qed

definition ahead :: "pblib \<Rightarrow> Query \<Rightarrow> TelemetryEvent \<Rightarrow> TelemetryEvent \<Rightarrow> bool" where
  "ahead L q x y \<longleftrightarrow> (if qy_OrderDesc q then event_order L y \<le> event_order L x else event_order L x \<le> event_order L y)"

lemma query_order_sorted: "sorted_wrt (ahead L q) (query_order L q es)"
proof -
  have up: "sorted_wrt (\<lambda>x y. event_order L x \<le> event_order L y) (sort_key (event_order L) es)"
    using sorted_sort_key [of "event_order L" es] by (simp add: sorted_map)
  then show ?thesis
    by (auto simp: query_order_def ahead_def [abs_def] Let_def sorted_wrt_rev)
qed

lemma query_Execute_Inr:
  "query_Execute L q ps = Inr out \<longleftrightarrow>
     0 \<le> query_limit (qy_Limit q) \<and> query_limit (qy_Limit q) \<le> MaxLimit \<and>
     \<not> (\<not> IsZero (qy_From q) \<and> \<not> IsZero (qy_To q) \<and> qy_To q < qy_From q) \<and> (\<forall>p \<in> set ps. \<not> is_corrupt p) \<and>
     out = take (nat (query_limit (qy_Limit q))) (query_order L q (filter (query_keeps L q) (present ps)))"
proof (cases "query_rows L q ps")
  case (Inl x)
  then have "\<not> (\<forall>p \<in> set ps. \<not> is_corrupt p)" using query_rows_Inr [of L q ps "filter (query_keeps L q) (present ps)"] by auto
  then show ?thesis by (auto simp: query_Execute_def Let_def Inl)
next
  case (Inr es)
  then have "(\<forall>p \<in> set ps. \<not> is_corrupt p) \<and> es = filter (query_keeps L q) (present ps)" using query_rows_Inr [of L q ps es] by simp
  then show ?thesis by (auto simp: query_Execute_def Let_def Inr not_less)
qed


definition ex_seen :: "string \<Rightarrow> string \<Rightarrow> int \<Rightarrow> TelemetryEvent" where
  "ex_seen i kind t = \<lparr>te_id = i, te_occurred_at = Some (Timestamp t 0), te_source = ''s'', te_asset_id = ''h1'',
     te_identity_id = [], te_event_type = kind, te_severity = SEVERITY_LOW, te_attributes = fmempty, te_raw = []\<rparr>"

definition any_event :: Query where
  "any_event = \<lparr>qy_From = zero_time, qy_To = zero_time, qy_Source = [], qy_EventType = [], qy_Severity = SEVERITY_UNSPECIFIED,
     qy_HasSeverity = False, qy_AssetID = [], qy_CorrelationID = [], qy_DetectedIDs = fmempty, qy_Detected = None,
     qy_Limit = 0, qy_OrderDesc = False\<rparr>"

lemma any_event_keeps [simp]: "query_keeps L any_event e" "query_limit (qy_Limit any_event) = 100" "IsZero (qy_From any_event)"
  by (simp_all add: query_keeps_def any_event_def IsZero_def query_limit_def DefaultLimit_def)


subsection \<open>What is correlated\<close>

lemma eventTime_Inr: "eventTime L e = Inr t \<Longrightarrow> t = occurred L e"
  by (auto simp: eventTime_def occurred_def split: option.splits)

lemma gather_mem:
  "gather f xs = Inr ys \<Longrightarrow> x \<in> set xs \<Longrightarrow> \<exists>zs. f x = Inr zs \<and> set zs \<subseteq> set ys"
proof (induction xs arbitrary: ys)
  case (Cons a xs)
  obtain zs us where "f a = Inr zs" "gather f xs = Inr us" "ys = zs @ us"
    using Cons.prems(1) by (cases "f a"; cases "gather f xs") auto
  then show ?case using Cons.IH [of us] Cons.prems(2) by fastforce
qed simp

lemma gather_from:
  "gather f xs = Inr ys \<Longrightarrow> y \<in> set ys \<Longrightarrow> \<exists>x \<in> set xs. \<exists>zs. f x = Inr zs \<and> y \<in> set zs"
proof (induction xs arbitrary: ys)
  case (Cons a xs)
  obtain zs us where "f a = Inr zs" "gather f xs = Inr us" "ys = zs @ us"
    using Cons.prems(1) by (cases "f a"; cases "gather f xs") auto
  then show ?case using Cons.IH [of us] Cons.prems(2) by fastforce
qed simp

definition close :: "pblib \<Rightarrow> duration \<Rightarrow> TelemetryEvent \<Rightarrow> TelemetryEvent \<Rightarrow> bool" where
  "close L window x y \<longleftrightarrow> time_Sub (occurred L y) (occurred L x) \<le> window"

lemma cluster_step:
  assumes "cluster_from L window cur prev (e # es) = Inr cs"
  obtains "cur = [] \<or> time_Sub (occurred L e) prev \<le> window" "cluster_from L window (cur @ [e]) (occurred L e) es = Inr cs"
  | ds where "cur \<noteq> []" "\<not> time_Sub (occurred L e) prev \<le> window" "cluster_from L window [e] (occurred L e) es = Inr ds" "cs = cur # ds"
  using assms
  by (cases "eventTime L e"; cases "cluster_from L window [e] (occurred L e) es")
    (auto dest: eventTime_Inr split: if_splits)

lemma cluster_concat:
  "cluster_from L window cur prev es = Inr cs \<Longrightarrow> concat cs = cur @ es \<and> [] \<notin> set cs"
proof (induction es arbitrary: cur prev cs)
  case (Cons e es)
  from Cons.prems show ?case
  proof (cases rule: cluster_step)
    case 1
    then show ?thesis using Cons.IH by fastforce
  next
    case (2 ds)
    then show ?thesis using Cons.IH [of "[e]" "occurred L e" ds] by auto
  qed
qed (auto split: if_splits)

lemma cluster_close:
  assumes "cluster_from L window cur prev es = Inr cs" and "successively (close L window) cur"
    and "cur \<noteq> [] \<longrightarrow> prev = occurred L (last cur)"
  shows "\<forall>cl \<in> set cs. successively (close L window) cl"
  using assms
proof (induction es arbitrary: cur prev cs)
  case (Cons e es)
  from Cons.prems(1) show ?case
  proof (cases rule: cluster_step)
    case 1
    have "successively (close L window) (cur @ [e])"
      using Cons.prems(2,3) 1(1) by (auto simp: successively_append_iff close_def)
    then show ?thesis using Cons.IH [OF 1(2)] by simp
  next
    case (2 ds)
    then show ?thesis using Cons.IH [OF 2(3)] Cons.prems(2) by simp
  qed
qed (auto split: if_splits)

text \<open>Two events no further apart than the window end up in one cluster.\<close>

lemma cluster_joins:
  assumes "cluster_from L window cur prev es = Inr cs" and "sorted (map (occurred L) (cur @ es))"
    and "cur \<noteq> [] \<longrightarrow> prev = occurred L (last cur)"
    and "x \<in> set (cur @ es)" and "y \<in> set (cur @ es)" and "occurred L x \<le> occurred L y" and "occurred L y - occurred L x \<le> window"
    and "0 < window"
  shows "\<exists>cl \<in> set cs. x \<in> set cl \<and> y \<in> set cl"
  using assms
proof (induction es arbitrary: cur prev cs)
  case Nil
  then show ?case by (auto split: if_splits)
next
  case (Cons e es)
  have e: "\<forall>z \<in> set cur. occurred L z \<le> occurred L e" "\<forall>z \<in> set es. occurred L e \<le> occurred L z"
    using Cons.prems(2) by (auto simp: sorted_append)
  from Cons.prems(1) show ?case
  proof (cases rule: cluster_step)
    case 1
    have app: "(cur @ [e]) @ es = cur @ e # es" by simp
    show ?thesis
      by (rule Cons.IH [OF 1(2)]) (simp_all only: app Cons.prems last_snoc simp_thms)
  next
    case (2 ds)
    have prev: "prev = occurred L (last cur)" "last cur \<in> set cur" using Cons.prems(3) 2(1) by simp_all
    have le: "\<forall>z \<in> set cur. occurred L z \<le> prev"
      using Cons.prems(2) 2(1) by (cases cur rule: rev_cases) (auto simp: prev sorted_append)
    have far: "window < occurred L e - prev" using 2(2) Cons.prems(8) by (auto simp: time_Sub_def)
    show ?thesis
    proof (cases "x \<in> set cur \<and> y \<in> set cur")
      case True
      then show ?thesis using 2(4) by auto
    next
      case False
      have "\<not> (x \<in> set cur \<and> y \<in> set (e # es))" using le far e(2) Cons.prems(7) by fastforce
      moreover have "\<not> (x \<in> set (e # es) \<and> y \<in> set cur)"
        using le far e(2) Cons.prems(6,8) by fastforce
      ultimately have "x \<in> set (e # es)" "y \<in> set (e # es)" using Cons.prems(4,5) False by auto
      moreover have "sorted (map (occurred L) ([e] @ es))" using Cons.prems(2) by (simp add: sorted_append)
      ultimately have "\<exists>cl \<in> set ds. x \<in> set cl \<and> y \<in> set cl"
        by (intro Cons.IH [OF 2(3) _ _ _ _ Cons.prems(6-8)]) simp_all
      then show ?thesis using 2(4) by auto
    qed
  qed
qed

text \<open>A correlation is backed by a run of events of one key, of both types, each close to the one before.\<close>

definition backed_by ::
  "pblib \<Rightarrow> duration \<Rightarrow> string \<Rightarrow> (TelemetryEvent \<Rightarrow> string) \<Rightarrow> TelemetryEvent list \<Rightarrow> mon_Correlation \<Rightarrow> bool" where
  "backed_by L window first key es c \<longleftrightarrow> (\<exists>k cl. k \<noteq> [] \<and> (\<forall>e \<in> set cl. e \<in> set es \<and> key e = k) \<and>
     mc_EventIDs c = sort (map te_id cl) \<and> mc_Status c = StatusCorrelated \<and>
     sorted (map (occurred L) cl) \<and> successively (close L window) cl \<and>
     (\<exists>e \<in> set cl. te_event_type e = first) \<and> (\<exists>e \<in> set cl. te_event_type e \<noteq> first))"

lemma backed_more: "backed_by L window first key es c \<Longrightarrow> set es \<subseteq> set fs \<Longrightarrow> backed_by L window first key fs c"
  unfolding backed_by_def by blast

lemma sorted_by_time: "sorted (map (occurred L) (byTimeAsc L es))"
proof -
  have "sorted (map (event_order L) (byTimeAsc L es))" by (simp add: byTimeAsc_def)
  then show ?thesis by (simp add: sorted_map event_order_def less_eq_prod_def) (erule sorted_wrt_mono_rel [rotated], auto)
qed

lemma set_byTimeAsc [simp]: "set (byTimeAsc L es) = set es"
  by (simp add: byTimeAsc_def)

lemma sorted_part: "sorted (map f (concat cs)) \<Longrightarrow> cl \<in> set cs \<Longrightarrow> sorted (map f cl)"
  by (induction cs) (auto simp: sorted_append)

lemma cluster_correlation_mem:
  "c \<in> set (cluster_correlation L kind first asset cl) \<Longrightarrow>
     mc_EventIDs c = sort (map te_id cl) \<and> mc_Status c = StatusCorrelated \<and>
     (\<exists>e \<in> set cl. te_event_type e = first) \<and> (\<exists>e \<in> set cl. te_event_type e \<noteq> first)"
  by (auto simp: cluster_correlation_def list_ex_iff split: if_splits)

lemma grouped_gather:
  "grouped_correlations L kind first asset key es window = Inr out \<Longrightarrow> 0 < window \<and>
     gather (group_correlations L kind first asset key es window) (sortedKeys (filter (\<lambda>k. k \<noteq> []) (map key es))) = Inr out"
  by (auto simp: grouped_correlations_def checkWindow_def fail_if_def split: if_splits)

lemma group_clusters:
  assumes "group_correlations L kind first asset key es window k = Inr zs"
  obtains cls where "clusterByTime L (byTimeAsc L (filter (\<lambda>e. key e = k) es)) window = Inr cls"
    and "set zs = (\<Union>cl \<in> set cls. set (cluster_correlation L kind first (asset k cl) cl))"
  using assms by (auto simp: group_correlations_def split: sum.splits)

lemma grouped_backed:
  assumes "grouped_correlations L kind first asset key es window = Inr out" and "c \<in> set out"
  shows "backed_by L window first key es c"
proof -
  obtain k zs where k: "k \<in> set (sortedKeys (filter (\<lambda>k. k \<noteq> []) (map key es)))"
    "group_correlations L kind first asset key es window k = Inr zs" "c \<in> set zs"
    using gather_from [OF conjunct2 [OF grouped_gather [OF assms(1)]] assms(2)] by blast
  let ?g = "byTimeAsc L (filter (\<lambda>e. key e = k) es)"
  obtain cls where cls: "clusterByTime L ?g window = Inr cls"
    "set zs = (\<Union>cl \<in> set cls. set (cluster_correlation L kind first (asset k cl) cl))"
    using group_clusters [OF k(2)] by blast
  obtain cl where cl: "cl \<in> set cls" and c: "c \<in> set (cluster_correlation L kind first (asset k cl) cl)"
    using k(3) unfolding cls(2) by blast
  note from_start = cls(1) [unfolded clusterByTime_def]
  have all: "concat cls = ?g" using cluster_concat [OF from_start] by simp
  have "sorted (map (occurred L) cl)"
    by (rule sorted_part [OF _ cl]) (simp only: all sorted_by_time)
  moreover have "successively (close L window) cl" using cluster_close [OF from_start] cl by simp
  moreover have "set cl \<subseteq> set (concat cls)" using cl by auto
  then have "\<forall>e \<in> set cl. e \<in> set es \<and> key e = k" unfolding all by auto
  moreover have "k \<noteq> []" using k(1) by simp
  ultimately show ?thesis using cluster_correlation_mem [OF c] unfolding backed_by_def by blast
qed

lemma grouped_complete:
  assumes "grouped_correlations L kind first asset key es window = Inr out"
    and "x \<in> set es" and "y \<in> set es" and "key x = key y" and "key x \<noteq> []"
    and "te_event_type x = first" and "te_event_type y \<noteq> first" and "\<bar>occurred L x - occurred L y\<bar> \<le> window"
  shows "\<exists>c \<in> set out. te_id x \<in> set (mc_EventIDs c) \<and> te_id y \<in> set (mc_EventIDs c)"
proof -
  let ?g = "byTimeAsc L (filter (\<lambda>e. key e = key x) es)"
  have "key x \<in> set (sortedKeys (filter (\<lambda>k. k \<noteq> []) (map key es)))" using assms(2,5) by simp
  then obtain zs where zs: "group_correlations L kind first asset key es window (key x) = Inr zs" "set zs \<subseteq> set out"
    using gather_mem [OF conjunct2 [OF grouped_gather [OF assms(1)]]] by blast
  obtain cls where cls: "clusterByTime L ?g window = Inr cls"
    "set zs = (\<Union>cl \<in> set cls. set (cluster_correlation L kind first (asset (key x) cl) cl))"
    using group_clusters [OF zs(1)] by blast
  have w: "0 < window" using grouped_gather [OF assms(1)] by blast
  have mem: "x \<in> set ([] @ ?g)" "y \<in> set ([] @ ?g)" using assms(2-4) by simp_all
  have sorted: "sorted (map (occurred L) ([] @ ?g))" by (simp add: sorted_by_time)
  note joins = cluster_joins [OF cls(1) [unfolded clusterByTime_def] sorted _ _ _ _ _ w]
  have "\<exists>cl \<in> set cls. x \<in> set cl \<and> y \<in> set cl"
  proof (cases "occurred L x \<le> occurred L y")
    case True
    then show ?thesis using assms(8) by (intro joins [OF _ mem]) simp_all
  next
    case False
    then have "\<exists>cl \<in> set cls. y \<in> set cl \<and> x \<in> set cl" using assms(8) by (intro joins [OF _ mem(2,1)]) simp_all
    then show ?thesis by blast
  qed
  then obtain cl where cl: "cl \<in> set cls" "x \<in> set cl" "y \<in> set cl" by blast
  let ?c = "cluster_correlation L kind first (asset (key x) cl) cl"
  have "?c \<noteq> []" using assms(6,7) cl(2,3) by (auto simp: cluster_correlation_def list_ex_iff)
  then obtain c where c: "c \<in> set ?c" by (meson list.set_sel(1))
  then have "c \<in> set out" using cls(2) cl(1) zs(2) by blast
  moreover have "set (mc_EventIDs c) = te_id ` set cl" using cluster_correlation_mem [OF c] by simp
  ultimately show ?thesis using cl(2,3) by blast
qed

text \<open>
  The network-to-application correlation is exact. Every correlation it reports stands for
  stored events of one asset or correlation id, in time order, each within the window of the one
  before, a connection and a request among them; and any connection and request that share
  their linkage and lie within the window of each other are reported together. Nearness in time
  alone never correlates.
\<close>

theorem network_to_app_exact:
  assumes "CorrelateNetworkToApp L ps window = Inr out"
  shows "(\<forall>c \<in> set out. backed_by L window ''net.connection'' linkageKey (present ps) c) \<and>
    (\<forall>n h. Some n \<in> set ps \<longrightarrow> Some h \<in> set ps \<longrightarrow> te_event_type n = ''net.connection'' \<longrightarrow> te_event_type h = ''http.request'' \<longrightarrow>
       linkageKey n = linkageKey h \<longrightarrow> linkageKey n \<noteq> [] \<longrightarrow> \<bar>occurred L n - occurred L h\<bar> \<le> window \<longrightarrow>
       (\<exists>c \<in> set out. te_id n \<in> set (mc_EventIDs c) \<and> te_id h \<in> set (mc_EventIDs c)))"
proof -
  note out = assms [unfolded CorrelateNetworkToApp_def]
  let ?es = "filter (\<lambda>e. te_event_type e = ''net.connection'' \<or> te_event_type e = ''http.request'') (present ps)"
  have "backed_by L window ''net.connection'' linkageKey (present ps) c" if "c \<in> set out" for c
    by (rule backed_more [OF grouped_backed [OF out that]]) auto
  moreover have "\<exists>c \<in> set out. te_id n \<in> set (mc_EventIDs c) \<and> te_id h \<in> set (mc_EventIDs c)"
    if h: "Some n \<in> set ps" "Some h \<in> set ps" "te_event_type n = ''net.connection''" "te_event_type h = ''http.request''"
      "linkageKey n = linkageKey h" "linkageKey n \<noteq> []" "\<bar>occurred L n - occurred L h\<bar> \<le> window" for n h
  proof -
    have "n \<in> set ?es" "h \<in> set ?es" using h(1-4) by (simp_all add: set_present)
    moreover have "te_event_type h \<noteq> ''net.connection''" using h(4) by simp
    ultimately show ?thesis by (intro grouped_complete [OF out _ _ h(5,6,3) _ h(7)])
  qed
  ultimately show ?thesis by blast
qed

theorem network_to_app_exact_witness:
  "\<exists>out. CorrelateNetworkToApp example_pb [Some (ex_seen ''e1'' ''net.connection'' 5), None, Some (ex_seen ''e2'' ''http.request'' 7)]
      10000000000 = Inr out \<and> (\<exists>c \<in> set out. ''e1'' \<in> set (mc_EventIDs c) \<and> ''e2'' \<in> set (mc_EventIDs c))"
proof -
  let ?n = "ex_seen ''e1'' ''net.connection'' 5" and ?h = "ex_seen ''e2'' ''http.request'' 7"
  have at: "eventTime example_pb (ex_seen i k t) = Inr (t * 1000000000)" "occurred example_pb (ex_seen i k t) = t * 1000000000" for i k t
    by (simp_all add: eventTime_def occurred_def ex_seen_def example_pb_def)
  have key: "linkageKey (ex_seen i k t) = ''asset:h1''" for i k t by (simp add: linkageKey_def ex_seen_def)
  have kind: "te_event_type (ex_seen i k t) = k" for i k t by (simp add: ex_seen_def)
  have es: "present [Some ?n, None, Some ?h] = [?n, ?h]" by (simp add: present_def List.map_filter_simps)
  have order: "byTimeAsc example_pb [?n, ?h] = [?n, ?h]" by (simp add: byTimeAsc_def event_order_def at)
  have ks: "sortedKeys [''asset:h1'', ''asset:h1''] = [''asset:h1'']" by (simp add: sortedKeys_def)
  have out: "\<exists>out. CorrelateNetworkToApp example_pb [Some ?n, None, Some ?h] 10000000000 = Inr out"
    unfolding CorrelateNetworkToApp_def es
    by (simp add: grouped_correlations_def group_correlations_def checkWindow_def fail_if_def kind key ks order clusterByTime_def
        at time_Sub_def)
  then obtain out where o: "CorrelateNetworkToApp example_pb [Some ?n, None, Some ?h] 10000000000 = Inr out" by blast
  have "\<exists>c \<in> set out. te_id ?n \<in> set (mc_EventIDs c) \<and> te_id ?h \<in> set (mc_EventIDs c)"
    using conjunct2 [OF network_to_app_exact [OF o], THEN spec, of ?n, THEN spec, of ?h] by (simp add: kind key at)
  then show ?thesis using o by (auto simp: ex_seen_def)
qed

text \<open>The endpoint-to-server correlation is exact in the same way, for events of one host.\<close>

theorem endpoint_to_server_exact:
  assumes "CorrelateEndpointToServer L ps window = Inr out"
  shows "(\<forall>c \<in> set out. backed_by L window ''endpoint.activity'' host_of (present ps) c) \<and>
    (\<forall>e s. Some e \<in> set ps \<longrightarrow> Some s \<in> set ps \<longrightarrow> te_event_type e = ''endpoint.activity'' \<longrightarrow> te_event_type s = ''server.activity'' \<longrightarrow>
       host_of e = host_of s \<longrightarrow> host_of e \<noteq> [] \<longrightarrow> \<bar>occurred L e - occurred L s\<bar> \<le> window \<longrightarrow>
       (\<exists>c \<in> set out. te_id e \<in> set (mc_EventIDs c) \<and> te_id s \<in> set (mc_EventIDs c)))"
proof -
  note out = assms [unfolded CorrelateEndpointToServer_def]
  let ?es = "filter (\<lambda>e. te_event_type e = ''endpoint.activity'' \<or> te_event_type e = ''server.activity'') (present ps)"
  have "backed_by L window ''endpoint.activity'' host_of (present ps) c" if "c \<in> set out" for c
    by (rule backed_more [OF grouped_backed [OF out that]]) auto
  moreover have "\<exists>c \<in> set out. te_id e \<in> set (mc_EventIDs c) \<and> te_id s \<in> set (mc_EventIDs c)"
    if h: "Some e \<in> set ps" "Some s \<in> set ps" "te_event_type e = ''endpoint.activity''" "te_event_type s = ''server.activity''"
      "host_of e = host_of s" "host_of e \<noteq> []" "\<bar>occurred L e - occurred L s\<bar> \<le> window" for e s
  proof -
    have "e \<in> set ?es" "s \<in> set ?es" using h(1-4) by (simp_all add: set_present)
    moreover have "te_event_type s \<noteq> ''endpoint.activity''" using h(4) by simp
    ultimately show ?thesis by (intro grouped_complete [OF out _ _ h(5,6,3) _ h(7)])
  qed
  ultimately show ?thesis by blast
qed

end
