(* ===== verification/Investigate.thy ===== *)
theory Investigate
  imports Monitor Sha256
begin

text \<open>
  The investigation layer over persisted objects (\<open>internal/investigate\<close>): hunting queries
  (\<open>hunt.go\<close>), the timeline (\<open>timeline.go\<close>) and forensic artifacts (\<open>forensics.go\<close>).
\<close>

subsection \<open>Hunting (\<open>hunt.go\<close>)\<close>

definition principalKeys :: "string list" where
  "principalKeys = [''auth.principal'', ''identity.principal'', ''data.principal'', ''endpoint.user'', ''cloud.principal'',
     ''container.user'', ''server.user'']"

text \<open>The first attribute of a list that is not empty.\<close>

fun first_attr :: "attrs \<Rightarrow> string list \<Rightarrow> string" where
  "first_attr m [] = []"
| "first_attr m (k # ks) = (if attr m k \<noteq> [] then attr m k else first_attr m ks)"

definition PrincipalOf :: "attrs \<Rightarrow> string" where
  "PrincipalOf m = first_attr m principalKeys"

record HuntQuery =
  hq_Query :: Query
  hq_Principal :: string
  hq_Keyword :: string

definition hasPrincipal :: "TelemetryEvent \<Rightarrow> string \<Rightarrow> bool" where
  "hasPrincipal e who \<longleftrightarrow> PrincipalOf (te_attributes e) = who \<and> who \<noteq> []"

definition matchesKeyword :: "TelemetryEvent \<Rightarrow> string \<Rightarrow> bool" where
  "matchesKeyword e kw \<longleftrightarrow>
     contains (ToLower (te_id e)) kw \<or> contains (ToLower (te_source e)) kw \<or> contains (ToLower (te_asset_id e)) kw \<or>
     contains (ToLower (te_event_type e)) kw \<or>
     list_ex (\<lambda>k. contains (ToLower (attr (te_attributes e) k)) kw) (sortedIDs (te_attributes e))"

definition hunt_keeps :: "HuntQuery \<Rightarrow> TelemetryEvent \<Rightarrow> bool" where
  "hunt_keeps q e \<longleftrightarrow> (let kw = ToLower (TrimSpace (hq_Keyword q)) in
     \<not> (hq_Principal q \<noteq> [] \<and> \<not> hasPrincipal e (hq_Principal q)) \<and> \<not> (kw \<noteq> [] \<and> \<not> matchesKeyword e kw))"

definition hunt_Execute :: "pblib \<Rightarrow> HuntQuery \<Rightarrow> TelemetryEvent option list \<Rightarrow> TelemetryEvent list res" where
  "hunt_Execute L q ps =
     (let limit = query_limit (qy_Limit (hq_Query q)) in
      if limit < 0 \<or> MaxLimit < limit
        then Inl (Plain (''investigate: limit '' @ itoa (qy_Limit (hq_Query q)) @ '' out of [0,'' @ itoa MaxLimit @ '']''))
      else map_sum id (\<lambda>rows. take (nat limit) (filter (hunt_keeps q) rows))
        (query_Execute L ((hq_Query q)\<lparr>qy_Limit := 0\<rparr>) ps))"

definition TimeRange :: "gotime \<Rightarrow> gotime \<Rightarrow> goerr" where
  "TimeRange since till = fail_if (\<not> IsZero since \<and> \<not> IsZero till \<and> till < since) (Plain ''investigate: time range inverted'')"

subsection \<open>The timeline (\<open>timeline.go\<close>)\<close>

record TimelineInput =
  ti_Events :: "TelemetryEvent option list"
  ti_Detections :: "Detection option list"
  ti_Alerts :: "Alert option list"
  ti_Incidents :: "Incident option list"
  ti_Evidence :: "Evidence option list"
  ti_Correlations :: "mon_Correlation list"

record TimelineEntry =
  tl_OccurredAt :: gotime
  tl_Kind :: string
  tl_ID :: string
  tl_Source :: string
  tl_AssetID :: string
  tl_Principal :: string
  tl_RuleID :: string
  tl_CorrelationID :: string
  tl_EvidenceID :: string
  tl_IncidentID :: string
  tl_Summary :: string

definition entry_of :: "gotime \<Rightarrow> string \<Rightarrow> string \<Rightarrow> string \<Rightarrow> TimelineEntry" where
  "entry_of at kind i summary = \<lparr>tl_OccurredAt = at, tl_Kind = kind, tl_ID = i, tl_Source = [], tl_AssetID = [],
     tl_Principal = [], tl_RuleID = [], tl_CorrelationID = [], tl_EvidenceID = [], tl_IncidentID = [], tl_Summary = summary\<rparr>"

text \<open>The conversion of an integer to a string in Go: the UTF-8 encoding of the code point.\<close>

definition rune_string :: "int \<Rightarrow> string" where
  "rune_string n =
     (let b = (\<lambda>k. char_of (nat k)) in
      if n < 0 \<or> 0x10FFFF < n \<or> (0xD800 \<le> n \<and> n \<le> 0xDFFF) then [CHR 0xEF, CHR 0xBF, CHR 0xBD]
      else if n < 0x80 then [b n]
      else if n < 0x800 then [b (0xC0 + n div 64), b (0x80 + n mod 64)]
      else if n < 0x10000 then [b (0xE0 + n div 4096), b (0x80 + n div 64 mod 64), b (0x80 + n mod 64)]
      else [b (0xF0 + n div 262144), b (0x80 + n div 4096 mod 64), b (0x80 + n div 64 mod 64), b (0x80 + n mod 64)])"

definition corrupt_row :: "string \<Rightarrow> TimelineEntry list res" where
  "corrupt_row what = Inl (Plain (''investigate: corrupt '' @ what @ '' fails closed''))"

text \<open>A row per object; a nil object or a nil time is an error.\<close>

definition stamped :: "pblib \<Rightarrow> ('a \<Rightarrow> timestamp option) \<Rightarrow> string \<Rightarrow> (gotime \<Rightarrow> 'a \<Rightarrow> TimelineEntry) \<Rightarrow> 'a option
    \<Rightarrow> TimelineEntry list res" where
  "stamped L time what row p =
     (case p of None \<Rightarrow> corrupt_row what
      | Some x \<Rightarrow> (case time x of None \<Rightarrow> corrupt_row what | Some t \<Rightarrow> Inr [row (ts_AsTime L t) x]))"

definition telemetry_row :: "pblib \<Rightarrow> TelemetryEvent option \<Rightarrow> TimelineEntry list res" where
  "telemetry_row L p = stamped L te_occurred_at (''telemetry '' @ idOf p) (\<lambda>at e.
     (entry_of at ''telemetry'' (te_id e) (te_event_type e))\<lparr>tl_Source := te_source e, tl_AssetID := te_asset_id e,
       tl_Principal := PrincipalOf (te_attributes e), tl_CorrelationID := correlation_attr e\<rparr>) p"

definition detection_row :: "pblib \<Rightarrow> Detection option \<Rightarrow> TimelineEntry list res" where
  "detection_row L = stamped L det_detected_at ''detection'' (\<lambda>at d.
     (entry_of at ''detection'' (det_id d) (det_title d))\<lparr>tl_RuleID := det_rule_id d\<rparr>)"

definition alert_row :: "pblib \<Rightarrow> Alert option \<Rightarrow> TimelineEntry list res" where
  "alert_row L = stamped L al_created_at ''alert'' (\<lambda>at a. entry_of at ''alert'' (al_id a) (al_title a))"

definition incident_row :: "pblib \<Rightarrow> Incident option \<Rightarrow> TimelineEntry list res" where
  "incident_row L = stamped L inc_created_at ''incident'' (\<lambda>at i. entry_of at ''incident'' (inc_id i) (inc_title i))"

definition evidence_row :: "pblib \<Rightarrow> Evidence option \<Rightarrow> TimelineEntry list res" where
  "evidence_row L = stamped L ev_collected_at ''evidence'' (\<lambda>at e.
     (entry_of at ''evidence'' (ev_id e) (rune_string (ev_type e)))\<lparr>tl_Source := ev_source e, tl_EvidenceID := ev_id e,
       tl_IncidentID := ev_incident_id e\<rparr>)"

definition correlation_row :: "mon_Correlation \<Rightarrow> TimelineEntry list res" where
  "correlation_row c =
     (if IsZero (mc_ObservedAt c) then corrupt_row (''correlation '' @ mc_ID c)
      else Inr [(entry_of (mc_ObservedAt c) ''correlation'' (mc_ID c) (mc_Type c))\<lparr>tl_Principal := mc_Principal c,
        tl_AssetID := mc_AssetID c, tl_CorrelationID := mc_ID c\<rparr>])"

definition timeline_rows :: "pblib \<Rightarrow> TimelineInput \<Rightarrow> TimelineEntry list res list" where
  "timeline_rows L i = map (telemetry_row L) (ti_Events i) @ map (detection_row L) (ti_Detections i) @
     map (alert_row L) (ti_Alerts i) @ map (incident_row L) (ti_Incidents i) @ map (evidence_row L) (ti_Evidence i) @
     map correlation_row (ti_Correlations i)"

definition timeline_order :: "TimelineEntry \<Rightarrow> gotime \<times> string \<times> string" where
  "timeline_order r = (tl_OccurredAt r, tl_Kind r, tl_ID r)"

definition BuildTimeline :: "pblib \<Rightarrow> TimelineInput \<Rightarrow> TimelineEntry list res" where
  "BuildTimeline L i = map_sum id (sort_key timeline_order) (gather (\<lambda>r. r) (timeline_rows L i))"

subsection \<open>Artifacts (\<open>forensics.go\<close>)\<close>

datatype ArtifactType = ArtifactProcess | ArtifactFileActivity | ArtifactService | ArtifactNetwork
  | ArtifactAuthentication | ArtifactIdentity | ArtifactContainer | ArtifactCloud | ArtifactUnknown

definition sensitiveKeys :: "string list" where
  "sensitiveKeys = [''password'', ''passwd'', ''token'', ''secret'', ''credential'', ''cookie'', ''private_key'', ''privatekey'',
     ''session'', ''api_key'', ''apikey'', ''mfa'', ''access_key'', ''auth.password'']"

record Artifact =
  ar_Type :: ArtifactType
  ar_EventID :: string
  ar_AssetID :: string
  ar_Source :: string
  ar_ObservedAt :: gotime
  ar_Metadata :: attrs
  ar_Digest :: string

definition Classify :: "string \<Rightarrow> string \<Rightarrow> ArtifactType" where
  "Classify eventType action =
     (if eventType = ''endpoint.activity'' then (if action = ''file_modify'' then ArtifactFileActivity else ArtifactProcess)
      else if eventType = ''server.activity'' then ArtifactService
      else if eventType \<in> {''net.connection'', ''http.request'', ''waf.request_blocked'', ''waf.request_allowed''} then ArtifactNetwork
      else if eventType = ''auth.activity'' then ArtifactAuthentication
      else if eventType = ''identity.activity'' then ArtifactIdentity
      else if eventType = ''container.activity'' then ArtifactContainer
      else if eventType = ''cloud.activity'' then ArtifactCloud
      else ArtifactUnknown)"

definition actionKeys :: "string list" where
  "actionKeys = [''endpoint.action'', ''server.service_action'', ''auth.outcome'', ''identity.action'', ''container.action'',
     ''cloud.action'', ''http.method'', ''net.verdict'']"

definition actionOf :: "TelemetryEvent \<Rightarrow> string" where
  "actionOf e = ToLower (first_attr (te_attributes e) actionKeys)"

definition artifact_drops :: "string \<Rightarrow> bool" where
  "artifact_drops k \<longleftrightarrow> list_ex (contains (ToLower k)) sensitiveKeys"

definition artifact_meta :: "attrs \<Rightarrow> attrs" where
  "artifact_meta m = fmfilter (\<lambda>k. \<not> artifact_drops k) m"

definition fingerprint :: "pblib \<Rightarrow> TelemetryEvent \<Rightarrow> attrs \<Rightarrow> string" where
  "fingerprint L e meta = sha256_hex (te_id e @ US @ te_event_type e @ US @ format_RFC3339Nano (occurred L e) @
     concat (map (\<lambda>k. US @ k @ ''='' @ attr meta k) (sortedIDs meta)))"

definition ArtifactFor :: "pblib \<Rightarrow> TelemetryEvent option \<Rightarrow> Artifact res" where
  "ArtifactFor L p =
     (if is_corrupt p then Inl (Plain (''investigate: corrupt event '' @ idOf p @ '' fails closed''))
      else (let e = the p; meta = artifact_meta (te_attributes e) in
        Inr \<lparr> ar_Type = Classify (te_event_type e) (actionOf e), ar_EventID = te_id e, ar_AssetID = te_asset_id e,
              ar_Source = te_source e, ar_ObservedAt = occurred L e, ar_Metadata = meta, ar_Digest = fingerprint L e meta \<rparr>))"

subsection \<open>What a hunt misses\<close>

text \<open>In a sorted list, as many elements as are smaller than an element come before it.\<close>

lemma sorted_rank:
  fixes f :: "'a \<Rightarrow> 'b::linorder"
  assumes "sorted (map f xs)" and "x \<in> set (take n xs)"
  shows "length (filter (\<lambda>y. f y < f x) xs) < n"
proof -
  obtain i where i: "i < length (take n xs)" "take n xs ! i = x" using assms(2) by (metis in_set_conv_nth)
  then have x: "i < n" "i < length xs" "xs ! i = x" by simp_all
  have "f x \<le> f y" if y: "y \<in> set (drop i xs)" for y
  proof -
    obtain j where "j < length (drop i xs)" "drop i xs ! j = y" using y by (metis in_set_conv_nth)
    then have "map f xs ! i \<le> map f xs ! (i + j)" by (intro sorted_nth_mono [OF assms(1)]) simp_all
    then show ?thesis using x \<open>j < _\<close> \<open>_ = y\<close> by simp
  qed
  then have "filter (\<lambda>y. f y < f x) (drop i xs) = []" by (auto simp: filter_empty_conv not_less)
  then have "length (filter (\<lambda>y. f y < f x) xs) = length (filter (\<lambda>y. f y < f x) (take i xs))"
    by (metis append_Nil2 append_take_drop_id filter_append)
  also have "\<dots> \<le> i" by (metis length_filter_le length_take min.bounded_iff order_trans nle_le)
  finally show ?thesis using x(1) by simp
qed


definition needle :: TelemetryEvent where
  "needle = (ex_seen ''x'' ''b'' 200)\<lparr>te_source := ''needle''\<rparr>"

definition haystack :: "TelemetryEvent option list" where
  "haystack = map (\<lambda>t. Some (ex_seen ''e'' ''b'' (int t))) [0..<100] @ [Some needle]"

definition find_needle :: HuntQuery where
  "find_needle = \<lparr>hq_Query = any_event\<lparr>qy_Limit := 1000\<rparr>, hq_Principal = [], hq_Keyword = ''Needle''\<rparr>"


subsection \<open>What the timeline shows\<close>

lemma gather_results:
  "gather (\<lambda>r. r) rs = Inr ys \<longleftrightarrow> (\<forall>r \<in> set rs. \<not> isl r) \<and> ys = concat (map projr rs)"
proof (induction rs arbitrary: ys)
  case (Cons r rs)
  show ?case
  proof (cases r)
    case (Inr zs)
    have "gather (\<lambda>r. r) rs = Inr us \<longleftrightarrow> (\<forall>r \<in> set rs. \<not> isl r) \<and> us = concat (map projr rs)" for us by (rule Cons.IH)
    then show ?thesis by (cases "gather (\<lambda>r. r) rs") (auto simp: Inr)
  qed simp
qed auto

definition same_input :: "TimelineInput \<Rightarrow> TimelineInput \<Rightarrow> bool" where
  "same_input i j \<longleftrightarrow> mset (ti_Events i) = mset (ti_Events j) \<and> mset (ti_Detections i) = mset (ti_Detections j) \<and>
     mset (ti_Alerts i) = mset (ti_Alerts j) \<and> mset (ti_Incidents i) = mset (ti_Incidents j) \<and>
     mset (ti_Evidence i) = mset (ti_Evidence j) \<and> mset (ti_Correlations i) = mset (ti_Correlations j)"

lemma mset_rows: "same_input i j \<Longrightarrow> mset (timeline_rows L i) = mset (timeline_rows L j)"
  by (simp add: same_input_def timeline_rows_def)

lemma mset_concat_rows:
  assumes "mset rs = mset qs"
  shows "mset (concat (map projr rs)) = mset (concat (map projr qs))"
proof -
  have "mset (concat (map projr zs)) = \<Sum>\<^sub># (image_mset (\<lambda>r. mset (projr r)) (mset zs))" for zs :: "('a + 'b list) list"
    by (induction zs) auto
  then show ?thesis using assms by simp
qed

lemma rows_single: "r \<in> set (timeline_rows L i) \<Longrightarrow> \<not> isl r \<Longrightarrow> length (projr r) = 1"
  by (auto simp: timeline_rows_def telemetry_row_def detection_row_def alert_row_def incident_row_def evidence_row_def
      correlation_row_def stamped_def corrupt_row_def split: option.splits if_splits)

text \<open>
  The timeline orders everything and drops nothing. If no object is corrupt it holds one row
  per object, in the order of instant, kind and id; and if rows are told apart by these three,
  the same rows come out whatever order the objects are given in.
\<close>

theorem timeline_exact:
  assumes "BuildTimeline L i = Inr out"
  shows "sorted (map timeline_order out) \<and>
    length out = length (ti_Events i) + length (ti_Detections i) + length (ti_Alerts i) + length (ti_Incidents i)
      + length (ti_Evidence i) + length (ti_Correlations i) \<and>
    (\<forall>j. same_input i j \<longrightarrow> inj_on timeline_order (set out) \<longrightarrow> BuildTimeline L j = Inr out)"
proof -
  have rows: "\<forall>r \<in> set (timeline_rows L i). \<not> isl r" "out = sort_key timeline_order (concat (map projr (timeline_rows L i)))"
    using assms unfolding BuildTimeline_def
    by (cases "gather (\<lambda>r. r) (timeline_rows L i)"; simp add: gather_results)+
  have "length (concat (map projr rs)) = length rs" if "\<forall>r \<in> set rs. length (projr r) = 1" for rs :: "(err + TimelineEntry list) list"
    using that by (induction rs) simp_all
  then have len: "length out = length (timeline_rows L i)" using rows rows_single by simp
  have "BuildTimeline L j = Inr out" if h: "same_input i j" "inj_on timeline_order (set out)" for j
  proof -
    have eq: "mset (timeline_rows L i) = mset (timeline_rows L j)" by (rule mset_rows [OF h(1)])
    then have "set (timeline_rows L i) = set (timeline_rows L j)" by (metis set_mset_mset)
    then have g: "gather (\<lambda>r. r) (timeline_rows L j) = Inr (concat (map projr (timeline_rows L j)))"
      using rows(1) by (simp add: gather_results)
    have "mset (concat (map projr (timeline_rows L j))) = mset out"
      unfolding rows(2) using mset_concat_rows [OF eq] by simp
    moreover have "sorted (map timeline_order out)" by (simp add: rows(2))
    moreover have "inj_on timeline_order (set (concat (map projr (timeline_rows L j))))"
      using h(2) calculation(1) by (metis set_mset_mset)
    ultimately show ?thesis unfolding BuildTimeline_def g by (simp add: sort_key_inj_key_eq)
  qed
  then show ?thesis using len by (simp add: rows(2) timeline_rows_def)
qed

theorem timeline_exact_witness:
  "\<exists>out. BuildTimeline example_pb \<lparr>ti_Events = [Some (ex_seen ''e1'' ''b'' 5)], ti_Detections = [], ti_Alerts = [],
      ti_Incidents = [], ti_Evidence = [], ti_Correlations = []\<rparr> = Inr out \<and> length out = 1"
proof -
  let ?i = "\<lparr>ti_Events = [Some (ex_seen ''e1'' ''b'' 5)], ti_Detections = [], ti_Alerts = [],
      ti_Incidents = [], ti_Evidence = [], ti_Correlations = []\<rparr>"
  obtain out where "BuildTimeline example_pb ?i = Inr out"
    by (simp add: BuildTimeline_def timeline_rows_def telemetry_row_def stamped_def ex_seen_def)
  from timeline_exact [OF this] this show ?thesis by auto
qed

subsection \<open>What an artifact keeps\<close>

lemma action_kept: "k \<in> set actionKeys \<Longrightarrow> \<not> artifact_drops k"
proof -
  have "list_all (\<lambda>k. \<not> artifact_drops k) actionKeys" by code_simp
  then show "k \<in> set actionKeys \<Longrightarrow> \<not> artifact_drops k" by (simp add: list_all_iff)
qed

lemma first_attr_cong: "(\<And>k. k \<in> set ks \<Longrightarrow> attr m k = attr m' k) \<Longrightarrow> first_attr m ks = first_attr m' ks"
  by (induction ks) auto

text \<open>
  No secret reaches an artifact, nor its digest: two events that agree on everything but the
  attributes whose keys name a secret have the same artifact, and its metadata has no such key.
\<close>

theorem artifact_ignores_secrets:
  assumes "ArtifactFor L (Some e) = Inr a"
  shows "(\<forall>k. artifact_drops k \<longrightarrow> fmlookup (ar_Metadata a) k = None) \<and>
    (\<forall>m. artifact_meta m = artifact_meta (te_attributes e) \<longrightarrow> ArtifactFor L (Some (e\<lparr>te_attributes := m\<rparr>)) = Inr a)"
proof -
  have "ArtifactFor L (Some (e\<lparr>te_attributes := m\<rparr>)) = Inr a" if h: "artifact_meta m = artifact_meta (te_attributes e)" for m
  proof -
    have "attr m k = attr (te_attributes e) k" if "k \<in> set actionKeys" for k
      using arg_cong [OF h, of "\<lambda>m. fmlookup m k"] action_kept [OF that] by (simp add: artifact_meta_def attr_def)
    then have "actionOf (e\<lparr>te_attributes := m\<rparr>) = actionOf e"
      unfolding actionOf_def by (simp add: first_attr_cong [of actionKeys m "te_attributes e"])
    moreover have "fingerprint L (e\<lparr>te_attributes := m\<rparr>) meta = fingerprint L e meta" for meta
      by (simp add: fingerprint_def occurred_def)
    ultimately show ?thesis using assms h by (auto simp: ArtifactFor_def Let_def is_corrupt_def occurred_def split: if_splits)
  qed
  moreover have "fmlookup (ar_Metadata a) k = None" if "artifact_drops k" for k
    using assms that by (auto simp: ArtifactFor_def Let_def artifact_meta_def split: if_splits)
  ultimately show ?thesis by blast
qed

theorem artifact_ignores_secrets_witness:
  "\<exists>a. ArtifactFor example_pb (Some ((ex_seen ''e1'' ''b'' 5)\<lparr>te_attributes := fmap_of_list [(''api_key'', ''k'')]\<rparr>)) = Inr a \<and>
     fmlookup (ar_Metadata a) ''api_key'' = None"
proof -
  let ?e = "(ex_seen ''e1'' ''b'' 5)\<lparr>te_attributes := fmap_of_list [(''api_key'', ''k'')]\<rparr>"
  obtain a where a: "ArtifactFor example_pb (Some ?e) = Inr a"
    by (simp add: ArtifactFor_def Let_def is_corrupt_def ex_seen_def)
  have "artifact_drops ''api_key''" by code_simp
  then show ?thesis using artifact_ignores_secrets [OF a] a by blast
qed

text \<open>
  The keys that name a secret to the forensic layer are not those of the contract: an
  \<open>authorization\<close> header and the hyphenated spellings of the key attributes stay in the metadata.
\<close>

theorem artifact_keeps_authorization:
  "SensitiveField ''http.authorization'' \<and> SensitiveField ''x-api-key'' \<and> SensitiveField ''access-key'' \<and>
   \<not> artifact_drops ''http.authorization'' \<and> \<not> artifact_drops ''x-api-key'' \<and> \<not> artifact_drops ''access-key'' \<and>
   (\<exists>a. ArtifactFor example_pb (Some ((ex_seen ''e1'' ''net.connection'' 5)\<lparr>te_attributes :=
      fmap_of_list [(''http.authorization'', ''Bearer abc'')]\<rparr>)) = Inr a \<and>
      fmlookup (ar_Metadata a) ''http.authorization'' = Some ''Bearer abc'')"
proof -
  have s: "SensitiveField ''http.authorization''" "SensitiveField ''x-api-key''" "SensitiveField ''access-key''" by code_simp+
  have d: "\<not> artifact_drops ''http.authorization''" "\<not> artifact_drops ''x-api-key''" "\<not> artifact_drops ''access-key''" by code_simp+
  show ?thesis using s d
    by (simp add: ArtifactFor_def Let_def is_corrupt_def ex_seen_def artifact_meta_def fmlookup_of_list)
qed

text \<open>
  The row of an evidence item does not name its type: the conversion of the enum number to a
  string is the character with that code.
\<close>

lemma evidence_summary_is_a_control_character:
  assumes "evidence_row L (Some e) = Inr [r]" and "ev_type e = 1"
  shows "tl_Summary r = [CHR 0x01]"
proof -
  have "rune_string 1 = [CHR 0x01]" by code_simp
  then show ?thesis
    using assms by (auto simp: evidence_row_def stamped_def corrupt_row_def entry_of_def split: option.splits)
qed

end
