(* ===== verification/InvestigateRules.thy ===== *)
theory InvestigateRules
  imports Investigate DetectEngine
begin

text \<open>
  The investigative rules (\<open>detect/investigate.go\<close>): activity of one principal across domains, linked
  stages of one asset, and the detections filed for evidence that fails verification.
\<close>

subsection \<open>Activity across domains\<close>

definition domainOf :: "string \<Rightarrow> string" where
  "domainOf eventType =
     (if eventType = ''auth.activity'' then ''authentication''
      else if eventType = ''identity.activity'' then ''identity''
      else if eventType = ''data.activity'' then ''data''
      else if eventType = ''net.connection'' then ''network''
      else if eventType \<in> {''http.request'', ''waf.request_blocked'', ''waf.request_allowed''} then ''application''
      else if eventType = ''endpoint.activity'' then ''endpoint''
      else if eventType = ''server.activity'' then ''server''
      else if eventType = ''container.activity'' then ''container''
      else if eventType = ''cloud.activity'' then ''cloud''
      else [])"

record domainSight =
  ds_at :: gotime
  ds_id :: string
  ds_severity :: enum

record cross_state =
  cs_seen :: "domainSight gomap gomap"
  cs_fired :: "bool gomap"

definition NewCrossDomainPrincipalRule :: "int \<Rightarrow> duration \<Rightarrow> gotime option \<Rightarrow> burst_config res" where
  "NewCrossDomainPrincipalRule threshold window clock =
     (if threshold < 2 then Inl (Plain (''detect: cross-domain threshold must be >= 2, got '' @ itoa threshold))
      else if window \<le> 0 then Inl (Plain (''detect: cross-domain window must be > 0, got '' @ duration_String window))
      else if clock = None then Inl (Plain ''detect: cross-domain clock is nil'')
      else Inr \<lparr>bc_threshold = threshold, bc_window = window\<rparr>)"

definition sights_of :: "string \<Rightarrow> cross_state \<Rightarrow> domainSight gomap" where
  "sights_of who s = (case fmlookup (cs_seen s) who of None \<Rightarrow> fmempty | Some m \<Rightarrow> m)"

definition sight :: "pblib \<Rightarrow> TelemetryEvent \<Rightarrow> domainSight" where
  "sight L e = \<lparr>ds_at = occurred L e, ds_id = te_id e, ds_severity = te_severity e\<rparr>"

text \<open>The sights of a principal after one more event: noted, and the stale ones deleted.\<close>

definition next_sights :: "pblib \<Rightarrow> duration \<Rightarrow> TelemetryEvent \<Rightarrow> domainSight gomap \<Rightarrow> domainSight gomap" where
  "next_sights L window e m =
     (let m1 = fmupd (domainOf (te_event_type e)) (sight L e) m; cutoff = occurred L e - window in
      fmfilter (\<lambda>d. case fmlookup m1 d of None \<Rightarrow> False | Some s \<Rightarrow> \<not> ds_at s < cutoff) m1)"

definition cross_outcome :: "burst_config \<Rightarrow> string \<Rightarrow> domainSight gomap \<Rightarrow> Outcome" where
  "cross_outcome r who m =
     (let n = itoa (int (length (sortedIDs m))) in
      match (foldl (\<lambda>peak s. if ds_severity s > peak then ds_severity s else peak) SEVERITY_INFO (values_sorted m))
        ''Cross-domain principal activity observed''
        (''principal '' @ quote who @ '' active in '' @ n @ '' domains ['' @ join '' '' (sortedIDs m) @ ''] within ''
          @ duration_String (bc_window r) @ '' (threshold '' @ itoa (bc_threshold r) @ '')'')
        (sort (map ds_id (values_sorted m)))
        [(''threshold'', itoa (bc_threshold r)), (''window'', duration_String (bc_window r)), (''count'', n), (''principal'', who)])"

definition CrossDomain_Evaluate ::
  "pblib \<Rightarrow> burst_config \<Rightarrow> gotime \<Rightarrow> TelemetryEvent option \<Rightarrow> cross_state \<Rightarrow> Outcome res \<times> cross_state" where
  "CrossDomain_Evaluate L r now p s =
     (case p of None \<Rightarrow> (Inl errNilEvent, s) | Some e \<Rightarrow>
       (case checkNetClock now ''cross-domain'' of Some x \<Rightarrow> (Inl x, s) | None \<Rightarrow>
         (let who = PrincipalOf (te_attributes e) in
          if domainOf (te_event_type e) = [] \<or> who = [] then (Inr no_match, s)
          else if IsZero (occurred L e) then (Inl (Plain ''detect: cross-domain needs occurred_at''), s)
          else
           (let m = next_sights L (bc_window r) e (sights_of who s);
                s1 = s\<lparr>cs_seen := fmupd who m (cs_seen s)\<rparr> in
            if int (length (sortedIDs m)) < bc_threshold r then (Inr no_match, s1\<lparr>cs_fired := fmupd who False (cs_fired s1)\<rparr>)
            else if fmlookup (cs_fired s1) who = Some True then (Inr no_match, s1)
            else (Inr (cross_outcome r who m), s1\<lparr>cs_fired := fmupd who True (cs_fired s1)\<rparr>)))))"

definition no_sights :: cross_state where
  "no_sights = \<lparr>cs_seen = fmempty, cs_fired = fmempty\<rparr>"

subsection \<open>Linked stages\<close>

definition stageOf :: "string \<Rightarrow> nat" where
  "stageOf eventType =
     (if eventType = ''net.connection'' then 1
      else if eventType = ''http.request'' then 2
      else if eventType = ''endpoint.activity'' \<or> eventType = ''server.activity'' then 3
      else 0)"

record chainState =
  ch_stage :: nat
  ch_ids :: "string list"
  ch_start :: gotime
  ch_last :: gotime
  ch_peak :: enum

definition empty_chain :: chainState where
  "empty_chain = \<lparr>ch_stage = 0, ch_ids = [], ch_start = zero_time, ch_last = zero_time, ch_peak = SEVERITY_UNSPECIFIED\<rparr>"

definition NewMultiStageAssetTimelineRule :: "duration \<Rightarrow> gotime option \<Rightarrow> duration res" where
  "NewMultiStageAssetTimelineRule window clock =
     (if window \<le> 0 then Inl (Plain (''detect: multi-stage window must be > 0, got '' @ duration_String window))
      else if clock = None then Inl (Plain ''detect: multi-stage clock is nil'')
      else Inr window)"

definition linkageOf :: "TelemetryEvent \<Rightarrow> string" where
  "linkageOf e = (if te_asset_id e \<noteq> [] then ''asset:'' @ te_asset_id e
     else if correlation_attr e \<noteq> [] then ''corr:'' @ correlation_attr e else [])"

definition timeline_outcome :: "duration \<Rightarrow> string \<Rightarrow> chainState \<Rightarrow> Outcome" where
  "timeline_outcome window key cn =
     (let arrow = '' '' @ [CHR 0xE2, CHR 0x86, CHR 0x92] @ '' '' in
      match (ch_peak cn) ''Multi-stage asset timeline observed''
        (''net'' @ arrow @ ''application'' @ arrow @ ''endpoint/server stages linked by '' @ quote key @ '' within ''
          @ duration_String window)
        (sort (ch_ids cn))
        [(''window'', duration_String window), (''linkage'', key), (''count'', ''3'')])"

text \<open>One step of a chain: what it becomes, and the finished chain if this event ends it.\<close>

definition chain_step :: "duration \<Rightarrow> nat \<Rightarrow> gotime \<Rightarrow> TelemetryEvent \<Rightarrow> chainState \<Rightarrow> chainState \<times> chainState option" where
  "chain_step window stage at e cn =
     (let ch1 = (if 0 < ch_stage cn \<and> window < time_Sub at (ch_start cn) then empty_chain else cn) in
      if stage = 1 \<and> ch_stage ch1 = 0 then
        (\<lparr>ch_stage = 1, ch_ids = [te_id e], ch_start = at, ch_last = at, ch_peak = te_severity e\<rparr>, None)
      else if stage = ch_stage ch1 + 1 \<and> \<not> at < ch_last ch1 then
       (let ch2 = ch1\<lparr>ch_stage := stage, ch_ids := ch_ids ch1 @ [te_id e], ch_last := at,
                      ch_peak := (if te_severity e > ch_peak ch1 then te_severity e else ch_peak ch1)\<rparr> in
        if stage = 3 then (empty_chain, Some ch2) else (ch2, None))
      else (ch1, None))"

definition chain_of :: "string \<Rightarrow> chainState gomap \<Rightarrow> chainState" where
  "chain_of key s = (case fmlookup s key of None \<Rightarrow> empty_chain | Some cn \<Rightarrow> cn)"

definition MultiStageAssetTimeline_Evaluate ::
  "pblib \<Rightarrow> duration \<Rightarrow> gotime \<Rightarrow> TelemetryEvent option \<Rightarrow> chainState gomap \<Rightarrow> Outcome res \<times> chainState gomap" where
  "MultiStageAssetTimeline_Evaluate L window now p s =
     (case p of None \<Rightarrow> (Inl errNilEvent, s) | Some e \<Rightarrow>
       (case checkNetClock now ''multi-stage'' of Some x \<Rightarrow> (Inl x, s) | None \<Rightarrow>
         if stageOf (te_event_type e) = 0 \<or> linkageOf e = [] then (Inr no_match, s)
         else if IsZero (occurred L e) then (Inl (Plain ''detect: multi-stage needs occurred_at''), s)
         else
          (case chain_step window (stageOf (te_event_type e)) (occurred L e) e (chain_of (linkageOf e) s) of
             (cn, full) \<Rightarrow>
               ((case full of None \<Rightarrow> Inr no_match | Some c \<Rightarrow> Inr (timeline_outcome window (linkageOf e) c)),
                fmupd (linkageOf e) cn s))))"

subsection \<open>Evidence that fails verification\<close>

record IntegrityFailure =
  if_Evidence :: "Evidence option"
  if_ExpectedDigest :: string
  if_TelemetryIDs :: "string list"

text \<open>The rule's constants; \<open>Evaluate\<close> never matches.\<close>

definition ForensicIntegrityFailure :: "'w Rule" where
  "ForensicIntegrityFailure = \<lparr>rl_ID = ''forensic-integrity-failure'', rl_Version = ''1'', rl_Name = ''Forensic integrity failure'',
     rl_thresholded = None, rl_eval = (\<lambda>e w. (Inr no_match, w))\<rparr>"

definition integrity_outcome :: "Evidence \<Rightarrow> string \<Rightarrow> string list \<Rightarrow> Outcome" where
  "integrity_outcome ev expected ids =
     match SEVERITY_HIGH ''Evidence integrity verification failed''
       (''stored evidence '' @ ev_id ev @ '' (incident '' @ ev_incident_id ev @ '') failed SHA-256 verification; expected '' @ expected)
       ids
       [(''evidence_id'', ev_id ev), (''incident_id'', ev_incident_id ev), (''expected_digest'', expected)]"

fun integrity_detections :: "pblib \<Rightarrow> (nat \<Rightarrow> gotime) \<Rightarrow> nat \<Rightarrow> IntegrityFailure list \<Rightarrow> Detection list res" where
  "integrity_detections L clock n [] = Inr []"
| "integrity_detections L clock n (f # fs) =
     (case if_Evidence f of
        None \<Rightarrow> Inl (Plain ''detect: integrity-failure nil evidence'')
      | Some ev \<Rightarrow>
          if if_TelemetryIDs f = [] then Inl (Plain (''detect: integrity-failure '' @ ev_id ev @ '' needs telemetry linkage''))
          else
           (case BuildDetection L (Some (ForensicIntegrityFailure :: unit Rule))
              (integrity_outcome ev (if_ExpectedDigest f) (if_TelemetryIDs f)) (clock n) of
              Inl x \<Rightarrow> Inl x
            | Inr det \<Rightarrow> map_sum id (\<lambda>ds. det # ds) (integrity_detections L clock (Suc n) fs)))"

definition IntegrityFailure_Detections :: "pblib \<Rightarrow> (nat \<Rightarrow> gotime) option \<Rightarrow> IntegrityFailure list \<Rightarrow> Detection list res" where
  "IntegrityFailure_Detections L p fs =
     (case p of None \<Rightarrow> Inl (Plain ''detect: integrity-failure needs a valid clock'')
      | Some clock \<Rightarrow>
          if IsZero (clock 0) then Inl (Plain ''detect: integrity-failure needs a valid clock'')
          else integrity_detections L clock 1 fs)"

subsection \<open>The rules keep the contract of a rule\<close>

definition sights_ok :: "cross_state \<Rightarrow> bool" where
  "sights_ok s \<longleftrightarrow> (\<forall>who m d x. fmlookup (cs_seen s) who = Some m \<longrightarrow> fmlookup m d = Some x \<longrightarrow>
     ds_id x \<noteq> [] \<and> SEVERITY_INFO \<le> ds_severity x \<and> ds_severity x \<le> SEVERITY_CRITICAL)"

lemma sights_of_ok: "sights_ok s \<Longrightarrow> fmlookup (sights_of who s) d = Some x \<Longrightarrow>
    ds_id x \<noteq> [] \<and> SEVERITY_INFO \<le> ds_severity x \<and> ds_severity x \<le> SEVERITY_CRITICAL"
  by (cases "fmlookup (cs_seen s) who") (auto simp: sights_ok_def sights_of_def)

lemma next_sights_Some:
  "fmlookup (next_sights L window e m) d = Some x \<Longrightarrow>
     \<not> ds_at x < occurred L e - window \<and> (d = domainOf (te_event_type e) \<and> x = sight L e \<or> fmlookup m d = Some x)"
  by (auto simp: next_sights_def Let_def split: if_splits option.splits)

lemma next_sights_own: "0 \<le> window \<Longrightarrow> fmlookup (next_sights L window e m) (domainOf (te_event_type e)) = Some (sight L e)"
  by (simp add: next_sights_def Let_def sight_def)

lemma cross_peak:
  assumes "\<And>d x. fmlookup m d = Some x \<Longrightarrow> ds_severity x \<le> SEVERITY_CRITICAL"
  shows "SEVERITY_INFO \<le> oc_Severity (cross_outcome r who m) \<and> oc_Severity (cross_outcome r who m) \<le> SEVERITY_CRITICAL \<and>
    (\<forall>d x. fmlookup m d = Some x \<longrightarrow> ds_severity x \<le> oc_Severity (cross_outcome r who m))"
proof -
  let ?f = "foldl max SEVERITY_INFO (map ds_severity (values_sorted m))"
  have "oc_Severity (cross_outcome r who m) = ?f"
    by (simp add: cross_outcome_def Let_def foldl_peak)
  moreover have "SEVERITY_INFO \<le> ?f" by (rule foldl_max_ge)
  moreover have "?f \<le> SEVERITY_CRITICAL"
    using foldl_max_in [of SEVERITY_INFO "map ds_severity (values_sorted m)"] assms
    by (auto simp: set_values_sorted)
  moreover have "ds_severity x \<le> ?f" if "fmlookup m d = Some x" for d x
    using that by (intro foldl_max_ge_mem) (auto simp: set_values_sorted)
  ultimately show ?thesis by metis
qed

lemma cross_domain_usable:
  assumes "good_event L e" and "sights_ok s" and "0 \<le> bc_window r"
  shows "sights_ok (snd (CrossDomain_Evaluate L r now (Some e) s)) \<and> usable e (fst (CrossDomain_Evaluate L r now (Some e) s))"
proof -
  note facts = good_event_facts [OF assms(1)]
  let ?who = "PrincipalOf (te_attributes e)"
  let ?m = "next_sights L (bc_window r) e (sights_of ?who s)"
  have m: "ds_id x \<noteq> [] \<and> SEVERITY_INFO \<le> ds_severity x \<and> ds_severity x \<le> SEVERITY_CRITICAL" if "fmlookup ?m d = Some x" for d x
    using next_sights_Some [OF that] sights_of_ok [OF assms(2), of ?who d x] facts by (auto simp: sight_def)
  have kept: "sights_ok (s\<lparr>cs_seen := fmupd ?who ?m (cs_seen s)\<rparr>)" "sights_ok (s\<lparr>cs_seen := fmupd ?who ?m (cs_seen s), cs_fired := f\<rparr>)" for f
    using assms(2) m unfolding sights_ok_def by (auto split: if_splits)
  have ids: "te_id e \<in> set (map ds_id (values_sorted ?m))"
    using next_sights_own [OF assms(3), of L e "sights_of ?who s"] by (force simp: set_values_sorted sight_def image_iff)
  then have "sort (map ds_id (values_sorted ?m)) \<noteq> []" by (metis empty_iff empty_set set_sort)
  moreover have "[] \<notin> set (map ds_id (values_sorted ?m))" using m by (force simp: set_values_sorted)
  ultimately have "buildable (cross_outcome r ?who ?m)"
    using cross_peak [of ?m r ?who] m unfolding cross_outcome_def Let_def by (intro buildable_match) auto
  then have "usable e (Inr (cross_outcome r ?who ?m))" using ids by (simp add: cross_outcome_def Let_def)
  then show ?thesis using kept assms(2) by (simp add: CrossDomain_Evaluate_def Let_def split: option.split)
qed

interpretation cross_domain: sound_rule "\<lambda>now e. CrossDomain_Evaluate L \<lparr>bc_threshold = n, bc_window = int w\<rparr> now (Some e)"
  sights_ok "good_event L" for L n w
  by (rule sound_ruleI) (simp add: cross_domain_usable)

text \<open>What a chain holds is a beginning of the sequence, made of events of its linkage.\<close>

definition chain_ok :: "chainState \<Rightarrow> bool" where
  "chain_ok cn \<longleftrightarrow> [] \<notin> set (ch_ids cn) \<and> ch_peak cn \<le> SEVERITY_CRITICAL \<and> (0 < ch_stage cn \<longrightarrow> SEVERITY_INFO \<le> ch_peak cn)"

definition chains_ok :: "chainState gomap \<Rightarrow> bool" where
  "chains_ok s \<longleftrightarrow> (\<forall>k cn. fmlookup s k = Some cn \<longrightarrow> chain_ok cn)"

lemma chain_of_ok: "chains_ok s \<Longrightarrow> chain_ok (chain_of k s)"
  by (cases "fmlookup s k") (auto simp: chains_ok_def chain_of_def chain_ok_def empty_chain_def boundary)

lemma chain_step_ok:
  assumes "good_event L e" and "chain_ok cn" and "chain_step window stage at e cn = (c1, full)"
  shows "chain_ok c1 \<and> (\<forall>c. full = Some c \<longrightarrow> chain_ok c \<and> 0 < ch_stage c \<and> te_id e \<in> set (ch_ids c))"
  using good_event_facts [OF assms(1)] assms(2,3)
  by (auto simp: chain_step_def chain_ok_def empty_chain_def Let_def boundary split: if_splits)

lemma timeline_usable:
  assumes "good_event L e" and "chains_ok s"
  shows "chains_ok (snd (MultiStageAssetTimeline_Evaluate L window now (Some e) s)) \<and>
    usable e (fst (MultiStageAssetTimeline_Evaluate L window now (Some e) s))"
proof -
  let ?k = "linkageOf e"
  obtain c full where step: "chain_step window (stageOf (te_event_type e)) (occurred L e) e (chain_of ?k s) = (c, full)"
    by (rule prod.exhaust)
  note ok = chain_step_ok [OF assms(1) chain_of_ok [OF assms(2)] step]
  have "chains_ok (fmupd ?k c s)" using ok assms(2) by (simp add: chains_ok_def)
  moreover have "usable e (Inr (timeline_outcome window ?k d))" if "full = Some d" for d
  proof -
    have d: "chain_ok d" "0 < ch_stage d" "te_id e \<in> set (ch_ids d)" using ok that by simp_all
    then have "sort (ch_ids d) \<noteq> []" by (metis empty_iff empty_set set_sort)
    then have "buildable (timeline_outcome window ?k d)"
      using d unfolding timeline_outcome_def Let_def by (intro buildable_match) (auto simp: chain_ok_def)
    then show ?thesis using d by (simp add: timeline_outcome_def Let_def)
  qed
  ultimately show ?thesis using assms(2)
    by (auto simp: MultiStageAssetTimeline_Evaluate_def step split: option.split)
qed

interpretation asset_timeline: sound_rule "\<lambda>now e. MultiStageAssetTimeline_Evaluate L window now (Some e)" chains_ok "good_event L" for L window
  by (rule sound_ruleI) (simp add: timeline_usable)

subsection \<open>What a match refers to\<close>

abbreviation cross_eval :: "pblib \<Rightarrow> burst_config \<Rightarrow> gotime \<Rightarrow> TelemetryEvent \<Rightarrow> cross_state \<Rightarrow> Outcome res \<times> cross_state" where
  "cross_eval L r now e \<equiv> CrossDomain_Evaluate L r now (Some e)"

text \<open>An event counts for a principal in a domain.\<close>

definition counts_in :: "string \<Rightarrow> string \<Rightarrow> TelemetryEvent \<Rightarrow> bool" where
  "counts_in who d e \<longleftrightarrow> PrincipalOf (te_attributes e) = who \<and> domainOf (te_event_type e) = d \<and> who \<noteq> [] \<and> d \<noteq> []"

lemma cross_eval_sights:
  "fmlookup (sights_of who (snd (cross_eval L r now e s))) d = Some x \<Longrightarrow>
     fmlookup (sights_of who s) d = Some x \<or> counts_in who d e \<and> x = sight L e"
proof (cases "PrincipalOf (te_attributes e) = who")
  case True
  assume h: "fmlookup (sights_of who (snd (cross_eval L r now e s))) d = Some x"
  have "sights_of who (snd (cross_eval L r now e s)) = sights_of who s \<or>
      (sights_of who (snd (cross_eval L r now e s)) = next_sights L (bc_window r) e (sights_of who s) \<and>
       counts_in who (domainOf (te_event_type e)) e)"
    by (simp add: CrossDomain_Evaluate_def Let_def True sights_of_def counts_in_def split: option.split)
  then show ?thesis using h next_sights_Some [of L "bc_window r" e "sights_of who s" d x] by auto
next
  case False
  assume "fmlookup (sights_of who (snd (cross_eval L r now e s))) d = Some x"
  then show ?thesis
    using False by (simp add: CrossDomain_Evaluate_def Let_def sights_of_def split: option.splits if_splits)
qed

lemma cross_feed_sights:
  "fmlookup (sights_of who (feed (cross_eval L r) es no_sights)) d = Some x \<Longrightarrow>
     \<exists>y \<in> set es. counts_in who d (snd y) \<and> x = sight L (snd y)"
proof (induction es rule: rev_induct)
  case Nil
  then show ?case by (simp add: sights_of_def no_sights_def)
next
  case (snoc y es)
  obtain now e where y: "y = (now, e)" by (rule prod.exhaust)
  show ?case using cross_eval_sights [of who L r now e _ d x] snoc unfolding y feed_snoc by fastforce
qed

lemma cross_eval_match:
  assumes "fst (cross_eval L r now e s) = Inr oc" and "oc_Matched oc"
  shows "counts_in (PrincipalOf (te_attributes e)) (domainOf (te_event_type e)) e \<and>
    bc_threshold r \<le> int (length (sortedIDs (next_sights L (bc_window r) e (sights_of (PrincipalOf (te_attributes e)) s)))) \<and>
    oc = cross_outcome r (PrincipalOf (te_attributes e)) (next_sights L (bc_window r) e (sights_of (PrincipalOf (te_attributes e)) s))"
  using assms by (auto simp: CrossDomain_Evaluate_def Let_def counts_in_def no_match_def split: option.splits if_splits)

text \<open>
  C39. A cross-domain match is backed by what was observed. It names one event in each of at least
  threshold many domains, the matching one among them: events of the stream with the same
  principal, none older than the window, and none rated higher than the match.
\<close>

theorem cross_domain_backed:
  assumes "fst (cross_eval L r now e (feed (cross_eval L r) past no_sights)) = Inr oc" and "oc_Matched oc" and "0 \<le> bc_window r"
  shows "\<exists>xs. oc_EventIDs oc = sort (map te_id xs) \<and> e \<in> set xs \<and> set xs \<subseteq> insert e (snd ` set past) \<and>
    bc_threshold r \<le> int (length xs) \<and> distinct (map (\<lambda>x. domainOf (te_event_type x)) xs) \<and>
    (\<forall>x \<in> set xs. counts_in (PrincipalOf (te_attributes e)) (domainOf (te_event_type x)) x \<and>
       occurred L e - bc_window r \<le> occurred L x)"
proof -
  let ?who = "PrincipalOf (te_attributes e)" and ?s = "feed (cross_eval L r) past no_sights"
  let ?m = "next_sights L (bc_window r) e (sights_of ?who ?s)"
  note match = cross_eval_match [OF assms(1,2)]
  have "\<exists>x. fmlookup ?m d = Some (sight L x) \<and> x \<in> insert e (snd ` set past) \<and> counts_in ?who d x \<and>
      occurred L e - bc_window r \<le> occurred L x \<and> (d = domainOf (te_event_type e) \<longrightarrow> x = e)"
    if h: "d \<in> set (sortedIDs ?m)" for d
  proof (cases "d = domainOf (te_event_type e)")
    case True
    then show ?thesis using next_sights_own [OF assms(3), of L e "sights_of ?who ?s"] match assms(3) by auto
  next
    case False
    obtain y where y: "fmlookup ?m d = Some y" using h by (auto simp: fmlookup_dom'_iff)
    then have old: "\<not> ds_at y < occurred L e - bc_window r" "fmlookup (sights_of ?who ?s) d = Some y"
      using next_sights_Some [OF y] False by auto
    obtain z where z: "z \<in> set past" "counts_in ?who d (snd z)" "y = sight L (snd z)"
      using cross_feed_sights [OF old(2)] by blast
    then show ?thesis using y old(1) False by (intro exI [of _ "snd z"]) (auto simp: sight_def)
  qed
  then obtain f where f: "\<And>d. d \<in> set (sortedIDs ?m) \<Longrightarrow> fmlookup ?m d = Some (sight L (f d)) \<and>
      f d \<in> insert e (snd ` set past) \<and> counts_in ?who d (f d) \<and> occurred L e - bc_window r \<le> occurred L (f d) \<and>
      (d = domainOf (te_event_type e) \<longrightarrow> f d = e)"
    by metis
  let ?xs = "map f (sortedIDs ?m)"
  have "map ds_id (values_sorted ?m) = map te_id ?xs"
    using f by (auto simp: values_sorted_eq_map sight_def)
  then have "oc_EventIDs oc = sort (map te_id ?xs)" using match by (simp add: cross_outcome_def Let_def)
  moreover have "domainOf (te_event_type e) \<in> set (sortedIDs ?m)"
    using next_sights_own [OF assms(3), of L e "sights_of ?who ?s"] by (auto simp: fmlookup_dom'_iff)
  then have "e \<in> set ?xs" using f by force
  moreover have "map (\<lambda>x. domainOf (te_event_type x)) ?xs = sortedIDs ?m"
    using f by (auto simp: counts_in_def intro!: map_idI)
  then have "distinct (map (\<lambda>x. domainOf (te_event_type x)) ?xs)" by simp
  moreover have "\<forall>x \<in> set ?xs. counts_in ?who (domainOf (te_event_type x)) x \<and> occurred L e - bc_window r \<le> occurred L x"
    using f by (auto simp: counts_in_def)
  moreover have "set ?xs \<subseteq> insert e (snd ` set past)" using f by auto
  ultimately show ?thesis using match by (intro exI [of _ ?xs]) simp
qed

definition ex_pair :: burst_config where
  "ex_pair = \<lparr>bc_threshold = 2, bc_window = 60000000000\<rparr>"

definition ex_step :: "string \<Rightarrow> string \<Rightarrow> int \<Rightarrow> TelemetryEvent" where
  "ex_step i kind t = ex_seen i kind t\<lparr>te_attributes := fmap_of_list [(''auth.principal'', ''alice'')]\<rparr>"

lemma ex_cross_run:
  "(case fst (cross_eval example_pb ex_pair 9 (ex_step ''n'' ''net.connection'' 8)
        (feed (cross_eval example_pb ex_pair) [(9, ex_step ''a'' ''auth.activity'' 5)] no_sights)) of
      Inl x \<Rightarrow> False | Inr oc \<Rightarrow> oc_Matched oc \<and> oc_EventIDs oc = [''a'', ''n''])"
  by code_simp

theorem cross_domain_backed_witness:
  "\<exists>(oc :: Outcome) (xs :: TelemetryEvent list). oc_EventIDs oc = [''a'', ''n''] \<and> oc_EventIDs oc = sort (map te_id xs) \<and> 2 \<le> int (length xs) \<and>
     distinct (map (\<lambda>x. domainOf (te_event_type x)) xs)"
proof -
  obtain oc where oc: "fst (cross_eval example_pb ex_pair 9 (ex_step ''n'' ''net.connection'' 8)
        (feed (cross_eval example_pb ex_pair) [(9, ex_step ''a'' ''auth.activity'' 5)] no_sights)) = Inr oc"
    "oc_Matched oc" "oc_EventIDs oc = [''a'', ''n'']"
    using ex_cross_run by (simp split: sum.splits)
  have num: "bc_threshold ex_pair = 2" "0 \<le> bc_window ex_pair" by (simp_all add: ex_pair_def)
  from cross_domain_backed [OF oc(1,2) num(2), unfolded num(1)] show ?thesis
    by (elim exE conjE) (intro exI conjI; (rule oc(3) | assumption))
qed

abbreviation asset_eval :: "pblib \<Rightarrow> duration \<Rightarrow> gotime \<Rightarrow> TelemetryEvent \<Rightarrow> chainState gomap \<Rightarrow> Outcome res \<times> chainState gomap" where
  "asset_eval L window now e \<equiv> MultiStageAssetTimeline_Evaluate L window now (Some e)"

text \<open>The beginnings of the sequence a chain can hold, over the events seen so far.\<close>

definition chain_shows :: "pblib \<Rightarrow> TelemetryEvent set \<Rightarrow> string \<Rightarrow> chainState \<Rightarrow> bool" where
  "chain_shows L E key cn \<longleftrightarrow> ch_stage cn = 0 \<and> ch_ids cn = [] \<or>
     (\<exists>n \<in> E. te_event_type n = ''net.connection'' \<and> linkageOf n = key \<and> ch_start cn = occurred L n \<and>
       (ch_stage cn = 1 \<and> ch_ids cn = [te_id n] \<and> ch_last cn = occurred L n \<or>
        (\<exists>h \<in> E. te_event_type h = ''http.request'' \<and> linkageOf h = key \<and> occurred L n \<le> occurred L h \<and>
           ch_stage cn = 2 \<and> ch_ids cn = [te_id n, te_id h] \<and> ch_last cn = occurred L h)))"

lemma chain_shows_mono: "chain_shows L E key cn \<Longrightarrow> E \<subseteq> F \<Longrightarrow> chain_shows L F key cn"
  unfolding chain_shows_def by blast

lemma stageOf_cases:
  "stageOf k = 1 \<longleftrightarrow> k = ''net.connection''" "stageOf k = 2 \<longleftrightarrow> k = ''http.request''"
  "stageOf k = 3 \<longleftrightarrow> k = ''endpoint.activity'' \<or> k = ''server.activity''"
  by (auto simp: stageOf_def)

lemma stageOf_le: "stageOf k \<le> 3"
  by (simp add: stageOf_def)

definition finished :: "pblib \<Rightarrow> duration \<Rightarrow> TelemetryEvent set \<Rightarrow> TelemetryEvent \<Rightarrow> string list \<Rightarrow> bool" where
  "finished L window E e ids \<longleftrightarrow> (\<exists>n \<in> E. \<exists>h \<in> E. te_event_type n = ''net.connection'' \<and> te_event_type h = ''http.request'' \<and>
     (te_event_type e = ''endpoint.activity'' \<or> te_event_type e = ''server.activity'') \<and>
     linkageOf n = linkageOf e \<and> linkageOf h = linkageOf e \<and> occurred L n \<le> occurred L h \<and> occurred L h \<le> occurred L e \<and>
     time_Sub (occurred L e) (occurred L n) \<le> window \<and> ids = [te_id n, te_id h, te_id e])"

lemma chain_step_shows:
  assumes "chain_shows L E (linkageOf e) cn" and "chain_step window (stageOf (te_event_type e)) (occurred L e) e cn = (c, full)"
  shows "chain_shows L (insert e E) (linkageOf e) c \<and> (\<forall>d. full = Some d \<longrightarrow> finished L window E e (ch_ids d))"
proof -
  define c1 where "c1 = (if 0 < ch_stage cn \<and> window < time_Sub (occurred L e) (ch_start cn) then empty_chain else cn)"
  have shows1: "chain_shows L E (linkageOf e) c1" using assms(1) by (auto simp: c1_def chain_shows_def empty_chain_def)
  have fresh: "0 < ch_stage c1 \<Longrightarrow> time_Sub (occurred L e) (ch_start c1) \<le> window"
    by (auto simp: c1_def empty_chain_def split: if_splits)
  note step = assms(2) [unfolded chain_step_def, folded c1_def, unfolded Let_def]
  consider (start) "stageOf (te_event_type e) = 1" "ch_stage c1 = 0"
    | (on) "stageOf (te_event_type e) = ch_stage c1 + 1" "0 < ch_stage c1" "\<not> occurred L e < ch_last c1"
    | (keep) "(c, full) = (c1, None)"
    using step by (auto split: if_splits)
  then show ?thesis
  proof cases
    case start
    then show ?thesis using step stageOf_cases(1) [of "te_event_type e"]
      by (auto simp: c1_def [symmetric] chain_shows_def Let_def)
  next
    case keep
    then show ?thesis using chain_shows_mono [OF shows1, of "insert e E"] by auto
  next
    case on
    obtain n where n: "n \<in> E" "te_event_type n = ''net.connection''" "linkageOf n = linkageOf e" "ch_start c1 = occurred L n"
      and more: "ch_stage c1 = 1 \<and> ch_ids c1 = [te_id n] \<and> ch_last c1 = occurred L n \<or>
        (\<exists>h \<in> E. te_event_type h = ''http.request'' \<and> linkageOf h = linkageOf e \<and> occurred L n \<le> occurred L h \<and>
           ch_stage c1 = 2 \<and> ch_ids c1 = [te_id n, te_id h] \<and> ch_last c1 = occurred L h)"
      using shows1 on(2) unfolding chain_shows_def by auto
    from more show ?thesis
    proof
      assume one: "ch_stage c1 = 1 \<and> ch_ids c1 = [te_id n] \<and> ch_last c1 = occurred L n"
      then have "te_event_type e = ''http.request''" using on(1) stageOf_cases(2) [of "te_event_type e"] by simp
      then show ?thesis using step on one n by (auto simp: chain_shows_def stageOf_def)
    next
      assume "\<exists>h \<in> E. te_event_type h = ''http.request'' \<and> linkageOf h = linkageOf e \<and> occurred L n \<le> occurred L h \<and>
           ch_stage c1 = 2 \<and> ch_ids c1 = [te_id n, te_id h] \<and> ch_last c1 = occurred L h"
      then obtain h where h: "h \<in> E" "te_event_type h = ''http.request''" "linkageOf h = linkageOf e" "occurred L n \<le> occurred L h"
        "ch_stage c1 = 2" "ch_ids c1 = [te_id n, te_id h]" "ch_last c1 = occurred L h" by blast
      have s3: "stageOf (te_event_type e) = 3" using on(1) h(5) by simp
      have kind: "te_event_type e = ''endpoint.activity'' \<or> te_event_type e = ''server.activity''"
        using s3 stageOf_cases(3) by simp
      have "c = empty_chain" "\<exists>d. full = Some d \<and> ch_ids d = [te_id n, te_id h, te_id e]"
        using step s3 on(3) h(5,6) by auto
      moreover have "finished L window E e [te_id n, te_id h, te_id e]"
        unfolding finished_def using n h(1-4,7) kind on(3) fresh [OF on(2)] by force
      ultimately show ?thesis by (auto simp: chain_shows_def empty_chain_def)
    qed
  qed
qed

lemma asset_feed_shows:
  "chain_shows L (snd ` set es) key (chain_of key (feed (asset_eval L window) es fmempty))"
proof (induction es rule: rev_induct)
  case Nil
  then show ?case by (simp add: chain_of_def chain_shows_def empty_chain_def)
next
  case (snoc y es)
  obtain now e where y: "y = (now, e)" by (rule prod.exhaust)
  let ?s = "feed (asset_eval L window) es fmempty"
  have more: "chain_shows L (snd ` set (es @ [y])) key (chain_of key ?s)"
    by (rule chain_shows_mono [OF snoc.IH]) auto
  obtain c full where step: "chain_step window (stageOf (te_event_type e)) (occurred L e) e (chain_of (linkageOf e) ?s) = (c, full)"
    by (rule prod.exhaust)
  have "snd (asset_eval L window now e ?s) \<in> {?s, fmupd (linkageOf e) c ?s}"
    by (simp add: MultiStageAssetTimeline_Evaluate_def step split: option.split)
  moreover have "key = linkageOf e \<Longrightarrow> chain_shows L (snd ` set (es @ [y])) key c"
    using chain_step_shows [OF _ step, of "snd ` set es"] snoc.IH by (simp add: y)
  ultimately show ?case using more unfolding y feed_snoc by (auto simp: chain_of_def)
qed

text \<open>
  A timeline match is backed by the sequence it claims: a connection, then a request, then the
  matching endpoint or server event, all of one linkage, in the order of their instants and
  within the window, and it names exactly these three.
\<close>

theorem asset_timeline_backed:
  assumes "fst (asset_eval L window now e (feed (asset_eval L window) past fmempty)) = Inr oc" and "oc_Matched oc"
  shows "\<exists>n h. n \<in> snd ` set past \<and> h \<in> snd ` set past \<and> te_event_type n = ''net.connection'' \<and> te_event_type h = ''http.request'' \<and>
    (te_event_type e = ''endpoint.activity'' \<or> te_event_type e = ''server.activity'') \<and>
    linkageOf n = linkageOf e \<and> linkageOf h = linkageOf e \<and> linkageOf e \<noteq> [] \<and>
    occurred L n \<le> occurred L h \<and> occurred L h \<le> occurred L e \<and> time_Sub (occurred L e) (occurred L n) \<le> window \<and>
    oc_EventIDs oc = sort [te_id n, te_id h, te_id e]"
proof -
  let ?s = "feed (asset_eval L window) past fmempty"
  obtain c full where step: "chain_step window (stageOf (te_event_type e)) (occurred L e) e (chain_of (linkageOf e) ?s) = (c, full)"
    by (rule prod.exhaust)
  obtain d where d: "full = Some d" "oc = timeline_outcome window (linkageOf e) d" "linkageOf e \<noteq> []"
    using assms by (auto simp: MultiStageAssetTimeline_Evaluate_def step no_match_def split: option.splits if_splits)
  have "finished L window (snd ` set past) e (ch_ids d)"
    using chain_step_shows [OF asset_feed_shows step] d(1) by blast
  then obtain n h where "n \<in> snd ` set past" "h \<in> snd ` set past" "te_event_type n = ''net.connection''"
    "te_event_type h = ''http.request''" "te_event_type e = ''endpoint.activity'' \<or> te_event_type e = ''server.activity''"
    "linkageOf n = linkageOf e" "linkageOf h = linkageOf e" "occurred L n \<le> occurred L h" "occurred L h \<le> occurred L e"
    "time_Sub (occurred L e) (occurred L n) \<le> window" and ids: "ch_ids d = [te_id n, te_id h, te_id e]"
    unfolding finished_def by blast
  moreover have "oc_EventIDs oc = sort (ch_ids d)" by (simp add: d(2) timeline_outcome_def Let_def)
  then have "oc_EventIDs oc = sort [te_id n, te_id h, te_id e]" unfolding ids .
  ultimately show ?thesis using d(3) by blast
qed


definition ex_sequence :: "(gotime \<times> TelemetryEvent) list" where
  "ex_sequence = [(20, ex_seen ''n'' ''net.connection'' 9), (20, ex_seen ''h'' ''http.request'' 11)]"

lemma ex_sequence_run:
  "(case fst (asset_eval example_pb 10000000000 20 (ex_seen ''e'' ''endpoint.activity'' 12)
        (feed (asset_eval example_pb 10000000000) ex_sequence fmempty)) of
      Inl x \<Rightarrow> False | Inr oc \<Rightarrow> oc_Matched oc \<and> oc_EventIDs oc = [''e'', ''h'', ''n''])"
  by code_simp

theorem asset_timeline_backed_witness:
  "\<exists>(oc :: Outcome) n h. oc_EventIDs oc = [''e'', ''h'', ''n''] \<and> n \<in> snd ` set ex_sequence \<and> h \<in> snd ` set ex_sequence \<and>
     te_event_type n = ''net.connection'' \<and> te_event_type h = ''http.request''"
proof -
  obtain oc where oc: "fst (asset_eval example_pb 10000000000 20 (ex_seen ''e'' ''endpoint.activity'' 12)
        (feed (asset_eval example_pb 10000000000) ex_sequence fmempty)) = Inr oc"
    "oc_Matched oc" "oc_EventIDs oc = [''e'', ''h'', ''n'']"
    using ex_sequence_run by (simp split: sum.splits)
  from asset_timeline_backed [OF oc(1,2)] show ?thesis
    by (elim exE conjE) (intro exI conjI; (rule oc(3) | assumption))
qed

text \<open>One event whose stage is known, as the rule takes it.\<close>

lemma asset_eval_step:
  assumes "checkNetClock now ''multi-stage'' = None" and "stageOf (te_event_type e) = n" and "0 < n" and "linkageOf e = key"
    and "key \<noteq> []" and "\<not> IsZero (occurred L e)" and "chain_of key s = cn"
    and "chain_step window n (occurred L e) e cn = (c, full)"
  shows "asset_eval L window now e s =
    ((case full of None \<Rightarrow> Inr no_match | Some d \<Rightarrow> Inr (timeline_outcome window key d)), fmupd key c s)"
  using assms by (cases full) (simp_all add: MultiStageAssetTimeline_Evaluate_def)

definition opened :: "pblib \<Rightarrow> TelemetryEvent \<Rightarrow> chainState" where
  "opened L x = \<lparr>ch_stage = 1, ch_ids = [te_id x], ch_start = occurred L x, ch_last = occurred L x, ch_peak = te_severity x\<rparr>"

text \<open>The steps of a chain that a connection opened.\<close>

lemma chain_step_opened:
  "chain_step window 1 (occurred L x) x empty_chain = (opened L x, None)"
  "time_Sub (occurred L y) (occurred L x) \<le> window \<Longrightarrow> chain_step window 1 (occurred L y) y (opened L x) = (opened L x, None)"
  "time_Sub (occurred L y) (occurred L x) \<le> window \<Longrightarrow> occurred L x \<le> occurred L y \<Longrightarrow>
     \<exists>c. chain_step window 2 (occurred L y) y (opened L x) = (c, None) \<and> ch_stage c = 2 \<and> ch_start c = occurred L x \<and> ch_last c = occurred L y"
  by (simp_all add: chain_step_def empty_chain_def opened_def)

lemma chain_step_last:
  "ch_stage c = 2 \<Longrightarrow> time_Sub (occurred L e) (ch_start c) \<le> window \<Longrightarrow> ch_last c \<le> occurred L e \<Longrightarrow>
     \<exists>d. chain_step window 3 (occurred L e) e c = (empty_chain, Some d)"
  "ch_stage c = 2 \<Longrightarrow> window < time_Sub (occurred L e) (ch_start c) \<Longrightarrow>
     chain_step window 3 (occurred L e) e c = (empty_chain, None)"
  by (simp_all add: chain_step_def empty_chain_def)

lemma chain_of_upd [simp]: "chain_of key (fmupd key c s) = c"
  by (simp add: chain_of_def)



end
