(* ===== verification/Config.thy ===== *)
theory Config
  imports ApiAuth Assets
begin

text \<open>
  \<open>internal/config\<close>, and what \<open>cmd/collector\<close> makes of it: the settings, their defaults, the layers
  file, environment and flags, their validation, the gate that serving builds from them, and the
  generation of a key. What lies outside is a record of arguments: the environment, the file
  system, the JSON decoders, \<open>time.ParseDuration\<close> (its fractions are floating point), \<open>time.Parse\<close>, the
  loading of a certificate. A failing one gives its error text.
\<close>

subsection \<open>The settings\<close>

abbreviation (input) EnvLab :: string where "EnvLab \<equiv> ''lab''"
abbreviation (input) EnvProduction :: string where "EnvProduction \<equiv> ''production''"
abbreviation (input) BackendSQLite :: string where "BackendSQLite \<equiv> ''sqlite''"
abbreviation (input) BackendPostgres :: string where "BackendPostgres \<equiv> ''postgres''"

record PostgresConfig =
  pg_Host :: string
  pg_Port :: int
  pg_User :: string
  pg_Password :: string
  pg_DBName :: string
  pg_SSLMode :: string
  pg_MaxConns :: int
  pg_ConnectTimeout :: string
  pg_QueryTimeout :: string

record DatabaseConfig =
  dbc_Backend :: string
  dbc_SQLitePath :: string
  dbc_Postgres :: PostgresConfig

record TLSConfig =
  tls_Enabled :: bool
  tls_CertFile :: string
  tls_KeyFile :: string
  tls_MinVersion :: string
  tls_ExplicitInsecureHTTP :: bool

record APIKey =
  apk_ID :: string
  apk_Role :: string
  apk_Hash :: string
  apk_ExpiresAt :: string

record AuthConfig =
  auc_Enabled :: bool
  auc_Keys :: "APIKey list"
  auc_PublicPaths :: "string list"

record LoggingConfig =
  log_Level :: string
  log_Format :: string

record LimitsConfig =
  lim_RequestBodyBytes :: int
  lim_ReadHeaderTimeout :: string
  lim_ShutdownTimeout :: string

record IOCSetConfig =
  ics_Path :: string
  ics_ID :: string
  ics_Version :: string

record ServerConfig =
  cf_Env :: string
  cf_ListenAddr :: string
  cf_Database :: DatabaseConfig
  cf_TLS :: TLSConfig
  cf_Auth :: AuthConfig
  cf_Logging :: LoggingConfig
  cf_Limits :: LimitsConfig
  cf_UIDir :: string
  cf_IOCSet :: IOCSetConfig

record outside =
  os_LookupEnv :: "string \<Rightarrow> string option"
  os_ReadFile :: "string \<Rightarrow> string + string"
  json_Config :: "string \<Rightarrow> string + ServerConfig"
  json_Keys :: "string \<Rightarrow> APIKey list option"
  time_ParseDuration :: "string \<Rightarrow> string + duration"
  time_RFC3339 :: "string \<Rightarrow> string + gotime"
  tls_LoadX509KeyPair :: "string \<Rightarrow> string \<Rightarrow> string option"

definition no_postgres :: PostgresConfig where
  "no_postgres = \<lparr>pg_Host = [], pg_Port = 0, pg_User = [], pg_Password = [], pg_DBName = [], pg_SSLMode = [], pg_MaxConns = 0,
     pg_ConnectTimeout = [], pg_QueryTimeout = []\<rparr>"

definition LabDefaults :: ServerConfig where
  "LabDefaults =
     \<lparr>cf_Env = EnvLab, cf_ListenAddr = ''127.0.0.1:8008'',
      cf_Database = \<lparr>dbc_Backend = BackendSQLite, dbc_SQLitePath = [], dbc_Postgres = no_postgres\<rparr>,
      cf_TLS = \<lparr>tls_Enabled = False, tls_CertFile = [], tls_KeyFile = [], tls_MinVersion = ''1.3'', tls_ExplicitInsecureHTTP = False\<rparr>,
      cf_Auth = \<lparr>auc_Enabled = False, auc_Keys = [], auc_PublicPaths = [''/api/v1/healthz'']\<rparr>,
      cf_Logging = \<lparr>log_Level = ''info'', log_Format = ''text''\<rparr>,
      cf_Limits = \<lparr>lim_RequestBodyBytes = 2 ^ 20, lim_ReadHeaderTimeout = ''5s'', lim_ShutdownTimeout = ''10s''\<rparr>,
      cf_UIDir = ''collector/ui/dist'',
      cf_IOCSet = \<lparr>ics_Path = [], ics_ID = [], ics_Version = []\<rparr>\<rparr>"

text \<open>A field that is empty takes the default.\<close>

definition or_default :: "string \<Rightarrow> string \<Rightarrow> string" where
  "or_default v d = (if v = [] then d else v)"

definition applyDefaults :: "ServerConfig \<Rightarrow> ServerConfig" where
  "applyDefaults c =
     (let d = LabDefaults in
      c\<lparr>cf_Env := or_default (cf_Env c) (cf_Env d),
        cf_ListenAddr := or_default (cf_ListenAddr c) (cf_ListenAddr d),
        cf_Logging := \<lparr>log_Level = or_default (log_Level (cf_Logging c)) (log_Level (cf_Logging d)),
                       log_Format = or_default (log_Format (cf_Logging c)) (log_Format (cf_Logging d))\<rparr>,
        cf_Limits := \<lparr>lim_RequestBodyBytes = (if lim_RequestBodyBytes (cf_Limits c) = 0 then lim_RequestBodyBytes (cf_Limits d)
                                             else lim_RequestBodyBytes (cf_Limits c)),
                      lim_ReadHeaderTimeout = or_default (lim_ReadHeaderTimeout (cf_Limits c)) (lim_ReadHeaderTimeout (cf_Limits d)),
                      lim_ShutdownTimeout = or_default (lim_ShutdownTimeout (cf_Limits c)) (lim_ShutdownTimeout (cf_Limits d))\<rparr>,
        cf_TLS := (cf_TLS c)\<lparr>tls_MinVersion := or_default (tls_MinVersion (cf_TLS c)) (tls_MinVersion (cf_TLS d))\<rparr>,
        cf_UIDir := or_default (cf_UIDir c) (cf_UIDir d)\<rparr>)"

text \<open>
  \<open>Redacted\<close> copies the structure, and with it the slice of keys, whose array the copy shares: the
  loop that clears the hashes of the copy clears those of the original. The result is the
  copy and what the original is afterwards.
\<close>

definition Redacted :: "ServerConfig \<Rightarrow> ServerConfig \<times> ServerConfig" where
  "Redacted c =
     (let keys = map (\<lambda>k. k\<lparr>apk_Hash := []\<rparr>) (auc_Keys (cf_Auth c));
          original = c\<lparr>cf_Auth := (cf_Auth c)\<lparr>auc_Keys := keys\<rparr>\<rparr> in
      (original\<lparr>cf_Database := (cf_Database c)\<lparr>dbc_Postgres := (dbc_Postgres (cf_Database c))\<lparr>pg_Password := []\<rparr>\<rparr>\<rparr>, original))"

subsection \<open>Addresses\<close>

text \<open>The text of the errors of \<open>net.SplitHostPort\<close> and \<open>strconv.Atoi\<close>.\<close>

definition apos :: "string \<Rightarrow> string" where
  "apos s = [CHR 0x27] @ s @ [CHR 0x27]"

definition split_why :: "string \<Rightarrow> string" where
  "split_why s =
     (case last_colon s of
        None \<Rightarrow> ''missing port in address''
      | Some (hd0, port) \<Rightarrow>
          if has_prefix ''['' s then
            (let inner = takeWhile (\<lambda>c. c \<noteq> CHR '']'') (tl s); rest = dropWhile (\<lambda>c. c \<noteq> CHR '']'') (tl s)
             in if rest = [] then ''missing '' @ apos '']'' @ '' in address''
                else if length (inner @ '']'') + 1 \<noteq> length hd0
                  then (if has_prefix '':'' (tl rest) then ''too many colons in address'' else ''missing port in address'')
                else if CHR ''['' \<in> set inner \<or> CHR ''['' \<in> set port then ''unexpected '' @ apos ''['' @ '' in address''
                else ''unexpected '' @ apos '']'' @ '' in address'')
          else if CHR '':'' \<in> set hd0 then ''too many colons in address''
          else if CHR ''['' \<in> set s then ''unexpected '' @ apos ''['' @ '' in address''
          else ''unexpected '' @ apos '']'' @ '' in address'')"


text \<open>A digit that is none, and the place where the value leaves 64 bits, are met from the left.\<close>

fun atoi_why :: "nat \<Rightarrow> string \<Rightarrow> string" where
  "atoi_why v [] = ''value out of range''"
| "atoi_why v (c # cs) =
     (if \<not> is_digit c then ''invalid syntax''
      else if 2 ^ 64 \<le> 10 * v + digit_val c then ''value out of range''
      else atoi_why (10 * v + digit_val c) cs)"

definition Atoi_error :: "string \<Rightarrow> string" where
  "Atoi_error s =
     (let d = (if has_prefix ''-'' s \<or> has_prefix ''+'' s then tl s else s) in
      ''strconv.Atoi: parsing '' @ quote s @ '': '' @ (if d = [] then ''invalid syntax'' else atoi_why 0 d))"

definition config_splitHostPort :: "string \<Rightarrow> string + string \<times> string" where
  "config_splitHostPort addr =
     (case SplitHostPort addr of
        None \<Rightarrow> Inl (if addr = [] then split_why addr else ''address '' @ addr @ '': '' @ split_why addr)
      | Some (host, port) \<Rightarrow>
          if port = [] then Inl ''missing port''
          else if Atoi port = None then Inl (''bad port: '' @ Atoi_error port)
          else Inr (host, port))"

text \<open>\<open>net.ParseIP\<close> refuses a zone; an IPv4 address in IPv6 is one of IPv4.\<close>

definition ip_loopback :: "Addr \<Rightarrow> bool" where
  "ip_loopback a =
     (case a of
        V4 fs \<Rightarrow> hd fs = 127
      | V6 bs z \<Rightarrow> z = [] \<and> (if Is4In6 bs then bs ! 12 = 127 else bs = replicate 15 0 @ [1]))"

definition isLoopback :: "string \<Rightarrow> bool" where
  "isLoopback host \<longleftrightarrow> host = ''localhost'' \<or> (case ParseAddr host of None \<Rightarrow> False | Some a \<Rightarrow> ip_loopback a)"

subsection \<open>Validation\<close>

definition bad :: "string \<Rightarrow> err" where
  "bad what = Plain (''config: '' @ what)"

definition validateDatabase :: "outside \<Rightarrow> ServerConfig \<Rightarrow> goerr" where
  "validateDatabase W c =
     (let db = cf_Database c; pg = dbc_Postgres db in
      first_err [
        (if dbc_Backend db = BackendSQLite then first_err [
           fail_if (TrimSpace (dbc_SQLitePath db) = []) (bad ''database.sqlite_path is required''),
           fail_if (cf_Env c = EnvProduction \<and> dbc_SQLitePath db = '':memory:'') (bad ''sqlite :memory: is not a production database'')]
         else if dbc_Backend db = BackendPostgres then first_err [
           fail_if (TrimSpace (pg_Host pg) = []) (bad ''database.postgres.host is required''),
           fail_if (pg_Port pg \<le> 0 \<or> 65535 < pg_Port pg) (bad ''database.postgres.port out of range''),
           fail_if (TrimSpace (pg_User pg) = []) (bad ''database.postgres.user is required''),
           fail_if (TrimSpace (pg_DBName pg) = []) (bad ''database.postgres.dbname is required''),
           fail_if (pg_Password pg = [] \<and> \<not> has_prefix ''/'' (pg_Host pg) \<and> pg_Host pg \<noteq> ''localhost'')
             (bad ''database.postgres.password is required for TCP connections''),
           fail_if (pg_SSLMode pg \<notin> {[], ''disable'', ''require'', ''verify-ca'', ''verify-full''}) (bad ''database.postgres.sslmode unknown''),
           fail_if (cf_Env c = EnvProduction \<and> (pg_SSLMode pg = [] \<or> pg_SSLMode pg = ''disable'') \<and> \<not> has_prefix ''/'' (pg_Host pg))
             (bad ''production postgres over TCP requires sslmode require or stronger''),
           fail_if (pg_MaxConns pg < 0) (bad ''database.postgres.max_conns must not be negative''),
           (if pg_ConnectTimeout pg = [] then None
            else (case time_ParseDuration W (pg_ConnectTimeout pg) of
                    Inl x \<Rightarrow> Some (bad (''database.postgres.connect_timeout invalid: '' @ x)) | Inr d \<Rightarrow> None))]
         else Some (bad (''database.backend must be '' @ quote BackendSQLite @ '' or '' @ quote BackendPostgres))),
        fail_if (pg_QueryTimeout pg \<noteq> [] \<and> (case time_ParseDuration W (pg_QueryTimeout pg) of Inl x \<Rightarrow> True | Inr d \<Rightarrow> d \<le> 0))
          (bad ''database.postgres.query_timeout must be a positive duration'')])"

definition validateTLS :: "outside \<Rightarrow> ServerConfig \<Rightarrow> goerr" where
  "validateTLS W c =
     (let t = cf_TLS c in
      if tls_MinVersion t \<notin> {[], ''1.2'', ''1.3''} then Some (bad ''tls.min_version must be 1.2 or 1.3'')
      else if \<not> tls_Enabled t then first_err [
        fail_if (cf_Env c = EnvProduction \<and> \<not> tls_ExplicitInsecureHTTP t)
          (bad ''production requires tls.enabled or explicit tls.explicit_insecure_http''),
        fail_if (tls_CertFile t \<noteq> [] \<or> tls_KeyFile t \<noteq> []) (bad ''tls cert/key files require tls.enabled'')]
      else if tls_CertFile t = [] \<or> tls_KeyFile t = [] then Some (bad ''tls.enabled requires tls.cert_file and tls.key_file'')
      else map_option (\<lambda>x. bad (''tls cert/key failed to load: '' @ x)) (tls_LoadX509KeyPair W (tls_CertFile t) (tls_KeyFile t)))"

definition looksLikeHash :: "string \<Rightarrow> bool" where
  "looksLikeHash h \<longleftrightarrow>
     has_prefix ''$2a$'' h \<or> has_prefix ''$2b$'' h \<or> has_prefix ''$2y$'' h \<or> has_prefix ''$argon2'' h"

text \<open>The checks of one key, which is the \<open>i\<close>th, and of the list, with the ids before it.\<close>

definition check_key :: "outside \<Rightarrow> gotime \<Rightarrow> nat \<Rightarrow> string list \<Rightarrow> APIKey \<Rightarrow> goerr" where
  "check_key W now i seen k =
     (let whose = ''auth.keys id '' @ quote (apk_ID k) in
      first_err [
        fail_if (TrimSpace (apk_ID k) = []) (bad (''auth.keys['' @ utoa i @ ''].id is empty'')),
        fail_if (apk_ID k \<in> set seen) (bad (whose @ '' is duplicated'')),
        fail_if (\<not> ValidRole (apk_Role k)) (bad (whose @ '' has unknown role'')),
        fail_if (\<not> looksLikeHash (apk_Hash k)) (bad (whose @ '' hash is malformed (want a password hash)'')),
        (if apk_ExpiresAt k = [] then None
         else (case time_RFC3339 W (apk_ExpiresAt k) of
                 Inl x \<Rightarrow> Some (bad (whose @ '' expires_at invalid (RFC3339 required)''))
               | Inr t \<Rightarrow> fail_if (\<not> now < t) (bad (whose @ '' is already expired''))))])"

fun config_keys :: "outside \<Rightarrow> gotime \<Rightarrow> nat \<Rightarrow> string list \<Rightarrow> APIKey list \<Rightarrow> goerr" where
  "config_keys W now i seen [] = None"
| "config_keys W now i seen (k # ks) =
     (case check_key W now i seen k of Some e \<Rightarrow> Some e | None \<Rightarrow> config_keys W now (Suc i) (apk_ID k # seen) ks)"

definition validateAuth :: "outside \<Rightarrow> gotime \<Rightarrow> ServerConfig \<Rightarrow> goerr" where
  "validateAuth W now c =
     (if \<not> auc_Enabled (cf_Auth c) then fail_if (cf_Env c = EnvProduction) (bad ''production requires auth.enabled'')
      else if auc_Keys (cf_Auth c) = []
        then Some (bad ''auth.enabled requires at least one auth key (no default production credential)'')
      else config_keys W now 0 [] (auc_Keys (cf_Auth c)))"

definition config_Validate :: "outside \<Rightarrow> gotime \<Rightarrow> ServerConfig \<Rightarrow> goerr" where
  "config_Validate W now c =
     first_err [
       fail_if (cf_Env c \<notin> {EnvLab, EnvProduction}) (bad (''env must be '' @ quote EnvLab @ '' or '' @ quote EnvProduction)),
       fail_if (TrimSpace (cf_ListenAddr c) = []) (bad ''listen_addr is empty''),
       (case config_splitHostPort (cf_ListenAddr c) of
          Inl x \<Rightarrow> Some (bad (''listen_addr invalid: '' @ x))
        | Inr (host, port) \<Rightarrow>
            fail_if (cf_Env c = EnvLab \<and> \<not> isLoopback host) (bad ''lab listen_addr must be loopback (127.0.0.1, localhost, ::1)'')),
       fail_if (log_Level (cf_Logging c) \<notin> {''debug'', ''info'', ''warn'', ''error''}) (bad ''logging.level must be debug|info|warn|error''),
       fail_if (log_Format (cf_Logging c) \<notin> {''text'', ''json''}) (bad ''logging.format must be text|json''),
       fail_if (lim_RequestBodyBytes (cf_Limits c) \<le> 0) (bad ''limits.request_body_bytes must be positive''),
       (case time_ParseDuration W (lim_ReadHeaderTimeout (cf_Limits c)) of
          Inl x \<Rightarrow> Some (bad (''limits.read_header_timeout invalid: '' @ x)) | Inr d \<Rightarrow> None),
       fail_if (case time_ParseDuration W (lim_ShutdownTimeout (cf_Limits c)) of Inl x \<Rightarrow> True | Inr d \<Rightarrow> d \<le> 0)
         (bad ''limits.shutdown_timeout must be a positive duration''),
       validateDatabase W c, validateTLS W c, validateAuth W now c,
       fail_if (ics_Path (cf_IOCSet c) = [] \<and> (ics_ID (cf_IOCSet c) \<noteq> [] \<or> ics_Version (cf_IOCSet c) \<noteq> []))
         (bad ''ioc_set id/version require ioc_set path''),
       fail_if (ics_Path (cf_IOCSet c) \<noteq> [] \<and> (ics_ID (cf_IOCSet c) = [] \<or> ics_Version (cf_IOCSet c) = []))
         (bad ''ioc_set path requires ioc_set id and version'')]"

subsection \<open>The file and the environment\<close>

definition LoadFile :: "outside \<Rightarrow> string \<Rightarrow> ServerConfig res" where
  "LoadFile W path =
     (case os_ReadFile W path of
        Inl x \<Rightarrow> Inl (bad (''read file: '' @ x))
      | Inr raw \<Rightarrow>
         (case json_Config W raw of
            Inl x \<Rightarrow> Inl (bad (''parse file: '' @ x))
          | Inr c \<Rightarrow> Inr (applyDefaults c)))"

definition os_Getenv :: "outside \<Rightarrow> string \<Rightarrow> string" where
  "os_Getenv W key = (case os_LookupEnv W key of None \<Rightarrow> [] | Some v \<Rightarrow> v)"

definition setIfEnv :: "outside \<Rightarrow> string \<Rightarrow> string \<Rightarrow> string" where
  "setIfEnv W key dst = (case os_LookupEnv W key of None \<Rightarrow> dst | Some v \<Rightarrow> v)"

text \<open>\<open>setIntIfEnv\<close> and \<open>setInt64IfEnv\<close>, which agree on 64 bits.\<close>

definition setIntIfEnv :: "outside \<Rightarrow> string \<Rightarrow> int \<Rightarrow> int" where
  "setIntIfEnv W key dst =
     (case os_LookupEnv W key of
        None \<Rightarrow> dst
      | Some v \<Rightarrow> (case Atoi (TrimSpace v) of None \<Rightarrow> dst | Some n \<Rightarrow> n))"

definition setBoolIfEnv :: "outside \<Rightarrow> string \<Rightarrow> bool \<Rightarrow> bool" where
  "setBoolIfEnv W key dst =
     (case os_LookupEnv W key of
        None \<Rightarrow> dst
      | Some v \<Rightarrow>
          let x = ToLower (TrimSpace v) in
          if x \<in> {''1'', ''true'', ''yes''} then True else if x \<in> {''0'', ''false'', ''no''} then False else dst)"

text \<open>The settings with a fixed vocabulary: what is not in it is ignored.\<close>

definition enum_env :: "outside \<Rightarrow> string \<Rightarrow> string list \<Rightarrow> string \<Rightarrow> string" where
  "enum_env W key words dst = (let v = ToLower (TrimSpace (os_Getenv W key)) in if v \<noteq> [] \<and> v \<in> set words then v else dst)"

definition env_keys :: "outside \<Rightarrow> APIKey list \<Rightarrow> APIKey list" where
  "env_keys W dst =
     (let v = TrimSpace (os_Getenv W ''BLUEVEIL_API_KEYS'') in
      if v = [] then dst else (case json_Keys W v of None \<Rightarrow> dst | Some ks \<Rightarrow> ks))"

definition env_paths :: "outside \<Rightarrow> string list \<Rightarrow> string list" where
  "env_paths W dst =
     (let v = TrimSpace (os_Getenv W ''BLUEVEIL_PUBLIC_PATHS'') in
      if v = [] then dst else map TrimSpace (split_on (CHR '','') v))"

definition env_postgres :: "outside \<Rightarrow> PostgresConfig \<Rightarrow> PostgresConfig" where
  "env_postgres W pg =
     \<lparr>pg_Host = setIfEnv W ''BLUEVEIL_PG_HOST'' (pg_Host pg), pg_Port = setIntIfEnv W ''BLUEVEIL_PG_PORT'' (pg_Port pg),
      pg_User = setIfEnv W ''BLUEVEIL_PG_USER'' (pg_User pg), pg_Password = setIfEnv W ''BLUEVEIL_PG_PASSWORD'' (pg_Password pg),
      pg_DBName = setIfEnv W ''BLUEVEIL_PG_DBNAME'' (pg_DBName pg), pg_SSLMode = setIfEnv W ''BLUEVEIL_PG_SSLMODE'' (pg_SSLMode pg),
      pg_MaxConns = setIntIfEnv W ''BLUEVEIL_PG_MAX_CONNS'' (pg_MaxConns pg),
      pg_ConnectTimeout = setIfEnv W ''BLUEVEIL_PG_TIMEOUT'' (pg_ConnectTimeout pg),
      pg_QueryTimeout = setIfEnv W ''BLUEVEIL_PG_QUERY_TIMEOUT'' (pg_QueryTimeout pg)\<rparr>"

definition ApplyEnv :: "outside \<Rightarrow> ServerConfig \<Rightarrow> ServerConfig" where
  "ApplyEnv W c =
     \<lparr>cf_Env = enum_env W ''BLUEVEIL_ENV'' [EnvLab, EnvProduction] (cf_Env c),
      cf_ListenAddr = setIfEnv W ''BLUEVEIL_ADDR'' (cf_ListenAddr c),
      cf_Database =
        \<lparr>dbc_Backend = enum_env W ''BLUEVEIL_DB_BACKEND'' [BackendSQLite, BackendPostgres] (dbc_Backend (cf_Database c)),
         dbc_SQLitePath = setIfEnv W ''BLUEVEIL_SQLITE_PATH'' (dbc_SQLitePath (cf_Database c)),
         dbc_Postgres = env_postgres W (dbc_Postgres (cf_Database c))\<rparr>,
      cf_TLS =
        \<lparr>tls_Enabled = setBoolIfEnv W ''BLUEVEIL_TLS_ENABLED'' (tls_Enabled (cf_TLS c)),
         tls_CertFile = setIfEnv W ''BLUEVEIL_TLS_CERT'' (tls_CertFile (cf_TLS c)),
         tls_KeyFile = setIfEnv W ''BLUEVEIL_TLS_KEY'' (tls_KeyFile (cf_TLS c)),
         tls_MinVersion = setIfEnv W ''BLUEVEIL_TLS_MIN'' (tls_MinVersion (cf_TLS c)),
         tls_ExplicitInsecureHTTP = setBoolIfEnv W ''BLUEVEIL_INSECURE_HTTP'' (tls_ExplicitInsecureHTTP (cf_TLS c))\<rparr>,
      cf_Auth =
        \<lparr>auc_Enabled = setBoolIfEnv W ''BLUEVEIL_AUTH_ENABLED'' (auc_Enabled (cf_Auth c)),
         auc_Keys = env_keys W (auc_Keys (cf_Auth c)),
         auc_PublicPaths = env_paths W (auc_PublicPaths (cf_Auth c))\<rparr>,
      cf_Logging =
        \<lparr>log_Level = setIfEnv W ''BLUEVEIL_LOG_LEVEL'' (log_Level (cf_Logging c)),
         log_Format = setIfEnv W ''BLUEVEIL_LOG_FORMAT'' (log_Format (cf_Logging c))\<rparr>,
      cf_Limits =
        (cf_Limits c)\<lparr>lim_RequestBodyBytes := setIntIfEnv W ''BLUEVEIL_MAX_BODY'' (lim_RequestBodyBytes (cf_Limits c)),
          lim_ReadHeaderTimeout := setIfEnv W ''BLUEVEIL_READ_HEADER_TIMEOUT'' (lim_ReadHeaderTimeout (cf_Limits c))\<rparr>,
      cf_UIDir = setIfEnv W ''BLUEVEIL_UI_DIR'' (cf_UIDir c),
      cf_IOCSet =
        \<lparr>ics_Path = setIfEnv W ''BLUEVEIL_IOC_SET'' (ics_Path (cf_IOCSet c)),
         ics_ID = setIfEnv W ''BLUEVEIL_IOC_SET_ID'' (ics_ID (cf_IOCSet c)),
         ics_Version = setIfEnv W ''BLUEVEIL_IOC_SET_VERSION'' (ics_Version (cf_IOCSet c))\<rparr>\<rparr>"

definition config_Load :: "outside \<Rightarrow> ServerConfig res" where
  "config_Load W =
     (let path = TrimSpace (os_Getenv W ''BLUEVEIL_CONFIG_FILE'') in
      map_sum id (ApplyEnv W) (if path = [] then Inr LabDefaults else LoadFile W path))"

subsection \<open>The flags\<close>

record serveFlags =
  fl_addr :: string
  fl_uiDir :: string
  fl_iocSetPath :: string
  fl_iocSetID :: string
  fl_iocSetVersion :: string
  fl_envName :: string
  fl_dbBackend :: string
  fl_tlsEnabled :: bool
  fl_tlsCert :: string
  fl_tlsKey :: string
  fl_authEnabled :: bool
  fl_logLevel :: string
  fl_logFormat :: string
  fl_dbPath :: string

text \<open>A flag that is not empty wins; one with a vocabulary must be in it.\<close>

definition flag_enum :: "string \<Rightarrow> string list \<Rightarrow> string \<Rightarrow> string \<Rightarrow> string res" where
  "flag_enum v words msg dst = (if v = [] then Inr dst else if ToLower v \<in> set words then Inr (ToLower v) else Inl (Plain msg))"

definition apply_flags :: "serveFlags \<Rightarrow> ServerConfig \<Rightarrow> ServerConfig res" where
  "apply_flags f c =
     (case flag_enum (fl_envName f) [EnvLab, EnvProduction] ''serve: --env must be lab|production'' (cf_Env c) of
        Inl e \<Rightarrow> Inl e
      | Inr env \<Rightarrow>
         (case flag_enum (fl_dbBackend f) [BackendSQLite, BackendPostgres] ''serve: --db-backend must be sqlite|postgres''
             (dbc_Backend (cf_Database c)) of
            Inl e \<Rightarrow> Inl e
          | Inr backend \<Rightarrow> Inr (c\<lparr>
              cf_Env := env,
              cf_ListenAddr := or_default (fl_addr f) (cf_ListenAddr c),
              cf_UIDir := or_default (fl_uiDir f) (cf_UIDir c),
              cf_IOCSet := \<lparr>ics_Path = or_default (fl_iocSetPath f) (ics_Path (cf_IOCSet c)),
                            ics_ID = or_default (fl_iocSetID f) (ics_ID (cf_IOCSet c)),
                            ics_Version = or_default (fl_iocSetVersion f) (ics_Version (cf_IOCSet c))\<rparr>,
              cf_Database := (cf_Database c)\<lparr>dbc_Backend := backend,
                                              dbc_SQLitePath := or_default (fl_dbPath f) (dbc_SQLitePath (cf_Database c))\<rparr>,
              cf_TLS := (cf_TLS c)\<lparr>tls_Enabled := fl_tlsEnabled f \<or> tls_Enabled (cf_TLS c),
                                    tls_CertFile := or_default (fl_tlsCert f) (tls_CertFile (cf_TLS c)),
                                    tls_KeyFile := or_default (fl_tlsKey f) (tls_KeyFile (cf_TLS c))\<rparr>,
              cf_Auth := (cf_Auth c)\<lparr>auc_Enabled := fl_authEnabled f \<or> auc_Enabled (cf_Auth c)\<rparr>,
              cf_Logging := \<lparr>log_Level = or_default (fl_logLevel f) (log_Level (cf_Logging c)),
                             log_Format = or_default (fl_logFormat f) (log_Format (cf_Logging c))\<rparr>\<rparr>)))"

definition serveConfig :: "outside \<Rightarrow> gotime \<Rightarrow> string \<Rightarrow> serveFlags \<Rightarrow> ServerConfig res" where
  "serveConfig W now configFile f =
     (case (if TrimSpace configFile \<noteq> [] then map_sum id (ApplyEnv W) (LoadFile W configFile) else config_Load W) of
        Inl e \<Rightarrow> Inl e
      | Inr c0 \<Rightarrow>
         (case apply_flags f c0 of
            Inl e \<Rightarrow> Inl e
          | Inr c \<Rightarrow> (case config_Validate W now c of Some e \<Rightarrow> Inl e | None \<Rightarrow> Inr c)))"

subsection \<open>Serving\<close>

text \<open>The part of \<open>runServe\<close> that builds the gate: no gate at all when authentication is off.\<close>

fun serve_keys :: "outside \<Rightarrow> APIKey list \<Rightarrow> Key list res" where
  "serve_keys W [] = Inr []"
| "serve_keys W (k # ks) =
     (case (if apk_ExpiresAt k = [] then Inr zero_time else time_RFC3339 W (apk_ExpiresAt k)) of
        Inl x \<Rightarrow> Inl (Plain (''serve: auth key '' @ quote (apk_ID k) @ '' expires_at invalid: '' @ x))
      | Inr t \<Rightarrow> map_sum id (\<lambda>ks'. \<lparr>key_ID = apk_ID k, key_Role = apk_Role k, key_Hash = apk_Hash k, key_ExpiresAt = t\<rparr> # ks')
                   (serve_keys W ks))"

definition serve_gate :: "outside \<Rightarrow> bcrypt \<Rightarrow> ServerConfig \<Rightarrow> AuthGate option res" where
  "serve_gate W B c =
     (if \<not> auc_Enabled (cf_Auth c) then Inr None
      else
       (case serve_keys W (auc_Keys (cf_Auth c)) of
          Inl e \<Rightarrow> Inl e
        | Inr keys \<Rightarrow>
           (case NewAPIKeyAuthenticator B keys False of
              Inl e \<Rightarrow> Inl (Plain (''serve: auth: '' @ err_Error e))
            | Inr ks \<Rightarrow> Inr (Some (UseAuth (Authenticate B ks) (auc_PublicPaths (cf_Auth c)))))))"

text \<open>The settings of the database driver.\<close>

record postgres_Config =
  pgc_Host :: string
  pgc_Port :: int
  pgc_User :: string
  pgc_Password :: string
  pgc_DBName :: string
  pgc_SSLMode :: string
  pgc_MaxConns :: int
  pgc_ConnectTimeout :: duration
  pgc_QueryTimeout :: duration

definition dur_or :: "outside \<Rightarrow> string \<Rightarrow> duration \<Rightarrow> duration" where
  "dur_or W s d = (if s = [] then d else case time_ParseDuration W s of Inl x \<Rightarrow> d | Inr v \<Rightarrow> v)"

definition pgConfigFrom :: "outside \<Rightarrow> ServerConfig \<Rightarrow> postgres_Config" where
  "pgConfigFrom W c =
     (let pg = dbc_Postgres (cf_Database c) in
      \<lparr>pgc_Host = pg_Host pg, pgc_Port = pg_Port pg, pgc_User = pg_User pg, pgc_Password = pg_Password pg,
       pgc_DBName = pg_DBName pg, pgc_SSLMode = pg_SSLMode pg, pgc_MaxConns = (if 0 < pg_MaxConns pg then pg_MaxConns pg else 8),
       pgc_ConnectTimeout = dur_or W (pg_ConnectTimeout pg) (10 * 1000000000),
       pgc_QueryTimeout = dur_or W (pg_QueryTimeout pg) 0\<rparr>)"

subsection \<open>Generating a key\<close>

text \<open>\<open>makeKeyEntry\<close> and \<open>runKeygen\<close>, up to the printing; bcrypt may refuse a secret.\<close>

definition makeKeyEntry :: "(string \<Rightarrow> string + string) \<Rightarrow> string \<Rightarrow> string \<Rightarrow> string \<Rightarrow> APIKey res" where
  "makeKeyEntry generate i role secret =
     (if TrimSpace i = [] then Inl (Plain ''keygen: id is empty'')
      else if \<not> ValidRole role then Inl (Plain (''keygen: unknown role '' @ quote role))
      else if secret = [] then Inl (Plain ''keygen: empty secret refused'')
      else (case generate secret of
              Inl x \<Rightarrow> Inl (Plain (''keygen: hash: '' @ x))
            | Inr h \<Rightarrow> Inr \<lparr>apk_ID = i, apk_Role = role, apk_Hash = h, apk_ExpiresAt = []\<rparr>))"

definition runKeygen :: "(string \<Rightarrow> string + string) \<Rightarrow> string \<Rightarrow> string \<Rightarrow> string \<Rightarrow> APIKey res" where
  "runKeygen generate i role stdin = makeKeyEntry generate i role (TrimSpace (take (2 ^ 20) stdin))"


subsection \<open>What validation gives\<close>

lemma serveConfig_Inr: "serveConfig W now file f = Inr c \<Longrightarrow> config_Validate W now c = None"
  by (auto simp: serveConfig_def split: sum.splits option.splits)

lemma Validate_parts:
  assumes "config_Validate W now c = None"
  shows "validateDatabase W c = None" "validateTLS W c = None" "validateAuth W now c = None"
    "\<exists>host port. config_splitHostPort (cf_ListenAddr c) = Inr (host, port) \<and> (cf_Env c = EnvLab \<longrightarrow> isLoopback host)"
  using assms by (auto simp: config_Validate_def split: sum.splits)

definition taken_from :: "outside \<Rightarrow> APIKey \<Rightarrow> Key \<Rightarrow> bool" where
  "taken_from W k key \<longleftrightarrow> key_ID key = apk_ID k \<and> key_Role key = apk_Role k \<and> key_Hash key = apk_Hash k \<and>
     (if apk_ExpiresAt k = [] then key_ExpiresAt key = zero_time else time_RFC3339 W (apk_ExpiresAt k) = Inr (key_ExpiresAt key))"

lemma serve_keys_Inr: "serve_keys W ks = Inr keys \<Longrightarrow> list_all2 (taken_from W) ks keys"
proof (induction ks arbitrary: keys)
  case (Cons k ks)
  obtain keys' where "serve_keys W ks = Inr keys'" using Cons.prems by (cases "serve_keys W ks") (auto split: sum.splits)
  moreover have "keys = hd keys # keys' \<and> taken_from W k (hd keys)"
    using Cons.prems calculation by (auto simp: taken_from_def split: sum.splits if_splits)
  ultimately show ?case using Cons.IH by (metis list_all2_Cons)
qed simp

lemma serve_keys_from:
  assumes "serve_keys W ks = Inr keys" and "key \<in> set keys"
  obtains k where "k \<in> set ks" "taken_from W k key"
  using serve_keys_Inr [OF assms(1)] assms(2) by (metis in_set_conv_nth list_all2_conv_all_nth)

lemma check_keys_cost: "check_keys B seen keys = None \<Longrightarrow> key \<in> set keys \<Longrightarrow> bc_CostOk B (key_Hash key)"
  by (induction B seen keys rule: check_keys.induct) (auto split: option.splits)

lemma serve_gate_Inr:
  assumes "serve_gate W B c = Inr (Some g)"
  obtains keys where "serve_keys W (auc_Keys (cf_Auth c)) = Inr keys" "check_keys B [] keys = None"
    "g = UseAuth (Authenticate B keys) (auc_PublicPaths (cf_Auth c))"
  using assms by (auto simp: serve_gate_def NewAPIKeyAuthenticator_def split: if_splits sum.splits option.splits)


text \<open>A closed example: a production server with one key, its file the only layer that says anything.\<close>

definition ex_hash :: "string \<Rightarrow> string + string" where
  "ex_hash s = Inr (''$2a$'' @ s)"

definition ex_verifier :: bcrypt where
  "ex_verifier = \<lparr>bc_CostOk = has_prefix ''$2'', bc_Matches = (\<lambda>h s. h = ''$2a$'' @ s)\<rparr>"

definition ex_server :: "string \<Rightarrow> string \<Rightarrow> string \<Rightarrow> ServerConfig" where
  "ex_server env addr hash = LabDefaults\<lparr>cf_Env := env, cf_ListenAddr := addr,
     cf_Database := \<lparr>dbc_Backend = BackendSQLite, dbc_SQLitePath = ''bv.db'', dbc_Postgres = no_postgres\<rparr>,
     cf_TLS := \<lparr>tls_Enabled = True, tls_CertFile = ''c.pem'', tls_KeyFile = ''k.pem'', tls_MinVersion = [], tls_ExplicitInsecureHTTP = False\<rparr>,
     cf_Auth := \<lparr>auc_Enabled = True, auc_Keys = [\<lparr>apk_ID = ''ops'', apk_Role = RoleAdmin, apk_Hash = hash, apk_ExpiresAt = []\<rparr>],
                 auc_PublicPaths = []\<rparr>\<rparr>"

definition ex_outside :: "ServerConfig \<Rightarrow> outside" where
  "ex_outside c = \<lparr>os_LookupEnv = (\<lambda>_. None), os_ReadFile = (\<lambda>_. Inr []), json_Config = (\<lambda>_. Inr c), json_Keys = (\<lambda>_. None),
     time_ParseDuration = (\<lambda>_. Inr 1000000000), time_RFC3339 = (\<lambda>_. Inl []), tls_LoadX509KeyPair = (\<lambda>_ _. None)\<rparr>"

definition no_flags :: serveFlags where
  "no_flags = \<lparr>fl_addr = [], fl_uiDir = [], fl_iocSetPath = [], fl_iocSetID = [], fl_iocSetVersion = [], fl_envName = [],
     fl_dbBackend = [], fl_tlsEnabled = False, fl_tlsCert = [], fl_tlsKey = [], fl_authEnabled = False, fl_logLevel = [],
     fl_logFormat = [], fl_dbPath = []\<rparr>"

abbreviation ex_serve where
  "ex_serve c \<equiv> serveConfig (ex_outside c) 0 ''server.json'' no_flags"

lemma ex_serve_run:
  "(case ex_serve (ex_server EnvProduction ''0.0.0.0:8443'' ''$2a$x'') of
      Inl e \<Rightarrow> False
    | Inr c \<Rightarrow> cf_Env c = EnvProduction \<and> auc_Enabled (cf_Auth c) \<and>
        (case serve_gate (ex_outside (ex_server EnvProduction ''0.0.0.0:8443'' ''$2a$x'')) ex_verifier c of Inl e \<Rightarrow> False | Inr g \<Rightarrow> True))"
  "(case ex_serve (ex_server EnvLab ''127.0.0.1:8443'' ''$2a$x'') of Inl e \<Rightarrow> False | Inr c \<Rightarrow> cf_Env c = EnvLab)"
  by code_simp+





text \<open>
  A laboratory server is local: the address it may listen on splits into a host that is \<open>localhost\<close> or an
  address of the loopback network, whatever set it.
\<close>

theorem lab_stays_local:
  assumes "serveConfig W now file f = Inr c" and "cf_Env c \<noteq> EnvProduction"
  shows "\<exists>host port a. SplitHostPort (cf_ListenAddr c) = Some (host, port) \<and> port \<noteq> [] \<and>
    (host = ''localhost'' \<or> ParseAddr host = Some a \<and> ip_loopback a)"
proof -
  have v: "config_Validate W now c = None" by (rule serveConfig_Inr [OF assms(1)])
  have "cf_Env c = EnvLab" using v assms(2) by (simp add: config_Validate_def)
  then obtain host port where "config_splitHostPort (cf_ListenAddr c) = Inr (host, port)" "isLoopback host"
    using Validate_parts(4) [OF v] by auto
  then show ?thesis by (auto simp: config_splitHostPort_def isLoopback_def split: option.splits if_splits)
qed

theorem lab_stays_local_witness:
  "\<exists>c host port. ex_serve (ex_server EnvLab ''127.0.0.1:8443'' ''$2a$x'') = Inr c \<and>
     SplitHostPort (cf_ListenAddr c) = Some (host, port) \<and> port \<noteq> []"
proof -
  obtain c where run: "ex_serve (ex_server EnvLab ''127.0.0.1:8443'' ''$2a$x'') = Inr c" "cf_Env c \<noteq> EnvProduction"
    using ex_serve_run(2) by (auto split: sum.splits)
  show ?thesis using lab_stays_local [OF run] run(1) by blast
qed

text \<open>
  A list of keys in the environment that does not decode is ignored: the keys of the file stay in
  force, and no later check can tell.
\<close>

theorem undecoded_keys_ignored:
  assumes "json_Keys W (TrimSpace (os_Getenv W ''BLUEVEIL_API_KEYS'')) = None"
  shows "auc_Keys (cf_Auth (ApplyEnv W c)) = auc_Keys (cf_Auth c)"
  using assms by (simp add: ApplyEnv_def env_keys_def Let_def)

text \<open>
  A key with a hash of the Argon family is valid to the configuration and stops the server when
  it starts, where the hash is one bcrypt does not know.
\<close>

theorem argon_never_starts:
  assumes "k \<in> set (auc_Keys (cf_Auth c))" and "has_prefix ''$argon2'' (apk_Hash k)" and "\<not> bc_CostOk B (apk_Hash k)"
    and "auc_Enabled (cf_Auth c)"
  shows "looksLikeHash (apk_Hash k) \<and> (\<exists>e. serve_gate W B c = Inl e)"
proof (cases "serve_gate W B c")
  case (Inr g)
  then obtain gate where "g = Some gate" using assms(4) by (auto simp: serve_gate_def split: sum.splits)
  then obtain keys where keys: "serve_keys W (auc_Keys (cf_Auth c)) = Inr keys" "check_keys B [] keys = None"
    using serve_gate_Inr Inr by metis
  obtain key where "key \<in> set keys" "taken_from W k key"
    using serve_keys_Inr [OF keys(1)] assms(1) by (metis in_set_conv_nth list_all2_conv_all_nth)
  then show ?thesis using check_keys_cost [OF keys(2), of key] assms(3) by (simp add: taken_from_def)
qed (use assms(2) in \<open>simp add: looksLikeHash_def\<close>)

theorem argon_never_starts_witness:
  "(\<exists>c. ex_serve (ex_server EnvProduction ''0.0.0.0:8443'' ''$argon2id$x'') = Inr c) \<and>
   (\<exists>e. serve_gate (ex_outside LabDefaults) ex_verifier (ex_server EnvProduction ''0.0.0.0:8443'' ''$argon2id$x'') = Inl e)"
proof -
  let ?c = "ex_server EnvProduction ''0.0.0.0:8443'' ''$argon2id$x''"
  let ?k = "\<lparr>apk_ID = ''ops'', apk_Role = RoleAdmin, apk_Hash = ''$argon2id$x'', apk_ExpiresAt = []\<rparr>"
  have k: "?k \<in> set (auc_Keys (cf_Auth ?c))" "auc_Enabled (cf_Auth ?c)" by (simp_all add: ex_server_def)
  have h: "has_prefix ''$argon2'' (apk_Hash ?k)" "\<not> bc_CostOk ex_verifier (apk_Hash ?k)" by (simp_all add: ex_verifier_def)
  have "case ex_serve ?c of Inl e \<Rightarrow> False | Inr c \<Rightarrow> True" by code_simp
  then have "\<exists>c. ex_serve ?c = Inr c" by (auto split: sum.splits)
  then show ?thesis using argon_never_starts [OF k(1) h k(2)] by blast
qed

text \<open>
  C36. A generated key opens the door it was made for. Whatever id, role and secret \<open>runKeygen\<close> accepts, its
  entry passes validation, the gate is built from it, and a request that bears the secret is
  identified as that id and role, given that bcrypt matches the hashes it makes.
\<close>

theorem generated_key_opens:
  assumes "runKeygen generate i role stdin = Inr k" and "auc_Enabled (cf_Auth c)" and "auc_Keys (cf_Auth c) = [k]"
    and bcrypt: "\<And>s h. generate s = Inr h \<Longrightarrow> has_prefix ''$2a$'' h \<and> bc_CostOk B h \<and> bc_Matches B h s"
    and bears: "rq_Authorization r = ''Bearer '' @ TrimSpace (take (2 ^ 20) stdin)"
  shows "validateAuth W now c = None \<and> (\<exists>g. serve_gate W B c = Inr (Some g) \<and> ga_auth g t r = Inr \<lparr>id_KeyID = i, id_Role = role\<rparr>)"
proof -
  define secret where "secret = TrimSpace (take (2 ^ 20) stdin)"
  obtain h where h: "generate secret = Inr h" "TrimSpace i \<noteq> []" "ValidRole role" "secret \<noteq> []"
    and k: "k = \<lparr>apk_ID = i, apk_Role = role, apk_Hash = h, apk_ExpiresAt = []\<rparr>"
    using assms(1) by (auto simp: runKeygen_def makeKeyEntry_def secret_def split: if_splits sum.splits)
  have b: "has_prefix ''$2a$'' h" "bc_CostOk B h" "bc_Matches B h secret" using bcrypt [OF h(1)] by simp_all
  have trim: "TrimSpace secret = secret" unfolding secret_def by simp
  let ?key = "\<lparr>key_ID = i, key_Role = role, key_Hash = h, key_ExpiresAt = zero_time\<rparr>"
  have keys: "serve_keys W (auc_Keys (cf_Auth c)) = Inr [?key]" by (simp add: assms(3) k)
  have "check_keys B [] [?key] = None" using h b by (simp add: fail_if_def)
  then have gate: "serve_gate W B c = Inr (Some (UseAuth (Authenticate B [?key]) (auc_PublicPaths (cf_Auth c))))"
    unfolding serve_gate_def keys NewAPIKeyAuthenticator_def using assms(2)
    by (simp only: sum.case simp_thms if_False if_True) (simp add: fail_if_def)
  have "rq_Authorization r = ''Bearer '' @ secret" using bears unfolding secret_def .
  then have "bearerSecret r = Inr secret" using h(4) trim by (simp add: bearerSecret_def Let_def)
  then have "Authenticate B [?key] t r = Inr \<lparr>id_KeyID = i, id_Role = role\<rparr>"
    using b(3) by (simp add: Authenticate_def IsZero_def)
  moreover have "validateAuth W now c = None"
    using h b(1) assms(2,3) by (simp add: validateAuth_def k check_key_def looksLikeHash_def Let_def fail_if_def)
  ultimately show ?thesis using gate by (simp add: UseAuth_def)
qed


theorem generated_key_opens_witness:
  "\<exists>k g. runKeygen ex_hash ''ops'' RoleAdmin '' pw '' = Inr k \<and>
     serve_gate (ex_outside LabDefaults) ex_verifier (LabDefaults\<lparr>cf_Auth := \<lparr>auc_Enabled = True, auc_Keys = [k], auc_PublicPaths = []\<rparr>\<rparr>) =
       Inr (Some g) \<and>
     ga_auth g 0 \<lparr>rq_Method = ''GET'', rq_Path = ''/api/v1/assets'', rq_Authorization = ''Bearer pw'', rq_RequestID = [],
       rq_Query = fmempty, rq_Body = []\<rparr> = Inr \<lparr>id_KeyID = ''ops'', id_Role = RoleAdmin\<rparr>"
proof -
  let ?r = "\<lparr>rq_Method = ''GET'', rq_Path = ''/api/v1/assets'', rq_Authorization = ''Bearer pw'', rq_RequestID = [],
       rq_Query = fmempty, rq_Body = []\<rparr>"
  have all: "take (2 ^ 20) '' pw '' = '' pw ''" by (rule take_all) simp
  have "TrimSpace '' pw '' = ''pw''" "TrimSpace ''ops'' \<noteq> []" "ValidRole RoleAdmin" by code_simp+
  then have trim: "TrimSpace (take (2 ^ 20) '' pw '') = ''pw''" "TrimSpace ''ops'' \<noteq> []" "ValidRole RoleAdmin"
    unfolding all .
  obtain k where k: "runKeygen ex_hash ''ops'' RoleAdmin '' pw '' = Inr k"
    unfolding runKeygen_def makeKeyEntry_def trim(1) using trim(2,3) by (simp add: ex_hash_def)
  let ?c = "LabDefaults\<lparr>cf_Auth := \<lparr>auc_Enabled = True, auc_Keys = [k], auc_PublicPaths = []\<rparr>\<rparr>"
  have c: "auc_Enabled (cf_Auth ?c)" "auc_Keys (cf_Auth ?c) = [k]" by simp_all
  have b: "ex_hash s = Inr h \<Longrightarrow> has_prefix ''$2a$'' h \<and> bc_CostOk ex_verifier h \<and> bc_Matches ex_verifier h s" for s h
    by (auto simp: ex_hash_def ex_verifier_def)
  have r: "rq_Authorization ?r = ''Bearer '' @ TrimSpace (take (2 ^ 20) '' pw '')" unfolding trim(1) by simp
  show ?thesis using generated_key_opens [OF k c b r, of "ex_outside LabDefaults" 0 0] k by blast
qed

end
