(* ===== verification/Spec2Isabelle.thy ===== *)
theory Spec2Isabelle
  imports Guarantees Incidents Memory EvidenceStore RuleStreams DetectEngine IncidentChain AssetStore RecordStore ValidationClaims Campaigns AssetRace ObsSinks NetRules AppRules IocMatch InvestigateRules Config
begin

text \<open>
  The Blueveil collector (\<open>src/collector\<close>): a verification development of its Go code.

  \<^bold>\<open>The program.\<close> The collector is a security pipeline. A \<^emph>\<open>source\<close> delivers raw telemetry; the
  \<^emph>\<open>pipeline\<close> normalizes, enriches and correlates one event at a time and hands it to a chain of
  \<^emph>\<open>sinks\<close>. Four sinks parse network, HTTP, infrastructure and identity observations, redact
  them and link them to the \<^emph>\<open>asset inventory\<close>; below them the incident stage runs the
  \<^emph>\<open>detection engine\<close> over its registered \<^emph>\<open>rules\<close>, turns matches into detections and alerts, captures
  \<^emph>\<open>evidence\<close> and folds alerts into \<^emph>\<open>incidents\<close>. The \<^emph>\<open>response engine\<close> takes an incident through
  recommend, decide, approve, execute and verify under a safety lifecycle and an audit log.
  \<^emph>\<open>Validation\<close> runs campaign cases through the same engine. Governance and supply-chain records
  are assessed and stored append-only. All of it sits behind one HTTP API with keys and roles.

  \<^bold>\<open>Vocabulary.\<close>
  \<^item> \<open>Prelude\<close>: Go errors as values, results as \<open>err + 'a\<close>, byte strings, instants and durations as
    integers of nanoseconds, maps as finite maps, the timestamp library \<open>pblib\<close> as a parameter.
  \<^item> \<open>GoTime\<close>, \<open>Sha256\<close>, \<open>NetAddr\<close>: what is used of \<open>time\<close>, \<open>crypto/sha256\<close> (executable, by blocks over
    32-bit words), \<open>net/netip\<close>, \<open>net\<close> and \<open>strconv\<close>.
  \<^item> \<open>Contract\<close>, \<open>Boundary\<close>: the messages of \<open>internal/contract/v1\<close> as records, enums as numbers, and
    every \<open>Validate*\<close> function of \<open>internal/contract\<close> as the list of its checks.
  \<^item> \<open>Archive\<close>: the two contracts of a store, \<open>archive\<close> (append-only) and \<open>lifecycle_store\<close> (create,
    then save), as locales; every repository interprets one of them.

  \<^bold>\<open>Response\<close> (\<open>internal/response\<close>). \<open>Safety\<close>: phases, gates, policies. \<open>Response\<close>: recommendations,
  approvals, executor and verifier boundary, audit entries. \<open>Engine\<close>: the engine, method by method, as
  a state transformer over its record of maps, the clock a function of the number of readings.
  \<open>Lifecycle\<close>: an abstract machine on one recommendation, the simulation of every method by its moves,
  reachable states and their invariants. \<open>Executor_Log\<close>: the executor wrapped by a log of its
  calls. \<open>Example_Run\<close>: one closed run. \<open>Guarantees\<close>: at most one call, authorized at its instant;
  the invariant; what VERIFIED means; refinement; the audit log.

  \<^bold>\<open>Incidents and evidence.\<close> \<open>Incidents\<close> (\<open>internal/incident\<close>, \<open>internal/correlate\<close>): the manager with its
  in-place updates. \<open>EvidenceStore\<close> (\<open>internal/evidence\<close>): items, digests, the store. \<open>Memory\<close>
  (\<open>store/memory.go\<close>, \<open>store/audit.go\<close>): the in-memory repositories and the audit archive.

  \<^bold>\<open>Detection\<close> (\<open>internal/detect\<close>, \<open>internal/threatintel\<close>). \<open>Windows\<close>: the event-time window. \<open>Rules\<close>: the waf,
  identity, data and multi-stage rules and the locale \<open>sound_rule\<close>, the law a rule owes the engine.
  \<open>BurstRules\<close>: the locale \<open>window_rule\<close>, from whose two laws both soundness and exact firing follow,
  interpreted on six rules. \<open>NetRules\<close>, \<open>AppRules\<close>, \<open>IocMatch\<close>: the network, HTTP, infrastructure and
  indicator rules. \<open>RuleStreams\<close>: what a match refers to over a stream. \<open>DetectEngine\<close>: registry, engine,
  statistics, engine-health rule, and the locale \<open>rule_set\<close>.

  \<^bold>\<open>Pipeline.\<close> \<open>Source\<close> (\<open>internal/source\<close>), \<open>Stages\<close> (\<open>normalize\<close>, \<open>enrich\<close>, \<open>correlate\<close>), \<open>Pipeline\<close>
  (\<open>pipeline.go\<close>: reader and loop as a step relation with a bounded queue), \<open>Sinks\<close> (\<open>forward.go\<close>, line and
  tee sinks), \<open>IncidentChain\<close> (\<open>detect_sink.go\<close>, \<open>incident_sink.go\<close> and the wired collector).

  \<^bold>\<open>Observations.\<close> \<open>NetObs\<close>, \<open>HttpObs\<close>, \<open>InfraObs\<close>, \<open>IdentObs\<close> (\<open>observation.go\<close> of the four packages: redaction,
  parsers, identities). \<open>Correlating\<close>: the shared shape of correlators and sinks, an early-return state
  monad over an interface of the inventory, and the locales that carry a relation on inventories
  through it. \<open>Correlators\<close> (\<open>correlate.go\<close>), \<open>ObsSinks\<close> (\<open>sink.go\<close> and the chain of \<open>cmd/collector/seed.go\<close>).

  \<^bold>\<open>Assets\<close> (\<open>internal/asset\<close>). \<open>Assets\<close>: canonical forms, identities, lifecycle, derived assets.
  \<open>AssetStore\<close>: the repositories and the manager. \<open>AssetRace\<close>: requests cut at their store operations,
  under every schedule, since each API request has a manager and a mutex of its own.

  \<^bold>\<open>Supply chain, governance, validation.\<close> \<open>SupplyChain\<close>, \<open>SupplyChecks\<close> (\<open>internal/supplychain\<close>), \<open>Governance\<close>
  (\<open>internal/grc\<close>), \<open>RecordStore\<close> (their repositories), \<open>Validation\<close>, \<open>ValidationRun\<close>, \<open>ValidationClaims\<close>,
  \<open>Campaigns\<close> (\<open>internal/validation\<close>).

  \<^bold>\<open>API\<close> (\<open>internal/auth\<close>, \<open>internal/api\<close>, \<open>internal/obs\<close>). \<open>ApiAuth\<close>: keys, roles, gate, log redaction.
  \<open>ApiServer\<close>: the handlers of \<open>api.go\<close> and \<open>assets.go\<close>, the route table, the composed handler.
  \<open>ApiClaims\<close>: which requests can change the inventory, and who can send them.

  \<^bold>\<open>Monitoring and investigation.\<close> \<open>Monitor\<close> (\<open>internal/monitor\<close>): queries over stored events and the
  correlations of the monitoring view. \<open>Investigate\<close> (\<open>internal/investigate\<close>): hunting, the timeline, forensic
  artifacts. \<open>InvestigateRules\<close> (\<open>detect/investigate.go\<close>): the rules for one principal across domains, for
  linked stages of one asset, and for evidence that fails verification.

  \<^bold>\<open>Configuration.\<close> \<open>Config\<close> (\<open>internal/config\<close>, and \<open>serveconfig.go\<close>, \<open>serve.go\<close>, \<open>keygen.go\<close> of
  \<open>cmd/collector\<close>): the settings and their layers, validation, the gate a server is started with.

  \<^bold>\<open>What the lemmas show.\<close> Each component has its well-formedness invariant, kept by every
  operation; the exact effect of its operations, error branches included; and where it has a
  contract, a refinement or the interpretation of a locale. Across components: every state of
  a run of the wired collector is consistent, and the chain of sinks keeps the inventory sound
  and lets no sensitive attribute of the events it handles through. Several properties state
  what goes wrong: an allowlist that is not consulted, an interleaving that revives a retired
  asset, a failed run that blocks its reader, a hunt that loses matches, a sequence that is missed.

  \<^bold>\<open>Bounds.\<close> There is no fuel: loops are structural recursion, or a \<open>function\<close> with a measure (blocks
  of the digest; writes of a line, which end because a writer accepts at least a byte or fails).
  The pipeline run is a step relation with a bound on its length. Ports are 16-bit and digest
  words 32-bit words; durations are 64-bit in Go and \<open>time.Sub\<close> saturates as there; other
  integers never come near their bounds and are unbounded.

  \<^bold>\<open>Parameters.\<close> What is not Go code of the repository is an argument: \<open>pblib\<close> (protobuf timestamps,
  with their documented round trip), canonical JSON, JSON decoders, \<open>time.Parse\<close> and
  \<open>time.ParseDuration\<close>, the environment, certificates, \<open>net/url\<close>, writers, the Python normalizer and file reads, bcrypt, response serialization, a policy, an
  executor, a verifier or a provider where the code takes an interface. Clocks are functions of
  the reading or instants; the visiting order of a map is an argument where it could matter.
  Request paths are taken without percent-encoding.

  \<^bold>\<open>Not modelled.\<close> The SQLite and PostgreSQL backends and backup: SQL text, database files and
  processes whose behaviour is outside the repository; the memory backend states the contract
  they share. The read-only JSON views of the other files of \<open>internal/api\<close>: they list stored
  records and re-parse stored events with the parsers modelled here. The dispatch of the command
  line, the listener and its shutdown, the description of rules (\<open>detect/metadata.go\<close>), the benchmark
  and test fixtures, the generated protobuf code beyond its messages and enums, contexts and cancellation (except in the pipeline), and the strings of
  rule names and descriptions beyond those a detection carries. Mutexes are modelled as the
  atomicity they give, except where \<open>AssetRace\<close> studies their absence.
\<close>

end
